(* ===== verification/Prelude.thy ===== *)
theory Prelude
  imports Main "HOL-Library.Char_ord" "HOL-Library.List_Lexorder" "HOL-Library.Sublist"
begin

text \<open>
  Shared vocabulary of the development: the Python string operations the sources use, the
  truthiness of optional strings, and the SQLite row operations (UPDATE by primary key,
  INSERT OR IGNORE, upsert) on tables kept as association lists from primary keys to rows.

  A Python \<open>str\<close> is a \<open>string\<close> whose characters stand for the code points below 256, a
  value that may be \<open>None\<close> (or SQL NULL) is an \<open>option\<close>. Strings are compared with the
  lexicographic order of the library theories Char\_ord and List\_Lexorder, which is the
  order SQLite's BINARY collation and Python's \<open><\<close> use on them.
\<close>

named_theorems table_simps \<open>laws of the table operations\<close>
named_theorems row_simps \<open>how an operation acts on one row\<close>

section \<open>Python strings\<close>

definition py_isspace :: "char \<Rightarrow> bool" where
  "py_isspace c = (let n = (of_char c :: nat) in
     (9 \<le> n \<and> n \<le> 13) \<or> (28 \<le> n \<and> n \<le> 32) \<or> n = 133 \<or> n = 160)"

definition py_lstrip :: "string \<Rightarrow> string" where
  "py_lstrip s = dropWhile py_isspace s"

definition py_rstrip :: "string \<Rightarrow> string" where
  "py_rstrip s = rev (dropWhile py_isspace (rev s))"

definition py_strip :: "string \<Rightarrow> string" where
  "py_strip s = py_rstrip (py_lstrip s)"

definition lower_char :: "char \<Rightarrow> char" where
  "lower_char c = (let n = (of_char c :: nat) in
     if (65 \<le> n \<and> n \<le> 90) \<or> (192 \<le> n \<and> n \<le> 222 \<and> n \<noteq> 215) then char_of (n + 32) else c)"

definition py_lower :: "string \<Rightarrow> string" where
  "py_lower s = map lower_char s"

text \<open>Full case folding differs from lower-casing below 256 in the sharp s (223), which folds
  to two letters, and the micro sign (181), which folds to a code point above 255 and is kept
  here: neither spelling is a word of any vocabulary the sources compare with.\<close>

definition py_casefold :: "string \<Rightarrow> string" where
  "py_casefold s = concat (map (\<lambda>c. if (of_char c :: nat) = 223 then ''ss'' else [lower_char c]) s)"

text \<open>The character functions on the bits of a character, for evaluation.\<close>

lemma py_isspace_code [code]: "py_isspace (Char b0 b1 b2 b3 b4 b5 b6 b7) =
   (if b7 then \<not> b6 \<and> \<not> b4 \<and> \<not> b3 \<and> \<not> b1 \<and> (if b5 then \<not> b0 \<and> \<not> b2 else b0 \<and> b2)
    else \<not> b6 \<and> (if b5 then \<not> b4 \<and> \<not> b3 \<and> \<not> b2 \<and> \<not> b1 \<and> \<not> b0
      else b3 \<and> (if b4 then b2 else if b2 then \<not> b1 else b0 \<or> b1)))"
  by (cases b0; cases b1; cases b2; cases b3; cases b4; cases b5; cases b6; cases b7; simp add: py_isspace_def)

lemma lower_char_code [code]: "lower_char (Char b0 b1 b2 b3 b4 b5 b6 b7) =
   (if b6 \<and> \<not> b5 \<and> (if b7 then \<not> (b4 \<and> b3 \<and> b2 \<and> b1 \<and> b0) \<and> \<not> (b4 \<and> \<not> b3 \<and> b2 \<and> b1 \<and> b0)
       else (b0 \<or> b1 \<or> b2 \<or> b3 \<or> b4) \<and> \<not> (b4 \<and> b3 \<and> (b2 \<or> b1 \<and> b0)))
    then Char b0 b1 b2 b3 b4 True b6 b7 else Char b0 b1 b2 b3 b4 b5 b6 b7)"
  by (cases b0; cases b1; cases b2; cases b3; cases b4; cases b5; cases b6; cases b7; simp add: lower_char_def char_of_def bit_Suc_0_iff)

lemma char_code_iff: "(of_char c :: nat) = n \<and> n < 256 \<longleftrightarrow> c = char_of n \<and> n < 256"
  by auto

lemma py_casefold_code [code]:
  "py_casefold s = concat (map (\<lambda>c. if c = CHR 0xDF then ''ss'' else [lower_char c]) s)"
proof -
  have "(of_char c :: nat) = 223 \<longleftrightarrow> c = CHR 0xDF" for c
    using char_code_iff [of c 223] by (simp add: char_of_def bit_simps)
  then show ?thesis
    by (simp add: py_casefold_def)
qed

definition py_startswith :: "string \<Rightarrow> string \<Rightarrow> bool" where
  "py_startswith s p = prefix p s"

definition py_endswith :: "string \<Rightarrow> string \<Rightarrow> bool" where
  "py_endswith s p = suffix p s"

text \<open>\<open>s.find(sub, start)\<close>: the least position from \<open>start\<close> at which \<open>sub\<close> occurs.\<close>

fun find_from :: "string \<Rightarrow> string \<Rightarrow> nat \<Rightarrow> nat option" where
  "find_from sub [] i = (if sub = [] then Some i else None)"
| "find_from sub (c # s) i = (if prefix sub (c # s) then Some i else find_from sub s (Suc i))"

definition py_find :: "string \<Rightarrow> string \<Rightarrow> nat \<Rightarrow> nat option" where
  "py_find s sub start = (if start \<le> length s then find_from sub (drop start s) start else None)"

definition py_in :: "string \<Rightarrow> string \<Rightarrow> bool" where
  "py_in sub s = (py_find s sub 0 \<noteq> None)"

fun py_join :: "string \<Rightarrow> string list \<Rightarrow> string" where
  "py_join sep [] = []"
| "py_join sep [x] = x"
| "py_join sep (x # y # ys) = x @ sep @ py_join sep (y # ys)"

text \<open>\<open>s.split(c)\<close> for a one-character separator.\<close>

fun split_char :: "char \<Rightarrow> string \<Rightarrow> string list" where
  "split_char c [] = [[]]"
| "split_char c (x # xs) =
     (if x = c then [] # split_char c xs
      else (case split_char c xs of [] \<Rightarrow> [[x]] | w # ws \<Rightarrow> (x # w) # ws))"

lemma split_char_nonempty [simp]: "split_char c s \<noteq> []"
  by (induction s) (auto split: list.splits)

text \<open>\<open>s.split()\<close>: the maximal runs of characters that are not whitespace.\<close>

fun words_acc :: "string \<Rightarrow> string \<Rightarrow> string list" where
  "words_acc w [] = (if w = [] then [] else [rev w])"
| "words_acc w (c # s) =
     (if py_isspace c then (if w = [] then words_acc [] s else rev w # words_acc [] s)
      else words_acc (c # w) s)"

definition py_words :: "string \<Rightarrow> string list" where
  "py_words s = words_acc [] s"

section \<open>Optional values\<close>

text \<open>\<open>s\<close> is truthy: neither \<open>None\<close> nor the empty string.\<close>

fun truthy :: "string option \<Rightarrow> bool" where
  "truthy None = False"
| "truthy (Some s) = (s \<noteq> [])"

text \<open>Python's \<open>a or b\<close> on optional strings.\<close>

definition py_or :: "string option \<Rightarrow> string option \<Rightarrow> string option" where
  "py_or a b = (if truthy a then a else b)"

text \<open>SQL's COALESCE.\<close>

definition coalesce :: "'a option \<Rightarrow> 'a option \<Rightarrow> 'a option" where
  "coalesce a b = (case a of None \<Rightarrow> b | Some x \<Rightarrow> Some x)"

lemma coalesce_simps [simp]:
  "coalesce None b = b" "coalesce (Some x) b = Some x" "coalesce a a = a"
  "coalesce a None = a"
  by (auto simp: coalesce_def split: option.split)

lemma coalesce_assoc [simp]: "coalesce (coalesce a b) b = coalesce a b"
  by (cases a) auto

section \<open>Results\<close>

text \<open>Running the rest of a function after a call that may raise.\<close>

fun and_then :: "'e + 'a \<Rightarrow> ('a \<Rightarrow> 'e + 'b) \<Rightarrow> 'e + 'b" where
  "and_then (Inl e) f = Inl e"
| "and_then (Inr x) f = f x"

lemma and_then_Inr_iff: "and_then r f = Inr y \<longleftrightarrow> (\<exists>x. r = Inr x \<and> f x = Inr y)"
  by (cases r) auto

lemma Inr_and_then_iff: "Inr y = and_then r f \<longleftrightarrow> (\<exists>x. r = Inr x \<and> f x = Inr y)"
  by (cases r) auto

section \<open>Dictionaries and tables\<close>

type_synonym dict = "(string \<times> string) list"
type_synonym 'r table = "(string \<times> 'r) list"

text \<open>UPDATE \<open>table\<close> SET \<open>f\<close> WHERE key = \<open>k\<close>.\<close>

definition tbl_update :: "string \<Rightarrow> ('r \<Rightarrow> 'r) \<Rightarrow> 'r table \<Rightarrow> 'r table" where
  "tbl_update k f t = map (\<lambda>(k', r). (k', if k' = k then f r else r)) t"

text \<open>INSERT OR IGNORE on a primary-key conflict.\<close>

definition insert_or_ignore :: "string \<Rightarrow> 'r \<Rightarrow> 'r table \<Rightarrow> 'r table" where
  "insert_or_ignore k r t = (if map_of t k = None then t @ [(k, r)] else t)"

text \<open>INSERT with the given columns over the column defaults, ON CONFLICT(key) DO UPDATE SET
  the given columns: the columns are the function \<open>f\<close> that writes them.\<close>

definition upsert :: "'r \<Rightarrow> string \<Rightarrow> ('r \<Rightarrow> 'r) \<Rightarrow> 'r table \<Rightarrow> 'r table" where
  "upsert dflt k f t = (if map_of t k = None then t @ [(k, f dflt)] else tbl_update k f t)"

abbreviation keys :: "'r table \<Rightarrow> string list" where
  "keys t \<equiv> map fst t"

lemma map_of_tbl_update [table_simps]:
  "map_of (tbl_update k f t) x = (if x = k then map_option f (map_of t k) else map_of t x)"
  by (induction t) (auto simp: tbl_update_def)

lemma map_of_insert_or_ignore [table_simps]:
  "map_of (insert_or_ignore k r t) x =
     (if x = k then (case map_of t k of None \<Rightarrow> Some r | Some r' \<Rightarrow> Some r') else map_of t x)"
  by (auto simp: insert_or_ignore_def map_add_def split: option.splits)

lemma map_of_upsert [table_simps]:
  "map_of (upsert d k f t) x =
     (if x = k then (case map_of t k of None \<Rightarrow> Some (f d) | Some r \<Rightarrow> Some (f r)) else map_of t x)"
  by (auto simp: upsert_def map_of_tbl_update map_add_def split: option.splits)

lemma keys_tbl_update [table_simps, simp]: "keys (tbl_update k f t) = keys t"
  by (induction t) (auto simp: tbl_update_def)

lemma keys_insert_or_ignore [table_simps]:
  "keys (insert_or_ignore k r t) = (if k \<in> set (keys t) then keys t else keys t @ [k])"
  by (auto simp: insert_or_ignore_def map_of_eq_None_iff)

lemma keys_upsert [table_simps]:
  "keys (upsert d k f t) = (if k \<in> set (keys t) then keys t else keys t @ [k])"
proof (cases "map_of t k = None")
  case True
  then have "k \<notin> set (keys t)"
    by (auto simp: map_of_eq_None_iff)
  with True show ?thesis
    by (simp add: upsert_def)
next
  case False
  then have "k \<in> set (keys t)"
    by (auto simp: map_of_eq_None_iff)
  with False show ?thesis
    by (simp add: upsert_def)
qed

lemma distinct_keys_preserved [simp]:
  "distinct (keys t) \<Longrightarrow> distinct (keys (tbl_update k f t))"
  "distinct (keys t) \<Longrightarrow> distinct (keys (insert_or_ignore k r t))"
  "distinct (keys t) \<Longrightarrow> distinct (keys (upsert d k f t))"
  by (auto simp: keys_insert_or_ignore keys_upsert)

lemma set_tbl_update:
  "set (tbl_update k f t) = (\<lambda>(k', r). (k', if k' = k then f r else r)) ` set t"
  by (simp add: tbl_update_def)

lemma distinct_keys_in_set:
  assumes "distinct (keys t)"
  shows "(k, r) \<in> set t \<longleftrightarrow> map_of t k = Some r"
  using assms by (auto dest: map_of_SomeD)

lemma tbl_update_absent: "map_of t k = None \<Longrightarrow> tbl_update k f t = t"
  by (induction t) (auto simp: tbl_update_def split: if_splits)

lemma tbl_update_idem:
  assumes "\<And>r. f (f r) = f r"
  shows "tbl_update k f (tbl_update k f t) = tbl_update k f t"
  using assms by (induction t) (auto simp: tbl_update_def)

lemma insert_or_ignore_present: "map_of t k \<noteq> None \<Longrightarrow> insert_or_ignore k r t = t"
  by (simp add: insert_or_ignore_def)

section \<open>Invariants along a run\<close>

text \<open>An invariant every step of a fold keeps holds of its result.\<close>

lemma fold_invariant_run:
  assumes "P s" and "\<And>x s. x \<in> set xs \<Longrightarrow> P s \<Longrightarrow> P (f x s)"
  shows "P (fold f xs s)"
  using assms by (induction xs arbitrary: s) auto

lemma disjoint_after_insert:
  "A' \<subseteq> A \<union> {x} \<Longrightarrow> x \<notin> B \<Longrightarrow> A \<inter> B = {} \<Longrightarrow> A' \<inter> B = {}"
  by blast

end
