(* ===== verification/Event_Types.thy ===== *)
theory Event_Types
  imports Prelude
begin

text \<open>
  The event types of the SDLC entities: the members of \<open>EventType\<close> in
  \<^verbatim>\<open>canonical/events/types_enum.py\<close>, and the work-order and task types that only the keys of
  \<^verbatim>\<open>core/work_orders/task_status.py\<close> spell. Each is a constant, so that proofs compare names
  and not spellings; the comparisons are proved once here.
\<close>

definition WORK_ORDER_CREATED :: string where
  "WORK_ORDER_CREATED = ''work_order.created''"

definition WORK_ORDER_STARTED :: string where
  "WORK_ORDER_STARTED = ''work_order.started''"

definition WORK_ORDER_UNBLOCKED :: string where
  "WORK_ORDER_UNBLOCKED = ''work_order.unblocked''"

definition WORK_ORDER_REOPENED :: string where
  "WORK_ORDER_REOPENED = ''work_order.reopened''"

definition WORK_ORDER_REVIEW_REQUESTED :: string where
  "WORK_ORDER_REVIEW_REQUESTED = ''work_order.review_requested''"

definition WORK_ORDER_PUSHED :: string where
  "WORK_ORDER_PUSHED = ''work_order.pushed''"

definition WORK_ORDER_CI_FAILED :: string where
  "WORK_ORDER_CI_FAILED = ''work_order.ci_failed''"

definition WORK_ORDER_BLOCKED :: string where
  "WORK_ORDER_BLOCKED = ''work_order.blocked''"

definition WORK_ORDER_CLOSED :: string where
  "WORK_ORDER_CLOSED = ''work_order.closed''"

definition WORK_ORDER_CANCELLED :: string where
  "WORK_ORDER_CANCELLED = ''work_order.cancelled''"

definition WORK_ORDER_DELETED :: string where
  "WORK_ORDER_DELETED = ''work_order.deleted''"

definition TASK_CREATED :: string where
  "TASK_CREATED = ''task.created''"

definition TASK_STARTED :: string where
  "TASK_STARTED = ''task.started''"

definition TASK_COMPLETED :: string where
  "TASK_COMPLETED = ''task.completed''"

definition TASK_CANCELLED :: string where
  "TASK_CANCELLED = ''task.cancelled''"

definition TASK_DELETED :: string where
  "TASK_DELETED = ''task.deleted''"

definition TASK_AC_REPOINTED :: string where
  "TASK_AC_REPOINTED = ''task.ac_repointed''"

definition MILESTONE_CREATED :: string where
  "MILESTONE_CREATED = ''milestone.created''"

definition MILESTONE_COMPLETED :: string where
  "MILESTONE_COMPLETED = ''milestone.completed''"

definition MILESTONE_DELETED :: string where
  "MILESTONE_DELETED = ''milestone.deleted''"

definition PROJECT_CREATED :: string where
  "PROJECT_CREATED = ''project.created''"

definition PROJECT_ACTIVATED :: string where
  "PROJECT_ACTIVATED = ''project.activated''"

definition PROJECT_DEACTIVATED :: string where
  "PROJECT_DEACTIVATED = ''project.deactivated''"

definition PROJECT_DELETED :: string where
  "PROJECT_DELETED = ''project.deleted''"

definition PROJECT_CLIENT_ASSIGNED :: string where
  "PROJECT_CLIENT_ASSIGNED = ''project.client_assigned''"

lemmas event_type_defs =
  WORK_ORDER_CREATED_def WORK_ORDER_STARTED_def WORK_ORDER_UNBLOCKED_def WORK_ORDER_REOPENED_def
  WORK_ORDER_REVIEW_REQUESTED_def WORK_ORDER_PUSHED_def WORK_ORDER_CI_FAILED_def
  WORK_ORDER_BLOCKED_def WORK_ORDER_CLOSED_def WORK_ORDER_CANCELLED_def WORK_ORDER_DELETED_def
  TASK_CREATED_def TASK_STARTED_def TASK_COMPLETED_def TASK_CANCELLED_def TASK_DELETED_def
  TASK_AC_REPOINTED_def MILESTONE_CREATED_def MILESTONE_COMPLETED_def MILESTONE_DELETED_def
  PROJECT_CREATED_def PROJECT_ACTIVATED_def PROJECT_DEACTIVATED_def PROJECT_DELETED_def
  PROJECT_CLIENT_ASSIGNED_def

lemma work_order_types_distinct:
  "distinct [WORK_ORDER_CREATED, WORK_ORDER_STARTED, WORK_ORDER_UNBLOCKED, WORK_ORDER_REOPENED,
     WORK_ORDER_REVIEW_REQUESTED, WORK_ORDER_PUSHED, WORK_ORDER_CI_FAILED, WORK_ORDER_BLOCKED,
     WORK_ORDER_CLOSED, WORK_ORDER_CANCELLED, WORK_ORDER_DELETED]"
  by (simp add: event_type_defs)

lemma task_types_distinct:
  "distinct [TASK_CREATED, TASK_STARTED, TASK_COMPLETED, TASK_CANCELLED, TASK_DELETED,
     TASK_AC_REPOINTED]"
  by (simp add: event_type_defs)

lemma milestone_types_distinct:
  "distinct [MILESTONE_CREATED, MILESTONE_COMPLETED, MILESTONE_DELETED]"
  by (simp add: event_type_defs)

lemma project_types_distinct:
  "distinct [PROJECT_CREATED, PROJECT_ACTIVATED, PROJECT_DEACTIVATED, PROJECT_DELETED,
     PROJECT_CLIENT_ASSIGNED]"
  by (simp add: event_type_defs)

lemma distinct_rev_iff: "distinct xs \<Longrightarrow> distinct (rev xs)"
  by simp

lemmas event_types_neq [simp] =
  work_order_types_distinct [simplified] work_order_types_distinct [THEN distinct_rev_iff, simplified]
  task_types_distinct [simplified] task_types_distinct [THEN distinct_rev_iff, simplified]
  milestone_types_distinct [simplified] milestone_types_distinct [THEN distinct_rev_iff, simplified]
  project_types_distinct [simplified] project_types_distinct [THEN distinct_rev_iff, simplified]

end
