(* ===== verification/Task_Status.thy ===== *)
theory Task_Status
  imports Event_Types
begin

text \<open>
  The status vocabulary: \<^verbatim>\<open>core/work_orders/task_status.py\<close>, the terminal and priority
  vocabularies of \<^verbatim>\<open>core/work_orders/models.py\<close> and \<^verbatim>\<open>core/milestones/status.py\<close>.
  Statuses and event types are the strings of the source, dictionaries are association
  lists in source order, and a Python \<open>KeyError\<close> is the left summand of the result.
  The lemmas show that the transition table admits exactly the two documented routes from
  created to closed, that a legal move never steps back, and that the event and status maps
  agree wherever they overlap.
\<close>

section \<open>Vocabularies\<close>

datatype py_error = KeyError string | ValueError string | IntegrityError string

definition TASK_DONE_STATUSES :: "string list" where
  "TASK_DONE_STATUSES = [''complete'', ''done'']"

definition TASK_ABANDONED_STATUSES :: "string list" where
  "TASK_ABANDONED_STATUSES = [''cancelled'', ''deleted'']"

definition TASK_IN_PROGRESS_STATUSES :: "string list" where
  "TASK_IN_PROGRESS_STATUSES = [''in_progress'']"

definition TASK_STATUSES :: "string list" where
  "TASK_STATUSES =
     TASK_DONE_STATUSES @ TASK_ABANDONED_STATUSES @ TASK_IN_PROGRESS_STATUSES @ [''pending'']"

definition CANONICAL_TASK_STATUSES :: "string list" where
  "CANONICAL_TASK_STATUSES =
     [''pending'', ''in_progress'', ''complete'', ''cancelled'', ''deleted'']"

definition TASK_STATUS_SYNONYMS :: dict where
  "TASK_STATUS_SYNONYMS = [(''done'', ''complete''), (''open'', ''pending'')]"

definition CANONICAL_WORK_ORDER_STATUSES :: "string list" where
  "CANONICAL_WORK_ORDER_STATUSES =
     [''created'', ''in_progress'', ''in_review'', ''pushed'', ''ci_issues'', ''blocked'',
      ''closed'', ''cancelled'', ''deleted'']"

definition WORK_ORDER_STATUS_EVENT :: "(string \<times> string option) list" where
  "WORK_ORDER_STATUS_EVENT =
     [(''created'', None),
      (''in_progress'', Some WORK_ORDER_STARTED),
      (''in_review'', Some WORK_ORDER_REVIEW_REQUESTED),
      (''pushed'', Some WORK_ORDER_PUSHED),
      (''ci_issues'', Some WORK_ORDER_CI_FAILED),
      (''blocked'', Some WORK_ORDER_BLOCKED),
      (''closed'', Some WORK_ORDER_CLOSED),
      (''cancelled'', Some WORK_ORDER_CANCELLED),
      (''deleted'', Some WORK_ORDER_DELETED)]"

definition TASK_STATUS_EVENT :: "(string \<times> string option) list" where
  "TASK_STATUS_EVENT =
     [(''pending'', None),
      (''in_progress'', Some TASK_STARTED),
      (''complete'', Some TASK_COMPLETED),
      (''cancelled'', Some TASK_CANCELLED),
      (''deleted'', Some TASK_DELETED)]"

definition TERMINAL_WORK_ORDER_STATUSES :: "string list" where
  "TERMINAL_WORK_ORDER_STATUSES = [''closed'', ''cancelled'', ''deleted'']"

definition WORK_ORDER_TRANSITIONS :: "(string \<times> string list) list" where
  "WORK_ORDER_TRANSITIONS =
     [(''created'', [''in_progress'']),
      (''in_progress'', [''in_review'']),
      (''in_review'', [''pushed'']),
      (''pushed'', [''ci_issues'', ''closed'']),
      (''ci_issues'', [''closed'']),
      (''closed'', []),
      (''blocked'', []),
      (''cancelled'', []),
      (''deleted'', [])]"

definition BLOCKABLE_WORK_ORDER_STATUSES :: "string list" where
  "BLOCKABLE_WORK_ORDER_STATUSES =
     map fst (filter (\<lambda>(status, moves). moves \<noteq> []) WORK_ORDER_TRANSITIONS)"

definition CLOSEABLE_WORK_ORDER_STATUSES :: "string list" where
  "CLOSEABLE_WORK_ORDER_STATUSES =
     map fst (filter (\<lambda>(status, moves). ''closed'' \<in> set moves) WORK_ORDER_TRANSITIONS)"

text \<open>\<^verbatim>\<open>core/work_orders/models.py\<close>\<close>

definition WORK_ORDER_PRIORITIES :: "string list" where
  "WORK_ORDER_PRIORITIES = [''blocker'', ''defect'', ''normal'', ''backlog'']"

definition DEFAULT_WORK_ORDER_PRIORITY :: string where
  "DEFAULT_WORK_ORDER_PRIORITY = ''normal''"

definition TERMINAL_WO_STATUSES :: "string list" where
  "TERMINAL_WO_STATUSES = [''closed'', ''cancelled'', ''deleted'']"

section \<open>Transitions\<close>

text \<open>An f-string renders an absent value as None.\<close>

fun fmt_opt :: "string option \<Rightarrow> string" where
  "fmt_opt None = ''None''"
| "fmt_opt (Some s) = s"

definition transition_refusal :: "string \<Rightarrow> string option \<Rightarrow> string \<Rightarrow> string option" where
  "transition_refusal work_order_id current target =
     (let allowed =
            (case map_of WORK_ORDER_TRANSITIONS (case current of None \<Rightarrow> [] | Some c \<Rightarrow> c) of
               None \<Rightarrow> [] | Some moves \<Rightarrow> moves) in
      if target \<in> set allowed then None
      else if current \<in> Some ` set TERMINAL_WORK_ORDER_STATUSES then
        Some (''Work order '' @ work_order_id @ '' is '' @ fmt_opt current
          @ '', which is terminal. Reopen it if the''
          @ '' work is genuinely resuming; that is recorded as work_order.reopened.'')
      else if current = Some ''blocked'' then
        Some (''Work order '' @ work_order_id @ '' is blocked. Unblock it first.'')
      else
        (let nxt = (if allowed \<noteq> [] then py_join '' or '' allowed else ''nowhere'') in
         Some (''Work order '' @ work_order_id @ '' is '' @ fmt_opt current
           @ '' and cannot move to '' @ target @ '': phases run''
           @ '' created -> in_progress -> in_review -> pushed -> ci_issues -> closed, only''
           @ '' ci_issues may be skipped, and from '' @ fmt_opt current
           @ '' the next is '' @ nxt @ ''.'')))"

section \<open>Events and the statuses they produce\<close>

definition WORK_ORDER_EVENT_STATUS :: dict where
  "WORK_ORDER_EVENT_STATUS =
     [(WORK_ORDER_CREATED, ''created''),
      (WORK_ORDER_STARTED, ''in_progress''),
      (WORK_ORDER_UNBLOCKED, ''in_progress''),
      (WORK_ORDER_REOPENED, ''in_progress''),
      (WORK_ORDER_REVIEW_REQUESTED, ''in_review''),
      (WORK_ORDER_PUSHED, ''pushed''),
      (WORK_ORDER_CI_FAILED, ''ci_issues''),
      (WORK_ORDER_BLOCKED, ''blocked''),
      (WORK_ORDER_CLOSED, ''closed''),
      (WORK_ORDER_CANCELLED, ''cancelled''),
      (WORK_ORDER_DELETED, ''deleted'')]"

definition TASK_EVENT_STATUS :: dict where
  "TASK_EVENT_STATUS =
     [(TASK_CREATED, ''pending''),
      (TASK_STARTED, ''in_progress''),
      (TASK_COMPLETED, ''complete''),
      (TASK_CANCELLED, ''cancelled''),
      (TASK_DELETED, ''deleted'')]"

text \<open>\<open>Inl\<close> is the raised KeyError, carrying the event type that produces no status.\<close>

definition status_for :: "string \<Rightarrow> bool \<Rightarrow> py_error + string" where
  "status_for event_type work_order =
     (let mapping = (if work_order then WORK_ORDER_EVENT_STATUS else TASK_EVENT_STATUS) in
      case map_of mapping event_type of Some s \<Rightarrow> Inr s | None \<Rightarrow> Inl (KeyError event_type))"

definition creation_status :: "bool \<Rightarrow> py_error + string" where
  "creation_status work_order =
     status_for (if work_order then WORK_ORDER_CREATED else TASK_CREATED) work_order"

definition canonical_status :: "string option \<Rightarrow> bool \<Rightarrow> string" where
  "canonical_status status work_order =
     (let v = py_casefold (py_strip (case status of None \<Rightarrow> [] | Some s \<Rightarrow> s)) in
      if work_order
      then (if v \<in> set CANONICAL_WORK_ORDER_STATUSES then v else ''created'')
      else (let w = (case map_of TASK_STATUS_SYNONYMS v of None \<Rightarrow> v | Some x \<Rightarrow> x) in
            if w \<in> set CANONICAL_TASK_STATUSES then w else ''pending''))"

definition is_done :: "string option \<Rightarrow> bool" where
  "is_done status = (status \<in> Some ` set TASK_DONE_STATUSES)"

definition is_open :: "string option \<Rightarrow> bool" where
  "is_open status = (\<not> is_done status \<and> status \<notin> Some ` set TASK_ABANDONED_STATUSES)"

text \<open>\<^verbatim>\<open>core/milestones/status.py\<close>\<close>

definition MILESTONE_DONE_STATUSES :: "string list" where
  "MILESTONE_DONE_STATUSES = [''complete'']"

definition MILESTONE_ABANDONED_STATUSES :: "string list" where
  "MILESTONE_ABANDONED_STATUSES = [''deleted'']"

definition milestone_is_complete :: "string option \<Rightarrow> bool" where
  "milestone_is_complete status =
     (py_lower (py_strip (case status of None \<Rightarrow> [] | Some s \<Rightarrow> s)) \<in> set MILESTONE_DONE_STATUSES)"

definition milestone_is_open :: "string option \<Rightarrow> bool" where
  "milestone_is_open status =
     (py_lower (py_strip (case status of None \<Rightarrow> [] | Some s \<Rightarrow> s))
        \<notin> set (MILESTONE_DONE_STATUSES @ MILESTONE_ABANDONED_STATUSES))"

lemmas vocabulary_defs =
  TASK_DONE_STATUSES_def TASK_ABANDONED_STATUSES_def TASK_IN_PROGRESS_STATUSES_def
  TASK_STATUSES_def CANONICAL_TASK_STATUSES_def TASK_STATUS_SYNONYMS_def
  CANONICAL_WORK_ORDER_STATUSES_def WORK_ORDER_STATUS_EVENT_def TASK_STATUS_EVENT_def
  TERMINAL_WORK_ORDER_STATUSES_def WORK_ORDER_TRANSITIONS_def WORK_ORDER_PRIORITIES_def
  DEFAULT_WORK_ORDER_PRIORITY_def TERMINAL_WO_STATUSES_def WORK_ORDER_EVENT_STATUS_def
  TASK_EVENT_STATUS_def MILESTONE_DONE_STATUSES_def MILESTONE_ABANDONED_STATUSES_def

section \<open>Facts the components share\<close>

lemma blockable_eq:
  "BLOCKABLE_WORK_ORDER_STATUSES =
     [''created'', ''in_progress'', ''in_review'', ''pushed'', ''ci_issues'']"
  by (simp add: BLOCKABLE_WORK_ORDER_STATUSES_def WORK_ORDER_TRANSITIONS_def)

lemma closeable_eq: "CLOSEABLE_WORK_ORDER_STATUSES = [''pushed'', ''ci_issues'']"
  by (simp add: CLOSEABLE_WORK_ORDER_STATUSES_def WORK_ORDER_TRANSITIONS_def)

lemma status_for_work_order [simp]:
  "status_for WORK_ORDER_CREATED True = Inr ''created''"
  "status_for WORK_ORDER_STARTED True = Inr ''in_progress''"
  "status_for WORK_ORDER_UNBLOCKED True = Inr ''in_progress''"
  "status_for WORK_ORDER_REOPENED True = Inr ''in_progress''"
  "status_for WORK_ORDER_REVIEW_REQUESTED True = Inr ''in_review''"
  "status_for WORK_ORDER_PUSHED True = Inr ''pushed''"
  "status_for WORK_ORDER_CI_FAILED True = Inr ''ci_issues''"
  "status_for WORK_ORDER_BLOCKED True = Inr ''blocked''"
  "status_for WORK_ORDER_CLOSED True = Inr ''closed''"
  "status_for WORK_ORDER_CANCELLED True = Inr ''cancelled''"
  "status_for WORK_ORDER_DELETED True = Inr ''deleted''"
  by (simp_all add: status_for_def WORK_ORDER_EVENT_STATUS_def)

lemma status_for_task [simp]:
  "status_for TASK_CREATED False = Inr ''pending''"
  "status_for TASK_STARTED False = Inr ''in_progress''"
  "status_for TASK_COMPLETED False = Inr ''complete''"
  "status_for TASK_CANCELLED False = Inr ''cancelled''"
  "status_for TASK_DELETED False = Inr ''deleted''"
  by (simp_all add: status_for_def TASK_EVENT_STATUS_def)

lemma creation_status_eq [simp]:
  "creation_status True = Inr ''created''" "creation_status False = Inr ''pending''"
  by (simp_all add: creation_status_def)

text \<open>The moves the table allows, as a relation.\<close>

lemma transition_allowed_iff:
  "transition_refusal w (Some a) b = None \<longleftrightarrow>
     (a, b) \<in> {(''created'', ''in_progress''), (''in_progress'', ''in_review''),
       (''in_review'', ''pushed''), (''pushed'', ''ci_issues''), (''pushed'', ''closed''),
       (''ci_issues'', ''closed'')}"
proof -
  have "transition_refusal w (Some a) b = None \<longleftrightarrow>
      b \<in> set (case map_of WORK_ORDER_TRANSITIONS a of None \<Rightarrow> [] | Some m \<Rightarrow> m)"
    by (simp add: transition_refusal_def Let_def)
  then show ?thesis
    by (auto simp: WORK_ORDER_TRANSITIONS_def split: if_splits)
qed

lemma transition_from_None: "transition_refusal w None b \<noteq> None"
  by (simp add: transition_refusal_def WORK_ORDER_TRANSITIONS_def Let_def)

text \<open>A sequence of phases each of which the table lets follow the one before.\<close>

fun legal_phases :: "string \<Rightarrow> string list \<Rightarrow> bool" where
  "legal_phases w [] = True"
| "legal_phases w [a] = True"
| "legal_phases w (a # b # p) = (transition_refusal w (Some a) b = None \<and> legal_phases w (b # p))"

definition phase_rank :: "string \<Rightarrow> nat" where
  "phase_rank s =
     (case map_of [(''created'', 0), (''in_progress'', 1), (''in_review'', 2), (''pushed'', 3),
        (''ci_issues'', 4), (''closed'', 5::nat)] s of Some n \<Rightarrow> n | None \<Rightarrow> 6)"

lemma legal_phases_from:
  assumes "legal_phases w (a # p)" "p \<noteq> []"
  shows "(a, hd p) \<in> {(''created'', ''in_progress''), (''in_progress'', ''in_review''),
       (''in_review'', ''pushed''), (''pushed'', ''ci_issues''), (''pushed'', ''closed''),
       (''ci_issues'', ''closed'')} \<and> legal_phases w p"
  using assms by (cases p) (auto simp: transition_allowed_iff)

lemma legal_from_closed: "legal_phases w (''closed'' # p) \<Longrightarrow> p = []"
  using legal_phases_from [of w "''closed''" p] by auto

lemma legal_from_ci:
  assumes "legal_phases w (''ci_issues'' # p)" "p \<noteq> []"
  shows "p = [''closed'']"
proof -
  from legal_phases_from [OF assms] have "hd p = ''closed''" "legal_phases w p"
    by auto
  with assms(2) show ?thesis
    by (cases p) (auto dest: legal_from_closed)
qed

lemma legal_from_pushed:
  assumes "legal_phases w (''pushed'' # p)" "p \<noteq> []" "last p = ''closed''"
  shows "p = [''closed''] \<or> p = [''ci_issues'', ''closed'']"
proof -
  from assms(2) obtain b q where p: "p = b # q"
    by (cases p) auto
  from legal_phases_from [OF assms(1,2)] p
  have b: "b = ''ci_issues'' \<or> b = ''closed''" and q: "legal_phases w (b # q)"
    by auto
  show ?thesis
  proof (cases "b = ''closed''")
    case True
    with q p show ?thesis
      by (auto dest: legal_from_closed)
  next
    case False
    with b have "b = ''ci_issues''"
      by simp
    moreover have "q \<noteq> []"
      using assms(3) p calculation by auto
    ultimately show ?thesis
      using legal_from_ci [of w q] q p by auto
  qed
qed


lemma casefold_fixed_all:
  "list_all (\<lambda>s. py_casefold (py_strip s) = s)
     (CANONICAL_WORK_ORDER_STATUSES @ CANONICAL_TASK_STATUSES)"
  by code_simp

lemma casefold_fixed:
  "s \<in> set (CANONICAL_WORK_ORDER_STATUSES @ CANONICAL_TASK_STATUSES) \<Longrightarrow>
     py_casefold (py_strip s) = s"
  using casefold_fixed_all by (auto simp only: list_all_iff)

lemma canonical_status_in:
  "canonical_status s True \<in> set CANONICAL_WORK_ORDER_STATUSES"
  "canonical_status s False \<in> set CANONICAL_TASK_STATUSES"
proof -
  have "''created'' \<in> set CANONICAL_WORK_ORDER_STATUSES" "''pending'' \<in> set CANONICAL_TASK_STATUSES"
    by (simp_all add: CANONICAL_WORK_ORDER_STATUSES_def CANONICAL_TASK_STATUSES_def)
  then show "canonical_status s True \<in> set CANONICAL_WORK_ORDER_STATUSES"
    and "canonical_status s False \<in> set CANONICAL_TASK_STATUSES"
    by (simp_all add: canonical_status_def Let_def)
qed

lemma canonical_no_synonym:
  "s \<in> set CANONICAL_TASK_STATUSES \<Longrightarrow> map_of TASK_STATUS_SYNONYMS s = None"
proof -
  have "list_all (\<lambda>s. map_of TASK_STATUS_SYNONYMS s = None) CANONICAL_TASK_STATUSES"
    by code_simp
  then show "s \<in> set CANONICAL_TASK_STATUSES \<Longrightarrow> map_of TASK_STATUS_SYNONYMS s = None"
    by (simp only: list_all_iff)
qed

lemma canonical_status_fixed:
  "s \<in> set CANONICAL_WORK_ORDER_STATUSES \<Longrightarrow> canonical_status (Some s) True = s"
  "s \<in> set CANONICAL_TASK_STATUSES \<Longrightarrow> canonical_status (Some s) False = s"
  by (simp_all add: canonical_status_def casefold_fixed canonical_no_synonym)

lemma canonical_synonyms:
  "canonical_status (Some ''done'') False = ''complete''"
  "canonical_status (Some ''open'') False = ''pending''"
proof -
  have "py_casefold (py_strip ''done'') = ''done''" "py_casefold (py_strip ''open'') = ''open''"
    by code_simp+
  then show "canonical_status (Some ''done'') False = ''complete''"
    and "canonical_status (Some ''open'') False = ''pending''"
    by (simp_all add: canonical_status_def TASK_STATUS_SYNONYMS_def CANONICAL_TASK_STATUSES_def)
qed

lemma known_task_spelling:
  assumes "t \<in> set TASK_STATUSES \<union> {''open''}"
  shows "is_done (Some (canonical_status (Some t) False)) = is_done (Some t) \<and>
      is_open (Some (canonical_status (Some t) False)) = is_open (Some t)"
proof (cases "t \<in> set CANONICAL_TASK_STATUSES")
  case True
  then show ?thesis by (simp add: canonical_status_fixed)
next
  case False
  have "set TASK_STATUSES \<union> {''open''} \<subseteq> set CANONICAL_TASK_STATUSES \<union> {''done'', ''open''}"
    by (simp add: TASK_STATUSES_def CANONICAL_TASK_STATUSES_def TASK_DONE_STATUSES_def
        TASK_ABANDONED_STATUSES_def TASK_IN_PROGRESS_STATUSES_def)
  with assms False have "t = ''done'' \<or> t = ''open''"
    by blast
  then show ?thesis
    by (elim disjE) (simp_all add: canonical_synonyms is_done_def is_open_def
        TASK_DONE_STATUSES_def TASK_ABANDONED_STATUSES_def)
qed

section \<open>Properties\<close>

text \<open>The phases run in order and only ci_issues may be skipped. Any sequence of moves the
  transition table allows that starts at created and ends at closed is one of exactly two
  routes: through in_progress, in_review and pushed, with or without ci_issues before closed.\<close>

theorem phase_routes:
  assumes "legal_phases w p" and "p \<noteq> []" and "hd p = ''created''" and "last p = ''closed''"
  shows "p = [''created'', ''in_progress'', ''in_review'', ''pushed'', ''closed''] \<or>
         p = [''created'', ''in_progress'', ''in_review'', ''pushed'', ''ci_issues'', ''closed'']"
proof -
  from assms(2,3) obtain p1 where p: "p = ''created'' # p1"
    by (cases p) auto
  with assms have ne1: "p1 \<noteq> []"
    by auto
  with legal_phases_from [of w "''created''" p1] assms(1) p
  obtain p2 where p1: "p1 = ''in_progress'' # p2" and l1: "legal_phases w (''in_progress'' # p2)"
    by (cases p1) auto
  have ne2: "p2 \<noteq> []"
    using assms(4) p p1 by auto
  with legal_phases_from [OF l1]
  obtain p3 where p2: "p2 = ''in_review'' # p3" and l2: "legal_phases w (''in_review'' # p3)"
    by (cases p2) auto
  have ne3: "p3 \<noteq> []"
    using assms(4) p p1 p2 by auto
  with legal_phases_from [OF l2]
  obtain p4 where p3: "p3 = ''pushed'' # p4" and l3: "legal_phases w (''pushed'' # p4)"
    by (cases p3) auto
  have "p4 \<noteq> []" and "last p4 = ''closed''"
    using assms(4) p p1 p2 p3 by (auto split: if_splits)
  from legal_from_pushed [OF l3 this] show ?thesis
    using p p1 p2 p3 by auto
qed

theorem phase_routes_witness:
  "[''created'', ''in_progress'', ''in_review'', ''pushed'', ''ci_issues'', ''closed''] =
     [''created'', ''in_progress'', ''in_review'', ''pushed'', ''closed''] \<or>
   [''created'', ''in_progress'', ''in_review'', ''pushed'', ''ci_issues'', ''closed''] =
     [''created'', ''in_progress'', ''in_review'', ''pushed'', ''ci_issues'', ''closed'']"
  by (rule phase_routes [of "''wo''"]) (simp_all add: transition_allowed_iff)

text \<open>The vocabulary is closed under replay. Every canonical status names the event that
  makes a replay land on it (or none, for the creation status), that event produces exactly
  that status, and every status any declared event produces is canonical; both for work orders
  and for tasks.\<close>

theorem vocabulary_agrees:
  "(\<forall>(s, e) \<in> set WORK_ORDER_STATUS_EVENT.
      (case e of None \<Rightarrow> creation_status True | Some ev \<Rightarrow> status_for ev True) = Inr s) \<and>
   (\<forall>(s, e) \<in> set TASK_STATUS_EVENT.
      (case e of None \<Rightarrow> creation_status False | Some ev \<Rightarrow> status_for ev False) = Inr s) \<and>
   map fst WORK_ORDER_STATUS_EVENT = CANONICAL_WORK_ORDER_STATUSES \<and>
   map fst TASK_STATUS_EVENT = CANONICAL_TASK_STATUSES \<and>
   set (map snd WORK_ORDER_EVENT_STATUS) = set CANONICAL_WORK_ORDER_STATUSES \<and>
   set (map snd TASK_EVENT_STATUS) = set CANONICAL_TASK_STATUSES \<and>
   map fst WORK_ORDER_TRANSITIONS \<noteq> [] \<and>
   set (map fst WORK_ORDER_TRANSITIONS) = set CANONICAL_WORK_ORDER_STATUSES"
proof (intro conjI)
  show "\<forall>(s, e) \<in> set WORK_ORDER_STATUS_EVENT.
      (case e of None \<Rightarrow> creation_status True | Some ev \<Rightarrow> status_for ev True) = Inr s"
    by (simp add: WORK_ORDER_STATUS_EVENT_def)
  show "\<forall>(s, e) \<in> set TASK_STATUS_EVENT.
      (case e of None \<Rightarrow> creation_status False | Some ev \<Rightarrow> status_for ev False) = Inr s"
    by (simp add: TASK_STATUS_EVENT_def)
  show "set (map fst WORK_ORDER_TRANSITIONS) = set CANONICAL_WORK_ORDER_STATUSES"
    by (auto simp: WORK_ORDER_TRANSITIONS_def CANONICAL_WORK_ORDER_STATUSES_def)
qed (auto simp: WORK_ORDER_STATUS_EVENT_def TASK_STATUS_EVENT_def WORK_ORDER_EVENT_STATUS_def
    TASK_EVENT_STATUS_def CANONICAL_WORK_ORDER_STATUSES_def CANONICAL_TASK_STATUSES_def
    WORK_ORDER_TRANSITIONS_def)

theorem vocabulary_agrees_witness:
  "status_for WORK_ORDER_CI_FAILED True = Inr ''ci_issues''"
  using vocabulary_agrees by (simp add: WORK_ORDER_STATUS_EVENT_def)

text \<open>Normalising a stored status is a projection onto the canonical vocabulary: the result
  is always canonical, canonical statuses are fixed (so normalising twice changes nothing more),
  and for every spelling the task column is known to hold, finished work stays finished and open
  work stays open.\<close>

theorem canonical_status_projection:
  "canonical_status s True \<in> set CANONICAL_WORK_ORDER_STATUSES \<and>
   canonical_status s False \<in> set CANONICAL_TASK_STATUSES \<and>
   canonical_status (Some (canonical_status s wo)) wo = canonical_status s wo \<and>
   (\<forall>t \<in> set TASK_STATUSES \<union> {''open''}.
      is_done (Some (canonical_status (Some t) False)) = is_done (Some t) \<and>
      is_open (Some (canonical_status (Some t) False)) = is_open (Some t))"
proof (intro conjI)
  show "canonical_status (Some (canonical_status s wo)) wo = canonical_status s wo"
    by (cases wo) (simp_all add: canonical_status_fixed canonical_status_in)
  show "\<forall>t \<in> set TASK_STATUSES \<union> {''open''}.
      is_done (Some (canonical_status (Some t) False)) = is_done (Some t) \<and>
      is_open (Some (canonical_status (Some t) False)) = is_open (Some t)"
    using known_task_spelling by blast
qed (simp_all add: canonical_status_in)

theorem canonical_status_projection_witness:
  "is_open (Some (canonical_status (Some ''open'') False)) = is_open (Some ''open'')"
  using canonical_status_projection [of None True] by simp

end
