(* ===== verification/Canonical_Events.thy ===== *)
theory Canonical_Events
  imports Task_Status
begin

text \<open>
  The canonical event row as the projections see it
  (\<^verbatim>\<open>core/projections/framework_events.py\<close>, \<open>_row_to_event\<close>), the event-type filter and
  the matching helpers of \<^verbatim>\<open>core/projections/framework_registry.py\<close>.

  An event's trace and payload are dictionaries of strings: a JSON value that is absent or
  null is a missing key. The one integer the modelled handlers read from a payload
  (\<open>order_index\<close>) is kept apart in \<open>ev_payload_ints\<close>. The framework's idempotency check
  (\<^verbatim>\<open>core/projections/framework_projection.py\<close>, \<open>is_already_processed\<close>) is shared by all
  projections and is defined here over the two provenance columns of a row.
\<close>

record event =
  ev_id :: string
  ev_type :: string
  ev_timestamp :: string
  ev_trace :: dict
  ev_payload :: dict
  ev_payload_ints :: "(string \<times> int) list"
  ev_correlation_id :: "string option"
  ev_project_id :: "string option"
  ev_milestone_id :: "string option"
  ev_work_order_id :: "string option"
  ev_task_id :: "string option"

text \<open>An event row about one work order, the shape the lifecycle emitters write: used to state
  concrete runs.\<close>

definition wo_event :: "string \<Rightarrow> string \<Rightarrow> string \<Rightarrow> string \<Rightarrow> dict \<Rightarrow> event" where
  "wo_event i ty ts w pl =
     \<lparr>ev_id = i, ev_type = ty, ev_timestamp = ts, ev_trace = [], ev_payload = pl,
      ev_payload_ints = [], ev_correlation_id = None, ev_project_id = None, ev_milestone_id = None,
      ev_work_order_id = Some w, ev_task_id = None\<rparr>"

lemma wo_event_simps [simp]:
  "ev_id (wo_event i ty ts w pl) = i" "ev_type (wo_event i ty ts w pl) = ty"
  "ev_timestamp (wo_event i ty ts w pl) = ts" "ev_payload (wo_event i ty ts w pl) = pl"
  "ev_work_order_id (wo_event i ty ts w pl) = Some w" "ev_project_id (wo_event i ty ts w pl) = None"
  "ev_milestone_id (wo_event i ty ts w pl) = None" "ev_task_id (wo_event i ty ts w pl) = None"
  "ev_trace (wo_event i ty ts w pl) = []"
  by (simp_all add: wo_event_def)

text \<open>\<open>event.get(column) or payload.get(key)\<close>\<close>

definition col_or_payload :: "string option \<Rightarrow> event \<Rightarrow> string \<Rightarrow> string option" where
  "col_or_payload col e key = py_or col (map_of (ev_payload e) key)"

definition col_or_trace :: "string option \<Rightarrow> event \<Rightarrow> string \<Rightarrow> string option" where
  "col_or_trace col e key = py_or col (map_of (ev_trace e) key)"

section \<open>The idempotency check\<close>

text \<open>SELECT 1 FROM table WHERE source_event_id = ? OR last_event_id = ?\<close>

definition is_already_processed ::
    "('r \<Rightarrow> string option) \<Rightarrow> ('r \<Rightarrow> string option) \<Rightarrow> string \<Rightarrow> 'r table \<Rightarrow> bool" where
  "is_already_processed source_id last_id event_id t =
     list_ex (\<lambda>(k, r). source_id r = Some event_id \<or> last_id r = Some event_id) t"

lemma processed_by_row:
  assumes "map_of t w = Some r" and "last_id r = Some i \<or> source_id r = Some i"
  shows "is_already_processed source_id last_id i t"
  using assms map_of_SomeD [OF assms(1)] by (auto simp: is_already_processed_def list_ex_iff)

section \<open>Event-type patterns\<close>

text \<open>A pattern that ends with the wildcard matches its prefix, any other matches itself.\<close>

definition event_type_matches :: "string \<Rightarrow> string \<Rightarrow> bool" where
  "event_type_matches event_type pattern =
     (if py_endswith pattern ''%'' then py_startswith event_type (butlast pattern)
      else event_type = pattern)"

datatype canonical_source = Business | AI | Both

definition source_matches :: "canonical_source \<Rightarrow> canonical_source \<Rightarrow> bool" where
  "source_matches projection_source event_source =
     (if projection_source = Both then True else projection_source = event_source)"

end
