(* ===== verification/Work_Order_Projection.thy ===== *)
theory Work_Order_Projection
  imports Canonical_Events
begin

text \<open>
  \<^verbatim>\<open>core/projections/work_order_projection.py\<close>: the projection that materializes
  \<^verbatim>\<open>business_work_orders\<close> from canonical events, with the framework helpers it calls
  (\<open>is_already_processed\<close>, \<open>safe_upsert\<close>, \<open>pre_rebuild\<close> of
  \<^verbatim>\<open>core/projections/framework_projection.py\<close>). The table is an association list from
  work-order ids to rows, a handler returns the number of rows written and the new table, or
  the raised error. \<open>remembers\<close> says whether migration 158 has added the column
  \<^verbatim>\<open>blocked_from_status\<close>; \<open>now\<close> is the clock the handler reads.
\<close>

section \<open>The table\<close>

record wo_row =
  wo_project_id :: "string option"
  wo_milestone_id :: "string option"
  wo_title :: "string option"
  wo_status :: string
  wo_created_at :: "string option"
  wo_started_at :: "string option"
  wo_closed_at :: "string option"
  wo_blocked_at :: "string option"
  wo_unblocked_at :: "string option"
  wo_block_reason :: "string option"
  wo_source_event_id :: "string option"
  wo_last_event_id :: "string option"
  wo_last_updated_at :: string
  wo_description :: "string option"
  wo_type :: "string option"
  wo_updated_at :: "string option"
  wo_sequence_order :: "int option"
  wo_originating_symptom :: "string option"
  wo_priority :: string
  wo_blocked_from_status :: "string option"

type_synonym wo_table = "wo_row table"

text \<open>The column defaults of the table: status created, priority normal, NULL elsewhere.\<close>

definition wo_default :: wo_row where
  "wo_default =
     \<lparr>wo_project_id = None, wo_milestone_id = None, wo_title = None, wo_status = ''created'',
      wo_created_at = None, wo_started_at = None, wo_closed_at = None, wo_blocked_at = None,
      wo_unblocked_at = None, wo_block_reason = None, wo_source_event_id = None,
      wo_last_event_id = None, wo_last_updated_at = [], wo_description = None, wo_type = None,
      wo_updated_at = None, wo_sequence_order = None, wo_originating_symptom = None,
      wo_priority = ''normal'', wo_blocked_from_status = None\<rparr>"

section \<open>Framework helpers\<close>

abbreviation wo_is_already_processed :: "string \<Rightarrow> wo_table \<Rightarrow> bool" where
  "wo_is_already_processed \<equiv> is_already_processed wo_source_event_id wo_last_event_id"

definition wo_safe_upsert :: "string \<Rightarrow> (wo_row \<Rightarrow> wo_row) \<Rightarrow> wo_table \<Rightarrow> nat \<times> wo_table" where
  "wo_safe_upsert work_order_id columns t = (1, upsert wo_default work_order_id columns t)"

definition wo_pre_rebuild :: "wo_table \<Rightarrow> wo_table" where
  "wo_pre_rebuild t = []"

definition open_phase :: "string option \<Rightarrow> string option" where
  "open_phase value =
     (let text = (case value of None \<Rightarrow> [] | Some v \<Rightarrow> py_strip v) in
      if text \<in> set BLOCKABLE_WORK_ORDER_STATUSES then Some text else None)"

definition coerce_priority :: "string option \<Rightarrow> string" where
  "coerce_priority value =
     (let text = (case value of None \<Rightarrow> [] | Some v \<Rightarrow> py_strip v) in
      if text \<in> set WORK_ORDER_PRIORITIES then text else DEFAULT_WORK_ORDER_PRIORITY)"

section \<open>Handlers\<close>

type_synonym wo_result = "py_error + (nat \<times> wo_table)"

text \<open>INSERT OR IGNORE the new row, then fill the columns a skeleton row lacks. The priority
  column is NOT NULL, so its COALESCE in the UPDATE keeps the stored value and is no write.\<close>

definition wo_handle_created ::
    "string \<Rightarrow> string option \<Rightarrow> string option \<Rightarrow> dict \<Rightarrow> string \<Rightarrow> string \<Rightarrow> string
      \<Rightarrow> wo_table \<Rightarrow> wo_result" where
  "wo_handle_created work_order_id project_id milestone_id payload event_id ts now t =
     and_then (creation_status True) (\<lambda>status.
       let get = map_of payload;
           priority = coerce_priority (get ''priority'');
           row = wo_default\<lparr>wo_project_id := project_id, wo_milestone_id := milestone_id,
                   wo_title := get ''title'', wo_type := get ''type'', wo_status := status,
                   wo_created_at := Some ts, wo_source_event_id := Some event_id,
                   wo_last_event_id := Some event_id, wo_last_updated_at := now,
                   wo_originating_symptom := get ''originating_symptom'',
                   wo_description := get ''description'', wo_priority := priority\<rparr>;
           t1 = insert_or_ignore work_order_id row t;
           t2 = tbl_update work_order_id (\<lambda>r. r\<lparr>
                   wo_project_id := coalesce (wo_project_id r) project_id,
                   wo_milestone_id := coalesce (wo_milestone_id r) milestone_id,
                   wo_title := coalesce (wo_title r) (get ''title''),
                   wo_type := coalesce (wo_type r) (get ''type''),
                   wo_created_at := coalesce (wo_created_at r) (Some ts),
                   wo_source_event_id := coalesce (wo_source_event_id r) (Some event_id),
                   wo_originating_symptom :=
                     coalesce (wo_originating_symptom r) (get ''originating_symptom''),
                   wo_last_updated_at := now\<rparr>) t1
       in Inr (1, t2))"

definition wo_handle_status_only ::
    "string \<Rightarrow> string \<Rightarrow> string \<Rightarrow> string \<Rightarrow> wo_table \<Rightarrow> wo_result" where
  "wo_handle_status_only work_order_id event_type event_id now t =
     and_then (status_for event_type True) (\<lambda>status.
       Inr (wo_safe_upsert work_order_id (\<lambda>r.
         let r1 = r\<lparr>wo_status := status, wo_last_event_id := Some event_id,
                    wo_last_updated_at := now\<rparr>
         in if event_type = WORK_ORDER_CI_FAILED then r1\<lparr>wo_priority := ''blocker''\<rparr> else r1) t))"

definition wo_handle_started ::
    "string \<Rightarrow> string \<Rightarrow> string \<Rightarrow> string \<Rightarrow> wo_table \<Rightarrow> wo_result" where
  "wo_handle_started work_order_id event_id ts now t =
     and_then (status_for WORK_ORDER_STARTED True) (\<lambda>status.
       Inr (wo_safe_upsert work_order_id (\<lambda>r. r\<lparr>wo_status := status, wo_started_at := Some ts,
         wo_last_event_id := Some event_id, wo_last_updated_at := now\<rparr>) t))"

definition wo_handle_blocked ::
    "bool \<Rightarrow> string \<Rightarrow> dict \<Rightarrow> string \<Rightarrow> string \<Rightarrow> string \<Rightarrow> wo_table \<Rightarrow> wo_result" where
  "wo_handle_blocked remembers work_order_id payload event_id ts now t =
     (let block_reason = py_or (map_of payload ''reason'') (map_of payload ''block_reason'') in
      and_then (status_for WORK_ORDER_BLOCKED True) (\<lambda>status.
        Inr (wo_safe_upsert work_order_id (\<lambda>r.
          let r1 = r\<lparr>wo_status := status, wo_blocked_at := Some ts, wo_block_reason := block_reason,
                     wo_last_event_id := Some event_id, wo_last_updated_at := now\<rparr>
          in if remembers
             then r1\<lparr>wo_blocked_from_status := open_phase (map_of payload ''from_status'')\<rparr>
             else r1) t)))"

definition wo_handle_unblocked ::
    "bool \<Rightarrow> string \<Rightarrow> dict \<Rightarrow> string \<Rightarrow> string \<Rightarrow> string \<Rightarrow> wo_table \<Rightarrow> wo_result" where
  "wo_handle_unblocked remembers work_order_id payload event_id ts now t =
     (let said = open_phase (map_of payload ''to_status'');
          back_to =
            (if said = None \<and> remembers
             then (case map_of t work_order_id of
                     None \<Rightarrow> None
                   | Some recorded \<Rightarrow> open_phase (wo_blocked_from_status recorded))
             else said) in
      and_then (status_for WORK_ORDER_UNBLOCKED True) (\<lambda>fallback.
        Inr (wo_safe_upsert work_order_id (\<lambda>r.
          let r1 = r\<lparr>wo_status := (case back_to of None \<Rightarrow> fallback | Some s \<Rightarrow> s),
                     wo_unblocked_at := Some ts, wo_block_reason := None,
                     wo_last_event_id := Some event_id, wo_last_updated_at := now\<rparr>
          in if remembers then r1\<lparr>wo_blocked_from_status := None\<rparr> else r1) t)))"

definition wo_handle_reopened ::
    "string \<Rightarrow> string \<Rightarrow> string \<Rightarrow> string \<Rightarrow> wo_table \<Rightarrow> wo_result" where
  "wo_handle_reopened work_order_id event_id ts now t =
     and_then (status_for WORK_ORDER_REOPENED True) (\<lambda>status.
       Inr (wo_safe_upsert work_order_id (\<lambda>r. r\<lparr>wo_status := status, wo_closed_at := None,
         wo_last_event_id := Some event_id, wo_last_updated_at := now\<rparr>) t))"

definition wo_handle_closed ::
    "string \<Rightarrow> string \<Rightarrow> string \<Rightarrow> string \<Rightarrow> wo_table \<Rightarrow> wo_result" where
  "wo_handle_closed work_order_id event_id ts now t =
     and_then (status_for WORK_ORDER_CLOSED True) (\<lambda>status.
       Inr (wo_safe_upsert work_order_id (\<lambda>r. r\<lparr>wo_status := status, wo_closed_at := Some ts,
         wo_last_event_id := Some event_id, wo_last_updated_at := now\<rparr>) t))"

definition wo_handle_cancelled ::
    "string \<Rightarrow> string \<Rightarrow> string \<Rightarrow> string \<Rightarrow> wo_table \<Rightarrow> wo_result" where
  "wo_handle_cancelled work_order_id event_id ts now t =
     and_then (status_for WORK_ORDER_CANCELLED True) (\<lambda>status.
       Inr (wo_safe_upsert work_order_id (\<lambda>r. r\<lparr>wo_status := status, wo_closed_at := Some ts,
         wo_last_event_id := Some event_id, wo_last_updated_at := now\<rparr>) t))"

definition wo_handle_deleted ::
    "string \<Rightarrow> string \<Rightarrow> string \<Rightarrow> wo_table \<Rightarrow> wo_result" where
  "wo_handle_deleted work_order_id event_id now t =
     and_then (status_for WORK_ORDER_DELETED True) (\<lambda>status.
       Inr (wo_safe_upsert work_order_id (\<lambda>r. r\<lparr>wo_status := status,
         wo_last_event_id := Some event_id, wo_last_updated_at := now\<rparr>) t))"

definition wo_ensure_skeleton ::
    "string \<Rightarrow> string option \<Rightarrow> string \<Rightarrow> wo_table \<Rightarrow> py_error + wo_table" where
  "wo_ensure_skeleton work_order_id project_id now t =
     and_then (creation_status True) (\<lambda>status.
       Inr (insert_or_ignore work_order_id
         (wo_default\<lparr>wo_project_id := project_id, wo_status := status,
                     wo_last_updated_at := now\<rparr>) t))"

section \<open>The dispatcher\<close>

definition wo_consumed_event_types :: "string list" where
  "wo_consumed_event_types =
     [WORK_ORDER_CREATED, WORK_ORDER_STARTED, WORK_ORDER_REVIEW_REQUESTED,
      WORK_ORDER_PUSHED, WORK_ORDER_CI_FAILED, WORK_ORDER_BLOCKED,
      WORK_ORDER_UNBLOCKED, WORK_ORDER_REOPENED, WORK_ORDER_CLOSED,
      WORK_ORDER_CANCELLED, WORK_ORDER_DELETED]"

definition wo_dispatch ::
    "bool \<Rightarrow> string \<Rightarrow> event \<Rightarrow> string \<Rightarrow> wo_table \<Rightarrow> wo_result" where
  "wo_dispatch remembers now e work_order_id t =
     (let ty = ev_type e; payload = ev_payload e; event_id = ev_id e; ts = ev_timestamp e in
      if ty = WORK_ORDER_STARTED then wo_handle_started work_order_id event_id ts now t
      else if ty \<in> {WORK_ORDER_REVIEW_REQUESTED, WORK_ORDER_PUSHED, WORK_ORDER_CI_FAILED}
      then wo_handle_status_only work_order_id ty event_id now t
      else if ty = WORK_ORDER_BLOCKED
      then wo_handle_blocked remembers work_order_id payload event_id ts now t
      else if ty = WORK_ORDER_UNBLOCKED
      then wo_handle_unblocked remembers work_order_id payload event_id ts now t
      else if ty = WORK_ORDER_REOPENED then wo_handle_reopened work_order_id event_id ts now t
      else if ty = WORK_ORDER_CLOSED then wo_handle_closed work_order_id event_id ts now t
      else if ty = WORK_ORDER_CANCELLED then wo_handle_cancelled work_order_id event_id ts now t
      else if ty = WORK_ORDER_DELETED then wo_handle_deleted work_order_id event_id now t
      else Inr (0, t))"

definition wo_handle :: "bool \<Rightarrow> string \<Rightarrow> event \<Rightarrow> wo_table \<Rightarrow> wo_result" where
  "wo_handle remembers now e t =
     (if wo_is_already_processed (ev_id e) t then Inr (0, t)
      else let work_order_id = col_or_payload (ev_work_order_id e) e ''work_order_id'' in
        if \<not> truthy work_order_id then Inr (0, t)
        else let wid = the work_order_id;
                 project_id = col_or_payload (ev_project_id e) e ''project_id'';
                 milestone_id = col_or_payload (ev_milestone_id e) e ''milestone_id'' in
          if ev_type e = WORK_ORDER_CREATED
          then wo_handle_created wid project_id milestone_id (ev_payload e) (ev_id e)
                 (ev_timestamp e) now t
          else and_then (wo_ensure_skeleton wid project_id now t)
                 (\<lambda>t1. wo_dispatch remembers now e wid t1))"


section \<open>Event types\<close>

lemma wo_type_cases [case_names created started review pushed ci_failed blocked unblocked reopened closed
    cancelled deleted other]:
  obtains "ty = WORK_ORDER_CREATED" | "ty = WORK_ORDER_STARTED"
  | "ty = WORK_ORDER_REVIEW_REQUESTED" | "ty = WORK_ORDER_PUSHED" | "ty = WORK_ORDER_CI_FAILED"
  | "ty = WORK_ORDER_BLOCKED" | "ty = WORK_ORDER_UNBLOCKED" | "ty = WORK_ORDER_REOPENED"
  | "ty = WORK_ORDER_CLOSED" | "ty = WORK_ORDER_CANCELLED" | "ty = WORK_ORDER_DELETED"
  | "ty \<notin> set wo_consumed_event_types"
  by (auto simp: wo_consumed_event_types_def)

text \<open>The dispatcher, one equation per event type.\<close>

lemma wo_dispatch_simps [simp]:
  "ev_type e = WORK_ORDER_STARTED \<Longrightarrow>
     wo_dispatch rem now e w t = wo_handle_started w (ev_id e) (ev_timestamp e) now t"
  "ev_type e \<in> {WORK_ORDER_REVIEW_REQUESTED, WORK_ORDER_PUSHED, WORK_ORDER_CI_FAILED} \<Longrightarrow>
     wo_dispatch rem now e w t = wo_handle_status_only w (ev_type e) (ev_id e) now t"
  "ev_type e = WORK_ORDER_BLOCKED \<Longrightarrow>
     wo_dispatch rem now e w t = wo_handle_blocked rem w (ev_payload e) (ev_id e) (ev_timestamp e) now t"
  "ev_type e = WORK_ORDER_UNBLOCKED \<Longrightarrow>
     wo_dispatch rem now e w t = wo_handle_unblocked rem w (ev_payload e) (ev_id e) (ev_timestamp e) now t"
  "ev_type e = WORK_ORDER_REOPENED \<Longrightarrow>
     wo_dispatch rem now e w t = wo_handle_reopened w (ev_id e) (ev_timestamp e) now t"
  "ev_type e = WORK_ORDER_CLOSED \<Longrightarrow>
     wo_dispatch rem now e w t = wo_handle_closed w (ev_id e) (ev_timestamp e) now t"
  "ev_type e = WORK_ORDER_CANCELLED \<Longrightarrow>
     wo_dispatch rem now e w t = wo_handle_cancelled w (ev_id e) (ev_timestamp e) now t"
  "ev_type e = WORK_ORDER_DELETED \<Longrightarrow>
     wo_dispatch rem now e w t = wo_handle_deleted w (ev_id e) now t"
  by (auto simp: wo_dispatch_def Let_def)

lemma wo_dispatch_other:
  assumes "ev_type e \<notin> set wo_consumed_event_types"
  shows "wo_dispatch rem now e w t = Inr (0, t)"
  using assms by (simp add: wo_consumed_event_types_def wo_dispatch_def Let_def)

section \<open>What one event does to a row\<close>

text \<open>The work order an event is about, or none when the event is skipped.\<close>

definition wo_target :: "event \<Rightarrow> string option" where
  "wo_target e =
     (let w = col_or_payload (ev_work_order_id e) e ''work_order_id'' in if truthy w then w else None)"

lemma wo_safe_upsert_simps [simp]:
  "fst (wo_safe_upsert w f t) = 1"
  "snd (wo_safe_upsert w f t) = upsert wo_default w f t"
  by (simp_all add: wo_safe_upsert_def)

lemmas wo_handler_defs =
  wo_handle_status_only_def wo_handle_started_def wo_handle_blocked_def wo_handle_unblocked_def
  wo_handle_reopened_def wo_handle_closed_def wo_handle_cancelled_def wo_handle_deleted_def

text \<open>Every handler but the creation one writes columns of one row through an upsert.\<close>

lemma wo_dispatch_upsert:
  "(\<exists>f. wo_dispatch rem now e w t = Inr (1, upsert wo_default w f t)) \<or>
   wo_dispatch rem now e w t = Inr (0, t)"
  by (auto simp: wo_dispatch_def Let_def wo_handler_defs wo_safe_upsert_def)

lemma wo_ensure_skeleton_eq:
  "wo_ensure_skeleton w p now t = Inr (insert_or_ignore w
     (wo_default\<lparr>wo_project_id := p, wo_status := ''created'', wo_last_updated_at := now\<rparr>) t)"
  by (simp add: wo_ensure_skeleton_def)

lemma wo_handle_eq:
  "wo_handle rem now e t =
     (case wo_target e of
        None \<Rightarrow> Inr (0, t)
      | Some w \<Rightarrow>
          if wo_is_already_processed (ev_id e) t then Inr (0, t)
          else if ev_type e = WORK_ORDER_CREATED
          then wo_handle_created w (col_or_payload (ev_project_id e) e ''project_id'')
                 (col_or_payload (ev_milestone_id e) e ''milestone_id'') (ev_payload e) (ev_id e)
                 (ev_timestamp e) now t
          else wo_dispatch rem now e w (insert_or_ignore w
                 (wo_default\<lparr>wo_project_id := col_or_payload (ev_project_id e) e ''project_id'',
                   wo_status := ''created'', wo_last_updated_at := now\<rparr>) t))"
  by (cases "col_or_payload (ev_work_order_id e) e ''work_order_id''")
    (auto simp: wo_handle_def wo_target_def Let_def wo_ensure_skeleton_eq)

lemma wo_handle_total: "\<exists>n t'. wo_handle rem now e t = Inr (n, t')"
proof -
  have "\<exists>n t'. wo_dispatch rem now e w t1 = Inr (n, t')" for w t1
    using wo_dispatch_upsert [of rem now e w t1] by blast
  then show ?thesis
    by (auto simp: wo_handle_eq wo_handle_created_def Let_def split: option.split)
qed

lemma wo_handle_frame:
  assumes "wo_handle rem now e t = Inr (n, t')" and "wo_target e \<noteq> Some k"
  shows "map_of t' k = map_of t k"
proof (cases "wo_target e")
  case None
  with assms show ?thesis by (simp add: wo_handle_eq)
next
  case (Some w)
  then have "k \<noteq> w"
    using assms(2) by auto
  moreover have "map_of t'' k = map_of t1 k"
    if "wo_dispatch rem now e w t1 = Inr (m, t'')" for m t'' t1
    using wo_dispatch_upsert [of rem now e w t1] that \<open>k \<noteq> w\<close> by (auto simp: map_of_upsert)
  ultimately show ?thesis
    using assms(1) Some
    by (auto simp: wo_handle_eq wo_handle_created_def Let_def table_simps split: if_splits)
qed

section \<open>Row invariant\<close>

definition wf_wo_row :: "wo_row \<Rightarrow> bool" where
  "wf_wo_row r \<longleftrightarrow> wo_status r \<in> set CANONICAL_WORK_ORDER_STATUSES \<and>
     wo_priority r \<in> set WORK_ORDER_PRIORITIES \<and>
     (\<forall>s. wo_blocked_from_status r = Some s \<longrightarrow> s \<in> set BLOCKABLE_WORK_ORDER_STATUSES)"

definition wf_wo_table :: "wo_table \<Rightarrow> bool" where
  "wf_wo_table t \<longleftrightarrow> distinct (keys t) \<and> list_all (\<lambda>(k, r). wf_wo_row r) t"

lemma wf_wo_default [simp]: "wf_wo_row wo_default"
  by (simp add: wf_wo_row_def wo_default_def CANONICAL_WORK_ORDER_STATUSES_def
      WORK_ORDER_PRIORITIES_def)

lemma coerce_priority_in [simp]: "coerce_priority v \<in> set WORK_ORDER_PRIORITIES"
  by (simp add: coerce_priority_def Let_def WORK_ORDER_PRIORITIES_def DEFAULT_WORK_ORDER_PRIORITY_def)

lemma open_phase_in: "open_phase v = Some s \<Longrightarrow> s \<in> set BLOCKABLE_WORK_ORDER_STATUSES"
  by (auto simp: open_phase_def Let_def split: if_splits)

lemma blockable_canonical:
  "set BLOCKABLE_WORK_ORDER_STATUSES \<subseteq> set CANONICAL_WORK_ORDER_STATUSES"
  by (simp add: CANONICAL_WORK_ORDER_STATUSES_def blockable_eq)

lemma wf_table_ops:
  assumes "wf_wo_table t"
  shows "(\<And>r. wf_wo_row r \<Longrightarrow> wf_wo_row (f r)) \<Longrightarrow> wf_wo_table (tbl_update w f t)"
    and "wf_wo_row r0 \<Longrightarrow> wf_wo_table (insert_or_ignore w r0 t)"
    and "(\<And>r. wf_wo_row r \<Longrightarrow> wf_wo_row (f r)) \<Longrightarrow> wf_wo_table (upsert wo_default w f t)"
proof -
  show upd: "wf_wo_table (tbl_update w f t)" if "\<And>r. wf_wo_row r \<Longrightarrow> wf_wo_row (f r)"
    using assms that by (auto simp: wf_wo_table_def list_all_iff set_tbl_update split: if_splits)
  show "wf_wo_table (insert_or_ignore w r0 t)" if "wf_wo_row r0"
    using assms that
    by (auto simp: wf_wo_table_def list_all_iff insert_or_ignore_def map_of_eq_None_iff)
  show "wf_wo_table (upsert wo_default w f t)" if "\<And>r. wf_wo_row r \<Longrightarrow> wf_wo_row (f r)"
    using assms that upd wf_wo_default
    by (auto simp: wf_wo_table_def list_all_iff upsert_def map_of_eq_None_iff)
qed

lemma status_for_canonical:
  "status_for ev True = Inr s \<Longrightarrow> s \<in> set CANONICAL_WORK_ORDER_STATUSES"
  by (auto simp: status_for_def WORK_ORDER_EVENT_STATUS_def CANONICAL_WORK_ORDER_STATUSES_def
      split: if_splits)

lemma wf_wo_dispatch:
  assumes "wf_wo_table t" and "wo_dispatch rem now e w t = Inr (n, t')"
  shows "wf_wo_table t'"
proof -
  have up: "open_phase v = Some p \<Longrightarrow> p \<in> set CANONICAL_WORK_ORDER_STATUSES" for v p
    using open_phase_in blockable_canonical by blast
  have words: "{''in_progress'', ''blocked'', ''closed'', ''cancelled'', ''deleted''}
      \<subseteq> set CANONICAL_WORK_ORDER_STATUSES" "''blocker'' \<in> set WORK_ORDER_PRIORITIES"
    by (simp_all add: CANONICAL_WORK_ORDER_STATUSES_def WORK_ORDER_PRIORITIES_def)
  show ?thesis
    using assms words
    by (auto simp: wo_dispatch_def Let_def wo_handler_defs wo_safe_upsert_def and_then_Inr_iff
        split: if_splits intro!: wf_table_ops(3) [OF assms(1)]
        simp: wf_wo_row_def dest: open_phase_in up status_for_canonical split: option.splits)
qed

lemma wf_wo_handle:
  assumes "wf_wo_table t" and "wo_handle rem now e t = Inr (n, t')"
  shows "wf_wo_table t'"
proof (cases "wo_target e")
  case None
  with assms show ?thesis by (simp add: wo_handle_eq)
next
  case (Some w)
  have c: "''created'' \<in> set CANONICAL_WORK_ORDER_STATUSES"
    by (simp add: CANONICAL_WORK_ORDER_STATUSES_def)
  have sk: "wf_wo_row (wo_default\<lparr>wo_project_id := p, wo_status := ''created'',
      wo_last_updated_at := now\<rparr>)" for p
    using wf_wo_default c by (simp add: wf_wo_row_def)
  have cr: "wf_wo_table t''" if "wo_handle_created w p m pl i ts now t = Inr (k, t'')" for p m pl i ts k t''
    using that c wf_wo_default
    by (auto simp: wo_handle_created_def Let_def wf_wo_row_def
        intro!: wf_table_ops(1) [OF wf_table_ops(2) [OF assms(1)]])
  show ?thesis
    using assms Some sk cr
    by (auto simp: wo_handle_eq split: if_splits dest: wf_wo_dispatch [OF wf_table_ops(2) [OF assms(1) sk]])
qed

section \<open>The lifecycle a replay computes\<close>

text \<open>What a reader of the table sees of a work order's lifecycle.\<close>

type_synonym wo_view = "string \<times> string \<times> string option"

definition wo_view :: "wo_row \<Rightarrow> wo_view" where
  "wo_view r = (wo_status r, wo_priority r, wo_blocked_from_status r)"

text \<open>The lifecycle as a state machine over single events, with no table, no identifiers and no
  deduplication: the specification the projection refines.\<close>

definition wo_view_step :: "bool \<Rightarrow> event \<Rightarrow> wo_view option \<Rightarrow> wo_view" where
  "wo_view_step remembers e v =
     (let (s, p, b) = (case v of None \<Rightarrow> (''created'', ''normal'', None) | Some x \<Rightarrow> x); ty = ev_type e in
      if ty = WORK_ORDER_CREATED then
        (case v of None \<Rightarrow> (''created'', coerce_priority (map_of (ev_payload e) ''priority''), None)
         | Some x \<Rightarrow> x)
      else if ty = WORK_ORDER_BLOCKED then
        (''blocked'', p, if remembers then open_phase (map_of (ev_payload e) ''from_status'') else b)
      else if ty = WORK_ORDER_UNBLOCKED then
        (case open_phase (map_of (ev_payload e) ''to_status'') of
           Some s' \<Rightarrow> s'
         | None \<Rightarrow> (case (if remembers then open_phase b else None) of
                     Some s' \<Rightarrow> s' | None \<Rightarrow> ''in_progress''),
         p, if remembers then None else b)
      else if ty = WORK_ORDER_CI_FAILED then (''ci_issues'', ''blocker'', b)
      else (case status_for ty True of Inr s' \<Rightarrow> (s', p, b) | Inl _ \<Rightarrow> (s, p, b)))"

definition wo_ids :: "wo_table \<Rightarrow> string set" where
  "wo_ids t = {i. \<exists>(k, r) \<in> set t. wo_source_event_id r = Some i \<or> wo_last_event_id r = Some i}"

lemma wo_is_already_processed_iff: "wo_is_already_processed i t \<longleftrightarrow> i \<in> wo_ids t"
  by (auto simp: is_already_processed_def wo_ids_def list_ex_iff)

lemma wo_ids_ops:
  "wo_ids (insert_or_ignore w r t) \<subseteq>
     wo_ids t \<union> {i. wo_source_event_id r = Some i \<or> wo_last_event_id r = Some i}"
  "(\<And>r i. wo_source_event_id (f r) = Some i \<or> wo_last_event_id (f r) = Some i \<Longrightarrow>
      i \<in> I \<or> wo_source_event_id r = Some i \<or> wo_last_event_id r = Some i) \<Longrightarrow>
   wo_ids (tbl_update w f t) \<subseteq> wo_ids t \<union> I"
  "(\<And>r i. wo_source_event_id (f r) = Some i \<or> wo_last_event_id (f r) = Some i \<Longrightarrow>
      i \<in> I \<or> wo_source_event_id r = Some i \<or> wo_last_event_id r = Some i) \<Longrightarrow>
   wo_ids (upsert wo_default w f t) \<subseteq> wo_ids t \<union> I"
proof -
  show "wo_ids (insert_or_ignore w r t) \<subseteq>
     wo_ids t \<union> {i. wo_source_event_id r = Some i \<or> wo_last_event_id r = Some i}"
    by (auto simp: wo_ids_def insert_or_ignore_def)
  assume f: "\<And>r i. wo_source_event_id (f r) = Some i \<or> wo_last_event_id (f r) = Some i \<Longrightarrow>
      i \<in> I \<or> wo_source_event_id r = Some i \<or> wo_last_event_id r = Some i"
  show u: "wo_ids (tbl_update w f t) \<subseteq> wo_ids t \<union> I"
  proof
    fix i assume "i \<in> wo_ids (tbl_update w f t)"
    then obtain k r where "(k, r) \<in> set t"
      and "wo_source_event_id (if k = w then f r else r) = Some i \<or>
           wo_last_event_id (if k = w then f r else r) = Some i"
      by (auto simp: wo_ids_def set_tbl_update)
    then show "i \<in> wo_ids t \<union> I"
      using f [of r i] by (auto simp: wo_ids_def split: if_splits)
  qed
  show "wo_ids (upsert wo_default w f t) \<subseteq> wo_ids t \<union> I"
    using u f [of wo_default] by (auto simp: upsert_def wo_ids_def wo_default_def)
qed

lemma wo_ids_upsertD:
  assumes "x \<in> wo_ids (upsert wo_default w f t)"
    and "\<And>r. wo_source_event_id (f r) = wo_source_event_id r"
    and "\<And>r. wo_last_event_id (f r) = Some i"
  shows "x \<in> wo_ids t \<or> x = i"
  using wo_ids_ops(3) [of f "{i}" w t] assms by auto

lemma wo_dispatch_ids:
  assumes "wo_dispatch rem now e w t = Inr (n, t')"
  shows "wo_ids t' \<subseteq> wo_ids t \<union> {ev_id e}"
  using assms
  by (auto simp: wo_dispatch_def Let_def wo_handler_defs wo_safe_upsert_def and_then_Inr_iff
      split: if_splits dest!: wo_ids_upsertD [where i = "ev_id e"])

lemma wo_handle_ids:
  assumes "wo_handle rem now e t = Inr (n, t')"
  shows "wo_ids t' \<subseteq> wo_ids t \<union> {ev_id e}"
proof (cases "wo_target e")
  case None
  with assms show ?thesis by (auto simp: wo_handle_eq)
next
  case (Some w)
  have sk: "wo_ids (insert_or_ignore w (wo_default\<lparr>wo_project_id := p, wo_status := st,
      wo_last_updated_at := now\<rparr>) t) \<subseteq> wo_ids t" for p st
    using wo_ids_ops(1) [of w "wo_default\<lparr>wo_project_id := p, wo_status := st,
      wo_last_updated_at := now\<rparr>" t] by (auto simp: wo_default_def)
  have cr: "wo_ids t'' \<subseteq> wo_ids t \<union> {ev_id e}"
    if h: "wo_handle_created w p m pl (ev_id e) ts now t = Inr (k, t'')" for p m pl ts k t''
  proof -
    from h obtain r f where t'': "t'' = tbl_update w f (insert_or_ignore w r t)"
      and r: "wo_source_event_id r = Some (ev_id e)" "wo_last_event_id r = Some (ev_id e)"
      and f: "\<And>r. wo_source_event_id (f r) = coalesce (wo_source_event_id r) (Some (ev_id e))"
        "\<And>r. wo_last_event_id (f r) = wo_last_event_id r"
      by (auto simp: wo_handle_created_def Let_def)
    have "wo_ids t'' \<subseteq> wo_ids (insert_or_ignore w r t) \<union> {ev_id e}"
      unfolding t'' using f by (intro wo_ids_ops(2)) (auto simp: coalesce_def split: option.splits)
    then show ?thesis
      using wo_ids_ops(1) [of w r t] r by auto
  qed
  from assms Some consider "t' = t" | p m pl ts k where "wo_handle_created w p m pl (ev_id e) ts now t = Inr (k, t')"
    | p where "wo_dispatch rem now e w (insert_or_ignore w (wo_default\<lparr>wo_project_id := p,
        wo_status := ''created'', wo_last_updated_at := now\<rparr>) t) = Inr (n, t')"
    by (auto simp: wo_handle_eq split: if_splits)
  then show ?thesis
  proof cases
    case 1
    then show ?thesis by auto
  next
    case 2
    then show ?thesis by (rule cr)
  next
    case 3
    from wo_dispatch_ids [OF this] sk show ?thesis by blast
  qed
qed

lemma wo_dispatch_view:
  assumes "wo_dispatch rem now e w t = Inr (n, t')" and "map_of t w = Some r"
    and "ev_type e \<noteq> WORK_ORDER_CREATED"
  shows "map_option wo_view (map_of t' w) = Some (wo_view_step rem e (Some (wo_view r)))"
proof (cases "ev_type e" rule: wo_type_cases)
  case blocked
  with assms show ?thesis
    by (auto simp: wo_handle_blocked_def wo_safe_upsert_def map_of_upsert wo_view_step_def
        wo_view_def Let_def)
next
  case unblocked
  with assms show ?thesis
    by (auto simp: wo_handle_unblocked_def wo_safe_upsert_def map_of_upsert wo_view_step_def
        wo_view_def Let_def split: option.splits)
next
  case other
  then have "status_for (ev_type e) True = Inl (KeyError (ev_type e))"
    by (simp add: wo_consumed_event_types_def status_for_def WORK_ORDER_EVENT_STATUS_def)
  with other assms show ?thesis
    by (auto simp: wo_dispatch_other wo_view_step_def wo_view_def Let_def
        wo_consumed_event_types_def)
qed (use assms in \<open>auto simp: wo_handler_defs wo_safe_upsert_def map_of_upsert wo_view_step_def
        wo_view_def Let_def\<close>)

lemma wo_view_step_skeleton:
  "ev_type e \<noteq> WORK_ORDER_CREATED \<Longrightarrow>
     wo_view_step rem e (Some (''created'', ''normal'', None)) = wo_view_step rem e None"
  by (simp add: wo_view_step_def)

lemma wo_handle_view:
  assumes "wo_handle rem now e t = Inr (n, t')" and "wo_target e = Some w"
    and "ev_id e \<notin> wo_ids t"
  shows "map_option wo_view (map_of t' w) =
    Some (wo_view_step rem e (map_option wo_view (map_of t w)))"
proof -
  have np: "\<not> wo_is_already_processed (ev_id e) t"
    using assms(3) by (simp add: wo_is_already_processed_iff)
  show ?thesis
  proof (cases "ev_type e = WORK_ORDER_CREATED")
    case True
    with assms np show ?thesis
      by (cases "map_of t w")
        (auto simp: wo_handle_eq wo_handle_created_def Let_def table_simps wo_view_step_def
          wo_view_def wo_default_def)
  next
    case False
    define sk where "sk = wo_default\<lparr>wo_project_id := col_or_payload (ev_project_id e) e ''project_id'',
        wo_status := ''created'', wo_last_updated_at := now\<rparr>"
    have d: "wo_dispatch rem now e w (insert_or_ignore w sk t) = Inr (n, t')"
      using assms(1,2) np False by (simp add: wo_handle_eq sk_def)
    have "wo_view sk = (''created'', ''normal'', None)"
      by (simp add: sk_def wo_view_def wo_default_def)
    with wo_dispatch_view [OF d _ False] show ?thesis
      by (cases "map_of t w")
        (simp_all add: map_of_insert_or_ignore wo_view_step_skeleton [OF False])
  qed
qed

section \<open>Replaying a log\<close>

text \<open>One event after the other, as a rebuild does it: an event whose handler raises leaves the
  table as it was. \<open>clk\<close> is the clock reading of each handler call.\<close>

definition wo_step :: "bool \<Rightarrow> (event \<Rightarrow> string) \<Rightarrow> event \<Rightarrow> wo_table \<Rightarrow> wo_table" where
  "wo_step rem clk e t = (case wo_handle rem (clk e) e t of Inl _ \<Rightarrow> t | Inr (n, t') \<Rightarrow> t')"

definition wo_replay :: "bool \<Rightarrow> (event \<Rightarrow> string) \<Rightarrow> event list \<Rightarrow> wo_table \<Rightarrow> wo_table" where
  "wo_replay rem clk log t = fold (wo_step rem clk) log t"

lemma wo_step_handle: "\<exists>n. wo_handle rem (clk e) e t = Inr (n, wo_step rem clk e t)"
  using wo_handle_total [of rem "clk e" e t] by (auto simp: wo_step_def)

lemma wo_replay_view_from:
  assumes "distinct (map ev_id log)" and "wo_ids t \<inter> ev_id ` set log = {}"
  shows "map_option wo_view (map_of (wo_replay rem clk log t) w) =
    fold (\<lambda>e v. Some (wo_view_step rem e v)) (filter (\<lambda>e. wo_target e = Some w) log)
      (map_option wo_view (map_of t w))"
  using assms
proof (induction log arbitrary: t)
  case Nil
  then show ?case by (simp add: wo_replay_def)
next
  case (Cons e log)
  obtain n where h: "wo_handle rem (clk e) e t = Inr (n, wo_step rem clk e t)"
    using wo_step_handle by blast
  have "wo_ids (wo_step rem clk e t) \<inter> ev_id ` set log = {}"
  proof -
    from Cons.prems have "ev_id e \<notin> ev_id ` set log" and "wo_ids t \<inter> ev_id ` set log = {}"
      by auto
    with wo_handle_ids [OF h] show ?thesis
      by (rule disjoint_after_insert)
  qed
  then have IH: "map_option wo_view (map_of (wo_replay rem clk log (wo_step rem clk e t)) w) =
    fold (\<lambda>e v. Some (wo_view_step rem e v)) (filter (\<lambda>e. wo_target e = Some w) log)
      (map_option wo_view (map_of (wo_step rem clk e t) w))"
    using Cons.IH Cons.prems(1) by simp
  show ?case
  proof (cases "wo_target e = Some w")
    case True
    have "ev_id e \<notin> wo_ids t"
      using Cons.prems(2) by auto
    from wo_handle_view [OF h True this] IH True show ?thesis
      by (simp add: wo_replay_def del: map_option_eq_Some)
  next
    case False
    with wo_handle_frame [OF h False] IH show ?thesis
      by (simp add: wo_replay_def)
  qed
qed

lemma wo_dispatch_last_event:
  assumes "wo_dispatch rem now e w t = Inr (n, t')" and "ev_type e \<noteq> WORK_ORDER_CREATED"
  shows "t' = t \<and> (\<forall>t0. wo_dispatch rem now e w t0 = Inr (0, t0)) \<or>
    (\<exists>r. map_of t' w = Some r \<and> wo_last_event_id r = Some (ev_id e))"
proof (cases "ev_type e \<in> set wo_consumed_event_types")
  case False
  with assms show ?thesis
    by (simp add: wo_dispatch_other)
next
  case True
  have "\<exists>f. wo_dispatch rem now e w t = Inr (1, upsert wo_default w f t) \<and>
      (\<forall>r. wo_last_event_id (f r) = Some (ev_id e))"
    using True assms(2)
    by (cases "ev_type e" rule: wo_type_cases)
      (auto simp: wo_handler_defs wo_safe_upsert_def Let_def intro!: exI)
  with assms(1) show ?thesis
    by (cases "map_of t w") (auto simp: map_of_upsert)
qed

section \<open>Properties\<close>

text \<open>Handling any event keeps the table well formed (one row per work order, a canonical
  status, a declared priority, and a remembered phase that is one a work order can be blocked
  from, which is the CHECK of migration 158), never raises, and leaves the rows of every other
  work order alone.\<close>

theorem wo_handle_invariant:
  assumes "wf_wo_table t"
  shows "\<exists>n t'. wo_handle rem now e t = Inr (n, t') \<and> wf_wo_table t' \<and>
    (\<forall>k. wo_target e \<noteq> Some k \<longrightarrow> map_of t' k = map_of t k)"
  using wo_handle_total [of rem now e t] wf_wo_handle [OF assms] wo_handle_frame by blast

theorem wo_handle_invariant_witness:
  "\<exists>n t'. wo_handle True ''now'' (wo_event ''e1'' WORK_ORDER_STARTED ''t'' ''w1'' []) [] = Inr (n, t') \<and>
     wf_wo_table t'"
  using wo_handle_invariant [of "[]" True "''now''" "wo_event ''e1'' WORK_ORDER_STARTED ''t'' ''w1'' []"]
  by (fastforce simp: wf_wo_table_def)

text \<open>C5: Replaying a log of distinct events implements the lifecycle specification. For every
  work order, the status, the priority and the remembered phase of its row are what the
  table-free state machine computes from that work order's own events in log order; neither the
  other work orders' events nor the deduplication by event id influence it.\<close>

theorem wo_replay_refines:
  assumes "distinct (map ev_id log)"
  shows "map_option wo_view (map_of (wo_replay rem clk log []) w) =
    fold (\<lambda>e v. Some (wo_view_step rem e v)) (filter (\<lambda>e. wo_target e = Some w) log) None"
  using wo_replay_view_from [OF assms, of "[]"] by (simp add: wo_ids_def)

theorem wo_replay_refines_witness:
  "map_option wo_view (map_of (wo_replay True (\<lambda>_. ''now'')
      [wo_event ''e1'' WORK_ORDER_CREATED ''t1'' ''w1'' [(''priority'', ''defect'')],
       wo_event ''e2'' WORK_ORDER_STARTED ''t2'' ''w1'' [],
       wo_event ''e3'' WORK_ORDER_BLOCKED ''t3'' ''w1'' [(''from_status'', ''in_progress'')]] []) ''w1'') =
    Some (''blocked'', ''defect'', Some ''in_progress'')"
  by (subst wo_replay_refines)
    (simp_all add: wo_target_def col_or_payload_def py_or_def wo_view_step_def coerce_priority_def
      open_phase_def WORK_ORDER_PRIORITIES_def blockable_eq py_strip_def py_rstrip_def py_lstrip_def
      py_isspace_def Let_def)

text \<open>Redelivery of the event just handled changes nothing: handling the same event again
  with the same clock leaves the table exactly as the first handling left it, on every branch,
  including a second creation event for a row another event created.\<close>

theorem wo_handle_idempotent:
  assumes "wo_handle rem now e t = Inr (n, t')"
  shows "\<exists>m. wo_handle rem now e t' = Inr (m, t')"
proof (cases "wo_target e")
  case None
  with assms show ?thesis by (simp add: wo_handle_eq)
next
  case (Some w)
  show ?thesis
  proof (cases "wo_is_already_processed (ev_id e) t")
    case True
    with assms Some show ?thesis by (auto simp: wo_handle_eq)
  next
    case False
    show ?thesis
    proof (cases "ev_type e = WORK_ORDER_CREATED")
      case True
      from assms Some False True obtain r0 f where
        t': "t' = tbl_update w f (insert_or_ignore w r0 t)" and ff: "\<And>r. f (f r) = f r"
        and again: "\<And>t0. map_of t0 w \<noteq> None \<Longrightarrow> \<not> wo_is_already_processed (ev_id e) t0 \<Longrightarrow>
          wo_handle rem now e t0 = Inr (1, tbl_update w f t0)"
        by (auto simp: wo_handle_eq wo_handle_created_def Let_def insert_or_ignore_present)
      have "map_of t' w \<noteq> None"
        by (simp add: t' table_simps split: option.splits)
      then show ?thesis
        using again [of t'] Some tbl_update_idem [of f w, OF ff] t'
        by (cases "wo_is_already_processed (ev_id e) t'") (auto simp: wo_handle_eq)
    next
      case created: False
      define sk where "sk = wo_default\<lparr>wo_project_id := col_or_payload (ev_project_id e) e ''project_id'',
        wo_status := ''created'', wo_last_updated_at := now\<rparr>"
      from assms Some False created
      have d: "wo_dispatch rem now e w (insert_or_ignore w sk t) = Inr (n, t')"
        by (simp add: wo_handle_eq sk_def)
      from wo_dispatch_last_event [OF this created] show ?thesis
      proof (elim disjE conjE exE)
        assume "t' = insert_or_ignore w sk t" and "\<forall>t0. wo_dispatch rem now e w t0 = Inr (0, t0)"
        moreover from this(1) have "insert_or_ignore w sk t' = t'"
          by (simp add: insert_or_ignore_present map_of_insert_or_ignore split: option.splits)
        ultimately show ?thesis
          using Some created by (auto simp: wo_handle_eq sk_def)
      next
        fix r assume "map_of t' w = Some r" "wo_last_event_id r = Some (ev_id e)"
        then have "wo_is_already_processed (ev_id e) t'"
          by (blast intro: processed_by_row)
        with Some show ?thesis by (auto simp: wo_handle_eq)
      qed
    qed
  qed
qed

theorem wo_handle_idempotent_witness:
  "\<exists>m. wo_handle True ''now'' (wo_event ''e1'' WORK_ORDER_STARTED ''t1'' ''w1'' [])
     (wo_replay True (\<lambda>_. ''now'') [wo_event ''e1'' WORK_ORDER_STARTED ''t1'' ''w1'' []] []) =
   Inr (m, wo_replay True (\<lambda>_. ''now'') [wo_event ''e1'' WORK_ORDER_STARTED ''t1'' ''w1'' []] [])"
proof -
  obtain n where "wo_handle True ''now'' (wo_event ''e1'' WORK_ORDER_STARTED ''t1'' ''w1'' []) [] =
      Inr (n, wo_step True (\<lambda>_. ''now'') (wo_event ''e1'' WORK_ORDER_STARTED ''t1'' ''w1'' []) [])"
    using wo_step_handle [of True "\<lambda>_. ''now''" "wo_event ''e1'' WORK_ORDER_STARTED ''t1'' ''w1'' []" "[]"]
    by auto
  from wo_handle_idempotent [OF this] show ?thesis
    by (simp add: wo_replay_def)
qed

text \<open>A creation event that finds a row (a skeleton an earlier-handled event inserted) fills
  the project, the milestone, the title, the type, the creation time, the source event and the
  originating symptom where they are missing, and keeps the lifecycle; the description and the
  priority it carries are dropped: the row keeps the ones it had.\<close>

theorem wo_created_backfill:
  assumes "map_of t w = Some r" and "wo_target e = Some w" and "ev_type e = WORK_ORDER_CREATED"
    and "\<not> wo_is_already_processed (ev_id e) t"
  shows "\<exists>t'. wo_handle rem now e t = Inr (1, t') \<and>
    map_of t' w = Some (r\<lparr>
      wo_project_id := coalesce (wo_project_id r) (col_or_payload (ev_project_id e) e ''project_id''),
      wo_milestone_id := coalesce (wo_milestone_id r) (col_or_payload (ev_milestone_id e) e ''milestone_id''),
      wo_title := coalesce (wo_title r) (map_of (ev_payload e) ''title''),
      wo_type := coalesce (wo_type r) (map_of (ev_payload e) ''type''),
      wo_created_at := coalesce (wo_created_at r) (Some (ev_timestamp e)),
      wo_source_event_id := coalesce (wo_source_event_id r) (Some (ev_id e)),
      wo_originating_symptom :=
        coalesce (wo_originating_symptom r) (map_of (ev_payload e) ''originating_symptom''),
      wo_last_updated_at := now\<rparr>)"
  using assms by (simp add: wo_handle_eq wo_handle_created_def Let_def table_simps)

theorem wo_created_backfill_witness:
  "\<exists>t'. wo_handle True ''now'' (wo_event ''e2'' WORK_ORDER_CREATED ''t2'' ''w1''
        [(''title'', ''T''), (''description'', ''D''), (''priority'', ''blocker'')]) [(''w1'', wo_default)] =
      Inr (1, t') \<and>
    (\<exists>r. map_of t' ''w1'' = Some r \<and> wo_title r = Some ''T'' \<and> wo_description r = None \<and>
      wo_priority r = ''normal'')"
  using wo_created_backfill [of "[(''w1'', wo_default)]" "''w1''" wo_default
      "wo_event ''e2'' WORK_ORDER_CREATED ''t2'' ''w1''
        [(''title'', ''T''), (''description'', ''D''), (''priority'', ''blocker'')]" True "''now''"]
  by (auto simp: wo_target_def col_or_payload_def py_or_def is_already_processed_def wo_default_def)

text \<open>Deduplication covers the latest event of a row only. After started and closed have been
  applied, a redelivered started event is applied again and takes the closed work order back to
  in_progress, although a handler is required to tolerate a second delivery of an event.\<close>

theorem wo_redelivery_reverts:
  "map_option wo_view (map_of (wo_replay True (\<lambda>_. ''now'')
      [wo_event ''e1'' WORK_ORDER_STARTED ''t1'' ''w1'' [], wo_event ''e2'' WORK_ORDER_CLOSED ''t2'' ''w1'' []]
      []) ''w1'') = Some (''closed'', ''normal'', None) \<and>
   map_option wo_view (map_of (wo_replay True (\<lambda>_. ''now'')
      [wo_event ''e1'' WORK_ORDER_STARTED ''t1'' ''w1'' [], wo_event ''e2'' WORK_ORDER_CLOSED ''t2'' ''w1'' [],
       wo_event ''e1'' WORK_ORDER_STARTED ''t1'' ''w1'' []] []) ''w1'') = Some (''in_progress'', ''normal'', None)"
  by (simp add: wo_replay_def wo_step_def wo_handle_eq wo_target_def col_or_payload_def py_or_def
      is_already_processed_def insert_or_ignore_def wo_handle_started_def wo_handle_closed_def
      wo_safe_upsert_def upsert_def tbl_update_def wo_default_def wo_view_def)

end
