(* ===== verification/Business_DB.thy ===== *)
theory Business_DB
  imports Work_Order_Projection
begin

text \<open>
  The four business tables the projections materialize, with the constraints of the schema
  (\<^verbatim>\<open>core/event_store/migrations/142_lean_baseline.sql\<close>, \<^verbatim>\<open>155_client_layer.sql\<close>): columns
  declared NOT NULL are plain values and the others are options; INSERT OR IGNORE skips a row
  that violates NOT NULL or the primary key, and raises IntegrityError where a foreign key has
  no parent. A handler runs inside a transaction, so a raised error leaves the database as it
  was: it is the left summand of the result.
\<close>

record project_row =
  p_name :: string
  p_description :: "string option"
  p_status :: string
  p_created_at :: string
  p_updated_at :: string
  p_source_event_id :: "string option"
  p_last_event_id :: "string option"
  p_project_path :: "string option"
  p_client_id :: "string option"

record milestone_row =
  m_project_id :: string
  m_title :: string
  m_description :: "string option"
  m_status :: string
  m_order_index :: int
  m_created_at :: string
  m_updated_at :: string
  m_source_event_id :: "string option"
  m_last_event_id :: "string option"

record task_row =
  t_work_order_id :: string
  t_project_id :: string
  t_title :: string
  t_description :: "string option"
  t_status :: string
  t_created_at :: string
  t_updated_at :: string
  t_source_event_id :: "string option"
  t_last_event_id :: "string option"
  t_acceptance_criteria :: "string option"

record business_db =
  projects :: "project_row table"
  milestones :: "milestone_row table"
  work_orders :: wo_table
  tasks :: "task_row table"
  clients :: "string list"

type_synonym db_result = "py_error + (nat \<times> business_db)"

abbreviation fk_failed :: py_error where
  "fk_failed \<equiv> IntegrityError ''FOREIGN KEY constraint failed''"

section \<open>Referential integrity\<close>

definition fk_milestones :: "business_db \<Rightarrow> bool" where
  "fk_milestones db \<longleftrightarrow> list_all (\<lambda>(k, m). m_project_id m \<in> set (keys (projects db))) (milestones db)"

definition fk_tasks :: "business_db \<Rightarrow> bool" where
  "fk_tasks db \<longleftrightarrow> list_all (\<lambda>(k, t). t_work_order_id t \<in> set (keys (work_orders db)) \<and>
      t_project_id t \<in> set (keys (projects db))) (tasks db)"

definition fk_clients :: "business_db \<Rightarrow> bool" where
  "fk_clients db \<longleftrightarrow> list_all (\<lambda>(k, p). \<forall>c. p_client_id p = Some c \<longrightarrow> c \<in> set (clients db)) (projects db)"

definition wf_tasks :: "business_db \<Rightarrow> bool" where
  "wf_tasks db \<longleftrightarrow> distinct (keys (tasks db)) \<and>
     list_all (\<lambda>(k, t). t_status t \<in> set CANONICAL_TASK_STATUSES) (tasks db)"

text \<open>What every projection keeps: one row per key, well-formed work orders and tasks, and a
  parent for every reference.\<close>

definition wf_db :: "business_db \<Rightarrow> bool" where
  "wf_db db \<longleftrightarrow> distinct (keys (projects db)) \<and> distinct (keys (milestones db)) \<and>
     wf_wo_table (work_orders db) \<and> wf_tasks db \<and>
     fk_milestones db \<and> fk_tasks db \<and> fk_clients db"

definition empty_db :: "string list \<Rightarrow> business_db" where
  "empty_db cs = \<lparr>projects = [], milestones = [], work_orders = [], tasks = [], clients = cs\<rparr>"

lemma wf_empty_db [simp]: "wf_db (empty_db cs)"
  by (simp add: wf_db_def empty_db_def wf_wo_table_def wf_tasks_def fk_milestones_def fk_tasks_def
      fk_clients_def)

lemmas wf_db_defs = wf_db_def wf_tasks_def fk_milestones_def fk_tasks_def fk_clients_def

lemma list_all_tbl_update:
  "list_all (\<lambda>(k, r). P k r) t \<Longrightarrow> (\<And>r. P w r \<Longrightarrow> P w (f r)) \<Longrightarrow>
     list_all (\<lambda>(k, r). P k r) (tbl_update w f t)"
  by (induction t) (auto simp: tbl_update_def)

lemma keys_insert_or_ignore_mono: "set (keys t) \<subseteq> set (keys (insert_or_ignore k r t))"
  by (auto simp: keys_insert_or_ignore)

lemma list_all_insert_or_ignore:
  "list_all (\<lambda>(k, r). P k r) t \<Longrightarrow> P w r0 \<Longrightarrow> list_all (\<lambda>(k, r). P k r) (insert_or_ignore w r0 t)"
  by (auto simp: list_all_iff insert_or_ignore_def)

end
