(* ===== verification/Attribution.thy ===== *)
theory Attribution
  imports Business_DB
begin

text \<open>
  \<^verbatim>\<open>core/projects/attribution.py\<close>: resolving a project key (a name, a slug, the base name of a
  path) to the id of a registered project. The regular-expression substitutions of \<open>_slugify\<close>
  are list functions; \<open>Path(p).name\<close> is the POSIX one.
\<close>

section \<open>Slugs\<close>

text \<open>Replacing every maximal run of characters of a class by one hyphen.\<close>

fun sub_runs :: "(char \<Rightarrow> bool) \<Rightarrow> string \<Rightarrow> string" where
  "sub_runs P [] = []"
| "sub_runs P [c] = (if P c then ''-'' else [c])"
| "sub_runs P (c # d # s) =
     (if P c then (if P d then sub_runs P (d # s) else CHR ''-'' # sub_runs P (d # s))
      else c # sub_runs P (d # s))"

definition slug_space :: "char \<Rightarrow> bool" where
  "slug_space c = (py_isspace c \<or> c = CHR ''_'')"

definition slug_char :: "char \<Rightarrow> bool" where
  "slug_char c = (let n = (of_char c :: nat) in
     (97 \<le> n \<and> n \<le> 122) \<or> (48 \<le> n \<and> n \<le> 57) \<or> c = CHR ''-'')"

definition strip_hyphens :: "string \<Rightarrow> string" where
  "strip_hyphens s = rev (dropWhile (\<lambda>c. c = CHR ''-'') (rev (dropWhile (\<lambda>c. c = CHR ''-'') s)))"

text \<open>A run of two or more hyphens becomes one; a run of one is replaced by itself.\<close>

definition slugify :: "string \<Rightarrow> string" where
  "slugify text =
     (let t1 = py_strip (py_lower text);
          t2 = sub_runs slug_space t1;
          t3 = filter slug_char t2;
          t4 = sub_runs (\<lambda>c. c = CHR ''-'') t3
      in strip_hyphens t4)"

definition path_name :: "string \<Rightarrow> string" where
  "path_name p =
     (let parts = filter (\<lambda>s. s \<noteq> [] \<and> s \<noteq> ''.'') (split_char (CHR ''/'') p) in
      if parts = [] then [] else last parts)"

definition project_matches :: "string \<Rightarrow> string \<Rightarrow> project_row \<Rightarrow> bool" where
  "project_matches key key_slug r =
     ((p_name r \<noteq> [] \<and> py_strip (p_name r) = key) \<or>
      (p_name r \<noteq> [] \<and> slugify (p_name r) = key_slug) \<or>
      (case p_project_path r of
         None \<Rightarrow> False
       | Some path \<Rightarrow> path \<noteq> [] \<and>
           (let basename = path_name path in
            basename \<noteq> [] \<and> (basename = key \<or> slugify basename = key_slug))))"

definition resolve_project_uuid :: "string \<Rightarrow> project_row table \<Rightarrow> string option" where
  "resolve_project_uuid key t =
     (if key = [] \<or> py_strip key = [] then None
      else let key = py_strip key; key_slug = slugify key in
        map_option fst (List.find (\<lambda>(project_id, r). project_matches key key_slug r) t))"

section \<open>Slugs are normal forms\<close>

text \<open>No two adjacent hyphens.\<close>

fun no_double :: "string \<Rightarrow> bool" where
  "no_double (c # d # s) = (\<not> (c = CHR ''-'' \<and> d = CHR ''-'') \<and> no_double (d # s))"
| "no_double s = True"

text \<open>Lower-case letters, digits and single inner hyphens.\<close>

definition slug_ok :: "string \<Rightarrow> bool" where
  "slug_ok s \<longleftrightarrow> list_all slug_char s \<and> (s = [] \<or> hd s \<noteq> CHR ''-'' \<and> last s \<noteq> CHR ''-'') \<and>
     no_double s"

lemma no_double_append:
  "no_double (a @ b) \<Longrightarrow> no_double a" "no_double (a @ b) \<Longrightarrow> no_double b"
proof -
  show "no_double (a @ b) \<Longrightarrow> no_double a"
    by (induction a rule: no_double.induct) auto
  show "no_double (a @ b) \<Longrightarrow> no_double b"
    by (induction a rule: no_double.induct) (cases b, auto)+
qed

lemma sub_runs_hyphen: "no_double (sub_runs (\<lambda>c. c = CHR ''-'') s)"
proof (induction "\<lambda>c. c = CHR ''-''" s rule: sub_runs.induct)
  case (3 c d s)
  have "hd (sub_runs (\<lambda>c. c = CHR ''-'') (d # s)) = d" if "d \<noteq> CHR ''-''"
    using that by (cases s) auto
  moreover have "sub_runs (\<lambda>c. c = CHR ''-'') (d # s) \<noteq> []"
    by (induction s arbitrary: d) auto
  ultimately show ?case
    using 3 by (cases "sub_runs (\<lambda>c. c = CHR ''-'') (d # s)") auto
qed auto

lemma sub_runs_id: "no_double s \<Longrightarrow> sub_runs (\<lambda>c. c = CHR ''-'') s = s"
  by (induction s rule: no_double.induct) auto

lemma sub_runs_none: "list_all (\<lambda>c. \<not> P c) s \<Longrightarrow> sub_runs P s = s"
  by (induction P s rule: sub_runs.induct) auto

lemma sub_runs_chars: "set (sub_runs P s) \<subseteq> set s \<union> {CHR ''-''}"
  by (induction P s rule: sub_runs.induct) auto

lemma strip_hyphens_decomp: "\<exists>a b. s = a @ strip_hyphens s @ b"
proof -
  have "s = takeWhile (\<lambda>c. c = CHR ''-'') s @ dropWhile (\<lambda>c. c = CHR ''-'') s"
    by simp
  also have "dropWhile (\<lambda>c. c = CHR ''-'') s = strip_hyphens s @
      rev (takeWhile (\<lambda>c. c = CHR ''-'') (rev (dropWhile (\<lambda>c. c = CHR ''-'') s)))"
    unfolding strip_hyphens_def
    by (subst rev_append [symmetric]) simp
  finally show ?thesis by blast
qed

lemma rev_dropWhile_hd:
  "s \<noteq> [] \<Longrightarrow> \<not> P (hd s) \<Longrightarrow> rev (dropWhile P (rev s)) \<noteq> [] \<and> hd (rev (dropWhile P (rev s))) = hd s"
  by (cases s) (auto simp: dropWhile_append)

lemma strip_hyphens_ends:
  assumes "strip_hyphens s \<noteq> []"
  shows "hd (strip_hyphens s) \<noteq> CHR ''-'' \<and> last (strip_hyphens s) \<noteq> CHR ''-''"
proof -
  define d where "d = dropWhile (\<lambda>c. c = CHR ''-'') s"
  define e where "e = dropWhile (\<lambda>c. c = CHR ''-'') (rev d)"
  have eq: "strip_hyphens s = rev e"
    by (simp add: strip_hyphens_def d_def e_def)
  with assms have e: "e \<noteq> []"
    by simp
  then have "hd e \<noteq> CHR ''-''"
    unfolding e_def by (metis (mono_tags, lifting) hd_dropWhile)
  moreover from e have d: "d \<noteq> []"
    by (auto simp: e_def)
  then have "hd d \<noteq> CHR ''-''"
    unfolding d_def by (metis (mono_tags, lifting) hd_dropWhile)
  then have "hd (rev e) = hd d"
    using rev_dropWhile_hd [OF d, of "\<lambda>c. c = CHR ''-''"] by (simp add: e_def)
  ultimately show ?thesis
    using e \<open>hd d \<noteq> CHR ''-''\<close> by (simp add: eq last_rev)
qed

lemma strip_hyphens_id:
  "s = [] \<or> hd s \<noteq> CHR ''-'' \<and> last s \<noteq> CHR ''-'' \<Longrightarrow> strip_hyphens s = s"
proof (elim disjE conjE)
  assume h: "hd s \<noteq> CHR ''-''" and l: "last s \<noteq> CHR ''-''"
  have "dropWhile (\<lambda>c. c = CHR ''-'') s = s"
    using h by (cases s) auto
  moreover have "dropWhile (\<lambda>c. c = CHR ''-'') (rev s) = rev s"
    using l by (cases s rule: rev_cases) auto
  ultimately show ?thesis
    by (simp add: strip_hyphens_def)
qed (simp add: strip_hyphens_def)

lemma slugify_slug_ok: "slug_ok (slugify s)"
proof -
  define t3 where "t3 = filter slug_char (sub_runs slug_space (py_strip (py_lower s)))"
  define t4 where "t4 = sub_runs (\<lambda>c. c = CHR ''-'') t3"
  have eq: "slugify s = strip_hyphens t4"
    by (simp add: slugify_def t4_def t3_def Let_def)
  obtain a b where d: "t4 = a @ strip_hyphens t4 @ b"
    using strip_hyphens_decomp by blast
  have "no_double t4"
    unfolding t4_def by (rule sub_runs_hyphen)
  with d have nd: "no_double (strip_hyphens t4)"
    by (metis no_double_append)
  have "set t4 \<subseteq> Collect slug_char"
    using sub_runs_chars [of "\<lambda>c. c = CHR ''-''" t3] by (auto simp: t4_def t3_def slug_char_def)
  with d have "set (strip_hyphens t4) \<subseteq> Collect slug_char"
    by (metis Un_subset_iff set_append)
  then show ?thesis
    using nd strip_hyphens_ends [of t4]
    by (auto simp: slug_ok_def eq list_all_iff subset_iff)
qed

lemma slug_char_facts:
  assumes "slug_char c"
  shows "lower_char c = c" "\<not> py_isspace c" "\<not> slug_space c"
  using assms
  by (auto simp: slug_char_def lower_char_def py_isspace_def slug_space_def Let_def)

lemma strip_no_space: "list_all (\<lambda>c. \<not> py_isspace c) s \<Longrightarrow> py_strip s = s"
proof -
  assume a: "list_all (\<lambda>c. \<not> py_isspace c) s"
  then have "dropWhile py_isspace s = s"
    by (cases s) auto
  moreover from a have "dropWhile py_isspace (rev s) = rev s"
    by (cases s rule: rev_cases) auto
  ultimately show ?thesis
    by (simp add: py_strip_def py_lstrip_def py_rstrip_def)
qed

lemma slugify_fixed:
  assumes "slug_ok s"
  shows "slugify s = s"
proof -
  have ch: "list_all slug_char s"
    using assms by (simp add: slug_ok_def)
  then have "py_lower s = s"
    by (auto simp: py_lower_def list_all_iff slug_char_facts intro: map_idI)
  moreover have "list_all (\<lambda>c. \<not> py_isspace c) s" "list_all (\<lambda>c. \<not> slug_space c) s"
    using ch by (auto simp: list_all_iff slug_char_facts)
  moreover have "filter slug_char s = s"
    using ch by (auto simp: list_all_iff intro: filter_True)
  ultimately show ?thesis
    using assms
    by (simp add: slugify_def Let_def strip_no_space sub_runs_none sub_runs_id strip_hyphens_id
        slug_ok_def)
qed

lemma resolve_registered:
  assumes "resolve_project_uuid key t = Some pid"
  shows "pid \<in> set (keys t)"
  using assms
  by (auto simp: resolve_project_uuid_def Let_def find_Some_iff image_iff split: if_splits)
    (metis fst_conv nth_mem)

lemma find_first:
  "case List.find (\<lambda>(k, r). P r) t of
      Some (pid, r) \<Rightarrow> (\<exists>before after. t = before @ (pid, r) # after \<and>
        list_all (\<lambda>(k, r'). \<not> P r') before) \<and> P r
    | None \<Rightarrow> list_all (\<lambda>(k, r'). \<not> P r') t"
proof (induction t)
  case (Cons x t)
  obtain k r where x: "x = (k, r)" by force
  show ?case
  proof (cases "P r")
    case True
    with x show ?thesis by (auto intro: exI [of _ "[]"])
  next
    case False
    show ?thesis
    proof (cases "List.find (\<lambda>(k, r). P r) t")
      case None
      with Cons False x show ?thesis by simp
    next
      case (Some y)
      obtain pid r' where y: "y = (pid, r')" by force
      from Cons Some y obtain b a where "t = b @ (pid, r') # a" "list_all (\<lambda>(k, r'). \<not> P r') b" "P r'"
        by auto
      then have "x # t = (x # b) @ (pid, r') # a" "list_all (\<lambda>(k, r'). \<not> P r') (x # b)"
        using False x by simp_all
      moreover have "List.find (\<lambda>(k, r). P r) (x # t) = Some (pid, r')"
        using Some y False x by simp
      ultimately show ?thesis
        using \<open>P r'\<close> by (simp only: option.case prod.case) blast
    qed
  qed
qed simp

section \<open>Properties\<close>

text \<open>A slug is a normal form: it consists of lower-case letters, digits and single hyphens
  that neither start nor end it, and making a slug of a slug changes nothing.\<close>

theorem slugify_normal_form: "slug_ok (slugify s) \<and> slugify (slugify s) = slugify s"
  using slugify_slug_ok slugify_fixed by blast

text \<open>Resolution never fabricates: a key resolves only to the id of a registered project
  whose name or path matches it, the first such project in table order, and an unmatched key
  resolves to nothing.\<close>

theorem resolve_sound:
  "case resolve_project_uuid key t of
     Some pid \<Rightarrow> \<exists>before r after. t = before @ (pid, r) # after \<and>
        project_matches (py_strip key) (slugify (py_strip key)) r \<and>
        list_all (\<lambda>(k, r'). \<not> project_matches (py_strip key) (slugify (py_strip key)) r') before
   | None \<Rightarrow> py_strip key = [] \<or>
        list_all (\<lambda>(k, r'). \<not> project_matches (py_strip key) (slugify (py_strip key)) r') t"
proof (cases "py_strip key = []")
  case True
  then show ?thesis by (simp add: resolve_project_uuid_def)
next
  case False
  then have "key \<noteq> []"
    by (auto simp: py_strip_def py_lstrip_def py_rstrip_def)
  define P where "P = project_matches (py_strip key) (slugify (py_strip key))"
  have eq: "resolve_project_uuid key t = map_option fst (List.find (\<lambda>(k, r). P r) t)"
    using False \<open>key \<noteq> []\<close> by (simp add: resolve_project_uuid_def Let_def P_def)
  show ?thesis
    using find_first [of P t] by (auto simp: eq P_def split: option.splits)
qed

end
