(* ===== verification/Task_Projection.thy ===== *)
theory Task_Projection
  imports Attribution
begin

text \<open>
  \<^verbatim>\<open>core/projections/task_projection.py\<close>: the projection that materializes
  \<^verbatim>\<open>business_tasks\<close>. The handler reads the projects and the work orders (to resolve the
  project key and to check the foreign keys) and writes the tasks.
\<close>

definition SKELETON_TITLE :: string where
  "SKELETON_TITLE = ''(pending)''"

definition task_consumed_event_types :: "string list" where
  "task_consumed_event_types =
     [TASK_CREATED, TASK_STARTED, TASK_COMPLETED, TASK_CANCELLED, TASK_DELETED, TASK_AC_REPOINTED]"

section \<open>Handlers\<close>

text \<open>INSERT OR IGNORE INTO business\_tasks: the row is skipped when a NOT NULL column is missing
  or the key is taken, and the statement raises when a parent row is missing.\<close>

definition insert_task ::
    "string \<Rightarrow> string option \<Rightarrow> string option \<Rightarrow> (string \<Rightarrow> string \<Rightarrow> task_row) \<Rightarrow> business_db
      \<Rightarrow> py_error + business_db" where
  "insert_task task_id work_order_id project_id row db =
     (case (work_order_id, project_id) of
        (Some w, Some p) \<Rightarrow>
          if map_of (tasks db) task_id \<noteq> None then Inr db
          else if w \<notin> set (keys (work_orders db)) \<or> p \<notin> set (keys (projects db)) then Inl fk_failed
          else Inr (db\<lparr>tasks := tasks db @ [(task_id, row w p)]\<rparr>)
      | _ \<Rightarrow> Inr db)"

definition resolve_project_id ::
    "string option \<Rightarrow> string option \<Rightarrow> business_db \<Rightarrow> string option" where
  "resolve_project_id project_id work_order_id db =
     (if \<not> truthy project_id then project_id
      else let pid = the project_id in
        if pid \<in> set (keys (projects db)) then project_id
        else let resolved = resolve_project_uuid pid (projects db) in
          if truthy resolved then resolved
          else
            (let own = (if truthy work_order_id
                        then (case map_of (work_orders db) (the work_order_id) of
                                None \<Rightarrow> None
                              | Some w \<Rightarrow>
                                  (case wo_project_id w of
                                     None \<Rightarrow> None
                                   | Some q \<Rightarrow> if q \<in> set (keys (projects db)) then Some q else None))
                        else None)
             in if truthy own then own else project_id))"

definition task_handle_created ::
    "string \<Rightarrow> string option \<Rightarrow> string option \<Rightarrow> dict \<Rightarrow> string \<Rightarrow> string \<Rightarrow> string
      \<Rightarrow> business_db \<Rightarrow> db_result" where
  "task_handle_created task_id work_order_id project_id payload event_id ts now db =
     and_then (creation_status False) (\<lambda>status.
       let title = the (py_or (map_of payload ''title'') (Some SKELETON_TITLE));
           description = map_of payload ''description'';
           acceptance_criteria = map_of payload ''acceptance_criteria''
       in and_then (insert_task task_id work_order_id project_id (\<lambda>w p.
            \<lparr>t_work_order_id = w, t_project_id = p, t_title = title, t_description = description,
             t_status = status, t_created_at = ts, t_updated_at = now,
             t_source_event_id = Some event_id, t_last_event_id = Some event_id,
             t_acceptance_criteria = acceptance_criteria\<rparr>) db) (\<lambda>db1.
          Inr (1, db1\<lparr>tasks := tbl_update task_id (\<lambda>r. r\<lparr>
             t_title := (if t_title r = SKELETON_TITLE then title else t_title r),
             t_description := coalesce (t_description r) description,
             t_acceptance_criteria := coalesce (t_acceptance_criteria r) acceptance_criteria,
             t_source_event_id := coalesce (t_source_event_id r) (Some event_id),
             t_updated_at := now\<rparr>) (tasks db1)\<rparr>)))"

definition task_handle_started :: "string \<Rightarrow> string \<Rightarrow> string \<Rightarrow> business_db \<Rightarrow> db_result" where
  "task_handle_started task_id event_id now db =
     (let terminal = TASK_DONE_STATUSES @ TASK_ABANDONED_STATUSES in
      and_then (status_for TASK_STARTED False) (\<lambda>status.
        Inr (1, db\<lparr>tasks := tbl_update task_id (\<lambda>r.
          if t_status r \<notin> set terminal
          then r\<lparr>t_status := status, t_updated_at := now, t_last_event_id := Some event_id\<rparr>
          else r) (tasks db)\<rparr>)))"

definition task_handle_completed :: "string \<Rightarrow> string \<Rightarrow> string \<Rightarrow> business_db \<Rightarrow> db_result" where
  "task_handle_completed task_id event_id now db =
     and_then (status_for TASK_COMPLETED False) (\<lambda>status.
       Inr (1, db\<lparr>tasks := tbl_update task_id (\<lambda>r. r\<lparr>t_status := status, t_updated_at := now,
         t_last_event_id := Some event_id\<rparr>) (tasks db)\<rparr>))"

definition task_handle_cancelled :: "string \<Rightarrow> string \<Rightarrow> string \<Rightarrow> business_db \<Rightarrow> db_result" where
  "task_handle_cancelled task_id event_id now db =
     and_then (status_for TASK_CANCELLED False) (\<lambda>status.
       Inr (1, db\<lparr>tasks := tbl_update task_id (\<lambda>r. r\<lparr>t_status := status, t_updated_at := now,
         t_last_event_id := Some event_id\<rparr>) (tasks db)\<rparr>))"

definition task_handle_deleted :: "string \<Rightarrow> string \<Rightarrow> string \<Rightarrow> business_db \<Rightarrow> db_result" where
  "task_handle_deleted task_id event_id now db =
     and_then (status_for TASK_DELETED False) (\<lambda>status.
       Inr (1, db\<lparr>tasks := tbl_update task_id (\<lambda>r. r\<lparr>t_status := status, t_updated_at := now,
         t_last_event_id := Some event_id\<rparr>) (tasks db)\<rparr>))"

definition task_handle_ac_repointed ::
    "string \<Rightarrow> dict \<Rightarrow> string \<Rightarrow> string \<Rightarrow> business_db \<Rightarrow> db_result" where
  "task_handle_ac_repointed task_id payload event_id now db =
     (let new_ac = map_of payload ''acceptance_criteria'' in
      if \<not> truthy new_ac then Inr (0, db)
      else Inr (1, db\<lparr>tasks := tbl_update task_id (\<lambda>r. r\<lparr>t_acceptance_criteria := new_ac,
             t_source_event_id := Some event_id, t_updated_at := now\<rparr>) (tasks db)\<rparr>))"

definition task_ensure_skeleton ::
    "string \<Rightarrow> string option \<Rightarrow> string option \<Rightarrow> string \<Rightarrow> business_db \<Rightarrow> py_error + business_db" where
  "task_ensure_skeleton task_id work_order_id project_id now db =
     and_then (creation_status False) (\<lambda>status.
       insert_task task_id work_order_id project_id (\<lambda>w p.
         \<lparr>t_work_order_id = w, t_project_id = p, t_title = SKELETON_TITLE, t_description = None,
          t_status = status, t_created_at = now, t_updated_at = now, t_source_event_id = None,
          t_last_event_id = None, t_acceptance_criteria = None\<rparr>) db)"

definition task_dispatch :: "string \<Rightarrow> event \<Rightarrow> string \<Rightarrow> business_db \<Rightarrow> db_result" where
  "task_dispatch now e task_id db =
     (let ty = ev_type e; event_id = ev_id e in
      if ty = TASK_STARTED then task_handle_started task_id event_id now db
      else if ty = TASK_COMPLETED then task_handle_completed task_id event_id now db
      else if ty = TASK_CANCELLED then task_handle_cancelled task_id event_id now db
      else if ty = TASK_DELETED then task_handle_deleted task_id event_id now db
      else if ty = TASK_AC_REPOINTED then task_handle_ac_repointed task_id (ev_payload e) event_id now db
      else Inr (0, db))"

definition task_handle :: "string \<Rightarrow> event \<Rightarrow> business_db \<Rightarrow> db_result" where
  "task_handle now e db =
     (if is_already_processed t_source_event_id t_last_event_id (ev_id e) (tasks db) then Inr (0, db)
      else let task_id = col_or_trace (ev_task_id e) e ''task_id'' in
        if \<not> truthy task_id then Inr (0, db)
        else let tid = the task_id;
                 work_order_id = col_or_trace (ev_work_order_id e) e ''work_order_id'';
                 project_id = resolve_project_id (col_or_trace (ev_project_id e) e ''project_id'')
                                work_order_id db in
          if ev_type e = TASK_CREATED
          then task_handle_created tid work_order_id project_id (ev_payload e) (ev_id e)
                 (ev_timestamp e) now db
          else and_then (task_ensure_skeleton tid work_order_id project_id now db)
                 (\<lambda>db1. task_dispatch now e tid db1))"

section \<open>What one event does to the tasks\<close>

definition task_target :: "event \<Rightarrow> string option" where
  "task_target e =
     (let t = col_or_trace (ev_task_id e) e ''task_id'' in if truthy t then t else None)"

lemmas task_handler_defs =
  task_handle_started_def task_handle_completed_def task_handle_cancelled_def
  task_handle_deleted_def task_handle_ac_repointed_def

text \<open>The row change of an event that is not a creation.\<close>

definition task_row_step :: "string \<Rightarrow> event \<Rightarrow> task_row \<Rightarrow> task_row" where
  "task_row_step now e r =
     (let upd = (\<lambda>s. r\<lparr>t_status := s, t_updated_at := now, t_last_event_id := Some (ev_id e)\<rparr>) in
      if ev_type e = TASK_STARTED
      then (if t_status r \<in> set (TASK_DONE_STATUSES @ TASK_ABANDONED_STATUSES) then r
            else upd ''in_progress'')
      else if ev_type e = TASK_COMPLETED then upd ''complete''
      else if ev_type e = TASK_CANCELLED then upd ''cancelled''
      else if ev_type e = TASK_DELETED then upd ''deleted''
      else if ev_type e = TASK_AC_REPOINTED \<and> truthy (map_of (ev_payload e) ''acceptance_criteria'')
      then r\<lparr>t_acceptance_criteria := map_of (ev_payload e) ''acceptance_criteria'',
             t_source_event_id := Some (ev_id e), t_updated_at := now\<rparr>
      else r)"

lemma tbl_update_id: "(\<And>r. f r = r) \<Longrightarrow> tbl_update k f t = t"
  by (induction t) (auto simp: tbl_update_def)

lemma task_dispatch_count:
  "\<exists>n. \<forall>db. task_dispatch now e tid db = Inr (n, db\<lparr>tasks := tbl_update tid (task_row_step now e) (tasks db)\<rparr>)"
proof -
  have i: "tbl_update tid (\<lambda>r. r) t = t" for t :: "task_row table"
    by (rule tbl_update_id) simp
  consider "ev_type e = TASK_STARTED" | "ev_type e = TASK_COMPLETED" | "ev_type e = TASK_CANCELLED"
    | "ev_type e = TASK_DELETED" | "ev_type e = TASK_AC_REPOINTED"
    | "ev_type e \<notin> {TASK_STARTED, TASK_COMPLETED, TASK_CANCELLED, TASK_DELETED, TASK_AC_REPOINTED}"
    by blast
  then show ?thesis
  proof cases
    case 1
    have "(\<lambda>r. if t_status r \<notin> set (TASK_DONE_STATUSES @ TASK_ABANDONED_STATUSES)
        then r\<lparr>t_status := ''in_progress'', t_updated_at := now, t_last_event_id := Some (ev_id e)\<rparr>
        else r) = task_row_step now e"
      using 1 by (auto simp: task_row_step_def)
    then show ?thesis
      using 1 by (simp add: task_dispatch_def task_handle_started_def Let_def)
  next
    case 5
    then show ?thesis
      by (cases "truthy (map_of (ev_payload e) ''acceptance_criteria'')")
        (simp_all add: task_dispatch_def task_handler_defs Let_def task_row_step_def [abs_def] i)
  next
    case 6
    then show ?thesis
      by (simp add: task_dispatch_def Let_def task_row_step_def [abs_def] i)
  qed (simp_all add: task_dispatch_def task_handler_defs Let_def task_row_step_def [abs_def])
qed


lemma insert_task_cases:
  assumes "insert_task tid w p row db = Inr db1"
  obtains "db1 = db"
  | w' p' where "w = Some w'" "p = Some p'" "map_of (tasks db) tid = None"
      "w' \<in> set (keys (work_orders db))" "p' \<in> set (keys (projects db))"
      "db1 = db\<lparr>tasks := tasks db @ [(tid, row w' p')]\<rparr>"
  using assms by (auto simp: insert_task_def split: option.splits if_splits)

text \<open>The skeleton of a task and its creation row.\<close>

definition task_skeleton :: "string \<Rightarrow> string \<Rightarrow> string \<Rightarrow> task_row" where
  "task_skeleton now w p =
     \<lparr>t_work_order_id = w, t_project_id = p, t_title = SKELETON_TITLE, t_description = None,
      t_status = ''pending'', t_created_at = now, t_updated_at = now, t_source_event_id = None,
      t_last_event_id = None, t_acceptance_criteria = None\<rparr>"

definition task_new_row :: "string \<Rightarrow> event \<Rightarrow> string \<Rightarrow> string \<Rightarrow> task_row" where
  "task_new_row now e w p =
     \<lparr>t_work_order_id = w, t_project_id = p,
      t_title = the (py_or (map_of (ev_payload e) ''title'') (Some SKELETON_TITLE)),
      t_description = map_of (ev_payload e) ''description'', t_status = ''pending'',
      t_created_at = ev_timestamp e, t_updated_at = now, t_source_event_id = Some (ev_id e),
      t_last_event_id = Some (ev_id e),
      t_acceptance_criteria = map_of (ev_payload e) ''acceptance_criteria''\<rparr>"

definition task_backfill :: "string \<Rightarrow> event \<Rightarrow> task_row \<Rightarrow> task_row" where
  "task_backfill now e r = r\<lparr>
     t_title := (if t_title r = SKELETON_TITLE
                 then the (py_or (map_of (ev_payload e) ''title'') (Some SKELETON_TITLE)) else t_title r),
     t_description := coalesce (t_description r) (map_of (ev_payload e) ''description''),
     t_acceptance_criteria := coalesce (t_acceptance_criteria r) (map_of (ev_payload e) ''acceptance_criteria''),
     t_source_event_id := coalesce (t_source_event_id r) (Some (ev_id e)),
     t_updated_at := now\<rparr>"

text \<open>The work order and the project a task event is filed under.\<close>

definition task_owner :: "event \<Rightarrow> string option" where
  "task_owner e = col_or_trace (ev_work_order_id e) e ''work_order_id''"

definition task_project :: "event \<Rightarrow> business_db \<Rightarrow> string option" where
  "task_project e db =
     resolve_project_id (col_or_trace (ev_project_id e) e ''project_id'') (task_owner e) db"

lemma task_handle_eq:
  "\<exists>n. task_handle now e db =
     (case task_target e of
        None \<Rightarrow> Inr (0, db)
      | Some tid \<Rightarrow>
          if is_already_processed t_source_event_id t_last_event_id (ev_id e) (tasks db) then Inr (0, db)
          else and_then (insert_task tid (task_owner e) (task_project e db)
                 (if ev_type e = TASK_CREATED then task_new_row now e else task_skeleton now) db)
               (\<lambda>db1. Inr (n, db1\<lparr>tasks := tbl_update tid
                  (if ev_type e = TASK_CREATED then task_backfill now e else task_row_step now e)
                  (tasks db1)\<rparr>)))"
proof (cases "task_target e")
  case None
  then show ?thesis
    by (auto simp: task_target_def task_handle_def Let_def split: if_splits)
next
  case (Some tid)
  then have t: "truthy (col_or_trace (ev_task_id e) e ''task_id'')"
    "the (col_or_trace (ev_task_id e) e ''task_id'') = tid"
    by (auto simp: task_target_def Let_def split: if_splits)
  show ?thesis
  proof (cases "ev_type e = TASK_CREATED")
    case True
    with Some t show ?thesis
      by (auto simp: task_handle_def Let_def task_handle_created_def task_owner_def task_project_def
          task_new_row_def [abs_def] task_backfill_def [abs_def])
  next
    case False
    obtain n where "\<forall>db1. task_dispatch now e tid db1 =
        Inr (n, db1\<lparr>tasks := tbl_update tid (task_row_step now e) (tasks db1)\<rparr>)"
      using task_dispatch_count by blast
    then have n: "task_dispatch now e tid = (\<lambda>db1.
        Inr (n, db1\<lparr>tasks := tbl_update tid (task_row_step now e) (tasks db1)\<rparr>))"
      by auto
    from False Some t show ?thesis
      by (intro exI [of _ n]) (simp add: task_handle_def Let_def task_ensure_skeleton_def task_owner_def
          task_project_def task_skeleton_def [abs_def] n)
  qed
qed


text \<open>The change a handled event makes to the row it names.\<close>

definition task_change :: "string \<Rightarrow> event \<Rightarrow> task_row \<Rightarrow> task_row" where
  "task_change now e = (if ev_type e = TASK_CREATED then task_backfill now e else task_row_step now e)"

definition task_first_row :: "string \<Rightarrow> event \<Rightarrow> string \<Rightarrow> string \<Rightarrow> task_row" where
  "task_first_row now e = (if ev_type e = TASK_CREATED then task_new_row now e else task_skeleton now)"

lemma task_handle_cases:
  assumes "task_handle now e db = Inr (n, db')"
  obtains (skip) "db' = db"
  | (update) tid where "task_target e = Some tid"
      "\<not> is_already_processed t_source_event_id t_last_event_id (ev_id e) (tasks db)"
      "db' = db\<lparr>tasks := tbl_update tid (task_change now e) (tasks db)\<rparr>"
  | (insert) tid w p where "task_target e = Some tid" "map_of (tasks db) tid = None"
      "task_owner e = Some w" "task_project e db = Some p"
      "w \<in> set (keys (work_orders db))" "p \<in> set (keys (projects db))"
      "db' = db\<lparr>tasks := tbl_update tid (task_change now e) (tasks db @ [(tid, task_first_row now e w p)])\<rparr>"
proof -
  obtain m where m: "task_handle now e db =
     (case task_target e of
        None \<Rightarrow> Inr (0, db)
      | Some tid \<Rightarrow>
          if is_already_processed t_source_event_id t_last_event_id (ev_id e) (tasks db) then Inr (0, db)
          else and_then (insert_task tid (task_owner e) (task_project e db) (task_first_row now e) db)
               (\<lambda>db1. Inr (m, db1\<lparr>tasks := tbl_update tid (task_change now e) (tasks db1)\<rparr>)))"
    using task_handle_eq [of now e db] unfolding task_change_def task_first_row_def by blast
  show ?thesis
  proof (cases "task_target e")
    case None
    with m assms skip show ?thesis by simp
  next
    case (Some tid)
    show ?thesis
    proof (cases "is_already_processed t_source_event_id t_last_event_id (ev_id e) (tasks db)")
      case True
      with m assms skip Some show ?thesis by simp
    next
      case False
      with m assms Some obtain db1 where i:
        "insert_task tid (task_owner e) (task_project e db) (task_first_row now e) db = Inr db1"
        and d: "db' = db1\<lparr>tasks := tbl_update tid (task_change now e) (tasks db1)\<rparr>"
        by (auto simp: and_then_Inr_iff Inr_and_then_iff)
      from i show ?thesis
      proof (cases rule: insert_task_cases)
        case 1
        with update Some False d show ?thesis by simp
      next
        case (2 w' p')
        with insert Some d show ?thesis by simp
      qed
    qed
  qed
qed

section \<open>Facts for the properties\<close>

lemma canonical_task_words:
  "''pending'' \<in> set CANONICAL_TASK_STATUSES" "''in_progress'' \<in> set CANONICAL_TASK_STATUSES"
  "''complete'' \<in> set CANONICAL_TASK_STATUSES" "''cancelled'' \<in> set CANONICAL_TASK_STATUSES"
  "''deleted'' \<in> set CANONICAL_TASK_STATUSES"
  by (simp_all add: CANONICAL_TASK_STATUSES_def)

lemma task_change_keeps:
  "t_work_order_id (task_change now e r) = t_work_order_id r"
  "t_project_id (task_change now e r) = t_project_id r"
  "t_status r \<in> set CANONICAL_TASK_STATUSES \<Longrightarrow>
     t_status (task_change now e r) \<in> set CANONICAL_TASK_STATUSES"
  by (simp_all add: task_change_def task_backfill_def task_row_step_def Let_def canonical_task_words)

lemma task_first_row_facts:
  "t_work_order_id (task_first_row now e w p) = w" "t_project_id (task_first_row now e w p) = p"
  "t_status (task_first_row now e w p) = ''pending''"
  by (simp_all add: task_first_row_def task_new_row_def task_skeleton_def)

definition wf_task_row :: "business_db \<Rightarrow> task_row \<Rightarrow> bool" where
  "wf_task_row db r \<longleftrightarrow> t_status r \<in> set CANONICAL_TASK_STATUSES \<and>
     t_work_order_id r \<in> set (keys (work_orders db)) \<and> t_project_id r \<in> set (keys (projects db))"

lemma wf_db_tasks:
  "wf_db db \<longleftrightarrow> distinct (keys (projects db)) \<and> distinct (keys (milestones db)) \<and>
     wf_wo_table (work_orders db) \<and> fk_milestones db \<and> fk_clients db \<and>
     distinct (keys (tasks db)) \<and> list_all (\<lambda>(k, r). wf_task_row db r) (tasks db)"
  by (auto simp: wf_db_def wf_tasks_def fk_tasks_def wf_task_row_def list_all_iff split_beta)

lemma wf_db_set_tasks:
  assumes "wf_db db" and "distinct (keys ts)" and "list_all (\<lambda>(k, r). wf_task_row db r) ts"
  shows "wf_db (db\<lparr>tasks := ts\<rparr>)"
  using assms
  by (simp add: wf_db_tasks fk_milestones_def fk_clients_def wf_task_row_def)

lemma wf_task_change: "wf_task_row db r \<Longrightarrow> wf_task_row db (task_change now e r)"
  by (simp add: wf_task_row_def task_change_keeps)

lemma wf_task_handle:
  assumes "wf_db db" and "task_handle now e db = Inr (n, db')"
  shows "wf_db db'"
  using assms(2)
proof (cases rule: task_handle_cases)
  case skip
  with assms(1) show ?thesis by simp
next
  case (update tid)
  with assms(1) show ?thesis
    by (auto simp: wf_db_tasks [of db] intro!: wf_db_set_tasks list_all_tbl_update wf_task_change)
next
  case (insert tid w p)
  have "wf_task_row db (task_first_row now e w p)"
    using insert by (simp add: wf_task_row_def task_first_row_facts canonical_task_words)
  moreover have "tid \<notin> set (keys (tasks db))"
    using insert(2) by (simp add: map_of_eq_None_iff)
  ultimately show ?thesis
    using assms(1) insert(7)
    by (auto simp: wf_db_tasks [of db] intro!: wf_db_set_tasks list_all_tbl_update wf_task_change)
qed

text \<open>How far along a task is: open, claimed, finished.\<close>

definition task_rank :: "string \<Rightarrow> nat" where
  "task_rank s = (if s \<in> set (TASK_DONE_STATUSES @ TASK_ABANDONED_STATUSES) then 2
     else if s \<in> set TASK_IN_PROGRESS_STATUSES then 1 else 0)"

lemma task_rank_words [simp]:
  "task_rank ''in_progress'' = 1" "task_rank ''complete'' = 2" "task_rank ''cancelled'' = 2"
  "task_rank ''deleted'' = 2" "task_rank ''pending'' = 0"
  by (simp_all add: task_rank_def TASK_DONE_STATUSES_def TASK_ABANDONED_STATUSES_def
      TASK_IN_PROGRESS_STATUSES_def)

lemma task_rank_le: "task_rank s \<le> 2"
  by (simp add: task_rank_def)

lemma task_change_rank: "task_rank (t_status r) \<le> task_rank (t_status (task_change now e r))"
proof (cases "t_status r \<in> set (TASK_DONE_STATUSES @ TASK_ABANDONED_STATUSES)")
  case True
  then show ?thesis
    using task_rank_le [of "t_status r"]
    by (simp add: task_change_def task_backfill_def task_row_step_def Let_def)
next
  case False
  then have "task_rank (t_status r) \<le> 1"
    by (simp add: task_rank_def)
  then show ?thesis
    by (simp add: task_change_def task_backfill_def task_row_step_def Let_def)
qed

text \<open>A database with one project and one work order of it.\<close>

definition sample_db :: "string \<Rightarrow> string \<Rightarrow> business_db" where
  "sample_db w p = (empty_db [])\<lparr>projects := [(p, \<lparr>p_name = ''P'', p_description = None,
       p_status = ''active'', p_created_at = ''t'', p_updated_at = ''t'', p_source_event_id = None,
       p_last_event_id = None, p_project_path = None, p_client_id = None\<rparr>)],
     work_orders := [(w, wo_default\<lparr>wo_project_id := Some p\<rparr>)]\<rparr>"

lemma wf_sample_db: "wf_db (sample_db w p)"
  using wf_wo_default
  by (simp add: sample_db_def empty_db_def wf_db_defs wf_wo_table_def wf_wo_row_def)

lemma task_handle_shape:
  "\<exists>m. task_handle now e db =
     (case task_target e of
        None \<Rightarrow> Inr (0, db)
      | Some tid \<Rightarrow>
          if is_already_processed t_source_event_id t_last_event_id (ev_id e) (tasks db) then Inr (0, db)
          else and_then (insert_task tid (task_owner e) (task_project e db) (task_first_row now e) db)
               (\<lambda>db1. Inr (m, db1\<lparr>tasks := tbl_update tid (task_change now e) (tasks db1)\<rparr>)))"
  using task_handle_eq [of now e db] unfolding task_change_def task_first_row_def by blast

lemma insert_task_Inl:
  "insert_task tid w p row db = Inl err \<longleftrightarrow> err = fk_failed \<and> map_of (tasks db) tid = None \<and>
     (\<exists>w' p'. w = Some w' \<and> p = Some p' \<and>
        (w' \<notin> set (keys (work_orders db)) \<or> p' \<notin> set (keys (projects db))))"
  by (auto simp: insert_task_def split: option.splits if_splits)

lemma and_then_total_Inl: "(\<And>x. \<exists>y. f x = Inr y) \<Longrightarrow> and_then r f = Inl e \<longleftrightarrow> r = Inl e"
  by (cases r) (auto, metis Inl_Inr_False)

lemma task_change_idem: "task_change now e (task_change now e r) = task_change now e r"
proof (cases "ev_type e = TASK_CREATED")
  case True
  then show ?thesis
    by (simp add: task_change_def task_backfill_def)
next
  case False
  then show ?thesis
    by (simp add: task_change_def task_row_step_def Let_def)
qed

lemma task_handle_again:
  assumes "map_of (tasks db) tid \<noteq> None" and "task_target e = Some tid"
    and "tbl_update tid (task_change now e) (tasks db) = tasks db"
  shows "\<exists>m. task_handle now e db = Inr (m, db)"
proof -
  have "insert_task tid w p row db = Inr db" for w p row
    using assms(1) by (simp add: insert_task_def split: option.splits)
  with task_handle_shape [of now e db] assms(2,3) show ?thesis
    by (auto split: if_splits)
qed

lemma task_rank_keeps:
  assumes "task_handle now e db = Inr (n, db')" and "map_of (tasks db) k = Some r"
  shows "\<exists>r'. map_of (tasks db') k = Some r' \<and> task_rank (t_status r) \<le> task_rank (t_status r')"
  using assms(1)
proof (cases rule: task_handle_cases)
  case skip
  with assms(2) show ?thesis by simp
next
  case (update tid)
  with assms(2) show ?thesis
    by (auto simp: map_of_tbl_update task_change_rank)
next
  case (insert tid w p)
  with assms(2) show ?thesis
    by (auto simp: map_of_tbl_update)
qed

section \<open>Properties\<close>

text \<open>The task projection keeps the database well formed: one row per task, canonical
  statuses, and a registered work order and project behind every task; the rows of the other
  tables and of the other tasks are untouched.\<close>

theorem task_handle_invariant:
  assumes "wf_db db" and "task_handle now e db = Inr (n, db')"
  shows "wf_db db' \<and> projects db' = projects db \<and> milestones db' = milestones db \<and>
    work_orders db' = work_orders db \<and>
    (\<forall>k. task_target e \<noteq> Some k \<longrightarrow> map_of (tasks db') k = map_of (tasks db) k)"
proof -
  have "projects db' = projects db \<and> milestones db' = milestones db \<and> work_orders db' = work_orders db \<and>
    (\<forall>k. task_target e \<noteq> Some k \<longrightarrow> map_of (tasks db') k = map_of (tasks db) k)"
    using assms(2)
    by (cases rule: task_handle_cases) (auto simp: map_of_tbl_update map_add_def split: option.split)
  with wf_task_handle [OF assms] show ?thesis by blast
qed

theorem task_handle_invariant_witness:
  "\<exists>n db'. task_handle ''now'' ((wo_event ''e1'' TASK_CREATED ''t'' ''w1'' [])
        \<lparr>ev_task_id := Some ''k1'', ev_project_id := Some ''p1''\<rparr>)
      (sample_db ''w1'' ''p1'') = Inr (n, db') \<and> wf_db db'"
proof -
  have "\<exists>n db'. task_handle ''now'' ((wo_event ''e1'' TASK_CREATED ''t'' ''w1'' [])
        \<lparr>ev_task_id := Some ''k1'', ev_project_id := Some ''p1''\<rparr>) (sample_db ''w1'' ''p1'') = Inr (n, db')"
    by (simp add: task_handle_def sample_db_def is_already_processed_def col_or_trace_def py_or_def
        resolve_project_id_def task_handle_created_def insert_task_def Let_def)
  then show ?thesis
    using task_handle_invariant [OF wf_sample_db] by blast
qed

text \<open>A task never moves backwards. Whatever event arrives, in whatever order and however
  often, the stage of a task that has a row (open, claimed, finished or abandoned) never
  decreases; in particular a late or replayed start does not reopen a finished task.\<close>

theorem task_rank_monotone:
  assumes "task_handle now e db = Inr (n, db')" and "map_of (tasks db) k = Some r"
  shows "\<exists>r'. map_of (tasks db') k = Some r' \<and> task_rank (t_status r) \<le> task_rank (t_status r')"
  using assms by (rule task_rank_keeps)

theorem task_rank_monotone_witness:
  "\<exists>n db'. task_handle ''now'' ((wo_event ''e9'' TASK_STARTED ''t'' ''w'' [])\<lparr>ev_task_id := Some ''k''\<rparr>)
      ((sample_db ''w'' ''p'')\<lparr>tasks := [(''k'', (task_skeleton ''t'' ''w'' ''p'')\<lparr>t_status := ''complete''\<rparr>)]\<rparr>) =
      Inr (n, db') \<and>
    (\<exists>r'. map_of (tasks db') ''k'' = Some r' \<and> task_rank (t_status r') = 2)"
proof -
  let ?e = "(wo_event ''e9'' TASK_STARTED ''t'' ''w'' [])\<lparr>ev_task_id := Some ''k''\<rparr>"
  let ?db = "(sample_db ''w'' ''p'')\<lparr>tasks := [(''k'', (task_skeleton ''t'' ''w'' ''p'')\<lparr>t_status := ''complete''\<rparr>)]\<rparr>"
  obtain n db' where h: "task_handle ''now'' ?e ?db = Inr (n, db')"
    by (cases "task_handle ''now'' ?e ?db")
      (auto simp: task_handle_def is_already_processed_def col_or_trace_def py_or_def
        resolve_project_id_def task_ensure_skeleton_def insert_task_def task_dispatch_def
        task_handle_started_def task_skeleton_def Let_def split: if_splits)
  from task_rank_monotone [OF h, of "''k''"] obtain r' where
    "map_of (tasks db') ''k'' = Some r'" "2 \<le> task_rank (t_status r')"
    by auto
  with h task_rank_le [of "t_status r'"] show ?thesis by auto
qed

text \<open>Exactly which task events raise: an event for a task that has no row, whose work order
  and project keys are both present, raises IntegrityError precisely when the work order or the
  resolved project is not registered (and is then retried and dead-lettered by the engine).
  Every other event is handled.\<close>

theorem task_handle_error:
  "task_handle now e db = Inl err \<longleftrightarrow> err = fk_failed \<and>
     \<not> is_already_processed t_source_event_id t_last_event_id (ev_id e) (tasks db) \<and>
     (\<exists>tid w p. task_target e = Some tid \<and> map_of (tasks db) tid = None \<and>
        task_owner e = Some w \<and> task_project e db = Some p \<and>
        \<not> (w \<in> set (keys (work_orders db)) \<and> p \<in> set (keys (projects db))))"
proof -
  obtain m where m: "task_handle now e db =
     (case task_target e of
        None \<Rightarrow> Inr (0, db)
      | Some tid \<Rightarrow>
          if is_already_processed t_source_event_id t_last_event_id (ev_id e) (tasks db) then Inr (0, db)
          else and_then (insert_task tid (task_owner e) (task_project e db) (task_first_row now e) db)
               (\<lambda>db1. Inr (m, db1\<lparr>tasks := tbl_update tid (task_change now e) (tasks db1)\<rparr>)))"
    using task_handle_shape by blast
  then show ?thesis
    by (cases "task_target e") (auto simp: and_then_total_Inl insert_task_Inl)
qed

text \<open>Redelivery of the task event just handled changes nothing.\<close>

theorem task_handle_idempotent:
  assumes "task_handle now e db = Inr (n, db')"
  shows "\<exists>m. task_handle now e db' = Inr (m, db')"
  using assms
proof (cases rule: task_handle_cases)
  case skip
  with assms show ?thesis by blast
next
  case (update tid)
  show ?thesis
  proof (cases "map_of (tasks db) tid")
    case None
    have "tbl_update tid (task_change now e) (tasks db) = tasks db"
      using None by (rule tbl_update_absent)
    with update(3) assms show ?thesis by auto
  next
    case (Some r)
    show ?thesis
      using update Some
      by - (rule task_handle_again [where tid = tid],
        simp_all add: map_of_tbl_update tbl_update_idem [of "task_change now e", OF task_change_idem])
  qed
next
  case (insert tid w p)
  then show ?thesis
    by - (rule task_handle_again [where tid = tid],
      simp_all add: map_of_tbl_update map_add_def tbl_update_idem [of "task_change now e", OF task_change_idem])
qed

theorem task_handle_idempotent_witness:
  "\<exists>m. task_handle ''now'' (wo_event ''e1'' TASK_STARTED ''t'' ''w1'' []) (sample_db ''w1'' ''p1'') =
     Inr (m, sample_db ''w1'' ''p1'')"
proof -
  have "task_handle ''now'' (wo_event ''e1'' TASK_STARTED ''t'' ''w1'' []) (sample_db ''w1'' ''p1'') =
     Inr (0, sample_db ''w1'' ''p1'')"
    by (simp add: task_handle_def sample_db_def is_already_processed_def col_or_trace_def py_or_def
        empty_db_def)
  from task_handle_idempotent [OF this] show ?thesis .
qed

end
