(* ===== verification/Milestone_Projection.thy ===== *)
theory Milestone_Projection
  imports Task_Projection
begin

text \<open>
  \<^verbatim>\<open>core/projections/milestone_projection.py\<close> and \<^verbatim>\<open>core/projections/project_projection.py\<close>:
  the projections that materialize \<^verbatim>\<open>business_milestones\<close> and \<^verbatim>\<open>business_projects\<close>.
\<close>

section \<open>Milestones\<close>

definition milestone_consumed_event_types :: "string list" where
  "milestone_consumed_event_types = [MILESTONE_CREATED, MILESTONE_COMPLETED, MILESTONE_DELETED]"

definition insert_milestone ::
    "string \<Rightarrow> string option \<Rightarrow> (string \<Rightarrow> milestone_row) \<Rightarrow> business_db \<Rightarrow> py_error + business_db" where
  "insert_milestone milestone_id project_id row db =
     (case project_id of
        None \<Rightarrow> Inr db
      | Some p \<Rightarrow>
          if map_of (milestones db) milestone_id \<noteq> None then Inr db
          else if p \<notin> set (keys (projects db)) then Inl fk_failed
          else Inr (db\<lparr>milestones := milestones db @ [(milestone_id, row p)]\<rparr>))"

definition milestone_handle_created ::
    "string \<Rightarrow> string option \<Rightarrow> dict \<Rightarrow> (string \<times> int) list \<Rightarrow> string \<Rightarrow> string \<Rightarrow> string
      \<Rightarrow> business_db \<Rightarrow> db_result" where
  "milestone_handle_created milestone_id project_id payload ints event_id ts now db =
     (let title = the (py_or (map_of payload ''title'') (Some ''(pending)''));
          description = map_of payload ''description'';
          status = the (py_or (map_of payload ''status'') (Some ''pending''));
          order_index = (case map_of ints ''order_index'' of None \<Rightarrow> 0 | Some i \<Rightarrow> i)
      in and_then (insert_milestone milestone_id project_id (\<lambda>p.
           \<lparr>m_project_id = p, m_title = title, m_description = description, m_status = status,
            m_order_index = order_index, m_created_at = ts, m_updated_at = now,
            m_source_event_id = Some event_id, m_last_event_id = Some event_id\<rparr>) db) (\<lambda>db1.
         Inr (1, db1\<lparr>milestones := tbl_update milestone_id (\<lambda>r. r\<lparr>
            m_title := (if m_title r = ''(pending)'' then title else m_title r),
            m_description := coalesce (m_description r) description,
            m_source_event_id := coalesce (m_source_event_id r) (Some event_id),
            m_updated_at := now\<rparr>) (milestones db1)\<rparr>)))"

definition milestone_handle_completed :: "string \<Rightarrow> string \<Rightarrow> string \<Rightarrow> business_db \<Rightarrow> db_result" where
  "milestone_handle_completed milestone_id event_id now db =
     Inr (1, db\<lparr>milestones := tbl_update milestone_id (\<lambda>r. r\<lparr>m_status := ''complete'',
       m_updated_at := now, m_last_event_id := Some event_id\<rparr>) (milestones db)\<rparr>)"

definition milestone_handle_deleted :: "string \<Rightarrow> string \<Rightarrow> string \<Rightarrow> business_db \<Rightarrow> db_result" where
  "milestone_handle_deleted milestone_id event_id now db =
     Inr (1, db\<lparr>milestones := tbl_update milestone_id (\<lambda>r. r\<lparr>m_status := ''deleted'',
       m_updated_at := now, m_last_event_id := Some event_id\<rparr>) (milestones db)\<rparr>)"

definition milestone_ensure_skeleton ::
    "string \<Rightarrow> string option \<Rightarrow> string \<Rightarrow> business_db \<Rightarrow> py_error + business_db" where
  "milestone_ensure_skeleton milestone_id project_id now db =
     insert_milestone milestone_id project_id (\<lambda>p.
       \<lparr>m_project_id = p, m_title = ''(pending)'', m_description = None, m_status = ''pending'',
        m_order_index = 0, m_created_at = now, m_updated_at = now, m_source_event_id = None,
        m_last_event_id = None\<rparr>) db"

definition milestone_handle :: "string \<Rightarrow> event \<Rightarrow> business_db \<Rightarrow> db_result" where
  "milestone_handle now e db =
     (if is_already_processed m_source_event_id m_last_event_id (ev_id e) (milestones db)
      then Inr (0, db)
      else let milestone_id = col_or_trace (ev_milestone_id e) e ''milestone_id'' in
        if \<not> truthy milestone_id then Inr (0, db)
        else let mid = the milestone_id;
                 project_id = col_or_trace (ev_project_id e) e ''project_id'' in
          if ev_type e = MILESTONE_CREATED
          then milestone_handle_created mid project_id (ev_payload e) (ev_payload_ints e) (ev_id e)
                 (ev_timestamp e) now db
          else and_then (milestone_ensure_skeleton mid project_id now db) (\<lambda>db1.
                 if ev_type e = MILESTONE_COMPLETED then milestone_handle_completed mid (ev_id e) now db1
                 else if ev_type e = MILESTONE_DELETED then milestone_handle_deleted mid (ev_id e) now db1
                 else Inr (0, db1)))"

section \<open>Projects\<close>

definition project_consumed_event_types :: "string list" where
  "project_consumed_event_types =
     [PROJECT_CREATED, PROJECT_ACTIVATED, PROJECT_DEACTIVATED, PROJECT_DELETED, PROJECT_CLIENT_ASSIGNED]"

text \<open>COALESCE(NULLIF(column, ''), value)\<close>

definition coalesce_empty :: "string \<Rightarrow> string \<Rightarrow> string" where
  "coalesce_empty old new = (if old = [] then new else old)"

definition project_handle_created ::
    "string \<Rightarrow> dict \<Rightarrow> string \<Rightarrow> string \<Rightarrow> string \<Rightarrow> business_db \<Rightarrow> db_result" where
  "project_handle_created project_id payload event_id ts now db =
     (let name = the (py_or (map_of payload ''name'') (Some []));
          description = the (py_or (map_of payload ''description'') (Some []));
          status = the (py_or (map_of payload ''status'') (Some ''active''));
          row = \<lparr>p_name = name, p_description = Some description, p_status = status,
                 p_created_at = ts, p_updated_at = now, p_source_event_id = Some event_id,
                 p_last_event_id = Some event_id, p_project_path = None, p_client_id = None\<rparr>;
          t1 = insert_or_ignore project_id row (projects db);
          t2 = tbl_update project_id (\<lambda>r. r\<lparr>
                 p_name := coalesce_empty (p_name r) name,
                 p_description := Some (case p_description r of
                    None \<Rightarrow> description | Some d \<Rightarrow> coalesce_empty d description),
                 p_source_event_id := coalesce (p_source_event_id r) (Some event_id),
                 p_updated_at := now\<rparr>) t1
      in Inr (1, db\<lparr>projects := t2\<rparr>))"

definition project_set_status :: "string \<Rightarrow> string \<Rightarrow> string \<Rightarrow> string \<Rightarrow> business_db \<Rightarrow> db_result" where
  "project_set_status status project_id event_id now db =
     Inr (1, db\<lparr>projects := tbl_update project_id (\<lambda>r. r\<lparr>p_status := status,
       p_updated_at := now, p_last_event_id := Some event_id\<rparr>) (projects db)\<rparr>)"

definition project_handle_activated :: "string \<Rightarrow> string \<Rightarrow> string \<Rightarrow> business_db \<Rightarrow> db_result" where
  "project_handle_activated = project_set_status ''active''"

definition project_handle_deactivated :: "string \<Rightarrow> string \<Rightarrow> string \<Rightarrow> business_db \<Rightarrow> db_result" where
  "project_handle_deactivated = project_set_status ''paused''"

definition project_handle_deleted :: "string \<Rightarrow> string \<Rightarrow> string \<Rightarrow> business_db \<Rightarrow> db_result" where
  "project_handle_deleted = project_set_status ''deleted''"

text \<open>The client column references the clients: assigning an unknown client to an existing
  project raises.\<close>

definition project_handle_client_assigned ::
    "string \<Rightarrow> dict \<Rightarrow> string \<Rightarrow> string \<Rightarrow> business_db \<Rightarrow> db_result" where
  "project_handle_client_assigned project_id payload event_id now db =
     (let client_id = map_of payload ''client_id'' in
      if \<not> truthy client_id then Inr (0, db)
      else if map_of (projects db) project_id \<noteq> None \<and> the client_id \<notin> set (clients db)
      then Inl fk_failed
      else Inr (1, db\<lparr>projects := tbl_update project_id (\<lambda>r. r\<lparr>p_client_id := client_id,
             p_updated_at := now, p_last_event_id := Some event_id\<rparr>) (projects db)\<rparr>))"

definition project_ensure_skeleton :: "string \<Rightarrow> string \<Rightarrow> business_db \<Rightarrow> business_db" where
  "project_ensure_skeleton project_id now db =
     db\<lparr>projects := insert_or_ignore project_id
       \<lparr>p_name = [], p_description = None, p_status = ''active'', p_created_at = now,
        p_updated_at = now, p_source_event_id = None, p_last_event_id = None,
        p_project_path = None, p_client_id = None\<rparr> (projects db)\<rparr>"

definition project_handle :: "string \<Rightarrow> event \<Rightarrow> business_db \<Rightarrow> db_result" where
  "project_handle now e db =
     (if is_already_processed p_source_event_id p_last_event_id (ev_id e) (projects db)
      then Inr (0, db)
      else let project_id = py_or (col_or_trace (ev_project_id e) e ''project_id'')
                              (map_of (ev_payload e) ''project_id'') in
        if \<not> truthy project_id then Inr (0, db)
        else let pid = the project_id in
          if ev_type e = PROJECT_CREATED
          then project_handle_created pid (ev_payload e) (ev_id e) (ev_timestamp e) now db
          else let db1 = project_ensure_skeleton pid now db in
            if ev_type e = PROJECT_ACTIVATED then project_handle_activated pid (ev_id e) now db1
            else if ev_type e = PROJECT_DEACTIVATED then project_handle_deactivated pid (ev_id e) now db1
            else if ev_type e = PROJECT_DELETED then project_handle_deleted pid (ev_id e) now db1
            else if ev_type e = PROJECT_CLIENT_ASSIGNED
            then project_handle_client_assigned pid (ev_payload e) (ev_id e) now db1
            else Inr (0, db1))"

section \<open>What they keep\<close>

lemma wf_db_set_milestones:
  assumes "wf_db db" and "distinct (keys ms)"
    and "list_all (\<lambda>(k, r). m_project_id r \<in> set (keys (projects db))) ms"
  shows "wf_db (db\<lparr>milestones := ms\<rparr>)"
  using assms by (simp add: wf_db_defs)

lemma wf_milestone_update:
  assumes "wf_db db" and "\<And>r. m_project_id (f r) = m_project_id r"
  shows "wf_db (db\<lparr>milestones := tbl_update k f (milestones db)\<rparr>)"
proof (rule wf_db_set_milestones [OF assms(1)])
  show "list_all (\<lambda>(k, r). m_project_id r \<in> set (keys (projects db))) (tbl_update k f (milestones db))"
    using assms by (intro list_all_tbl_update) (simp_all add: wf_db_defs)
qed (use assms(1) in \<open>simp add: wf_db_def\<close>)

lemma wf_insert_milestone:
  assumes "wf_db db" and "insert_milestone k p row db = Inr db1" and "\<And>q. m_project_id (row q) = q"
  shows "wf_db db1"
proof -
  show ?thesis
  proof (cases "db1 = db")
    case False
    with assms(2) obtain q where "map_of (milestones db) k = None" "q \<in> set (keys (projects db))"
      "db1 = db\<lparr>milestones := milestones db @ [(k, row q)]\<rparr>"
      by (cases p) (simp_all add: insert_milestone_def del: set_map split: if_split_asm)
    then show ?thesis
      using assms(1,3) wf_db_set_milestones [OF assms(1), of "milestones db @ [(k, row q)]"]
      by (simp add: wf_db_def fk_milestones_def map_of_eq_None_iff)
  qed (use assms(1) in simp)
qed

lemma wf_milestone_handle:
  assumes "wf_db db" and "milestone_handle now e db = Inr (n, db')"
  shows "wf_db db'"
  using assms
  by (auto simp: milestone_handle_def milestone_handle_created_def milestone_ensure_skeleton_def
      milestone_handle_completed_def milestone_handle_deleted_def Let_def and_then_Inr_iff
      split: if_splits intro!: wf_milestone_update elim!: wf_insert_milestone [OF assms(1)])

lemma wf_db_set_projects:
  assumes "wf_db db" and "distinct (keys ps)" and "set (keys (projects db)) \<subseteq> set (keys ps)"
    and "list_all (\<lambda>(k, r). \<forall>c. p_client_id r = Some c \<longrightarrow> c \<in> set (clients db)) ps"
  shows "wf_db (db\<lparr>projects := ps\<rparr>)"
  using assms by (force simp: wf_db_defs list_all_iff split_beta)

lemma wf_project_update:
  assumes "wf_db db" and "\<And>r c. p_client_id (f r) = Some c \<Longrightarrow> p_client_id r = Some c \<or> c \<in> set (clients db)"
  shows "wf_db (db\<lparr>projects := tbl_update k f (projects db)\<rparr>)"
proof (rule wf_db_set_projects [OF assms(1)])
  show "list_all (\<lambda>(k, r). \<forall>c. p_client_id r = Some c \<longrightarrow> c \<in> set (clients db)) (tbl_update k f (projects db))"
    using assms by (intro list_all_tbl_update) (auto simp: wf_db_def fk_clients_def)
qed (use assms in \<open>auto simp: wf_db_def\<close>)

lemma wf_project_insert:
  assumes "wf_db db" and "p_client_id r = None"
  shows "wf_db (db\<lparr>projects := insert_or_ignore k r (projects db)\<rparr>)"
proof (rule wf_db_set_projects [OF assms(1)])
  show "list_all (\<lambda>(k, r). \<forall>c. p_client_id r = Some c \<longrightarrow> c \<in> set (clients db)) (insert_or_ignore k r (projects db))"
    using assms by (intro list_all_insert_or_ignore) (auto simp: wf_db_def fk_clients_def)
  show "set (keys (projects db)) \<subseteq> set (keys (insert_or_ignore k r (projects db)))"
    by (rule keys_insert_or_ignore_mono)
qed (use assms in \<open>simp add: wf_db_def\<close>)

lemma wf_project_handle:
  assumes "wf_db db" and "project_handle now e db = Inr (n, db')"
  shows "wf_db db'"
proof -
  have some: "map_of (projects (project_ensure_skeleton p now db)) p \<noteq> None" for p
    by (simp add: project_ensure_skeleton_def map_of_insert_or_ignore split: option.split)
  have sk: "wf_db (project_ensure_skeleton p now db)" for p
    unfolding project_ensure_skeleton_def by (rule wf_project_insert [OF assms(1)]) simp
  have ins: "wf_db (db\<lparr>projects := tbl_update k f (insert_or_ignore k r (projects db))\<rparr>)"
    if "p_client_id r = None" "\<And>r. p_client_id (f r) = p_client_id r" for k f r
    using wf_project_update [OF wf_project_insert [OF assms(1) that(1)], of f k k] that(2) by simp
  show ?thesis
    using assms
    by (auto simp: project_handle_def project_handle_created_def project_handle_activated_def
        project_handle_deactivated_def project_handle_deleted_def project_set_status_def
        project_handle_client_assigned_def Let_def sk some
        split: if_splits intro!: ins wf_project_update [OF sk])
qed

end
