(* ===== verification/Event_Registry.thy ===== *)
theory Event_Registry
  imports Milestone_Projection
begin

text \<open>
  \<^verbatim>\<open>config/event_type_registry*.py\<close>: the routing table of event types, its lookups, and the
  payload check of \<^verbatim>\<open>spool/writer.py\<close> that reads it. Entries keep the order of the source and
  its fields but the prose description. The properties connect the table to its consumers: the
  types the business projections consume are all registered and routed to them.
\<close>

section \<open>Entries\<close>

record registry_entry =
  re_event_type :: string
  re_routes_to :: "canonical_source list"
  re_granularity_level :: string
  re_payload_required_keys :: "string list"

abbreviation entry :: "string \<Rightarrow> canonical_source list \<Rightarrow> string \<Rightarrow> string list \<Rightarrow> registry_entry" where
  "entry ty routes g ks \<equiv> \<lparr>re_event_type = ty, re_routes_to = routes, re_granularity_level = g,
     re_payload_required_keys = ks\<rparr>"

definition BUSINESS_ENTRIES_1 :: "registry_entry list" where
  "BUSINESS_ENTRIES_1 =
     [entry ''project.created'' [Business] ''meaningful-unit'' [],
      entry ''project.deleted'' [Business] ''meaningful-unit'' [],
      entry ''project.activated'' [Business] ''meaningful-unit'' [''project_id''],
      entry ''project.deactivated'' [Business] ''meaningful-unit'' [''project_id''],
      entry ''project.client_assigned'' [Business] ''meaningful-unit'' [''client_id'', ''project_id''],
      entry ''client.created'' [Business] ''meaningful-unit'' [''client_id''],
      entry ''client.archived'' [Business] ''meaningful-unit'' [''client_id''],
      entry ''client.deleted'' [Business] ''meaningful-unit'' [''client_id''],
      entry ''profile.created'' [Business] ''meaningful-unit'' [''client_id'', ''profile_id''],
      entry ''profile.activated'' [Business] ''meaningful-unit'' [''profile_id''],
      entry ''profile.deactivated'' [Business] ''meaningful-unit'' [''profile_id''],
      entry ''project.registered'' [Business] ''meaningful-unit'' [],
      entry ''project.updated'' [Business] ''meaningful-unit'' [],
      entry ''milestone.created'' [Business] ''meaningful-unit'' [],
      entry ''milestone.deleted'' [Business] ''meaningful-unit'' [],
      entry ''milestone.completed'' [Business] ''meaningful-unit'' [],
      entry ''work_order.created'' [Business] ''meaningful-unit'' [''status'', ''title'', ''type''],
      entry ''work_order.started'' [Business] ''meaningful-unit'' [''project_id'', ''title'', ''type'', ''work_order_id''],
      entry ''work_order.review_requested'' [Business] ''meaningful-unit'' [''project_id'', ''title'', ''work_order_id''],
      entry ''work_order.pushed'' [Business] ''meaningful-unit'' [''project_id'', ''title'', ''work_order_id''],
      entry ''work_order.ci_failed'' [Business] ''meaningful-unit'' [''project_id'', ''title'', ''work_order_id''],
      entry ''work_order.blocked'' [Business] ''meaningful-unit'' [''project_id'', ''reason'', ''title'', ''work_order_id''],
      entry ''work_order.unblocked'' [Business] ''meaningful-unit'' [''project_id'', ''title'', ''work_order_id'']]"

definition BUSINESS_ENTRIES_2 :: "registry_entry list" where
  "BUSINESS_ENTRIES_2 =
     [entry ''work_order.closed'' [Business] ''meaningful-unit'' [''forced'', ''project_id'', ''title'', ''work_order_id''],
      entry ''work_order.deleted'' [Business] ''meaningful-unit'' [''project_id'', ''work_order_id''],
      entry ''work_order.cancelled'' [Business] ''meaningful-unit'' [''project_id'', ''work_order_id''],
      entry ''work_order.reopened'' [Business] ''meaningful-unit'' [''project_id'', ''work_order_id''],
      entry ''work_order.reordered'' [Business] ''meaningful-unit'' [],
      entry ''work_order.dependency_added'' [Business] ''meaningful-unit'' [],
      entry ''work_order.dependency_removed'' [Business] ''meaningful-unit'' [],
      entry ''design_brief.created'' [Business] ''meaningful-unit'' [''brief_id'', ''project_id''],
      entry ''design_brief.updated'' [Business] ''meaningful-unit'' [''brief_id'', ''field'', ''new_value''],
      entry ''design_brief.locked'' [Business] ''meaningful-unit'' [''brief_id''],
      entry ''design_brief.deleted'' [Business] ''meaningful-unit'' [''brief_id'', ''project_id''],
      entry ''task.created'' [Business] ''meaningful-unit'' [],
      entry ''task.started'' [Business] ''meaningful-unit'' [],
      entry ''task.deleted'' [Business] ''meaningful-unit'' [],
      entry ''task.completed'' [Business] ''meaningful-unit'' [],
      entry ''task.cancelled'' [Business] ''meaningful-unit'' [],
      entry ''task.ac_repointed'' [Business] ''meaningful-unit'' [''acceptance_criteria'', ''previous'', ''reason''],
      entry ''preflight.created'' [Business] ''meaningful-unit'' [],
      entry ''preflight.status_changed'' [Business] ''meaningful-unit'' [],
      entry ''gate.bypassed'' [Business] ''meaningful-unit'' [],
      entry ''gate.pre_push.failed'' [Business] ''meaningful-unit'' [],
      entry ''document.created'' [Business] ''meaningful-unit'' []]"

definition BUSINESS_ENTRIES_3 :: "registry_entry list" where
  "BUSINESS_ENTRIES_3 =
     [entry ''document.updated'' [Business] ''meaningful-unit'' [],
      entry ''document.archived'' [Business] ''meaningful-unit'' [],
      entry ''system.task_status.updated'' [Business] ''meaningful-unit'' []]"

definition BUSINESS_ENTRIES :: "registry_entry list" where
  "BUSINESS_ENTRIES = BUSINESS_ENTRIES_1 @ BUSINESS_ENTRIES_2 @ BUSINESS_ENTRIES_3"

definition AI_ENTRIES_1 :: "registry_entry list" where
  "AI_ENTRIES_1 =
     [entry ''session.lifecycle.started'' [AI] ''meaningful-unit'' [],
      entry ''session.lifecycle.ended'' [AI] ''meaningful-unit'' [],
      entry ''prompt.lifecycle.submitted'' [AI] ''meaningful-unit'' [],
      entry ''prompt.lifecycle.validated'' [AI] ''meaningful-unit'' [],
      entry ''token.consumption.recorded'' [AI] ''meaningful-unit'' [],
      entry ''token.consumed'' [AI] ''meaningful-unit'' [],
      entry ''context.threshold.crossed'' [AI] ''meaningful-unit'' [],
      entry ''skill.invoked'' [AI] ''meaningful-unit'' [],
      entry ''skill.executed'' [AI] ''meaningful-unit'' [],
      entry ''skill.budget_exceeded'' [AI] ''meaningful-unit'' [],
      entry ''skill.lifecycle.loaded'' [AI] ''meaningful-unit'' [],
      entry ''skill.lifecycle.completed'' [AI] ''meaningful-unit'' [],
      entry ''workflow.node.completed'' [AI] ''meaningful-unit'' [],
      entry ''workflow.completed'' [AI] ''meaningful-unit'' [],
      entry ''agent.execution.completed'' [AI] ''meaningful-unit'' [],
      entry ''agent.execution.started'' [AI] ''meaningful-unit'' [],
      entry ''agent.execution.failed'' [AI] ''meaningful-unit'' [],
      entry ''validation.result_recorded'' [AI] ''meaningful-unit'' [],
      entry ''workflow.invocation_recorded'' [] ''mechanical-detail'' [],
      entry ''workflow.progress.updated'' [AI] ''meaningful-unit'' [],
      entry ''workflow.learned'' [AI] ''meaningful-unit'' [],
      entry ''execution.started'' [AI] ''meaningful-unit'' [],
      entry ''execution.completed'' [AI] ''meaningful-unit'' [],
      entry ''execution.failed'' [AI] ''meaningful-unit'' [],
      entry ''execution.complete'' [AI] ''meaningful-unit'' [],
      entry ''execution.tests_executed'' [AI] ''meaningful-unit'' [],
      entry ''wave.started'' [AI] ''meaningful-unit'' [],
      entry ''wave.completed'' [AI] ''meaningful-unit'' [],
      entry ''wave.failed'' [AI] ''meaningful-unit'' [],
      entry ''wave.task_updated'' [AI] ''meaningful-unit'' [],
      entry ''research.validated'' [AI] ''meaningful-unit'' [],
      entry ''research.completed'' [AI] ''meaningful-unit'' [],
      entry ''research.cache_stored'' [AI] ''meaningful-unit'' [],
      entry ''research.cache_cleared'' [AI] ''meaningful-unit'' []]"

definition AI_ENTRIES_2 :: "registry_entry list" where
  "AI_ENTRIES_2 =
     [entry ''analysis.started'' [AI] ''meaningful-unit'' [],
      entry ''analysis.discovery_completed'' [AI] ''meaningful-unit'' [],
      entry ''analysis.research_completed'' [AI] ''meaningful-unit'' [],
      entry ''analysis.audit_completed'' [AI] ''meaningful-unit'' [],
      entry ''analysis.bug_analysis_completed'' [AI] ''meaningful-unit'' [],
      entry ''analysis.synthesis_completed'' [AI] ''meaningful-unit'' [],
      entry ''analysis.completed'' [AI] ''meaningful-unit'' [],
      entry ''analysis.failed'' [AI] ''meaningful-unit'' [],
      entry ''repo.analyzed'' [AI] ''meaningful-unit'' [],
      entry ''repo.extraction.stored'' [AI] ''meaningful-unit'' [],
      entry ''guardrail.decision'' [AI] ''meaningful-unit'' [],
      entry ''system.session.recorded'' [AI] ''meaningful-unit'' [],
      entry ''system.session.closed'' [AI] ''meaningful-unit'' [],
      entry ''system.handoff.created'' [AI] ''meaningful-unit'' [],
      entry ''system.hook.execution.logged'' [AI] ''meaningful-unit'' [],
      entry ''system.lesson.captured'' [AI] ''meaningful-unit'' [],
      entry ''system.approach.captured'' [AI] ''meaningful-unit'' [],
      entry ''system.project_stats.updated'' [AI] ''meaningful-unit'' [],
      entry ''risk.score.computed'' [AI] ''meaningful-unit'' [],
      entry ''audit.violations_cleared'' [AI] ''meaningful-unit'' [],
      entry ''audit.improvements_cleared'' [AI] ''meaningful-unit'' [],
      entry ''integration.health.changed'' [AI] ''meaningful-unit'' [],
      entry ''event.validation.failed'' [AI] ''meaningful-unit'' [],
      entry ''security.scan.started'' [AI] ''meaningful-unit'' [],
      entry ''security.scan.failed'' [AI] ''meaningful-unit'' []]"

definition AI_ENTRIES :: "registry_entry list" where
  "AI_ENTRIES = AI_ENTRIES_1 @ AI_ENTRIES_2"

definition OTHER_ENTRIES :: "registry_entry list" where
  "OTHER_ENTRIES =
     [entry ''tool.execution.completed'' [] ''mechanical-detail'' [],
      entry ''tool.execution.started'' [] ''mechanical-detail'' [],
      entry ''hook.tool_activity'' [] ''mechanical-detail'' [],
      entry ''security.finding.recorded'' [Business, AI] ''meaningful-unit'' [],
      entry ''security.finding.logged'' [Business, AI] ''meaningful-unit'' [''finding_id'', ''project_id'', ''severity'', ''status''],
      entry ''security.finding.resolved'' [Business, AI] ''meaningful-unit'' [''finding_id'', ''project_id''],
      entry ''security.finding.detected'' [Business, AI] ''meaningful-unit'' [],
      entry ''security.scan.completed'' [Business, AI] ''meaningful-unit'' [],
      entry ''finding.recorded'' [Business, AI] ''meaningful-unit'' [],
      entry ''finding.status_changed'' [Business, AI] ''meaningful-unit'' [],
      entry ''work_order.verified'' [Business] ''meaningful-unit'' [],
      entry ''eval.run.completed'' [Business] ''meaningful-unit'' [],
      entry ''decision.recorded'' [Business] ''meaningful-unit'' [],
      entry ''audit.violation_found'' [Business, AI] ''meaningful-unit'' [],
      entry ''audit.improvement_found'' [Business, AI] ''meaningful-unit'' [],
      entry ''quality.score.recorded'' [Business, AI] ''meaningful-unit'' [],
      entry ''system.hook.finding.created'' [Business, AI] ''meaningful-unit'' []]"

definition ENTRIES :: "registry_entry list" where
  "ENTRIES = BUSINESS_ENTRIES @ AI_ENTRIES @ OTHER_ENTRIES"

text \<open>The lookup dictionary: built in order, so the last entry of a type wins.\<close>

definition REGISTRY :: "registry_entry table" where
  "REGISTRY = rev (map (\<lambda>e. (re_event_type e, e)) ENTRIES)"

section \<open>Queries\<close>

definition get_entry :: "string \<Rightarrow> registry_entry option" where
  "get_entry event_type = map_of REGISTRY event_type"

definition get_routes :: "string \<Rightarrow> canonical_source list" where
  "get_routes event_type =
     (case get_entry event_type of None \<Rightarrow> [Business, AI] | Some e \<Rightarrow> re_routes_to e)"

definition is_registered :: "string \<Rightarrow> bool" where
  "is_registered event_type = (get_entry event_type \<noteq> None)"

text \<open>\<^verbatim>\<open>spool/writer.py\<close>, \<open>_validate_payload_keys\<close>: the missing keys raise a ValueError.\<close>

definition validate_payload_keys :: "string \<Rightarrow> string list \<Rightarrow> py_error + unit" where
  "validate_payload_keys event_type payload_keys =
     (case get_entry event_type of
        None \<Rightarrow> Inr ()
      | Some e \<Rightarrow>
          let missing = filter (\<lambda>k. k \<notin> set payload_keys) (re_payload_required_keys e) in
          if missing = [] then Inr ()
          else Inl (ValueError (''Event is missing required payload keys: '' @ event_type)))"

section \<open>Looking up the SDLC entities\<close>

text \<open>The types of the four SDLC entities are declared among the first business entries only.\<close>

definition sdlc_type :: "string \<Rightarrow> bool" where
  "sdlc_type ty \<longleftrightarrow> ty \<noteq> ''work_order.verified'' \<and>
     list_ex (\<lambda>p. prefix p ty) [''project.'', ''milestone.'', ''work_order.'', ''task.'']"

abbreviation sdlc_entries :: "registry_entry list" where
  "sdlc_entries \<equiv> BUSINESS_ENTRIES_1 @ BUSINESS_ENTRIES_2"

abbreviation later_entries :: "registry_entry list" where
  "later_entries \<equiv> BUSINESS_ENTRIES_3 @ AI_ENTRIES @ OTHER_ENTRIES"

lemma sdlc_entries_distinct: "distinct (map re_event_type sdlc_entries)"
  by (simp add: BUSINESS_ENTRIES_1_def BUSINESS_ENTRIES_2_def)

lemma later_entries_other:
  "list_all (\<lambda>e. \<not> sdlc_type (re_event_type e)) BUSINESS_ENTRIES_3"
  "list_all (\<lambda>e. \<not> sdlc_type (re_event_type e)) AI_ENTRIES_1"
  "list_all (\<lambda>e. \<not> sdlc_type (re_event_type e)) AI_ENTRIES_2"
  "list_all (\<lambda>e. \<not> sdlc_type (re_event_type e)) OTHER_ENTRIES"
  by (simp_all add: sdlc_type_def BUSINESS_ENTRIES_3_def AI_ENTRIES_1_def AI_ENTRIES_2_def
      OTHER_ENTRIES_def)

lemma map_of_rev_keyed:
  assumes "distinct (map f xs)" and "e \<in> set xs" and "f e \<notin> f ` set ys"
  shows "map_of (rev (map (\<lambda>x. (f x, x)) (xs @ ys))) (f e) = Some e"
proof -
  have "map_of (rev (map (\<lambda>x. (f x, x)) xs)) (f e) = Some e"
  proof (rule map_of_is_SomeI)
    show "distinct (map fst (rev (map (\<lambda>x. (f x, x)) xs)))"
      using assms(1) by (simp add: rev_map [symmetric] comp_def)
  qed (use assms(2) in simp)
  moreover have "map_of (rev (map (\<lambda>x. (f x, x)) ys)) (f e) = None"
    using assms(3) by (auto simp: map_of_eq_None_iff)
  ultimately show ?thesis
    by (simp add: map_add_def)
qed

lemma get_sdlc_entry:
  assumes "e \<in> set sdlc_entries" and "sdlc_type (re_event_type e)"
  shows "get_entry (re_event_type e) = Some e"
proof -
  have n: "re_event_type e \<notin> re_event_type ` set later_entries"
    using later_entries_other assms(2) by (auto simp: AI_ENTRIES_def list_all_iff)
  have eq: "ENTRIES = sdlc_entries @ later_entries"
    by (simp add: ENTRIES_def BUSINESS_ENTRIES_def)
  show ?thesis
    unfolding get_entry_def REGISTRY_def eq
    by (rule map_of_rev_keyed [OF sdlc_entries_distinct assms(1) n])
qed

lemma sdlc_types_named: "list_all sdlc_type
    [WORK_ORDER_CREATED, WORK_ORDER_STARTED, WORK_ORDER_UNBLOCKED, WORK_ORDER_REOPENED,
     WORK_ORDER_REVIEW_REQUESTED, WORK_ORDER_PUSHED, WORK_ORDER_CI_FAILED, WORK_ORDER_BLOCKED,
     WORK_ORDER_CLOSED, WORK_ORDER_CANCELLED, WORK_ORDER_DELETED, TASK_CREATED, TASK_STARTED,
     TASK_COMPLETED, TASK_CANCELLED, TASK_DELETED, TASK_AC_REPOINTED, MILESTONE_CREATED,
     MILESTONE_COMPLETED, MILESTONE_DELETED, PROJECT_CREATED, PROJECT_ACTIVATED,
     PROJECT_DEACTIVATED, PROJECT_DELETED, PROJECT_CLIENT_ASSIGNED]"
  by (simp add: sdlc_type_def event_type_defs)

lemma get_entryI:
  assumes "entry ty r g ks \<in> set sdlc_entries" and "sdlc_type ty"
  shows "get_entry ty = Some (entry ty r g ks)"
  using get_sdlc_entry [OF assms(1)] assms(2) by simp

lemma in_sdlc_entries:
  "e \<in> set BUSINESS_ENTRIES_1 \<Longrightarrow> e \<in> set sdlc_entries"
  "e \<in> set BUSINESS_ENTRIES_2 \<Longrightarrow> e \<in> set sdlc_entries"
  by simp_all

lemma sdlc_routes: "list_all (\<lambda>e. re_routes_to e = [Business]) BUSINESS_ENTRIES_1"
  "list_all (\<lambda>e. re_routes_to e = [Business]) BUSINESS_ENTRIES_2"
  by (simp_all add: BUSINESS_ENTRIES_1_def BUSINESS_ENTRIES_2_def)

lemma routes_business:
  assumes "ty \<in> set (map re_event_type sdlc_entries)" and "sdlc_type ty"
  shows "is_registered ty \<and> get_routes ty = [Business]"
proof -
  from assms(1) obtain e where e: "e \<in> set sdlc_entries" "ty = re_event_type e"
    by auto
  with get_sdlc_entry [OF e(1)] assms(2) sdlc_routes show ?thesis
    by (auto simp: is_registered_def get_routes_def list_all_iff)
qed

lemma sdlc_types_declared: "list_all (\<lambda>ty. ty \<in> set (map re_event_type sdlc_entries))
    (wo_consumed_event_types @ task_consumed_event_types @ milestone_consumed_event_types @
     project_consumed_event_types)"
  by (simp add: wo_consumed_event_types_def task_consumed_event_types_def
      milestone_consumed_event_types_def project_consumed_event_types_def event_type_defs
      BUSINESS_ENTRIES_1_def BUSINESS_ENTRIES_2_def)

lemma payload_check:
  "validate_payload_keys ty ks = Inr () \<longleftrightarrow>
     (case get_entry ty of None \<Rightarrow> True | Some e \<Rightarrow> set (re_payload_required_keys e) \<subseteq> set ks)"
  by (auto simp: validate_payload_keys_def Let_def filter_empty_conv split: option.split)

text \<open>The entries of the lifecycle events the mutations emit.\<close>

lemma lifecycle_declared:
  "entry WORK_ORDER_STARTED [Business] ''meaningful-unit'' [''project_id'', ''title'', ''type'', ''work_order_id'']
     \<in> set BUSINESS_ENTRIES_1"
  "entry WORK_ORDER_REVIEW_REQUESTED [Business] ''meaningful-unit'' [''project_id'', ''title'', ''work_order_id'']
     \<in> set BUSINESS_ENTRIES_1"
  "entry WORK_ORDER_PUSHED [Business] ''meaningful-unit'' [''project_id'', ''title'', ''work_order_id'']
     \<in> set BUSINESS_ENTRIES_1"
  "entry WORK_ORDER_CI_FAILED [Business] ''meaningful-unit'' [''project_id'', ''title'', ''work_order_id'']
     \<in> set BUSINESS_ENTRIES_1"
  "entry WORK_ORDER_BLOCKED [Business] ''meaningful-unit'' [''project_id'', ''reason'', ''title'', ''work_order_id'']
     \<in> set BUSINESS_ENTRIES_1"
  "entry WORK_ORDER_UNBLOCKED [Business] ''meaningful-unit'' [''project_id'', ''title'', ''work_order_id'']
     \<in> set BUSINESS_ENTRIES_1"
  "entry WORK_ORDER_CLOSED [Business] ''meaningful-unit'' [''forced'', ''project_id'', ''title'', ''work_order_id'']
     \<in> set BUSINESS_ENTRIES_2"
  "entry WORK_ORDER_REOPENED [Business] ''meaningful-unit'' [''project_id'', ''work_order_id'']
     \<in> set BUSINESS_ENTRIES_2"
  by (simp_all add: BUSINESS_ENTRIES_1_def BUSINESS_ENTRIES_2_def event_type_defs)

lemma lifecycle_entries:
  "get_entry WORK_ORDER_STARTED = Some (entry WORK_ORDER_STARTED [Business] ''meaningful-unit''
     [''project_id'', ''title'', ''type'', ''work_order_id''])"
  "get_entry WORK_ORDER_REVIEW_REQUESTED = Some (entry WORK_ORDER_REVIEW_REQUESTED [Business] ''meaningful-unit''
     [''project_id'', ''title'', ''work_order_id''])"
  "get_entry WORK_ORDER_PUSHED = Some (entry WORK_ORDER_PUSHED [Business] ''meaningful-unit''
     [''project_id'', ''title'', ''work_order_id''])"
  "get_entry WORK_ORDER_CI_FAILED = Some (entry WORK_ORDER_CI_FAILED [Business] ''meaningful-unit''
     [''project_id'', ''title'', ''work_order_id''])"
  "get_entry WORK_ORDER_BLOCKED = Some (entry WORK_ORDER_BLOCKED [Business] ''meaningful-unit''
     [''project_id'', ''reason'', ''title'', ''work_order_id''])"
  "get_entry WORK_ORDER_UNBLOCKED = Some (entry WORK_ORDER_UNBLOCKED [Business] ''meaningful-unit''
     [''project_id'', ''title'', ''work_order_id''])"
  "get_entry WORK_ORDER_CLOSED = Some (entry WORK_ORDER_CLOSED [Business] ''meaningful-unit''
     [''forced'', ''project_id'', ''title'', ''work_order_id''])"
  "get_entry WORK_ORDER_REOPENED = Some (entry WORK_ORDER_REOPENED [Business] ''meaningful-unit''
     [''project_id'', ''work_order_id''])"
  by (rule get_entryI, rule in_sdlc_entries, rule lifecycle_declared, use sdlc_types_named in simp)+

section \<open>Properties\<close>

text \<open>The routing table serves the projections: every event type a business projection
  consumes is registered, and its events are routed to exactly the business table that the
  projection reads (the entry looked up is the last one declared for the type, and no later
  entry overrides these).\<close>

theorem registry_serves_projections:
  "list_all (\<lambda>ty. is_registered ty \<and> get_routes ty = [Business])
     (wo_consumed_event_types @ task_consumed_event_types @ milestone_consumed_event_types @
      project_consumed_event_types)"
proof -
  have "list_all sdlc_type (wo_consumed_event_types @ task_consumed_event_types @
      milestone_consumed_event_types @ project_consumed_event_types)"
    using sdlc_types_named
    by (simp add: wo_consumed_event_types_def task_consumed_event_types_def
        milestone_consumed_event_types_def project_consumed_event_types_def)
  with sdlc_types_declared routes_business show ?thesis
    unfolding list_all_iff by blast
qed

end
