(* ===== verification/Correlation.thy ===== *)
theory Correlation
  imports Task_Status "HOL-Library.AList"
begin

text \<open>
  \<^verbatim>\<open>core/correlation/composer.py\<close>: composing, parsing, extending, validating and normalising
  correlation ids. The three regular expressions are modelled as functions on strings: the
  split at a colon that a known prefix follows, the typed-segment match and the value
  character class. Python's \<open>$\<close> also matches before a final newline, and the model keeps that.
\<close>

section \<open>Tables\<close>

definition COMPONENT_ORDER :: "string list" where
  "COMPONENT_ORDER = [''session'', ''workflow'', ''skill'', ''agent'', ''hook'', ''tool'']"

definition PREFIX :: dict where
  "PREFIX = [(''session'', ''sess''), (''workflow'', ''wf''), (''skill'', ''skill''),
     (''agent'', ''agent''), (''hook'', ''hook''), (''tool'', ''tool'')]"

definition REVERSE_PREFIX :: dict where
  "REVERSE_PREFIX = map (\<lambda>(k, v). (v, k)) PREFIX"

section \<open>The regular expressions\<close>

definition newline :: char where
  "newline = CHR 0x0A"

text \<open>\<open>(sess|wf|skill|agent|hook|tool)-\<close> at the start of a string.\<close>

definition starts_known :: "string \<Rightarrow> bool" where
  "starts_known s = list_ex (\<lambda>p. prefix (p @ ''-'') s) (map snd PREFIX)"

text \<open>\<open>_SEGMENT_SPLIT_RE.split\<close>\<close>

fun split_segments :: "string \<Rightarrow> string list" where
  "split_segments [] = [[]]"
| "split_segments (c # s) =
     (if c = CHR '':'' \<and> starts_known s then [] # split_segments s
      else (case split_segments s of [] \<Rightarrow> [[c]] | w # ws \<Rightarrow> (c # w) # ws))"

text \<open>\<open>(.+)$\<close> on the rest of a segment: one or more characters other than the newline, up to the
  end or to a final newline.\<close>

definition match_value :: "string \<Rightarrow> string option" where
  "match_value v =
     (let u = (if v \<noteq> [] \<and> last v = newline then butlast v else v) in
      if u \<noteq> [] \<and> newline \<notin> set u then Some u else None)"

text \<open>\<open>_SEGMENT_RE.match\<close>: the prefix and the value.\<close>

definition match_segment :: "string \<Rightarrow> (string \<times> string) option" where
  "match_segment segment =
     (case List.find (\<lambda>p. prefix (p @ ''-'') segment) (map snd PREFIX) of
        None \<Rightarrow> None
      | Some p \<Rightarrow> (case match_value (drop (length p + 1) segment) of
                    None \<Rightarrow> None | Some v \<Rightarrow> Some (p, v)))"

definition value_char :: "char \<Rightarrow> bool" where
  "value_char c = (let n = (of_char c :: nat) in
     (65 \<le> n \<and> n \<le> 90) \<or> (97 \<le> n \<and> n \<le> 122) \<or> (48 \<le> n \<and> n \<le> 57) \<or>
     c \<in> {CHR ''-'', CHR ''.'', CHR ''_'', CHR '':''})"

text \<open>\<open>_VALUE_RE.match\<close>\<close>

definition value_ok :: "string \<Rightarrow> bool" where
  "value_ok v =
     (let u = (if v \<noteq> [] \<and> last v = newline then butlast v else v) in u \<noteq> [] \<and> list_all value_char u)"

section \<open>Operations\<close>

text \<open>A dictionary of optional ids: a missing key and None are the same.\<close>

definition compose :: "(string \<Rightarrow> string option) \<Rightarrow> string option" where
  "compose parts =
     (let segments = List.map_filter (\<lambda>entity_type.
            case parts entity_type of
              None \<Rightarrow> None
            | Some value \<Rightarrow> Some (the (map_of PREFIX entity_type) @ ''-'' @ value)) COMPONENT_ORDER
      in if segments \<noteq> [] then Some (py_join '':'' segments) else None)"

definition decompose :: "string \<Rightarrow> dict" where
  "decompose correlation_id =
     foldl (\<lambda>result segment.
       case match_segment segment of
         None \<Rightarrow> result
       | Some (p, value) \<Rightarrow>
           (case map_of REVERSE_PREFIX p of
              None \<Rightarrow> result
            | Some entity_type \<Rightarrow> AList.update entity_type value result))
       [] (split_segments correlation_id)"

definition extend :: "string option \<Rightarrow> string \<Rightarrow> string \<Rightarrow> py_error + string" where
  "extend base entity_type entity_id =
     (case map_of PREFIX entity_type of
        None \<Rightarrow> Inl (ValueError (''Unknown entity_type '' @ entity_type))
      | Some p \<Rightarrow>
          let new_segment = p @ ''-'' @ entity_id in
          (case base of
             None \<Rightarrow> Inr new_segment
           | Some b \<Rightarrow>
               if map_of (decompose b) entity_type \<noteq> None then Inr b
               else Inr (b @ '':'' @ new_segment)))"

definition order_index :: "string \<Rightarrow> nat" where
  "order_index entity_type = length (takeWhile (\<lambda>t. t \<noteq> entity_type) COMPONENT_ORDER)"

text \<open>The loop of \<open>validate\<close>, with the index of the segment before.\<close>

fun validate_segments :: "nat option \<Rightarrow> string list \<Rightarrow> string option" where
  "validate_segments seen [] = None"
| "validate_segments seen (segment # rest) =
     (case match_segment segment of
        None \<Rightarrow> Some (''Segment does not match prefix-value pattern: '' @ segment)
      | Some (p, value) \<Rightarrow>
          (case map_of REVERSE_PREFIX p of
             None \<Rightarrow> Some (''Unknown prefix: '' @ p)
           | Some entity_type \<Rightarrow>
               if \<not> value_ok value then Some (''Segment value contains invalid characters: '' @ segment)
               else let idx = order_index entity_type in
                 if (case seen of None \<Rightarrow> False | Some j \<Rightarrow> idx \<le> j)
                 then Some (''Segment is out of order: '' @ segment)
                 else validate_segments (Some idx) rest))"

definition validate :: "string \<Rightarrow> bool \<times> string option" where
  "validate correlation_id =
     (if correlation_id = [] then (False, Some ''correlation_id is empty'')
      else (case validate_segments None (split_segments correlation_id) of
              None \<Rightarrow> (True, None) | Some msg \<Rightarrow> (False, Some msg)))"

definition normalize_legacy :: "string option \<Rightarrow> string option \<times> string" where
  "normalize_legacy correlation_id =
     (case correlation_id of
        None \<Rightarrow> (None, ''unfixable'')
      | Some s \<Rightarrow>
          if fst (validate s) then (Some s, ''kept'')
          else let components = decompose s in
            if components = [] then (None, ''unfixable'')
            else let recomposed = compose (map_of components) in
              if truthy recomposed then (recomposed, ''normalized'') else (None, ''unfixable''))"

section \<open>Splitting is the inverse of joining\<close>

text \<open>A value that holds no segment boundary of its own.\<close>

fun no_boundary :: "string \<Rightarrow> bool" where
  "no_boundary [] = True"
| "no_boundary (c # s) = (\<not> (c = CHR '':'' \<and> starts_known s) \<and> no_boundary s)"

lemma split_segments_nonempty [simp]: "split_segments s \<noteq> []"
  by (induction s) (auto split: list.splits)

lemma prefix_names_no_colon: "list_all (\<lambda>p. CHR '':'' \<notin> set (p @ ''-'')) (map snd PREFIX)"
  by (simp add: PREFIX_def)

lemma prefix_before_colon:
  "CHR '':'' \<notin> set q \<Longrightarrow> prefix q (u @ CHR '':'' # t) \<longleftrightarrow> prefix q u"
proof (induction q arbitrary: u)
  case (Cons c q)
  then show ?case by (cases u) auto
qed simp

lemma starts_known_before_colon: "starts_known (u @ CHR '':'' # t) = starts_known u"
  using prefix_names_no_colon prefix_before_colon
  by (auto simp: starts_known_def list_ex_iff list_all_iff)

lemma split_no_boundary: "no_boundary v \<Longrightarrow> split_segments v = [v]"
  by (induction v) auto

lemma split_boundary:
  assumes "no_boundary v" and "starts_known t"
  shows "split_segments (v @ CHR '':'' # t) = v # split_segments t"
  using assms
  by (induction v) (auto simp: starts_known_before_colon)

lemma py_join_split: "py_join '':'' (split_segments s) = s"
proof (induction s)
  case (Cons c s)
  have j: "py_join '':'' ((c # w) # ws) = c # py_join '':'' (w # ws)" for w ws
    by (cases ws) auto
  have j0: "py_join '':'' ([] # x # xs) = CHR '':'' # py_join '':'' (x # xs)" for x xs
    by simp
  show ?case
    using Cons by (cases "split_segments s") (auto simp: j simp del: py_join.simps(3), simp add: j0)
qed simp

section \<open>Typed segments\<close>

definition seg :: "string \<times> string \<Rightarrow> string" where
  "seg tv = the (map_of PREFIX (fst tv)) @ ''-'' @ snd tv"

text \<open>A value that survives the round trip: not empty, on one line, no boundary inside.\<close>

definition plain_value :: "string \<Rightarrow> bool" where
  "plain_value v \<longleftrightarrow> v \<noteq> [] \<and> newline \<notin> set v \<and> no_boundary v"

lemma component_prefixes:
  "list_all (\<lambda>t. map_of PREFIX t \<noteq> None \<and> map_of REVERSE_PREFIX (the (map_of PREFIX t)) = Some t \<and>
     the (map_of PREFIX t) \<in> set (map snd PREFIX)) COMPONENT_ORDER"
  by (simp add: COMPONENT_ORDER_def PREFIX_def REVERSE_PREFIX_def)

lemma component_prefix:
  assumes "t \<in> set COMPONENT_ORDER"
  shows "map_of REVERSE_PREFIX (the (map_of PREFIX t)) = Some t"
    and "the (map_of PREFIX t) \<in> set (map snd PREFIX)"
  using component_prefixes assms by (simp_all add: list_all_iff)

lemma prefix_names_no_hyphen: "list_all (\<lambda>p. CHR ''-'' \<notin> set p) (map snd PREFIX)"
  by (simp add: PREFIX_def)

lemma hyphen_prefix_unique:
  "CHR ''-'' \<notin> set q \<Longrightarrow> CHR ''-'' \<notin> set p \<Longrightarrow> prefix (q @ ''-'') (p @ ''-'' @ v) \<Longrightarrow> q = p"
proof (induction q arbitrary: p)
  case Nil
  then show ?case by (cases p) auto
next
  case (Cons c q)
  then show ?case by (cases p) auto
qed

lemma find_unique:
  assumes "p \<in> set xs" and "P p" and "\<And>q. q \<in> set xs \<Longrightarrow> P q \<Longrightarrow> q = p"
  shows "List.find P xs = Some p"
  using assms
proof (induction xs)
  case (Cons x xs)
  show ?case
  proof (cases "P x")
    case True
    with Cons.prems(3) [of x] show ?thesis by simp
  next
    case False
    then have "p \<in> set xs"
      using Cons.prems(1,2) by auto
    then have "List.find P xs = Some p"
      using Cons.prems(2) Cons.prems(3) [OF list.set_intros(2)] by (rule Cons.IH)
    with False show ?thesis by simp
  qed
qed simp

lemma find_prefix:
  assumes "p \<in> set (map snd PREFIX)"
  shows "List.find (\<lambda>q. prefix (q @ ''-'') (p @ ''-'' @ v)) (map snd PREFIX) = Some p"
proof (rule find_unique [OF assms])
  show "prefix (p @ ''-'') (p @ ''-'' @ v)"
    by simp
  show "q = p" if "q \<in> set (map snd PREFIX)" "prefix (q @ ''-'') (p @ ''-'' @ v)" for q
    using that assms prefix_names_no_hyphen
    by (intro hyphen_prefix_unique [of q p v]) (simp_all only: list_all_iff, blast+)
qed

lemma match_segment_seg:
  assumes "t \<in> set COMPONENT_ORDER" and "plain_value v"
  shows "match_segment (seg (t, v)) = Some (the (map_of PREFIX t), v)"
proof -
  have "match_value v = Some v"
    using assms(2) last_in_set [of v]
    by (cases "last v = newline") (simp_all add: match_value_def plain_value_def Let_def)
  then show ?thesis
    using find_prefix [OF component_prefix(2) [OF assms(1)], of v]
    by (simp add: match_segment_def seg_def)
qed

lemma starts_known_seg:
  assumes "t \<in> set COMPONENT_ORDER"
  shows "starts_known (seg (t, v) @ r)"
  using component_prefix(2) [OF assms] by (force simp: starts_known_def list_ex_iff seg_def)

lemma no_boundary_seg:
  assumes "t \<in> set COMPONENT_ORDER" and "no_boundary v"
  shows "no_boundary (seg (t, v))"
proof -
  have "no_boundary (q @ v)" if "CHR '':'' \<notin> set q" for q
    using that assms(2) by (induction q) auto
  moreover have "CHR '':'' \<notin> set (the (map_of PREFIX t) @ ''-'')"
    using component_prefix(2) [OF assms(1)] prefix_names_no_colon by (auto simp: list_all_iff)
  ultimately have "no_boundary ((the (map_of PREFIX t) @ ''-'') @ v)"
    by blast
  then show ?thesis
    by (simp add: seg_def)
qed

lemma split_join_segments:
  assumes "list_all (\<lambda>(t, v). t \<in> set COMPONENT_ORDER \<and> plain_value v) tvs" and "tvs \<noteq> []"
  shows "split_segments (py_join '':'' (map seg tvs)) = map seg tvs"
  using assms
proof (induction tvs rule: induct_list012)
  case (2 x)
  then show ?case
    by (cases x) (simp add: split_no_boundary no_boundary_seg plain_value_def)
next
  case (3 x y tvs)
  obtain t v t' v' where xy: "x = (t, v)" "y = (t', v')" by force
  have "starts_known (py_join '':'' (map seg (y # tvs)))"
    using 3 starts_known_seg [of t' v'] xy starts_known_seg [of t' v' "[]"] by (cases tvs) auto
  moreover have "no_boundary (seg x)"
    using 3 xy no_boundary_seg by (auto simp: plain_value_def)
  ultimately have "split_segments (seg x @ CHR '':'' # py_join '':'' (map seg (y # tvs))) =
      seg x # split_segments (py_join '':'' (map seg (y # tvs)))"
    by (intro split_boundary)
  with 3 show ?case by simp
qed simp

text \<open>The typed segments of a dictionary, in canonical order.\<close>

definition parts_list :: "(string \<Rightarrow> string option) \<Rightarrow> (string \<times> string) list" where
  "parts_list parts = List.map_filter (\<lambda>t. map_option (\<lambda>v. (t, v)) (parts t)) COMPONENT_ORDER"

lemma compose_parts:
  "compose parts =
     (if parts_list parts = [] then None else Some (py_join '':'' (map seg (parts_list parts))))"
proof -
  have "List.map_filter (\<lambda>entity_type. case parts entity_type of None \<Rightarrow> None
        | Some value \<Rightarrow> Some (the (map_of PREFIX entity_type) @ ''-'' @ value)) ts =
      map seg (List.map_filter (\<lambda>t. map_option (\<lambda>v. (t, v)) (parts t)) ts)" for ts
    by (induction ts) (auto simp: seg_def map_filter_simps split: option.split)
  then show ?thesis
    by (simp add: compose_def parts_list_def Let_def)
qed

lemma parts_list_set:
  "(t, v) \<in> set (parts_list parts) \<longleftrightarrow> t \<in> set COMPONENT_ORDER \<and> parts t = Some v"
  by (force simp: parts_list_def map_filter_def image_iff)

lemma component_order_distinct: "distinct COMPONENT_ORDER"
  by (simp add: COMPONENT_ORDER_def)

lemma order_index_components: "map order_index COMPONENT_ORDER = [0..<6]"
  by (simp add: order_index_def COMPONENT_ORDER_def upt_conv_Cons)

lemma order_index_inj: "inj_on order_index (set COMPONENT_ORDER)"
  using order_index_components by (metis distinct_map distinct_upt)

lemma keys_map_filter:
  "sorted_wrt (<) (map f ts) \<Longrightarrow>
     sorted_wrt (<) (map (f \<circ> fst) (List.map_filter (\<lambda>t. map_option (\<lambda>v. (t, v)) (p t)) ts))"
  by (induction ts) (auto simp: map_filter_simps map_filter_def split: option.split)

lemma parts_list_sorted: "sorted_wrt (<) (map (order_index \<circ> fst) (parts_list parts))"
  unfolding parts_list_def
  by (rule keys_map_filter) (simp only: order_index_components sorted_wrt_upt)

lemma sorted_keys_distinct:
  assumes "sorted_wrt (<) (map (order_index \<circ> fst) tvs)"
  shows "distinct (map fst tvs)"
proof -
  have "distinct (map order_index (map fst tvs))"
    using assms by (simp add: strict_sorted_iff)
  then show ?thesis
    by (simp only: distinct_map)
qed

lemma parts_list_map_of:
  assumes "sorted_wrt (<) (map (order_index \<circ> fst) tvs)"
    and "set (map fst tvs) \<subseteq> set COMPONENT_ORDER"
  shows "parts_list (map_of tvs) = tvs"
proof (rule map_sorted_distinct_set_unique [where f = "order_index \<circ> fst"])
  have d: "distinct (map fst tvs)"
    using assms(1) by (rule sorted_keys_distinct)
  show eq: "set (parts_list (map_of tvs)) = set tvs"
    using assms(2) d by (auto simp: parts_list_set)
  show "inj_on (order_index \<circ> fst) (set (parts_list (map_of tvs)) \<union> set tvs)"
    using order_index_inj assms(2) d unfolding eq
    by (auto simp: distinct_map intro!: comp_inj_on intro: inj_on_subset)
qed (use assms(1) parts_list_sorted [of "map_of tvs"] in \<open>auto simp: strict_sorted_iff\<close>)

lemma decompose_fold:
  assumes "list_all (\<lambda>(t, v). t \<in> set COMPONENT_ORDER \<and> plain_value v) tvs"
  shows "foldl (\<lambda>result segment. case match_segment segment of None \<Rightarrow> result
       | Some (p, value) \<Rightarrow> (case map_of REVERSE_PREFIX p of None \<Rightarrow> result
            | Some entity_type \<Rightarrow> AList.update entity_type value result)) d (map seg tvs) =
    foldl (\<lambda>result (t, v). AList.update t v result) d tvs"
  using assms
  by (induction tvs arbitrary: d) (auto simp: match_segment_seg component_prefix(1))

lemma map_of_update_fold:
  "map_of (foldl (\<lambda>result (t, v). AList.update t v result) d tvs) = map_of d ++ map_of (rev tvs)"
proof (induction tvs arbitrary: d)
  case (Cons x tvs)
  obtain t v where x: "x = (t, v)" by force
  have "map_of (foldl (\<lambda>result (t, v). AList.update t v result) d (x # tvs)) =
      (map_of d)(t \<mapsto> v) ++ map_of (rev tvs)"
    using Cons [of "AList.update t v d"] by (simp add: x update_conv' fun_upd_def)
  then show ?case
    by (simp add: x fun_eq_iff map_add_def split: option.split)
qed simp

lemma map_of_rev_distinct:
  assumes "distinct (map fst xs)"
  shows "map_of (rev xs) = map_of xs"
proof
  fix k
  have d: "distinct (map fst (rev xs))"
    using assms by (simp add: rev_map [symmetric])
  show "map_of (rev xs) k = map_of xs k"
  proof (cases "map_of xs k")
    case None
    then have "map_of (rev xs) k = None"
      by (simp add: map_of_eq_None_iff)
    with None show ?thesis by simp
  next
    case (Some v)
    then have "(k, v) \<in> set (rev xs)"
      by (simp add: map_of_SomeD)
    with d Some show ?thesis
      by (simp add: map_of_is_SomeI)
  qed
qed

lemma decompose_join:
  assumes "list_all (\<lambda>(t, v). t \<in> set COMPONENT_ORDER \<and> plain_value v) tvs" and "tvs \<noteq> []"
    and "distinct (map fst tvs)"
  shows "map_of (decompose (py_join '':'' (map seg tvs))) = map_of tvs"
proof -
  have "map_of (rev tvs) = map_of tvs"
    using assms(3) by (rule map_of_rev_distinct)
  then show ?thesis
    using assms(1,2)
    by (simp add: decompose_def split_join_segments decompose_fold map_of_update_fold)
qed

section \<open>Validation\<close>

lemma split_no_boundaries: "w \<in> set (split_segments s) \<Longrightarrow> no_boundary w"
  and split_head_prefix: "prefix (hd (split_segments s)) s"
proof -
  show p: "prefix (hd (split_segments s)) s" for s
    by (induction s) (auto split: list.split)
  have mono: "starts_known w \<Longrightarrow> prefix w t \<Longrightarrow> starts_known t" for w t
    by (auto simp: starts_known_def list_ex_iff intro: prefix_order.trans)
  show "w \<in> set (split_segments s) \<Longrightarrow> no_boundary w"
  proof (induction s arbitrary: w)
    case (Cons c s)
    obtain u us where u: "split_segments s = u # us"
      by (cases "split_segments s") auto
    have "prefix u s"
      using p [of s] u by simp
    then have "starts_known u \<Longrightarrow> starts_known s"
      by (rule mono [rotated])
    with Cons u show ?case
      by (auto split: if_splits)
  qed simp
qed

lemma no_boundary_append: "no_boundary (a @ b) \<Longrightarrow> no_boundary b"
  by (induction a) auto

lemma find_SomeD: "List.find P xs = Some x \<Longrightarrow> P x" "List.find P xs = Some x \<Longrightarrow> x \<in> set xs"
  by (induction xs) (auto split: if_splits)

lemma match_segment_exact:
  assumes "match_segment w = Some (p, v)" and "newline \<notin> set w"
  shows "w = p @ ''-'' @ v" and "v \<noteq> []" and "p \<in> set (map snd PREFIX)"
proof -
  from assms(1) obtain f: "List.find (\<lambda>p. prefix (p @ ''-'') w) (map snd PREFIX) = Some p"
    and m: "match_value (drop (length p + 1) w) = Some v"
    by (auto simp: match_segment_def split: option.splits)
  from f have "prefix (p @ ''-'') w" and p: "p \<in> set (map snd PREFIX)"
    using find_SomeD by metis+
  then obtain r where r: "w = (p @ ''-'') @ r"
    by (auto elim: prefixE)
  with assms(2) have "newline \<notin> set r"
    by simp
  then have "r \<noteq> [] \<Longrightarrow> last r \<noteq> newline"
    using last_in_set by metis
  moreover have "drop (length p + 1) w = r"
    by (simp add: r)
  ultimately have "r = v" "v \<noteq> []"
    using m by (auto simp: match_value_def Let_def split: if_splits)
  with r p show "w = p @ ''-'' @ v" and "v \<noteq> []" and "p \<in> set (map snd PREFIX)"
    by simp_all
qed

lemma reverse_prefixes:
  "list_all (\<lambda>p. (case map_of REVERSE_PREFIX p of None \<Rightarrow> False
     | Some t \<Rightarrow> t \<in> set COMPONENT_ORDER \<and> map_of PREFIX t = Some p)) (map snd PREFIX)"
  by (simp add: PREFIX_def REVERSE_PREFIX_def COMPONENT_ORDER_def)

lemma reverse_prefix:
  assumes "p \<in> set (map snd PREFIX)"
  obtains t where "map_of REVERSE_PREFIX p = Some t" "t \<in> set COMPONENT_ORDER" "map_of PREFIX t = Some p"
  using reverse_prefixes assms by (force simp: list_all_iff split: option.splits)

text \<open>Valid segments are typed segments in strictly increasing order.\<close>

lemma validate_segments_typed:
  assumes "validate_segments seen ws = None" and "\<And>w. w \<in> set ws \<Longrightarrow> newline \<notin> set w \<and> no_boundary w"
  shows "\<exists>tvs. ws = map seg tvs \<and>
    list_all (\<lambda>(t, v). t \<in> set COMPONENT_ORDER \<and> plain_value v \<and> value_ok v) tvs \<and>
    sorted_wrt (<) ((case seen of None \<Rightarrow> [] | Some j \<Rightarrow> [j]) @ map (order_index \<circ> fst) tvs)"
  using assms
proof (induction seen ws rule: validate_segments.induct)
  case (1 seen)
  then show ?case by (auto split: option.split)
next
  case (2 seen w ws)
  from 2(2) obtain p v where m: "match_segment w = Some (p, v)"
    by (auto split: option.splits)
  from 2(3) have w: "newline \<notin> set w" "no_boundary w"
    by auto
  note ex = match_segment_exact [OF m w(1)]
  obtain t where t: "map_of REVERSE_PREFIX p = Some t" "t \<in> set COMPONENT_ORDER" "map_of PREFIX t = Some p"
    using reverse_prefix [OF ex(3)] .
  from 2(2) m t have v: "value_ok v" and o: "\<not> (case seen of None \<Rightarrow> False | Some j \<Rightarrow> order_index t \<le> j)"
    and rest: "validate_segments (Some (order_index t)) ws = None"
    by (auto simp: Let_def split: if_splits)
  have "\<exists>tvs. ws = map seg tvs \<and>
    list_all (\<lambda>(t, v). t \<in> set COMPONENT_ORDER \<and> plain_value v \<and> value_ok v) tvs \<and>
    sorted_wrt (<) ((case Some (order_index t) of None \<Rightarrow> [] | Some j \<Rightarrow> [j]) @ map (order_index \<circ> fst) tvs)"
    using v o by (intro 2(1) [OF m refl t(1)] rest 2(3)) simp_all
  then obtain tvs where tvs: "ws = map seg tvs"
    "list_all (\<lambda>(t, v). t \<in> set COMPONENT_ORDER \<and> plain_value v \<and> value_ok v) tvs"
    "sorted_wrt (<) (order_index t # map (order_index \<circ> fst) tvs)"
    by (elim exE conjE) simp
  have "w = seg (t, v)"
    using ex(1) t(3) by (simp add: seg_def)
  moreover have "plain_value v"
    using w ex(1,2) no_boundary_append [of "p @ ''-''" v] by (simp add: plain_value_def)
  ultimately show ?case
    using tvs t(2) v o
    by (intro exI [of _ "(t, v) # tvs"]) (auto simp: comp_def split: option.splits)
qed

lemma seg_newline: "newline \<notin> set s \<Longrightarrow> w \<in> set (split_segments s) \<Longrightarrow> newline \<notin> set w"
  by (induction s arbitrary: w) (auto split: if_splits list.splits)

lemma valid_typed:
  assumes "fst (validate s)" and "newline \<notin> set s"
  obtains tvs where "tvs \<noteq> []" "s = py_join '':'' (map seg tvs)"
    "list_all (\<lambda>(t, v). t \<in> set COMPONENT_ORDER \<and> plain_value v) tvs"
    "sorted_wrt (<) (map (order_index \<circ> fst) tvs)"
proof -
  from assms(1) have "validate_segments None (split_segments s) = None"
    by (auto simp: validate_def split: if_splits option.splits)
  from validate_segments_typed [OF this] obtain tvs where tvs: "split_segments s = map seg tvs"
    "list_all (\<lambda>(t, v). t \<in> set COMPONENT_ORDER \<and> plain_value v \<and> value_ok v) tvs"
    "sorted_wrt (<) (map (order_index \<circ> fst) tvs)"
    using seg_newline [OF assms(2)] split_no_boundaries by auto
  moreover have "tvs \<noteq> []"
    using tvs(1) split_segments_nonempty [of s] by auto
  moreover have "s = py_join '':'' (map seg tvs)"
    using py_join_split [of s] tvs(1) by simp
  moreover from tvs(2) have "list_all (\<lambda>(t, v). t \<in> set COMPONENT_ORDER \<and> plain_value v) tvs"
    by (auto simp: list_all_iff)
  ultimately show ?thesis
    using that tvs(3) by blast
qed

lemma validate_typed:
  assumes "list_all (\<lambda>(t, v). t \<in> set COMPONENT_ORDER \<and> plain_value v \<and> value_ok v) tvs"
    and "sorted_wrt (<) ((case seen of None \<Rightarrow> [] | Some j \<Rightarrow> [j]) @ map (order_index \<circ> fst) tvs)"
  shows "validate_segments seen (map seg tvs) = None"
  using assms
proof (induction tvs arbitrary: seen)
  case (Cons x tvs)
  obtain t v where x: "x = (t, v)" by force
  from Cons.prems x have "validate_segments (Some (order_index t)) (map seg tvs) = None"
    by (intro Cons.IH) (auto split: option.splits)
  with Cons.prems x show ?case
    by (auto simp: match_segment_seg component_prefix(1) Let_def split: option.splits)
qed simp

section \<open>Properties\<close>

text \<open>Composing and parsing are inverse: the ids composed into a correlation id are exactly
  the ones parsed back, provided each value is a non-empty single line that holds no typed
  segment of its own (values may hold colons and hyphens).\<close>

theorem compose_decompose:
  assumes "compose parts = Some s" and "\<And>t v. parts t = Some v \<Longrightarrow> plain_value v"
  shows "map_of (decompose s) t = (if t \<in> set COMPONENT_ORDER then parts t else None)"
proof -
  let ?l = "parts_list parts"
  from assms(1) have ne: "?l \<noteq> []" and s: "s = py_join '':'' (map seg ?l)"
    by (auto simp: compose_parts split: if_splits)
  have d: "distinct (map fst ?l)"
    using parts_list_sorted by (rule sorted_keys_distinct)
  have "map_of (decompose s) = map_of ?l"
    unfolding s by (rule decompose_join) (use assms(2) ne d in \<open>auto simp: list_all_iff parts_list_set\<close>)
  moreover have "map_of ?l t = (if t \<in> set COMPONENT_ORDER then parts t else None)"
  proof (cases "map_of ?l t")
    case None
    then have "\<And>v. (t, v) \<notin> set ?l"
      by (auto simp: map_of_eq_None_iff image_iff)
    with None show ?thesis
      by (cases "parts t") (auto simp: parts_list_set)
  next
    case (Some v)
    then show ?thesis
      using map_of_SomeD [OF Some] by (simp add: parts_list_set)
  qed
  ultimately show ?thesis by simp
qed

theorem compose_decompose_witness:
  "map_of (decompose ''sess-abc:skill-ds-security:scan'') ''skill'' = Some ''ds-security:scan''"
proof -
  let ?parts = "[''session'' \<mapsto> ''abc'', ''skill'' \<mapsto> ''ds-security:scan'']"
  have "compose ?parts = Some ''sess-abc:skill-ds-security:scan''"
    by (simp add: compose_def COMPONENT_ORDER_def PREFIX_def map_filter_simps)
  moreover have "plain_value v" if "?parts t = Some v" for t v
    using that by (auto simp: plain_value_def newline_def starts_known_def PREFIX_def split: if_splits)
  ultimately show ?thesis
    using compose_decompose [of ?parts "''sess-abc:skill-ds-security:scan''" "''skill''"]
    by (simp add: COMPONENT_ORDER_def)
qed

text \<open>A valid correlation id is in canonical form: parsing it and composing the parts gives
  the same string back, so two valid ids with the same parts are equal. (The id must be a single
  line; see the next property.)\<close>

theorem validate_canonical:
  assumes "fst (validate s)" and "newline \<notin> set s"
  shows "compose (map_of (decompose s)) = Some s"
proof -
  obtain tvs where tvs: "tvs \<noteq> []" "s = py_join '':'' (map seg tvs)"
    "list_all (\<lambda>(t, v). t \<in> set COMPONENT_ORDER \<and> plain_value v) tvs"
    "sorted_wrt (<) (map (order_index \<circ> fst) tvs)"
    using valid_typed [OF assms] .
  have "map_of (decompose s) = map_of tvs"
    unfolding tvs(2) by (rule decompose_join [OF tvs(3,1) sorted_keys_distinct [OF tvs(4)]])
  moreover have "parts_list (map_of tvs) = tvs"
    using tvs(3) by (intro parts_list_map_of [OF tvs(4)]) (auto simp: list_all_iff)
  ultimately show ?thesis
    using tvs(1,2) by (simp add: compose_parts)
qed

theorem validate_canonical_witness:
  "compose (map_of (decompose ''sess-abc:tool-Read'')) = Some ''sess-abc:tool-Read''"
proof (rule validate_canonical)
  show "fst (validate ''sess-abc:tool-Read'')"
    by code_simp
qed (simp add: newline_def)

text \<open>Composing valid values gives a valid id: whenever every part is built from the allowed
  characters and holds no typed segment, the composed id passes validation.\<close>

theorem compose_valid:
  assumes "compose parts = Some s"
    and "\<And>t v. parts t = Some v \<Longrightarrow> v \<noteq> [] \<and> list_all value_char v \<and> no_boundary v"
  shows "validate s = (True, None)"
proof -
  let ?l = "parts_list parts"
  have nl: "\<not> value_char newline"
    by (simp add: value_char_def newline_def)
  have pv: "plain_value v \<and> value_ok v" if "parts t = Some v" for t v
  proof -
    have "newline \<notin> set v"
      using assms(2) [OF that] nl by (auto simp: list_all_iff)
    moreover from this have "last v \<noteq> newline"
      using assms(2) [OF that] last_in_set by metis
    ultimately show ?thesis
      using assms(2) [OF that] by (simp add: plain_value_def value_ok_def)
  qed
  from assms(1) have ne: "?l \<noteq> []" and s: "s = py_join '':'' (map seg ?l)"
    by (auto simp: compose_parts split: if_splits)
  have l: "list_all (\<lambda>(t, v). t \<in> set COMPONENT_ORDER \<and> plain_value v \<and> value_ok v) ?l"
    using pv by (auto simp: list_all_iff parts_list_set)
  then have sp: "split_segments s = map seg ?l"
    unfolding s using ne by (intro split_join_segments) (auto simp: list_all_iff)
  have "s \<noteq> []"
    using sp ne l by (cases ?l) (auto simp: seg_def)
  moreover have "validate_segments None (map seg ?l) = None"
    using validate_typed [OF l, of None] parts_list_sorted by simp
  ultimately show ?thesis
    by (simp add: validate_def sp)
qed

theorem compose_valid_witness: "validate ''wf-w1'' = (True, None)"
proof (rule compose_valid [of "[''workflow'' \<mapsto> ''w1'']"])
  show "compose [''workflow'' \<mapsto> ''w1''] = Some ''wf-w1''"
    by (simp add: compose_def COMPONENT_ORDER_def PREFIX_def map_filter_simps)
qed (auto simp: value_char_def split: if_splits)

text \<open>Three deviations from the documented rules. An id that ends in a newline is declared
  valid although the newline is not an allowed character; extending appends a segment out of the
  canonical order, so a valid id becomes invalid; and an id reported as normalized can still be
  invalid.\<close>

theorem correlation_deviations:
  "validate (''sess-abc'' @ [newline]) = (True, None) \<and>
   validate ''skill-x'' = (True, None) \<and>
   extend (Some ''skill-x'') ''session'' ''abc'' = Inr ''skill-x:sess-abc'' \<and>
   fst (validate ''skill-x:sess-abc'') = False \<and>
   normalize_legacy (Some ''sess-a b'') = (Some ''sess-a b'', ''normalized'') \<and>
   fst (validate ''sess-a b'') = False"
  by code_simp

end
