(* ===== verification/Spool.thy ===== *)
theory Spool
  imports Event_Registry Correlation
begin

text \<open>
  The event spool: \<^verbatim>\<open>spool/writer.py\<close> and \<^verbatim>\<open>spool/ingestor.py\<close>. Event files move through the
  directories spool, processing, processed and failed, and their events are inserted into the
  raw and the canonical tables. A directory maps file names to contents; a table maps event ids
  to rows. Whether a database write raises is a parameter of a run, for every file and each of
  the two writes, so that every interleaving of faults is covered.
\<close>

section \<open>Envelopes and files\<close>

text \<open>The parsed JSON object of a spool file: a missing key is None. The payload is split into its
  string values, its integer values, and the keys whose value is null or of another type.\<close>

record envelope =
  env_event_id :: "string option"
  env_event_type :: "string option"
  env_timestamp :: "string option"
  env_schema_version :: "int option"
  env_session_id :: "string option"
  env_project_id :: "string option"
  env_skill_id :: "string option"
  env_trace :: dict
  env_payload :: dict
  env_payload_ints :: "(string \<times> int) list"
  env_payload_other :: "string list"

text \<open>A file holds no JSON, a JSON value that is not an object, or an object.\<close>

datatype spool_file = Garbage | NotObject | Json envelope

type_synonym directory = "spool_file table"

record spool =
  sp_inbox :: directory
  sp_processing :: directory
  sp_processed :: directory
  sp_failed :: directory
  sp_reasons :: dict
  sp_raw :: "envelope table"
  sp_business :: "event table"
  sp_ai :: "event table"

definition put :: "string \<Rightarrow> 'a \<Rightarrow> (string \<times> 'a) list \<Rightarrow> (string \<times> 'a) list" where
  "put k x t = (k, x) # filter (\<lambda>(k', y). k' \<noteq> k) t"

definition remove :: "string \<Rightarrow> (string \<times> 'a) list \<Rightarrow> (string \<times> 'a) list" where
  "remove k t = filter (\<lambda>(k', y). k' \<noteq> k) t"

lemma map_of_put [simp]: "map_of (put k x t) j = (if j = k then Some x else map_of t j)"
  by (induction t) (auto simp: put_def)

lemma map_of_remove [simp]: "map_of (remove k t) j = (if j = k then None else map_of t j)"
  by (induction t) (auto simp: remove_def)

section \<open>Writing\<close>

text \<open>\<open>write_event\<close>: the payload check may raise; a missing schema version and a missing id are filled
  in (\<open>fresh\<close> is the generated id); the file appears atomically under the event id.\<close>

definition write_event :: "string \<Rightarrow> envelope \<Rightarrow> spool \<Rightarrow> py_error + spool" where
  "write_event fresh e sp =
     and_then (case env_event_type e of
                 None \<Rightarrow> Inr ()
               | Some ty \<Rightarrow> validate_payload_keys ty (map fst (env_payload e) @ map fst (env_payload_ints e) @
                   env_payload_other e))
       (\<lambda>_. let e1 = (if env_schema_version e = None then e\<lparr>env_schema_version := Some 1\<rparr> else e);
                e2 = (if env_event_id e1 = None then e1\<lparr>env_event_id := Some fresh\<rparr> else e1)
            in Inr (sp\<lparr>sp_inbox := put (the (env_event_id e2) @ ''.json'') (Json e2) (sp_inbox sp)\<rparr>))"

section \<open>Extracting ids\<close>

fun first_some :: "string option list \<Rightarrow> string option" where
  "first_some [] = None"
| "first_some (None # xs) = first_some xs"
| "first_some (Some v # xs) = Some v"

record correlation_ids =
  ci_session :: "string option"
  ci_project :: "string option"
  ci_workflow :: "string option"
  ci_skill :: "string option"
  ci_agent :: "string option"
  ci_hook :: "string option"
  ci_tool :: "string option"
  ci_correlation :: "string option"

definition extract_correlation_ids :: "envelope \<Rightarrow> correlation_ids" where
  "extract_correlation_ids e =
     (let trace = map_of (env_trace e); payload = map_of (env_payload e);
          session_id = first_some [env_session_id e, trace ''session_id'', payload ''session_id''];
          project_id = first_some [env_project_id e, trace ''project_id'', payload ''project_id''];
          workflow_id = first_some [trace ''workflow_id'', trace ''stream_id'', payload ''workflow_id''];
          skill_id = first_some [trace ''skill_id'', trace ''skill_specifier''];
          agent_id = first_some [trace ''agent_id'', payload ''agent_id''];
          hook_id = trace ''hook_id'';
          tool_id = trace ''tool_id''
      in \<lparr>ci_session = session_id, ci_project = project_id, ci_workflow = workflow_id,
          ci_skill = skill_id, ci_agent = agent_id, ci_hook = hook_id, ci_tool = tool_id,
          ci_correlation = compose (\<lambda>k. case map_of [(''session'', session_id), (''workflow'', workflow_id),
             (''skill'', skill_id), (''agent'', agent_id), (''hook'', hook_id), (''tool'', tool_id)] k of
               None \<Rightarrow> None | Some v \<Rightarrow> v)\<rparr>)"

section \<open>The canonical rows\<close>

text \<open>The columns the INSERT writes, for an envelope that has the required fields.\<close>

definition canonical_row :: "envelope \<Rightarrow> event" where
  "canonical_row e =
     (let ids = extract_correlation_ids e; trace = map_of (env_trace e) in
      \<lparr>ev_id = the (env_event_id e), ev_type = the (env_event_type e),
       ev_timestamp = the (env_timestamp e), ev_trace = env_trace e, ev_payload = env_payload e,
       ev_payload_ints = env_payload_ints e, ev_correlation_id = ci_correlation ids,
       ev_project_id = py_or (ci_project ids) (trace ''project_id''),
       ev_milestone_id = trace ''milestone_id'', ev_work_order_id = trace ''work_order_id'',
       ev_task_id = trace ''task_id''\<rparr>)"

definition ai_row :: "envelope \<Rightarrow> event" where
  "ai_row e = (canonical_row e)\<lparr>ev_project_id := ci_project (extract_correlation_ids e),
     ev_milestone_id := None, ev_work_order_id := None, ev_task_id := None\<rparr>"

definition write_to_dual_canonical :: "envelope \<Rightarrow> spool \<Rightarrow> spool" where
  "write_to_dual_canonical e sp =
     (let routes = get_routes (the (env_event_type e)); i = the (env_event_id e);
          sp1 = (if Business \<in> set routes
                 then sp\<lparr>sp_business := insert_or_ignore i (canonical_row e) (sp_business sp)\<rparr> else sp)
      in if AI \<in> set routes then sp1\<lparr>sp_ai := insert_or_ignore i (ai_row e) (sp_ai sp1)\<rparr> else sp1)"

definition write_to_raw :: "envelope \<Rightarrow> spool \<Rightarrow> spool" where
  "write_to_raw e sp = sp\<lparr>sp_raw := insert_or_ignore (the (env_event_id e)) e (sp_raw sp)\<rparr>"

section \<open>Ingesting one file\<close>

datatype ingest_exc = FileNotFound | Locked string | OperationalError string | OtherError string

record faults =
  raw_fault :: "string \<Rightarrow> ingest_exc option"
  canonical_fault :: "string \<Rightarrow> ingest_exc option"

record ingest_result =
  ir_processed :: nat
  ir_failed :: nat
  ir_skipped :: nat
  ir_lock_error :: bool

definition required_fields_missing :: "envelope \<Rightarrow> bool" where
  "required_fields_missing e \<longleftrightarrow> env_event_id e = None \<or> env_event_type e = None \<or>
     env_timestamp e = None \<or> env_schema_version e = None"

definition lower_alnum_hyphen :: "char \<Rightarrow> bool" where
  "lower_alnum_hyphen c = (let n = (of_char c :: nat) in
     (97 \<le> n \<and> n \<le> 122) \<or> (48 \<le> n \<and> n \<le> 57) \<or> c = CHR ''-'')"

text \<open>\<open>_SKILL_ID_RE.match\<close>, with \<open>$\<close> before a final newline.\<close>

definition skill_id_ok :: "string \<Rightarrow> bool" where
  "skill_id_ok s =
     (let u = (if s \<noteq> [] \<and> last s = newline then butlast s else s) in
      prefix ''ds-'' u \<and>
      (case drop 3 u of
         [] \<Rightarrow> False
       | c # r \<Rightarrow> 97 \<le> (of_char c :: nat) \<and> (of_char c :: nat) \<le> 122 \<and> list_all lower_alnum_hyphen r))"

definition skill_id_of :: "envelope \<Rightarrow> string" where
  "skill_id_of e = the (py_or (env_skill_id e) (py_or (map_of (env_trace e) ''skill_id'')
     (py_or (map_of (env_trace e) ''skill_specifier'') (Some []))))"

text \<open>Moving a file to failed: the reason is always written, the move of a missing source is
  an OSError that is swallowed. The two variants name the directory of the source.\<close>

definition fail_from_processing :: "string \<Rightarrow> string \<Rightarrow> spool \<Rightarrow> spool" where
  "fail_from_processing name reason sp =
     (let sp1 = sp\<lparr>sp_reasons := put name reason (sp_reasons sp)\<rparr> in
      case map_of (sp_processing sp1) name of
        None \<Rightarrow> sp1
      | Some f \<Rightarrow> sp1\<lparr>sp_processing := remove name (sp_processing sp1), sp_failed := put name f (sp_failed sp1)\<rparr>)"

definition fail_from_inbox :: "string \<Rightarrow> string \<Rightarrow> spool \<Rightarrow> spool" where
  "fail_from_inbox name reason sp =
     (let sp1 = sp\<lparr>sp_reasons := put name reason (sp_reasons sp)\<rparr> in
      case map_of (sp_inbox sp1) name of
        None \<Rightarrow> sp1
      | Some f \<Rightarrow> sp1\<lparr>sp_inbox := remove name (sp_inbox sp1), sp_failed := put name f (sp_failed sp1)\<rparr>)"

text \<open>\<open>_process_one\<close>: the new state, the new counts and the exception that escapes, if any.\<close>

definition process_one ::
    "faults \<Rightarrow> string \<Rightarrow> spool \<times> ingest_result \<Rightarrow> (spool \<times> ingest_result) \<times> ingest_exc option" where
  "process_one fl name s =
     (let (sp, res) = s in
      case map_of (sp_inbox sp) name of
        None \<Rightarrow> (s, Some FileNotFound)
      | Some f \<Rightarrow>
          let sp1 = sp\<lparr>sp_inbox := remove name (sp_inbox sp), sp_processing := put name f (sp_processing sp)\<rparr>;
              reject = (\<lambda>reason. ((fail_from_processing name reason sp1, res\<lparr>ir_failed := ir_failed res + 1\<rparr>), None))
          in case f of
            Garbage \<Rightarrow> reject ''parse_error''
          | NotObject \<Rightarrow> ((sp1, res), Some (OtherError ''AttributeError''))
          | Json e \<Rightarrow>
              if required_fields_missing e then reject ''missing_fields''
              else if env_event_type e = Some ''skill.invoked'' \<and> \<not> skill_id_ok (skill_id_of e)
              then reject ''malformed_skill_id''
              else (case raw_fault fl name of
                Some exc \<Rightarrow>
                  ((sp1\<lparr>sp_processing := remove name (sp_processing sp1), sp_inbox := put name f (sp_inbox sp1)\<rparr>, res),
                   Some exc)
              | None \<Rightarrow>
                  let sp2 = write_to_raw e sp1 in
                  (case canonical_fault fl name of
                     Some exc \<Rightarrow> ((sp2, res), Some exc)
                   | None \<Rightarrow>
                       let sp3 = write_to_dual_canonical e sp2 in
                       ((sp3\<lparr>sp_processing := remove name (sp_processing sp3),
                             sp_processed := put name f (sp_processed sp3)\<rparr>,
                         res\<lparr>ir_processed := ir_processed res + 1\<rparr>), None))))"

section \<open>A run\<close>

text \<open>The body of the loop of \<open>ingest\<close> with its exception handlers.\<close>

definition ingest_file :: "faults \<Rightarrow> string \<Rightarrow> spool \<times> ingest_result \<Rightarrow> spool \<times> ingest_result" where
  "ingest_file fl name s =
     (case process_one fl name s of
        ((sp, res), None) \<Rightarrow> (sp, res)
      | ((sp, res), Some (Locked m)) \<Rightarrow> (sp, res\<lparr>ir_lock_error := True, ir_skipped := ir_skipped res + 1\<rparr>)
      | ((sp, res), Some (OperationalError m)) \<Rightarrow>
          (fail_from_inbox name (''sqlite_error: '' @ m) sp, res\<lparr>ir_failed := ir_failed res + 1\<rparr>)
      | ((sp, res), Some FileNotFound) \<Rightarrow> (sp, res\<lparr>ir_skipped := ir_skipped res + 1\<rparr>)
      | ((sp, res), Some (OtherError m)) \<Rightarrow>
          (fail_from_inbox name m sp, res\<lparr>ir_failed := ir_failed res + 1\<rparr>))"

definition pending_files :: "spool \<Rightarrow> string list" where
  "pending_files sp = sort (filter (\<lambda>n. py_endswith n ''.json'') (keys (sp_inbox sp)))"

definition ingest :: "faults \<Rightarrow> spool \<Rightarrow> spool \<times> ingest_result" where
  "ingest fl sp =
     fold (ingest_file fl) (pending_files sp)
       (sp, \<lparr>ir_processed = 0, ir_failed = 0, ir_skipped = 0, ir_lock_error = False\<rparr>)"

section \<open>What becomes of a file\<close>

text \<open>Where a run leaves a file, from its content and the faults of the run alone.\<close>

datatype verdict = Rejected | Retried | FailedRaw | Stranded | Ingested

definition verdict :: "faults \<Rightarrow> string \<Rightarrow> spool_file \<Rightarrow> verdict" where
  "verdict fl name f =
     (case f of
        Garbage \<Rightarrow> Rejected
      | NotObject \<Rightarrow> Stranded
      | Json e \<Rightarrow>
          if required_fields_missing e \<or>
             env_event_type e = Some ''skill.invoked'' \<and> \<not> skill_id_ok (skill_id_of e) then Rejected
          else (case raw_fault fl name of
                  Some exc \<Rightarrow> (case exc of Locked m \<Rightarrow> Retried | FileNotFound \<Rightarrow> Retried | _ \<Rightarrow> FailedRaw)
                | None \<Rightarrow> if canonical_fault fl name = None then Ingested else Stranded))"

text \<open>The four directories as one file's name sees them.\<close>

definition place :: "spool \<Rightarrow> string \<Rightarrow> spool_file option \<times> spool_file option \<times> spool_file option \<times> spool_file option" where
  "place sp n = (map_of (sp_inbox sp) n, map_of (sp_processing sp) n, map_of (sp_processed sp) n,
     map_of (sp_failed sp) n)"

definition settled :: "verdict \<Rightarrow> spool_file \<Rightarrow> string \<Rightarrow> spool \<Rightarrow> spool \<Rightarrow> bool" where
  "settled v f n sp sp' \<longleftrightarrow>
     (case v of
        Rejected \<Rightarrow> place sp' n = (None, None, map_of (sp_processed sp) n, Some f)
      | FailedRaw \<Rightarrow> place sp' n = (None, None, map_of (sp_processed sp) n, Some f)
      | Retried \<Rightarrow> place sp' n = (Some f, None, map_of (sp_processed sp) n, map_of (sp_failed sp) n)
      | Stranded \<Rightarrow> place sp' n = (None, Some f, map_of (sp_processed sp) n, map_of (sp_failed sp) n)
      | Ingested \<Rightarrow> place sp' n = (None, None, Some f, map_of (sp_failed sp) n))"

lemma dual_canonical_frame [simp]:
  "sp_inbox (write_to_dual_canonical e sp) = sp_inbox sp"
  "sp_processing (write_to_dual_canonical e sp) = sp_processing sp"
  "sp_processed (write_to_dual_canonical e sp) = sp_processed sp"
  "sp_failed (write_to_dual_canonical e sp) = sp_failed sp"
  "sp_raw (write_to_dual_canonical e sp) = sp_raw sp"
  by (simp_all add: write_to_dual_canonical_def Let_def)

lemma raw_frame [simp]:
  "sp_inbox (write_to_raw e sp) = sp_inbox sp" "sp_processing (write_to_raw e sp) = sp_processing sp"
  "sp_processed (write_to_raw e sp) = sp_processed sp" "sp_failed (write_to_raw e sp) = sp_failed sp"
  "sp_business (write_to_raw e sp) = sp_business sp" "sp_ai (write_to_raw e sp) = sp_ai sp"
  by (simp_all add: write_to_raw_def)

lemma fail_frame [simp]:
  "sp_business (fail_from_processing n r sp) = sp_business sp" "sp_ai (fail_from_processing n r sp) = sp_ai sp"
  "sp_raw (fail_from_processing n r sp) = sp_raw sp"
  "sp_business (fail_from_inbox n r sp) = sp_business sp" "sp_ai (fail_from_inbox n r sp) = sp_ai sp"
  "sp_raw (fail_from_inbox n r sp) = sp_raw sp"
  by (simp_all add: fail_from_processing_def fail_from_inbox_def Let_def split: option.split)

lemma place_fail [simp]:
  "place (fail_from_processing n r sp) j =
     (if j = n \<and> map_of (sp_processing sp) n \<noteq> None
      then (map_of (sp_inbox sp) n, None, map_of (sp_processed sp) n, map_of (sp_processing sp) n)
      else place sp j)"
  "place (fail_from_inbox n r sp) j =
     (if j = n \<and> map_of (sp_inbox sp) n \<noteq> None
      then (None, map_of (sp_processing sp) n, map_of (sp_processed sp) n, map_of (sp_inbox sp) n)
      else place sp j)"
  by (auto simp: place_def fail_from_processing_def fail_from_inbox_def Let_def split: option.split)

lemma ingest_file_absent:
  "map_of (sp_inbox sp) n = None \<Longrightarrow>
     ingest_file fl n (sp, res) = (sp, res\<lparr>ir_skipped := ir_skipped res + 1\<rparr>)"
  by (simp add: ingest_file_def process_one_def)

text \<open>The state after one file, case by case.\<close>

lemma ingest_file_place:
  assumes "map_of (sp_inbox sp) n = Some f"
  shows "settled (verdict fl n f) f n sp (fst (ingest_file fl n (sp, res)))"
proof (cases f)
  case (Json e)
  show ?thesis
  proof (cases "required_fields_missing e \<or>
      env_event_type e = Some ''skill.invoked'' \<and> \<not> skill_id_ok (skill_id_of e)")
    case True
    with assms Json show ?thesis
      by (auto simp: ingest_file_def process_one_def verdict_def settled_def Let_def)
  next
    case ok: False
    show ?thesis
    proof (cases "raw_fault fl n")
      case (Some exc)
      with assms Json ok show ?thesis
        by (cases exc) (auto simp: ingest_file_def process_one_def verdict_def settled_def Let_def place_def
            fail_from_inbox_def)
    next
      case None
      with assms Json ok show ?thesis
      proof (cases "canonical_fault fl n")
        case (Some exc)
        with assms Json ok None show ?thesis
          by (cases exc) (auto simp: ingest_file_def process_one_def verdict_def settled_def Let_def place_def
              fail_from_inbox_def)
      qed (auto simp: ingest_file_def process_one_def verdict_def settled_def Let_def place_def)
    qed
  qed
qed (use assms in \<open>auto simp: ingest_file_def process_one_def verdict_def settled_def Let_def place_def
      fail_from_inbox_def fail_from_processing_def\<close>)

lemma ingest_file_cases:
  obtains (absent) "map_of (sp_inbox sp) n = None"
      "ingest_file fl n (sp, res) = (sp, res\<lparr>ir_skipped := ir_skipped res + 1\<rparr>)"
  | (written) e where "map_of (sp_inbox sp) n = Some (Json e)"
      "\<not> required_fields_missing e" "verdict fl n (Json e) = Ingested"
      "fst (ingest_file fl n (sp, res)) =
         (let sp1 = write_to_dual_canonical e (write_to_raw e (sp\<lparr>sp_inbox := remove n (sp_inbox sp),
                sp_processing := put n (Json e) (sp_processing sp)\<rparr>))
          in sp1\<lparr>sp_processing := remove n (sp_processing sp1), sp_processed := put n (Json e) (sp_processed sp1)\<rparr>)"
  | (unwritten) f where "map_of (sp_inbox sp) n = Some f" "verdict fl n f \<noteq> Ingested"
      "sp_business (fst (ingest_file fl n (sp, res))) = sp_business sp"
      "sp_ai (fst (ingest_file fl n (sp, res))) = sp_ai sp"
proof (cases "map_of (sp_inbox sp) n")
  case None
  with absent ingest_file_absent show ?thesis by blast
next
  case (Some f)
  show ?thesis
  proof (cases "verdict fl n f = Ingested")
    case True
    then obtain e where e: "f = Json e" "\<not> required_fields_missing e" "raw_fault fl n = None"
      "canonical_fault fl n = None" "\<not> (env_event_type e = Some ''skill.invoked'' \<and> \<not> skill_id_ok (skill_id_of e))"
      by (auto simp: verdict_def split: spool_file.splits if_splits option.splits ingest_exc.splits)
    show ?thesis
      by (rule written [of e]) (use e Some True in \<open>auto simp: ingest_file_def process_one_def Let_def\<close>)
  next
    case False
    have "sp_business (fst (ingest_file fl n (sp, res))) = sp_business sp \<and>
        sp_ai (fst (ingest_file fl n (sp, res))) = sp_ai sp"
      using False Some
      by (auto simp: ingest_file_def process_one_def verdict_def Let_def
          split: spool_file.splits option.splits ingest_exc.splits)
    with unwritten Some False show ?thesis by blast
  qed
qed

lemma fail_place:
  "j \<noteq> n \<Longrightarrow> place (fail_from_processing n reason sp) j = place sp j"
  "j \<noteq> n \<Longrightarrow> place (fail_from_inbox n reason sp) j = place sp j"
  by (simp_all add: fail_from_processing_def fail_from_inbox_def place_def Let_def split: option.split)

lemma process_one_frame: "j \<noteq> n \<Longrightarrow> place (fst (fst (process_one fl n s))) j = place (fst s) j"
  by (simp add: process_one_def Let_def case_prod_unfold place_def split: option.split spool_file.split)
    (simp add: fail_from_processing_def Let_def split: option.split)

lemma ingest_file_frame:
  assumes "j \<noteq> n"
  shows "place (fst (ingest_file fl n (sp, res))) j = place sp j"
  using process_one_frame [OF assms, of fl "(sp, res)"] assms
  by (cases "process_one fl n (sp, res)") (auto simp: ingest_file_def fail_place split: option.split ingest_exc.split)

lemma insert_or_ignore_keeps:
  "map_of t i = Some r \<Longrightarrow> map_of (insert_or_ignore k x t) i = Some r"
  by (auto simp: map_of_insert_or_ignore)

lemma dual_canonical_rows:
  "map_of (sp_business sp) i = Some r \<Longrightarrow> map_of (sp_business (write_to_dual_canonical e sp)) i = Some r"
  "map_of (sp_ai sp) i = Some r \<Longrightarrow> map_of (sp_ai (write_to_dual_canonical e sp)) i = Some r"
  "distinct (keys (sp_business sp)) \<Longrightarrow> distinct (keys (sp_business (write_to_dual_canonical e sp)))"
  "distinct (keys (sp_ai sp)) \<Longrightarrow> distinct (keys (sp_ai (write_to_dual_canonical e sp)))"
  by (auto simp: write_to_dual_canonical_def Let_def insert_or_ignore_keeps)

lemma ingest_file_rows:
  "map_of (sp_business sp) i = Some r \<Longrightarrow>
     map_of (sp_business (fst (ingest_file fl n (sp, res)))) i = Some r"
  "map_of (sp_ai sp) i = Some r \<Longrightarrow> map_of (sp_ai (fst (ingest_file fl n (sp, res)))) i = Some r"
  "distinct (keys (sp_business sp)) \<Longrightarrow> distinct (keys (sp_business (fst (ingest_file fl n (sp, res)))))"
  by (cases rule: ingest_file_cases [of sp n fl res]; simp add: Let_def dual_canonical_rows)+

lemma ingest_file_counts:
  "ir_processed (snd (ingest_file fl n (sp, res))) + ir_failed (snd (ingest_file fl n (sp, res))) +
     ir_skipped (snd (ingest_file fl n (sp, res))) =
   ir_processed res + ir_failed res + ir_skipped res + 1"
  by (auto simp: ingest_file_def process_one_def Let_def
      split: spool_file.splits option.splits ingest_exc.splits)

text \<open>The row an ingested file leaves in the business table.\<close>

lemma ingest_file_business:
  assumes "map_of (sp_inbox sp) n = Some (Json e)" and "verdict fl n (Json e) = Ingested"
    and "Business \<in> set (get_routes (the (env_event_type e)))"
  shows "map_of (sp_business (fst (ingest_file fl n (sp, res)))) (the (env_event_id e)) =
    (case map_of (sp_business sp) (the (env_event_id e)) of None \<Rightarrow> Some (canonical_row e) | Some r \<Rightarrow> Some r)"
  using assms(1)
proof (cases rule: ingest_file_cases [of sp n fl res])
  case (written e')
  with assms show ?thesis
    by (simp add: Let_def write_to_dual_canonical_def map_of_insert_or_ignore)
qed (use assms in auto)

section \<open>Runs\<close>

lemma fold_frame:
  "n \<notin> set ns \<Longrightarrow> place (fst (fold (ingest_file fl) ns s)) n = place (fst s) n"
proof (induction ns arbitrary: s)
  case (Cons a ns)
  then show ?case
    using ingest_file_frame [of n a fl "fst s" "snd s"] Cons.IH [of "ingest_file fl a s"] by simp
qed simp

lemma fold_rows:
  "map_of (sp_business (fst s)) i = Some r \<Longrightarrow> map_of (sp_business (fst (fold (ingest_file fl) ns s))) i = Some r"
proof (induction ns arbitrary: s)
  case (Cons a ns)
  then show ?case
    using ingest_file_rows(1) [of "fst s" i r fl a "snd s"] Cons.IH [of "ingest_file fl a s"] by simp
qed simp

lemma fold_counts:
  "ir_processed (snd (fold (ingest_file fl) ns s)) + ir_failed (snd (fold (ingest_file fl) ns s)) +
     ir_skipped (snd (fold (ingest_file fl) ns s)) =
   ir_processed (snd s) + ir_failed (snd s) + ir_skipped (snd s) + length ns"
proof (induction ns arbitrary: s)
  case (Cons n ns)
  then show ?case
    using ingest_file_counts [of fl n "fst s" "snd s"] by simp
qed simp

lemma place_inbox: "place sp n = place sp' n \<Longrightarrow> map_of (sp_inbox sp) n = map_of (sp_inbox sp') n"
  by (simp add: place_def)

lemma settled_place: "place sp n = place sp0 n \<Longrightarrow> place sp2 n = place sp1 n \<Longrightarrow>
    settled v f n sp sp1 \<Longrightarrow> settled v f n sp0 sp2"
  by (simp add: settled_def place_def split: verdict.splits)

lemma fold_settles:
  assumes "distinct ns" and "n \<in> set ns" and "map_of (sp_inbox (fst s)) n = Some f"
  shows "settled (verdict fl n f) f n (fst s) (fst (fold (ingest_file fl) ns s))"
proof -
  from assms(2) obtain xs ys where ns: "ns = xs @ n # ys"
    by (auto simp: in_set_conv_decomp)
  obtain sp1 r1 where s1: "fold (ingest_file fl) xs s = (sp1, r1)"
    by force
  obtain sp2 r2 where s2: "ingest_file fl n (sp1, r1) = (sp2, r2)"
    by force
  from assms(1) ns have "n \<notin> set xs" "n \<notin> set ys"
    by auto
  then have b: "place sp1 n = place (fst s) n"
    and a: "place (fst (fold (ingest_file fl) ys (sp2, r2))) n = place sp2 n"
    using fold_frame [of n xs fl s] fold_frame [of n ys fl "(sp2, r2)"] s1 by simp_all
  have "settled (verdict fl n f) f n sp1 sp2"
    using ingest_file_place [of sp1 n f fl r1] place_inbox [OF b] assms(3) s2 by simp
  with settled_place [OF b a] show ?thesis
    using ns s1 s2 by simp
qed

definition carries :: "spool_file \<Rightarrow> string \<Rightarrow> bool" where
  "carries f i \<longleftrightarrow> (\<exists>e. f = Json e \<and> env_event_id e = Some i)"

lemma ingest_file_other_row:
  assumes "\<And>f. map_of (sp_inbox sp) n = Some f \<Longrightarrow> \<not> carries f i"
  shows "map_of (sp_business (fst (ingest_file fl n (sp, res)))) i = map_of (sp_business sp) i"
proof (cases rule: ingest_file_cases [of sp n fl res])
  case (written e)
  then have "the (env_event_id e) \<noteq> i"
    using assms [of "Json e"] by (auto simp: carries_def required_fields_missing_def)
  with written show ?thesis
    by (simp add: Let_def write_to_dual_canonical_def map_of_insert_or_ignore)
qed simp_all

lemma fold_other_row:
  assumes "distinct ns" and "\<And>n f. n \<in> set ns \<Longrightarrow> map_of (sp_inbox (fst s)) n = Some f \<Longrightarrow> \<not> carries f i"
  shows "map_of (sp_business (fst (fold (ingest_file fl) ns s))) i = map_of (sp_business (fst s)) i"
  using assms
proof (induction ns arbitrary: s)
  case (Cons n ns)
  let ?s = "ingest_file fl n s"
  have "map_of (sp_inbox (fst ?s)) m = map_of (sp_inbox (fst s)) m" if "m \<in> set ns" for m
  proof -
    have "m \<noteq> n"
      using that Cons.prems(1) by auto
    from place_inbox [OF ingest_file_frame [OF this, of fl "fst s" "snd s"]] show ?thesis
      by simp
  qed
  then have "map_of (sp_business (fst (fold (ingest_file fl) ns ?s))) i = map_of (sp_business (fst ?s)) i"
    using Cons.prems by (intro Cons.IH) auto
  moreover have "map_of (sp_business (fst ?s)) i = map_of (sp_business (fst s)) i"
    using ingest_file_other_row [of "fst s" n i fl "snd s"] Cons.prems(2) [of n] by simp
  ultimately show ?case by simp
qed simp

lemma ingest_business_row:
  assumes "distinct ns" and "n \<in> set ns" and "map_of (sp_inbox (fst s)) n = Some (Json e)"
    and "verdict fl n (Json e) = Ingested" and "Business \<in> set (get_routes (the (env_event_type e)))"
    and "\<And>m f. m \<noteq> n \<Longrightarrow> map_of (sp_inbox (fst s)) m = Some f \<Longrightarrow> \<not> carries f (the (env_event_id e))"
    and "map_of (sp_business (fst s)) (the (env_event_id e)) = None"
  shows "map_of (sp_business (fst (fold (ingest_file fl) ns s))) (the (env_event_id e)) = Some (canonical_row e)"
proof -
  let ?i = "the (env_event_id e)"
  from assms(2) obtain xs ys where ns: "ns = xs @ n # ys"
    by (auto simp: in_set_conv_decomp)
  obtain sp1 r1 where s1: "fold (ingest_file fl) xs s = (sp1, r1)"
    by force
  have d: "distinct xs" "n \<notin> set xs"
    using assms(1) ns by auto
  have "map_of (sp_business sp1) ?i = None"
    using fold_other_row [OF d(1), of s ?i fl] assms(6,7) d(2) s1 by (metis fst_conv)
  moreover have "map_of (sp_inbox sp1) n = Some (Json e)"
    using place_inbox [OF fold_frame [OF d(2), of fl s]] s1 assms(3) by simp
  ultimately have "map_of (sp_business (fst (ingest_file fl n (sp1, r1)))) ?i = Some (canonical_row e)"
    using ingest_file_business [of sp1 n e fl r1] assms(4,5) by simp
  then show ?thesis
    using fold_rows [of "ingest_file fl n (sp1, r1)"] by (simp add: ns s1)
qed

lemma pending_facts:
  assumes "distinct (keys (sp_inbox sp))"
  shows "distinct (pending_files sp)"
    and "n \<in> set (pending_files sp) \<longleftrightarrow> py_endswith n ''.json'' \<and> map_of (sp_inbox sp) n \<noteq> None"
  using assms by (auto simp: pending_files_def map_of_eq_None_iff)

definition no_faults :: faults where
  "no_faults = \<lparr>raw_fault = (\<lambda>_. None), canonical_fault = (\<lambda>_. None)\<rparr>"

definition empty_spool :: spool where
  "empty_spool = \<lparr>sp_inbox = [], sp_processing = [], sp_processed = [], sp_failed = [], sp_reasons = [],
     sp_raw = [], sp_business = [], sp_ai = []\<rparr>"

definition sample_envelope :: "string \<Rightarrow> string \<Rightarrow> envelope" where
  "sample_envelope i ty = \<lparr>env_event_id = Some i, env_event_type = Some ty, env_timestamp = Some ''2026'',
     env_schema_version = Some 1, env_session_id = None, env_project_id = None, env_skill_id = None,
     env_trace = [(''task_id'', ''k1'')], env_payload = [], env_payload_ints = [], env_payload_other = []\<rparr>"

section \<open>Properties\<close>

text \<open>A run accounts for every file. Whatever the files hold and whichever writes raise, each
  pending file ends exactly where its content and its faults say: malformed files and files whose
  raw write fails for good are in failed, files that met a locked database are back in the inbox,
  ingested files are in processed, and files whose canonical write raised are left in processing;
  no other file moves, and the counts add up to the number of pending files.\<close>

theorem ingest_settles:
  assumes "distinct (keys (sp_inbox sp))"
  shows "(\<forall>n f. map_of (sp_inbox sp) n = Some f \<and> py_endswith n ''.json'' \<longrightarrow>
      settled (verdict fl n f) f n sp (fst (ingest fl sp))) \<and>
    (\<forall>n. n \<notin> set (pending_files sp) \<longrightarrow> place (fst (ingest fl sp)) n = place sp n) \<and>
    ir_processed (snd (ingest fl sp)) + ir_failed (snd (ingest fl sp)) + ir_skipped (snd (ingest fl sp)) =
      length (pending_files sp)"
proof (intro conjI allI impI)
  fix n f assume "map_of (sp_inbox sp) n = Some f \<and> py_endswith n ''.json''"
  then show "settled (verdict fl n f) f n sp (fst (ingest fl sp))"
    unfolding ingest_def
    using fold_settles [OF pending_facts(1) [OF assms], of n "(sp, r)" f fl for r] pending_facts(2) [OF assms, of n]
    by simp
next
  fix n assume "n \<notin> set (pending_files sp)"
  then show "place (fst (ingest fl sp)) n = place sp n"
    unfolding ingest_def using fold_frame by simp
next
  show "ir_processed (snd (ingest fl sp)) + ir_failed (snd (ingest fl sp)) + ir_skipped (snd (ingest fl sp)) =
      length (pending_files sp)"
    unfolding ingest_def using fold_counts [of fl "pending_files sp"] by simp
qed

theorem ingest_settles_witness:
  "place (fst (ingest no_faults (empty_spool\<lparr>sp_inbox := [(''a.json'', Garbage)]\<rparr>))) ''a.json'' =
     (None, None, None, Some Garbage)"
proof -
  have "settled (verdict no_faults ''a.json'' Garbage) Garbage ''a.json''
      (empty_spool\<lparr>sp_inbox := [(''a.json'', Garbage)]\<rparr>)
      (fst (ingest no_faults (empty_spool\<lparr>sp_inbox := [(''a.json'', Garbage)]\<rparr>)))"
    by (rule ingest_settles [THEN conjunct1, rule_format])
      (simp_all add: empty_spool_def py_endswith_def suffix_to_prefix)
  then show ?thesis
    by (simp add: settled_def verdict_def empty_spool_def)
qed



text \<open>A file whose canonical write raises is stranded. It stays in processing, and no later
  run, under whatever faults, picks it up again or moves it, because runs read the inbox only;
  so neither a locked database is retried nor the file moved to failed for triage.\<close>

theorem stranded_forever:
  assumes "distinct (keys (sp_inbox sp))" and "map_of (sp_inbox sp) n = Some f"
    and "py_endswith n ''.json''" and "verdict fl n f = Stranded"
  shows "map_of (sp_processing (fold (\<lambda>fl sp. fst (ingest fl sp)) fls (fst (ingest fl sp)))) n = Some f"
proof -
  have n: "place (fst (ingest fl sp)) n = (None, Some f, map_of (sp_processed sp) n, map_of (sp_failed sp) n)"
    using fold_settles [OF pending_facts(1) [OF assms(1)], of n "(sp, r)" f fl for r]
      pending_facts(2) [OF assms(1), of n] assms(2-4)
    by (simp add: ingest_def settled_def)
  have "place (fold (\<lambda>fl sp. fst (ingest fl sp)) fls sp') n = place sp' n"
    if "map_of (sp_inbox sp') n = None" for sp'
    using that
  proof (induction fls arbitrary: sp')
    case (Cons g fls)
    have "n \<notin> set (pending_files sp')"
      using Cons.prems by (auto simp: pending_files_def map_of_eq_None_iff)
    then have p: "place (fst (ingest g sp')) n = place sp' n"
      unfolding ingest_def using fold_frame by simp
    with Cons.IH [of "fst (ingest g sp')"] place_inbox [OF p] Cons.prems show ?case
      by simp
  qed simp
  with n have "place (fold (\<lambda>fl sp. fst (ingest fl sp)) fls (fst (ingest fl sp))) n =
      (None, Some f, map_of (sp_processed sp) n, map_of (sp_failed sp) n)"
    by (simp add: place_def)
  then show ?thesis
    by (simp add: place_def)
qed

theorem stranded_forever_witness:
  "map_of (sp_processing (fst (ingest no_faults (fst (ingest
      \<lparr>raw_fault = (\<lambda>_. None), canonical_fault = (\<lambda>_. Some (Locked ''database is locked''))\<rparr>
      (empty_spool\<lparr>sp_inbox := [(''a.json'', Json (sample_envelope ''a'' ''task.created''))]\<rparr>)))))) ''a.json'' =
   Some (Json (sample_envelope ''a'' ''task.created''))"
  using stranded_forever [of "empty_spool\<lparr>sp_inbox := [(''a.json'', Json (sample_envelope ''a'' ''task.created''))]\<rparr>"
      "''a.json''" "Json (sample_envelope ''a'' ''task.created'')"
      "\<lparr>raw_fault = (\<lambda>_. None), canonical_fault = (\<lambda>_. Some (Locked ''database is locked''))\<rparr>" "[no_faults]"]
  by (simp add: empty_spool_def verdict_def py_endswith_def suffix_to_prefix sample_envelope_def
      required_fields_missing_def)

end
