(* ===== verification/Projection_Engine.thy ===== *)
theory Projection_Engine
  imports Milestone_Projection
begin

text \<open>
  The projection engine: \<^verbatim>\<open>core/projections/framework_shared.py\<close> (\<open>RetryPolicy\<close>),
  \<^verbatim>\<open>framework_events.py\<close> (\<open>_build_type_filter\<close>), \<^verbatim>\<open>framework_engine_dispatch.py\<close>,
  \<^verbatim>\<open>framework_engine_retry.py\<close>, \<^verbatim>\<open>framework_engine_rebuild.py\<close> and \<^verbatim>\<open>framework_engine.py\<close>
  (\<open>run_cycle\<close>). The engine is polymorphic in the database \<open>'s\<close> its projections write.

  Times that are only compared and added to (the retry schedule) are integers, microseconds;
  the ISO strings the source stores order the same way. The clock is a parameter: the reading
  at the start of the retry pass, the reading at which each event is handled, and the
  formatting the handlers use. Canonical tables are lists in rowid order, and ORDER BY
  \<^verbatim>\<open>event_timestamp\<close> is the stable sort.
\<close>

section \<open>Configuration and state\<close>

record retry_policy =
  max_retries :: nat
  base_delay_us :: int
  backoff_factor :: int

definition delay_for :: "retry_policy \<Rightarrow> nat \<Rightarrow> int" where
  "delay_for p attempt = base_delay_us p * backoff_factor p ^ attempt"

definition next_retry_at :: "retry_policy \<Rightarrow> int \<Rightarrow> nat \<Rightarrow> int" where
  "next_retry_at p now attempt = now + delay_for p attempt"

record clock =
  iso :: "int \<Rightarrow> string"
  reading :: "event \<Rightarrow> int"
  pass_start :: int

record 's projection =
  pr_name :: string
  pr_types :: "string list"
  pr_source :: canonical_source
  pr_policy :: retry_policy
  pr_handle :: "string \<Rightarrow> event \<Rightarrow> 's \<Rightarrow> py_error + nat \<times> 's"
  pr_pre_rebuild :: "'s \<Rightarrow> 's"

text \<open>A row of \<^verbatim>\<open>projection_state\<close>.\<close>

record proj_state =
  last_business :: "string option"
  last_ai :: "string option"
  last_run_at :: "int option"
  events_processed_total :: nat
  events_failed_total :: nat

definition proj_state_default :: proj_state where
  "proj_state_default = \<lparr>last_business = None, last_ai = None, last_run_at = None,
     events_processed_total = 0, events_failed_total = 0\<rparr>"

text \<open>A row of \<^verbatim>\<open>projection_retry_queue\<close>; the id is its AUTOINCREMENT key.\<close>

record retry_row =
  rq_id :: nat
  rq_event :: string
  rq_source :: canonical_source
  rq_projection :: string
  rq_next :: int
  rq_count :: nat

record dead_row =
  dl_event :: string
  dl_source :: canonical_source
  dl_projection :: string
  dl_error :: py_error
  dl_failed_at :: int
  dl_retry_count :: nat
  dl_last_retry_at :: int
  dl_status :: string

record 's engine =
  en_db :: 's
  en_business :: "event list"
  en_ai :: "event list"
  en_state :: "proj_state table"
  en_retry :: "retry_row list"
  en_next_id :: nat
  en_dead :: "dead_row list"

text \<open>The part of \<open>ProjectionResult\<close> that is not a duration.\<close>

record run_result =
  res_processed :: nat
  res_written :: nat
  res_errors :: "(string \<times> py_error) list"

section \<open>Selecting events\<close>

definition ascii_lower :: "char \<Rightarrow> char" where
  "ascii_lower c = (let n = (of_char c :: nat) in if 65 \<le> n \<and> n \<le> 90 then char_of (n + 32) else c)"

text \<open>SQLite's LIKE: \<open>%\<close> is any sequence, \<open>_\<close> any one character, ASCII letters match either case.\<close>

fun like :: "string \<Rightarrow> string \<Rightarrow> bool" where
  "like [] s = (s = [])"
| "like (c # p) [] = (c = CHR ''%'' \<and> like p [])"
| "like (c # p) (x # s) =
     (if c = CHR ''%'' then like p (x # s) \<or> like (c # p) s
      else (c = CHR ''_'' \<or> ascii_lower c = ascii_lower x) \<and> like p s)"

definition build_type_filter :: "string list \<Rightarrow> string \<Rightarrow> bool" where
  "build_type_filter event_types ty =
     list_ex (\<lambda>et. if CHR ''%'' \<in> set et then like et ty else ty = et) event_types"

definition canonical_table :: "canonical_source \<Rightarrow> 's engine \<Rightarrow> event list" where
  "canonical_table source eng = (if source = Business then en_business eng else en_ai eng)"

definition sources_of :: "canonical_source \<Rightarrow> canonical_source list" where
  "sources_of source = (if source = Both then [Business, AI] else [source])"

definition EPOCH :: string where
  "EPOCH = ''1970-01-01T00:00:00+00:00''"

definition find_event :: "string \<Rightarrow> event list \<Rightarrow> event option" where
  "find_event event_id log = List.find (\<lambda>e. ev_id e = event_id) log"

definition cursor_of :: "canonical_source \<Rightarrow> proj_state \<Rightarrow> string option" where
  "cursor_of source s = (if source = Business then last_business s else last_ai s)"

definition get_cursor_timestamp :: "string \<Rightarrow> canonical_source \<Rightarrow> 's engine \<Rightarrow> string" where
  "get_cursor_timestamp name source eng =
     (let last_event_id = (case map_of (en_state eng) name of
            None \<Rightarrow> None | Some row \<Rightarrow> cursor_of source row) in
      if \<not> truthy last_event_id then EPOCH
      else (case find_event (the last_event_id) (canonical_table source eng) of
              None \<Rightarrow> EPOCH | Some e \<Rightarrow> ev_timestamp e))"

definition new_events :: "'s projection \<Rightarrow> canonical_source \<Rightarrow> 's engine \<Rightarrow> event list" where
  "new_events proj source eng =
     (let last_ts = get_cursor_timestamp (pr_name proj) source eng in
      sort_key ev_timestamp
        (filter (\<lambda>e. last_ts < ev_timestamp e \<and> build_type_filter (pr_types proj) (ev_type e))
          (canonical_table source eng)))"

section \<open>Cursor and counters\<close>

definition advance_cursor :: "string \<Rightarrow> canonical_source \<Rightarrow> string \<Rightarrow> int \<Rightarrow> 's engine \<Rightarrow> 's engine" where
  "advance_cursor name source event_id now eng =
     eng\<lparr>en_state := tbl_update name (\<lambda>s.
       (if source = Business then s\<lparr>last_business := Some event_id\<rparr> else s\<lparr>last_ai := Some event_id\<rparr>)
         \<lparr>last_run_at := Some now\<rparr>) (en_state eng)\<rparr>"

definition update_state_metrics :: "string \<Rightarrow> nat \<Rightarrow> nat \<Rightarrow> 's engine \<Rightarrow> 's engine" where
  "update_state_metrics name processed failed eng =
     eng\<lparr>en_state := tbl_update name (\<lambda>s. s\<lparr>
       events_processed_total := events_processed_total s + processed,
       events_failed_total := events_failed_total s + failed\<rparr>) (en_state eng)\<rparr>"

section \<open>Retries and dead letters\<close>

text \<open>UPDATE the active row of the event if there is one, else INSERT a new active row.\<close>

definition dead_letter ::
    "string \<Rightarrow> string \<Rightarrow> canonical_source \<Rightarrow> py_error \<Rightarrow> nat \<Rightarrow> int \<Rightarrow> 's engine \<Rightarrow> 's engine" where
  "dead_letter name event_id source err retry_count now eng =
     (let hit = (\<lambda>d. dl_event d = event_id \<and> dl_projection d = name \<and> dl_status d = ''active'') in
      if list_ex hit (en_dead eng)
      then eng\<lparr>en_dead := map (\<lambda>d. if hit d
             then d\<lparr>dl_error := err, dl_failed_at := now, dl_retry_count := retry_count,
                    dl_last_retry_at := now\<rparr> else d) (en_dead eng)\<rparr>
      else eng\<lparr>en_dead := en_dead eng @
             [\<lparr>dl_event = event_id, dl_source = source, dl_projection = name, dl_error = err,
               dl_failed_at = now, dl_retry_count = retry_count, dl_last_retry_at = now,
               dl_status = ''active''\<rparr>]\<rparr>)"

text \<open>The retry count of the newest queue row of an event, 0 when there is none.\<close>

definition current_retries :: "string \<Rightarrow> string \<Rightarrow> 's engine \<Rightarrow> nat" where
  "current_retries name event_id eng =
     (let rows = sort_key rq_id
            (filter (\<lambda>r. rq_event r = event_id \<and> rq_projection r = name) (en_retry eng)) in
      if rows = [] then 0 else rq_count (last rows))"

definition schedule_retry ::
    "'s projection \<Rightarrow> event \<Rightarrow> canonical_source \<Rightarrow> py_error \<Rightarrow> int \<Rightarrow> 's engine \<Rightarrow> 's engine" where
  "schedule_retry proj e source err now eng =
     (let name = pr_name proj; event_id = ev_id e;
          current = current_retries name event_id eng;
          next_attempt = current + 1 in
      if next_attempt > max_retries (pr_policy proj)
      then let eng1 = dead_letter name event_id source err current now eng in
           eng1\<lparr>en_retry := filter (\<lambda>r. \<not> (rq_event r = event_id \<and> rq_projection r = name)) (en_retry eng1)\<rparr>
      else eng\<lparr>en_retry := en_retry eng @
             [\<lparr>rq_id = en_next_id eng, rq_event = event_id, rq_source = source, rq_projection = name,
               rq_next = next_retry_at (pr_policy proj) now current, rq_count = next_attempt\<rparr>],
             en_next_id := en_next_id eng + 1\<rparr>)"

definition delete_retry :: "nat \<Rightarrow> 's engine \<Rightarrow> 's engine" where
  "delete_retry i eng = eng\<lparr>en_retry := filter (\<lambda>r. rq_id r \<noteq> i) (en_retry eng)\<rparr>"

text \<open>One due row of the queue: the body of the loop of \<open>_process_retries\<close>.\<close>

definition process_retry_row :: "clock \<Rightarrow> 's projection \<Rightarrow> retry_row \<Rightarrow> 's engine \<Rightarrow> 's engine" where
  "process_retry_row ck proj row eng =
     (case find_event (rq_event row) (canonical_table (rq_source row) eng) of
        None \<Rightarrow> delete_retry (rq_id row) eng
      | Some e \<Rightarrow>
          let now = reading ck e in
          (case pr_handle proj (iso ck now) e (en_db eng) of
             Inr (written, db) \<Rightarrow>
               advance_cursor (pr_name proj) (rq_source row) (rq_event row) now
                 (delete_retry (rq_id row) (eng\<lparr>en_db := db\<rparr>))
           | Inl err \<Rightarrow>
               let next_attempt = rq_count row + 1 in
               if next_attempt > max_retries (pr_policy proj)
               then delete_retry (rq_id row)
                      (dead_letter (pr_name proj) (rq_event row) (rq_source row) err (rq_count row) now eng)
               else eng\<lparr>en_retry := map (\<lambda>r. if rq_id r = rq_id row
                      then r\<lparr>rq_count := next_attempt,
                             rq_next := next_retry_at (pr_policy proj) now next_attempt\<rparr>
                      else r) (en_retry eng)\<rparr>))"

definition due_retries :: "clock \<Rightarrow> 's projection \<Rightarrow> 's engine \<Rightarrow> retry_row list" where
  "due_retries ck proj eng =
     sort_key rq_next
       (filter (\<lambda>r. rq_projection r = pr_name proj \<and> rq_next r \<le> pass_start ck) (en_retry eng))"

definition process_retries :: "clock \<Rightarrow> 's projection \<Rightarrow> 's engine \<Rightarrow> 's engine" where
  "process_retries ck proj eng = fold (process_retry_row ck proj) (due_retries ck proj eng) eng"

section \<open>Dispatch\<close>

text \<open>One fetched event: the body of the inner loop of \<open>_apply_v2\<close>.\<close>

definition apply_event ::
    "clock \<Rightarrow> 's projection \<Rightarrow> canonical_source \<Rightarrow> event \<Rightarrow> 's engine \<times> run_result
      \<Rightarrow> 's engine \<times> run_result" where
  "apply_event ck proj source e s =
     (let (eng, res) = s; now = reading ck e in
      case pr_handle proj (iso ck now) e (en_db eng) of
        Inr (written, db) \<Rightarrow>
          (update_state_metrics (pr_name proj) 1 0
             (advance_cursor (pr_name proj) source (ev_id e) now (eng\<lparr>en_db := db\<rparr>)),
           res\<lparr>res_written := res_written res + written, res_processed := res_processed res + 1\<rparr>)
      | Inl err \<Rightarrow>
          (update_state_metrics (pr_name proj) 0 1 (schedule_retry proj e source err now eng),
           res\<lparr>res_errors := res_errors res @ [(ev_id e, err)]\<rparr>))"

definition empty_result :: run_result where
  "empty_result = \<lparr>res_processed = 0, res_written = 0, res_errors = []\<rparr>"

definition apply_source ::
    "clock \<Rightarrow> 's projection \<Rightarrow> canonical_source \<Rightarrow> 's engine \<times> run_result \<Rightarrow> 's engine \<times> run_result" where
  "apply_source ck proj source s =
     fold (apply_event ck proj source) (new_events proj source (fst s)) s"

definition apply_v2 :: "clock \<Rightarrow> 's projection \<Rightarrow> 's engine \<Rightarrow> 's engine \<times> run_result" where
  "apply_v2 ck proj eng =
     fold (apply_source ck proj) (sources_of (pr_source proj)) (eng, empty_result)"

section \<open>Registration, cycle and rebuild\<close>

definition ensure_projection_state :: "string \<Rightarrow> 's engine \<Rightarrow> 's engine" where
  "ensure_projection_state name eng =
     eng\<lparr>en_state := insert_or_ignore name proj_state_default (en_state eng)\<rparr>"

definition run_projection ::
    "clock \<Rightarrow> 's projection \<Rightarrow> 's engine \<times> run_result list \<Rightarrow> 's engine \<times> run_result list" where
  "run_projection ck proj s =
     (let (eng, results) = s;
          eng1 = process_retries ck proj eng;
          (eng2, r) = apply_v2 ck proj eng1
      in (eng2, results @ [r]))"

definition run_cycle ::
    "clock \<Rightarrow> 's projection list \<Rightarrow> string option \<Rightarrow> 's engine \<Rightarrow> 's engine \<times> run_result list" where
  "run_cycle ck projs name eng =
     (let targets = (if truthy name \<and> the name \<in> set (map pr_name projs)
                     then filter (\<lambda>p. pr_name p = the name) projs else projs)
      in fold (run_projection ck) targets (eng, []))"

text \<open>The replay loop of \<open>rebuild\<close> over one source: the engine, the result and the id of the last
  event whose handler returned.\<close>

definition rebuild_event ::
    "clock \<Rightarrow> 's projection \<Rightarrow> event \<Rightarrow> 's engine \<times> run_result \<times> string option
      \<Rightarrow> 's engine \<times> run_result \<times> string option" where
  "rebuild_event ck proj e s =
     (let (eng, res, last_id) = s in
      case pr_handle proj (iso ck (reading ck e)) e (en_db eng) of
        Inr (written, db) \<Rightarrow>
          (eng\<lparr>en_db := db\<rparr>,
           res\<lparr>res_written := res_written res + written, res_processed := res_processed res + 1\<rparr>,
           Some (ev_id e))
      | Inl err \<Rightarrow> (eng, res\<lparr>res_errors := res_errors res @ [(ev_id e, err)]\<rparr>, last_id))"

definition rebuild_source ::
    "clock \<Rightarrow> 's projection \<Rightarrow> canonical_source \<Rightarrow> 's engine \<times> run_result \<Rightarrow> 's engine \<times> run_result" where
  "rebuild_source ck proj source s =
     (let (eng, res) = s;
          rows = sort_key ev_timestamp
            (filter (\<lambda>e. build_type_filter (pr_types proj) (ev_type e)) (canonical_table source eng));
          (eng1, res1, last_id) = fold (rebuild_event ck proj) rows (eng, res, None)
      in ((if truthy last_id
           then advance_cursor (pr_name proj) source (the last_id) (pass_start ck) eng1 else eng1), res1))"

definition rebuild :: "clock \<Rightarrow> 's projection \<Rightarrow> 's engine \<Rightarrow> 's engine \<times> run_result" where
  "rebuild ck proj eng =
     fold (rebuild_source ck proj) (sources_of (pr_source proj))
       (eng\<lparr>en_db := pr_pre_rebuild proj (en_db eng)\<rparr>, empty_result)"

end
