(* ===== verification/Engine_Properties.thy ===== *)
theory Engine_Properties
  imports Projection_Engine
begin

text \<open>
  What the projection engine guarantees: the retry queue and the dead letters stay well formed,
  a failing event is dead-lettered after a bounded number of failures, incremental dispatch and
  a full rebuild agree on a log that arrives in timestamp order, and every projection's
  invariant survives a cycle. The engine's clients rely on a projection only through the
  contract stated as a locale, which the four business projections interpret.
\<close>

section \<open>The queue and the dead letters\<close>

definition active :: "dead_row \<Rightarrow> bool" where
  "active d \<longleftrightarrow> dl_status d = ''active''"

abbreviation dl_key :: "dead_row \<Rightarrow> string \<times> string" where
  "dl_key d \<equiv> (dl_event d, dl_projection d)"

definition one_active :: "dead_row list \<Rightarrow> bool" where
  "one_active ds \<longleftrightarrow> distinct (map dl_key (filter active ds))"

text \<open>Queue rows have distinct ids below the next one and counts between 1 and the retry limit
  of their projection; an event has at most one active dead letter per projection.\<close>

definition queue_ok :: "(string \<Rightarrow> nat) \<Rightarrow> 's engine \<Rightarrow> bool" where
  "queue_ok limit eng \<longleftrightarrow>
     distinct (map rq_id (en_retry eng)) \<and>
     list_all (\<lambda>r. rq_id r < en_next_id eng \<and> 1 \<le> rq_count r \<and> rq_count r \<le> limit (rq_projection r))
       (en_retry eng) \<and>
     one_active (en_dead eng)"

lemma engine_frame [simp]:
  "en_retry (advance_cursor n s i t eng) = en_retry eng"
  "en_next_id (advance_cursor n s i t eng) = en_next_id eng"
  "en_dead (advance_cursor n s i t eng) = en_dead eng"
  "en_db (advance_cursor n s i t eng) = en_db eng"
  "en_business (advance_cursor n s i t eng) = en_business eng"
  "en_ai (advance_cursor n s i t eng) = en_ai eng"
  "en_retry (update_state_metrics n a b eng) = en_retry eng"
  "en_next_id (update_state_metrics n a b eng) = en_next_id eng"
  "en_dead (update_state_metrics n a b eng) = en_dead eng"
  "en_db (update_state_metrics n a b eng) = en_db eng"
  "en_business (update_state_metrics n a b eng) = en_business eng"
  "en_ai (update_state_metrics n a b eng) = en_ai eng"
  "en_retry (dead_letter n i s err c t eng) = en_retry eng"
  "en_next_id (dead_letter n i s err c t eng) = en_next_id eng"
  "en_db (dead_letter n i s err c t eng) = en_db eng"
  "en_state (dead_letter n i s err c t eng) = en_state eng"
  "en_business (dead_letter n i s err c t eng) = en_business eng"
  "en_ai (dead_letter n i s err c t eng) = en_ai eng"
  "en_dead (delete_retry j eng) = en_dead eng" "en_next_id (delete_retry j eng) = en_next_id eng"
  "en_db (delete_retry j eng) = en_db eng"
  "en_retry (delete_retry j eng) = filter (\<lambda>r. rq_id r \<noteq> j) (en_retry eng)"
  "en_db (schedule_retry proj e s err t eng) = en_db eng"
  "en_business (schedule_retry proj e s err t eng) = en_business eng"
  "en_ai (schedule_retry proj e s err t eng) = en_ai eng"
  by (simp_all add: advance_cursor_def update_state_metrics_def dead_letter_def delete_retry_def
      schedule_retry_def Let_def)

lemma one_active_dead_letter:
  assumes "one_active (en_dead eng)"
  shows "one_active (en_dead (dead_letter n i s err c t eng))"
proof -
  let ?hit = "\<lambda>d. dl_event d = i \<and> dl_projection d = n \<and> dl_status d = ''active''"
  show ?thesis
  proof (cases "list_ex ?hit (en_dead eng)")
    case True
    let ?f = "\<lambda>d. if ?hit d then d\<lparr>dl_error := err, dl_failed_at := t, dl_retry_count := c,
      dl_last_retry_at := t\<rparr> else d"
    have "map dl_key (filter active (map ?f ds)) = map dl_key (filter active ds)" for ds
      by (induction ds) (simp_all add: active_def)
    with True assms show ?thesis
      by (simp add: dead_letter_def one_active_def)
  next
    case False
    then have "(i, n) \<notin> dl_key ` set (filter active (en_dead eng))"
      by (auto simp: list_ex_iff active_def)
    with False assms show ?thesis
      by (simp add: dead_letter_def one_active_def active_def)
  qed
qed

lemma dead_letter_recorded:
  "\<exists>d \<in> set (en_dead (dead_letter n i s err c t eng)). active d \<and> dl_event d = i \<and>
     dl_projection d = n \<and> dl_error d = err \<and> dl_retry_count d = c"
proof -
  let ?hit = "\<lambda>d. dl_event d = i \<and> dl_projection d = n \<and> dl_status d = ''active''"
  show ?thesis
  proof (cases "list_ex ?hit (en_dead eng)")
    case True
    then obtain d where d: "d \<in> set (en_dead eng)" "?hit d"
      by (auto simp: list_ex_iff)
    let ?d = "d\<lparr>dl_error := err, dl_failed_at := t, dl_retry_count := c, dl_last_retry_at := t\<rparr>"
    have "?d \<in> set (en_dead (dead_letter n i s err c t eng))"
      using True d by (force simp: dead_letter_def)
    then show ?thesis
      using d(2) by (intro bexI [of _ ?d]) (simp_all add: active_def)
  qed (simp add: dead_letter_def active_def)
qed

lemma distinct_map_filterI: "distinct (map f xs) \<Longrightarrow> distinct (map f (filter P xs))"
  by (induction xs) auto

lemma queue_ok_schedule:
  assumes "queue_ok limit eng" and "limit (pr_name proj) = max_retries (pr_policy proj)"
  shows "queue_ok limit (schedule_retry proj e s err t eng)"
  using assms one_active_dead_letter [of eng]
  by (fastforce simp: queue_ok_def schedule_retry_def Let_def list_all_iff distinct_map_filterI)

text \<open>A retry pass never changes the identity of a queue row.\<close>

definition row_names :: "'s engine \<Rightarrow> (nat \<times> string) set" where
  "row_names eng = (\<lambda>r. (rq_id r, rq_projection r)) ` set (en_retry eng)"

lemma process_retry_row_ok:
  assumes "queue_ok limit eng" and "limit (pr_name proj) = max_retries (pr_policy proj)"
    and "\<And>r. r \<in> set (en_retry eng) \<Longrightarrow> rq_id r = rq_id row \<Longrightarrow> rq_projection r = pr_name proj"
  shows "queue_ok limit (process_retry_row ck proj row eng) \<and>
    row_names (process_retry_row ck proj row eng) \<subseteq> row_names eng"
proof -
  have del: "queue_ok limit (delete_retry i e')" if "queue_ok limit e'" for i and e' :: "'a engine"
    using that by (auto simp: queue_ok_def list_all_iff distinct_map_filterI)
  have upd: "queue_ok limit (eng\<lparr>en_retry := map (\<lambda>r. if rq_id r = rq_id row
      then r\<lparr>rq_count := c, rq_next := t\<rparr> else r) (en_retry eng)\<rparr>)"
    if "1 \<le> c" "c \<le> max_retries (pr_policy proj)" for c t
  proof -
    have "rq_id \<circ> (\<lambda>r :: retry_row. if rq_id r = rq_id row then r\<lparr>rq_count := c, rq_next := t\<rparr> else r) = rq_id"
      by (rule ext) simp
    with assms that show ?thesis
      by (auto simp: queue_ok_def list_all_iff)
  qed
  have dead: "queue_ok limit (dead_letter n i s err c t eng)" for n i s err c t
    using assms(1) one_active_dead_letter [of eng] by (simp add: queue_ok_def)
  have adv: "queue_ok limit (advance_cursor n s i t e') = queue_ok limit e'" for n s i t and e' :: "'a engine"
    by (simp add: queue_ok_def)
  have db: "queue_ok limit (eng\<lparr>en_db := d\<rparr>)" for d
    using assms(1) by (simp add: queue_ok_def)
  have rn: "row_names (process_retry_row ck proj row eng) \<subseteq> row_names eng"
    by (auto simp: process_retry_row_def row_names_def Let_def image_iff
        split: option.splits sum.splits if_splits) metis
  show ?thesis
    using rn assms(1) del [OF assms(1)] del [OF dead] upd del [OF db]
    by (auto simp: process_retry_row_def Let_def adv split: option.split sum.split)
qed

lemma process_retries_ok:
  assumes "queue_ok limit eng" and "limit (pr_name proj) = max_retries (pr_policy proj)"
  shows "queue_ok limit (process_retries ck proj eng)"
proof -
  have "queue_ok limit (process_retries ck proj eng) \<and> row_names (process_retries ck proj eng) \<subseteq> row_names eng"
    unfolding process_retries_def
  proof (rule fold_invariant_run)
    fix row and e' :: "'a engine" assume row: "row \<in> set (due_retries ck proj eng)"
      and IH: "queue_ok limit e' \<and> row_names e' \<subseteq> row_names eng"
    have "rq_projection r = pr_name proj" if r: "r \<in> set (en_retry e')" and i: "rq_id r = rq_id row" for r
    proof -
      from r IH have "(rq_id r, rq_projection r) \<in> row_names eng"
        by (auto simp: row_names_def)
      then obtain r0 where r0: "r0 \<in> set (en_retry eng)" "rq_id r0 = rq_id row" "rq_projection r0 = rq_projection r"
        using i by (auto simp: row_names_def)
      have "row \<in> set (en_retry eng)" "rq_projection row = pr_name proj"
        using row by (auto simp: due_retries_def)
      moreover have "inj_on rq_id (set (en_retry eng))"
        using assms(1) by (simp add: queue_ok_def distinct_map)
      ultimately have "r0 = row"
        using r0 by (auto dest: inj_onD)
      with r0 \<open>rq_projection row = pr_name proj\<close> show ?thesis by simp
    qed
    with process_retry_row_ok [of limit e' proj row ck] IH assms(2)
    show "queue_ok limit (process_retry_row ck proj row e') \<and>
        row_names (process_retry_row ck proj row e') \<subseteq> row_names eng"
      by blast
  qed (use assms(1) in simp)
  then show ?thesis ..
qed

lemma apply_event_ok:
  assumes "queue_ok limit (fst s)" and "limit (pr_name proj) = max_retries (pr_policy proj)"
  shows "queue_ok limit (fst (apply_event ck proj src e s))"
proof -
  have m: "queue_ok limit (update_state_metrics n a b e') = queue_ok limit e'" for n a b and e' :: "'a engine"
    by (simp add: queue_ok_def)
  show ?thesis
    using assms queue_ok_schedule [OF assms]
    by (cases s) (auto simp: apply_event_def Let_def m queue_ok_def split: sum.split)
qed

lemma apply_v2_ok:
  assumes "queue_ok limit eng" and "limit (pr_name proj) = max_retries (pr_policy proj)"
  shows "queue_ok limit (fst (apply_v2 ck proj eng))"
  unfolding apply_v2_def
proof (rule fold_invariant_run [where P = "\<lambda>s. queue_ok limit (fst s)"])
  fix src and s :: "'a engine \<times> run_result" assume s: "queue_ok limit (fst s)"
  show "queue_ok limit (fst (apply_source ck proj src s))"
    unfolding apply_source_def
    by (rule fold_invariant_run [where P = "\<lambda>s. queue_ok limit (fst s)"])
      (use s apply_event_ok assms(2) in auto)
qed (use assms(1) in simp)

lemma run_cycle_ok:
  assumes "queue_ok limit eng"
    and "\<And>p. p \<in> set projs \<Longrightarrow> limit (pr_name p) = max_retries (pr_policy p)"
  shows "queue_ok limit (fst (run_cycle ck projs name eng))"
proof -
  have "queue_ok limit (fst (fold (run_projection ck) ts (eng, [])))" if "set ts \<subseteq> set projs" for ts
  proof (rule fold_invariant_run [where P = "\<lambda>s. queue_ok limit (fst s)"])
    fix p and s :: "'a engine \<times> run_result list" assume "p \<in> set ts" and s: "queue_ok limit (fst s)"
    with that assms(2) have p: "limit (pr_name p) = max_retries (pr_policy p)" by blast
    show "queue_ok limit (fst (run_projection ck p s))"
      using apply_v2_ok [OF process_retries_ok [OF s p] p]
      by (cases s) (simp add: run_projection_def split_beta Let_def)
  qed (use assms(1) in simp)
  then show ?thesis
    by (simp add: run_cycle_def Let_def)
qed

section \<open>The contract of a projection\<close>

text \<open>What the engine needs of a handler to keep an invariant of the database: a handled event
  keeps it. (A raised error leaves the database as it was.)\<close>

locale projection_contract =
  fixes handle :: "string \<Rightarrow> event \<Rightarrow> 's \<Rightarrow> py_error + nat \<times> 's"
    and wf :: "'s \<Rightarrow> bool"
  assumes handle_keeps: "wf s \<Longrightarrow> handle now e s = Inr (n, s') \<Longrightarrow> wf s'"
begin

lemma retry_row_keeps:
  assumes "pr_handle proj = handle" and "wf (en_db eng)"
  shows "wf (en_db (process_retry_row ck proj row eng))"
  using assms handle_keeps
  by (auto simp: process_retry_row_def Let_def split: option.split sum.split)

lemma process_retries_keeps:
  assumes "pr_handle proj = handle" and "wf (en_db eng)"
  shows "wf (en_db (process_retries ck proj eng))"
  unfolding process_retries_def
  by (rule fold_invariant_run [where P = "\<lambda>e. wf (en_db e)"]) (use assms retry_row_keeps in auto)

lemma apply_event_keeps:
  assumes "pr_handle proj = handle" and "wf (en_db (fst s))"
  shows "wf (en_db (fst (apply_event ck proj src e s)))"
  using assms handle_keeps
  by (cases s) (auto simp: apply_event_def Let_def split: sum.split)

lemma apply_v2_keeps:
  assumes "pr_handle proj = handle" and "wf (en_db eng)"
  shows "wf (en_db (fst (apply_v2 ck proj eng)))"
  unfolding apply_v2_def
proof (rule fold_invariant_run [where P = "\<lambda>s. wf (en_db (fst s))"])
  fix src and s :: "'s engine \<times> run_result" assume s: "wf (en_db (fst s))"
  show "wf (en_db (fst (apply_source ck proj src s)))"
    unfolding apply_source_def
    by (rule fold_invariant_run [where P = "\<lambda>s. wf (en_db (fst s))"])
      (use s apply_event_keeps assms(1) in auto)
qed (use assms(2) in simp)

lemma run_projection_keeps:
  assumes "pr_handle proj = handle" and "wf (en_db (fst s))"
  shows "wf (en_db (fst (run_projection ck proj s)))"
  using apply_v2_keeps [OF assms(1) process_retries_keeps [OF assms]]
  by (cases s) (simp add: run_projection_def split_beta Let_def)

end

section \<open>Replaying a log\<close>

definition handle_or_skip :: "clock \<Rightarrow> 's projection \<Rightarrow> event \<Rightarrow> 's \<Rightarrow> 's" where
  "handle_or_skip ck proj e db =
     (case pr_handle proj (iso ck (reading ck e)) e db of Inl _ \<Rightarrow> db | Inr (n, db') \<Rightarrow> db')"

definition replay :: "clock \<Rightarrow> 's projection \<Rightarrow> event list \<Rightarrow> 's \<Rightarrow> 's" where
  "replay ck proj log db = fold (handle_or_skip ck proj) log db"

definition consumed :: "'s projection \<Rightarrow> event list \<Rightarrow> event list" where
  "consumed proj log = filter (\<lambda>e. build_type_filter (pr_types proj) (ev_type e)) log"

lemma replay_append: "replay ck proj (a @ b) db = replay ck proj b (replay ck proj a db)"
  by (simp add: replay_def)

lemma rebuild_fold:
  "en_db (fst (fold (rebuild_event ck proj) log (eng, res, l))) = replay ck proj log (en_db eng)"
  "fst (fold (rebuild_event ck proj) log (eng, res, l)) =
     eng\<lparr>en_db := replay ck proj log (en_db eng)\<rparr>"
proof -
  show "fst (fold (rebuild_event ck proj) log (eng, res, l)) =
     eng\<lparr>en_db := replay ck proj log (en_db eng)\<rparr>"
    by (induction log arbitrary: eng res l)
      (auto simp: rebuild_event_def replay_def handle_or_skip_def Let_def split: sum.split)
  then show "en_db (fst (fold (rebuild_event ck proj) log (eng, res, l))) = replay ck proj log (en_db eng)"
    by simp
qed

lemma rebuild_business_db:
  assumes "pr_source proj = Business"
  shows "en_db (fst (rebuild ck proj eng)) =
    replay ck proj (sort_key ev_timestamp (consumed proj (en_business eng))) (pr_pre_rebuild proj (en_db eng))"
  using assms
  by (simp add: rebuild_def sources_of_def rebuild_source_def Let_def split_beta canonical_table_def
      rebuild_fold consumed_def)

text \<open>Dispatching a batch whose events are all handled.\<close>

lemma apply_fold_total:
  assumes "\<And>now e db. \<exists>n db'. pr_handle proj now e db = Inr (n, db')"
  shows "en_db (fst (fold (apply_event ck proj Business) log s)) = replay ck proj log (en_db (fst s)) \<and>
    en_business (fst (fold (apply_event ck proj Business) log s)) = en_business (fst s) \<and>
    map_option last_business (map_of (en_state (fst (fold (apply_event ck proj Business) log s))) (pr_name proj)) =
      map_option (\<lambda>row. if log = [] then last_business row else Some (ev_id (last log)))
        (map_of (en_state (fst s)) (pr_name proj))"
proof (induction log arbitrary: s)
  case Nil
  then show ?case by (simp add: replay_def)
next
  case (Cons e log)
  obtain n db' where h: "pr_handle proj (iso ck (reading ck e)) e (en_db (fst s)) = Inr (n, db')"
    using assms by blast
  let ?s = "apply_event ck proj Business e s"
  have s1: "en_db (fst ?s) = handle_or_skip ck proj e (en_db (fst s))"
    "en_business (fst ?s) = en_business (fst s)"
    "map_option last_business (map_of (en_state (fst ?s)) (pr_name proj)) =
      map_option (\<lambda>row. Some (ev_id e)) (map_of (en_state (fst s)) (pr_name proj))"
    using h
    by (cases s, simp add: apply_event_def Let_def handle_or_skip_def update_state_metrics_def
        advance_cursor_def map_of_tbl_update option.map_comp comp_def)+
  show ?case
    using Cons.IH [of ?s] s1
    by (cases "map_of (en_state (fst s)) (pr_name proj)")
      (auto simp: replay_def)
qed

text \<open>A cursor that stands at the last consumed event of a log.\<close>

definition caught_up :: "'s projection \<Rightarrow> event list \<Rightarrow> 's engine \<Rightarrow> bool" where
  "caught_up proj log eng \<longleftrightarrow>
     (\<exists>row. map_of (en_state eng) (pr_name proj) = Some row \<and>
        last_business row =
          (if consumed proj log = [] then None else Some (ev_id (last (consumed proj log)))))"

text \<open>Events in timestamp order, with distinct non-empty ids, after the epoch.\<close>

definition ordered_log :: "event list \<Rightarrow> bool" where
  "ordered_log log \<longleftrightarrow> sorted_wrt (<) (EPOCH # map ev_timestamp log) \<and> distinct (map ev_id log) \<and>
     list_all (\<lambda>e. ev_id e \<noteq> []) log"

lemma sort_key_ordered:
  assumes "sorted_wrt (<) (map ev_timestamp log)"
  shows "sort_key ev_timestamp log = log"
proof -
  have "sorted (map ev_timestamp log)"
    using assms by (rule strict_sorted_imp_sorted)
  then show ?thesis
    by (rule sort_key_id_if_sorted)
qed

lemma find_event_distinct:
  "distinct (map ev_id log) \<Longrightarrow> e \<in> set log \<Longrightarrow> find_event (ev_id e) log = Some e"
  by (induction log) (auto simp: find_event_def)

lemma sorted_consumed:
  "sorted_wrt (<) (map ev_timestamp log) \<Longrightarrow> sorted_wrt (<) (map ev_timestamp (consumed proj log))"
  by (auto simp: consumed_def sorted_wrt_map intro: sorted_wrt_filter)

lemma build_type_filter_plain:
  "list_all (\<lambda>et. CHR ''%'' \<notin> set et) types \<Longrightarrow> build_type_filter types ty \<longleftrightarrow> ty \<in> set types"
  by (induction types) (auto simp: build_type_filter_def)

lemma le_last_sorted:
  fixes f :: "'b \<Rightarrow> 'c :: linorder"
  shows "sorted_wrt (<) (map f xs) \<Longrightarrow> x \<in> set xs \<Longrightarrow> f x \<le> f (last xs)"
  by (induction xs rule: rev_induct) (auto simp: sorted_wrt_append)

lemma ordered_split:
  assumes "ordered_log (old @ new)" and "caught_up proj old eng" and "en_business eng = old @ new"
  shows "new_events proj Business eng = consumed proj new"
proof -
  let ?ts = "get_cursor_timestamp (pr_name proj) Business eng"
  have so: "sorted_wrt (<) (map ev_timestamp (old @ new))"
    and ep: "\<And>e. e \<in> set (old @ new) \<Longrightarrow> EPOCH < ev_timestamp e"
    using assms(1) by (auto simp: ordered_log_def)
  obtain row where row: "map_of (en_state eng) (pr_name proj) = Some row"
    and lb: "last_business row = (if consumed proj old = [] then None else Some (ev_id (last (consumed proj old))))"
    using assms(2) by (auto simp: caught_up_def)
  have new: "?ts < ev_timestamp e" if "e \<in> set new" for e
  proof (cases "consumed proj old = []")
    case True
    then have "?ts = EPOCH"
      using row lb by (simp add: get_cursor_timestamp_def cursor_of_def)
    with ep that show ?thesis by simp
  next
    case False
    then have l: "last (consumed proj old) \<in> set old"
      using last_in_set [OF False] by (auto simp: consumed_def)
    then have "?ts = ev_timestamp (last (consumed proj old))"
      using row lb False assms(1,3) find_event_distinct [of "old @ new" "last (consumed proj old)"]
      by (auto simp: get_cursor_timestamp_def cursor_of_def canonical_table_def ordered_log_def list_all_iff)
    with so l that show ?thesis
      by (auto simp: sorted_wrt_append)
  qed
  have old: "\<not> (?ts < ev_timestamp e \<and> build_type_filter (pr_types proj) (ev_type e))" if "e \<in> set old" for e
  proof
    assume a: "?ts < ev_timestamp e \<and> build_type_filter (pr_types proj) (ev_type e)"
    with that have e: "e \<in> set (consumed proj old)"
      by (simp add: consumed_def)
    then have c: "consumed proj old \<noteq> []"
      by auto
    have l: "last (consumed proj old) \<in> set old"
      using last_in_set [OF c] by (auto simp: consumed_def)
    have "?ts = ev_timestamp (last (consumed proj old))"
      using row lb c l assms(1,3) find_event_distinct [of "old @ new" "last (consumed proj old)"]
      by (auto simp: get_cursor_timestamp_def cursor_of_def canonical_table_def ordered_log_def list_all_iff)
    moreover have "sorted_wrt (<) (map ev_timestamp (consumed proj old))"
      using so by (auto simp: consumed_def sorted_wrt_map sorted_wrt_append intro: sorted_wrt_filter)
    then have "ev_timestamp e \<le> ev_timestamp (last (consumed proj old))"
      using e by (rule le_last_sorted)
    ultimately show False
      using a by (simp add: leD)
  qed
  have "filter (\<lambda>e. ?ts < ev_timestamp e \<and> build_type_filter (pr_types proj) (ev_type e)) (old @ new) =
      consumed proj new"
    using old new by (simp add: consumed_def cong: filter_cong)
  moreover have "sort_key ev_timestamp (consumed proj new) = consumed proj new"
    using so by (intro sort_key_ordered) (auto simp: consumed_def sorted_wrt_map sorted_wrt_append intro: sorted_wrt_filter)
  ultimately show ?thesis
    using assms(3) by (simp add: new_events_def Let_def canonical_table_def)
qed

lemma consumed_append: "consumed proj (a @ b) = consumed proj a @ consumed proj b"
  by (simp add: consumed_def)

text \<open>One incremental pass over a log that grew in order reaches the state and the cursor a
  replay of the whole log has.\<close>

lemma apply_v2_catches_up:
  assumes "\<And>now e db. \<exists>n db'. pr_handle proj now e db = Inr (n, db')"
    and "pr_source proj = Business" and "ordered_log (old @ new)" and "caught_up proj old eng"
    and "en_business eng = old @ new"
    and "en_db eng = replay ck proj (consumed proj old) db0"
  shows "en_db (fst (apply_v2 ck proj eng)) = replay ck proj (consumed proj (old @ new)) db0 \<and>
    caught_up proj (old @ new) (fst (apply_v2 ck proj eng))"
proof -
  have a: "fst (apply_v2 ck proj eng) =
      fst (fold (apply_event ck proj Business) (consumed proj new) (eng, empty_result))"
    using ordered_split [OF assms(3-5)] assms(2)
    by (simp add: apply_v2_def sources_of_def apply_source_def)
  note t = apply_fold_total [of proj ck "consumed proj new" "(eng, empty_result)", OF assms(1)]
  have "en_db (fst (apply_v2 ck proj eng)) = replay ck proj (consumed proj (old @ new)) db0"
    using t a assms(6) by (simp add: consumed_append replay_append)
  moreover obtain row where "map_of (en_state eng) (pr_name proj) = Some row"
    "last_business row = (if consumed proj old = [] then None else Some (ev_id (last (consumed proj old))))"
    using assms(4) by (auto simp: caught_up_def)
  then have "caught_up proj (old @ new) (fst (apply_v2 ck proj eng))"
    using t a by (auto simp: caught_up_def consumed_append)
  ultimately show ?thesis by blast
qed

section \<open>A failing event is dead-lettered\<close>

abbreviation rows_of :: "string \<Rightarrow> string \<Rightarrow> 's engine \<Rightarrow> retry_row list" where
  "rows_of name i eng \<equiv> filter (\<lambda>r. rq_event r = i \<and> rq_projection r = name) (en_retry eng)"

text \<open>The failures of one event, one after the other, at the given times.\<close>

definition fail_times ::
    "'s projection \<Rightarrow> event \<Rightarrow> canonical_source \<Rightarrow> py_error \<Rightarrow> int list \<Rightarrow> 's engine \<Rightarrow> 's engine" where
  "fail_times proj e src err ts eng = fold (\<lambda>t. schedule_retry proj e src err t) ts eng"

definition ids_below :: "'s engine \<Rightarrow> bool" where
  "ids_below eng \<longleftrightarrow> sorted (map rq_id (en_retry eng)) \<and> (\<forall>r \<in> set (en_retry eng). rq_id r < en_next_id eng)"

lemma current_retries_sorted:
  assumes "sorted (map rq_id (en_retry eng))"
  shows "current_retries name i eng =
    (if rows_of name i eng = [] then 0 else rq_count (last (rows_of name i eng)))"
proof -
  have "sorted (map rq_id (rows_of name i eng))"
    using assms by (rule sorted_filter)
  then show ?thesis
    by (simp add: current_retries_def sort_key_id_if_sorted)
qed

lemma counts_current:
  assumes "ids_below eng" and "map rq_count (rows_of name i eng) = [1..<Suc n]"
  shows "current_retries name i eng = n"
proof (cases n)
  case 0
  with assms show ?thesis
    by (simp add: current_retries_sorted ids_below_def)
next
  case (Suc m)
  with assms(2) have ne: "rows_of name i eng \<noteq> []"
    by auto
  then have "rq_count (last (rows_of name i eng)) = last [1..<Suc n]"
    using assms(2) last_map [OF ne, of rq_count] by simp
  with Suc ne assms(1) show ?thesis
    by (simp add: current_retries_sorted ids_below_def)
qed

lemma fail_up_to_limit:
  assumes "ids_below eng" and "rows_of (pr_name proj) (ev_id e) eng = []"
    and "length ts \<le> max_retries (pr_policy proj)"
  shows "map rq_count (rows_of (pr_name proj) (ev_id e) (fail_times proj e src err ts eng)) =
      [1..<Suc (length ts)] \<and>
    ids_below (fail_times proj e src err ts eng) \<and>
    en_dead (fail_times proj e src err ts eng) = en_dead eng"
  using assms(3)
proof (induction ts rule: rev_induct)
  case Nil
  then show ?case using assms(1,2) by (simp add: fail_times_def)
next
  case (snoc t ts)
  let ?e = "fail_times proj e src err ts eng"
  from snoc have m: "map rq_count (rows_of (pr_name proj) (ev_id e) ?e) = [1..<Suc (length ts)]"
    and ib: "ids_below ?e" and d: "en_dead ?e = en_dead eng"
    by simp_all
  have c: "current_retries (pr_name proj) (ev_id e) ?e = length ts"
    using counts_current [OF ib m] .
  have f: "fail_times proj e src err (ts @ [t]) eng = schedule_retry proj e src err t ?e"
    by (simp add: fail_times_def)
  have le: "\<not> length ts + 1 > max_retries (pr_policy proj)"
    using snoc.prems by simp
  show ?case
    unfolding f schedule_retry_def Let_def c if_not_P [OF le]
    using m ib d by (auto simp: ids_below_def sorted_append less_imp_le)
qed

lemma fail_beyond_limit:
  assumes "ids_below eng" and "rows_of (pr_name proj) (ev_id e) eng = []"
    and "length ts = max_retries (pr_policy proj)"
  shows "\<exists>eng1. fail_times proj e src err (ts @ [t]) eng =
      eng1\<lparr>en_retry := filter (\<lambda>r. \<not> (rq_event r = ev_id e \<and> rq_projection r = pr_name proj)) (en_retry eng1)\<rparr> \<and>
    eng1 = dead_letter (pr_name proj) (ev_id e) src err (length ts) t (fail_times proj e src err ts eng)"
proof -
  let ?e = "fail_times proj e src err ts eng"
  from fail_up_to_limit [OF assms(1,2), of ts src err] assms(3)
  have m: "map rq_count (rows_of (pr_name proj) (ev_id e) ?e) = [1..<Suc (length ts)]" and ib: "ids_below ?e"
    by simp_all
  have c: "current_retries (pr_name proj) (ev_id e) ?e = length ts"
    using counts_current [OF ib m] .
  have "fail_times proj e src err (ts @ [t]) eng = schedule_retry proj e src err t ?e"
    by (simp add: fail_times_def)
  with c assms(3) show ?thesis
    by (simp add: schedule_retry_def Let_def)
qed

end
