(* ===== verification/Business_Engine.thy ===== *)
theory Business_Engine
  imports Engine_Properties
begin

text \<open>
  The engine on the four business projections: each handler lifted to the business database,
  as it is registered, and interpreted in the projection contract. The properties state what
  running the engine on them guarantees.
\<close>

section \<open>The registered projections\<close>

definition business_policy :: retry_policy where
  "business_policy = \<lparr>max_retries = 3, base_delay_us = 1000000, backoff_factor = 2\<rparr>"

definition wo_handle_db :: "bool \<Rightarrow> string \<Rightarrow> event \<Rightarrow> business_db \<Rightarrow> db_result" where
  "wo_handle_db remembers now e db =
     (case wo_handle remembers now e (work_orders db) of
        Inl err \<Rightarrow> Inl err | Inr (n, t) \<Rightarrow> Inr (n, db\<lparr>work_orders := t\<rparr>))"

definition WorkOrderProjection :: "bool \<Rightarrow> business_db projection" where
  "WorkOrderProjection remembers =
     \<lparr>pr_name = ''work_order_projection'', pr_types = wo_consumed_event_types, pr_source = Business,
      pr_policy = business_policy, pr_handle = wo_handle_db remembers,
      pr_pre_rebuild = (\<lambda>db. db\<lparr>work_orders := wo_pre_rebuild (work_orders db)\<rparr>)\<rparr>"

definition TaskProjection :: "business_db projection" where
  "TaskProjection =
     \<lparr>pr_name = ''task_projection'', pr_types = task_consumed_event_types, pr_source = Business,
      pr_policy = business_policy, pr_handle = task_handle, pr_pre_rebuild = (\<lambda>db. db\<lparr>tasks := []\<rparr>)\<rparr>"

definition MilestoneProjection :: "business_db projection" where
  "MilestoneProjection =
     \<lparr>pr_name = ''milestone_projection'', pr_types = milestone_consumed_event_types,
      pr_source = Business, pr_policy = business_policy, pr_handle = milestone_handle,
      pr_pre_rebuild = (\<lambda>db. db\<lparr>milestones := []\<rparr>)\<rparr>"

definition ProjectProjection :: "business_db projection" where
  "ProjectProjection =
     \<lparr>pr_name = ''project_projection'', pr_types = project_consumed_event_types,
      pr_source = Business, pr_policy = business_policy, pr_handle = project_handle,
      pr_pre_rebuild = (\<lambda>db. db\<lparr>projects := []\<rparr>)\<rparr>"

definition business_projections :: "bool \<Rightarrow> business_db projection list" where
  "business_projections remembers =
     [WorkOrderProjection remembers, TaskProjection, MilestoneProjection, ProjectProjection]"

section \<open>The projections satisfy the contract\<close>

lemma wo_handle_keys:
  assumes "wo_handle rem now e t = Inr (n, t')"
  shows "set (keys t) \<subseteq> set (keys t')"
proof
  fix k assume "k \<in> set (keys t)"
  then have k: "map_of t k \<noteq> None"
    by (simp add: map_of_eq_None_iff)
  have "map_of t' k \<noteq> None"
  proof (cases "wo_target e = Some k")
    case False
    with wo_handle_frame [OF assms] k show ?thesis by simp
  next
    case True
    then consider "t' = t" | p m pl ts j where "wo_handle_created k p m pl (ev_id e) ts now t = Inr (j, t')"
      | r where "wo_dispatch rem now e k (insert_or_ignore k r t) = Inr (n, t')"
      using assms by (auto simp: wo_handle_eq split: if_splits)
    then show ?thesis
    proof cases
      case 1
      with k show ?thesis by simp
    next
      case 2
      then show ?thesis
        by (auto simp: wo_handle_created_def Let_def table_simps split: option.splits)
    next
      case 3
      have "map_of (insert_or_ignore k r t) k \<noteq> None"
        by (simp add: map_of_insert_or_ignore split: option.split)
      with 3 wo_dispatch_upsert [of rem now e k "insert_or_ignore k r t"] show ?thesis
        by (auto simp: map_of_upsert split: option.splits)
    qed
  qed
  then show "k \<in> set (keys t')"
    by (simp add: map_of_eq_None_iff)
qed

lemma wf_wo_handle_db:
  assumes "wf_db db" and "wo_handle_db rem now e db = Inr (n, db')"
  shows "wf_db db'"
proof -
  from assms(2) obtain t where t: "wo_handle rem now e (work_orders db) = Inr (n, t)"
    and db': "db' = db\<lparr>work_orders := t\<rparr>"
    by (auto simp: wo_handle_db_def split: sum.splits)
  have "wf_wo_table t"
    using wf_wo_handle [OF _ t] assms(1) by (simp add: wf_db_def)
  with wo_handle_keys [OF t] assms(1) show ?thesis
    by (auto simp: db' wf_db_defs list_all_iff split_beta dest!: bspec subsetD)
qed

interpretation wo_proj: projection_contract "wo_handle_db rem" wf_db
  by unfold_locales (rule wf_wo_handle_db)

interpretation task_proj: projection_contract task_handle wf_db
  by unfold_locales (rule wf_task_handle)

interpretation milestone_proj: projection_contract milestone_handle wf_db
  by unfold_locales (rule wf_milestone_handle)

interpretation project_proj: projection_contract project_handle wf_db
  by unfold_locales (rule wf_project_handle)

lemma business_run_keeps:
  assumes "p \<in> set (business_projections rem)" and "wf_db (en_db (fst s))"
  shows "wf_db (en_db (fst (run_projection ck p s)))"
proof -
  from assms(1) consider "p = ProjectProjection" | "p = MilestoneProjection"
    | "p = WorkOrderProjection rem" | "p = TaskProjection"
    by (auto simp: business_projections_def)
  then show ?thesis
  proof cases
    case 1
    with assms(2) show ?thesis
      by (simp add: project_proj.run_projection_keeps ProjectProjection_def)
  next
    case 2
    with assms(2) show ?thesis
      by (simp add: milestone_proj.run_projection_keeps MilestoneProjection_def)
  next
    case 3
    with assms(2) show ?thesis
      by (simp add: wo_proj.run_projection_keeps WorkOrderProjection_def)
  next
    case 4
    with assms(2) show ?thesis
      by (simp add: task_proj.run_projection_keeps TaskProjection_def)
  qed
qed

lemma wo_db_total: "\<exists>n db'. wo_handle_db rem now e db = Inr (n, db')"
  using wo_handle_total [of rem now e "work_orders db"] by (auto simp: wo_handle_db_def)

lemma wo_replay_db:
  "work_orders (replay ck (WorkOrderProjection rem) log db) =
     wo_replay rem (\<lambda>e. iso ck (reading ck e)) log (work_orders db)"
proof (induction log arbitrary: db)
  case Nil
  then show ?case by (simp add: replay_def wo_replay_def)
next
  case (Cons e log)
  have "work_orders (handle_or_skip ck (WorkOrderProjection rem) e db) =
      wo_step rem (\<lambda>e. iso ck (reading ck e)) e (work_orders db)"
    by (auto simp: handle_or_skip_def WorkOrderProjection_def wo_handle_db_def wo_step_def split: sum.split)
  with Cons [of "handle_or_skip ck (WorkOrderProjection rem) e db"] show ?case
    by (simp add: replay_def wo_replay_def)
qed

lemma wo_types_plain:
  "build_type_filter wo_consumed_event_types ty \<longleftrightarrow>
     ty \<in> {WORK_ORDER_CREATED, WORK_ORDER_STARTED, WORK_ORDER_REVIEW_REQUESTED, WORK_ORDER_PUSHED,
       WORK_ORDER_CI_FAILED, WORK_ORDER_BLOCKED, WORK_ORDER_UNBLOCKED, WORK_ORDER_REOPENED,
       WORK_ORDER_CLOSED, WORK_ORDER_CANCELLED, WORK_ORDER_DELETED}"
proof -
  have "list_all (\<lambda>et. CHR ''%'' \<notin> set et) wo_consumed_event_types"
    by (simp add: wo_consumed_event_types_def event_type_defs)
  from build_type_filter_plain [OF this] show ?thesis
    by (simp add: wo_consumed_event_types_def)
qed

lemma distinct_sort_filter:
  "distinct (map ev_id log) \<Longrightarrow> distinct (map ev_id (sort_key f (filter P log)))"
  by (metis distinct_map distinct_map_filterI distinct_sort set_sort)

text \<open>An engine that has run nothing yet.\<close>

definition fresh_engine :: "string list \<Rightarrow> event list \<Rightarrow> business_db engine" where
  "fresh_engine names log =
     \<lparr>en_db = empty_db [], en_business = log, en_ai = [],
      en_state = map (\<lambda>n. (n, proj_state_default)) names, en_retry = [], en_next_id = 1, en_dead = []\<rparr>"

definition sample_clock :: clock where
  "sample_clock = \<lparr>iso = (\<lambda>_. ''now''), reading = (\<lambda>_. 0), pass_start = 0\<rparr>"

section \<open>Properties\<close>

text \<open>A cycle keeps the retry queue and the dead letters well formed, for any registered
  projections: queue ids stay unique, every queued retry count stays between 1 and the
  projection's limit, and no event ever has two active dead letters for one projection.\<close>

theorem run_cycle_queue_invariant:
  assumes "queue_ok limit eng"
    and "\<And>p. p \<in> set projs \<Longrightarrow> limit (pr_name p) = max_retries (pr_policy p)"
  shows "queue_ok limit (fst (run_cycle ck projs name eng))"
  using assms by (rule run_cycle_ok)

theorem run_cycle_queue_invariant_witness:
  "queue_ok (\<lambda>_. 3) (fst (run_cycle sample_clock (business_projections True) None
     (fresh_engine [''task_projection''] [wo_event ''e1'' TASK_CREATED ''2026'' ''w1'' []])))"
  by (rule run_cycle_queue_invariant)
    (auto simp: queue_ok_def fresh_engine_def one_active_def business_projections_def
      WorkOrderProjection_def TaskProjection_def MilestoneProjection_def ProjectProjection_def
      business_policy_def)

text \<open>A cycle over the business projections keeps the database well formed whatever the
  canonical tables and the retry queue hold: keys stay unique, statuses and priorities stay in
  their vocabularies, and every task, milestone and client reference keeps its parent row.\<close>

theorem business_cycle_invariant:
  assumes "wf_db (en_db eng)"
  shows "wf_db (en_db (fst (run_cycle ck (business_projections rem) name eng)))"
proof -
  have "wf_db (en_db (fst (fold (run_projection ck) ts (eng, []))))"
    if "set ts \<subseteq> set (business_projections rem)" for ts
    by (rule fold_invariant_run [where P = "\<lambda>s. wf_db (en_db (fst s))"])
      (use that assms business_run_keeps in auto)
  then show ?thesis
    by (simp add: run_cycle_def Let_def)
qed

theorem business_cycle_invariant_witness:
  "wf_db (en_db (fst (run_cycle sample_clock (business_projections True) None
     (fresh_engine [''task_projection''] [wo_event ''e1'' TASK_CREATED ''2026'' ''w1'' []]))))"
  by (rule business_cycle_invariant) (simp add: fresh_engine_def)



text \<open>A rebuild of the work orders computes the lifecycle specification: for every work
  order, the status, the priority and the remembered phase after the rebuild are what the
  table-free state machine computes from that work order's events in timestamp order, whatever
  the table, the cursors and the queue held before.\<close>

theorem wo_rebuild_refines:
  assumes "distinct (map ev_id (en_business eng))"
  shows "map_option wo_view (map_of (work_orders (en_db (fst (rebuild ck (WorkOrderProjection rem) eng)))) w) =
    fold (\<lambda>e v. Some (wo_view_step rem e v))
      (filter (\<lambda>e. wo_target e = Some w)
        (sort_key ev_timestamp (consumed (WorkOrderProjection rem) (en_business eng)))) None"
proof -
  let ?p = "WorkOrderProjection rem" let ?log = "sort_key ev_timestamp (consumed ?p (en_business eng))"
  have b: "pr_source ?p = Business"
    by (simp add: WorkOrderProjection_def)
  have "work_orders (en_db (fst (rebuild ck ?p eng))) =
      wo_replay rem (\<lambda>e. iso ck (reading ck e)) ?log []"
    using rebuild_business_db [OF b, of ck eng]
    by (simp add: wo_replay_db) (simp add: WorkOrderProjection_def wo_pre_rebuild_def)
  moreover have "distinct (map ev_id ?log)"
    using assms unfolding consumed_def by (rule distinct_sort_filter)
  ultimately show ?thesis
    using wo_replay_view_from [of ?log "[]"] by (simp add: wo_ids_def)
qed

theorem wo_rebuild_refines_witness:
  "map_option wo_view (map_of (work_orders (en_db (fst (rebuild sample_clock (WorkOrderProjection True)
      (fresh_engine [] [wo_event ''e1'' WORK_ORDER_STARTED ''2026'' ''w1'' []]))))) ''w1'') =
    Some (''in_progress'', ''normal'', None)"
  by (subst wo_rebuild_refines)
    (simp_all add: fresh_engine_def consumed_def WorkOrderProjection_def
      wo_types_plain wo_target_def col_or_payload_def py_or_def wo_view_step_def)



text \<open>An event that arrives late is never dispatched incrementally. When an event is ingested
  whose timestamp is not after the cursor's, no incremental pass fetches it: the pass sees exactly
  the events it would have seen without it. Only a rebuild replays it.\<close>

theorem late_event_skipped:
  assumes "ev_timestamp late \<le> get_cursor_timestamp (pr_name proj) Business eng"
    and "\<And>row. map_of (en_state eng) (pr_name proj) = Some row \<Longrightarrow> last_business row \<noteq> Some (ev_id late)"
  shows "new_events proj Business (eng\<lparr>en_business := en_business eng @ [late]\<rparr>) = new_events proj Business eng"
proof -
  let ?eng = "eng\<lparr>en_business := en_business eng @ [late]\<rparr>"
  have f: "find_event i (log @ [late]) = find_event i log" if "i \<noteq> ev_id late" for i log
    using that by (induction log) (auto simp: find_event_def)
  have "get_cursor_timestamp (pr_name proj) Business ?eng = get_cursor_timestamp (pr_name proj) Business eng"
  proof (cases "map_of (en_state eng) (pr_name proj)")
    case None
    then show ?thesis by (simp add: get_cursor_timestamp_def)
  next
    case (Some row)
    with assms(2) f show ?thesis
      by (cases "last_business row") (auto simp: get_cursor_timestamp_def cursor_of_def canonical_table_def)
  qed
  with assms(1) show ?thesis
    by (simp add: new_events_def Let_def canonical_table_def leD)
qed

theorem late_event_skipped_witness:
  "new_events (WorkOrderProjection True) Business
     ((fresh_engine [] [])\<lparr>en_business := [] @ [wo_event ''e1'' WORK_ORDER_STARTED ''1969'' ''w1'' []]\<rparr>) =
   new_events (WorkOrderProjection True) Business (fresh_engine [] [])"
  using late_event_skipped [of "wo_event ''e1'' WORK_ORDER_STARTED ''1969'' ''w1'' []"
      "WorkOrderProjection True" "fresh_engine [] []"]
  by (simp add: fresh_engine_def get_cursor_timestamp_def EPOCH_def)

end
