(* ===== verification/Module_Boundary.thy ===== *)
theory Module_Boundary
  imports Prelude
begin

text \<open>
  The module boundary of a work order: the clause \<open>compose_module_boundary\<close>
  (\<^verbatim>\<open>core/work_orders/mutations.py\<close>) writes into a description and the parser
  \<open>boundary_globs\<close> and matcher \<open>path_in_boundary\<close> (\<^verbatim>\<open>runtime/lib/enforcement.py\<close>) that read it
  back. The regular expression of the parser is written out as the deterministic scan its greedy
  matching performs: the longest run of whitespace that leaves a first clause character, then the
  longest clause.
\<close>

section \<open>Path-shaped entries\<close>

definition bare_char :: "char \<Rightarrow> bool" where
  "bare_char c = (let n = (of_char c :: nat) in
     (65 \<le> n \<and> n \<le> 90) \<or> (97 \<le> n \<and> n \<le> 122) \<or> (48 \<le> n \<and> n \<le> 57) \<or> c = CHR ''_'' \<or> c = CHR ''-'')"

abbreviation newline_char :: char where
  "newline_char \<equiv> CHR 0x0A"

text \<open>\<open>_BARE_PATH_NAME.match\<close>; the final \<open>$\<close> also matches before one trailing newline.\<close>

definition bare_path_name :: "string \<Rightarrow> bool" where
  "bare_path_name s =
     (let u = (if s \<noteq> [] \<and> last s = newline_char then butlast s else s) in u \<noteq> [] \<and> list_all bare_char u)"

definition is_boundary_path :: "string \<Rightarrow> bool" where
  "is_boundary_path part =
     (if part = [] then False
      else CHR ''/'' \<in> set part \<or> CHR ''.'' \<in> set part \<or> bare_path_name part)"

section \<open>Composing\<close>

datatype boundary_arg = BoundaryText string | BoundaryList "string list"

fun boundary_parts :: "boundary_arg \<Rightarrow> string list" where
  "boundary_parts (BoundaryText s) = map py_strip (split_char (CHR '','') s)"
| "boundary_parts (BoundaryList ps) = map py_strip ps"

fun boundary_given :: "boundary_arg option \<Rightarrow> bool" where
  "boundary_given None = False"
| "boundary_given (Some (BoundaryText s)) = (s \<noteq> [])"
| "boundary_given (Some (BoundaryList ps)) = (ps \<noteq> [])"

definition marker :: string where
  "marker = ''Module boundary:''"

definition compose_module_boundary :: "string \<Rightarrow> boundary_arg option \<Rightarrow> string" where
  "compose_module_boundary description module_boundary =
     (if \<not> boundary_given module_boundary then description
      else if py_in marker description then description
      else let usable = filter is_boundary_path (boundary_parts (the module_boundary)) in
        if usable = [] then description
        else let clause = marker @ '' '' @ py_join '', '' usable @ ''.''; body = py_rstrip description in
          if body = [] then clause else body @ [newline_char, newline_char] @ clause)"

section \<open>Parsing\<close>

definition clause_char :: "char \<Rightarrow> bool" where
  "clause_char c \<longleftrightarrow> c \<noteq> CHR ''.'' \<and> c \<noteq> newline_char"

definition lower_letter :: "char \<Rightarrow> bool" where
  "lower_letter c = (let n = (of_char c :: nat) in 97 \<le> n \<and> n \<le> 122)"

text \<open>The rest of a clause: clause characters, and full stops a lower-case letter follows.\<close>

fun scan_clause :: "string \<Rightarrow> string" where
  "scan_clause [] = []"
| "scan_clause (c # s) =
     (if clause_char c then c # scan_clause s
      else if c = CHR ''.'' \<and> s \<noteq> [] \<and> lower_letter (hd s) then c # scan_clause s
      else [])"

text \<open>The capture group at a place after the marker: after as much whitespace as leaves a clause
  character to start with.\<close>

fun capture :: "string \<Rightarrow> string option" where
  "capture [] = None"
| "capture (c # s) =
     (case (if py_isspace c then capture s else None) of
        Some r \<Rightarrow> Some r
      | None \<Rightarrow> if clause_char c then Some (scan_clause (c # s)) else None)"

fun search_clause :: "string \<Rightarrow> string option" where
  "search_clause [] = None"
| "search_clause (c # s) =
     (case (if prefix marker (c # s) then capture (drop (length marker) (c # s)) else None) of
        Some r \<Rightarrow> Some r
      | None \<Rightarrow> search_clause s)"

definition rstrip_dots :: "string \<Rightarrow> string" where
  "rstrip_dots s = rev (dropWhile (\<lambda>c. c = CHR ''.'') (rev s))"

definition boundary_globs :: "string \<Rightarrow> string list" where
  "boundary_globs description =
     (case search_clause description of
        None \<Rightarrow> []
      | Some clause \<Rightarrow>
          filter is_boundary_path
            (map (\<lambda>p. py_strip (rstrip_dots (py_strip p))) (split_char (CHR '','') clause)))"

section \<open>Matching\<close>

definition strip_slashes :: "string \<Rightarrow> string" where
  "strip_slashes s = rev (dropWhile (\<lambda>c. c = CHR ''/'') (rev (dropWhile (\<lambda>c. c = CHR ''/'') s)))"

text \<open>\<open>path_in_boundary\<close> once the file is resolved: \<open>rel\<close> is the file's path relative to the
  project root, None when either cannot be resolved or the file is outside it.\<close>

definition path_in_boundary :: "string option \<Rightarrow> string list \<Rightarrow> bool" where
  "path_in_boundary rel globs =
     (if globs = [] then True
      else case rel of
        None \<Rightarrow> True
      | Some r \<Rightarrow>
          let rel_lower = py_lower r in
          list_ex (\<lambda>g. let g_norm = py_lower (strip_slashes (map (\<lambda>c. if c = CHR 0x5C then CHR ''/'' else c) g)) in
            rel_lower = g_norm \<or> py_startswith rel_lower (g_norm @ ''/'')) globs)"

section \<open>Strings\<close>

lemma py_strip_idem [simp]: "py_strip (py_strip s) = py_strip s"
proof -
  let ?l = "dropWhile py_isspace s"
  have "dropWhile py_isspace (rev (dropWhile py_isspace (rev ?l))) = rev (dropWhile py_isspace (rev ?l))"
  proof (cases "?l")
    case (Cons c r)
    then have c: "\<not> py_isspace c"
      using hd_dropWhile [of py_isspace s] by simp
    have "rev (dropWhile py_isspace (rev (c # r))) = c # rev (dropWhile py_isspace (rev r))"
      using c by (simp add: dropWhile_append)
    with Cons c show ?thesis by simp
  next
    case Nil
    then show ?thesis by (simp only: rev.simps dropWhile.simps)
  qed
  then show ?thesis
    by (simp add: py_strip_def py_rstrip_def py_lstrip_def)
qed

lemma py_strip_space: "py_isspace c \<Longrightarrow> py_strip (c # s) = py_strip s"
  by (simp add: py_strip_def py_lstrip_def)

lemma length_py_strip: "length (py_strip s) \<le> length s"
  using length_dropWhile_le [of py_isspace s] length_dropWhile_le [of py_isspace "rev (dropWhile py_isspace s)"]
  by (simp add: py_strip_def py_rstrip_def py_lstrip_def)

lemma py_strip_head: "py_strip s = c # r \<Longrightarrow> \<not> py_isspace c"
  using length_py_strip [of r] py_strip_idem [of s] by (auto simp: py_strip_space)

lemma split_char_single: "c \<notin> set p \<Longrightarrow> split_char c p = [p]"
  by (induction p) auto

lemma split_char_at: "c \<notin> set p \<Longrightarrow> split_char c (p @ c # s) = p # split_char c s"
  by (induction p) auto

lemma split_char_free: "p \<in> set (split_char c s) \<Longrightarrow> c \<notin> set p"
  by (induction s arbitrary: p) (auto split: if_splits list.splits)

lemma prefix_before: "x \<notin> set m \<Longrightarrow> prefix m (z @ x # r) \<Longrightarrow> prefix m z"
  by (induction z arbitrary: m) (auto simp: prefix_Cons)

lemma find_from_sublist: "find_from m s i \<noteq> None \<longleftrightarrow> sublist m s"
  by (induction s arbitrary: i) (auto simp: sublist_Cons_right)

lemma py_in_sublist: "py_in m s \<longleftrightarrow> sublist m s"
  by (simp add: py_in_def py_find_def find_from_sublist del: not_None_eq)

section \<open>Reading back what was composed\<close>

text \<open>The entries the parser can read back: one line, no comma, every full stop before a lower-case
  letter.\<close>

fun dots_safe :: "string \<Rightarrow> bool" where
  "dots_safe [] = True"
| "dots_safe (c # s) = (c \<noteq> newline_char \<and> (c = CHR ''.'' \<longrightarrow> s \<noteq> [] \<and> lower_letter (hd s)) \<and> dots_safe s)"

definition readable_entry :: "string \<Rightarrow> bool" where
  "readable_entry p \<longleftrightarrow> CHR '','' \<notin> set p \<and> dots_safe p"

lemma dots_safe_append: "dots_safe p \<Longrightarrow> dots_safe q \<Longrightarrow> dots_safe (p @ q)"
  by (induction p) (auto split: list.splits)

lemma dots_safe_join: "list_all dots_safe ps \<Longrightarrow> dots_safe (py_join '', '' ps)"
  by (induction ps rule: induct_list012) (auto intro!: dots_safe_append)

lemma scan_safe: "dots_safe s \<Longrightarrow> scan_clause (s @ ''.'') = s"
  by (induction s) (auto simp: clause_char_def split: list.splits)

lemma dots_safe_last: "dots_safe p \<Longrightarrow> rstrip_dots p = p"
proof (cases p rule: rev_cases)
  case (snoc q c)
  assume "dots_safe p"
  then have "c \<noteq> CHR ''.''"
    unfolding snoc by (induction q) auto
  then show ?thesis
    by (simp add: snoc rstrip_dots_def)
qed (simp add: rstrip_dots_def)

lemma space_isspace [simp]: "py_isspace (CHR '' '')"
  by (simp add: py_isspace_def)

lemma capture_safe:
  assumes "dots_safe s" and "s \<noteq> []" and "\<not> py_isspace (hd s)"
  shows "capture (CHR '' '' # s @ ''.'') \<in> {Some s, Some (CHR '' '' # s)}"
proof -
  obtain c r where s: "s = c # r"
    using assms(2) by (cases s) auto
  have "scan_clause (CHR '' '' # s @ ''.'') = CHR '' '' # s"
    using scan_safe [of "CHR '' '' # s"] assms(1) by (simp add: clause_char_def)
  moreover have "clause_char c \<Longrightarrow> c # scan_clause (r @ ''.'') = c # r"
    using scan_safe [OF assms(1)] s by simp
  ultimately show ?thesis
    using assms(3) s by (auto simp: clause_char_def)
qed

lemma search_after:
  assumes "\<not> sublist marker b"
  shows "search_clause (b @ newline_char # s) = search_clause s"
proof -
  have m: "newline_char \<notin> set marker"
    by (simp add: marker_def)
  from assms show ?thesis
  proof (induction b)
    case Nil
    have "\<not> prefix marker (newline_char # s)"
      by (simp add: marker_def)
    then show ?case by simp
  next
    case (Cons c b)
    then have "\<not> prefix marker ((c # b) @ newline_char # s)"
      using prefix_before [OF m, of "c # b" s] by (auto simp: sublist_Cons_right)
    with Cons show ?case by (simp add: sublist_Cons_right)
  qed
qed

lemma search_here: "capture s = Some r \<Longrightarrow> search_clause (marker @ s) = Some r"
  by (simp add: marker_def)

lemma split_join_entries:
  assumes "ps \<noteq> []" and "list_all (\<lambda>p. CHR '','' \<notin> set p) ps"
  shows "split_char (CHR '','') (py_join '', '' ps) = hd ps # map ((#) (CHR '' '')) (tl ps)"
proof -
  have "split_char (CHR '','') (CHR '' '' # py_join '', '' (q # qs)) =
      map ((#) (CHR '' '')) (q # qs)" if "list_all (\<lambda>p. CHR '','' \<notin> set p) (q # qs)" for q qs
    using that
  proof (induction qs arbitrary: q)
    case (Cons x xs)
    then show ?case
      using split_char_at [of "CHR '',''" "CHR '' '' # q"] by simp
  qed (simp add: split_char_single)
  with assms show ?thesis
    by (cases ps rule: remdups_adj.cases) (auto simp: split_char_single split_char_at)
qed

lemma entries_read:
  assumes "list_all (\<lambda>p. py_strip p = p \<and> readable_entry p \<and> is_boundary_path p) ps"
  shows "filter is_boundary_path (map (\<lambda>p. py_strip (rstrip_dots (py_strip p))) ps) = ps"
    and "map (\<lambda>p. py_strip (rstrip_dots (py_strip p))) (map ((#) (CHR '' '')) ps) =
      map (\<lambda>p. py_strip (rstrip_dots (py_strip p))) ps"
  using assms by (induction ps) (auto simp: readable_entry_def dots_safe_last py_strip_space)

lemma join_head:
  assumes "ps \<noteq> []" and "list_all (\<lambda>p. py_strip p = p \<and> is_boundary_path p) ps"
  shows "py_join '', '' ps \<noteq> [] \<and> \<not> py_isspace (hd (py_join '', '' ps))"
proof -
  obtain p qs where ps: "ps = p # qs"
    using assms(1) by (cases ps) auto
  obtain c r where p: "p = c # r"
    using assms(2) ps by (cases p) (auto simp: is_boundary_path_def)
  have "\<not> py_isspace c"
    using assms(2) py_strip_head [of p c r] ps p by simp
  moreover have "\<exists>t. py_join '', '' ps = c # t"
    unfolding ps p by (cases qs) auto
  ultimately show ?thesis by auto
qed

lemma clause_reads:
  assumes "ps \<noteq> []" and "list_all (\<lambda>p. py_strip p = p \<and> readable_entry p \<and> is_boundary_path p) ps"
    and "c \<in> {Some (py_join '', '' ps), Some (CHR '' '' # py_join '', '' ps)}"
  shows "filter is_boundary_path (map (\<lambda>p. py_strip (rstrip_dots (py_strip p))) (split_char (CHR '','') (the c))) = ps"
proof -
  obtain p qs where ps: "ps = p # qs"
    using assms(1) by (cases ps) auto
  have nc: "list_all (\<lambda>p. CHR '','' \<notin> set p) ps"
    using assms(2) by (auto simp: readable_entry_def list_all_iff)
  have sp: "split_char (CHR '','') (CHR '' '' # py_join '', '' ps) = map ((#) (CHR '' '')) ps"
    using split_join_entries [OF assms(1) nc] nc by (simp add: ps)
  have st: "split_char (CHR '','') (py_join '', '' ps) = p # map ((#) (CHR '' '')) qs"
    using split_join_entries [OF assms(1) nc] by (simp add: ps)
  have q: "list_all (\<lambda>p. py_strip p = p \<and> readable_entry p \<and> is_boundary_path p) qs"
    using assms(2) ps by simp
  from assms(3) consider "c = Some (py_join '', '' ps)" | "c = Some (CHR '' '' # py_join '', '' ps)"
    by auto
  then show ?thesis
  proof cases
    case 1
    have "map (\<lambda>p. py_strip (rstrip_dots (py_strip p))) (p # map ((#) (CHR '' '')) qs) =
        map (\<lambda>p. py_strip (rstrip_dots (py_strip p))) ps"
      by (simp only: list.map(2) [of _ p] entries_read(2) [OF q] ps)
    then show ?thesis
      by (simp only: 1 option.sel st entries_read(1) [OF assms(2)])
  next
    case 2
    then show ?thesis
      by (simp only: 2 option.sel sp entries_read [OF assms(2)])
  qed
qed

lemma usable_stripped:
  "list_all (\<lambda>p. py_strip p = p \<and> is_boundary_path p) (filter is_boundary_path (boundary_parts b))"
  by (cases b) (auto simp: list_all_iff)

lemma rstrip_no_marker: "\<not> sublist marker d \<Longrightarrow> \<not> sublist marker (py_rstrip d)"
proof -
  have "suffix (dropWhile py_isspace (rev d)) (rev d)"
    by (rule suffix_dropWhile)
  then have "prefix (py_rstrip d) d"
    by (simp add: py_rstrip_def suffix_to_prefix)
  then show "\<not> sublist marker d \<Longrightarrow> \<not> sublist marker (py_rstrip d)"
    using prefix_imp_sublist sublist_order.order_trans by blast
qed

section \<open>Properties\<close>

text \<open>The composed boundary is read back exactly. Where the description has no clause of its own
  and the path-shaped entries are readable (no comma or newline, every full stop before a lower-case
  letter), the parser returns exactly those entries, in order, whatever the description says.\<close>

theorem boundary_roundtrip:
  assumes "\<not> py_in marker description" and "boundary_given (Some b)"
    and "filter is_boundary_path (boundary_parts b) \<noteq> []"
    and "list_all readable_entry (filter is_boundary_path (boundary_parts b))"
  shows "boundary_globs (compose_module_boundary description (Some b)) =
    filter is_boundary_path (boundary_parts b)"
proof -
  let ?ps = "filter is_boundary_path (boundary_parts b)"
  let ?j = "py_join '', '' ?ps"
  have r: "list_all (\<lambda>p. py_strip p = p \<and> readable_entry p \<and> is_boundary_path p) ?ps"
    using usable_stripped [of b] assms(4) by (auto simp: list_all_iff)
  have "dots_safe ?j"
    using assms(4) by (intro dots_safe_join) (auto simp: list_all_iff readable_entry_def)
  with join_head [OF assms(3) usable_stripped]
  have c: "capture (CHR '' '' # ?j @ ''.'') \<in> {Some ?j, Some (CHR '' '' # ?j)}"
    by (intro capture_safe) auto
  then obtain u where u: "capture (CHR '' '' # ?j @ ''.'') = Some u"
    by auto
  have "search_clause (compose_module_boundary description (Some b)) = Some u"
  proof (cases "py_rstrip description = []")
    case True
    with assms search_here [OF u] show ?thesis
      by (simp add: compose_module_boundary_def Let_def)
  next
    case False
    have "\<not> sublist marker (py_rstrip description)"
      using assms(1) by (intro rstrip_no_marker) (simp add: py_in_sublist)
    then have "search_clause (py_rstrip description @ newline_char # newline_char # marker @ CHR '' '' # ?j @ ''.'') = Some u"
      using search_after [of "[]"] search_here [OF u] by (simp add: search_after marker_def)
    with False assms show ?thesis
      by (simp add: compose_module_boundary_def Let_def)
  qed
  then show ?thesis
    using clause_reads [OF assms(3) r c] u by (simp add: boundary_globs_def)
qed

theorem boundary_roundtrip_witness:
  "boundary_globs (compose_module_boundary ''Fix it.'' (Some (BoundaryText ''docs, .github/ci.yml''))) =
     [''docs'', ''.github/ci.yml'']"
proof -
  have p: "filter is_boundary_path (boundary_parts (BoundaryText ''docs, .github/ci.yml'')) =
      [''docs'', ''.github/ci.yml'']"
    by code_simp
  have "boundary_globs (compose_module_boundary ''Fix it.'' (Some (BoundaryText ''docs, .github/ci.yml''))) =
      filter is_boundary_path (boundary_parts (BoundaryText ''docs, .github/ci.yml''))"
  proof (rule boundary_roundtrip)
    show "\<not> py_in marker ''Fix it.''"
      by code_simp
    show "list_all readable_entry (filter is_boundary_path (boundary_parts (BoundaryText ''docs, .github/ci.yml'')))"
      unfolding p by (simp add: readable_entry_def lower_letter_def)
    show "filter is_boundary_path (boundary_parts (BoundaryText ''docs, .github/ci.yml'')) \<noteq> []"
      unfolding p by simp
  qed simp
  with p show ?thesis by simp
qed

text \<open>The parser does not read back every path the composer accepts: a full stop before a digit
  ends the clause there, so that a boundary naming a versioned path is cut short inside it and
  every entry after it is lost.\<close>

theorem boundary_cut_short:
  "filter is_boundary_path (boundary_parts (BoundaryText ''docs/v1.2, core/a.py, tests'')) =
     [''docs/v1.2'', ''core/a.py'', ''tests''] \<and>
   boundary_globs (compose_module_boundary ''Fix it.'' (Some (BoundaryText ''docs/v1.2, core/a.py, tests''))) =
     [''docs/v1'']"
  by code_simp

end
