(* ===== verification/Py_Text.thy ===== *)
theory Py_Text
  imports Module_Boundary
begin

text \<open>
  Text operations of the Python standard library shared by the acceptance, admission, gate and
  review components: \<open>str.splitlines\<close>, \<open>str.upper\<close> on ASCII letters, \<open>repr\<close> of a string,
  whitespace collapsing and slices.
  Messages of the sources that use the em dash are written with two hyphens, since characters
  are code points below 256.
\<close>

named_theorems text_simps \<open>how the text operations act on composed strings\<close>

section \<open>Lines\<close>

text \<open>The characters at which \<open>splitlines\<close> breaks; a carriage return and a line feed together are
  one break.\<close>

definition line_break :: "char \<Rightarrow> bool" where
  "line_break c = (let n = (of_char c :: nat) in
     n = 10 \<or> n = 11 \<or> n = 12 \<or> n = 13 \<or> n = 28 \<or> n = 29 \<or> n = 30 \<or> n = 133)"

fun lines_acc :: "string \<Rightarrow> string \<Rightarrow> string list" where
  "lines_acc w [] = (if w = [] then [] else [rev w])"
| "lines_acc w (c # s) =
     (if line_break c then
        rev w # (case s of
                   d # s' \<Rightarrow> if c = CHR 0x0D \<and> d = CHR 0x0A then lines_acc [] s' else lines_acc [] s
                 | [] \<Rightarrow> [])
      else lines_acc (c # w) s)"

definition py_splitlines :: "string \<Rightarrow> string list" where
  "py_splitlines s = lines_acc [] s"

section \<open>Case\<close>

definition upper_char :: "char \<Rightarrow> char" where
  "upper_char c = (let n = (of_char c :: nat) in
     if (97 \<le> n \<and> n \<le> 122) \<or> (224 \<le> n \<and> n \<le> 254 \<and> n \<noteq> 247) then char_of (n - 32) else c)"

text \<open>\<open>s.upper()\<close>, with the sharp s (223), which becomes two letters; the micro sign (181) and the y
  with diaeresis (255) go to code points above 255 and are kept.\<close>

definition py_upper :: "string \<Rightarrow> string" where
  "py_upper s = concat (map (\<lambda>c. if (of_char c :: nat) = 223 then ''SS'' else [upper_char c]) s)"

definition ascii_letter :: "char \<Rightarrow> bool" where
  "ascii_letter c = (let n = (of_char c :: nat) in (65 \<le> n \<and> n \<le> 90) \<or> (97 \<le> n \<and> n \<le> 122))"

definition ascii_digit :: "char \<Rightarrow> bool" where
  "ascii_digit c = (let n = (of_char c :: nat) in 48 \<le> n \<and> n \<le> 57)"

definition ascii_word :: "char \<Rightarrow> bool" where
  "ascii_word c \<longleftrightarrow> ascii_letter c \<or> ascii_digit c \<or> c = CHR ''_''"

text \<open>What the pattern \<open>\\w\<close> matches: letters, digits and numerals of the code points below 256, and the
  underscore.\<close>

definition regex_word :: "char \<Rightarrow> bool" where
  "regex_word c = (ascii_word c \<or> (let n = (of_char c :: nat) in
     n \<in> {170, 178, 179, 181, 185, 186, 188, 189, 190} \<or> (192 \<le> n \<and> n \<noteq> 215 \<and> n \<noteq> 247)))"

text \<open>Matching a literal with \<open>re.IGNORECASE\<close>.\<close>

definition prefix_nocase :: "string \<Rightarrow> string \<Rightarrow> bool" where
  "prefix_nocase p s = prefix (py_lower p) (py_lower s)"

section \<open>Whitespace\<close>

text \<open>\<open>" ".join(s.split())\<close>\<close>

definition collapse_space :: "string \<Rightarrow> string" where
  "collapse_space s = py_join '' '' (py_words s)"

text \<open>What \<open>(.*)\<close> matches from a place on: up to the next line feed.\<close>

definition rest_of_line :: "string \<Rightarrow> string" where
  "rest_of_line s = takeWhile (\<lambda>c. c \<noteq> CHR 0x0A) s"

text \<open>\<open>s.rfind(sub)\<close>\<close>

fun rfind_from :: "string \<Rightarrow> string \<Rightarrow> nat \<Rightarrow> nat option" where
  "rfind_from sub [] i = (if sub = [] then Some i else None)"
| "rfind_from sub (c # s) i =
     (case rfind_from sub s (Suc i) of
        Some j \<Rightarrow> Some j
      | None \<Rightarrow> if prefix sub (c # s) then Some i else None)"

definition py_rfind :: "string \<Rightarrow> string \<Rightarrow> nat option" where
  "py_rfind s sub = rfind_from sub s 0"

section \<open>Representation\<close>

definition hex_digit :: "nat \<Rightarrow> char" where
  "hex_digit n = (if n < 10 then char_of (48 + n) else char_of (87 + n))"

definition printable :: "char \<Rightarrow> bool" where
  "printable c = (let n = (of_char c :: nat) in (32 \<le> n \<and> n \<le> 126) \<or> (161 \<le> n \<and> n \<noteq> 173))"

definition repr_char :: "char \<Rightarrow> char \<Rightarrow> string" where
  "repr_char q c =
     (let n = (of_char c :: nat) in
      if c = q \<or> c = CHR 0x5C then [CHR 0x5C, c]
      else if n = 10 then [CHR 0x5C, CHR ''n'']
      else if n = 13 then [CHR 0x5C, CHR ''r'']
      else if n = 9 then [CHR 0x5C, CHR ''t'']
      else if printable c then [c]
      else [CHR 0x5C, CHR ''x'', hex_digit (n div 16), hex_digit (n mod 16)])"

text \<open>The character classes on the bits of a character, for evaluation.\<close>

lemma line_break_code [code]: "line_break (Char b0 b1 b2 b3 b4 b5 b6 b7) =
   (\<not> b6 \<and> \<not> b5 \<and> (if b7 then \<not> b4 \<and> \<not> b3 \<and> b2 \<and> \<not> b1 \<and> b0
      else b3 \<and> (if b4 then b2 \<and> \<not> (b1 \<and> b0) else b2 \<noteq> b1)))"
  by (cases b0; cases b1; cases b2; cases b3; cases b4; cases b5; cases b6; cases b7; simp add: line_break_def)

lemma upper_char_code [code]: "upper_char (Char b0 b1 b2 b3 b4 b5 b6 b7) =
   (if b6 \<and> b5 \<and> (if b7 then \<not> (b4 \<and> b3 \<and> b2 \<and> b1 \<and> b0) \<and> \<not> (b4 \<and> \<not> b3 \<and> b2 \<and> b1 \<and> b0)
       else (b0 \<or> b1 \<or> b2 \<or> b3 \<or> b4) \<and> \<not> (b4 \<and> b3 \<and> (b2 \<or> b1 \<and> b0)))
    then Char b0 b1 b2 b3 b4 False b6 b7 else Char b0 b1 b2 b3 b4 b5 b6 b7)"
  by (cases b0; cases b1; cases b2; cases b3; cases b4; cases b5; cases b6; cases b7; simp add: upper_char_def char_of_def bit_Suc_0_iff)

lemma py_upper_code [code]:
  "py_upper s = concat (map (\<lambda>c. if c = CHR 0xDF then ''SS'' else [upper_char c]) s)"
proof -
  have "(of_char c :: nat) = 223 \<longleftrightarrow> c = CHR 0xDF" for c
    using char_code_iff [of c 223] by (simp add: char_of_def bit_simps)
  then show ?thesis
    by (simp add: py_upper_def)
qed

lemma ascii_letter_code [code]: "ascii_letter (Char b0 b1 b2 b3 b4 b5 b6 b7) =
   (\<not> b7 \<and> b6 \<and> (b0 \<or> b1 \<or> b2 \<or> b3 \<or> b4) \<and> \<not> (b4 \<and> b3 \<and> (b2 \<or> b1 \<and> b0)))"
  by (cases b0; cases b1; cases b2; cases b3; cases b4; cases b5; cases b6; cases b7; simp add: ascii_letter_def)

lemma ascii_digit_code [code]: "ascii_digit (Char b0 b1 b2 b3 b4 b5 b6 b7) =
   (\<not> b7 \<and> \<not> b6 \<and> b5 \<and> b4 \<and> (if b3 then \<not> b2 \<and> \<not> b1 else True))"
  by (cases b0; cases b1; cases b2; cases b3; cases b4; cases b5; cases b6; cases b7; simp add: ascii_digit_def)

lemma printable_code [code]: "printable (Char b0 b1 b2 b3 b4 b5 b6 b7) =
   (if b7 then (b6 \<or> b5 \<and> (b4 \<or> b3 \<or> b2 \<or> b1 \<or> b0)) \<and> \<not> (\<not> b6 \<and> b5 \<and> \<not> b4 \<and> b3 \<and> b2 \<and> \<not> b1 \<and> b0)
    else (b6 \<or> b5) \<and> \<not> (b6 \<and> b5 \<and> b4 \<and> b3 \<and> b2 \<and> b1 \<and> b0))"
  by (cases b0; cases b1; cases b2; cases b3; cases b4; cases b5; cases b6; cases b7; simp add: printable_def)

lemma repr_char_code [code]: "repr_char q c =
   (if c = q \<or> c = CHR 0x5C then [CHR 0x5C, c]
    else if c = CHR 0x0A then [CHR 0x5C, CHR ''n'']
    else if c = CHR 0x0D then [CHR 0x5C, CHR ''r'']
    else if c = CHR 0x09 then [CHR 0x5C, CHR ''t'']
    else if printable c then [c]
    else [CHR 0x5C, CHR ''x'', hex_digit (of_char c div 16), hex_digit (of_char c mod 16)])"
proof -
  have "(of_char c :: nat) = 10 \<longleftrightarrow> c = CHR 0x0A" "(of_char c :: nat) = 13 \<longleftrightarrow> c = CHR 0x0D" "(of_char c :: nat) = 9 \<longleftrightarrow> c = CHR 0x09"
    using char_code_iff [of c 10] char_code_iff [of c 13] char_code_iff [of c 9] by (simp_all add: char_of_def bit_simps)
  then show ?thesis
    by (simp add: repr_char_def Let_def)
qed

definition py_repr :: "string \<Rightarrow> string" where
  "py_repr s =
     (let q = (if CHR 0x27 \<in> set s \<and> CHR 0x22 \<notin> set s then CHR 0x22 else CHR 0x27) in
      [q] @ concat (map (repr_char q) s) @ [q])"

text \<open>The list of a value that may be absent.\<close>

definition opt_list :: "'a option \<Rightarrow> 'a list" where
  "opt_list x = (case x of None \<Rightarrow> [] | Some y \<Rightarrow> [y])"

section \<open>Laws\<close>

lemma lines_acc_break_free: "\<forall>c\<in>set s. \<not> line_break c \<Longrightarrow>
    lines_acc w s = (if rev w @ s = [] then [] else [rev w @ s])"
  by (induction s arbitrary: w) auto

lemma py_splitlines_single [text_simps]:
  "\<forall>c\<in>set s. \<not> line_break c \<Longrightarrow> py_splitlines s = (if s = [] then [] else [s])"
  by (simp add: py_splitlines_def lines_acc_break_free)

lemma py_splitlines_empty [simp]: "py_splitlines [] = []"
  by (simp add: py_splitlines_def)

lemma rfind_from_found: "prefix sub t \<Longrightarrow> \<exists>j. rfind_from sub (s @ t) i = Some j"
proof (induction s arbitrary: i)
  case Nil
  then show ?case by (cases t) (auto split: option.split)
next
  case (Cons c s)
  then obtain j where "rfind_from sub (s @ t) (Suc i) = Some j" by blast
  then show ?case by simp
qed

text \<open>The words of a string are nonempty and hold no whitespace, and joining such words with a space
  is undone by splitting.\<close>

definition plain_word :: "string \<Rightarrow> bool" where
  "plain_word w \<longleftrightarrow> w \<noteq> [] \<and> (\<forall>c\<in>set w. \<not> py_isspace c)"

lemma words_acc_plain:
  "\<forall>c\<in>set w. \<not> py_isspace c \<Longrightarrow> x \<in> set (words_acc w s) \<Longrightarrow> plain_word x"
proof (induction s arbitrary: w)
  case Nil
  then show ?case by (auto simp: plain_word_def split: if_splits)
next
  case (Cons c s)
  show ?case
  proof (cases "py_isspace c")
    case True
    with Cons.prems Cons.IH [of "[]"] show ?thesis
      by (auto simp: plain_word_def split: if_splits)
  next
    case False
    with Cons.prems Cons.IH [of "c # w"] show ?thesis by auto
  qed
qed

lemma py_words_plain: "x \<in> set (py_words s) \<Longrightarrow> plain_word x"
  using words_acc_plain [of "[]"] by (simp add: py_words_def)

lemma words_acc_word: "\<forall>c\<in>set x. \<not> py_isspace c \<Longrightarrow> words_acc w (x @ s) = words_acc (rev x @ w) s"
  by (induction x arbitrary: w) auto

lemma py_words_join:
  assumes "\<forall>x\<in>set ws. plain_word x"
  shows "py_words (py_join '' '' ws) = ws"
proof -
  have "words_acc [] (py_join '' '' ws) = ws"
    using assms
  proof (induction ws rule: induct_list012)
    case 1
    then show ?case by simp
  next
    case (2 x)
    then show ?case
      using words_acc_word [of x "[]" "[]"] by (auto simp: plain_word_def)
  next
    case (3 x y zs)
    then have x: "plain_word x" and ih: "words_acc [] (py_join '' '' (y # zs)) = y # zs"
      by auto
    have "words_acc [] (x @ '' '' @ py_join '' '' (y # zs)) = x # words_acc [] (py_join '' '' (y # zs))"
      using x words_acc_word [of x "[]"] by (auto simp: plain_word_def)
    with ih show ?case by simp
  qed
  then show ?thesis by (simp add: py_words_def)
qed

lemma py_words_collapse [simp]: "py_words (collapse_space s) = py_words s"
  using py_words_join [of "py_words s"] py_words_plain by (auto simp: collapse_space_def)

lemma collapse_space_idem [simp]: "collapse_space (collapse_space s) = collapse_space s"
  by (simp add: collapse_space_def [of "collapse_space s"]) (simp add: collapse_space_def)

end
