(* ===== verification/Declared_Reason.thy ===== *)
theory Declared_Reason
  imports Py_Text
begin

text \<open>
  The declared reason of a task filed without an executable criterion
  (\<open>compose_declared_reason\<close> and \<open>declared_reason\<close> of \<^verbatim>\<open>core/work_orders/admission.py\<close>): folded into
  the description behind a marker, and read back from it.
\<close>

definition DECLARED_PREFIX :: string where
  "DECLARED_PREFIX = ''Filed with no executable criterion, on a declared reason:''"

definition text_or_empty :: "string option \<Rightarrow> string" where
  "text_or_empty s = (case s of None \<Rightarrow> [] | Some t \<Rightarrow> t)"

definition compose_declared_reason :: "string option \<Rightarrow> string option \<Rightarrow> string" where
  "compose_declared_reason description why =
     (let declared = collapse_space (text_or_empty why) in
      if declared = [] then text_or_empty description
      else let body = py_rstrip (text_or_empty description);
               separator = (if body = [] then [] else [newline_char, newline_char])
           in body @ separator @ DECLARED_PREFIX @ '' '' @ declared)"

definition declared_reason :: "string option \<Rightarrow> string" where
  "declared_reason description =
     (let text = text_or_empty description in
      case py_rfind text DECLARED_PREFIX of
        None \<Rightarrow> []
      | Some i \<Rightarrow> collapse_space (drop (i + length DECLARED_PREFIX) text))"

section \<open>Reading it back\<close>

lemma rfind_from_None: "rfind_from sub s i = None \<longleftrightarrow> \<not> sublist sub s"
proof (induction s arbitrary: i)
  case (Cons c s)
  then show ?case
    using Cons.IH [of "Suc i"] by (cases "rfind_from sub s (Suc i)") (auto simp: sublist_Cons_right)
qed simp

lemma rfind_from_last:
  "prefix sub (c # t) \<Longrightarrow> \<not> sublist sub t \<Longrightarrow> rfind_from sub (b @ c # t) i = Some (i + length b)"
proof (induction b arbitrary: i)
  case Nil
  then show ?case by (simp add: rfind_from_None [THEN iffD2])
qed simp

lemma sublist_skip: "hd sub \<notin> set y \<Longrightarrow> sub \<noteq> [] \<Longrightarrow> sublist sub (y @ x) \<Longrightarrow> sublist sub x"
  by (induction y) (auto simp: sublist_Cons_right prefix_Cons)

lemma collapse_space_Cons_space [simp]: "collapse_space (CHR '' '' # s) = collapse_space s"
  by (simp add: collapse_space_def py_words_def)

lemma declared_prefix_split: "\<exists>r. DECLARED_PREFIX = CHR ''F'' # r \<and> CHR ''F'' \<notin> set r"
  by (simp add: DECLARED_PREFIX_def)

lemma declared_reason_of_suffix:
  assumes "\<not> sublist DECLARED_PREFIX w"
  shows "declared_reason (Some (b @ DECLARED_PREFIX @ '' '' @ w)) = collapse_space w"
proof -
  obtain r where r: "DECLARED_PREFIX = CHR ''F'' # r" "CHR ''F'' \<notin> set r"
    using declared_prefix_split by blast
  have "hd DECLARED_PREFIX \<notin> set (r @ '' '')" "DECLARED_PREFIX \<noteq> []"
    unfolding r(1) using r(2) by simp_all
  then have "\<not> sublist DECLARED_PREFIX (r @ '' '' @ w)"
    using sublist_skip [of DECLARED_PREFIX "r @ '' ''" w] assms by auto
  then have "py_rfind (b @ DECLARED_PREFIX @ '' '' @ w) DECLARED_PREFIX = Some (length b)"
    using rfind_from_last [of DECLARED_PREFIX "CHR ''F''" "r @ '' '' @ w" b 0]
    unfolding py_rfind_def r(1) by simp
  then show ?thesis
    by (simp add: declared_reason_def text_or_empty_def)
qed

end
