(* ===== verification/Work_Order_Types.thy ===== *)
theory Work_Order_Types
  imports Task_Status
begin

text \<open>
  \<^verbatim>\<open>core/work_orders/type_registry.py\<close>: the registry of work-order types, its registration door
  with every refusal, and the queries the other modules ask of it. The registry is a dictionary
  in declaration order; a registration returns the extended registry or the ValueError. The
  arguments are typed as the signature says, so that the runtime type tests of the door are
  implicit.
\<close>

datatype artifact_class = CODE | CONFIG | DOCUMENT | DATA

text \<open>The class an argument names, if it is one of the four.\<close>

definition artifact_class_named :: "string \<Rightarrow> artifact_class option" where
  "artifact_class_named s =
     map_of [(''code'', CODE), (''config'', CONFIG), (''document'', DOCUMENT), (''data'', DATA)] s"

record work_order_type =
  ty_name :: string
  ty_artifact_class :: artifact_class
  ty_ui_bearing :: bool
  ty_stales_design_brief :: bool
  ty_exempt :: bool

type_synonym type_registry = "work_order_type table"

definition name_char :: "char \<Rightarrow> bool" where
  "name_char c = (let n = (of_char c :: nat) in
     (97 \<le> n \<and> n \<le> 122) \<or> (48 \<le> n \<and> n \<le> 57) \<or> c = CHR ''_'')"

text \<open>\<open>_NAME_RE.fullmatch\<close>\<close>

definition type_name_ok :: "string \<Rightarrow> bool" where
  "type_name_ok s =
     (case s of [] \<Rightarrow> False
      | c # r \<Rightarrow> 97 \<le> (of_char c :: nat) \<and> (of_char c :: nat) \<le> 122 \<and> list_all name_char r)"

definition MAX_NAME_LENGTH :: nat where
  "MAX_NAME_LENGTH = 64"

definition register_work_order_type ::
    "string \<Rightarrow> string \<Rightarrow> bool \<Rightarrow> bool option \<Rightarrow> bool \<Rightarrow> type_registry \<Rightarrow> py_error + type_registry" where
  "register_work_order_type name artifact_class ui_bearing stales_design_brief exempt reg =
     (if \<not> type_name_ok name then Inl (ValueError ''name'')
      else if length name > MAX_NAME_LENGTH then Inl (ValueError ''length'')
      else if map_of reg name \<noteq> None then Inl (ValueError ''already registered'')
      else case artifact_class_named artifact_class of
        None \<Rightarrow> Inl (ValueError ''unknown artifact class'')
      | Some ac \<Rightarrow>
          let stales = (case stales_design_brief of None \<Rightarrow> ui_bearing | Some b \<Rightarrow> b) in
          if ui_bearing \<and> \<not> stales then Inl (ValueError ''ui_bearing does not stale'')
          else Inr (reg @ [(name, \<lparr>ty_name = name, ty_artifact_class = ac, ty_ui_bearing = ui_bearing,
                 ty_stales_design_brief = stales, ty_exempt = exempt\<rparr>)]))"

definition work_order_type_names :: "type_registry \<Rightarrow> string list" where
  "work_order_type_names reg = keys reg"

definition get_work_order_type :: "string option \<Rightarrow> type_registry \<Rightarrow> work_order_type option" where
  "get_work_order_type name reg = (if truthy name then map_of reg (the name) else None)"

definition artifact_class_for :: "string option \<Rightarrow> type_registry \<Rightarrow> artifact_class option" where
  "artifact_class_for name reg = map_option ty_artifact_class (get_work_order_type name reg)"

definition is_ui_bearing :: "string option \<Rightarrow> type_registry \<Rightarrow> bool" where
  "is_ui_bearing name reg = (case get_work_order_type name reg of None \<Rightarrow> False | Some t \<Rightarrow> ty_ui_bearing t)"

definition is_verification_exempt :: "string option \<Rightarrow> type_registry \<Rightarrow> bool" where
  "is_verification_exempt name reg = (case get_work_order_type name reg of None \<Rightarrow> False | Some t \<Rightarrow> ty_exempt t)"

definition design_brief_staling_types :: "type_registry \<Rightarrow> string list" where
  "design_brief_staling_types reg =
     sort (map ty_name (filter ty_stales_design_brief (map snd reg)))"

text \<open>The registrations at import, in order.\<close>

definition built_in_types :: "py_error + type_registry" where
  "built_in_types =
     fold (\<lambda>reg_type acc. and_then acc reg_type)
       [register_work_order_type ''api_endpoint'' ''code'' False None False,
        register_work_order_type ''authentication'' ''code'' False None False,
        register_work_order_type ''data_pipeline'' ''data'' False None False,
        register_work_order_type ''deployment'' ''config'' False None False,
        register_work_order_type ''documentation'' ''document'' False None True,
        register_work_order_type ''game_mechanic'' ''code'' False None False,
        register_work_order_type ''infrastructure'' ''config'' False None False,
        register_work_order_type ''saas_feature'' ''code'' False (Some True) False,
        register_work_order_type ''ui_component'' ''code'' True None False,
        register_work_order_type ''ui_page'' ''code'' True None False]
       (Inr [])"

section \<open>Registrations\<close>

text \<open>What holds of every registry the door can produce.\<close>

definition wf_types :: "type_registry \<Rightarrow> bool" where
  "wf_types reg \<longleftrightarrow> distinct (keys reg) \<and>
     list_all (\<lambda>(k, t). ty_name t = k \<and> type_name_ok k \<and> length k \<le> MAX_NAME_LENGTH \<and>
       (ty_ui_bearing t \<longrightarrow> ty_stales_design_brief t)) reg"

inductive reachable_types :: "type_registry \<Rightarrow> bool" where
  empty: "reachable_types []"
| register: "reachable_types reg \<Longrightarrow> register_work_order_type n a u s x reg = Inr reg' \<Longrightarrow> reachable_types reg'"

lemma register_Inr:
  assumes "register_work_order_type n a u s x reg = Inr reg'"
  shows "\<exists>ac st. reg' = reg @ [(n, \<lparr>ty_name = n, ty_artifact_class = ac, ty_ui_bearing = u,
           ty_stales_design_brief = st, ty_exempt = x\<rparr>)] \<and>
         map_of reg n = None \<and> type_name_ok n \<and> length n \<le> MAX_NAME_LENGTH \<and> (u \<longrightarrow> st)"
proof -
  have g: "\<not> \<not> type_name_ok n" "\<not> length n > MAX_NAME_LENGTH" "map_of reg n = None"
    using assms by (simp_all add: register_work_order_type_def split: if_splits)
  with assms obtain ac where "artifact_class_named a = Some ac"
    by (cases "artifact_class_named a") (simp_all add: register_work_order_type_def)
  with g assms show ?thesis
    by (intro exI [of _ ac] exI [of _ "case s of None \<Rightarrow> u | Some b \<Rightarrow> b"])
      (simp add: register_work_order_type_def Let_def split: if_splits)
qed

lemma register_cases:
  assumes "register_work_order_type n a u s x reg = Inr reg'"
  obtains t where "reg' = reg @ [(n, t)]" "map_of reg n = None" "ty_name t = n" "type_name_ok n"
    "length n \<le> MAX_NAME_LENGTH" "ty_ui_bearing t \<longrightarrow> ty_stales_design_brief t" "ty_ui_bearing t = u"
proof -
  from register_Inr [OF assms] obtain ac st where "reg' = reg @ [(n, \<lparr>ty_name = n, ty_artifact_class = ac,
      ty_ui_bearing = u, ty_stales_design_brief = st, ty_exempt = x\<rparr>)]" "map_of reg n = None" "type_name_ok n"
    "length n \<le> MAX_NAME_LENGTH" "u \<longrightarrow> st"
    by blast
  then show thesis
    using that [of "\<lparr>ty_name = n, ty_artifact_class = ac, ty_ui_bearing = u,
      ty_stales_design_brief = st, ty_exempt = x\<rparr>"] by simp
qed

lemma wf_reachable_types: "reachable_types reg \<Longrightarrow> wf_types reg"
proof (induction rule: reachable_types.induct)
  case (register reg n a u s x reg')
  from register.hyps(2) show ?case
    by (rule register_cases) (use register.IH in \<open>auto simp: wf_types_def map_of_eq_None_iff\<close>)
qed (simp add: wf_types_def)

lemma lookup_kept:
  assumes "register_work_order_type n a u s x reg = Inr reg'" and "map_of reg m = Some t"
  shows "map_of reg' m = Some t"
  using assms by (auto elim!: register_cases simp: map_add_def)

text \<open>Registrations in sequence.\<close>

lemma fold_reachable:
  fixes fs :: "(type_registry \<Rightarrow> py_error + type_registry) list"
  assumes "reachable_types reg" and "fold (\<lambda>f acc. and_then acc f) fs (Inr reg) = Inr reg'"
    and "list_all (\<lambda>f. \<forall>r r'. reachable_types r \<longrightarrow> f r = Inr r' \<longrightarrow> reachable_types r') fs"
  shows "reachable_types reg'"
  using assms
proof (induction fs arbitrary: reg)
  case (Cons f fs)
  show ?case
  proof (cases "f reg")
    case (Inl e)
    have "fold (\<lambda>f acc. and_then acc f) fs (Inl e :: py_error + type_registry) = Inl e" for fs :: "(type_registry \<Rightarrow> py_error + type_registry) list"
      by (induction fs) simp_all
    with Inl Cons.prems(2) show ?thesis by simp
  next
    case (Inr reg1)
    with Cons show ?thesis by auto
  qed
qed simp

lemma built_in_names:
  "map_sum id work_order_type_names built_in_types = Inr [''api_endpoint'', ''authentication'', ''data_pipeline'',
     ''deployment'', ''documentation'', ''game_mechanic'', ''infrastructure'', ''saas_feature'', ''ui_component'',
     ''ui_page'']"
  by code_simp

lemma built_in_reachable:
  assumes "built_in_types = Inr reg"
  shows "reachable_types reg"
  using reachable_types.empty assms unfolding built_in_types_def
  by (rule fold_reachable) (simp add: reachable_types.register)

section \<open>Properties\<close>

text \<open>The type registry. In every registry the door can produce, names are unique and well
  formed, a lookup returns the entry of that name, and every type that ships a surface is among the
  types whose closing stales a design brief; and a successful registration extends the registry by
  the new name at the end and keeps every earlier entry.\<close>

theorem type_registry_sound:
  assumes "reachable_types reg"
  shows "wf_types reg \<and>
    (\<forall>n. is_ui_bearing (Some n) reg \<longrightarrow> n \<in> set (design_brief_staling_types reg)) \<and>
    (\<forall>n a u s x reg'. register_work_order_type n a u s x reg = Inr reg' \<longrightarrow>
       work_order_type_names reg' = work_order_type_names reg @ [n] \<and> is_ui_bearing (Some n) reg' = u \<and>
       (\<forall>m t. get_work_order_type (Some m) reg = Some t \<longrightarrow> get_work_order_type (Some m) reg' = Some t))"
proof (intro conjI allI impI)
  show wf: "wf_types reg"
    by (rule wf_reachable_types [OF assms])
  fix n assume "is_ui_bearing (Some n) reg"
  then obtain t where t: "map_of reg n = Some t" "ty_ui_bearing t"
    by (auto simp: is_ui_bearing_def get_work_order_type_def split: option.splits if_splits)
  from map_of_SomeD [OF t(1)] wf t(2) have "ty_name t = n" "ty_stales_design_brief t" "t \<in> set (map snd reg)"
    by (auto simp: wf_types_def list_all_iff intro: image_eqI [where x = "(n, t)"])
  then show "n \<in> set (design_brief_staling_types reg)"
    by (auto simp: design_brief_staling_types_def)
next
  fix n a u s x reg' m t
  assume r: "register_work_order_type n a u s x reg = Inr reg'"
  then show "work_order_type_names reg' = work_order_type_names reg @ [n]"
    by (auto elim!: register_cases simp: work_order_type_names_def)
  from r show "is_ui_bearing (Some n) reg' = u"
    by (auto elim!: register_cases simp: is_ui_bearing_def get_work_order_type_def type_name_ok_def map_add_def)
  show "get_work_order_type (Some m) reg' = Some t" if "get_work_order_type (Some m) reg = Some t"
    using that lookup_kept [OF r] by (auto simp: get_work_order_type_def split: if_splits)
qed

theorem type_registry_sound_witness:
  "case built_in_types of Inl e \<Rightarrow> False | Inr reg \<Rightarrow> wf_types reg"
proof (cases built_in_types)
  case (Inl e)
  from built_in_names [unfolded Inl map_sum.simps] show ?thesis
    by (rule Inl_Inr_False [THEN iffD1, THEN FalseE])
next
  case (Inr reg)
  show ?thesis
    unfolding Inr sum.case by (rule type_registry_sound [OF built_in_reachable [OF Inr], THEN conjunct1])
qed

end
