(* ===== verification/Work_Order_Mutations.thy ===== *)
theory Work_Order_Mutations
  imports Spool Business_Engine Declared_Reason Work_Order_Types
begin

text \<open>
  The mutation layer: \<^verbatim>\<open>core/work_orders/mutations.py\<close>, \<^verbatim>\<open>ordering.py\<close>, the phase logic of
  \<^verbatim>\<open>start_main.py\<close> and \<^verbatim>\<open>close_main.py\<close>, and \<open>_check_sequence_order\<close> of \<^verbatim>\<open>start_shared.py\<close>. An
  operation reads and writes the authority (the business tables, the dependency edges and the
  spool) and returns what happened. The error texts of the source are the constructors of
  \<open>refusal\<close>, one per early return.

  The clock reading, the event id and whether the spool can be written are arguments. So are
  the verdicts of the checks that live elsewhere (whether the review holds a push, the gate
  failures and the state of main of a close, the declared work-order types, the admission check
  of a task), and the projection tick a creator runs.
\<close>

section \<open>The authority\<close>

record authority =
  au_db :: business_db
  au_deps :: "(string \<times> string) list"
  au_spool :: spool

record call =
  c_now :: string
  c_uuid :: string
  c_spool_ok :: bool
  c_remembers :: bool

datatype refusal =
    NotFound | WrongWorkOrder | AlreadyComplete | NotATransition | PhaseRefused string
  | ReviewHolds | NotBlockable | NotBlocked | NotClosed | MilestoneRequired | UnknownPriority
  | UnknownType | DescriptionTooShort | ProjectNotFound | MilestoneNotFound | NothingToCheck
  | SelfDependency | DependencyNotFound | EdgeNotFound | BriefRefused | BriefConfirmation
  | BlockedByDependencies | OutOfSequence | ReviewRequired | GatesFailed | MainRed

text \<open>What an operation reports: a refusal, nothing to do, or done. The flag of a done operation says
  whether the event could not be written; only \<open>advance_work_order\<close>, \<open>start_task\<close> and
  \<open>mark_task_done\<close> tell their caller, the others swallow the exception.\<close>

datatype outcome = Refused refusal | Already | Done bool

definition wo_of :: "string \<Rightarrow> authority \<Rightarrow> wo_row option" where
  "wo_of w au = map_of (work_orders (au_db au)) w"

definition update_wo :: "string \<Rightarrow> (wo_row \<Rightarrow> wo_row) \<Rightarrow> authority \<Rightarrow> authority" where
  "update_wo w f au =
     au\<lparr>au_db := (au_db au)\<lparr>work_orders := tbl_update w f (work_orders (au_db au))\<rparr>\<rparr>"

section \<open>Emitting\<close>

text \<open>An envelope from the dictionaries a mutation builds, in which a value may be None.\<close>

definition make_envelope ::
    "call \<Rightarrow> string \<Rightarrow> (string \<times> string option) list \<Rightarrow> (string \<times> string option) list \<Rightarrow> envelope" where
  "make_envelope c ty payload trace =
     (let strings = List.map_filter (\<lambda>(k, v). map_option (Pair k) v) in
      \<lparr>env_event_id = Some (c_uuid c), env_event_type = Some ty, env_timestamp = Some (c_now c),
       env_schema_version = Some 1, env_session_id = None, env_project_id = None, env_skill_id = None,
       env_trace = strings trace, env_payload = strings payload, env_payload_ints = [],
       env_payload_other = map fst (filter (\<lambda>(k, v). v = None) payload)\<rparr>)"

text \<open>The try block around \<open>write_event\<close>: an exception leaves the spool as it was.\<close>

definition emit :: "call \<Rightarrow> envelope \<Rightarrow> authority \<Rightarrow> authority \<times> bool" where
  "emit c e au =
     (if \<not> c_spool_ok c then (au, True)
      else case write_event (c_uuid c) e (au_spool au) of
        Inl err \<Rightarrow> (au, True)
      | Inr sp \<Rightarrow> (au\<lparr>au_spool := sp\<rparr>, False))"

definition sdlc_trace ::
    "string \<Rightarrow> string option \<Rightarrow> (string \<times> string option) list \<Rightarrow> string option
      \<Rightarrow> (string \<times> string option) list" where
  "sdlc_trace w project_id extra actor =
     [(''domain'', Some ''sdlc''), (''work_order_id'', Some w), (''project_id'', project_id),
      (''attribution_status'', Some ''fully_attributed'')] @ extra @
     (if truthy actor then [(''mcp_client'', actor)] else [])"

section \<open>Work-order transitions\<close>

definition ADVANCE_EVENTS :: dict where
  "ADVANCE_EVENTS = [(''in_review'', WORK_ORDER_REVIEW_REQUESTED), (''pushed'', WORK_ORDER_PUSHED),
     (''ci_issues'', WORK_ORDER_CI_FAILED)]"

definition advance_work_order ::
    "(string \<Rightarrow> bool) \<Rightarrow> call \<Rightarrow> string \<Rightarrow> string \<Rightarrow> string option \<Rightarrow> string option \<Rightarrow> authority
      \<Rightarrow> outcome \<times> authority" where
  "advance_work_order review_blocks c w to note actor au =
     (case map_of ADVANCE_EVENTS to of
        None \<Rightarrow> (Refused NotATransition, au)
      | Some event_type \<Rightarrow>
          (case wo_of w au of
             None \<Rightarrow> (Refused NotFound, au)
           | Some r \<Rightarrow>
               let current = wo_status r in
               if current = to then (Already, au)
               else case transition_refusal w (Some current) to of
                 Some text \<Rightarrow> (Refused (PhaseRefused text), au)
               | None \<Rightarrow>
                   if to = ''pushed'' \<and> review_blocks w then (Refused ReviewHolds, au)
                   else (case status_for event_type True of
                     Inl e \<Rightarrow> (Refused NotATransition, au)
                   | Inr status \<Rightarrow>
                       let now = c_now c;
                           au1 = update_wo w (\<lambda>r. if to = ''ci_issues''
                             then r\<lparr>wo_status := status, wo_priority := ''blocker'',
                                    wo_updated_at := Some now, wo_last_updated_at := now\<rparr>
                             else r\<lparr>wo_status := status, wo_updated_at := Some now,
                                    wo_last_updated_at := now\<rparr>) au;
                           payload = [(''work_order_id'', Some w), (''title'', wo_title r),
                             (''project_id'', wo_project_id r), (''from_status'', Some current)] @
                             (if truthy note then [(''note'', note)] else []);
                           (au2, failed) = emit c (make_envelope c event_type payload
                             (sdlc_trace w (wo_project_id r) [] actor)) au1
                       in (Done failed, au2))))"

definition block_work_order :: "call \<Rightarrow> string \<Rightarrow> string \<Rightarrow> authority \<Rightarrow> outcome \<times> authority" where
  "block_work_order c w reason au =
     (case wo_of w au of
        None \<Rightarrow> (Refused NotFound, au)
      | Some r \<Rightarrow>
          let current = wo_status r in
          if current \<notin> set BLOCKABLE_WORK_ORDER_STATUSES then (Refused NotBlockable, au)
          else (case status_for WORK_ORDER_BLOCKED True of
            Inl e \<Rightarrow> (Refused NotBlockable, au)
          | Inr status \<Rightarrow>
              let now = c_now c;
                  au1 = update_wo w (\<lambda>r.
                    let r1 = r\<lparr>wo_status := status, wo_blocked_at := Some now,
                               wo_block_reason := Some reason, wo_updated_at := Some now,
                               wo_last_updated_at := now\<rparr>
                    in if c_remembers c then r1\<lparr>wo_blocked_from_status := Some current\<rparr> else r1) au;
                  (au2, failed) = emit c (make_envelope c WORK_ORDER_BLOCKED
                    [(''work_order_id'', Some w), (''title'', wo_title r), (''project_id'', wo_project_id r),
                     (''reason'', Some reason), (''from_status'', Some current)]
                    (sdlc_trace w (wo_project_id r) [] None)) au1
              in (Done failed, au2)))"

definition unblock_work_order :: "call \<Rightarrow> string \<Rightarrow> authority \<Rightarrow> outcome \<times> authority" where
  "unblock_work_order c w au =
     (case wo_of w au of
        None \<Rightarrow> (Refused NotFound, au)
      | Some r \<Rightarrow>
          if wo_status r \<noteq> ''blocked'' then (Refused NotBlocked, au)
          else (case status_for WORK_ORDER_UNBLOCKED True of
            Inl e \<Rightarrow> (Refused NotBlocked, au)
          | Inr fallback \<Rightarrow>
              let now = c_now c;
                  recorded = (if c_remembers c then wo_blocked_from_status r else None);
                  back_to = (case recorded of
                      None \<Rightarrow> fallback
                    | Some s \<Rightarrow> if s \<in> set BLOCKABLE_WORK_ORDER_STATUSES then s else fallback);
                  au1 = update_wo w (\<lambda>r.
                    let r1 = r\<lparr>wo_status := back_to, wo_unblocked_at := Some now,
                               wo_block_reason := None, wo_updated_at := Some now,
                               wo_last_updated_at := now\<rparr>
                    in if c_remembers c then r1\<lparr>wo_blocked_from_status := None\<rparr> else r1) au;
                  (au2, failed) = emit c (make_envelope c WORK_ORDER_UNBLOCKED
                    [(''work_order_id'', Some w), (''title'', wo_title r), (''project_id'', wo_project_id r),
                     (''to_status'', Some back_to)]
                    (sdlc_trace w (wo_project_id r) [] None)) au1
              in (Done failed, au2)))"

definition reopen_work_order ::
    "(authority \<Rightarrow> authority) \<Rightarrow> call \<Rightarrow> string \<Rightarrow> string \<Rightarrow> authority \<Rightarrow> outcome \<times> authority" where
  "reopen_work_order sync_tick c w reason au =
     (case wo_of w au of
        None \<Rightarrow> (Refused NotFound, au)
      | Some r \<Rightarrow>
          let prev_status = wo_status r in
          if prev_status \<noteq> ''closed'' then (Refused NotClosed, au)
          else (case status_for WORK_ORDER_REOPENED True of
            Inl e \<Rightarrow> (Refused NotClosed, au)
          | Inr status \<Rightarrow>
              let now = c_now c;
                  au1 = update_wo w (\<lambda>r. r\<lparr>wo_status := status, wo_updated_at := Some now,
                          wo_last_updated_at := now\<rparr>) au;
                  (au2, failed) = emit c (make_envelope c WORK_ORDER_REOPENED
                    [(''work_order_id'', Some w), (''title'', wo_title r), (''project_id'', wo_project_id r),
                     (''previous_status'', Some prev_status), (''reason'', Some reason)]
                    (sdlc_trace w (wo_project_id r) [] None)) au1
              in (Done failed, sync_tick au2)))"

text \<open>The predecessors in the same milestone with a lower sequence order that are not terminal.\<close>

definition check_sequence_order :: "string \<Rightarrow> authority \<Rightarrow> string list" where
  "check_sequence_order w au =
     (case wo_of w au of
        None \<Rightarrow> []
      | Some r \<Rightarrow>
          (case (wo_milestone_id r, wo_sequence_order r) of
             (Some m, Some my_seq) \<Rightarrow>
               map fst (sort_key (\<lambda>(k, x). the (wo_sequence_order x))
                 (filter (\<lambda>(k, x). wo_milestone_id x = Some m \<and> k \<noteq> w \<and>
                    (case wo_sequence_order x of None \<Rightarrow> False | Some s \<Rightarrow> s < my_seq) \<and>
                    wo_status x \<notin> set TERMINAL_WO_STATUSES) (work_orders (au_db au))))
           | _ \<Rightarrow> []))"

text \<open>What the brief reader reports of the work order, as far as starting depends on it.\<close>

record brief =
  br_ok :: bool
  br_status :: "string option"
  br_warning :: bool
  br_blocking_deps :: nat
  br_title :: "string option"
  br_type :: "string option"
  br_project_id :: "string option"
  br_milestone_id :: "string option"

definition start_work_order ::
    "call \<Rightarrow> brief \<Rightarrow> bool \<Rightarrow> bool \<Rightarrow> string option \<Rightarrow> string \<Rightarrow> authority \<Rightarrow> outcome \<times> authority" where
  "start_work_order c brief accept_no_brief in_sequence actor w au =
     (if \<not> br_ok brief then (Refused BriefRefused, au)
      else case (if br_status brief = Some ''in_progress'' then None
                 else transition_refusal w (br_status brief) ''in_progress'') of
        Some text \<Rightarrow> (Refused (PhaseRefused text), au)
      | None \<Rightarrow>
          if br_warning brief \<and> \<not> accept_no_brief then (Refused BriefConfirmation, au)
          else if br_blocking_deps brief > 0 then (Refused BlockedByDependencies, au)
          else if check_sequence_order w au \<noteq> [] \<and> in_sequence then (Refused OutOfSequence, au)
          else
            (let now = c_now c;
                 (au1, failed) = emit c (make_envelope c WORK_ORDER_STARTED
                   [(''work_order_id'', Some w), (''title'', br_title brief), (''type'', br_type brief),
                    (''project_id'', br_project_id brief)]
                   (sdlc_trace w (br_project_id brief) [(''milestone_id'', br_milestone_id brief)] actor)) au
             in case status_for WORK_ORDER_STARTED True of
                  Inl e \<Rightarrow> (Done failed, au1)
                | Inr status \<Rightarrow>
                    (Done failed, update_wo w (\<lambda>r. r\<lparr>wo_status := status, wo_started_at := Some now,
                       wo_updated_at := Some now, wo_last_updated_at := now\<rparr>) au1)))"

text \<open>The events of a forced close: one per gate failure, each with its own id.\<close>

definition emit_bypasses ::
    "call \<Rightarrow> (nat \<Rightarrow> string) \<Rightarrow> string \<Rightarrow> (string \<times> string option) list \<Rightarrow> string list \<Rightarrow> authority \<Rightarrow> authority" where
  "emit_bypasses c uuids w trace gate_failures au =
     fold (\<lambda>(i, reason) a. fst (emit (c\<lparr>c_uuid := uuids i\<rparr>) (make_envelope (c\<lparr>c_uuid := uuids i\<rparr>) ''gate.bypassed''
         [(''work_order_id'', Some w), (''gate'', Some (hd (split_char (CHR '':'') reason))), (''reason'', Some reason)]
         trace) a)) (enumerate 0 gate_failures) au"

text \<open>The phase check at the top of a close.\<close>

definition close_phase_refusal :: "string \<Rightarrow> authority \<Rightarrow> string option" where
  "close_phase_refusal w au =
     (case wo_of w au of None \<Rightarrow> None | Some r \<Rightarrow> transition_refusal w (Some (wo_status r)) ''closed'')"

text \<open>Closing. \<open>window\<close> is what other processes do to the authority between the phase check and
  the conditional write (verification runs in between); the gate failures, the missing review of
  an escalated work order and the state of main are what the checks in between find. The title,
  the project and the milestone, which no lifecycle operation changes, are read with the row.\<close>

definition close_work_order ::
    "call \<Rightarrow> (authority \<Rightarrow> authority) \<Rightarrow> string list \<Rightarrow> bool \<Rightarrow> bool \<Rightarrow> bool \<Rightarrow> (nat \<Rightarrow> string) \<Rightarrow> string option
      \<Rightarrow> string \<Rightarrow> authority \<Rightarrow> outcome \<times> authority" where
  "close_work_order c window gate_failures review_missing main_red force uuids actor w au0 =
     (case close_phase_refusal w au0 of
        Some text \<Rightarrow> (Refused (PhaseRefused text), au0)
      | None \<Rightarrow>
          let au = window au0 in
          (case wo_of w au of
             None \<Rightarrow> (Refused NotFound, au)
           | Some r \<Rightarrow>
               if review_missing then (Refused ReviewRequired, au)
               else if gate_failures \<noteq> [] \<and> \<not> force then (Refused GatesFailed, au)
               else if main_red \<and> \<not> force then (Refused MainRed, au)
               else if wo_status r \<notin> set CLOSEABLE_WORK_ORDER_STATUSES
               then (Refused (PhaseRefused (case transition_refusal w (Some (wo_status r)) ''closed'' of
                       None \<Rightarrow> ''changed phase while closing'' | Some text \<Rightarrow> text)), au)
               else (case status_for WORK_ORDER_CLOSED True of
                 Inl e \<Rightarrow> (Refused NotFound, au)
               | Inr status \<Rightarrow>
                   let now = c_now c;
                       au1 = update_wo w (\<lambda>r. r\<lparr>wo_status := status, wo_closed_at := Some now,
                               wo_updated_at := Some now, wo_last_updated_at := now\<rparr>) au;
                       trace = sdlc_trace w (wo_project_id r) [(''milestone_id'', wo_milestone_id r)] actor;
                       au2 = (if force then emit_bypasses c uuids w trace gate_failures au1 else au1);
                       (au3, failed) = emit c ((make_envelope c WORK_ORDER_CLOSED
                         [(''work_order_id'', Some w), (''title'', wo_title r), (''project_id'', wo_project_id r)]
                         trace)\<lparr>env_payload_other :=
                           [''lane_review'', ''forced''] @ map fst (filter (\<lambda>(k, v). v = None)
                             [(''title'', wo_title r), (''project_id'', wo_project_id r)])\<rparr>) au2
                   in (Done failed, au3))))"

section \<open>Task mutations\<close>

definition task_of :: "string \<Rightarrow> authority \<Rightarrow> task_row option" where
  "task_of k au = map_of (tasks (au_db au)) k"

definition update_task :: "string \<Rightarrow> (task_row \<Rightarrow> task_row) \<Rightarrow> authority \<Rightarrow> authority" where
  "update_task k f au = au\<lparr>au_db := (au_db au)\<lparr>tasks := tbl_update k f (tasks (au_db au))\<rparr>\<rparr>"

text \<open>The milestone the LEFT JOIN on the work order finds.\<close>

definition milestone_of :: "string \<Rightarrow> authority \<Rightarrow> string option" where
  "milestone_of w au = (case wo_of w au of None \<Rightarrow> None | Some r \<Rightarrow> wo_milestone_id r)"

definition task_trace ::
    "string \<Rightarrow> string \<Rightarrow> string option \<Rightarrow> string option \<Rightarrow> string option \<Rightarrow> (string \<times> string option) list" where
  "task_trace k w project_id milestone_id actor =
     [(''domain'', Some ''sdlc''), (''project_id'', project_id), (''milestone_id'', milestone_id),
      (''work_order_id'', Some w), (''task_id'', Some k),
      (''attribution_status'', Some ''fully_attributed'')] @
     (if truthy actor then [(''mcp_client'', actor)] else [])"

text \<open>The result carries the number of sibling tasks in progress.\<close>

definition start_task ::
    "call \<Rightarrow> string \<Rightarrow> string \<Rightarrow> string option \<Rightarrow> authority \<Rightarrow> (outcome \<times> nat) \<times> authority" where
  "start_task c w k actor au =
     (case task_of k au of
        None \<Rightarrow> ((Refused NotFound, 0), au)
      | Some t \<Rightarrow>
          if t_work_order_id t \<noteq> w then ((Refused WrongWorkOrder, 0), au)
          else if t_status t = ''complete'' then ((Refused AlreadyComplete, 0), au)
          else if t_status t = ''in_progress'' then ((Already, 0), au)
          else (case status_for TASK_STARTED False of
            Inl e \<Rightarrow> ((Refused NotATransition, 0), au)
          | Inr status \<Rightarrow>
              let now = c_now c;
                  au1 = update_task k (\<lambda>t. t\<lparr>t_status := status, t_updated_at := now\<rparr>) au;
                  siblings = length (filter (\<lambda>(k', t'). t_work_order_id t' = w \<and> t_status t' = ''in_progress'' \<and>
                    k' \<noteq> k) (tasks (au_db au1)));
                  (au2, failed) = emit c (make_envelope c TASK_STARTED
                    [(''task_id'', Some k), (''work_order_id'', Some w)]
                    (task_trace k w (Some (t_project_id t)) (milestone_of w au) actor)) au1
              in ((Done failed, siblings), au2)))"

record task_done_result =
  td_ok :: bool
  td_status :: string
  td_remaining :: int
  td_read_model_pending :: bool
  td_all_tasks_complete :: bool

text \<open>\<open>mark_task_done\<close> without the index of the task, the active-task marker and the
  commit-ownership and delivery-boundary bookkeeping. \<open>sync_tick\<close> is the projection pass, \<open>stalled\<close> what the read-back finds in the dead-letter and retry tables.\<close>

definition mark_task_done ::
    "(authority \<Rightarrow> authority) \<Rightarrow> (authority \<Rightarrow> bool) \<Rightarrow> call \<Rightarrow> string \<Rightarrow> string \<Rightarrow> string option \<Rightarrow> authority
      \<Rightarrow> (refusal + task_done_result) \<times> authority" where
  "mark_task_done sync_tick stalled c w k actor au =
     (case task_of k au of
        None \<Rightarrow> (Inl NotFound, au)
      | Some t \<Rightarrow>
          if t_work_order_id t \<noteq> w then (Inl WrongWorkOrder, au)
          else
            let settled_statuses = TASK_DONE_STATUSES @ TASK_ABANDONED_STATUSES;
                remaining0 = int (length (filter (\<lambda>(k', t'). t_work_order_id t' = w \<and>
                  t_status t' \<notin> set settled_statuses) (tasks (au_db au))));
                remaining = (if is_open (Some (t_status t)) then remaining0 - 1 else remaining0);
                env = (make_envelope c TASK_COMPLETED [(''task_id'', Some k), (''work_order_id'', Some w)]
                  (task_trace k w (Some (t_project_id t)) (milestone_of w au) actor))
                  \<lparr>env_payload_ints := [(''tasks_remaining'', remaining)]\<rparr>;
                (au1, failed) = emit c env au;
                au2 = sync_tick au1;
                observed = map_option t_status (task_of k au2);
                recorded = (observed \<in> Some ` set TASK_DONE_STATUSES);
                is_ok = (\<not> failed \<and> (recorded \<or> \<not> stalled au2))
            in (Inr \<lparr>td_ok = is_ok, td_status = the (py_or observed (Some ''unknown'')),
                     td_remaining = remaining, td_read_model_pending = (\<not> recorded \<and> is_ok),
                     td_all_tasks_complete = (is_ok \<and> remaining = 0)\<rparr>, au2))"

section \<open>Creation\<close>

definition MIN_DESCRIPTION_CHARS :: nat where
  "MIN_DESCRIPTION_CHARS = 60"

text \<open>A pure emitter: the row is the projection's. \<open>w\<close> is the fresh work-order id.\<close>

definition create_work_order ::
    "(authority \<Rightarrow> authority) \<Rightarrow> type_registry \<Rightarrow> call \<Rightarrow> string \<Rightarrow> string \<Rightarrow> string option \<Rightarrow> string \<Rightarrow> string
      \<Rightarrow> string option \<Rightarrow> string \<Rightarrow> string option \<Rightarrow> boundary_arg option \<Rightarrow> string option \<Rightarrow> authority
      \<Rightarrow> outcome \<times> authority" where
  "create_work_order sync_tick types c w project_id milestone_id title description work_order_type priority
     originating_symptom module_boundary actor au =
     (case milestone_id of
        None \<Rightarrow> (Refused MilestoneRequired, au)
      | Some m \<Rightarrow>
          if priority \<notin> set WORK_ORDER_PRIORITIES then (Refused UnknownPriority, au)
          else if truthy work_order_type \<and> the work_order_type \<notin> set (work_order_type_names types)
          then (Refused UnknownType, au)
          else if length (py_strip description) < MIN_DESCRIPTION_CHARS then (Refused DescriptionTooShort, au)
          else if map_of (projects (au_db au)) project_id = None then (Refused ProjectNotFound, au)
          else if map_of (milestones (au_db au)) m = None then (Refused MilestoneNotFound, au)
          else
            let payload = [(''title'', Some title), (''status'', Some ''created''),
                  (''type'', py_or work_order_type (Some [])), (''priority'', Some priority)] @
                  (if originating_symptom \<noteq> None then [(''originating_symptom'', originating_symptom)] else []) @
                  [(''description'', Some (compose_module_boundary description module_boundary))];
                (au1, failed) = emit c (make_envelope c WORK_ORDER_CREATED payload
                  ([(''domain'', Some ''sdlc''), (''project_id'', Some project_id), (''milestone_id'', Some m),
                    (''work_order_id'', Some w), (''attribution_status'', Some ''fully_attributed'')] @
                   (if truthy actor then [(''mcp_client'', actor)] else []))) au
            in (Done failed, sync_tick au1))"

text \<open>\<open>criterion_refused\<close> is the verdict of the criterion check (it reads test files); a carried
  task is not checked.\<close>

definition create_task ::
    "(authority \<Rightarrow> authority) \<Rightarrow> (string option \<Rightarrow> string option \<Rightarrow> string \<Rightarrow> bool) \<Rightarrow> call \<Rightarrow> string \<Rightarrow> string
      \<Rightarrow> string \<Rightarrow> string \<Rightarrow> string \<Rightarrow> string option \<Rightarrow> string option \<Rightarrow> string option \<Rightarrow> string option \<Rightarrow> authority
      \<Rightarrow> outcome \<times> authority" where
  "create_task sync_tick criterion_refused c k w project_id title description acceptance_criteria why
     carried_from actor au =
     (if carried_from = None \<and> criterion_refused acceptance_criteria why description
      then (Refused NothingToCheck, au)
      else
        let description1 =
              (if carried_from = None \<and> \<not> truthy acceptance_criteria \<and> truthy why
               then compose_declared_reason (Some description) why else description);
            (au1, failed) = emit c (make_envelope c TASK_CREATED
              [(''title'', Some title), (''description'', Some description1),
               (''acceptance_criteria'', acceptance_criteria), (''status'', Some ''created'')]
              (task_trace k w (Some project_id) (milestone_of w au) actor)) au
        in (Done failed, sync_tick au1))"

definition set_originating_symptom :: "call \<Rightarrow> string \<Rightarrow> string \<Rightarrow> authority \<Rightarrow> outcome \<times> authority" where
  "set_originating_symptom c w symptom au =
     (case wo_of w au of
        None \<Rightarrow> (Refused NotFound, au)
      | Some r \<Rightarrow>
          (Done False, update_wo w (\<lambda>r. r\<lparr>wo_originating_symptom := Some symptom,
             wo_updated_at := Some (c_now c)\<rparr>) au))"

section \<open>Ordering\<close>

definition ordering_trace :: "string \<Rightarrow> string option \<Rightarrow> (string \<times> string option) list" where
  "ordering_trace w project_id = sdlc_trace w project_id [] None"

definition set_sequence_order :: "call \<Rightarrow> string \<Rightarrow> int \<Rightarrow> authority \<Rightarrow> outcome \<times> authority" where
  "set_sequence_order c w n au =
     (case wo_of w au of
        None \<Rightarrow> (Refused NotFound, au)
      | Some r \<Rightarrow>
          let now = c_now c;
              au1 = update_wo w (\<lambda>r. r\<lparr>wo_sequence_order := Some n, wo_updated_at := Some now,
                      wo_last_updated_at := now\<rparr>) au;
              (au2, failed) = emit c ((make_envelope c ''work_order.reordered''
                [(''work_order_id'', Some w), (''title'', wo_title r), (''project_id'', wo_project_id r)]
                (ordering_trace w (wo_project_id r)))\<lparr>env_payload_ints := [(''sequence_order'', n)]\<rparr>) au1
          in (Done failed, au2))"

definition add_dependency :: "call \<Rightarrow> string \<Rightarrow> string \<Rightarrow> authority \<Rightarrow> outcome \<times> authority" where
  "add_dependency c w d au =
     (if w = d then (Refused SelfDependency, au)
      else case wo_of w au of
        None \<Rightarrow> (Refused NotFound, au)
      | Some r \<Rightarrow>
          if wo_of d au = None then (Refused DependencyNotFound, au)
          else if (w, d) \<in> set (au_deps au) then (Already, au)
          else
            let au1 = au\<lparr>au_deps := au_deps au @ [(w, d)]\<rparr>;
                (au2, failed) = emit c (make_envelope c ''work_order.dependency_added''
                  [(''work_order_id'', Some w), (''depends_on_id'', Some d), (''project_id'', wo_project_id r)]
                  (ordering_trace w (wo_project_id r))) au1
            in (Done failed, au2))"

definition remove_dependency :: "call \<Rightarrow> string \<Rightarrow> string \<Rightarrow> authority \<Rightarrow> outcome \<times> authority" where
  "remove_dependency c w d au =
     (case wo_of w au of
        None \<Rightarrow> (Refused NotFound, au)
      | Some r \<Rightarrow>
          if (w, d) \<notin> set (au_deps au) then (Refused EdgeNotFound, au)
          else
            let au1 = au\<lparr>au_deps := removeAll (w, d) (au_deps au)\<rparr>;
                (au2, failed) = emit c (make_envelope c ''work_order.dependency_removed''
                  [(''work_order_id'', Some w), (''depends_on_id'', Some d), (''project_id'', wo_project_id r)]
                  (ordering_trace w (wo_project_id r))) au1
            in (Done failed, au2))"

end
