(* ===== verification/Work_Order_Lifecycle.thy ===== *)
theory Work_Order_Lifecycle
  imports Work_Order_Mutations
begin

text \<open>
  What the mutations of \<^verbatim>\<open>core/work_orders\<close> guarantee together. Every operation that moves a
  work order writes the row itself and emits an event from which the projection writes the row
  again; the contract \<open>lifecycle_op\<close> states what such an operation promises (it moves along a
  permitted edge, leaves other work orders alone, emits an event that passes the payload check,
  and the event means the same to the projection as what it wrote), and the six operations are
  interpretations of it. Runs of operations are an inductive relation.
\<close>

section \<open>Updates and emissions\<close>

lemma wo_of_update:
  "wo_of k (update_wo w f au) = (if k = w then map_option f (wo_of w au) else wo_of k au)"
  by (simp add: wo_of_def update_wo_def map_of_tbl_update)

lemma emit_frame [simp]:
  "au_db (fst (emit c e au)) = au_db au" "au_deps (fst (emit c e au)) = au_deps au"
  by (simp_all add: emit_def split: sum.split)

lemma wo_of_emit [simp]: "wo_of k (fst (emit c e au)) = wo_of k au"
  by (simp add: wo_of_def)

lemma wo_of_spool [simp]: "wo_of k (au\<lparr>au_spool := s\<rparr>) = wo_of k au"
  by (simp add: wo_of_def)

lemma emit_update: "emit c e (update_wo w f au) = (update_wo w f (fst (emit c e au)), snd (emit c e au))"
  by (simp add: emit_def update_wo_def split: sum.split)

lemma emit_spool: "\<exists>s. fst (emit c e au) = au\<lparr>au_spool := s\<rparr>"
  by (cases "write_event (c_uuid c) e (au_spool au)") (auto simp: emit_def intro: exI [of _ "au_spool au"])

text \<open>The envelope's string dictionaries hold the values that are present.\<close>

lemma map_of_present:
  "distinct (map fst d) \<Longrightarrow>
   map_of (List.map_filter (\<lambda>(k, v). map_option (Pair k) v) d) k = (case map_of d k of None \<Rightarrow> None | Some v \<Rightarrow> v)"
proof (induction d)
  case (Cons x d)
  have "map_of (List.map_filter (\<lambda>(k, v). map_option (Pair k) v) d) j = None" if "j \<notin> fst ` set d" for j
    using that by (induction d) (auto simp: List.map_filter_simps split: option.splits)
  with Cons show ?case
    by (cases x) (auto simp: List.map_filter_simps split: option.splits)
qed (simp add: List.map_filter_simps)

lemma make_envelope_fields [simp]:
  "env_event_id (make_envelope c ty pl tr) = Some (c_uuid c)"
  "env_event_type (make_envelope c ty pl tr) = Some ty"
  "env_timestamp (make_envelope c ty pl tr) = Some (c_now c)"
  "env_schema_version (make_envelope c ty pl tr) = Some 1"
  "env_payload_ints (make_envelope c ty pl tr) = []"
  by (simp_all add: make_envelope_def Let_def)

lemma envelope_payload:
  "distinct (map fst pl) \<Longrightarrow> map_of (env_payload (make_envelope c ty pl tr)) k =
     (case map_of pl k of None \<Rightarrow> None | Some v \<Rightarrow> v)"
  by (simp add: make_envelope_def Let_def map_of_present)

lemma envelope_trace:
  "distinct (map fst tr) \<Longrightarrow> map_of (env_trace (make_envelope c ty pl tr)) k =
     (case map_of tr k of None \<Rightarrow> None | Some v \<Rightarrow> v)"
  by (simp add: make_envelope_def Let_def map_of_present)

lemma envelope_keys:
  "set (map fst (env_payload (make_envelope c ty pl tr)) @ env_payload_other (make_envelope c ty pl tr)) =
     fst ` set pl"
proof -
  have "fst ` set (List.map_filter (\<lambda>(k, v). map_option (Pair k) v) pl) \<union> fst ` {x \<in> set pl. snd x = None} = fst ` set pl"
    by (induction pl) (auto simp: List.map_filter_simps split: option.splits)
  then show ?thesis
    by (simp add: make_envelope_def Let_def case_prod_unfold)
qed

lemma canonical_row_simps [simp]:
  "ev_id (canonical_row e) = the (env_event_id e)" "ev_type (canonical_row e) = the (env_event_type e)"
  "ev_payload (canonical_row e) = env_payload e"
  "ev_work_order_id (canonical_row e) = map_of (env_trace e) ''work_order_id''"
  by (simp_all add: canonical_row_def Let_def)

lemma sdlc_trace_keys:
  assumes "distinct (map fst extra)"
    and "set (map fst extra) \<inter> {''domain'', ''work_order_id'', ''project_id'', ''attribution_status'', ''mcp_client''} = {}"
  shows "distinct (map fst (sdlc_trace w p extra actor))" "map_of (sdlc_trace w p extra actor) ''work_order_id'' = Some (Some w)"
  using assms by (auto simp: sdlc_trace_def)

section \<open>The contract of an operation\<close>

text \<open>An edge of the lifecycle: the next phase, blocking, unblocking, reopening, and starting what is
  already started.\<close>

definition lifecycle_move :: "string \<Rightarrow> string \<Rightarrow> bool" where
  "lifecycle_move a b \<longleftrightarrow> transition_refusal [] (Some a) b = None \<or>
     (a \<in> set BLOCKABLE_WORK_ORDER_STATUSES \<and> b = ''blocked'') \<or>
     (a = ''blocked'' \<and> b \<in> set BLOCKABLE_WORK_ORDER_STATUSES) \<or>
     (a = ''closed'' \<and> b = ''in_progress'') \<or> (a = ''in_progress'' \<and> b = ''in_progress'')"

lemma transition_any: "transition_refusal w (Some a) b = None \<longleftrightarrow> transition_refusal v (Some a) b = None"
  by (simp add: transition_allowed_iff)

lemma move_transition: "transition_refusal w (Some a) b = None \<Longrightarrow> lifecycle_move a b"
  using transition_any unfolding lifecycle_move_def by blast

text \<open>The envelope of an operation on a work order is written whole and is about that work order.\<close>

definition sound_envelope :: "call \<Rightarrow> string \<Rightarrow> envelope \<Rightarrow> bool" where
  "sound_envelope c w e \<longleftrightarrow> env_event_id e = Some (c_uuid c) \<and>
     map_of (env_trace e) ''work_order_id'' = Some w \<and>
     (\<forall>sp. write_event (c_uuid c) e sp = Inr (sp\<lparr>sp_inbox := put (c_uuid c @ ''.json'') (Json e) (sp_inbox sp)\<rparr>))"

text \<open>The row was changed by \<open>f\<close> and then the event \<open>e\<close> was emitted; other events may have been
  emitted in between.\<close>

definition wrote :: "call \<Rightarrow> string \<Rightarrow> (wo_row \<Rightarrow> wo_row) \<Rightarrow> envelope \<Rightarrow> authority \<Rightarrow> bool \<Rightarrow> authority \<Rightarrow> bool" where
  "wrote c w f e au failed au' \<longleftrightarrow> (\<exists>s. emit c e ((update_wo w f au)\<lparr>au_spool := s\<rparr>) = (au', failed))"

lemma wrote_rows:
  assumes "wrote c w f e au failed au'"
  shows "wo_of k au' = (if k = w then map_option f (wo_of w au) else wo_of k au)"
proof -
  from assms obtain s where "au' = fst (emit c e ((update_wo w f au)\<lparr>au_spool := s\<rparr>))"
    unfolding wrote_def by (metis fst_conv)
  then show ?thesis
    by (simp add: wo_of_update)
qed

lemma wrote_event:
  assumes "wrote c w f e au failed au'" and "sound_envelope c w e" and "c_spool_ok c"
  shows "\<not> failed \<and> map_of (sp_inbox (au_spool au')) (c_uuid c @ ''.json'') = Some (Json e)"
  using assms by (auto simp: wrote_def sound_envelope_def emit_def)

lemma wroteI: "emit c e (update_wo w f au) = (au', failed) \<Longrightarrow> wrote c w f e au failed au'"
  by (auto simp: wrote_def update_wo_def intro!: exI [of _ "au_spool au"])

text \<open>A blocked work order goes back to in_progress or to the phase it remembers.\<close>

definition returns :: "wo_row \<Rightarrow> string \<Rightarrow> bool" where
  "returns r s \<longleftrightarrow> wo_status r = ''blocked'' \<longrightarrow> s = ''in_progress'' \<or> wo_blocked_from_status r = Some s"

lemma returns_not_blocked:
  "transition_refusal w (Some (wo_status r)) b = None \<Longrightarrow> returns r s"
  "wo_status r \<in> set BLOCKABLE_WORK_ORDER_STATUSES \<Longrightarrow> returns r s"
  by (auto simp: transition_allowed_iff blockable_eq returns_def)

text \<open>What a successful operation did.\<close>

definition lifecycle_effect :: "call \<Rightarrow> string \<Rightarrow> authority \<Rightarrow> bool \<Rightarrow> authority \<Rightarrow> bool" where
  "lifecycle_effect c w au failed au' \<longleftrightarrow> (\<exists>r f e. wo_of w au = Some r \<and>
      lifecycle_move (wo_status r) (wo_status (f r)) \<and> wrote c w f e au failed au' \<and> sound_envelope c w e \<and>
      wo_blocked_from_status (f r) \<in> {None, wo_blocked_from_status r, Some (wo_status r)} \<and>
      returns r (wo_status (f r)) \<and>
      wo_view (f r) = wo_view_step (c_remembers c) (canonical_row e) (Some (wo_view r)))"

lemma lifecycle_effectI:
  assumes "wo_of w au = Some r" and "wrote c w f e au failed au'" and "sound_envelope c w e"
    and "lifecycle_move (wo_status r) (wo_status (f r))"
    and "wo_blocked_from_status (f r) \<in> {None, wo_blocked_from_status r, Some (wo_status r)}"
    and "returns r (wo_status (f r))"
    and "wo_view (f r) = wo_view_step (c_remembers c) (canonical_row e) (Some (wo_view r))"
  shows "lifecycle_effect c w au failed au'"
  using assms unfolding lifecycle_effect_def by blast

locale lifecycle_step =
  fixes step :: "call \<Rightarrow> string \<Rightarrow> authority \<Rightarrow> bool \<Rightarrow> authority \<Rightarrow> bool"
  assumes effect: "step c w au failed au' \<Longrightarrow> lifecycle_effect c w au failed au'"
begin

lemma moves:
  assumes "step c w au failed au'"
  shows "\<exists>r r'. wo_of w au = Some r \<and> wo_of w au' = Some r' \<and> lifecycle_move (wo_status r) (wo_status r') \<and>
    wo_blocked_from_status r' \<in> {None, wo_blocked_from_status r, Some (wo_status r)} \<and> returns r (wo_status r')"
  using effect [OF assms] unfolding lifecycle_effect_def using wrote_rows by fastforce

lemma frame: "step c w au failed au' \<Longrightarrow> k \<noteq> w \<Longrightarrow> wo_of k au' = wo_of k au"
  using effect unfolding lifecycle_effect_def using wrote_rows by fastforce

lemma mirrored:
  assumes "step c w au failed au'" and "c_spool_ok c"
  shows "\<not> failed \<and> (\<exists>e r'. map_of (sp_inbox (au_spool au')) (c_uuid c @ ''.json'') = Some (Json e) \<and>
    ev_id (canonical_row e) = c_uuid c \<and> ev_work_order_id (canonical_row e) = Some w \<and>
    wo_of w au' = Some r' \<and>
    wo_view r' = wo_view_step (c_remembers c) (canonical_row e) (map_option wo_view (wo_of w au)))"
proof -
  obtain r f e where e: "wo_of w au = Some r" "wrote c w f e au failed au'" "sound_envelope c w e"
    "wo_view (f r) = wo_view_step (c_remembers c) (canonical_row e) (Some (wo_view r))"
    using effect [OF assms(1)] unfolding lifecycle_effect_def by blast
  show ?thesis
    using wrote_event [OF e(2,3) assms(2)] wrote_rows [OF e(2), of w] e
    by (intro conjI exI [of _ e] exI [of _ "f r"]) (simp_all add: sound_envelope_def)
qed

end

text \<open>An operation: a refused or idle call changes nothing, a done one is such a step.\<close>

locale lifecycle_op =
  fixes run :: "call \<Rightarrow> string \<Rightarrow> authority \<Rightarrow> outcome \<times> authority"
  assumes refusal: "run c w au = (out, au') \<Longrightarrow> (\<And>b. out \<noteq> Done b) \<Longrightarrow> au' = au"
    and done_effect: "run c w au = (Done failed, au') \<Longrightarrow> lifecycle_effect c w au failed au'"

sublocale lifecycle_op \<subseteq> lifecycle_step "\<lambda>c w au failed au'. run c w au = (Done failed, au')"
  by unfold_locales (rule done_effect)

section \<open>The operations satisfy the contract\<close>

lemma sound_made:
  assumes "map_of (env_trace (make_envelope c ty pl tr)) ''work_order_id'' = Some w"
    and "case get_entry ty of None \<Rightarrow> True | Some n \<Rightarrow> set (re_payload_required_keys n) \<subseteq> fst ` set pl"
  shows "sound_envelope c w (make_envelope c ty pl tr)"
proof -
  have "validate_payload_keys ty (map fst (env_payload (make_envelope c ty pl tr)) @
      map fst (env_payload_ints (make_envelope c ty pl tr)) @ env_payload_other (make_envelope c ty pl tr)) = Inr ()"
    using assms(2) envelope_keys [of c ty pl tr] by (auto simp: payload_check split: option.splits)
  with assms(1) show ?thesis
    by (simp add: sound_envelope_def write_event_def)
qed

lemma sdlc_trace_work_order:
  "extra = [] \<or> extra = [(''milestone_id'', m)] \<Longrightarrow>
   map_of (env_trace (make_envelope c ty pl (sdlc_trace w p extra actor))) ''work_order_id'' = Some w"
  by (auto simp: envelope_trace sdlc_trace_def)

lemma open_phase_blockable: "p \<in> set BLOCKABLE_WORK_ORDER_STATUSES \<Longrightarrow> open_phase (Some p) = Some p"
proof -
  have "list_all (\<lambda>p. py_strip p = p) BLOCKABLE_WORK_ORDER_STATUSES"
    by code_simp
  then show "p \<in> set BLOCKABLE_WORK_ORDER_STATUSES \<Longrightarrow> open_phase (Some p) = Some p"
    by (simp add: open_phase_def list_all_iff)
qed

lemma advance_targets:
  assumes "map_of ADVANCE_EVENTS to = Some ty"
  obtains "to = ''in_review''" "ty = WORK_ORDER_REVIEW_REQUESTED" | "to = ''pushed''" "ty = WORK_ORDER_PUSHED"
  | "to = ''ci_issues''" "ty = WORK_ORDER_CI_FAILED"
  using assms by (auto simp: ADVANCE_EVENTS_def split: if_splits)

lemma advance_status: "map_of ADVANCE_EVENTS to = Some ty \<Longrightarrow> status_for ty True = Inr to"
  by (erule advance_targets) simp_all

text \<open>What a successful advance did.\<close>

lemma advance_done:
  assumes "advance_work_order rb c w to note actor au = (Done failed, au')"
  shows "\<exists>r ty. wo_of w au = Some r \<and> map_of ADVANCE_EVENTS to = Some ty \<and>
    transition_refusal w (Some (wo_status r)) to = None \<and> (to = ''pushed'' \<longrightarrow> \<not> rb w) \<and>
    emit c (make_envelope c ty ([(''work_order_id'', Some w), (''title'', wo_title r),
        (''project_id'', wo_project_id r), (''from_status'', Some (wo_status r))] @
        (if truthy note then [(''note'', note)] else [])) (sdlc_trace w (wo_project_id r) [] actor))
      (update_wo w (\<lambda>r. if to = ''ci_issues''
         then r\<lparr>wo_status := to, wo_priority := ''blocker'', wo_updated_at := Some (c_now c), wo_last_updated_at := c_now c\<rparr>
         else r\<lparr>wo_status := to, wo_updated_at := Some (c_now c), wo_last_updated_at := c_now c\<rparr>) au) = (au', failed)"
  using assms
  by (auto simp: advance_work_order_def Let_def advance_status split: option.splits if_splits prod.splits)

lemma advance_refused:
  "advance_work_order rb c w to note actor au = (out, au') \<Longrightarrow> (\<And>b. out \<noteq> Done b) \<Longrightarrow> au' = au"
  by (auto simp: advance_work_order_def Let_def split: option.splits if_splits prod.splits sum.splits)

interpretation advance: lifecycle_op "\<lambda>c w. advance_work_order rb c w to note actor"
proof (unfold_locales, rule advance_refused)
  fix c w au failed au'
  assume "advance_work_order rb c w to note actor au = (Done failed, au')"
  from advance_done [OF this] obtain r ty where r: "wo_of w au = Some r" "map_of ADVANCE_EVENTS to = Some ty"
      "transition_refusal w (Some (wo_status r)) to = None"
    and em: "emit c (make_envelope c ty ([(''work_order_id'', Some w), (''title'', wo_title r),
        (''project_id'', wo_project_id r), (''from_status'', Some (wo_status r))] @
        (if truthy note then [(''note'', note)] else [])) (sdlc_trace w (wo_project_id r) [] actor))
      (update_wo w (\<lambda>r. if to = ''ci_issues''
         then r\<lparr>wo_status := to, wo_priority := ''blocker'', wo_updated_at := Some (c_now c), wo_last_updated_at := c_now c\<rparr>
         else r\<lparr>wo_status := to, wo_updated_at := Some (c_now c), wo_last_updated_at := c_now c\<rparr>) au) = (au', failed)"
      (is "emit c ?e (update_wo w ?f au) = _")
    by blast
  show "lifecycle_effect c w au failed au'"
  proof (rule lifecycle_effectI [OF r(1) wroteI [OF em]])
    show "sound_envelope c w ?e"
      using r(2) by (intro sound_made sdlc_trace_work_order) (auto elim!: advance_targets simp: lifecycle_entries)
    show "lifecycle_move (wo_status r) (wo_status (?f r))"
      using move_transition [OF r(3)] by auto
    show "wo_view (?f r) = wo_view_step (c_remembers c) (canonical_row ?e) (Some (wo_view r))"
      using r(2) by (cases rule: advance_targets) (simp_all add: wo_view_def wo_view_step_def Let_def)
    show "returns r (wo_status (?f r))"
      using r(3) by (rule returns_not_blocked)
  qed simp
qed auto

lemma block_done:
  assumes "block_work_order c w reason au = (Done failed, au')"
  shows "\<exists>r. wo_of w au = Some r \<and> wo_status r \<in> set BLOCKABLE_WORK_ORDER_STATUSES \<and>
    emit c (make_envelope c WORK_ORDER_BLOCKED [(''work_order_id'', Some w), (''title'', wo_title r),
        (''project_id'', wo_project_id r), (''reason'', Some reason), (''from_status'', Some (wo_status r))]
        (sdlc_trace w (wo_project_id r) [] None))
      (update_wo w (\<lambda>x. let x1 = x\<lparr>wo_status := ''blocked'', wo_blocked_at := Some (c_now c),
           wo_block_reason := Some reason, wo_updated_at := Some (c_now c), wo_last_updated_at := c_now c\<rparr>
         in if c_remembers c then x1\<lparr>wo_blocked_from_status := Some (wo_status r)\<rparr> else x1) au) = (au', failed)"
  using assms
  by (auto simp: block_work_order_def Let_def split: option.splits if_splits prod.splits)

interpretation block: lifecycle_op "\<lambda>c w. block_work_order c w reason"
proof unfold_locales
  show "au' = au" if "block_work_order c w reason au = (out, au')" "\<And>b. out \<noteq> Done b" for c w au out au'
    using that by (auto simp: block_work_order_def Let_def split: option.splits if_splits prod.splits)
  fix c w au failed au'
  assume "block_work_order c w reason au = (Done failed, au')"
  from block_done [OF this] obtain r where r: "wo_of w au = Some r" "wo_status r \<in> set BLOCKABLE_WORK_ORDER_STATUSES"
    and em: "emit c (make_envelope c WORK_ORDER_BLOCKED [(''work_order_id'', Some w), (''title'', wo_title r),
        (''project_id'', wo_project_id r), (''reason'', Some reason), (''from_status'', Some (wo_status r))]
        (sdlc_trace w (wo_project_id r) [] None))
      (update_wo w (\<lambda>x. let x1 = x\<lparr>wo_status := ''blocked'', wo_blocked_at := Some (c_now c),
           wo_block_reason := Some reason, wo_updated_at := Some (c_now c), wo_last_updated_at := c_now c\<rparr>
         in if c_remembers c then x1\<lparr>wo_blocked_from_status := Some (wo_status r)\<rparr> else x1) au) = (au', failed)"
      (is "emit c ?e (update_wo w ?f au) = _")
    by blast
  show "lifecycle_effect c w au failed au'"
  proof (rule lifecycle_effectI [OF r(1) wroteI [OF em]])
    show "sound_envelope c w ?e"
      by (intro sound_made sdlc_trace_work_order) (auto simp: lifecycle_entries)
    show "lifecycle_move (wo_status r) (wo_status (?f r))"
      using r(2) by (simp add: lifecycle_move_def Let_def)
    show "wo_view (?f r) = wo_view_step (c_remembers c) (canonical_row ?e) (Some (wo_view r))"
      using open_phase_blockable [OF r(2)]
      by (simp add: wo_view_def wo_view_step_def Let_def envelope_payload)
    show "returns r (wo_status (?f r))"
      using r(2) by (rule returns_not_blocked)
  qed (simp add: Let_def)
qed

definition unblock_target :: "call \<Rightarrow> wo_row \<Rightarrow> string" where
  "unblock_target c r =
     (case (if c_remembers c then wo_blocked_from_status r else None) of
        None \<Rightarrow> ''in_progress''
      | Some s \<Rightarrow> if s \<in> set BLOCKABLE_WORK_ORDER_STATUSES then s else ''in_progress'')"

lemma unblock_target_in: "unblock_target c r \<in> set BLOCKABLE_WORK_ORDER_STATUSES"
  by (auto simp: unblock_target_def blockable_eq split: option.split)

lemma unblock_done:
  assumes "unblock_work_order c w au = (Done failed, au')"
  shows "\<exists>r. wo_of w au = Some r \<and> wo_status r = ''blocked'' \<and>
    emit c (make_envelope c WORK_ORDER_UNBLOCKED [(''work_order_id'', Some w), (''title'', wo_title r),
        (''project_id'', wo_project_id r), (''to_status'', Some (unblock_target c r))]
        (sdlc_trace w (wo_project_id r) [] None))
      (update_wo w (\<lambda>x. let x1 = x\<lparr>wo_status := unblock_target c r, wo_unblocked_at := Some (c_now c),
           wo_block_reason := None, wo_updated_at := Some (c_now c), wo_last_updated_at := c_now c\<rparr>
         in if c_remembers c then x1\<lparr>wo_blocked_from_status := None\<rparr> else x1) au) = (au', failed)"
  using assms
  by (auto simp: unblock_work_order_def unblock_target_def Let_def split: option.splits if_splits prod.splits)

interpretation unblock: lifecycle_op unblock_work_order
proof unfold_locales
  show "au' = au" if "unblock_work_order c w au = (out, au')" "\<And>b. out \<noteq> Done b" for c w au out au'
    using that by (auto simp: unblock_work_order_def Let_def split: option.splits if_splits prod.splits)
  fix c w au failed au'
  assume "unblock_work_order c w au = (Done failed, au')"
  from unblock_done [OF this] obtain r where r: "wo_of w au = Some r" "wo_status r = ''blocked''"
    and em: "emit c (make_envelope c WORK_ORDER_UNBLOCKED [(''work_order_id'', Some w), (''title'', wo_title r),
        (''project_id'', wo_project_id r), (''to_status'', Some (unblock_target c r))]
        (sdlc_trace w (wo_project_id r) [] None))
      (update_wo w (\<lambda>x. let x1 = x\<lparr>wo_status := unblock_target c r, wo_unblocked_at := Some (c_now c),
           wo_block_reason := None, wo_updated_at := Some (c_now c), wo_last_updated_at := c_now c\<rparr>
         in if c_remembers c then x1\<lparr>wo_blocked_from_status := None\<rparr> else x1) au) = (au', failed)"
      (is "emit c ?e (update_wo w ?f au) = _")
    by blast
  show "lifecycle_effect c w au failed au'"
  proof (rule lifecycle_effectI [OF r(1) wroteI [OF em]])
    show "sound_envelope c w ?e"
      by (intro sound_made sdlc_trace_work_order) (auto simp: lifecycle_entries)
    show "lifecycle_move (wo_status r) (wo_status (?f r))"
      using r(2) unblock_target_in by (simp add: lifecycle_move_def Let_def)
    show "wo_view (?f r) = wo_view_step (c_remembers c) (canonical_row ?e) (Some (wo_view r))"
      using open_phase_blockable [OF unblock_target_in]
      by (simp add: wo_view_def wo_view_step_def Let_def envelope_payload)
    show "returns r (wo_status (?f r))"
      by (simp add: returns_def unblock_target_def Let_def split: option.split)
  qed (simp add: Let_def)
qed

lemma reopen_done:
  assumes "reopen_work_order (\<lambda>a. a) c w reason au = (Done failed, au')"
  shows "\<exists>r. wo_of w au = Some r \<and> wo_status r = ''closed'' \<and>
    emit c (make_envelope c WORK_ORDER_REOPENED [(''work_order_id'', Some w), (''title'', wo_title r),
        (''project_id'', wo_project_id r), (''previous_status'', Some ''closed''), (''reason'', Some reason)]
        (sdlc_trace w (wo_project_id r) [] None))
      (update_wo w (\<lambda>x. x\<lparr>wo_status := ''in_progress'', wo_updated_at := Some (c_now c),
         wo_last_updated_at := c_now c\<rparr>) au) = (au', failed)"
  using assms
  by (auto simp: reopen_work_order_def Let_def split: option.splits if_splits prod.splits)

interpretation reopen: lifecycle_op "\<lambda>c w. reopen_work_order (\<lambda>a. a) c w reason"
proof unfold_locales
  show "au' = au" if "reopen_work_order (\<lambda>a. a) c w reason au = (out, au')" "\<And>b. out \<noteq> Done b" for c w au out au'
    using that by (auto simp: reopen_work_order_def Let_def split: option.splits if_splits prod.splits)
  fix c w au failed au'
  assume "reopen_work_order (\<lambda>a. a) c w reason au = (Done failed, au')"
  from reopen_done [OF this] obtain r where r: "wo_of w au = Some r" "wo_status r = ''closed''"
    and em: "emit c (make_envelope c WORK_ORDER_REOPENED [(''work_order_id'', Some w), (''title'', wo_title r),
        (''project_id'', wo_project_id r), (''previous_status'', Some ''closed''), (''reason'', Some reason)]
        (sdlc_trace w (wo_project_id r) [] None))
      (update_wo w (\<lambda>x. x\<lparr>wo_status := ''in_progress'', wo_updated_at := Some (c_now c),
         wo_last_updated_at := c_now c\<rparr>) au) = (au', failed)"
      (is "emit c ?e (update_wo w ?f au) = _")
    by blast
  show "lifecycle_effect c w au failed au'"
  proof (rule lifecycle_effectI [OF r(1) wroteI [OF em]])
    show "sound_envelope c w ?e"
      by (intro sound_made sdlc_trace_work_order) (auto simp: lifecycle_entries)
    show "lifecycle_move (wo_status r) (wo_status (?f r))"
      using r(2) by (simp add: lifecycle_move_def Let_def)
    show "wo_view (?f r) = wo_view_step (c_remembers c) (canonical_row ?e) (Some (wo_view r))"
      by (simp add: wo_view_def wo_view_step_def Let_def)
    show "returns r (wo_status (?f r))"
      by (simp add: returns_def)
  qed simp
qed

text \<open>Starting, with the brief read from the row.\<close>

definition row_brief :: "brief \<Rightarrow> string \<Rightarrow> authority \<Rightarrow> brief" where
  "row_brief b w au =
     (case wo_of w au of
        None \<Rightarrow> b\<lparr>br_ok := False\<rparr>
      | Some r \<Rightarrow> b\<lparr>br_status := Some (wo_status r), br_title := wo_title r, br_type := wo_type r,
          br_project_id := wo_project_id r, br_milestone_id := wo_milestone_id r\<rparr>)"

lemma start_done:
  assumes "start_work_order c (row_brief b w au) acc seq actor w au = (Done failed, au')"
  shows "\<exists>r. wo_of w au = Some r \<and>
    (wo_status r = ''in_progress'' \<or> transition_refusal w (Some (wo_status r)) ''in_progress'' = None) \<and>
    br_blocking_deps b = 0 \<and> (seq \<longrightarrow> check_sequence_order w au = []) \<and>
    emit c (make_envelope c WORK_ORDER_STARTED [(''work_order_id'', Some w), (''title'', wo_title r),
        (''type'', wo_type r), (''project_id'', wo_project_id r)]
        (sdlc_trace w (wo_project_id r) [(''milestone_id'', wo_milestone_id r)] actor))
      (update_wo w (\<lambda>x. x\<lparr>wo_status := ''in_progress'', wo_started_at := Some (c_now c),
         wo_updated_at := Some (c_now c), wo_last_updated_at := c_now c\<rparr>) au) = (au', failed)"
proof (cases "wo_of w au")
  case None
  with assms show ?thesis
    by (simp add: start_work_order_def row_brief_def)
next
  case (Some r)
  with assms show ?thesis
    unfolding emit_update
    by (auto simp: start_work_order_def row_brief_def Let_def split: option.splits if_splits prod.splits)
qed

interpretation start: lifecycle_op "\<lambda>c w au. start_work_order c (row_brief b w au) acc seq actor w au"
proof unfold_locales
  show "au' = au" if "start_work_order c (row_brief b w au) acc seq actor w au = (out, au')" "\<And>b. out \<noteq> Done b"
    for c w au out au'
    using that by (auto simp: start_work_order_def Let_def split: option.splits if_splits prod.splits)
  fix c w au failed au'
  assume "start_work_order c (row_brief b w au) acc seq actor w au = (Done failed, au')"
  from start_done [OF this] obtain r where r: "wo_of w au = Some r"
      "wo_status r = ''in_progress'' \<or> transition_refusal w (Some (wo_status r)) ''in_progress'' = None"
    and em: "emit c (make_envelope c WORK_ORDER_STARTED [(''work_order_id'', Some w), (''title'', wo_title r),
        (''type'', wo_type r), (''project_id'', wo_project_id r)]
        (sdlc_trace w (wo_project_id r) [(''milestone_id'', wo_milestone_id r)] actor))
      (update_wo w (\<lambda>x. x\<lparr>wo_status := ''in_progress'', wo_started_at := Some (c_now c),
         wo_updated_at := Some (c_now c), wo_last_updated_at := c_now c\<rparr>) au) = (au', failed)"
      (is "emit c ?e (update_wo w ?f au) = _")
    by blast
  show "lifecycle_effect c w au failed au'"
  proof (rule lifecycle_effectI [OF r(1) wroteI [OF em]])
    show "sound_envelope c w ?e"
      by (intro sound_made sdlc_trace_work_order) (auto simp: lifecycle_entries)
    show "lifecycle_move (wo_status r) (wo_status (?f r))"
      using r(2)
    proof
      show "lifecycle_move (wo_status r) (wo_status (?f r))" if "wo_status r = ''in_progress''"
        using that by (simp add: lifecycle_move_def)
      show "lifecycle_move (wo_status r) (wo_status (?f r))"
        if "transition_refusal w (Some (wo_status r)) ''in_progress'' = None"
        using move_transition [OF that] by simp
    qed
    show "wo_view (?f r) = wo_view_step (c_remembers c) (canonical_row ?e) (Some (wo_view r))"
      by (simp add: wo_view_def wo_view_step_def Let_def)
    show "returns r (wo_status (?f r))"
      by (simp add: returns_def)
  qed simp
qed

text \<open>Closing; \<open>window\<close> is arbitrary in the first lemma and nothing in the contract.\<close>

lemma emit_bypasses_spool: "\<exists>s. emit_bypasses c uuids w trace gf au = au\<lparr>au_spool := s\<rparr>"
proof -
  have "\<exists>s. fold (\<lambda>(i, reason) a. fst (emit (g i) (h i reason) a)) xs au = au\<lparr>au_spool := s\<rparr>"
    for g :: "nat \<Rightarrow> call" and h :: "nat \<Rightarrow> string \<Rightarrow> envelope" and xs
  proof (induction xs arbitrary: au)
    case Nil
    have "au = au\<lparr>au_spool := au_spool au\<rparr>" by simp
    then show ?case by (intro exI [of _ "au_spool au"]) simp
  next
    case (Cons x xs)
    obtain s where s: "fst (emit (g (fst x)) (h (fst x) (snd x)) au) = au\<lparr>au_spool := s\<rparr>"
      using emit_spool by blast
    obtain s' where "fold (\<lambda>(i, reason) a. fst (emit (g i) (h i reason) a)) xs (au\<lparr>au_spool := s\<rparr>) =
        (au\<lparr>au_spool := s\<rparr>)\<lparr>au_spool := s'\<rparr>"
      using Cons.IH by blast
    with s show ?case by (auto simp: case_prod_unfold)
  qed
  then show ?thesis
    unfolding emit_bypasses_def .
qed

definition closed_envelope :: "call \<Rightarrow> string \<Rightarrow> wo_row \<Rightarrow> string option \<Rightarrow> envelope" where
  "closed_envelope c w r actor =
     (make_envelope c WORK_ORDER_CLOSED
        [(''work_order_id'', Some w), (''title'', wo_title r), (''project_id'', wo_project_id r)]
        (sdlc_trace w (wo_project_id r) [(''milestone_id'', wo_milestone_id r)] actor))
     \<lparr>env_payload_other := [''lane_review'', ''forced''] @ map fst (filter (\<lambda>(k, v). v = None)
        [(''title'', wo_title r), (''project_id'', wo_project_id r)])\<rparr>"

lemma close_done:
  assumes "close_work_order c window gf rm red force uuids actor w au = (Done failed, au')"
  shows "\<exists>r. wo_of w (window au) = Some r \<and> wo_status r \<in> set CLOSEABLE_WORK_ORDER_STATUSES \<and>
    (\<forall>x. wo_of w au = Some x \<longrightarrow> transition_refusal w (Some (wo_status x)) ''closed'' = None) \<and>
    \<not> rm \<and> (force \<or> gf = [] \<and> \<not> red) \<and>
    wrote c w (\<lambda>x. x\<lparr>wo_status := ''closed'', wo_closed_at := Some (c_now c),
      wo_updated_at := Some (c_now c), wo_last_updated_at := c_now c\<rparr>) (closed_envelope c w r actor) (window au) failed au'"
proof -
  have g: "(\<forall>x. wo_of w au = Some x \<longrightarrow> transition_refusal w (Some (wo_status x)) ''closed'' = None)" "\<not> rm"
    "force \<or> gf = [] \<and> \<not> red"
    and "\<exists>r. wo_of w (window au) = Some r \<and> wo_status r \<in> set CLOSEABLE_WORK_ORDER_STATUSES"
    using assms by (auto simp: close_work_order_def close_phase_refusal_def Let_def split: option.splits if_splits)
  then obtain r where r: "wo_of w (window au) = Some r" "wo_status r \<in> set CLOSEABLE_WORK_ORDER_STATUSES"
    by blast
  let ?f = "\<lambda>x::wo_row. x\<lparr>wo_status := ''closed'', wo_closed_at := Some (c_now c),
      wo_updated_at := Some (c_now c), wo_last_updated_at := c_now c\<rparr>"
  have n: "(case wo_of w au of None \<Rightarrow> None | Some r \<Rightarrow> transition_refusal w (Some (wo_status r)) ''closed'') = None"
    using g(1) by (simp split: option.split)
  define au2 where "au2 = (if force then emit_bypasses c uuids w
      (sdlc_trace w (wo_project_id r) [(''milestone_id'', wo_milestone_id r)] actor) gf (update_wo w ?f (window au))
    else update_wo w ?f (window au))"
  have "emit c (closed_envelope c w r actor) au2 = (au', failed)"
    using assms r n g(2,3)
    by (auto simp: close_work_order_def close_phase_refusal_def closed_envelope_def au2_def Let_def split: prod.splits if_splits)
  moreover obtain s where "au2 = (update_wo w ?f (window au))\<lparr>au_spool := s\<rparr>"
    using emit_bypasses_spool [of c uuids w "sdlc_trace w (wo_project_id r) [(''milestone_id'', wo_milestone_id r)] actor"
        gf "update_wo w ?f (window au)"]
    by (cases force) (auto simp: au2_def intro: that [of "au_spool (update_wo w ?f (window au))"])
  ultimately have "wrote c w ?f (closed_envelope c w r actor) (window au) failed au'"
    unfolding wrote_def by auto
  then show ?thesis
    using g r by blast
qed

lemma closed_envelope_sound: "sound_envelope c w (closed_envelope c w r actor)"
proof -
  let ?pl = "[(''work_order_id'', Some w), (''title'', wo_title r), (''project_id'', wo_project_id r)]"
  let ?tr = "sdlc_trace w (wo_project_id r) [(''milestone_id'', wo_milestone_id r)] actor"
  have "set (env_payload_other (make_envelope c WORK_ORDER_CLOSED ?pl ?tr)) \<subseteq> set (env_payload_other (closed_envelope c w r actor))"
    by (auto simp: make_envelope_def closed_envelope_def Let_def)
  moreover have "env_payload (closed_envelope c w r actor) = env_payload (make_envelope c WORK_ORDER_CLOSED ?pl ?tr)"
    "''forced'' \<in> set (env_payload_other (closed_envelope c w r actor))"
    by (simp_all add: closed_envelope_def)
  ultimately have "{''forced'', ''project_id'', ''title'', ''work_order_id''} \<subseteq>
      set (map fst (env_payload (closed_envelope c w r actor)) @ env_payload_other (closed_envelope c w r actor))"
    using envelope_keys [of c WORK_ORDER_CLOSED ?pl ?tr] by auto
  then have "validate_payload_keys WORK_ORDER_CLOSED (map fst (env_payload (closed_envelope c w r actor)) @
      env_payload_other (closed_envelope c w r actor)) = Inr ()"
    by (simp add: payload_check lifecycle_entries)
  moreover have "map_of (env_trace (closed_envelope c w r actor)) ''work_order_id'' = Some w"
    using sdlc_trace_work_order [of "[(''milestone_id'', wo_milestone_id r)]" "wo_milestone_id r" c WORK_ORDER_CLOSED ?pl w]
    by (simp add: closed_envelope_def)
  ultimately show ?thesis
    by (simp add: sound_envelope_def write_event_def closed_envelope_def)
qed

interpretation close: lifecycle_op "\<lambda>c w. close_work_order c (\<lambda>a. a) gf rm red force uuids actor w"
proof unfold_locales
  show "au' = au" if "close_work_order c (\<lambda>a. a) gf rm red force uuids actor w au = (out, au')" "\<And>b. out \<noteq> Done b"
    for c w au out au'
    using that by (auto simp: close_work_order_def close_phase_refusal_def Let_def split: option.splits if_splits prod.splits)
  fix c w au failed au'
  assume "close_work_order c (\<lambda>a. a) gf rm red force uuids actor w au = (Done failed, au')"
  from close_done [OF this] obtain r where r: "wo_of w au = Some r"
      "transition_refusal w (Some (wo_status r)) ''closed'' = None"
    and wr: "wrote c w (\<lambda>x. x\<lparr>wo_status := ''closed'', wo_closed_at := Some (c_now c),
      wo_updated_at := Some (c_now c), wo_last_updated_at := c_now c\<rparr>) (closed_envelope c w r actor) au failed au'"
    by auto
  show "lifecycle_effect c w au failed au'"
    by (rule lifecycle_effectI [OF r(1) wr closed_envelope_sound])
      (use move_transition [OF r(2)] returns_not_blocked(1) [OF r(2)] in
        \<open>simp_all add: closed_envelope_def wo_view_def wo_view_step_def Let_def\<close>)
qed

section \<open>Runs of operations\<close>

inductive op_step :: "call \<Rightarrow> string \<Rightarrow> authority \<Rightarrow> bool \<Rightarrow> authority \<Rightarrow> bool" where
  advance: "advance_work_order rb c w to note actor au = (Done failed, au') \<Longrightarrow> op_step c w au failed au'"
| block: "block_work_order c w reason au = (Done failed, au') \<Longrightarrow> op_step c w au failed au'"
| unblock: "unblock_work_order c w au = (Done failed, au') \<Longrightarrow> op_step c w au failed au'"
| reopen: "reopen_work_order (\<lambda>a. a) c w reason au = (Done failed, au') \<Longrightarrow> op_step c w au failed au'"
| start: "start_work_order c (row_brief b w au) acc seq actor w au = (Done failed, au') \<Longrightarrow> op_step c w au failed au'"
| close: "close_work_order c (\<lambda>a. a) gf rm red force uuids actor w au = (Done failed, au') \<Longrightarrow> op_step c w au failed au'"

inductive_cases op_stepE: "op_step c w au failed au'"

lemma op_step_effect: "op_step c w au failed au' \<Longrightarrow> lifecycle_effect c w au failed au'"
  by (elim op_stepE) (blast dest: advance.effect block.effect unblock.effect reopen.effect start.effect close.effect)+

interpretation op: lifecycle_step op_step
  by unfold_locales (rule op_step_effect)

text \<open>The phases a work order has gone through: its own operations append the phase they leave it
  in, operations on other work orders happen in between.\<close>

inductive op_run :: "string \<Rightarrow> string list \<Rightarrow> authority \<Rightarrow> bool" for w where
  created: "wo_of w au = Some r \<Longrightarrow> wo_status r = ''created'' \<Longrightarrow> wo_blocked_from_status r = None \<Longrightarrow>
     op_run w [''created''] au"
| own: "op_run w h au \<Longrightarrow> op_step c w au failed au' \<Longrightarrow> wo_of w au' = Some r \<Longrightarrow> op_run w (h @ [wo_status r]) au'"
| other: "op_run w h au \<Longrightarrow> op_step c k au failed au' \<Longrightarrow> k \<noteq> w \<Longrightarrow> op_run w h au'"

text \<open>The phases a status presupposes.\<close>

definition presupposes :: "string \<Rightarrow> string list" where
  "presupposes s =
     (if s = ''in_progress'' then [''created'', ''in_progress'']
      else if s = ''in_review'' then [''created'', ''in_progress'', ''in_review'']
      else if s \<in> {''pushed'', ''ci_issues'', ''closed''} then [''created'', ''in_progress'', ''in_review'', ''pushed'']
      else [''created''])"

lemma subseq_snoc: "subseq p h \<Longrightarrow> subseq (p @ [x]) (h @ [x])" "subseq p h \<Longrightarrow> subseq p (h @ [x])"
  by (simp_all add: list_emb_append_mono subseq_rev_drop_many)

lemma presupposes_trans:
  assumes "transition_refusal [] (Some a) b = None" and "subseq (presupposes a) h"
  shows "subseq (presupposes b) (h @ [b])"
proof -
  have "presupposes b = presupposes a @ [b] \<or> presupposes b = presupposes a"
    using assms(1) by (auto simp: transition_allowed_iff presupposes_def)
  with assms(2) subseq_snoc show ?thesis by metis
qed

lemma presupposes_less: "subseq (presupposes a) h \<Longrightarrow> subseq [''created''] h"
  by (rule subseq_order.order_trans [of _ "presupposes a"]) (simp_all add: presupposes_def)

lemma presupposes_move:
  assumes "lifecycle_move a b" and "subseq (presupposes a) h"
    and "a = ''blocked'' \<Longrightarrow> b = ''in_progress'' \<or> subseq (presupposes b) h"
  shows "subseq (presupposes b) (h @ [b])"
proof -
  have c: "subseq [''created''] h"
    using assms(2) by (rule presupposes_less)
  then have ip: "subseq (presupposes ''in_progress'') (h @ [''in_progress''])"
    using subseq_snoc(1) [OF c, of "''in_progress''"] by (simp add: presupposes_def)
  from assms(1) consider "transition_refusal [] (Some a) b = None" | "b = ''blocked''" | "b = ''in_progress''"
    | "a = ''blocked''"
    unfolding lifecycle_move_def by auto
  then show ?thesis
  proof cases
    case 1
    then show ?thesis using assms(2) by (rule presupposes_trans)
  next
    case 2
    then show ?thesis using subseq_snoc(2) [OF c] by (simp add: presupposes_def)
  next
    case 3
    with ip show ?thesis by simp
  next
    case 4
    with assms(3) ip subseq_snoc(2) show ?thesis by metis
  qed
qed

text \<open>What the history of a run accounts for: the phase the work order is in and the phase it
  remembers having been blocked from.\<close>

definition accounted :: "string \<Rightarrow> string list \<Rightarrow> authority \<Rightarrow> bool" where
  "accounted w h au \<longleftrightarrow> (\<exists>r. wo_of w au = Some r \<and> subseq (presupposes (wo_status r)) h \<and>
     (\<forall>p. wo_blocked_from_status r = Some p \<longrightarrow> subseq (presupposes p) h))"

lemma accounted_own:
  assumes "accounted w h au" and "op_step c w au failed au'" and "wo_of w au' = Some r'"
  shows "accounted w (h @ [wo_status r']) au'"
proof -
  from op.moves [OF assms(2)] assms(3) obtain r where r: "wo_of w au = Some r" "lifecycle_move (wo_status r) (wo_status r')"
      "wo_blocked_from_status r' \<in> {None, wo_blocked_from_status r, Some (wo_status r)}" "returns r (wo_status r')"
    by auto
  with assms(1) have h: "subseq (presupposes (wo_status r)) h"
      "\<And>p. wo_blocked_from_status r = Some p \<Longrightarrow> subseq (presupposes p) h"
    by (auto simp: accounted_def)
  have "subseq (presupposes (wo_status r')) (h @ [wo_status r'])"
    using r(2) h(1) by (rule presupposes_move) (use r(4) h(2) in \<open>auto simp: returns_def\<close>)
  moreover have "subseq (presupposes p) (h @ [wo_status r'])" if "wo_blocked_from_status r' = Some p" for p
    using that r(3) h by (intro subseq_snoc(2)) auto
  ultimately show ?thesis
    using assms(3) by (auto simp: accounted_def)
qed

lemma op_run_accounted: "op_run w h au \<Longrightarrow> accounted w h au"
proof (induction rule: op_run.induct)
  case (created au r)
  then show ?case
    by (simp add: accounted_def presupposes_def)
next
  case (own h au c failed au' r)
  then show ?case
    by (intro accounted_own)
next
  case (other h au c k failed au')
  from op.frame [OF other.hyps(2), of w] other.hyps(3) other.IH show ?case
    by (simp add: accounted_def)
qed

section \<open>Concrete authorities\<close>

definition sample_call :: call where
  "sample_call = \<lparr>c_now = ''t'', c_uuid = ''e1'', c_spool_ok = False, c_remembers = True\<rparr>"

definition sample_brief :: brief where
  "sample_brief = \<lparr>br_ok = True, br_status = None, br_warning = False, br_blocking_deps = 0, br_title = None,
     br_type = None, br_project_id = None, br_milestone_id = None\<rparr>"

definition sample_authority :: "string \<Rightarrow> authority" where
  "sample_authority s = \<lparr>au_db = (empty_db [])\<lparr>work_orders := [(''w1'', wo_default\<lparr>wo_status := s\<rparr>)]\<rparr>, au_deps = [],
     au_spool = empty_spool\<rparr>"

lemma sample_wo [simp]: "wo_of ''w1'' (sample_authority s) = Some (wo_default\<lparr>wo_status := s\<rparr>)"
  by (simp add: wo_of_def sample_authority_def)

lemma sample_emit [simp]: "emit sample_call e au = (au, True)"
  by (simp add: emit_def sample_call_def)

lemma sample_fields [simp]: "c_now sample_call = ''t''" "c_remembers sample_call" "\<not> c_spool_ok sample_call"
  by (simp_all add: sample_call_def)

definition sample_started :: authority where
  "sample_started = update_wo ''w1'' (\<lambda>r. r\<lparr>wo_status := ''in_progress'', wo_started_at := Some ''t'',
     wo_updated_at := Some ''t'', wo_last_updated_at := ''t''\<rparr>) (sample_authority ''created'')"

definition sample_advanced :: "string \<Rightarrow> authority \<Rightarrow> authority" where
  "sample_advanced to au = update_wo ''w1'' (\<lambda>r. r\<lparr>wo_status := to, wo_updated_at := Some ''t'',
     wo_last_updated_at := ''t''\<rparr>) au"

lemma sample_start:
  "start_work_order sample_call (row_brief sample_brief ''w1'' (sample_authority ''created'')) False False None ''w1''
     (sample_authority ''created'') = (Done True, sample_started)"
proof -
  have "transition_refusal ''w1'' (Some ''created'') ''in_progress'' = None"
    by (simp add: transition_allowed_iff)
  then show ?thesis
    by (simp add: start_work_order_def row_brief_def sample_brief_def sample_started_def Let_def)
qed

lemma sample_advance:
  assumes "op_run ''w1'' h au" and "wo_of ''w1'' au = Some r" and "map_of ADVANCE_EVENTS to = Some ty"
    and "to \<noteq> ''ci_issues''" and "transition_refusal ''w1'' (Some (wo_status r)) to = None" and "wo_status r \<noteq> to"
  shows "op_run ''w1'' (h @ [to]) (sample_advanced to au)"
    and "\<exists>r'. wo_of ''w1'' (sample_advanced to au) = Some r' \<and> wo_status r' = to"
proof -
  have "advance_work_order (\<lambda>_. False) sample_call ''w1'' to None None au = (Done True, sample_advanced to au)"
    using assms advance_status [OF assms(3)] by (simp add: advance_work_order_def Let_def sample_advanced_def)
  then have st: "op_step sample_call ''w1'' au True (sample_advanced to au)"
    by (rule op_step.advance)
  have w: "wo_of ''w1'' (sample_advanced to au) =
      Some (r\<lparr>wo_status := to, wo_updated_at := Some ''t'', wo_last_updated_at := ''t''\<rparr>)"
    using assms(2) by (simp add: sample_advanced_def wo_of_update)
  from op_run.own [OF assms(1) st w] show "op_run ''w1'' (h @ [to]) (sample_advanced to au)"
    by simp
  from w show "\<exists>r'. wo_of ''w1'' (sample_advanced to au) = Some r' \<and> wo_status r' = to"
    by simp
qed

definition sample_pushed :: authority where
  "sample_pushed = sample_advanced ''pushed'' (sample_advanced ''in_review'' sample_started)"

lemma sample_run:
  "op_run ''w1'' [''created'', ''in_progress'', ''in_review'', ''pushed''] sample_pushed"
  "\<exists>r. wo_of ''w1'' sample_pushed = Some r \<and> wo_status r = ''pushed''"
proof -
  let ?r1 = "wo_default\<lparr>wo_status := ''in_progress'', wo_started_at := Some ''t'',
      wo_updated_at := Some ''t'', wo_last_updated_at := ''t''\<rparr>"
  have st: "wo_of ''w1'' sample_started = Some ?r1"
    by (simp add: sample_started_def wo_of_update)
  have t: "transition_refusal ''w1'' (Some ''in_progress'') ''in_review'' = None"
      "transition_refusal ''w1'' (Some ''in_review'') ''pushed'' = None"
    by (simp_all add: transition_allowed_iff)
  have "op_run ''w1'' [''created''] (sample_authority ''created'')"
    by (rule op_run.created [OF sample_wo]) (simp_all add: wo_default_def)
  from op_run.own [OF this op_step.start [OF sample_start] st]
  have r1: "op_run ''w1'' [''created'', ''in_progress''] sample_started"
    by simp
  have r2: "op_run ''w1'' ([''created'', ''in_progress''] @ [''in_review'']) (sample_advanced ''in_review'' sample_started)"
      "\<exists>r. wo_of ''w1'' (sample_advanced ''in_review'' sample_started) = Some r \<and> wo_status r = ''in_review''"
    using sample_advance [OF r1 st, of "''in_review''" WORK_ORDER_REVIEW_REQUESTED] t(1)
    by (simp_all add: ADVANCE_EVENTS_def)
  then obtain r where r: "wo_of ''w1'' (sample_advanced ''in_review'' sample_started) = Some r" "wo_status r = ''in_review''"
    by blast
  show "op_run ''w1'' [''created'', ''in_progress'', ''in_review'', ''pushed''] sample_pushed"
      "\<exists>r. wo_of ''w1'' sample_pushed = Some r \<and> wo_status r = ''pushed''"
    using sample_advance [OF r2(1) r(1), of "''pushed''" WORK_ORDER_PUSHED] t(2) r(2)
    by (simp_all add: ADVANCE_EVENTS_def sample_pushed_def)
qed

section \<open>Properties\<close>

text \<open>C2: A work order is closed only after it was worked on, reviewed and pushed. In every run of
  operations that starts with a created work order, whatever operations are attempted on it and on
  other work orders, blocked and unblocked, reopened or forced, the phases it went through contain
  created, in_progress, in_review and pushed in that order by the time it is pushed, has failed CI or is
  closed.\<close>

theorem closed_was_pushed:
  assumes "op_run w h au" and "wo_of w au = Some r" and "wo_status r \<in> {''pushed'', ''ci_issues'', ''closed''}"
  shows "subseq [''created'', ''in_progress'', ''in_review'', ''pushed''] h"
  using op_run_accounted [OF assms(1)] assms(2,3) by (auto simp: accounted_def presupposes_def)

theorem closed_was_pushed_witness:
  "\<exists>h. op_run ''w1'' h sample_pushed \<and> subseq [''created'', ''in_progress'', ''in_review'', ''pushed''] h"
proof -
  obtain r where "wo_of ''w1'' sample_pushed = Some r" "wo_status r = ''pushed''"
    using sample_run(2) by blast
  with closed_was_pushed [OF sample_run(1)] sample_run(1) show ?thesis
    by blast
qed



text \<open>C20: The guards of the doors. Advancing to pushed succeeds only from in_review and only when the
  review does not hold the work order; starting succeeds only with no open dependency and, when the
  order is enforced, no open predecessor; closing succeeds only if the conditional write found the
  work order pushed or in CI failure, whatever other processes did since the phase check, and never
  without the required review; a forced close skips the gates and the state of main, and nothing
  else.\<close>

theorem doors_guarded:
  "(advance_work_order rb c w ''pushed'' note actor au = (Done failed, au') \<longrightarrow>
      \<not> rb w \<and> map_option wo_status (wo_of w au) = Some ''in_review'') \<and>
   (start_work_order c (row_brief b w au) acc seq actor w au = (Done failed, au') \<longrightarrow>
      br_blocking_deps b = 0 \<and> (seq \<longrightarrow> check_sequence_order w au = [])) \<and>
   (close_work_order c window gf rm red force uuids actor w au = (Done failed, au') \<longrightarrow>
      map_option wo_status (wo_of w (window au)) \<in> {Some ''pushed'', Some ''ci_issues''} \<and>
      map_option wo_status (wo_of w au') = Some ''closed'' \<and> \<not> rm \<and> (force \<or> gf = [] \<and> \<not> red))"
proof (intro conjI impI)
  assume "advance_work_order rb c w ''pushed'' note actor au = (Done failed, au')"
  from advance_done [OF this] show "\<not> rb w" "map_option wo_status (wo_of w au) = Some ''in_review''"
    by (auto simp: transition_allowed_iff)
next
  assume "start_work_order c (row_brief b w au) acc seq actor w au = (Done failed, au')"
  from start_done [OF this] show "br_blocking_deps b = 0" "seq \<Longrightarrow> check_sequence_order w au = []"
    by auto
next
  assume "close_work_order c window gf rm red force uuids actor w au = (Done failed, au')"
  from close_done [OF this] obtain r where r: "wo_of w (window au) = Some r" "wo_status r \<in> set CLOSEABLE_WORK_ORDER_STATUSES"
      "\<not> rm" "force \<or> gf = [] \<and> \<not> red"
    and wr: "wrote c w (\<lambda>x. x\<lparr>wo_status := ''closed'', wo_closed_at := Some (c_now c),
      wo_updated_at := Some (c_now c), wo_last_updated_at := c_now c\<rparr>) (closed_envelope c w r actor) (window au) failed au'"
    by blast
  from r show "map_option wo_status (wo_of w (window au)) \<in> {Some ''pushed'', Some ''ci_issues''}"
      "\<not> rm" "force \<or> gf = [] \<and> \<not> red"
    by (auto simp: closeable_eq)
  from wrote_rows [OF wr, of w] r(1) show "map_option wo_status (wo_of w au') = Some ''closed''"
    by simp
qed

theorem doors_guarded_witness:
  "fst (advance_work_order (\<lambda>_. False) sample_call ''w1'' ''pushed'' None None (sample_authority ''in_review'')) = Done True \<and>
   map_option wo_status (wo_of ''w1'' (sample_authority ''in_review'')) = Some ''in_review''"
proof -
  have t: "transition_refusal ''w1'' (Some ''in_review'') ''pushed'' = None"
    by (simp add: transition_allowed_iff)
  obtain au' where a: "advance_work_order (\<lambda>_. False) sample_call ''w1'' ''pushed'' None None (sample_authority ''in_review'') =
      (Done True, au')"
    using t by (auto simp: advance_work_order_def ADVANCE_EVENTS_def Let_def)
  from doors_guarded [THEN conjunct1, rule_format, OF a] a show ?thesis
    by simp
qed

text \<open>Blocking and unblocking is a detour. After a work order is blocked and then unblocked, by
  calls that find the column for the remembered phase, it is in the phase it was in, remembers
  nothing and carries no block reason.\<close>

theorem block_unblock_returns:
  assumes "block_work_order c w reason au = (Done f1, au1)" and "unblock_work_order c' w au1 = (Done f2, au2)"
    and "c_remembers c" and "c_remembers c'"
  shows "\<exists>r r2. wo_of w au = Some r \<and> wo_of w au2 = Some r2 \<and> wo_status r2 = wo_status r \<and>
    wo_priority r2 = wo_priority r \<and> wo_blocked_from_status r2 = None \<and> wo_block_reason r2 = None"
proof -
  from block_done [OF assms(1)] obtain r e f where r: "wo_of w au = Some r" "wo_status r \<in> set BLOCKABLE_WORK_ORDER_STATUSES"
    and em: "emit c e (update_wo w f au) = (au1, f1)" and f: "f = (\<lambda>x. let x1 = x\<lparr>wo_status := ''blocked'', wo_blocked_at := Some (c_now c),
           wo_block_reason := Some reason, wo_updated_at := Some (c_now c), wo_last_updated_at := c_now c\<rparr>
         in if c_remembers c then x1\<lparr>wo_blocked_from_status := Some (wo_status r)\<rparr> else x1)"
    by blast
  from wrote_rows [OF wroteI [OF em], of w] r(1) have r1: "wo_of w au1 = Some (f r)"
    by simp
  from unblock_done [OF assms(2)] r1 obtain e' f' where em': "emit c' e' (update_wo w f' au1) = (au2, f2)"
    and f': "f' = (\<lambda>x. let x1 = x\<lparr>wo_status := unblock_target c' (f r), wo_unblocked_at := Some (c_now c'),
           wo_block_reason := None, wo_updated_at := Some (c_now c'), wo_last_updated_at := c_now c'\<rparr>
         in if c_remembers c' then x1\<lparr>wo_blocked_from_status := None\<rparr> else x1)"
    by auto
  from wrote_rows [OF wroteI [OF em'], of w] r1 have "wo_of w au2 = Some (f' (f r))"
    by simp
  moreover have "unblock_target c' (f r) = wo_status r"
    using r(2) assms(3,4) by (simp add: unblock_target_def f Let_def)
  ultimately show ?thesis
    using r(1) assms(3,4) by (simp add: f f' Let_def)
qed

theorem block_unblock_returns_witness:
  "\<exists>au1 au2 r2. block_work_order sample_call ''w1'' ''why'' (sample_authority ''pushed'') = (Done True, au1) \<and>
     unblock_work_order sample_call ''w1'' au1 = (Done True, au2) \<and> wo_of ''w1'' au2 = Some r2 \<and> wo_status r2 = ''pushed''"
proof -
  obtain au1 where b: "block_work_order sample_call ''w1'' ''why'' (sample_authority ''pushed'') = (Done True, au1)"
    by (simp add: block_work_order_def blockable_eq Let_def)
  then have "map_option wo_status (wo_of ''w1'' au1) = Some ''blocked''"
    by (auto simp: block_work_order_def blockable_eq Let_def wo_of_update)
  then obtain au2 where u: "unblock_work_order sample_call ''w1'' au1 = (Done True, au2)"
    by (auto simp: unblock_work_order_def Let_def)
  from block_unblock_returns [OF b u] b u show ?thesis
    by auto
qed

end
