(* ===== verification/Authority_Replay.thy ===== *)
theory Authority_Replay
  imports Work_Order_Lifecycle
begin

text \<open>
  The authority against its own event log. The mutations write rows directly and the projection
  writes them again from the emitted events; this theory states when the two agree over whole
  runs, and where they do not: the columns no event carries, and the task statuses the
  projection guards and the mutation does not.
\<close>

section \<open>Runs and the events they leave\<close>

text \<open>A run of operations whose events were all written, with the envelopes in order. Operations on
  other work orders are interleaved.\<close>

inductive emitted_run :: "bool \<Rightarrow> string \<Rightarrow> authority \<Rightarrow> envelope list \<Rightarrow> authority \<Rightarrow> bool" for rem w au where
  start: "emitted_run rem w au [] au"
| own: "emitted_run rem w au es au1 \<Longrightarrow> op_step c w au1 failed au2 \<Longrightarrow> c_spool_ok c \<Longrightarrow> c_remembers c = rem \<Longrightarrow>
    map_of (sp_inbox (au_spool au2)) (c_uuid c @ ''.json'') = Some (Json e) \<Longrightarrow> emitted_run rem w au (es @ [e]) au2"
| other: "emitted_run rem w au es au1 \<Longrightarrow> op_step c k au1 failed au2 \<Longrightarrow> c_spool_ok c \<Longrightarrow> k \<noteq> w \<Longrightarrow> k \<noteq> [] \<Longrightarrow>
    map_of (sp_inbox (au_spool au2)) (c_uuid c @ ''.json'') = Some (Json e) \<Longrightarrow> emitted_run rem w au (es @ [e]) au2"

lemma step_event:
  assumes "op_step c w au failed au'" and "c_spool_ok c" and "w \<noteq> []"
    and "map_of (sp_inbox (au_spool au')) (c_uuid c @ ''.json'') = Some (Json e)"
  shows "wo_target (canonical_row e) = Some w \<and>
    map_option wo_view (wo_of w au') = Some (wo_view_step (c_remembers c) (canonical_row e) (map_option wo_view (wo_of w au)))"
  using op.mirrored [OF assms(1,2)] assms(3,4)
  by (auto simp: wo_target_def col_or_payload_def py_or_def)

lemma emitted_run_views:
  assumes "emitted_run rem w au es au'" and "w \<noteq> []"
  shows "fold (\<lambda>e v. Some (wo_view_step rem e v)) (filter (\<lambda>e. wo_target e = Some w) (map canonical_row es))
    (map_option wo_view (wo_of w au)) = map_option wo_view (wo_of w au')"
  using assms(1)
proof (induction rule: emitted_run.induct)
  case start
  show ?case by simp
next
  case (own es au1 c failed au2 e)
  with step_event [OF own.hyps(2,3) assms(2) own.hyps(5)] show ?case
    by (simp del: map_option_eq_Some)
next
  case (other es au1 c k failed au2 e)
  with step_event [OF other.hyps(2,3,5,6)] op.frame [OF other.hyps(2)] show ?case
    by simp
qed

section \<open>Columns no event carries\<close>

lemma handlers_keep_sequence:
  assumes "list_all (\<lambda>(k, r). wo_sequence_order r = None) t"
  shows "list_all (\<lambda>(k, r). wo_sequence_order r = None) (wo_step rem clk e t)"
proof -
  have up: "list_all (\<lambda>(k, r). wo_sequence_order r = None) (upsert wo_default w f t')"
    if "list_all (\<lambda>(k, r). wo_sequence_order r = None) t'" "\<And>r. wo_sequence_order (f r) = wo_sequence_order r" for w f t'
    using that by (auto simp: upsert_def wo_default_def intro: list_all_tbl_update)
  have "list_all (\<lambda>(k, r). wo_sequence_order r = None) t''"
    if "wo_dispatch rem (clk e) e w t' = Inr (n, t'')" "list_all (\<lambda>(k, r). wo_sequence_order r = None) t'" for w t' n t''
    using that
    by (auto simp: wo_dispatch_def Let_def wo_handler_defs wo_safe_upsert_def and_then_Inr_iff
        split: if_splits intro!: up)
  note disp = this
  have sk: "list_all (\<lambda>(k, r). wo_sequence_order r = None) (insert_or_ignore w r0 t)" if "wo_sequence_order r0 = None" for w r0
    using assms that by (auto intro: list_all_insert_or_ignore)
  have d: "wo_sequence_order wo_default = None"
    by (simp add: wo_default_def)
  obtain n where h: "wo_handle rem (clk e) e t = Inr (n, wo_step rem clk e t)"
    using wo_step_handle by blast
  show ?thesis
  proof (cases "wo_target e")
    case None
    with h assms show ?thesis by (simp add: wo_handle_eq)
  next
    case (Some w)
    show ?thesis
    proof (cases "ev_type e = WORK_ORDER_CREATED")
      case True
      with Some assms d show ?thesis
        by (auto simp: wo_step_def wo_handle_eq wo_handle_created_def Let_def intro!: list_all_tbl_update sk)
    next
      case False
      with h Some assms d show ?thesis
        by (auto simp: wo_handle_eq split: if_splits intro!: disp [OF _ sk])
    qed
  qed
qed

section \<open>Properties\<close>



text \<open>A rebuild forgets the sequence order. Setting the order of a work order succeeds and is
  what the authority holds, but no handler reads the emitted event, so after rebuilding the table
  from any log whatsoever no work order has a sequence order and no predecessor is ever found
  out of sequence.\<close>

theorem rebuild_forgets_order:
  "(wo_of w au \<noteq> None \<longrightarrow> (\<exists>failed au' r. set_sequence_order c w n au = (Done failed, au') \<and>
      wo_of w au' = Some r \<and> wo_sequence_order r = Some n)) \<and>
   (\<forall>k r. map_of (wo_replay rem clk log []) k = Some r \<longrightarrow> wo_sequence_order r = None) \<and>
   check_sequence_order w (au\<lparr>au_db := (au_db au)\<lparr>work_orders := wo_replay rem clk log []\<rparr>\<rparr>) = []"
proof -
  have "list_all (\<lambda>(k, r). wo_sequence_order r = None) (wo_replay rem clk log [])"
    unfolding wo_replay_def by (rule fold_invariant_run) (simp_all add: handlers_keep_sequence)
  then have n: "wo_sequence_order r = None" if "map_of (wo_replay rem clk log []) k = Some r" for k r
    using map_of_SomeD [OF that] by (auto simp: list_all_iff)
  then have "check_sequence_order w (au\<lparr>au_db := (au_db au)\<lparr>work_orders := wo_replay rem clk log []\<rparr>\<rparr>) = []"
    by (simp add: check_sequence_order_def wo_of_def split: option.split)
  with n show ?thesis
    by (auto simp: set_sequence_order_def Let_def case_prod_unfold wo_of_update)
qed

theorem rebuild_forgets_order_witness:
  "\<exists>failed au' r. set_sequence_order sample_call ''w1'' 10 (sample_authority ''created'') = (Done failed, au') \<and>
     wo_of ''w1'' au' = Some r \<and> wo_sequence_order r = Some 10"
  using rebuild_forgets_order [THEN conjunct1, of "''w1''" "sample_authority ''created''" sample_call 10]
  by simp

text \<open>Starting an abandoned task. The mutation refuses only a complete task, so starting a task
  that is done under the older spelling, cancelled or deleted succeeds and writes in_progress, while
  no event, the one it emits included, makes the projection take such a task out of the finished
  stage: after the call the table and the log disagree.\<close>

theorem start_task_revives:
  assumes "task_of k au = Some t" and "t_work_order_id t = w" and "t_status t \<in> {''done'', ''cancelled'', ''deleted''}"
  shows "(\<exists>failed n au'. start_task c w k actor au = ((Done failed, n), au') \<and>
      map_option t_status (task_of k au') = Some ''in_progress'') \<and>
    (\<forall>now e m db'. task_handle now e (au_db au) = Inr (m, db') \<longrightarrow>
      (\<exists>t'. map_of (tasks db') k = Some t' \<and> t_status t' \<noteq> ''in_progress''))"
proof (intro conjI allI impI)
  show "\<exists>failed n au'. start_task c w k actor au = ((Done failed, n), au') \<and>
      map_option t_status (task_of k au') = Some ''in_progress''"
    using assms by (auto simp: start_task_def Let_def case_prod_unfold task_of_def update_task_def map_of_tbl_update)
  fix now e m db'
  assume h: "task_handle now e (au_db au) = Inr (m, db')"
  have "task_rank (t_status t) = 2"
    using assms(3) by (auto simp: task_rank_def TASK_DONE_STATUSES_def TASK_ABANDONED_STATUSES_def)
  with task_rank_keeps [OF h, of k t] assms(1) show "\<exists>t'. map_of (tasks db') k = Some t' \<and> t_status t' \<noteq> ''in_progress''"
    by (auto simp: task_of_def)
qed

theorem start_task_revives_witness:
  "\<exists>failed n au'. start_task sample_call ''w1'' ''k1'' None ((sample_authority ''created'')\<lparr>au_db :=
       (empty_db [])\<lparr>tasks := [(''k1'', (task_skeleton ''t'' ''w1'' ''p1'')\<lparr>t_status := ''cancelled''\<rparr>)]\<rparr>\<rparr>) = ((Done failed, n), au') \<and>
     map_option t_status (task_of ''k1'' au') = Some ''in_progress''"
  by (rule start_task_revives [THEN conjunct1], (simp add: task_of_def task_skeleton_def)+)

end
