(* ===== verification/Workflow_Parser.thy ===== *)
theory Workflow_Parser
  imports Prelude "HOL-Library.AList"
begin

text \<open>
  The parser of workflow files (\<open>control/execution/workflow/validate.py\<close>): a line-by-line
  reader of the YAML subset the workflows use. Its loop variables are the record
  \<open>parse_state\<close>, one line is \<open>parse_line\<close>, a file is a fold over its lines. The values a line
  can carry are the datatype \<open>yaml\<close>; a dictionary keeps its insertion order, so it is an
  association list written with \<open>AList.update\<close> (replace in place, else append).
\<close>

section \<open>Values\<close>

datatype yaml =
    YNone
  | YTrue
  | YStr string
  | YInt int
  | YList "string list"
  | YDict "(string \<times> yaml) list"

type_synonym wf_node = "(string \<times> yaml) list"

text \<open>\<open>d.get(k)\<close>\<close>

definition yget :: "string \<Rightarrow> wf_node \<Rightarrow> yaml" where
  "yget k d = (case map_of d k of None \<Rightarrow> YNone | Some v \<Rightarrow> v)"

fun ytruthy :: "yaml \<Rightarrow> bool" where
  "ytruthy YNone = False"
| "ytruthy YTrue = True"
| "ytruthy (YStr s) = (s \<noteq> [])"
| "ytruthy (YInt i) = (i \<noteq> 0)"
| "ytruthy (YList l) = (l \<noteq> [])"
| "ytruthy (YDict d) = (d \<noteq> [])"

section \<open>Scalars\<close>

definition is_digit :: "char \<Rightarrow> bool" where
  "is_digit c = (48 \<le> (of_char c :: nat) \<and> (of_char c :: nat) \<le> 57)"

definition digit_value :: "char \<Rightarrow> int" where
  "digit_value c = int (of_char c) - 48"

text \<open>The digits of a decimal literal, single underscores allowed between them.\<close>

fun int_digits :: "string \<Rightarrow> int \<Rightarrow> int option" where
  "int_digits [] a = Some a"
| "int_digits (c # s) a =
     (if is_digit c then int_digits s (a * 10 + digit_value c)
      else if c = CHR ''_'' then
        (case s of [] \<Rightarrow> None | d # _ \<Rightarrow> if is_digit d then int_digits s a else None)
      else None)"

definition int_literal :: "string \<Rightarrow> int option" where
  "int_literal s =
     (case s of [] \<Rightarrow> None
      | c # _ \<Rightarrow> if is_digit c \<and> length (filter is_digit s) \<le> 4300 then int_digits s 0 else None)"

text \<open>\<open>int(s)\<close>, with None where it raises \<open>ValueError\<close> (a literal of more than 4300 digits
  included, the interpreter's limit).\<close>

definition py_int :: "string \<Rightarrow> int option" where
  "py_int s =
     (case py_strip s of
        [] \<Rightarrow> None
      | c # r \<Rightarrow>
          if c = CHR ''-'' then map_option uminus (int_literal r)
          else if c = CHR ''+'' then int_literal r
          else int_literal (c # r))"

definition strip_chars :: "string \<Rightarrow> string \<Rightarrow> string" where
  "strip_chars cs s = rev (dropWhile (\<lambda>c. c \<in> set cs) (rev (dropWhile (\<lambda>c. c \<in> set cs) s)))"

text \<open>\<open>s[1:-1]\<close>\<close>

definition py_inner :: "string \<Rightarrow> string" where
  "py_inner s = butlast (tl s)"

definition parse_scalar :: "string \<Rightarrow> yaml" where
  "parse_scalar v =
     (if v = [] then YNone
      else if py_startswith v ''['' \<and> py_endswith v '']'' then
        YList (map (\<lambda>i. strip_chars [CHR 0x27, CHR 0x22] (py_strip i))
          (filter (\<lambda>i. py_strip i \<noteq> []) (split_char (CHR '','') (py_inner v))))
      else if (py_startswith v [CHR 0x22] \<and> py_endswith v [CHR 0x22])
            \<or> (py_startswith v [CHR 0x27] \<and> py_endswith v [CHR 0x27]) then YStr (py_inner v)
      else (case py_int v of Some i \<Rightarrow> YInt i | None \<Rightarrow> YStr v))"

text \<open>The first colon splits key from value.\<close>

definition split_kv :: "string \<Rightarrow> string \<times> string" where
  "split_kv line =
     (let s = py_strip line in
      case py_find s '':'' 0 of
        None \<Rightarrow> (s, [])
      | Some i \<Rightarrow> (py_strip (take i s), py_strip (drop (i + 1) s)))"

section \<open>Lines\<close>

datatype wf_section = SecGates | SecNodes

record workflow =
  wd_top :: wf_node
  wd_gates :: "(string \<times> wf_node) list"
  wd_nodes :: "wf_node list"

record parse_state =
  ps_result :: workflow
  ps_section :: "wf_section option"
  ps_gate :: "string option"
  ps_node :: "wf_node option"
  ps_block :: "nat option"

definition parse_init :: parse_state where
  "parse_init =
     \<lparr>ps_result = \<lparr>wd_top = [(''name'', YNone), (''description'', YNone), (''version'', YNone)],
        wd_gates = [], wd_nodes = []\<rparr>,
      ps_section = None, ps_gate = None, ps_node = None, ps_block = None\<rparr>"

text \<open>\<open>if node: result["nodes"].append(node)\<close>\<close>

definition flush_node :: "wf_node option \<Rightarrow> workflow \<Rightarrow> workflow" where
  "flush_node nd w =
     (case nd of None \<Rightarrow> w
      | Some n \<Rightarrow> if n = [] then w else w\<lparr>wd_nodes := wd_nodes w @ [n]\<rparr>)"

definition enter_section :: "wf_section \<Rightarrow> parse_state \<Rightarrow> parse_state" where
  "enter_section sec s =
     s\<lparr>ps_section := Some sec, ps_gate := None,
       ps_result := flush_node (ps_node s) (ps_result s), ps_node := None\<rparr>"

definition parse_top :: "string \<Rightarrow> parse_state \<Rightarrow> parse_state" where
  "parse_top stripped s =
     (case split_kv stripped of (key, val) \<Rightarrow>
        if key = ''gates'' then enter_section SecGates s
        else if key = ''nodes'' then enter_section SecNodes s
        else s\<lparr>ps_result := (ps_result s)\<lparr>wd_top :=
               AList.update key (parse_scalar val) (wd_top (ps_result s))\<rparr>\<rparr>)"

definition parse_gate_line :: "nat \<Rightarrow> string \<Rightarrow> parse_state \<Rightarrow> parse_state" where
  "parse_gate_line indent stripped s =
     (if indent = 2 \<and> py_endswith stripped '':'' then
        (let g = py_strip (butlast stripped) in
         s\<lparr>ps_gate := Some g,
           ps_result := (ps_result s)\<lparr>wd_gates := AList.update g [] (wd_gates (ps_result s))\<rparr>\<rparr>)
      else if 4 \<le> indent \<and> truthy (ps_gate s) \<and> py_in '':'' stripped then
        (case split_kv stripped of (k, v) \<Rightarrow>
           s\<lparr>ps_result := (ps_result s)\<lparr>wd_gates :=
               AList.map_entry (the (ps_gate s)) (AList.update k (parse_scalar v))
                 (wd_gates (ps_result s))\<rparr>\<rparr>)
      else s)"

definition parse_node_line :: "nat \<Rightarrow> string \<Rightarrow> parse_state \<Rightarrow> parse_state" where
  "parse_node_line indent stripped s =
     (if py_startswith stripped ''- id:'' then
        s\<lparr>ps_result := flush_node (ps_node s) (ps_result s),
          ps_node := Some [(''id'', YStr (py_strip (drop 5 stripped)))]\<rparr>
      else
        (case ps_node s of
           Some n \<Rightarrow>
             if n \<noteq> [] \<and> 4 \<le> indent \<and> py_in '':'' stripped then
               (case split_kv stripped of (k, v) \<Rightarrow>
                  if v = ''|'' then
                    s\<lparr>ps_node := Some (AList.update k YTrue n), ps_block := Some indent\<rparr>
                  else s\<lparr>ps_node := Some (AList.update k (parse_scalar v) n)\<rparr>)
             else s
         | None \<Rightarrow> s))"

definition line_indent :: "string \<Rightarrow> nat" where
  "line_indent line = length line - length (py_lstrip line)"

text \<open>The lines of a block scalar are those indented deeper than its key.\<close>

definition in_block :: "parse_state \<Rightarrow> nat \<Rightarrow> bool" where
  "in_block s indent = (case ps_block s of None \<Rightarrow> False | Some b \<Rightarrow> b < indent)"

definition parse_line :: "string \<Rightarrow> parse_state \<Rightarrow> parse_state" where
  "parse_line line s =
     (let stripped = py_strip line; indent = line_indent line in
      if stripped = [] \<or> py_startswith stripped ''#'' then s
      else if in_block s indent then s
      else
        (let s = s\<lparr>ps_block := None\<rparr> in
         if indent = 0 \<and> py_in '':'' stripped then parse_top stripped s
         else (case ps_section s of
                 Some SecGates \<Rightarrow> parse_gate_line indent stripped s
               | Some SecNodes \<Rightarrow> parse_node_line indent stripped s
               | None \<Rightarrow> s)))"

text \<open>\<open>.replace("\r\n", "\n").replace("\r", "\n")\<close>\<close>

fun normalize_newlines :: "string \<Rightarrow> string" where
  "normalize_newlines [] = []"
| "normalize_newlines (c # s) =
     (if c = CHR 0x0D then
        CHR 0x0A # (case s of [] \<Rightarrow> [] | d # t \<Rightarrow>
                      if d = CHR 0x0A then normalize_newlines t else normalize_newlines s)
      else c # normalize_newlines s)"

definition parse_lines :: "string list \<Rightarrow> workflow" where
  "parse_lines ls =
     (let s = fold parse_line ls parse_init in flush_node (ps_node s) (ps_result s))"

definition parse_workflow :: "string \<Rightarrow> workflow" where
  "parse_workflow text = parse_lines (split_char (CHR 0x0A) (normalize_newlines text))"

section \<open>What every parsed node is\<close>

text \<open>Nodes have an id field and only scalar or list values: the parser flattens nested keys into
  the node, it never builds a mapping.\<close>

fun flat_value :: "yaml \<Rightarrow> bool" where
  "flat_value (YDict d) = False"
| "flat_value _ = True"

definition flat_node :: "wf_node \<Rightarrow> bool" where
  "flat_node n \<longleftrightarrow> map_of n ''id'' \<noteq> None \<and> (\<forall>v\<in>snd ` set n. flat_value v)"

definition parse_inv :: "parse_state \<Rightarrow> bool" where
  "parse_inv s \<longleftrightarrow> (\<forall>n\<in>set (wd_nodes (ps_result s)). flat_node n)
     \<and> (\<forall>n. ps_node s = Some n \<longrightarrow> flat_node n)"

lemma parse_scalar_flat [simp]: "flat_value (parse_scalar v)"
  by (simp add: parse_scalar_def split: option.split)

lemma set_update_values: "snd ` set (AList.update k v d) \<subseteq> insert v (snd ` set d)"
  by (induction d) auto

lemma flat_node_update:
  assumes "flat_node n" "flat_value v"
  shows "flat_node (AList.update k v n)"
proof -
  have "\<forall>x\<in>snd ` set (AList.update k v n). flat_value x"
    using assms set_update_values [of k v n] unfolding flat_node_def by blast
  moreover have "map_of (AList.update k v n) ''id'' \<noteq> None"
    using assms(1) by (simp add: flat_node_def update_conv')
  ultimately show ?thesis
    by (simp add: flat_node_def)
qed

lemma flat_node_new [simp]: "flat_node [(''id'', YStr s)]"
  by (simp add: flat_node_def)

lemma flush_node_flat:
  "parse_inv s \<Longrightarrow> \<forall>n\<in>set (wd_nodes (flush_node (ps_node s) (ps_result s))). flat_node n"
  by (auto simp: parse_inv_def flush_node_def split: option.splits)

lemma enter_section_inv: "parse_inv s \<Longrightarrow> parse_inv (enter_section sec s)"
  by (frule flush_node_flat) (simp add: enter_section_def parse_inv_def)

lemma parse_top_inv:
  assumes "parse_inv s"
  shows "parse_inv (parse_top l s)"
proof (cases "split_kv l")
  case (Pair key val)
  have "parse_inv (s\<lparr>ps_result := (ps_result s)\<lparr>wd_top := t\<rparr>\<rparr>)" for t
    using assms by (simp add: parse_inv_def)
  then show ?thesis
    using enter_section_inv [OF assms] unfolding parse_top_def Pair by simp
qed

lemma parse_gate_line_inv:
  assumes "parse_inv s"
  shows "parse_inv (parse_gate_line i l s)"
proof -
  have "parse_inv (s\<lparr>ps_result := (ps_result s)\<lparr>wd_gates := g\<rparr>\<rparr>)"
    "parse_inv (s\<lparr>ps_gate := n, ps_result := (ps_result s)\<lparr>wd_gates := g\<rparr>\<rparr>)" for g n
    using assms by (simp_all add: parse_inv_def)
  then show ?thesis
    using assms unfolding parse_gate_line_def by (cases "split_kv l") (simp add: Let_def)
qed

lemma parse_node_line_inv:
  assumes "parse_inv s"
  shows "parse_inv (parse_node_line i l s)"
proof -
  have new: "parse_inv (s\<lparr>ps_result := flush_node (ps_node s) (ps_result s),
      ps_node := Some [(''id'', YStr x)]\<rparr>)" for x
    using flush_node_flat [OF assms] by (simp add: parse_inv_def)
  have upd: "parse_inv (s\<lparr>ps_node := Some (AList.update k v n)\<rparr>)"
    "parse_inv (s\<lparr>ps_node := Some (AList.update k v n), ps_block := b\<rparr>)"
    if "ps_node s = Some n" "flat_value v" for k v n b
    using assms that by (simp_all add: parse_inv_def flat_node_update)
  show ?thesis
    using assms new upd unfolding parse_node_line_def
    by (cases "split_kv l"; cases "ps_node s") simp_all
qed

lemma parse_line_inv: "parse_inv s \<Longrightarrow> parse_inv (parse_line line s)"
proof -
  assume "parse_inv s"
  then have "parse_inv (s\<lparr>ps_block := None\<rparr>)"
    by (simp add: parse_inv_def)
  with \<open>parse_inv s\<close> show ?thesis
    by (simp add: parse_line_def Let_def parse_top_inv parse_gate_line_inv parse_node_line_inv
        split: option.split wf_section.split)
qed

lemma parse_lines_flat: "n \<in> set (wd_nodes (parse_lines ls)) \<Longrightarrow> flat_node n"
proof -
  have "parse_inv (fold parse_line ls parse_init)"
    by (rule fold_invariant_run) (simp_all add: parse_line_inv, simp add: parse_inv_def parse_init_def)
  moreover assume "n \<in> set (wd_nodes (parse_lines ls))"
  ultimately show ?thesis
    using flush_node_flat by (auto simp: parse_lines_def Let_def)
qed

section \<open>Printing and parsing\<close>

text \<open>A printer for the nodes of a workflow, one line per field.\<close>

fun show_value :: "yaml \<Rightarrow> string" where
  "show_value (YStr s) = s"
| "show_value (YList l) = ''['' @ py_join '', '' l @ '']''"
| "show_value _ = []"

definition show_field :: "string \<times> yaml \<Rightarrow> string" where
  "show_field kv = ''    '' @ fst kv @ '': '' @ show_value (snd kv)"

definition show_node :: "string \<times> wf_node \<Rightarrow> string list" where
  "show_node n = (''  - id: '' @ fst n) # map show_field (snd n)"

definition show_nodes :: "(string \<times> wf_node) list \<Rightarrow> string list" where
  "show_nodes ns = ''nodes:'' # concat (map show_node ns)"

text \<open>What can be printed: words without spaces that the parser does not read as another kind of
  value.\<close>

definition word_char :: "char \<Rightarrow> bool" where
  "word_char c \<longleftrightarrow> \<not> py_isspace c \<and> c \<notin> set '':,[]#|-'' \<and> c \<noteq> CHR 0x22 \<and> c \<noteq> CHR 0x27"

definition word_ok :: "string \<Rightarrow> bool" where
  "word_ok s \<longleftrightarrow> s \<noteq> [] \<and> (\<forall>c\<in>set s. word_char c)"

fun printable_value :: "yaml \<Rightarrow> bool" where
  "printable_value (YStr s) = (word_ok s \<and> py_int s = None)"
| "printable_value (YList l) = (\<forall>s\<in>set l. word_ok s)"
| "printable_value _ = False"

definition node_printable :: "string \<times> wf_node \<Rightarrow> bool" where
  "node_printable n \<longleftrightarrow> word_ok (fst n)
     \<and> (\<forall>(k, v)\<in>set (snd n). word_ok k \<and> k \<noteq> ''id'' \<and> printable_value v)
     \<and> distinct (map fst (snd n))"

definition tight :: "string \<Rightarrow> bool" where
  "tight s \<longleftrightarrow> s \<noteq> [] \<and> \<not> py_isspace (hd s) \<and> \<not> py_isspace (last s)"

lemma space_is_space [simp]: "py_isspace (CHR '' '')"
  by (simp add: py_isspace_def)

lemma not_word_char [simp]:
  "\<not> word_char (CHR '':'')" "\<not> word_char (CHR '','')" "\<not> word_char (CHR ''['')"
  "\<not> word_char (CHR ''#'')" "\<not> word_char (CHR ''|'')" "\<not> word_char (CHR ''-'')"
  "\<not> word_char (CHR 0x22)" "\<not> word_char (CHR 0x27)"
  by (simp_all add: word_char_def)

lemma word_char_nospace: "word_char c \<Longrightarrow> \<not> py_isspace c"
  by (simp add: word_char_def)

lemma word_tight: "word_ok s \<Longrightarrow> tight s"
  by (auto simp: word_ok_def tight_def word_char_nospace)

lemma word_chars:
  assumes "word_ok s"
  shows "CHR '':'' \<notin> set s" "CHR '','' \<notin> set s"
  using assms by (auto simp: word_ok_def)

lemma tight_append: "tight a \<Longrightarrow> tight b \<Longrightarrow> tight (a @ c @ b)"
  by (auto simp: tight_def)

lemma lstrip_tight: "tight s \<Longrightarrow> py_lstrip (replicate n (CHR '' '') @ s) = s"
  by (cases s) (auto simp: py_lstrip_def tight_def dropWhile_append)

lemma rstrip_tight: "tight s \<Longrightarrow> py_rstrip s = s"
  by (cases s rule: rev_cases) (auto simp: py_rstrip_def tight_def)

lemma strip_indented: "tight s \<Longrightarrow> py_strip (replicate n (CHR '' '') @ s) = s"
  by (simp add: py_strip_def lstrip_tight rstrip_tight)

lemma strip_tight [simp]: "tight s \<Longrightarrow> py_strip s = s"
  using strip_indented [of s 0] by simp

lemma strip_space [simp]: "tight s \<Longrightarrow> py_strip (CHR '' '' # s) = s"
  using strip_indented [of s 1] by simp

lemma indent_indented: "tight s \<Longrightarrow> line_indent (replicate n (CHR '' '') @ s) = n"
  by (simp add: line_indent_def lstrip_tight)

lemma find_from_char:
  "c \<notin> set k \<Longrightarrow> find_from [c] (k @ c # r) i = Some (i + length k)"
  by (induction k arbitrary: i) auto

lemma find_char: "c \<notin> set k \<Longrightarrow> py_find (k @ c # r) [c] 0 = Some (length k)"
  by (simp add: py_find_def find_from_char)

lemma split_kv_pair:
  assumes "word_ok k" "tight v"
  shows "split_kv (k @ '': '' @ v) = (k, v)"
proof -
  have "tight (k @ '': '' @ v)"
    using tight_append [OF word_tight [OF assms(1)] assms(2)] .
  then show ?thesis
    using assms(2) word_tight [OF assms(1)] word_chars [OF assms(1)]
    by (simp add: split_kv_def Let_def find_char)
qed

lemma split_char_append: "c \<notin> set x \<Longrightarrow> split_char c (x @ c # r) = x # split_char c r"
  by (induction x) auto

lemma split_char_absent: "c \<notin> set x \<Longrightarrow> split_char c x = [x]"
  by (induction x) auto

lemma strip_lead [simp]: "py_strip (CHR '' '' # s) = py_strip s"
  by (simp add: py_strip_def py_lstrip_def)

lemma split_join_words:
  assumes "\<forall>s\<in>set l. word_ok s" "l \<noteq> []"
  shows "map py_strip (split_char (CHR '','') (py_join '', '' l)) = l"
  using assms
proof (induction l rule: induct_list012)
  case (2 x)
  then show ?case
    using word_chars [of x] word_tight [of x] by (simp add: split_char_absent)
next
  case (3 x y ys)
  let ?r = "py_join '', '' (y # ys)"
  have x: "CHR '','' \<notin> set x" "tight x"
    using 3(3) word_chars [of x] word_tight [of x] by simp_all
  have "map py_strip (split_char (CHR '','') (CHR '' '' # ?r)) =
      map py_strip (split_char (CHR '','') ?r)"
    by (simp add: strip_lead split: list.split)
  then show ?case
    using 3 x split_char_append [OF x(1), of "CHR '' '' # ?r"] by simp
qed simp

lemma strip_chars_word:
  "word_ok s \<Longrightarrow> strip_chars [CHR 0x27, CHR 0x22] s = s"
proof -
  assume w: "word_ok s"
  then have id: "dropWhile (\<lambda>c. c \<in> set [CHR 0x27, CHR 0x22]) t = t" if "set t \<subseteq> set s" for t
    using that by (cases t) (auto simp: word_ok_def)
  show ?thesis
    by (simp only: strip_chars_def id set_rev subset_refl rev_rev_ident)
qed

lemma parse_list_items:
  assumes "\<forall>s\<in>set l. word_ok s"
  shows "map (\<lambda>i. strip_chars [CHR 0x27, CHR 0x22] (py_strip i))
           (filter (\<lambda>i. py_strip i \<noteq> []) (split_char (CHR '','') (py_join '', '' l))) = l"
proof (cases "l = []")
  case True
  then show ?thesis
    by (simp add: py_strip_def py_lstrip_def py_rstrip_def)
next
  case False
  have "map (\<lambda>i. f (py_strip i)) (filter (\<lambda>i. py_strip i \<noteq> []) ps) =
      map f (filter (\<lambda>i. i \<noteq> []) (map py_strip ps))" for f :: "string \<Rightarrow> string" and ps
    by (induction ps) auto
  moreover have "filter (\<lambda>i. i \<noteq> []) l = l"
    using assms by (simp add: filter_id_conv word_ok_def)
  moreover have "map (strip_chars [CHR 0x27, CHR 0x22]) l = l"
    using assms by (simp add: map_idI strip_chars_word)
  ultimately show ?thesis
    using split_join_words [OF assms False] by metis
qed

lemma parse_show_value:
  assumes "printable_value v"
  shows "parse_scalar (show_value v) = v" "tight (show_value v)" "show_value v \<noteq> ''|''"
proof -
  have "parse_scalar (show_value v) = v \<and> tight (show_value v) \<and> show_value v \<noteq> ''|''"
  proof (cases v)
    case (YStr s)
    then have s: "word_ok s" "py_int s = None"
      using assms by simp_all
    then obtain c r where c: "s = c # r" "word_char c"
      by (cases s) (auto simp: word_ok_def)
    then have "\<not> py_startswith s ''['' \<and> \<not> py_startswith s [CHR 0x22] \<and> \<not> py_startswith s [CHR 0x27]
        \<and> s \<noteq> ''|''"
      by (auto simp: py_startswith_def)
    then show ?thesis
      using YStr s word_tight [OF s(1)] c(1) by (simp add: parse_scalar_def)
  next
    case (YList l)
    then have "\<forall>s\<in>set l. word_ok s"
      using assms by simp
    then show ?thesis
      using YList parse_list_items [of l]
      by (simp add: parse_scalar_def py_startswith_def py_endswith_def py_inner_def tight_def
          py_isspace_def butlast_append suffix_def)
  qed (use assms in simp_all)
  then show "parse_scalar (show_value v) = v" "tight (show_value v)" "show_value v \<noteq> ''|''"
    by simp_all
qed

definition reading_nodes :: "parse_state \<Rightarrow> bool" where
  "reading_nodes s \<longleftrightarrow> ps_section s = Some SecNodes \<and> ps_block s = None"

lemma word_hd:
  assumes "word_ok k"
  shows "\<not> py_startswith (k @ r) ''#''" "\<not> py_startswith (k @ r) ''- id:''"
  using assms by (cases k; auto simp: py_startswith_def word_ok_def)+

lemma no_block: "ps_block s = None \<Longrightarrow> s\<lparr>ps_block := None\<rparr> = s"
  by simp

lemma parse_field:
  assumes "reading_nodes s" "ps_node s = Some n" "n \<noteq> []" "word_ok (fst kv)" "printable_value (snd kv)"
  shows "parse_line (show_field kv) s = s\<lparr>ps_node := Some (AList.update (fst kv) (snd kv) n)\<rparr>"
proof -
  let ?t = "fst kv @ '': '' @ show_value (snd kv)"
  have t: "tight ?t"
    by (rule tight_append [OF word_tight [OF assms(4)] parse_show_value(2) [OF assms(5)]])
  have line: "show_field kv = replicate 4 (CHR '' '') @ ?t"
    by (simp add: show_field_def numeral_eq_Suc)
  have "py_in '':'' ?t"
    using find_char [OF word_chars(1) [OF assms(4)]] by (simp add: py_in_def)
  moreover have "?t \<noteq> []"
    by simp
  ultimately show ?thesis
    using assms word_hd [OF assms(4), of "'': '' @ show_value (snd kv)"]
      split_kv_pair [OF assms(4) parse_show_value(2) [OF assms(5)]]
      parse_show_value(1,3) [OF assms(5)] no_block [of s]
    unfolding parse_line_def line strip_indented [OF t] indent_indented [OF t] Let_def
    by (simp add: reading_nodes_def in_block_def parse_node_line_def)
qed

lemma parse_node_head:
  assumes "reading_nodes s" "word_ok i"
  shows "parse_line (''  - id: '' @ i) s =
    s\<lparr>ps_result := flush_node (ps_node s) (ps_result s), ps_node := Some [(''id'', YStr i)]\<rparr>"
proof -
  have t: "tight (''- id: '' @ i)"
    using word_tight [OF assms(2)] by (simp add: tight_def py_isspace_def)
  have line: "''  - id: '' @ i = replicate 2 (CHR '' '') @ (''- id: '' @ i)"
    by (simp add: numeral_eq_Suc)
  show ?thesis
    using assms no_block [of s] word_tight [OF assms(2)]
    unfolding parse_line_def line strip_indented [OF t] indent_indented [OF t] Let_def
    by (simp add: reading_nodes_def in_block_def parse_node_line_def py_startswith_def)
qed

lemma update_fresh: "k \<notin> fst ` set n \<Longrightarrow> AList.update k v n = n @ [(k, v)]"
  by (induction n) auto

lemma parse_fields:
  assumes "reading_nodes s" "ps_node s = Some n" "n \<noteq> []"
    and "\<forall>(k, v)\<in>set fs. word_ok k \<and> printable_value v"
    and "distinct (map fst (n @ fs))"
  shows "fold parse_line (map show_field fs) s = s\<lparr>ps_node := Some (n @ fs)\<rparr>"
  using assms
proof (induction fs arbitrary: s n)
  case (Cons kv fs)
  have "parse_line (show_field kv) s = s\<lparr>ps_node := Some (n @ [kv])\<rparr>"
    using Cons(2-6) parse_field [of s n kv] update_fresh [of "fst kv" n "snd kv"] by auto
  then show ?case
    using Cons(1) [of "s\<lparr>ps_node := Some (n @ [kv])\<rparr>" "n @ [kv]"] Cons(2-6)
    by (auto simp: reading_nodes_def)
qed simp

abbreviation node_of :: "string \<times> wf_node \<Rightarrow> wf_node" where
  "node_of n \<equiv> (''id'', YStr (fst n)) # snd n"

lemma parse_node:
  assumes "reading_nodes s" "node_printable n"
  shows "fold parse_line (show_node n) s =
    s\<lparr>ps_result := flush_node (ps_node s) (ps_result s), ps_node := Some (node_of n)\<rparr>"
proof -
  let ?s = "s\<lparr>ps_result := flush_node (ps_node s) (ps_result s), ps_node := Some [(''id'', YStr (fst n))]\<rparr>"
  have "distinct (map fst ([(''id'', YStr (fst n))] @ snd n))"
    and "\<forall>(k, v)\<in>set (snd n). word_ok k \<and> printable_value v" and "word_ok (fst n)"
    using assms(2) by (auto simp: node_printable_def)
  then show ?thesis
    using parse_node_head [OF assms(1), of "fst n"] assms(1)
      parse_fields [of ?s "[(''id'', YStr (fst n))]" "snd n"]
    by (simp add: show_node_def reading_nodes_def)
qed

lemma parse_nodes:
  assumes "reading_nodes s" "\<forall>n\<in>set ns. node_printable n"
  shows "\<exists>s'. fold parse_line (concat (map show_node ns)) s = s'
      \<and> flush_node (ps_node s') (ps_result s') =
          (flush_node (ps_node s) (ps_result s))\<lparr>wd_nodes :=
             wd_nodes (flush_node (ps_node s) (ps_result s)) @ map node_of ns\<rparr>"
  using assms
proof (induction ns arbitrary: s)
  case (Cons n ns)
  let ?s = "s\<lparr>ps_result := flush_node (ps_node s) (ps_result s), ps_node := Some (node_of n)\<rparr>"
  have "reading_nodes ?s"
    using Cons(2) by (simp add: reading_nodes_def)
  then show ?case
    using Cons(1) [of ?s] Cons(2,3) parse_node [of s n] by (simp add: flush_node_def)
qed simp

lemma parse_header: "parse_line ''nodes:'' parse_init = parse_init\<lparr>ps_section := Some SecNodes\<rparr>"
  by code_simp

lemma parse_show_nodes:
  assumes "\<forall>n\<in>set ns. node_printable n"
  shows "parse_lines (show_nodes ns) =
    \<lparr>wd_top = wd_top (ps_result parse_init), wd_gates = [], wd_nodes = map node_of ns\<rparr>"
  using parse_nodes [of "parse_init\<lparr>ps_section := Some SecNodes\<rparr>" ns] assms
  by (simp add: parse_lines_def show_nodes_def parse_header reading_nodes_def Let_def)
    (simp add: parse_init_def flush_node_def)

definition one_line :: "string \<Rightarrow> bool" where
  "one_line l \<longleftrightarrow> CHR 0x0A \<notin> set l \<and> CHR 0x0D \<notin> set l"

lemma normalize_newlines_id: "CHR 0x0D \<notin> set s \<Longrightarrow> normalize_newlines s = s"
  by (induction s rule: normalize_newlines.induct) auto

lemma set_py_join: "set (py_join sep ls) \<subseteq> set sep \<union> (\<Union>l\<in>set ls. set l)"
  by (induction sep ls rule: py_join.induct) auto

lemma split_join_lines:
  "ls \<noteq> [] \<Longrightarrow> \<forall>l\<in>set ls. c \<notin> set l \<Longrightarrow> split_char c (py_join [c] ls) = ls"
  by (induction ls rule: induct_list012) (simp_all add: split_char_absent split_char_append)

lemma parse_joined_lines:
  assumes "ls \<noteq> []" "\<forall>l\<in>set ls. one_line l"
  shows "parse_workflow (py_join [CHR 0x0A] ls) = parse_lines ls"
proof -
  have "CHR 0x0D \<notin> set (py_join [CHR 0x0A] ls)"
    using assms(2) set_py_join [of "[CHR 0x0A]" ls] by (auto simp: one_line_def)
  then show ?thesis
    using assms split_join_lines [of ls "CHR 0x0A"]
    by (simp add: parse_workflow_def normalize_newlines_id one_line_def)
qed

lemma one_line_append: "one_line (a @ b) \<longleftrightarrow> one_line a \<and> one_line b"
  by (auto simp: one_line_def)

lemma one_line_word: "word_ok s \<Longrightarrow> one_line s"
proof -
  have "py_isspace (CHR 0x0A)" "py_isspace (CHR 0x0D)"
    by (simp_all add: py_isspace_def)
  moreover assume "word_ok s"
  ultimately show ?thesis
    by (auto simp: one_line_def word_ok_def dest: word_char_nospace)
qed

lemma one_line_show_value: "printable_value v \<Longrightarrow> one_line (show_value v)"
proof (induction v rule: show_value.induct)
  case (2 l)
  then have "\<forall>s\<in>set l. one_line s"
    by (simp add: one_line_word)
  then show ?case
    using set_py_join [of "'', ''" l] by (auto simp: one_line_def)
qed (simp_all add: one_line_word)

lemma one_line_show_nodes:
  assumes "\<forall>n\<in>set ns. node_printable n"
  shows "\<forall>l\<in>set (show_nodes ns). one_line l"
proof -
  have "one_line l" if n: "n \<in> set ns" and l: "l \<in> set (show_node n)" for n l
  proof (cases "l = ''  - id: '' @ fst n")
    case True
    have "one_line (fst n)"
      using assms n by (simp add: node_printable_def one_line_word)
    then show ?thesis
      unfolding True one_line_append by (simp add: one_line_def)
  next
    case False
    then obtain kv where kv: "kv \<in> set (snd n)" "l = show_field kv"
      using l by (auto simp: show_node_def)
    then have "word_ok (fst kv)" "printable_value (snd kv)"
      using assms n by (fastforce simp: node_printable_def)+
    then have "one_line (fst kv)" "one_line (show_value (snd kv))"
      by (simp_all add: one_line_word one_line_show_value)
    then show ?thesis
      unfolding kv(2) show_field_def one_line_append by (simp add: one_line_def)
  qed
  moreover have "one_line ''nodes:''"
    by (simp add: one_line_def)
  ultimately show ?thesis
    by (auto simp: show_nodes_def)
qed


definition sample_nodes :: "(string \<times> wf_node) list" where
  "sample_nodes =
     [(''plan'', [(''skill'', YStr ''think'')]),
      (''build'', [(''command'', YStr ''make''), (''depends_on'', YList [''plan''])]),
      (''ship'', [(''skill'', YStr ''ship''), (''depends_on'', YList [''plan'', ''build''])])]"

lemma sample_nodes_printable: "\<forall>n\<in>set sample_nodes. node_printable n"
  by code_simp


end
