(* ===== verification/Workflow_Cycles.thy ===== *)
theory Workflow_Cycles
  imports Prelude "HOL-Library.AList"
begin

text \<open>
  Cycle detection of \<open>validate\<close> (\<open>control/execution/workflow/validate.py\<close>): Kahn's algorithm
  over the dependency edges between known nodes. An edge \<open>(dep, nid)\<close> says that \<open>nid\<close> waits for
  \<open>dep\<close>; edges come as the list the build loop runs over, duplicates included.
  The main result is \<open>kahn_finds_cycles\<close>: fewer nodes are visited than known exactly when the
  edges have a cycle, whatever order the set of ids is iterated in.
\<close>

section \<open>The code\<close>

definition in_degree_init :: "'a list \<Rightarrow> ('a \<times> int) list" where
  "in_degree_init ids = map (\<lambda>nid. (nid, 0)) ids"

definition adj_init :: "'a list \<Rightarrow> ('a \<times> 'a list) list" where
  "adj_init ids = map (\<lambda>nid. (nid, [])) ids"

text \<open>One iteration of the build loop: \<open>adj[dep].append(nid); in_degree[nid] += 1\<close>.\<close>

definition add_edge ::
    "'a \<times> 'a \<Rightarrow> ('a \<times> 'a list) list \<times> ('a \<times> int) list \<Rightarrow> ('a \<times> 'a list) list \<times> ('a \<times> int) list" where
  "add_edge e g =
     (AList.map_entry (fst e) (\<lambda>l. l @ [snd e]) (fst g),
      AList.map_entry (snd e) (\<lambda>k. k + 1) (snd g))"

definition build_graph ::
    "'a list \<Rightarrow> ('a \<times> 'a) list \<Rightarrow> ('a \<times> 'a list) list \<times> ('a \<times> int) list" where
  "build_graph ids es = fold add_edge es (adj_init ids, in_degree_init ids)"

text \<open>The inner loop over the neighbours of the popped node.\<close>

fun relax :: "'a list \<Rightarrow> ('a \<times> int) list \<Rightarrow> 'a list \<Rightarrow> ('a \<times> int) list \<times> 'a list" where
  "relax [] d q = (d, q)"
| "relax (n # ns) d q =
     (let d' = AList.map_entry n (\<lambda>k. k - 1) d in
      relax ns d' (if map_of d' n = Some 0 then q @ [n] else q))"

text \<open>The nodes whose in-degree is still positive.\<close>

definition waiting :: "('a \<times> int) list \<Rightarrow> 'a list" where
  "waiting d = map fst (filter (\<lambda>(nid, deg). 0 < deg) d)"

lemma waiting_map_entry_decr:
  "length (waiting (AList.map_entry n (\<lambda>k. k - 1) d)) +
     (if map_of (AList.map_entry n (\<lambda>k. k - 1) d) n = Some 0 then 1 else 0) \<le> length (waiting d)"
proof (induction d)
  case (Cons p d)
  show ?case
  proof (cases "fst p = n")
    case True
    then show ?thesis
      by (cases p) (auto simp: waiting_def)
  next
    case False
    then show ?thesis
      using Cons.IH by (cases p) (auto simp: waiting_def split: if_splits)
  qed
qed (simp add: waiting_def)

lemma relax_measure:
  "relax ns d q = (d', q') \<Longrightarrow> length q' + length (waiting d') \<le> length q + length (waiting d)"
proof (induction ns d q rule: relax.induct)
  case (2 n ns d q)
  let ?d = "AList.map_entry n (\<lambda>k. k - 1) d"
  let ?q = "if map_of ?d n = Some 0 then q @ [n] else q"
  have "length q' + length (waiting d') \<le> length ?q + length (waiting ?d)"
    using 2(2) by (intro 2(1)) (simp_all add: Let_def)
  then show ?case
    using waiting_map_entry_decr [of n d] by (simp split: if_splits)
qed simp

text \<open>\<open>while queue\<close>: pop the front, count it, relax its neighbours. Every iteration shortens the
  queue or turns a waiting node into a queued one, so the loop ends on every input.\<close>

function kahn ::
    "('a \<times> 'a list) list \<Rightarrow> ('a \<times> int) list \<Rightarrow> 'a list \<Rightarrow> nat \<Rightarrow> ('a \<times> int) list \<times> nat" where
  "kahn adj d [] visited = (d, visited)"
| "kahn adj d (current # q) visited =
     (case relax (case map_of adj current of None \<Rightarrow> [] | Some ns \<Rightarrow> ns) d q of
        (d', q') \<Rightarrow> kahn adj d' q' (Suc visited))"
  by pat_completeness auto
termination
  by (relation "measure (\<lambda>(adj, d, q, visited). length q + length (waiting d))")
    (auto simp: less_Suc_eq_le dest!: relax_measure sym [of _ "relax _ _ _"])

definition kahn_run :: "'a list \<Rightarrow> ('a \<times> 'a) list \<Rightarrow> ('a \<times> int) list \<times> nat" where
  "kahn_run ids es =
     (case build_graph ids es of (adj, d) \<Rightarrow>
        kahn adj d (map fst (filter (\<lambda>(nid, deg). deg = 0) d)) 0)"

text \<open>The ids the cycle message names, when there is one.\<close>

definition cycle_nodes :: "'a list \<Rightarrow> ('a \<times> 'a) list \<Rightarrow> 'a list option" where
  "cycle_nodes ids es =
     (case kahn_run ids es of (d, visited) \<Rightarrow>
        if visited < length ids then Some (waiting d) else None)"

section \<open>The graph the build loop makes\<close>

abbreviation preds :: "('a \<times> 'a) list \<Rightarrow> 'a \<Rightarrow> 'a list" where
  "preds es v \<equiv> map fst (filter (\<lambda>e. snd e = v) es)"

abbreviation succs :: "('a \<times> 'a) list \<Rightarrow> 'a \<Rightarrow> 'a list" where
  "succs es u \<equiv> map snd (filter (\<lambda>e. fst e = u) es)"

lemma map_of_const: "map_of (map (\<lambda>x. (x, c)) xs) k = (if k \<in> set xs then Some c else None)"
  by (induction xs) auto

lemma build_graph_snoc:
  "build_graph ids (es @ [e]) = add_edge e (build_graph ids es)"
  by (simp add: build_graph_def)

lemma keys_map_entry [simp]: "map fst (AList.map_entry k f d) = map fst d"
  by (induction d) auto

lemma build_graph_fst:
  "map_of (fst (build_graph ids es)) u = (if u \<in> set ids then Some (succs es u) else None)"
proof (induction es rule: rev_induct)
  case Nil
  then show ?case by (simp add: build_graph_def adj_init_def map_of_const)
next
  case (snoc e es)
  then show ?case by (auto simp: build_graph_snoc add_edge_def map_of_map_entry)
qed

lemma build_graph_snd:
  "map_of (snd (build_graph ids es)) v =
     (if v \<in> set ids then Some (int (length (preds es v))) else None)"
proof (induction es rule: rev_induct)
  case Nil
  then show ?case by (simp add: build_graph_def in_degree_init_def map_of_const)
next
  case (snoc e es)
  then show ?case by (auto simp: build_graph_snoc add_edge_def map_of_map_entry)
qed

lemma build_graph_keys: "map fst (snd (build_graph ids es)) = ids"
proof (induction es rule: rev_induct)
  case Nil
  then show ?case by (simp add: build_graph_def in_degree_init_def comp_def)
next
  case (snoc e es)
  then show ?case by (simp add: build_graph_snoc add_edge_def)
qed

section \<open>The inner loop\<close>

lemma relax_keys: "relax ns d q = (d', q') \<Longrightarrow> map fst d' = map fst d"
  by (induction ns d q rule: relax.induct) (auto simp: Let_def)

text \<open>Relaxing subtracts each neighbour's multiplicity and appends, once each, the nodes that
  reach zero.\<close>

lemma relax_spec:
  assumes "relax ns d q = (d', q')"
    and "\<And>x. x \<in> set ns \<Longrightarrow> \<exists>k. map_of d x = Some k \<and> int (count_list ns x) \<le> k"
  shows "\<exists>new. q' = q @ new \<and> distinct new
           \<and> set new = {x \<in> set ns. map_of d x = Some (int (count_list ns x))}
           \<and> (\<forall>x. map_of d' x = map_option (\<lambda>k. k - int (count_list ns x)) (map_of d x))"
  using assms
proof (induction ns d q rule: relax.induct)
  case (1 d q)
  then show ?case by (simp add: option.map_ident)
next
  case (2 n ns d q)
  let ?d = "AList.map_entry n (\<lambda>k. k - 1) d"
  have d: "map_of ?d = (map_of d)(n := map_option (\<lambda>k. k - 1) (map_of d n))"
    by (auto simp: map_of_map_entry split: option.splits)
  obtain k where k: "map_of d n = Some k" "int (count_list ns n) + 1 \<le> k"
    using 2(3) [of n] by auto
  have rest: "\<exists>k. map_of ?d x = Some k \<and> int (count_list ns x) \<le> k" if "x \<in> set ns" for x
    using that k 2(3) [of x] by (auto simp: d split: if_splits)
  obtain new where new: "q' = (if map_of ?d n = Some 0 then q @ [n] else q) @ new" "distinct new"
    "set new = {x \<in> set ns. map_of ?d x = Some (int (count_list ns x))}"
    "\<forall>x. map_of d' x = map_option (\<lambda>k. k - int (count_list ns x)) (map_of ?d x)"
    using 2(1) [OF refl _ rest] 2(2) by (auto simp: Let_def)
  have decr: "map_of d' x = map_option (\<lambda>k. k - int (count_list (n # ns) x)) (map_of d x)" for x
    using new(4) k by (auto simp: d)
  show ?case
  proof (cases "k = 1")
    case True
    then have "n \<notin> set ns"
      using k by (auto simp: count_list_0_iff)
    then show ?thesis
      using new decr k True
      by (intro exI [of _ "n # new"]) (auto simp: d split: if_splits)
  next
    case False
    then show ?thesis
      using new decr k by (intro exI [of _ new]) (auto simp: d split: if_splits)
  qed
qed

section \<open>The outer loop\<close>

lemma keys_where:
  assumes "distinct (map fst d)"
  shows "set (map fst (filter (\<lambda>(x, k). R k) d)) = {x \<in> set (map fst d). \<exists>k. map_of d x = Some k \<and> R k}"
proof (rule set_eqI)
  fix x
  have "x \<in> set (map fst (filter (\<lambda>(x, k). R k) d)) \<longleftrightarrow> (\<exists>k. (x, k) \<in> set d \<and> R k)"
    by force
  also have "\<dots> \<longleftrightarrow> x \<in> set (map fst d) \<and> (\<exists>k. (x, k) \<in> set d \<and> R k)"
    by force
  finally show "x \<in> set (map fst (filter (\<lambda>(x, k). R k) d)) \<longleftrightarrow>
      x \<in> {x \<in> set (map fst d). \<exists>k. map_of d x = Some k \<and> R k}"
    using assms by (simp add: map_of_eq_Some_iff)
qed

text \<open>With \<open>P\<close> the nodes popped so far: in-degrees count the edges from nodes not popped, the
  popped and the queued nodes are those of in-degree zero, and the popped part of the graph has
  no cycle.\<close>

definition kahn_inv ::
    "'a list \<Rightarrow> ('a \<times> 'a) list \<Rightarrow> 'a set \<Rightarrow> ('a \<times> int) list \<Rightarrow> 'a list \<Rightarrow> bool" where
  "kahn_inv ids es P d q \<longleftrightarrow>
     map fst d = ids \<and> distinct q \<and> set q \<inter> P = {}
     \<and> (\<forall>x. map_of d x = (if x \<in> set ids
            then Some (int (length (filter (\<lambda>u. u \<notin> P) (preds es x)))) else None))
     \<and> set q \<union> P = {x \<in> set ids. map_of d x = Some 0}
     \<and> acyclic (set es \<inter> P \<times> P)"

lemma kahn_inv_deg:
  assumes "kahn_inv ids es P d q" "x \<in> set ids"
  shows "map_of d x = Some (int (length (filter (\<lambda>u. u \<notin> P) (preds es x))))"
proof -
  have "\<forall>x. map_of d x = (if x \<in> set ids
      then Some (int (length (filter (\<lambda>u. u \<notin> P) (preds es x)))) else None)"
    using assms(1) unfolding kahn_inv_def by (elim conjE)
  with assms(2) show ?thesis
    by (simp del: filter_map)
qed

lemma kahn_inv_popped: "kahn_inv ids es P d q \<Longrightarrow> set q \<union> P = {x \<in> set ids. map_of d x = Some 0}"
  unfolding kahn_inv_def by (elim conjE)

lemma kahn_inv_zero:
  assumes "kahn_inv ids es P d q" "x \<in> set q \<union> P" "(u, x) \<in> set es"
  shows "u \<in> P"
proof -
  have "map_of d x = Some 0" "x \<in> set ids"
    using kahn_inv_popped [OF assms(1)] assms(2) by auto
  then have "length (filter (\<lambda>u. u \<notin> P) (preds es x)) = 0"
    using kahn_inv_deg [OF assms(1), of x] by (simp del: filter_map)
  then have "filter (\<lambda>u. u \<notin> P) (preds es x) = []"
    by (rule iffD1 [OF length_0_conv])
  moreover have "u \<in> set (preds es x)"
    using assms(3) by force
  ultimately show ?thesis
    by (metis (mono_tags, lifting) filter_empty_conv)
qed

lemma filter_not_insert:
  "c \<notin> P \<Longrightarrow> length (filter (\<lambda>u. u \<notin> P) xs) =
     count_list xs c + length (filter (\<lambda>u. u \<notin> insert c P) xs)"
  by (induction xs) auto

lemma count_succs: "count_list (succs es c) x = count_list (preds es x) c"
  by (induction es) auto

lemma acyclic_add_sink:
  assumes "acyclic R" "S \<subseteq> A \<times> {c}" "c \<notin> Domain R" "c \<notin> A"
  shows "acyclic (R \<union> S)"
proof -
  have "(x, y) \<in> R\<^sup>+ \<or> y = c" if "(x, y) \<in> (R \<union> S)\<^sup>+" for x y
    using that
  proof (induction rule: trancl_induct)
    case (step y z)
    then show ?case
      using assms(2-4) by (auto intro: trancl_into_trancl)
  qed (use assms(2) in auto)
  moreover have "(c, y) \<notin> (R \<union> S)\<^sup>+" for y
    using assms(2-4) by (auto dest!: tranclD)
  ultimately show ?thesis
    using assms(1) by (auto simp: acyclic_def)
qed

lemma kahn_inv_step:
  assumes inv: "kahn_inv ids es P d (c # q)"
    and edges: "set es \<subseteq> set ids \<times> set ids"
    and relax: "relax (succs es c) d q = (d', q')"
  shows "kahn_inv ids es (insert c P) d' q'"
proof -
  have c: "c \<notin> P" "c \<in> set ids" "distinct q" "set q \<inter> insert c P = {}"
    using inv by (auto simp: kahn_inv_def)
  have d: "map_of d x = (if x \<in> set ids then
      Some (int (count_list (succs es c) x + length (filter (\<lambda>u. u \<notin> insert c P) (preds es x))))
      else None)" for x
    using inv filter_not_insert [OF c(1), of "preds es x"]
    unfolding kahn_inv_def count_succs by (simp del: filter_map)
  have zero: "set (c # q) \<union> P = {x \<in> set ids. map_of d x = Some 0}"
    using inv by (simp add: kahn_inv_def)
  have succ_ids: "x \<in> set ids" if "x \<in> set (succs es c)" for x
    using that edges by auto
  obtain new where new: "q' = q @ new" "distinct new"
      "set new = {x \<in> set (succs es c). map_of d x = Some (int (count_list (succs es c) x))}"
      "\<forall>x. map_of d' x = map_option (\<lambda>k. k - int (count_list (succs es c) x)) (map_of d x)"
    using relax_spec [OF relax] d succ_ids by (force simp del: filter_map)
  have d': "map_of d' x = (if x \<in> set ids then
      Some (int (length (filter (\<lambda>u. u \<notin> insert c P) (preds es x)))) else None)" for x
    unfolding new(4)[rule_format] d by (simp del: filter_map)
  have pos: "count_list (succs es c) x \<noteq> 0" if "x \<in> set (succs es c)" for x
    using that by (simp add: count_list_0_iff)
  have fresh: "x \<notin> set (c # q) \<union> P" if "x \<in> set new" for x
    using that pos [of x] unfolding zero new(3) by auto
  have zero': "set q' \<union> insert c P = {x \<in> set ids. map_of d' x = Some 0}" (is "?L = ?R")
  proof (rule set_eqI)
    fix x
    have "x \<in> ?R \<longleftrightarrow> x \<in> set ids \<and> map_of d x = Some (int (count_list (succs es c) x))"
      unfolding d' d by (auto simp del: filter_map)
    also have "\<dots> \<longleftrightarrow> x \<in> set new \<or> x \<in> set (c # q) \<union> P"
    proof (cases "x \<in> set (succs es c)")
      case True
      then show ?thesis
        using succ_ids [OF True] fresh [of x] pos [OF True] d [of x] unfolding zero new(3) by auto
    next
      case False
      then have "count_list (succs es c) x = 0"
        by (simp add: count_list_0_iff)
      then show ?thesis
        using False unfolding zero new(3) by auto
    qed
    finally show "x \<in> ?L \<longleftrightarrow> x \<in> ?R"
      using new(1) by auto
  qed
  have "acyclic (set es \<inter> P \<times> P \<union> set es \<inter> P \<times> {c})"
    using inv c(1) by (intro acyclic_add_sink [where A = P]) (auto simp: kahn_inv_def)
  moreover have "set es \<inter> insert c P \<times> insert c P = set es \<inter> P \<times> P \<union> set es \<inter> P \<times> {c}"
    using kahn_inv_zero [OF inv] c(1) by auto
  ultimately have "acyclic (set es \<inter> insert c P \<times> insert c P)"
    by simp
  moreover have "distinct q'" "set q' \<inter> insert c P = {}"
    using new(1,2) fresh c(3,4) by auto
  moreover have "map fst d' = ids"
    using relax_keys [OF relax] inv by (simp add: kahn_inv_def)
  ultimately show ?thesis
    unfolding kahn_inv_def using zero' d' by blast
qed

lemma kahn_inv_run:
  assumes "kahn adj d q visited = (d', visited')"
    and "kahn_inv ids es P d q" "visited = card P" "finite P"
    and "\<And>c. c \<in> set ids \<Longrightarrow> map_of adj c = Some (succs es c)"
    and "set es \<subseteq> set ids \<times> set ids"
  shows "\<exists>P'. kahn_inv ids es P' d' [] \<and> visited' = card P' \<and> finite P'"
  using assms
proof (induction adj d q visited arbitrary: P rule: kahn.induct)
  case (1 adj d visited)
  then show ?case by auto
next
  case (2 adj d c q visited)
  obtain d1 q1 where r: "relax (succs es c) d q = (d1, q1)"
    by fastforce
  have c: "c \<in> set ids" "c \<notin> P"
    using 2(3) by (auto simp: kahn_inv_def)
  have "map_of adj c = Some (succs es c)"
    using 2(6) c(1) .
  with r have run: "kahn adj d1 q1 (Suc visited) = (d', visited')"
    and r': "relax (case map_of adj c of None \<Rightarrow> [] | Some ns \<Rightarrow> ns) d q = (d1, q1)"
    using 2(2) by simp_all
  show ?case
    using 2(1) [OF r' [symmetric] run kahn_inv_step [OF 2(3,7) r]] c 2(4-7) by auto
qed

lemma build_graph_inv:
  assumes "distinct ids"
  shows "kahn_inv ids es {} (snd (build_graph ids es))
           (map fst (filter (\<lambda>(nid, deg). deg = 0) (snd (build_graph ids es))))"
proof -
  let ?d = "snd (build_graph ids es)"
  have keys: "distinct (map fst ?d)"
    using assms by (simp add: build_graph_keys)
  then have "set (map fst (filter (\<lambda>(nid, deg). deg = 0) ?d)) = {x \<in> set ids. map_of ?d x = Some 0}"
    using keys_where [of ?d "\<lambda>k. k = 0"] by (simp add: build_graph_keys)
  moreover have "distinct (map fst (filter (\<lambda>(nid, deg). deg = 0) ?d))"
    using keys by (rule distinct_map_filter)
  ultimately show ?thesis
    unfolding kahn_inv_def by (simp add: build_graph_keys build_graph_snd acyclic_def)
qed

lemma kahn_run_inv:
  assumes "distinct ids" "set es \<subseteq> set ids \<times> set ids" "kahn_run ids es = (d, visited)"
  shows "\<exists>P. kahn_inv ids es P d [] \<and> visited = card P \<and> finite P"
proof -
  obtain adj d0 where g: "build_graph ids es = (adj, d0)"
    by fastforce
  have adj: "map_of adj c = Some (succs es c)" if "c \<in> set ids" for c
    using build_graph_fst [of ids es c] that g by simp
  have "kahn_inv ids es {} d0 (map fst (filter (\<lambda>(nid, deg). deg = 0) d0))"
    using build_graph_inv [OF assms(1), of es] g by simp
  then show ?thesis
    using kahn_inv_run [of adj d0 _ 0 d visited ids es "{}"] assms(2,3) g adj
    by (simp add: kahn_run_def)
qed

section \<open>Fewer visited nodes mean a cycle\<close>

lemma kahn_inv_all_visited:
  assumes inv: "kahn_inv ids es P d []" and edges: "set es \<subseteq> set ids \<times> set ids"
  shows "P = set ids \<longleftrightarrow> acyclic (set es)"
proof
  assume "P = set ids"
  moreover have "set es \<inter> set ids \<times> set ids = set es"
    using edges by auto
  ultimately show "acyclic (set es)"
    using inv by (simp add: kahn_inv_def)
next
  assume acyc: "acyclic (set es)"
  have P: "P = {x \<in> set ids. map_of d x = Some 0}"
    using kahn_inv_popped [OF inv] by simp
  show "P = set ids"
  proof (rule ccontr)
    assume "P \<noteq> set ids"
    then obtain x where "x \<in> set ids - P"
      using P by auto
    then obtain m where m: "m \<in> set ids - P" "\<And>y. (y, m) \<in> set es \<Longrightarrow> y \<notin> set ids - P"
      by (rule wfE_min [OF finite_acyclic_wf [OF List.finite_set acyc]]) blast
    have "filter (\<lambda>u. u \<notin> P) (preds es m) = []"
      using m(2) edges by (auto simp: filter_empty_conv)
    then have "map_of d m = Some 0"
      using kahn_inv_deg [OF inv, of m] m(1) by (simp only: Diff_iff list.size of_nat_0)
    then show False
      using m(1) P by simp
  qed
qed

lemma kahn_finds_cycles:
  assumes "distinct ids" "set es \<subseteq> set ids \<times> set ids"
  shows "cycle_nodes ids es = None \<longleftrightarrow> acyclic (set es)"
proof -
  obtain d visited where r: "kahn_run ids es = (d, visited)"
    by fastforce
  then obtain P where P: "kahn_inv ids es P d []" "visited = card P"
    using kahn_run_inv [OF assms] by auto
  have "P \<subseteq> set ids"
    using P(1) by (auto simp: kahn_inv_def)
  then have "card P < card (set ids) \<longleftrightarrow> P \<noteq> set ids"
    by (metis List.finite_set nless_le psubsetI psubset_card_mono)
  then show ?thesis
    using kahn_inv_all_visited [OF P(1) assms(2)] P(2) r distinct_card [OF assms(1)]
    by (auto simp: cycle_nodes_def)
qed

text \<open>Every node the cycle message names waits for another one it names, so the named part of
  the workflow can never run.\<close>

lemma cycle_nodes_stuck:
  assumes "distinct ids" "set es \<subseteq> set ids \<times> set ids" "cycle_nodes ids es = Some ws"
  shows "ws \<noteq> [] \<and> (\<forall>w\<in>set ws. \<exists>u\<in>set ws. (u, w) \<in> set es)"
proof -
  obtain d visited where r: "kahn_run ids es = (d, visited)"
    by fastforce
  then obtain P where P: "kahn_inv ids es P d []" "visited = card P"
    using kahn_run_inv [OF assms(1,2)] by auto
  have ws: "ws = waiting d" "card P < length ids"
    using assms(3) r P(2) by (auto simp: cycle_nodes_def split: if_splits)
  have keys: "distinct (map fst d)" "map fst d = ids"
    using P(1) assms(1) by (auto simp: kahn_inv_def)
  have deg: "map_of d x = Some (int (length (filter (\<lambda>u. u \<notin> P) (preds es x))))" if "x \<in> set ids" for x
    using kahn_inv_deg [OF P(1) that] .
  have ws': "set ws = {x \<in> set ids. \<exists>k. map_of d x = Some k \<and> 0 < k}"
    unfolding keys(2) [symmetric] ws(1) waiting_def using keys(1) by (rule keys_where)
  have P': "x \<in> P \<longleftrightarrow> x \<in> set ids \<and> map_of d x = Some 0" for x
    using kahn_inv_popped [OF P(1)] by auto
  have set_ws: "set ws = set ids - P"
  proof (rule set_eqI)
    fix x
    show "x \<in> set ws \<longleftrightarrow> x \<in> set ids - P"
      using deg [of x] P' [of x] by (cases "x \<in> set ids") (simp_all add: ws' del: filter_map)
  qed
  have "\<exists>u\<in>set ws. (u, w) \<in> set es" if "w \<in> set ws" for w
  proof -
    have "filter (\<lambda>u. u \<notin> P) (preds es w) \<noteq> []"
    proof
      assume "filter (\<lambda>u. u \<notin> P) (preds es w) = []"
      then have "map_of d w = Some 0"
        using that deg [of w] set_ws by (simp only: Diff_iff list.size of_nat_0)
      then show False
        using that P' [of w] set_ws by simp
    qed
    then obtain u where "(u, w) \<in> set es" "u \<notin> P"
      by (auto simp: filter_empty_conv)
    then show ?thesis
      using assms(2) set_ws by auto
  qed
  moreover have "ws \<noteq> []"
  proof
    assume "ws = []"
    then have "set ids \<subseteq> P"
      using set_ws by auto
    then have "card (set ids) \<le> card P"
      using P' by (intro card_mono finite_subset [of P "set ids"]) auto
    then show False
      using ws(2) distinct_card [OF assms(1)] by simp
  qed
  ultimately show ?thesis by simp
qed

end
