(* ===== verification/Workflow_Validate.thy ===== *)
theory Workflow_Validate
  imports Workflow_Parser Workflow_Cycles
begin

text \<open>
  The workflow validator (\<open>validate\<close> of \<open>control/execution/workflow/validate.py\<close>). Messages are
  the constructors of \<open>wf_issue\<close>; a \<open>TypeError\<close> the code would raise on a value of the wrong type
  is \<open>Inl TypeErr\<close>. The file system of the skill lookup is the record \<open>skill_fs\<close>, and the order
  in which Python iterates the set of node ids is the parameter \<open>order\<close>.
  The main result is \<open>validate_iff_well_formed\<close>: no message exactly when the file is well formed,
  its dependency relation acyclic.
\<close>

section \<open>Skill lookup\<close>

record skill_fs =
  fs_is_file :: "string \<Rightarrow> bool"
  fs_is_dir :: "string \<Rightarrow> bool"
  fs_iterdir :: "string \<Rightarrow> string list"

definition path_join :: "string \<Rightarrow> string \<Rightarrow> string" where
  "path_join a b = (if py_startswith b ''/'' then b else a @ ''/'' @ b)"

fun find_mode :: "skill_fs \<Rightarrow> string \<Rightarrow> string list \<Rightarrow> string option" where
  "find_mode fs skill [] = None"
| "find_mode fs skill (pack # packs) =
     (let mode_path = path_join (path_join (path_join pack ''modes'') skill) ''SKILL.md'' in
      if fs_is_dir fs pack \<and> fs_is_file fs mode_path then Some mode_path
      else find_mode fs skill packs)"

fun resolve_in :: "skill_fs \<Rightarrow> string \<Rightarrow> string list \<Rightarrow> string option" where
  "resolve_in fs skill [] = None"
| "resolve_in fs skill (base # bases) =
     (let flat = path_join (path_join base skill) ''SKILL.md'' in
      if fs_is_file fs flat then Some flat
      else if \<not> fs_is_dir fs base then resolve_in fs skill bases
      else (case find_mode fs skill (fs_iterdir fs base) of
              Some p \<Rightarrow> Some p
            | None \<Rightarrow> resolve_in fs skill bases))"

definition resolve_skill :: "skill_fs \<Rightarrow> string \<Rightarrow> string \<Rightarrow> string option" where
  "resolve_skill fs root skill =
     resolve_in fs skill [path_join (path_join root ''canonical'') ''skills'', path_join root ''skills'']"

section \<open>Messages\<close>

datatype wf_issue =
    MissingId
  | DuplicateId yaml
  | NeedsSkillOrCommand yaml
  | BothSkillAndCommand yaml
  | DependencyNotFound yaml yaml
  | GateNotDefined yaml yaml
  | SkillNotFound yaml string
  | OnFailureNotString
  | OnFailureUnknown string
  | BadTimeout yaml
  | RetryNotMapping yaml
  | RetryMaxRequired yaml
  | RetryMaxNotPositive yaml
  | BadEstimatedTokens yaml
  | CycleDetected "string list"

datatype wf_exn = TypeErr

text \<open>\<open>n.get("id", "?")\<close>, the id as the messages print it.\<close>

definition shown_id :: "wf_node \<Rightarrow> yaml" where
  "shown_id n = (case map_of n ''id'' of None \<Rightarrow> YStr ''?'' | Some v \<Rightarrow> v)"

fun hashable :: "yaml \<Rightarrow> bool" where
  "hashable (YList l) = False"
| "hashable (YDict d) = False"
| "hashable _ = True"

text \<open>A value as a member of a Python set: \<open>True\<close> and \<open>1\<close> are one member.\<close>

fun py_key :: "yaml \<Rightarrow> yaml" where
  "py_key YTrue = YInt 1"
| "py_key y = y"

text \<open>The iteration \<open>for dep in deps\<close>, a single string taken as a list of one.\<close>

fun node_deps :: "yaml option \<Rightarrow> wf_exn + yaml list" where
  "node_deps None = Inr []"
| "node_deps (Some (YStr s)) = Inr [YStr s]"
| "node_deps (Some (YList l)) = Inr (map YStr l)"
| "node_deps (Some (YDict d)) = Inr (map (\<lambda>kv. YStr (fst kv)) d)"
| "node_deps (Some _) = Inl TypeErr"

abbreviation deps_field :: "wf_node \<Rightarrow> wf_exn + yaml list" where
  "deps_field n \<equiv> node_deps (map_of n ''depends_on'')"

section \<open>The checks\<close>

fun collect_ids :: "wf_node list \<Rightarrow> wf_issue list \<Rightarrow> yaml list \<Rightarrow> wf_exn + wf_issue list \<times> yaml list" where
  "collect_ids [] errs ids = Inr (errs, ids)"
| "collect_ids (n # ns) errs ids =
     (let nid = yget ''id'' n in
      if \<not> ytruthy nid then collect_ids ns (errs @ [MissingId]) ids
      else if \<not> hashable nid then Inl TypeErr
      else if py_key nid \<in> set ids then collect_ids ns (errs @ [DuplicateId nid]) ids
      else collect_ids ns errs (ids @ [py_key nid]))"

definition skill_command_issues :: "wf_node \<Rightarrow> wf_issue list" where
  "skill_command_issues n =
     (let has_skill = map_of n ''skill'' \<noteq> None; has_command = map_of n ''command'' \<noteq> None in
      (if \<not> has_skill \<and> \<not> has_command then [NeedsSkillOrCommand (shown_id n)] else [])
      @ (if has_skill \<and> has_command then [BothSkillAndCommand (shown_id n)] else []))"

definition dependency_issues :: "yaml list \<Rightarrow> wf_node \<Rightarrow> wf_exn + wf_issue list" where
  "dependency_issues ids n =
     and_then (deps_field n) (\<lambda>deps.
       Inr (map (DependencyNotFound (shown_id n)) (filter (\<lambda>dep. dep \<notin> set ids) deps)))"

definition gate_issues :: "string list \<Rightarrow> wf_node \<Rightarrow> wf_exn + wf_issue list" where
  "gate_issues gates n =
     (let gate = yget ''gate'' n in
      if \<not> ytruthy gate then Inr []
      else if \<not> hashable gate then Inl TypeErr
      else if gate \<in> set (map YStr gates) then Inr []
      else Inr [GateNotDefined (shown_id n) gate])"

definition skill_issues :: "skill_fs \<Rightarrow> string \<Rightarrow> wf_node \<Rightarrow> wf_exn + wf_issue list" where
  "skill_issues fs root n =
     (let skill = yget ''skill'' n in
      if \<not> ytruthy skill then Inr []
      else (case skill of
              YStr s \<Rightarrow> Inr (if resolve_skill fs root s = None then [SkillNotFound (shown_id n) s] else [])
            | _ \<Rightarrow> Inl TypeErr))"

definition node_issues ::
    "skill_fs \<Rightarrow> string \<Rightarrow> yaml list \<Rightarrow> string list \<Rightarrow> wf_node \<Rightarrow> wf_exn + wf_issue list" where
  "node_issues fs root ids gates n =
     and_then (dependency_issues ids n) (\<lambda>ds.
     and_then (gate_issues gates n) (\<lambda>gs.
     and_then (skill_issues fs root n) (\<lambda>ss.
       Inr (skill_command_issues n @ ds @ gs @ ss))))"

text \<open>A loop that appends the messages of each node.\<close>

fun collect_issues :: "('n \<Rightarrow> wf_exn + wf_issue list) \<Rightarrow> 'n list \<Rightarrow> wf_exn + wf_issue list" where
  "collect_issues f [] = Inr []"
| "collect_issues f (n # ns) =
     and_then (f n) (\<lambda>es. and_then (collect_issues f ns) (\<lambda>es'. Inr (es @ es')))"

definition on_failure_issues :: "yaml list \<Rightarrow> wf_node \<Rightarrow> wf_issue list" where
  "on_failure_issues ids data =
     (case yget ''on_failure'' data of
        YNone \<Rightarrow> []
      | YStr s \<Rightarrow> if s = ''abort'' \<or> YStr s \<in> set ids then [] else [OnFailureUnknown s]
      | _ \<Rightarrow> [OnFailureNotString])"

text \<open>\<open>isinstance(v, int)\<close> with the value as an integer: \<open>True\<close> is the integer 1.\<close>

fun as_int :: "yaml \<Rightarrow> int option" where
  "as_int (YInt i) = Some i"
| "as_int YTrue = Some 1"
| "as_int _ = None"

definition int_at_least :: "int \<Rightarrow> yaml \<Rightarrow> bool" where
  "int_at_least k v = (case as_int v of None \<Rightarrow> False | Some i \<Rightarrow> k \<le> i)"

definition field_issues :: "wf_node \<Rightarrow> wf_issue list" where
  "field_issues n =
     (let nid = shown_id n; timeout = yget ''timeout_seconds'' n; retry = yget ''retry'' n;
          estimated = yget ''estimated_tokens'' n in
      (if timeout \<noteq> YNone \<and> \<not> int_at_least 1 timeout then [BadTimeout nid] else [])
      @ (case retry of
           YNone \<Rightarrow> []
         | YDict r \<Rightarrow>
             (let max_val = yget ''max'' r in
              if max_val = YNone then [RetryMaxRequired nid]
              else if \<not> int_at_least 1 max_val then [RetryMaxNotPositive nid] else [])
         | _ \<Rightarrow> [RetryNotMapping nid])
      @ (if estimated \<noteq> YNone \<and> \<not> int_at_least 0 estimated then [BadEstimatedTokens nid] else []))"

text \<open>The edges the build loop of the cycle detection runs over.\<close>

definition node_edges :: "yaml list \<Rightarrow> wf_node \<Rightarrow> (yaml \<times> yaml) list" where
  "node_edges ids n =
     (let nid = yget ''id'' n in
      if \<not> ytruthy nid then []
      else (case deps_field n of
              Inl _ \<Rightarrow> []
            | Inr deps \<Rightarrow> map (\<lambda>dep. (dep, py_key nid)) (filter (\<lambda>dep. dep \<in> set ids) deps)))"

definition workflow_edges :: "yaml list \<Rightarrow> wf_node list \<Rightarrow> (yaml \<times> yaml) list" where
  "workflow_edges ids nodes = concat (map (node_edges ids) nodes)"

fun ystr :: "yaml \<Rightarrow> string option" where
  "ystr (YStr s) = Some s"
| "ystr _ = None"

text \<open>\<open>', '.join(cycle_nodes)\<close> raises on an id that is not a string.\<close>

definition cycle_issues :: "yaml list \<Rightarrow> wf_node list \<Rightarrow> wf_exn + wf_issue list" where
  "cycle_issues ids nodes =
     (case cycle_nodes ids (workflow_edges ids nodes) of
        None \<Rightarrow> Inr []
      | Some ws \<Rightarrow>
          if \<forall>w\<in>set ws. ystr w \<noteq> None then Inr [CycleDetected (map (\<lambda>w. the (ystr w)) ws)]
          else Inl TypeErr)"

definition validate_workflow ::
    "skill_fs \<Rightarrow> string \<Rightarrow> (yaml list \<Rightarrow> yaml list) \<Rightarrow> workflow \<Rightarrow> wf_exn + wf_issue list" where
  "validate_workflow fs root order w =
     and_then (collect_ids (wd_nodes w) [] []) (\<lambda>(errs, ids).
     and_then (collect_issues (node_issues fs root ids (map fst (wd_gates w))) (wd_nodes w)) (\<lambda>es.
     and_then (cycle_issues (order ids) (wd_nodes w)) (\<lambda>cs.
       Inr (errs @ es @ on_failure_issues ids (wd_top w)
            @ concat (map field_issues (wd_nodes w)) @ cs))))"

section \<open>What a well-formed workflow is\<close>

abbreviation node_key :: "wf_node \<Rightarrow> yaml" where
  "node_key n \<equiv> py_key (yget ''id'' n)"

text \<open>The nodes a node waits for.\<close>

definition deps_of :: "wf_node \<Rightarrow> yaml list" where
  "deps_of n = (case deps_field n of Inl _ \<Rightarrow> [] | Inr deps \<Rightarrow> deps)"

definition waits_for :: "wf_node list \<Rightarrow> (yaml \<times> yaml) set" where
  "waits_for nodes = {(dep, node_key n) | dep n. n \<in> set nodes \<and> dep \<in> set (deps_of n)}"

definition ids_ok :: "wf_node list \<Rightarrow> bool" where
  "ids_ok nodes \<longleftrightarrow> (\<forall>n\<in>set nodes. ytruthy (yget ''id'' n) \<and> hashable (yget ''id'' n))
     \<and> distinct (map node_key nodes)"

definition node_ok :: "skill_fs \<Rightarrow> string \<Rightarrow> workflow \<Rightarrow> wf_node \<Rightarrow> bool" where
  "node_ok fs root w n \<longleftrightarrow>
     (map_of n ''skill'' = None) \<noteq> (map_of n ''command'' = None)
     \<and> deps_field n = Inr (deps_of n)
     \<and> set (deps_of n) \<subseteq> node_key ` set (wd_nodes w)
     \<and> (ytruthy (yget ''gate'' n) \<longrightarrow> (\<exists>g \<in> fst ` set (wd_gates w). yget ''gate'' n = YStr g))
     \<and> (ytruthy (yget ''skill'' n) \<longrightarrow> (\<exists>s. yget ''skill'' n = YStr s \<and> resolve_skill fs root s \<noteq> None))
     \<and> field_issues n = []"

definition well_formed :: "skill_fs \<Rightarrow> string \<Rightarrow> workflow \<Rightarrow> bool" where
  "well_formed fs root w \<longleftrightarrow>
     ids_ok (wd_nodes w)
     \<and> (\<forall>n\<in>set (wd_nodes w). node_ok fs root w n)
     \<and> on_failure_issues (map node_key (wd_nodes w)) (wd_top w) = []
     \<and> acyclic (waits_for (wd_nodes w))"

section \<open>The validator decides it\<close>

lemma collect_ids_errs:
  "collect_ids ns errs ids = Inr (errs', ids') \<Longrightarrow> \<exists>more. errs' = errs @ more"
  by (induction ns errs ids rule: collect_ids.induct)
    (auto simp: Let_def split: if_splits)

lemma collect_ids_clean:
  "collect_ids ns [] ids = Inr ([], ids') \<longleftrightarrow>
     ids' = ids @ map node_key ns
     \<and> (\<forall>n\<in>set ns. ytruthy (yget ''id'' n) \<and> hashable (yget ''id'' n))
     \<and> distinct (map node_key ns) \<and> set (map node_key ns) \<inter> set ids = {}"
proof (induction ns arbitrary: ids)
  case Nil
  then show ?case by auto
next
  case (Cons n ns)
  have bad: "collect_ids ns [e] ids \<noteq> Inr ([], ids')" for e
    using collect_ids_errs [of ns "[e]" ids "[]" ids'] by auto
  show ?case
    using bad by (auto simp: Let_def Cons.IH)
qed

lemma and_then_Inr_Nil:
  "and_then r (\<lambda>x. Inr (f x)) = Inr [] \<longleftrightarrow> (\<exists>x. r = Inr x \<and> f x = [])"
  by (cases r) auto

lemma collect_issues_clean:
  "collect_issues f ns = Inr [] \<longleftrightarrow> (\<forall>n\<in>set ns. f n = Inr [])"
proof (induction ns)
  case (Cons n ns)
  then show ?case
    by (cases "f n"; cases "collect_issues f ns") auto
qed simp

lemma gate_issues_clean:
  "gate_issues gates n = Inr [] \<longleftrightarrow>
     (ytruthy (yget ''gate'' n) \<longrightarrow> (\<exists>g \<in> set gates. yget ''gate'' n = YStr g))"
  by (auto simp: gate_issues_def Let_def)

lemma skill_issues_clean:
  "skill_issues fs root n = Inr [] \<longleftrightarrow>
     (ytruthy (yget ''skill'' n) \<longrightarrow>
        (\<exists>s. yget ''skill'' n = YStr s \<and> resolve_skill fs root s \<noteq> None))"
  by (auto simp: skill_issues_def Let_def split: yaml.splits)

lemma dependency_issues_clean:
  "dependency_issues ids n = Inr [] \<longleftrightarrow>
     deps_field n = Inr (deps_of n) \<and> set (deps_of n) \<subseteq> set ids"
  by (cases "deps_field n") (auto simp: dependency_issues_def deps_of_def filter_empty_conv)

lemma skill_command_issues_clean:
  "skill_command_issues n = [] \<longleftrightarrow> (map_of n ''skill'' = None) \<noteq> (map_of n ''command'' = None)"
  by (auto simp: skill_command_issues_def Let_def)

lemma node_issues_clean:
  "node_issues fs root ids gates n = Inr [] \<longleftrightarrow>
     skill_command_issues n = [] \<and> dependency_issues ids n = Inr []
     \<and> gate_issues gates n = Inr [] \<and> skill_issues fs root n = Inr []"
  by (cases "dependency_issues ids n"; cases "gate_issues gates n"; cases "skill_issues fs root n")
    (auto simp: node_issues_def)

text \<open>The edges between known nodes are the dependency relation, once every dependency is known.\<close>

lemma workflow_edges_all:
  assumes "\<And>n. n \<in> set nodes \<Longrightarrow> ytruthy (yget ''id'' n) \<and> set (deps_of n) \<subseteq> set ids"
  shows "set (workflow_edges ids nodes) = waits_for nodes"
  using assms unfolding workflow_edges_def waits_for_def
  by (auto simp: node_edges_def deps_of_def Let_def split: sum.splits) force+

lemma workflow_edges_ids:
  assumes "set (map node_key nodes) \<subseteq> set ids"
  shows "set (workflow_edges ids nodes) \<subseteq> set ids \<times> set ids"
  using assms by (fastforce simp: workflow_edges_def node_edges_def Let_def split: sum.splits if_splits)

lemma cycle_issues_clean:
  assumes "distinct ids" "set (map node_key nodes) \<subseteq> set ids"
  shows "cycle_issues ids nodes = Inr [] \<longleftrightarrow> acyclic (set (workflow_edges ids nodes))"
  using kahn_finds_cycles [OF assms(1) workflow_edges_ids [OF assms(2)]]
  by (auto simp: cycle_issues_def split: option.splits)

text \<open>The order in which a set is iterated lists its members once.\<close>

definition set_order :: "(yaml list \<Rightarrow> yaml list) \<Rightarrow> bool" where
  "set_order order \<longleftrightarrow> (\<forall>ids. distinct ids \<longrightarrow> distinct (order ids) \<and> set (order ids) = set ids)"

lemma validate_clean:
  "validate_workflow fs root order w = Inr [] \<longleftrightarrow>
     (\<exists>ids. collect_ids (wd_nodes w) [] [] = Inr ([], ids)
        \<and> (\<forall>n\<in>set (wd_nodes w). node_issues fs root ids (map fst (wd_gates w)) n = Inr [])
        \<and> cycle_issues (order ids) (wd_nodes w) = Inr []
        \<and> on_failure_issues ids (wd_top w) = []
        \<and> (\<forall>n\<in>set (wd_nodes w). field_issues n = []))"
proof (cases "collect_ids (wd_nodes w) [] []")
  case (Inr r)
  obtain errs ids where r: "r = (errs, ids)"
    by fastforce
  show ?thesis
    unfolding validate_workflow_def Inr r
    by (cases "collect_issues (node_issues fs root ids (map fst (wd_gates w))) (wd_nodes w)";
        cases "cycle_issues (order ids) (wd_nodes w)")
      (auto simp: collect_issues_clean [symmetric])
qed (simp add: validate_workflow_def)

lemma node_ok_iff:
  "node_ok fs root w n \<longleftrightarrow>
     node_issues fs root (map node_key (wd_nodes w)) (map fst (wd_gates w)) n = Inr []
     \<and> field_issues n = []"
  by (auto simp: node_ok_def node_issues_clean skill_command_issues_clean dependency_issues_clean
      gate_issues_clean skill_issues_clean)

lemma validate_clean_well_formed:
  assumes "set_order order"
  shows "validate_workflow fs root order w = Inr [] \<longleftrightarrow> well_formed fs root w"
proof -
  let ?ids = "map node_key (wd_nodes w)"
  have ids: "collect_ids (wd_nodes w) [] [] = Inr ([], ids) \<longleftrightarrow> ids = ?ids \<and> ids_ok (wd_nodes w)" for ids
    by (auto simp: collect_ids_clean ids_ok_def)
  have cyc: "cycle_issues (order ?ids) (wd_nodes w) = Inr [] \<longleftrightarrow> acyclic (waits_for (wd_nodes w))"
    if ok: "ids_ok (wd_nodes w)" "\<forall>n\<in>set (wd_nodes w). node_ok fs root w n"
  proof -
    have o: "distinct (order ?ids)" "set (order ?ids) = set ?ids"
      using assms ok(1) by (auto simp: set_order_def ids_ok_def)
    have "set (workflow_edges (order ?ids) (wd_nodes w)) = waits_for (wd_nodes w)"
      using ok o(2) by (intro workflow_edges_all) (auto simp: ids_ok_def node_ok_def)
    then show ?thesis
      using cycle_issues_clean [OF o(1), of "wd_nodes w"] o(2) by simp
  qed
  show ?thesis
    unfolding validate_clean well_formed_def ids node_ok_iff [symmetric]
    using cyc by (auto simp: node_ok_iff)
qed

lemma accepted_well_formed:
  "set_order order \<Longrightarrow> validate_workflow fs root order w = Inr [] \<Longrightarrow> well_formed fs root w"
  by (simp add: validate_clean_well_formed)

text \<open>C10: the validator reports nothing exactly when the workflow is well formed: every node has
  a usable id of its own and either a skill or a command, dependencies, gates and skills resolve,
  the numeric fields are in range, and no node waits for itself through its dependencies.\<close>

theorem validate_iff_well_formed:
  assumes "set_order order"
  shows "validate_workflow fs root order w = Inr [] \<longleftrightarrow> well_formed fs root w"
  using assms by (rule validate_clean_well_formed)

definition sample_fs :: skill_fs where
  "sample_fs = \<lparr>fs_is_file = (\<lambda>p. py_endswith p ''/SKILL.md''), fs_is_dir = (\<lambda>p. True), fs_iterdir = (\<lambda>p. [])\<rparr>"

definition sample_workflow :: workflow where
  "sample_workflow = parse_workflow (py_join [CHR 0x0A] (show_nodes sample_nodes))"

theorem validate_iff_well_formed_witness:
  "validate_workflow sample_fs ''/repo'' (\<lambda>ids. ids) sample_workflow = Inr []
   \<and> well_formed sample_fs ''/repo'' sample_workflow"
proof -
  have "set_order (\<lambda>ids. ids)"
    by (simp add: set_order_def)
  moreover have "validate_workflow sample_fs ''/repo'' (\<lambda>ids. ids) sample_workflow = Inr []"
    by code_simp
  ultimately show ?thesis
    using validate_iff_well_formed [of "\<lambda>ids. ids" sample_fs "''/repo''" sample_workflow] by simp
qed

text \<open>When the ids are usable and every node's own checks pass but the dependencies have a
  cycle, the validator reports exactly one problem, a cycle; every node it names waits for another
  named one.\<close>

theorem cycle_is_reported:
  assumes "set_order order" "ids_ok (wd_nodes w)" "\<forall>n\<in>set (wd_nodes w). node_ok fs root w n"
    and "on_failure_issues (map node_key (wd_nodes w)) (wd_top w) = []"
    and "\<forall>n\<in>set (wd_nodes w). ystr (yget ''id'' n) \<noteq> None"
    and "\<not> acyclic (waits_for (wd_nodes w))"
  shows "\<exists>ws. validate_workflow fs root order w = Inr [CycleDetected ws] \<and> ws \<noteq> []
    \<and> (\<forall>x\<in>set ws. \<exists>u\<in>set ws. (YStr u, YStr x) \<in> waits_for (wd_nodes w))"
proof -
  let ?ids = "order (map node_key (wd_nodes w))" and ?ns = "wd_nodes w"
  let ?es = "workflow_edges ?ids ?ns"
  have o: "distinct ?ids" "set ?ids = node_key ` set ?ns"
    using assms(1,2) by (auto simp: set_order_def ids_ok_def)
  have es: "set ?es = waits_for ?ns"
    using assms(2,3) o(2) by (intro workflow_edges_all) (auto simp: ids_ok_def node_ok_def)
  have sub: "set ?es \<subseteq> set ?ids \<times> set ?ids"
    using o(2) by (intro workflow_edges_ids) simp
  obtain vs where vs: "cycle_nodes ?ids ?es = Some vs"
    using kahn_finds_cycles [OF o(1) sub] assms(6) es by auto
  have str: "v = YStr (the (ystr v))" "ystr v \<noteq> None" if v: "v \<in> set ?ids" for v
  proof -
    obtain n where "n \<in> set ?ns" "v = node_key n"
      using v o(2) by auto
    then have "v = YStr (the (ystr v)) \<and> ystr v \<noteq> None"
      using assms(5) by (cases "yget ''id'' n") auto
    then show "v = YStr (the (ystr v))" "ystr v \<noteq> None"
      by simp_all
  qed
  have vs_ids: "set vs \<subseteq> set ?ids"
    using cycle_nodes_stuck [OF o(1) sub vs] sub by auto
  then have "cycle_issues ?ids ?ns = Inr [CycleDetected (map (\<lambda>v. the (ystr v)) vs)]"
    using vs str(2) by (auto simp: cycle_issues_def)
  moreover have "collect_ids ?ns [] [] = Inr ([], map node_key ?ns)"
    using assms(2) by (simp add: collect_ids_clean ids_ok_def)
  moreover have "collect_issues (node_issues fs root (map node_key ?ns) (map fst (wd_gates w))) ?ns = Inr []"
    using assms(3) by (simp add: collect_issues_clean node_ok_iff)
  moreover have "concat (map field_issues ?ns) = []"
    using assms(3) by (simp add: node_ok_iff)
  ultimately have "validate_workflow fs root order w = Inr [CycleDetected (map (\<lambda>v. the (ystr v)) vs)]"
    using assms(4) by (simp add: validate_workflow_def)
  moreover have "\<exists>u\<in>set vs. (YStr (the (ystr u)), YStr (the (ystr v))) \<in> waits_for ?ns" if v: "v \<in> set vs" for v
  proof -
    obtain u where "u \<in> set vs" "(u, v) \<in> set ?es"
      using cycle_nodes_stuck [OF o(1) sub vs] v by auto
    then show ?thesis
      using v vs_ids es str(1) by (metis subsetD)
  qed
  ultimately show ?thesis
    using cycle_nodes_stuck [OF o(1) sub vs] by auto
qed

definition looping_workflow :: workflow where
  "looping_workflow = \<lparr>wd_top = [], wd_gates = [],
     wd_nodes = [[(''id'', YStr ''a''), (''command'', YStr ''x''), (''depends_on'', YStr ''b'')],
                 [(''id'', YStr ''b''), (''command'', YStr ''x''), (''depends_on'', YList [''a''])],
                 [(''id'', YStr ''c''), (''command'', YStr ''x'')]]\<rparr>"

lemma looping_not_acyclic: "\<not> acyclic (waits_for (wd_nodes looping_workflow))"
proof -
  have edges: "waits_for (wd_nodes w) = set (concat (map (\<lambda>n. map (\<lambda>d. (d, node_key n)) (deps_of n)) (wd_nodes w)))" for w
    by (auto simp: waits_for_def)
  have ab: "(YStr ''b'', YStr ''a'') \<in> waits_for (wd_nodes looping_workflow)"
    "(YStr ''a'', YStr ''b'') \<in> waits_for (wd_nodes looping_workflow)"
    unfolding edges by code_simp+
  then have "(YStr ''a'', YStr ''a'') \<in> (waits_for (wd_nodes looping_workflow))\<^sup>+"
    by (intro trancl_trans [OF r_into_trancl r_into_trancl])
  then show ?thesis
    by (auto simp: acyclic_def)
qed

theorem cycle_is_reported_witness:
  "\<exists>ws. validate_workflow sample_fs ''/repo'' (\<lambda>ids. ids) looping_workflow = Inr [CycleDetected ws]
     \<and> ws \<noteq> []"
proof -
  have "set_order (\<lambda>ids. ids)"
    by (simp add: set_order_def)
  moreover have "ids_ok (wd_nodes looping_workflow)"
    "on_failure_issues (map node_key (wd_nodes looping_workflow)) (wd_top looping_workflow) = []"
    "\<forall>n\<in>set (wd_nodes looping_workflow). ystr (yget ''id'' n) \<noteq> None"
    by code_simp+
  moreover have "\<forall>n\<in>set (wd_nodes looping_workflow). node_ok sample_fs ''/repo'' looping_workflow n"
    unfolding node_ok_iff by code_simp
  ultimately show ?thesis
    using cycle_is_reported [of "\<lambda>ids. ids" looping_workflow sample_fs "''/repo''"] looping_not_acyclic
    by blast
qed

text \<open>A retry block is never checked. The parser builds no mapping, so a node never has a
  \<open>retry\<close> field the validator would accept or look into: a non-empty one is rejected outright, and
  the \<open>max\<close> written below \<open>retry:\<close> becomes a field of the node that no check reads.\<close>

theorem retry_never_inspected:
  "(\<forall>t. list_all (\<lambda>n. yget ''retry'' n = YNone \<or> RetryNotMapping (shown_id n) \<in> set (field_issues n))
          (wd_nodes (parse_workflow t)))
   \<and> (\<exists>t. list_ex (\<lambda>n. yget ''max'' n = YInt (- 1)) (wd_nodes (parse_workflow t))
      \<and> validate_workflow sample_fs ''/repo'' (\<lambda>ids. ids) (parse_workflow t) = Inr [])"
proof
  show "\<forall>t. list_all (\<lambda>n. yget ''retry'' n = YNone \<or> RetryNotMapping (shown_id n) \<in> set (field_issues n))
          (wd_nodes (parse_workflow t))"
    unfolding list_all_iff
  proof (intro allI ballI)
    fix t n
    assume "n \<in> set (wd_nodes (parse_workflow t))"
    then have "flat_node n"
      by (simp add: parse_workflow_def parse_lines_flat)
    then have "flat_value (yget ''retry'' n)"
      by (force simp: flat_node_def yget_def dest!: map_of_SomeD split: option.split)
    then show "yget ''retry'' n = YNone \<or> RetryNotMapping (shown_id n) \<in> set (field_issues n)"
      by (cases "yget ''retry'' n") (simp_all add: field_issues_def Let_def)
  qed
  let ?t = "py_join [CHR 0x0A]
    [''nodes:'', ''  - id: a'', ''    command: x'', ''    retry:'', ''      max: -1'']"
  have "list_ex (\<lambda>n. yget ''max'' n = YInt (- 1)) (wd_nodes (parse_workflow ?t))"
    "validate_workflow sample_fs ''/repo'' (\<lambda>ids. ids) (parse_workflow ?t) = Inr []"
    by code_simp+
  then show "\<exists>t. list_ex (\<lambda>n. yget ''max'' n = YInt (- 1)) (wd_nodes (parse_workflow t))
      \<and> validate_workflow sample_fs ''/repo'' (\<lambda>ids. ids) (parse_workflow t) = Inr []"
    by blast
qed

end
