(* ===== verification/Workflow_Templates.thy ===== *)
theory Workflow_Templates
  imports Workflow_Parser Complex_Main
begin

text \<open>
  Template resolution and condition evaluation of \<open>control/execution/workflow/engine.py\<close>, over
  the state of a run (\<open>wf_run\<close>, the JSON object \<open>state\_commands.py\<close> keeps per workflow key).

  A node's state is a JSON object, an association list of \<open>jval\<close>s; numbers and the like are kept
  as Python prints them. Floating point, the quality-score file and the session cache are
  parameters: the record \<open>float_ops\<close> holds what the code uses of \<open>float\<close> (parsing, printing,
  comparison with a float on either side), \<open>session\<close> maps a file name to its contents.
\<close>

section \<open>The state of a run\<close>

datatype jval = JStr string | JBool bool | JNum string | JNull

type_synonym snode = "(string \<times> jval) list"

record wf_run =
  wr_workflow :: string
  wr_started :: string
  wr_status :: string
  wr_current :: "string option"
  wr_yaml_path :: string
  wr_nodes :: "(string \<times> snode) list"
  wr_completed :: "string list"
  wr_gates_passed :: "string list"
  wr_gates_pending :: "string list"
  wr_params :: "(string \<times> string) list"
  wr_session_dir :: "string option"

text \<open>\<open>str(v)\<close>\<close>

fun py_str :: "jval \<Rightarrow> string" where
  "py_str (JStr s) = s"
| "py_str (JBool True) = ''True''"
| "py_str (JBool False) = ''False''"
| "py_str (JNum r) = r"
| "py_str JNull = ''None''"

section \<open>References\<close>

text \<open>\<open>ref.rsplit(".", 1)\<close>, for a reference with a full stop.\<close>

definition rsplit_dot :: "string \<Rightarrow> string \<times> string" where
  "rsplit_dot s = (let r = rev s in
     (rev (tl (dropWhile (\<lambda>c. c \<noteq> CHR ''.'') r)), rev (takeWhile (\<lambda>c. c \<noteq> CHR ''.'') r)))"

definition resolve_ref :: "string \<Rightarrow> wf_run \<Rightarrow> string option" where
  "resolve_ref ref run =
     (if \<not> py_in ''.'' ref then None
      else (case rsplit_dot ref of (node_id, field) \<Rightarrow>
        (case map_of (wr_nodes run) node_id of
           None \<Rightarrow> None
         | Some node \<Rightarrow> Some (case map_of node field of None \<Rightarrow> [] | Some v \<Rightarrow> py_str v))))"

definition resolve_param :: "string \<Rightarrow> wf_run \<Rightarrow> string option" where
  "resolve_param key run =
     (case map_of (wr_params run) key of
        None \<Rightarrow> None
      | Some v \<Rightarrow> if v = [] then None else Some v)"

text \<open>\<open>session\<close> is None when the run has no session directory; an empty file resolves to nothing.\<close>

definition resolve_session_ref :: "string \<Rightarrow> (string \<Rightarrow> string option) option \<Rightarrow> string option" where
  "resolve_session_ref filename session =
     (case session of
        None \<Rightarrow> None
      | Some read \<Rightarrow>
          (case read filename of None \<Rightarrow> None | Some v \<Rightarrow> if v = [] then None else Some v))"

section \<open>Substitution\<close>

text \<open>The pattern \<open>\{\{(.+?)\}\}\<close>: after the opening braces, the shortest non-empty run without a
  newline that closing braces follow; the reference and what comes after it.\<close>

fun scan_close :: "string \<Rightarrow> string \<Rightarrow> (string \<times> string) option" where
  "scan_close acc [] = None"
| "scan_close acc (c # s) =
     (if acc \<noteq> [] \<and> prefix ''}}'' (c # s) then Some (rev acc, drop 1 s)
      else if c = CHR 0x0A then None
      else scan_close (c # acc) s)"

lemma scan_close_shorter: "scan_close acc s = Some (ref, rest) \<Longrightarrow> length rest < length s"
  by (induction acc s rule: scan_close.induct) (auto split: if_splits)

text \<open>\<open>re.sub(pattern, f, s)\<close>\<close>

function sub_templates :: "(string \<Rightarrow> string) \<Rightarrow> string \<Rightarrow> string" where
  "sub_templates f [] = []"
| "sub_templates f (c # s) =
     (case (if prefix ''{{'' (c # s) then scan_close [] (drop 1 s) else None) of
        Some (ref, rest) \<Rightarrow> f ref @ sub_templates f rest
      | None \<Rightarrow> c # sub_templates f s)"
  by pat_completeness auto
termination
  by (relation "measure (\<lambda>(f, s). length s)") (auto dest!: scan_close_shorter split: if_splits)

definition braced :: "string \<Rightarrow> string" where
  "braced ref = ''{{'' @ ref @ ''}}''"

definition resolve_templates ::
    "string \<Rightarrow> wf_run \<Rightarrow> (string \<Rightarrow> string option) option \<Rightarrow> string" where
  "resolve_templates t run session =
     sub_templates (\<lambda>ref.
       let val =
         (if py_startswith ref ''workflow.'' then resolve_param (drop 9 ref) run
          else if py_startswith ref ''session:'' then resolve_session_ref (drop 8 ref) session
          else resolve_ref ref run)
       in (case val of Some v \<Rightarrow> v | None \<Rightarrow> braced ref)) t"

section \<open>Conditions\<close>

datatype 'f num = NInt int | NFloat 'f

datatype 'f coerced = CNum "'f num" | CStr string

record 'f float_ops =
  fl_parse :: "string \<Rightarrow> 'f option"
  fl_str :: "'f \<Rightarrow> string"
  fl_eq :: "'f num \<Rightarrow> 'f num \<Rightarrow> bool"
  fl_lt :: "'f num \<Rightarrow> 'f num \<Rightarrow> bool"
  fl_le :: "'f num \<Rightarrow> 'f num \<Rightarrow> bool"
  fl_quality :: 'f

definition coerce :: "'f float_ops \<Rightarrow> string \<Rightarrow> 'f coerced" where
  "coerce fl v =
     (if v = ''quality-score'' then CNum (NFloat (fl_quality fl))
      else (case py_int v of
              Some i \<Rightarrow> CNum (NInt i)
            | None \<Rightarrow> (case fl_parse fl v of Some x \<Rightarrow> CNum (NFloat x) | None \<Rightarrow> CStr v)))"

fun num_eq :: "'f float_ops \<Rightarrow> 'f num \<Rightarrow> 'f num \<Rightarrow> bool" where
  "num_eq fl (NInt a) (NInt b) = (a = b)"
| "num_eq fl a b = fl_eq fl a b"

fun num_lt :: "'f float_ops \<Rightarrow> 'f num \<Rightarrow> 'f num \<Rightarrow> bool" where
  "num_lt fl (NInt a) (NInt b) = (a < b)"
| "num_lt fl a b = fl_lt fl a b"

fun num_le :: "'f float_ops \<Rightarrow> 'f num \<Rightarrow> 'f num \<Rightarrow> bool" where
  "num_le fl (NInt a) (NInt b) = (a \<le> b)"
| "num_le fl a b = fl_le fl a b"

text \<open>\<open>str\<close> of a non-negative integer, least significant digit first, and of any integer.\<close>

fun nat_digits :: "nat \<Rightarrow> string" where
  "nat_digits n = char_of (48 + n mod 10) # (if n < 10 then [] else nat_digits (n div 10))"

declare nat_digits.simps [simp del]

definition int_str :: "int \<Rightarrow> string" where
  "int_str i = (if i < 0 then CHR ''-'' # rev (nat_digits (nat (- i))) else rev (nat_digits (nat i)))"

fun coerced_str :: "'f float_ops \<Rightarrow> 'f coerced \<Rightarrow> string" where
  "coerced_str fl (CStr s) = s"
| "coerced_str fl (CNum (NInt i)) = int_str i"
| "coerced_str fl (CNum (NFloat x)) = fl_str fl x"

datatype cmp_op = OpNe | OpGe | OpLe | OpEq | OpGt | OpLt

fun op_text :: "cmp_op \<Rightarrow> string" where
  "op_text OpNe = ''!=''"
| "op_text OpGe = ''>=''"
| "op_text OpLe = ''<=''"
| "op_text OpEq = ''==''"
| "op_text OpGt = ''>''"
| "op_text OpLt = ''<''"

text \<open>\<open>s.count(ab)\<close> for a two-character string, occurrences not overlapping.\<close>

fun count_pair :: "char \<Rightarrow> char \<Rightarrow> string \<Rightarrow> nat" where
  "count_pair a b (x # y # s) = (if x = a \<and> y = b then Suc (count_pair a b s) else count_pair a b (y # s))"
| "count_pair a b _ = 0"

definition balanced :: "string \<Rightarrow> bool" where
  "balanced s = (count_pair (CHR ''{'') (CHR ''{'') s = count_pair (CHR ''}'') (CHR ''}'') s)"

lemma find_from_bounds: "find_from sub s i = Some j \<Longrightarrow> i \<le> j \<and> j \<le> i + length s"
  by (induction sub s i rule: find_from.induct) (force split: if_splits)+

lemma py_find_bounds: "py_find s sub i = Some j \<Longrightarrow> i \<le> j \<and> j \<le> length s"
  using find_from_bounds [of sub "drop i s" i j] by (auto simp: py_find_def split: if_splits)

text \<open>The inner loop of the operator search: the first occurrence with balanced braces before it.\<close>

function find_op :: "string \<Rightarrow> string \<Rightarrow> nat \<Rightarrow> nat option" where
  "find_op expr op start =
     (case py_find expr op start of
        None \<Rightarrow> None
      | Some idx \<Rightarrow> if balanced (take idx expr) then Some idx else find_op expr op (idx + 1))"
  by pat_completeness auto
termination
  by (relation "measure (\<lambda>(expr, op, start). length expr + 1 - start)") (auto dest!: py_find_bounds)

declare find_op.simps [simp del]

fun first_op :: "string \<Rightarrow> cmp_op list \<Rightarrow> (cmp_op \<times> nat) option" where
  "first_op expr [] = None"
| "first_op expr (op # ops) =
     (case find_op expr (op_text op) 0 of Some pos \<Rightarrow> Some (op, pos) | None \<Rightarrow> first_op expr ops)"

text \<open>\<open>_resolve\<close>: the substituted text, and whether a reference was missing or braces remain.\<close>

function refs_of :: "string \<Rightarrow> string list" where
  "refs_of [] = []"
| "refs_of (c # s) =
     (case (if prefix ''{{'' (c # s) then scan_close [] (drop 1 s) else None) of
        Some (ref, rest) \<Rightarrow> ref # refs_of rest
      | None \<Rightarrow> refs_of s)"
  by pat_completeness auto
termination
  by (relation "measure length") (auto dest!: scan_close_shorter split: if_splits)

definition cond_resolve :: "string \<Rightarrow> wf_run \<Rightarrow> string \<times> bool" where
  "cond_resolve s run =
     (let result = sub_templates (\<lambda>ref. case resolve_ref ref run of None \<Rightarrow> [] | Some v \<Rightarrow> v) s in
      (result, (\<exists>ref\<in>set (refs_of s). resolve_ref ref run = None)
               \<or> py_in ''{{'' result \<or> py_in ''}}'' result))"

fun compare_nums :: "'f float_ops \<Rightarrow> cmp_op \<Rightarrow> 'f num \<Rightarrow> 'f num \<Rightarrow> bool" where
  "compare_nums fl OpEq a b = num_eq fl a b"
| "compare_nums fl OpNe a b = (\<not> num_eq fl a b)"
| "compare_nums fl OpGt a b = num_lt fl b a"
| "compare_nums fl OpLt a b = num_lt fl a b"
| "compare_nums fl OpGe a b = num_le fl b a"
| "compare_nums fl OpLe a b = num_le fl a b"

fun compare_strs :: "cmp_op \<Rightarrow> string \<Rightarrow> string \<Rightarrow> bool" where
  "compare_strs OpEq l r = (l = r \<or> py_startswith l (r @ '':'') \<or> py_startswith r (l @ '':''))"
| "compare_strs OpNe l r = (l \<noteq> r \<and> \<not> py_startswith l (r @ '':'') \<and> \<not> py_startswith r (l @ '':''))"
| "compare_strs _ l r = False"

definition compare_vals :: "'f float_ops \<Rightarrow> cmp_op \<Rightarrow> 'f coerced \<Rightarrow> 'f coerced \<Rightarrow> bool" where
  "compare_vals fl op l r =
     (case (l, r) of
        (CNum a, CNum b) \<Rightarrow> compare_nums fl op a b
      | _ \<Rightarrow> compare_strs op (coerced_str fl l) (coerced_str fl r))"

definition evaluate :: "'f float_ops \<Rightarrow> string \<Rightarrow> wf_run \<Rightarrow> bool" where
  "evaluate fl expr run =
     (case first_op expr [OpNe, OpGe, OpLe, OpEq, OpGt, OpLt] of
        Some (op, pos) \<Rightarrow>
          (case (cond_resolve (py_strip (take pos expr)) run,
                 cond_resolve (py_strip (drop (pos + length (op_text op)) expr)) run) of
             ((l, l_missing), (r, r_missing)) \<Rightarrow>
               if l_missing \<or> r_missing then False
               else compare_vals fl op (coerce fl (py_strip l)) (coerce fl (py_strip r)))
      | None \<Rightarrow>
          (case cond_resolve expr run of (resolved, unresolved) \<Rightarrow>
             if unresolved then False else py_strip resolved \<noteq> []))"

section \<open>What is substituted\<close>

lemma scan_close_text:
  "scan_close acc s = Some (ref, rest) \<Longrightarrow> rev acc @ s = ref @ ''}}'' @ rest"
proof (induction acc s rule: scan_close.induct)
  case (2 acc c s)
  show ?case
  proof (cases "acc \<noteq> [] \<and> prefix ''}}'' (c # s)")
    case True
    then have "Some (rev acc, drop 1 s) = Some (ref, rest)"
      using 2(2) by (simp only: scan_close.simps if_True simp_thms)
    then have "rev acc = ref" "drop 1 s = rest"
      by simp_all
    with True show ?thesis
      by (cases s) auto
  next
    case False
    then have "scan_close (c # acc) s = Some (ref, rest)"
      using 2(2) by (simp split: if_splits)
    then show ?thesis
      using 2 False by (auto split: if_splits)
  qed
qed simp

lemma sub_templates_keep:
  "(\<And>ref. ref \<in> set (refs_of s) \<Longrightarrow> f ref = braced ref) \<Longrightarrow> sub_templates f s = s"
proof (induction f s rule: sub_templates.induct)
  case (2 f c s)
  show ?case
  proof (cases "if prefix ''{{'' (c # s) then scan_close [] (drop 1 s) else None")
    case None
    then show ?thesis
      using 2(1) [OF None] 2(3) None by simp
  next
    case (Some p)
    obtain ref rest where p: "p = (ref, rest)"
      by fastforce
    have opens: "prefix ''{{'' (c # s)" "scan_close [] (drop 1 s) = Some (ref, rest)"
      using Some p by (simp_all split: if_splits)
    then have "c # s = ''{{'' @ drop 1 s"
      by (cases s) auto
    also have "drop 1 s = ref @ ''}}'' @ rest"
      using scan_close_text [OF opens(2)] by simp
    finally have cs: "c # s = braced ref @ rest"
      by (simp add: braced_def)
    have "f ref = braced ref" "sub_templates f rest = rest"
      using 2(2) [OF Some p [symmetric]] 2(3) Some p by simp_all
    moreover have "sub_templates f (c # s) = f ref @ sub_templates f rest"
      using Some p by simp
    ultimately show ?thesis
      unfolding cs by simp
  qed
qed simp

text \<open>What a reference resolves to.\<close>

definition template_value ::
    "wf_run \<Rightarrow> (string \<Rightarrow> string option) option \<Rightarrow> string \<Rightarrow> string option" where
  "template_value run session ref =
     (if py_startswith ref ''workflow.'' then resolve_param (drop 9 ref) run
      else if py_startswith ref ''session:'' then resolve_session_ref (drop 8 ref) session
      else resolve_ref ref run)"

lemma resolve_templates_keep:
  assumes "\<And>ref. ref \<in> set (refs_of t) \<Longrightarrow> template_value run session ref = None"
  shows "resolve_templates t run session = t"
  unfolding resolve_templates_def Let_def
  by (rule sub_templates_keep) (use assms in \<open>simp add: template_value_def\<close>)

section \<open>Conditions on equality\<close>

lemma find_from_absent: "op \<noteq> [] \<Longrightarrow> hd op \<notin> set s \<Longrightarrow> find_from op s i = None"
proof (induction op s i rule: find_from.induct)
  case (2 sub c s i)
  then show ?case
    by (cases sub) auto
qed simp

lemma find_op_absent: "op \<noteq> [] \<Longrightarrow> hd op \<notin> set expr \<Longrightarrow> find_op expr op 0 = None"
  by (subst find_op.simps) (simp add: py_find_def find_from_absent)

lemma find_from_first:
  "c \<notin> set l \<Longrightarrow> find_from (c # op) (l @ (c # op) @ r) i = Some (i + length l)"
  by (induction l arbitrary: i) auto

lemma find_op_first:
  "c \<notin> set l \<Longrightarrow> balanced l \<Longrightarrow> find_op (l @ (c # op) @ r) (c # op) 0 = Some (length l)"
  using find_from_first [of c l op r 0]
  by (subst find_op.simps) (simp add: py_find_def)

text \<open>An operand without comparison characters, its braces balanced.\<close>

definition operand :: "string \<Rightarrow> bool" where
  "operand s \<longleftrightarrow> balanced s \<and> (\<forall>c\<in>set s. c \<notin> set ''!=<>'')"

lemma operand_chars:
  assumes "operand s"
  shows "CHR ''!'' \<notin> set s" "CHR ''='' \<notin> set s" "CHR ''<'' \<notin> set s" "CHR ''>'' \<notin> set s"
  using assms by (auto simp: operand_def)

lemma first_op_ne:
  assumes "operand l"
  shows "first_op (l @ ''!='' @ r) [OpNe, OpGe, OpLe, OpEq, OpGt, OpLt] = Some (OpNe, length l)"
  using find_op_first [of "CHR ''!''" l "''=''" r] assms operand_chars [OF assms]
  by (simp add: operand_def)

lemma first_op_eq:
  assumes "operand l" "operand r"
  shows "first_op (l @ ''=='' @ r) [OpNe, OpGe, OpLe, OpEq, OpGt, OpLt] = Some (OpEq, length l)"
proof -
  have "find_op (l @ ''=='' @ r) ''!='' 0 = None" "find_op (l @ ''=='' @ r) ''>='' 0 = None"
    "find_op (l @ ''=='' @ r) ''<='' 0 = None"
    using operand_chars [OF assms(1)] operand_chars [OF assms(2)]
    by (simp_all add: find_op_absent)
  then show ?thesis
    using find_op_first [of "CHR ''=''" l "''=''" r] assms operand_chars [OF assms(1)]
    by (simp add: operand_def)
qed

lemma compare_vals_opposite: "compare_vals fl OpNe l r = (\<not> compare_vals fl OpEq l r)"
  by (auto simp: compare_vals_def split: coerced.split)

text \<open>In a condition, \<open>l == r\<close> and \<open>l != r\<close> are opposite whenever every reference of both
  sides resolves, and both are false when one does not: a missing output never satisfies a
  condition, whichever way it is phrased.\<close>

theorem eq_ne_opposite:
  assumes "operand l" "operand r"
  shows "evaluate fl (l @ ''!='' @ r) run =
    (\<not> evaluate fl (l @ ''=='' @ r) run
     \<and> \<not> snd (cond_resolve (py_strip l) run) \<and> \<not> snd (cond_resolve (py_strip r) run))"
  using first_op_ne [OF assms(1), of r] first_op_eq [OF assms]
  by (simp add: evaluate_def case_prod_unfold compare_vals_opposite)

definition sample_floats :: "rat float_ops" where
  "sample_floats = \<lparr>fl_parse = (\<lambda>s. None), fl_str = (\<lambda>x. []), fl_eq = (\<lambda>a b. a = b),
     fl_lt = (\<lambda>a b. False), fl_le = (\<lambda>a b. False), fl_quality = 0\<rparr>"

definition sample_run :: wf_run where
  "sample_run = \<lparr>wr_workflow = ''fix-issue'', wr_started = ''2026-01-01T00:00:00Z'', wr_status = ''running'',
     wr_current = None, wr_yaml_path = ''/repo/fix-issue.yaml'',
     wr_nodes = [(''review'', [(''status'', JStr ''completed''), (''output'', JStr ''PASS: all good'')])],
     wr_completed = [''review''], wr_gates_passed = [], wr_gates_pending = [],
     wr_params = [(''work_order_id'', ''wo-1'')], wr_session_dir = None\<rparr>"

theorem eq_ne_opposite_witness:
  "evaluate sample_floats ''{{review.output}} == PASS'' sample_run
   \<and> \<not> evaluate sample_floats ''{{review.output}} != PASS'' sample_run"
proof -
  have "operand ''{{review.output}} ''" "operand '' PASS''"
    by code_simp+
  moreover have "evaluate sample_floats ''{{review.output}} == PASS'' sample_run"
    by code_simp
  ultimately show ?thesis
    using eq_ne_opposite [of "''{{review.output}} ''" "'' PASS''" sample_floats sample_run] by simp
qed

text \<open>Substitution touches only what it can resolve: a template none of whose references
  resolves in the run is returned unchanged, so a check that names an unbound id still shows it.\<close>

theorem unresolved_template_kept:
  assumes "list_all (\<lambda>ref. template_value run session ref = None) (refs_of t)"
  shows "resolve_templates t run session = t"
  using assms by (intro resolve_templates_keep) (simp add: list_all_iff)

theorem unresolved_template_kept_witness:
  "resolve_templates ''gh pr view {{pr.number}} --wo {{workflow.branch}}'' sample_run None
     = ''gh pr view {{pr.number}} --wo {{workflow.branch}}''"
proof -
  have "list_all (\<lambda>ref. template_value sample_run None ref = None)
      (refs_of ''gh pr view {{pr.number}} --wo {{workflow.branch}}'')"
    by code_simp
  then show ?thesis
    by (rule unresolved_template_kept)
qed

end
