(* ===== verification/Workflow_Engine.thy ===== *)
theory Workflow_Engine
  imports Workflow_Validate Workflow_Templates
begin

text \<open>
  Which nodes of a workflow may run next: \<open>_compute_ready_nodes\<close> and the context budget guard of
  \<open>control/execution/workflow/engine.py\<close>. The results are safety (a ready node's dependencies have
  the statuses its trigger rule asks for), progress (in an acyclic workflow something is always
  ready or skipped until no node is pending), and what the condition language cannot say.
\<close>

section \<open>The code\<close>

text \<open>\<open>{n["id"]: n for n in nodes if "id" in n}\<close>\<close>

fun index_nodes :: "wf_node list \<Rightarrow> (yaml \<times> wf_node) list \<Rightarrow> wf_exn + (yaml \<times> wf_node) list" where
  "index_nodes [] acc = Inr acc"
| "index_nodes (n # ns) acc =
     (case map_of n ''id'' of
        None \<Rightarrow> index_nodes ns acc
      | Some i \<Rightarrow> if hashable i then index_nodes ns (AList.update (py_key i) n acc) else Inl TypeErr)"

text \<open>\<open>state_nodes.get(nid, {})\<close>: the keys of a JSON object are strings.\<close>

definition state_node :: "(string \<times> snode) list \<Rightarrow> yaml \<Rightarrow> snode" where
  "state_node st d =
     (case ystr d of None \<Rightarrow> []
      | Some s \<Rightarrow> (case map_of st s of None \<Rightarrow> [] | Some n \<Rightarrow> n))"

definition node_status :: "snode \<Rightarrow> jval option" where
  "node_status n = map_of n ''status''"

definition dep_status :: "(string \<times> snode) list \<Rightarrow> yaml \<Rightarrow> jval" where
  "dep_status st d =
     (case node_status (state_node st d) of None \<Rightarrow> JStr ''pending'' | Some v \<Rightarrow> v)"

definition trigger_rule :: "wf_node \<Rightarrow> yaml" where
  "trigger_rule n = (case map_of n ''trigger_rule'' of None \<Rightarrow> YStr ''all_success'' | Some v \<Rightarrow> v)"

definition PASSING :: "jval set" where
  "PASSING = {JStr ''completed'', JStr ''unverified''}"

definition SETTLED :: "jval set" where
  "SETTLED = {JStr ''completed'', JStr ''failed'', JStr ''skipped'', JStr ''unverified''}"

definition deps_met :: "yaml \<Rightarrow> jval list \<Rightarrow> bool" where
  "deps_met rule statuses =
     (if statuses = [] then True
      else if rule = YStr ''all_success'' then list_all (\<lambda>s. s \<in> PASSING) statuses
      else if rule = YStr ''all_done'' then list_all (\<lambda>s. s \<in> SETTLED) statuses
      else if rule = YStr ''one_success'' then list_ex (\<lambda>s. s = JStr ''completed'') statuses
      else False)"

text \<open>A condition that is not a string makes \<open>_evaluate\<close> raise, which counts as false.\<close>

definition condition_met :: "'f float_ops \<Rightarrow> wf_node \<Rightarrow> wf_run \<Rightarrow> bool" where
  "condition_met fl n run =
     (let c = yget ''condition'' n in
      if \<not> ytruthy c then True
      else (case c of YStr e \<Rightarrow> evaluate fl e run | _ \<Rightarrow> False))"

fun compute_ready_nodes ::
    "'f float_ops \<Rightarrow> (yaml \<times> wf_node) list \<Rightarrow> (string \<times> snode) list \<Rightarrow> wf_run
      \<Rightarrow> wf_exn + yaml list \<times> yaml list" where
  "compute_ready_nodes fl [] st run = Inr ([], [])"
| "compute_ready_nodes fl ((nid, n) # ys) st run =
     (if node_status (state_node st nid) \<noteq> Some (JStr ''pending'') then compute_ready_nodes fl ys st run
      else
        and_then (deps_field n) (\<lambda>deps.
        and_then (compute_ready_nodes fl ys st run) (\<lambda>(ready, skipped).
          if \<not> deps_met (trigger_rule n) (map (dep_status st) deps) then Inr (ready, skipped)
          else if \<not> condition_met fl n run then Inr (ready, nid # skipped)
          else Inr (nid # ready, skipped))))"

definition HANDOFF_PCT :: real where "HANDOFF_PCT = 75"
definition URGENT_PCT :: real where "URGENT_PCT = 82"

text \<open>The guard's answer to dispatching several nodes at once, from the percentage of context used
  (None when it cannot be read), whether a terminal is attached, and the line typed there (None at
  end of input). Of the answers its comment lists it never returns "warn".\<close>

datatype budget = BudgetOk | BudgetBlock

definition check_context_budget :: "real option \<Rightarrow> bool \<Rightarrow> string option \<Rightarrow> budget" where
  "check_context_budget pct isatty answer =
     (case pct of
        None \<Rightarrow> BudgetOk
      | Some p \<Rightarrow>
          if p \<le> 0 then BudgetOk
          else if URGENT_PCT \<le> p then BudgetBlock
          else if HANDOFF_PCT \<le> p then
            (if \<not> isatty then BudgetBlock
             else (case answer of
                     None \<Rightarrow> BudgetBlock
                   | Some a \<Rightarrow> if py_lower (py_strip a) \<in> {''y'', ''yes''} then BudgetOk else BudgetBlock))
          else BudgetOk)"

section \<open>Safety\<close>

text \<open>The nodes that may run, skipped ones included.\<close>

definition triggered :: "(string \<times> snode) list \<Rightarrow> yaml \<times> wf_node \<Rightarrow> bool" where
  "triggered st x \<longleftrightarrow> node_status (state_node st (fst x)) = Some (JStr ''pending'')
     \<and> deps_met (trigger_rule (snd x)) (map (dep_status st) (deps_of (snd x)))"

lemma compute_ready_eq:
  "compute_ready_nodes fl ys st run = Inr (ready, skipped) \<Longrightarrow>
     ready = map fst (filter (\<lambda>x. triggered st x \<and> condition_met fl (snd x) run) ys)
     \<and> skipped = map fst (filter (\<lambda>x. triggered st x \<and> \<not> condition_met fl (snd x) run) ys)"
proof (induction ys arbitrary: ready skipped)
  case (Cons x ys)
  obtain nid n where x: "x = (nid, n)"
    by fastforce
  show ?case
  proof (cases "node_status (state_node st nid) = Some (JStr ''pending'')")
    case False
    then show ?thesis
      using Cons by (simp add: x triggered_def)
  next
    case True
    then obtain deps r s where d: "deps_field n = Inr deps"
        "compute_ready_nodes fl ys st run = Inr (r, s)"
      using Cons.prems by (cases "deps_field n"; cases "compute_ready_nodes fl ys st run") (auto simp: x)
    then have "deps_of n = deps"
      by (simp add: deps_of_def)
    then show ?thesis
      using Cons.IH [OF d(2)] Cons.prems d True by (simp add: x triggered_def split: if_splits)
  qed
qed simp

lemma compute_ready_total:
  assumes "\<forall>x\<in>set ys. deps_field (snd x) = Inr (deps_of (snd x))"
  shows "\<exists>ready skipped. compute_ready_nodes fl ys st run = Inr (ready, skipped)"
  using assms by (induction ys) (auto simp: split_beta)

text \<open>C17: a node is handed out only while it is pending and once its dependencies allow it: all of
  them completed or unverified under the default rule, all of them at rest under \<open>all_done\<close>, one of
  them completed under \<open>one_success\<close>; no other rule ever releases a node that has dependencies. A
  node that fails its condition is reported as skipped instead, never as both.\<close>

theorem ready_nodes_safe:
  assumes "compute_ready_nodes fl ys st run = Inr (ready, skipped)" "distinct (map fst ys)"
    and "(nid, n) \<in> set ys" "nid \<in> set ready"
  shows "node_status (state_node st nid) = Some (JStr ''pending'')
    \<and> condition_met fl n run \<and> nid \<notin> set skipped
    \<and> (deps_of n = []
       \<or> trigger_rule n = YStr ''all_success'' \<and> dep_status st ` set (deps_of n) \<subseteq> PASSING
       \<or> trigger_rule n = YStr ''all_done'' \<and> dep_status st ` set (deps_of n) \<subseteq> SETTLED
       \<or> trigger_rule n = YStr ''one_success'' \<and> JStr ''completed'' \<in> dep_status st ` set (deps_of n))"
proof -
  have same: "x = (nid, n)" if "x \<in> set ys" "fst x = nid" for x
    using that assms(2,3) by (metis eq_key_imp_eq_value prod.collapse)
  have "triggered st (nid, n) \<and> condition_met fl n run"
    using compute_ready_eq [OF assms(1)] assms(4) same by auto
  moreover from this have "nid \<notin> set skipped"
    using compute_ready_eq [OF assms(1)] same by auto
  ultimately show ?thesis
    by (auto simp: triggered_def deps_met_def list_all_iff list_ex_iff image_iff split: if_splits)
qed

definition sample_state :: "(string \<times> snode) list" where
  "sample_state =
     [(''plan'', [(''status'', JStr ''completed'')]), (''build'', [(''status'', JStr ''pending'')]),
      (''ship'', [(''status'', JStr ''pending'')])]"

definition sample_index :: "(yaml \<times> wf_node) list" where
  "sample_index = map (\<lambda>n. (YStr (fst n), node_of n)) sample_nodes"

lemma sample_ready:
  "compute_ready_nodes sample_floats sample_index sample_state sample_run = Inr ([YStr ''build''], [])"
  by code_simp

theorem ready_nodes_safe_witness:
  "dep_status sample_state ` set (deps_of (node_of (sample_nodes ! 1))) \<subseteq> PASSING"
proof -
  have "distinct (map fst sample_index)"
    by code_simp
  moreover have "(YStr ''build'', node_of (sample_nodes ! 1)) \<in> set sample_index"
    by (simp add: sample_index_def sample_nodes_def)
  moreover have "deps_of (node_of (sample_nodes ! 1)) = [YStr ''plan'']"
    "trigger_rule (node_of (sample_nodes ! 1)) = YStr ''all_success''"
    by code_simp+
  ultimately show ?thesis
    using ready_nodes_safe [OF sample_ready, of "YStr ''build''" "node_of (sample_nodes ! 1)"] by simp
qed

section \<open>Progress\<close>

text \<open>No node is running, blocked or unknown, and none waits in vain: the dependencies of a node
  with the default rule did not fail and were not skipped.\<close>

definition at_rest :: "(string \<times> snode) list \<Rightarrow> (yaml \<times> wf_node) list \<Rightarrow> bool" where
  "at_rest st ys \<longleftrightarrow>
     (\<forall>x\<in>set ys. node_status (state_node st (fst x)) \<in> {Some (JStr ''pending'')} \<union> Some ` SETTLED)
     \<and> (\<forall>x\<in>set ys. trigger_rule (snd x) \<in> {YStr ''all_success'', YStr ''all_done''})
     \<and> (\<forall>x\<in>set ys. trigger_rule (snd x) = YStr ''all_success'' \<longrightarrow>
          dep_status st ` set (deps_of (snd x)) \<subseteq> PASSING \<union> {JStr ''pending''})"

lemma dep_status_node:
  "node_status (state_node st d) = Some v \<Longrightarrow> dep_status st d = v"
  by (simp add: dep_status_def)

lemma progress:
  assumes run: "compute_ready_nodes fl ys st run = Inr (ready, skipped)"
    and known: "\<forall>x\<in>set ys. fst x = node_key (snd x) \<and> set (deps_of (snd x)) \<subseteq> fst ` set ys"
    and acyc: "acyclic (waits_for (map snd ys))"
    and rest: "at_rest st ys"
    and pending: "x \<in> set ys" "node_status (state_node st (fst x)) = Some (JStr ''pending'')"
  shows "ready \<noteq> [] \<or> skipped \<noteq> []"
proof -
  let ?P = "{nid \<in> fst ` set ys. node_status (state_node st nid) = Some (JStr ''pending'')}"
  have fin: "finite (waits_for (map snd ys))"
  proof -
    have "waits_for (map snd ys) = (\<Union>n\<in>snd ` set ys. (\<lambda>d. (d, node_key n)) ` set (deps_of n))"
      by (auto simp: waits_for_def)
    then show ?thesis by simp
  qed
  have "fst x \<in> ?P"
    using pending by auto
  then obtain m where m: "m \<in> ?P" "\<And>y. (y, m) \<in> waits_for (map snd ys) \<Longrightarrow> y \<notin> ?P"
    by (rule wfE_min [OF finite_acyclic_wf [OF fin acyc]]) blast
  then obtain n where n: "(m, n) \<in> set ys"
    by auto
  then have key: "m = node_key n" "set (deps_of n) \<subseteq> fst ` set ys"
    using bspec [OF known n] by simp_all
  have dep: "dep_status st d \<in> SETTLED" if d: "d \<in> set (deps_of n)" for d
  proof -
    have "(d, m) \<in> waits_for (map snd ys)"
      using d n key(1) by (force simp: waits_for_def)
    then have "d \<notin> ?P"
      by (rule m(2))
    moreover obtain y where "y \<in> set ys" "fst y = d"
      using d key(2) by auto
    ultimately have "node_status (state_node st d) \<in> Some ` SETTLED"
      using rest by (auto simp: at_rest_def)
    then show ?thesis
      using dep_status_node by auto
  qed
  have "trigger_rule n = YStr ''all_success'' \<Longrightarrow> dep_status st ` set (deps_of n) \<subseteq> PASSING"
    using rest n dep by (fastforce simp: at_rest_def SETTLED_def)
  moreover have "trigger_rule n = YStr ''all_success'' \<or> trigger_rule n = YStr ''all_done''"
    using rest n by (auto simp: at_rest_def)
  ultimately have "deps_met (trigger_rule n) (map (dep_status st) (deps_of n))"
    using dep by (auto simp: deps_met_def list_all_iff)
  then have "triggered st (m, n)"
    using m(1) by (simp add: triggered_def)
  then show ?thesis
    using compute_ready_eq [OF run] n by (auto simp: filter_empty_conv)
qed

lemma index_nodes_step:
  assumes "\<forall>n\<in>set ns. ytruthy (yget ''id'' n) \<and> hashable (yget ''id'' n)"
    and "distinct (map fst acc @ map node_key ns)"
  shows "index_nodes ns acc = Inr (acc @ map (\<lambda>n. (node_key n, n)) ns)"
  using assms
proof (induction ns arbitrary: acc)
  case (Cons n ns)
  then obtain i where i: "map_of n ''id'' = Some i" "yget ''id'' n = i"
    by (cases "map_of n ''id''") (auto simp: yget_def)
  have "AList.update (py_key i) n acc = acc @ [(py_key i, n)]"
    using Cons.prems(2) i(2) by (intro update_fresh) auto
  then show ?case
    using Cons i by simp
qed simp

lemma index_nodes_ok:
  "ids_ok nodes \<Longrightarrow> index_nodes nodes [] = Inr (map (\<lambda>n. (node_key n, n)) nodes)"
  using index_nodes_step [of nodes "[]"] by (simp add: ids_ok_def)

text \<open>The engine never stalls on a workflow the validator accepts: as long as every node is
  pending or at rest and none under the default rule depends on a failed or skipped one, some
  pending node is handed out or settled by its condition.\<close>

theorem accepted_workflow_progresses:
  assumes "set_order order" "validate_workflow fs dir order w = Inr []"
    and "index_nodes (wd_nodes w) [] = Inr ys"
    and "at_rest st ys"
    and "x \<in> set ys" "node_status (state_node st (fst x)) = Some (JStr ''pending'')"
  shows "\<exists>ready skipped. compute_ready_nodes fl ys st run = Inr (ready, skipped)
    \<and> \<not> (ready = [] \<and> skipped = [])"
proof -
  have wf: "ids_ok (wd_nodes w)" "\<forall>n\<in>set (wd_nodes w). node_ok fs dir w n"
      "acyclic (waits_for (wd_nodes w))"
    using assms(1,2) accepted_well_formed unfolding well_formed_def by auto
  have ys: "ys = map (\<lambda>n. (node_key n, n)) (wd_nodes w)"
    using index_nodes_ok [OF wf(1)] assms(3) by simp
  obtain ready skipped where r: "compute_ready_nodes fl ys st run = Inr (ready, skipped)"
    using compute_ready_total [of ys fl st run] wf(2) by (auto simp: ys node_ok_def)
  have "ready \<noteq> [] \<or> skipped \<noteq> []"
  proof (rule progress [OF r _ _ assms(4-6)])
    show "acyclic (waits_for (map snd ys))"
      using wf(3) by (simp add: ys comp_def)
    show "\<forall>x\<in>set ys. fst x = node_key (snd x) \<and> set (deps_of (snd x)) \<subseteq> fst ` set ys"
      using wf(2) by (auto simp: ys node_ok_def image_image)
  qed
  with r show ?thesis
    by auto
qed

theorem accepted_workflow_progresses_witness:
  "\<exists>ready skipped. compute_ready_nodes sample_floats sample_index sample_state sample_run = Inr (ready, skipped)
    \<and> \<not> (ready = [] \<and> skipped = [])"
proof -
  have "set_order (\<lambda>ids. ids)"
    by (simp add: set_order_def)
  moreover have "validate_workflow sample_fs ''/repo'' (\<lambda>ids. ids) sample_workflow = Inr []"
    by code_simp
  moreover have "index_nodes (wd_nodes sample_workflow) [] = Inr sample_index"
    by code_simp
  moreover have "at_rest sample_state sample_index"
    unfolding at_rest_def SETTLED_def PASSING_def by code_simp
  moreover have "(YStr ''ship'', node_of (sample_nodes ! 2)) \<in> set sample_index"
    by (simp add: sample_index_def sample_nodes_def)
  moreover have "node_status (state_node sample_state (YStr ''ship'')) = Some (JStr ''pending'')"
    by code_simp
  ultimately show ?thesis
    using accepted_workflow_progresses [of "\<lambda>ids. ids" sample_fs "''/repo''" sample_workflow sample_index
        sample_state "(YStr ''ship'', node_of (sample_nodes ! 2))" sample_floats sample_run]
    by simp
qed

text \<open>Skipping or failing a node releases nothing under the default rule: as long as a
  dependency stands failed, skipped or blocked, its dependents are neither handed out nor skipped.\<close>

theorem default_rule_blocks:
  assumes "compute_ready_nodes fl ys st run = Inr (ready, skipped)" "distinct (map fst ys)"
    and "(nid, n) \<in> set ys" "trigger_rule n = YStr ''all_success''"
    and "d \<in> set (deps_of n)" "dep_status st d \<notin> PASSING"
  shows "nid \<notin> set ready \<and> nid \<notin> set skipped"
proof -
  have "\<not> triggered st (nid, n)"
    using assms(4-6) by (auto simp: triggered_def deps_met_def list_all_iff)
  moreover have "x = (nid, n)" if "x \<in> set ys" "fst x = nid" for x
    using that assms(2,3) by (metis eq_key_imp_eq_value prod.collapse)
  ultimately show ?thesis
    using compute_ready_eq [OF assms(1)] by auto
qed

theorem default_rule_blocks_witness:
  "\<exists>ready skipped. compute_ready_nodes sample_floats sample_index sample_state sample_run = Inr (ready, skipped)
    \<and> YStr ''ship'' \<notin> set ready"
proof -
  have "distinct (map fst sample_index)" "trigger_rule (node_of (sample_nodes ! 2)) = YStr ''all_success''"
    by code_simp+
  moreover have "(YStr ''ship'', node_of (sample_nodes ! 2)) \<in> set sample_index"
    by (simp add: sample_index_def sample_nodes_def)
  moreover have "YStr ''build'' \<in> set (deps_of (node_of (sample_nodes ! 2)))"
    by code_simp
  moreover have "dep_status sample_state (YStr ''build'') \<notin> PASSING"
    unfolding PASSING_def by code_simp
  ultimately show ?thesis
    using default_rule_blocks [OF sample_ready] sample_ready by blast
qed

section \<open>What conditions cannot say\<close>

text \<open>The condition of the independent review in \<open>canonical/workflows/execute-work-orders.yaml\<close>.\<close>

definition gates_condition :: string where
  "gates_condition = ''{{run-gates.output}} contains '' @ [CHR 0x27] @ ''GATES: PASS'' @ [CHR 0x27]"

lemma sub_gates_condition:
  "sub_templates f gates_condition = f ''run-gates.output'' @ drop 20 gates_condition"
  by (simp add: gates_condition_def)

lemma gates_condition_no_op: "first_op gates_condition [OpNe, OpGe, OpLe, OpEq, OpGt, OpLt] = None"
  by code_simp

lemma gates_condition_refs: "refs_of gates_condition = [''run-gates.output'']"
  by code_simp

lemma resolve_gates_output:
  assumes "map_of (wr_nodes run) ''run-gates'' = Some node" "map_of node ''output'' = Some (JStr out)"
  shows "resolve_ref ''run-gates.output'' run = Some out"
proof -
  have "rsplit_dot ''run-gates.output'' = (''run-gates'', ''output'')" "py_in ''.'' ''run-gates.output''"
    by code_simp+
  then show ?thesis
    using assms by (simp add: resolve_ref_def)
qed

lemma strip_nonempty:
  assumes "c \<in> set s" "\<not> py_isspace c"
  shows "py_strip s \<noteq> []"
proof
  assume "py_strip s = []"
  then have "\<forall>x\<in>set (dropWhile py_isspace s). py_isspace x"
    by (simp add: py_strip_def py_rstrip_def py_lstrip_def dropWhile_eq_Nil_conv)
  then have "dropWhile py_isspace s = []"
    using hd_dropWhile [of py_isspace s] by (cases "dropWhile py_isspace s") auto
  then show False
    using assms by (simp add: dropWhile_eq_Nil_conv)
qed

lemma py_in_absent: "op \<noteq> [] \<Longrightarrow> hd op \<notin> set s \<Longrightarrow> \<not> py_in op s"
  by (simp add: py_in_def py_find_def find_from_absent)

text \<open>a condition written with \<open>contains\<close> is always met. The orchestrator makes its
  independent review depend on \<open>{{run-gates.output}} contains 'GATES: PASS'\<close>; the language has no such
  operator, so the text is only tested for being non-empty, and it holds whatever the gates
  printed.\<close>

theorem contains_condition_vacuous:
  assumes "map_of (wr_nodes run) ''run-gates'' = Some node" "map_of node ''output'' = Some (JStr out)"
    and "CHR ''{'' \<notin> set out" "CHR ''}'' \<notin> set out"
  shows "evaluate fl gates_condition run"
proof -
  let ?f = "\<lambda>ref. case resolve_ref ref run of None \<Rightarrow> [] | Some v \<Rightarrow> v"
  let ?t = "out @ drop 20 gates_condition"
  have sub: "sub_templates ?f gates_condition = ?t"
    using sub_gates_condition [of ?f] resolve_gates_output [OF assms(1,2)] by simp
  have tail: "CHR ''{'' \<notin> set (drop 20 gates_condition)" "CHR ''}'' \<notin> set (drop 20 gates_condition)"
    "CHR ''c'' \<in> set (drop 20 gates_condition)" "\<not> py_isspace (CHR ''c'')"
    by code_simp+
  have "\<not> py_in ''{{'' ?t" "\<not> py_in ''}}'' ?t"
    using assms(3,4) tail by (simp_all add: py_in_absent)
  then have "cond_resolve gates_condition run = (?t, False)"
    using resolve_gates_output [OF assms(1,2)]
    unfolding cond_resolve_def Let_def sub gates_condition_refs by simp
  moreover have "py_strip ?t \<noteq> []"
    using tail(3,4) by (intro strip_nonempty [of "CHR ''c''"]) auto
  ultimately show ?thesis
    using gates_condition_no_op by (simp add: evaluate_def)
qed

definition failed_gates_run :: wf_run where
  "failed_gates_run = sample_run\<lparr>wr_nodes :=
     [(''run-gates'', [(''status'', JStr ''completed''), (''output'', JStr ''GATES: FAIL'')])]\<rparr>"

theorem contains_condition_vacuous_witness:
  "evaluate sample_floats gates_condition failed_gates_run"
  by (rule contains_condition_vacuous [of _
        "[(''status'', JStr ''completed''), (''output'', JStr ''GATES: FAIL'')]" "''GATES: FAIL''"])
    (simp_all add: failed_gates_run_def)

end
