(* ===== verification/Workflow_State.thy ===== *)
theory Workflow_State
  imports Workflow_Engine
begin

text \<open>
  The workflow state commands (\<open>control/execution/workflow/state\_commands.py\<close> over
  \<open>state\_io.py\<close> and \<open>state\_telemetry.py\<close>) and the runner's own writer (\<open>_update_node\<close> of
  \<open>runner.py\<close>). The disk is the record \<open>wf_disk\<close>: the file \<open>workflows.json\<close>, the checkpoint, and
  the runs whose completion was written to the spool. What a command prints is left out, except
  for the answer of \<open>next\<close>. Clock readings are parameters, as is whether the spool accepts the
  completion events (\<open>spool_ok\<close>); every \<open>sys.exit(1)\<close> is a \<open>cmd_error\<close>.
\<close>

section \<open>Files\<close>

datatype cmd_error =
    ReadError
  | SchemaTooNew
  | WorkflowNotFound
  | NodeNotInWorkflow
  | YamlFileNotFound
  | NoNodesFound
  | Raised

datatype state_file = NoFile | Garbled | Stored int "(string \<times> wf_run) list"

record checkpoint =
  cp_workflow_key :: string
  cp_last_node :: "string option"
  cp_status :: string

record wf_disk =
  dk_state :: state_file
  dk_checkpoint :: "checkpoint option"
  dk_archived :: "(string \<times> wf_run) list"

definition SCHEMA_VERSION :: int where "SCHEMA_VERSION = 1"

definition TERMINAL :: "string list" where
  "TERMINAL = [''completed'', ''completed_with_failures'', ''aborted'']"

definition read_state :: "wf_disk \<Rightarrow> cmd_error + (string \<times> wf_run) list" where
  "read_state dk =
     (case dk_state dk of
        NoFile \<Rightarrow> Inr []
      | Garbled \<Rightarrow> Inl ReadError
      | Stored v active \<Rightarrow> if SCHEMA_VERSION < v then Inl SchemaTooNew else Inr active)"

definition write_state :: "(string \<times> wf_run) list \<Rightarrow> wf_disk \<Rightarrow> wf_disk" where
  "write_state active dk = dk\<lparr>dk_state := Stored SCHEMA_VERSION active\<rparr>"

definition write_checkpoint :: "string \<Rightarrow> string option \<Rightarrow> string \<Rightarrow> wf_disk \<Rightarrow> wf_disk" where
  "write_checkpoint key node status dk =
     dk\<lparr>dk_checkpoint := Some \<lparr>cp_workflow_key = key, cp_last_node = node, cp_status = status\<rparr>\<rparr>"

definition get_workflow :: "(string \<times> wf_run) list \<Rightarrow> string \<Rightarrow> cmd_error + wf_run" where
  "get_workflow active key =
     (case map_of active key of None \<Rightarrow> Inl WorkflowNotFound | Some run \<Rightarrow> Inr run)"

text \<open>\<open>_try_archive_and_prune\<close>: the run leaves the file once the spool has its completion.\<close>

definition archive_and_prune :: "bool \<Rightarrow> (string \<times> wf_run) list \<Rightarrow> string \<Rightarrow> wf_run \<Rightarrow> wf_disk \<Rightarrow> wf_disk" where
  "archive_and_prune spool_ok active key run dk =
     (if spool_ok
      then write_state (filter (\<lambda>kr. fst kr \<noteq> key) active) (dk\<lparr>dk_archived := dk_archived dk @ [(key, run)]\<rparr>)
      else dk)"

section \<open>Starting\<close>

text \<open>An id as the key of a JSON object.\<close>

fun json_key :: "yaml \<Rightarrow> wf_exn + string" where
  "json_key (YStr s) = Inr s"
| "json_key (YInt i) = Inr (int_str i)"
| "json_key YTrue = Inr ''true''"
| "json_key YNone = Inr ''null''"
| "json_key _ = Inl TypeErr"

definition extract_node_ids :: "string \<Rightarrow> yaml list" where
  "extract_node_ids t = List.map_filter (\<lambda>n. map_of n ''id'') (wd_nodes (parse_workflow t))"

fun initial_nodes :: "yaml list \<Rightarrow> (string \<times> snode) list \<Rightarrow> wf_exn + (string \<times> snode) list" where
  "initial_nodes [] acc = Inr acc"
| "initial_nodes (i # is) acc =
     and_then (json_key i) (\<lambda>k. initial_nodes is (AList.update k [(''status'', JStr ''pending'')] acc))"

definition find_resumable :: "(string \<times> wf_run) list \<Rightarrow> string \<Rightarrow> (string \<times> wf_run) option" where
  "find_resumable active name =
     find (\<lambda>kr. wr_workflow (snd kr) = name \<and> wr_status (snd kr) \<notin> set TERMINAL) active"

definition new_run :: "string \<Rightarrow> string \<Rightarrow> string \<Rightarrow> (string \<times> snode) list \<Rightarrow> string \<Rightarrow> wf_run" where
  "new_run name now yaml_path nodes work_order =
     \<lparr>wr_workflow = name, wr_started = now, wr_status = ''running'', wr_current = None,
      wr_yaml_path = yaml_path, wr_nodes = nodes, wr_completed = [], wr_gates_passed = [],
      wr_gates_pending = [], wr_params = [(''work_order_id'', work_order)], wr_session_dir = None\<rparr>"

text \<open>The part of \<open>cmd_start\<close> under the lock; \<open>file\<close> reads a file, \<open>resolved\<close> is the absolute path.
  It also returns the data it keeps in memory for the snapshot that follows.\<close>

definition start_locked ::
    "(string \<Rightarrow> string option) \<Rightarrow> string \<Rightarrow> string \<Rightarrow> string \<Rightarrow> string \<Rightarrow> string \<Rightarrow> string \<Rightarrow> wf_disk
      \<Rightarrow> cmd_error + (string \<times> (string \<times> wf_run) list option) \<times> wf_disk" where
  "start_locked file name yaml_path resolved epoch now work_order dk =
     (case file yaml_path of
        None \<Rightarrow> Inl YamlFileNotFound
      | Some t \<Rightarrow>
          if extract_node_ids t = [] then Inl NoNodesFound
          else and_then (read_state dk) (\<lambda>active.
            (case find_resumable active name of
               Some (key, run) \<Rightarrow>
                 Inr ((key, None), write_checkpoint key (wr_current run) ''running'' (write_state active dk))
             | None \<Rightarrow>
                 (case initial_nodes (extract_node_ids t) [] of
                    Inl _ \<Rightarrow> Inl Raised
                  | Inr nodes \<Rightarrow>
                      (let key = name @ ''-'' @ epoch;
                           active' = AList.update key (new_run name now resolved nodes work_order) active in
                       Inr ((key, Some active'), write_checkpoint key None ''running'' (write_state active' dk)))))))"

text \<open>\<open>_generate_repo_context\<close>: after the lock is released, the data read under it is written again
  with the session directory; None when the snapshot failed.\<close>

definition write_repo_context ::
    "string option \<Rightarrow> string \<Rightarrow> (string \<times> wf_run) list \<Rightarrow> wf_disk \<Rightarrow> wf_disk" where
  "write_repo_context session_dir key active dk =
     (case session_dir of
        None \<Rightarrow> dk
      | Some d \<Rightarrow> write_state (AList.map_entry key (\<lambda>r. r\<lparr>wr_session_dir := Some d\<rparr>) active) dk)"

definition cmd_start ::
    "(string \<Rightarrow> string option) \<Rightarrow> string option \<Rightarrow> string \<Rightarrow> string \<Rightarrow> string \<Rightarrow> string \<Rightarrow> string
      \<Rightarrow> string \<Rightarrow> wf_disk \<Rightarrow> cmd_error + string \<times> wf_disk" where
  "cmd_start file session_dir name yaml_path resolved epoch now work_order dk =
     and_then (start_locked file name yaml_path resolved epoch now work_order dk) (\<lambda>((key, fresh), dk').
       Inr (key, (case fresh of None \<Rightarrow> dk' | Some active \<Rightarrow> write_repo_context session_dir key active dk')))"

section \<open>Updating a node\<close>

definition update_snode ::
    "string \<Rightarrow> string \<Rightarrow> string option \<Rightarrow> string option \<Rightarrow> snode \<Rightarrow> snode" where
  "update_snode now status output duration n =
     (let n = AList.update ''status'' (JStr status) n;
          n = (if status = ''running'' \<and> map_of n ''started'' = None
               then AList.update ''started'' (JStr now) n else n);
          n = (if status \<in> {''completed'', ''failed'', ''skipped''}
               then AList.update ''finished'' (JStr now) n else n);
          n = (case output of None \<Rightarrow> n | Some v \<Rightarrow> AList.update ''output'' (JStr v) n) in
      (case duration of None \<Rightarrow> n | Some v \<Rightarrow> AList.update ''duration_s'' (JNum v) n))"

definition mark_completed :: "string \<Rightarrow> string \<Rightarrow> wf_run \<Rightarrow> wf_run" where
  "mark_completed nid status run =
     (if status = ''completed'' \<and> nid \<notin> set (wr_completed run)
      then run\<lparr>wr_completed := wr_completed run @ [nid]\<rparr> else run)"

abbreviation statuses :: "wf_run \<Rightarrow> jval option list" where
  "statuses run \<equiv> map (\<lambda>kn. node_status (snd kn)) (wr_nodes run)"

definition derive_status :: "wf_run \<Rightarrow> wf_run" where
  "derive_status run =
     (if list_all (\<lambda>s. s \<in> Some ` JStr ` {''completed'', ''skipped''}) (statuses run)
      then run\<lparr>wr_status := ''completed''\<rparr>
      else if list_all (\<lambda>s. s \<in> Some ` JStr ` {''completed'', ''skipped'', ''failed''}) (statuses run)
      then run\<lparr>wr_status := ''completed_with_failures''\<rparr>
      else run)"

text \<open>The change to the run, with the node already looked up.\<close>

definition update_run ::
    "string \<Rightarrow> string \<Rightarrow> string \<Rightarrow> string option \<Rightarrow> string option \<Rightarrow> wf_run \<Rightarrow> wf_run" where
  "update_run now nid status output duration run =
     derive_status ((mark_completed nid status run)
       \<lparr>wr_nodes := AList.map_entry nid (update_snode now status output duration) (wr_nodes run),
        wr_current := Some nid\<rparr>)"

definition cmd_update ::
    "bool \<Rightarrow> string \<Rightarrow> string \<Rightarrow> string \<Rightarrow> string \<Rightarrow> string option \<Rightarrow> string option \<Rightarrow> wf_disk
      \<Rightarrow> cmd_error + wf_disk" where
  "cmd_update spool_ok now key nid status output duration dk =
     and_then (read_state dk) (\<lambda>active.
     and_then (get_workflow active key) (\<lambda>run.
       if map_of (wr_nodes run) nid = None then Inl NodeNotInWorkflow
       else
         (let run' = update_run now nid status output duration run;
              active' = AList.update key run' active;
              dk' = write_state active' dk in
          Inr (write_checkpoint key (Some nid) status
            (if wr_status run' \<in> set TERMINAL then archive_and_prune spool_ok active' key run' dk' else dk')))))"

text \<open>The runner's writer: it creates a missing node, records whether the runner executed the node,
  never archives, and gives up silently when the file or the run is missing. The state file keeps
  the schema version it had.\<close>

definition runner_update_node ::
    "string \<Rightarrow> string \<Rightarrow> string \<Rightarrow> string \<Rightarrow> string option \<Rightarrow> string option \<Rightarrow> bool option \<Rightarrow> wf_disk \<Rightarrow> wf_disk" where
  "runner_update_node now key nid status output duration executed dk =
     (case dk_state dk of
        Stored v active \<Rightarrow>
          (case map_of active key of
             None \<Rightarrow> dk
           | Some run \<Rightarrow>
               (let nodes = (if map_of (wr_nodes run) nid = None then wr_nodes run @ [(nid, [])] else wr_nodes run);
                    run1 = (mark_completed nid status run)
                      \<lparr>wr_nodes := AList.map_entry nid (\<lambda>n.
                         (case executed of None \<Rightarrow> update_snode now status output duration n
                          | Some b \<Rightarrow> AList.update ''executed'' (JBool b) (update_snode now status output duration n))) nodes,
                       wr_current := Some nid\<rparr> in
                write_checkpoint key (Some nid) status
                  (dk\<lparr>dk_state := Stored v (AList.update key (derive_status run1) active)\<rparr>)))
      | _ \<Rightarrow> dk)"

section \<open>Gates and cancelling\<close>

definition cmd_pause :: "string \<Rightarrow> string \<Rightarrow> string \<Rightarrow> wf_disk \<Rightarrow> cmd_error + wf_disk" where
  "cmd_pause key nid gate dk =
     and_then (read_state dk) (\<lambda>active.
     and_then (get_workflow active key) (\<lambda>run.
       let run' = run\<lparr>wr_status := ''paused'', wr_current := Some nid,
                      wr_gates_pending := (if gate \<in> set (wr_gates_pending run) then wr_gates_pending run
                                           else wr_gates_pending run @ [gate])\<rparr> in
       Inr (write_checkpoint key (Some nid) ''paused'' (write_state (AList.update key run' active) dk))))"

text \<open>An f-string prints a missing current node as \<open>None\<close>.\<close>

definition shown_node :: "string option \<Rightarrow> string" where
  "shown_node n = (case n of None \<Rightarrow> ''None'' | Some s \<Rightarrow> s)"

definition pass_gate :: "wf_run \<Rightarrow> wf_run" where
  "pass_gate run =
     (case wr_gates_pending run of
        [] \<Rightarrow> run
      | gate # rest \<Rightarrow> run\<lparr>wr_gates_pending := rest,
          wr_gates_passed := wr_gates_passed run @ [shown_node (wr_current run) @ '':'' @ gate]\<rparr>)"

definition cmd_resume :: "string \<Rightarrow> wf_disk \<Rightarrow> cmd_error + wf_disk" where
  "cmd_resume key dk =
     and_then (read_state dk) (\<lambda>active.
     and_then (get_workflow active key) (\<lambda>run.
       let run' = (pass_gate run)\<lparr>wr_status := ''running''\<rparr> in
       Inr (write_checkpoint key (wr_current run') ''running'' (write_state (AList.update key run' active) dk))))"

definition abort_snode :: "snode \<Rightarrow> snode" where
  "abort_snode n =
     (if node_status n \<in> Some ` JStr ` {''pending'', ''running'', ''blocked_by_deps''}
      then AList.update ''status'' (JStr ''skipped'') n else n)"

definition cmd_abort :: "bool \<Rightarrow> string \<Rightarrow> wf_disk \<Rightarrow> cmd_error + wf_disk" where
  "cmd_abort spool_ok key dk =
     and_then (read_state dk) (\<lambda>active.
     and_then (get_workflow active key) (\<lambda>run.
       let run' = run\<lparr>wr_nodes := map (\<lambda>(k, n). (k, abort_snode n)) (wr_nodes run), wr_status := ''aborted''\<rparr>;
           active' = AList.update key run' active in
       Inr (write_checkpoint key (wr_current run') ''aborted''
         (archive_and_prune spool_ok active' key run' (write_state active' dk)))))"

section \<open>Asking for the next nodes\<close>

datatype next_answer =
    NextPaused
  | NextDone
  | NextWaiting "string list"
  | NextBlocked
  | NextNothing
  | NextSkippedForBudget "yaml list"
  | NextReady "yaml list"

definition merge_snode :: "snode \<Rightarrow> snode \<Rightarrow> snode" where
  "merge_snode upd n = fold (\<lambda>(k, v). AList.update k v) upd n"

text \<open>\<open>wf2.get("nodes", {}).setdefault(nid, {}).update(upd nid)\<close> for each of the nodes.\<close>

definition write_nodes :: "(string \<Rightarrow> snode) \<Rightarrow> string list \<Rightarrow> wf_run \<Rightarrow> wf_run" where
  "write_nodes upd nids run =
     run\<lparr>wr_nodes := fold (\<lambda>nid nodes.
       AList.map_entry nid (merge_snode (upd nid))
         (if map_of nodes nid = None then nodes @ [(nid, [])] else nodes)) nids (wr_nodes run)\<rparr>"

definition rewrite_run ::
    "string \<Rightarrow> (wf_run \<Rightarrow> wf_run) \<Rightarrow> wf_disk \<Rightarrow> cmd_error + wf_disk" where
  "rewrite_run key f dk =
     and_then (read_state dk) (\<lambda>active. Inr (write_state (AList.map_entry key f active) dk))"

definition skip_fields :: "string \<Rightarrow> string \<Rightarrow> snode" where
  "skip_fields now why = [(''status'', JStr ''skipped''), (''finished'', JStr now), (''output'', JStr why)]"

definition running_nodes :: "(string \<times> snode) list \<Rightarrow> string list" where
  "running_nodes st = map fst (filter (\<lambda>kn. node_status (snd kn) = Some (JStr ''running'')) st)"

text \<open>The budget message has a dash between its clauses, written here as a comma. The ready and skipped ids are keys of the state, hence strings.\<close>

abbreviation names :: "yaml list \<Rightarrow> string list" where
  "names \<equiv> List.map_filter ystr"

definition cmd_next ::
    "'f float_ops \<Rightarrow> (string \<Rightarrow> string option) \<Rightarrow> budget \<Rightarrow> string \<Rightarrow> string \<Rightarrow> wf_disk
      \<Rightarrow> cmd_error + next_answer \<times> wf_disk" where
  "cmd_next fl file budget now key dk =
     and_then (read_state dk) (\<lambda>active.
     and_then (get_workflow active key) (\<lambda>run.
       if wr_status run = ''paused'' then Inr (NextPaused, dk)
       else if wr_status run \<in> set TERMINAL then Inr (NextDone, dk)
       else (case file (wr_yaml_path run) of
         None \<Rightarrow> Inl YamlFileNotFound
       | Some t \<Rightarrow>
         (case and_then (index_nodes (wd_nodes (parse_workflow t)) [])
                 (\<lambda>ys. compute_ready_nodes fl ys (wr_nodes run) run) of
            Inl _ \<Rightarrow> Inl Raised
          | Inr (ready, skipped) \<Rightarrow>
              and_then (if skipped = [] then Inr dk
                        else rewrite_run key (write_nodes (\<lambda>nid.
                               merge_snode (skip_fields now ''SKIPPED: condition false'')
                                 (state_node (wr_nodes run) (YStr nid))) (names skipped)) dk) (\<lambda>dk'.
              if ready = [] then
                (let still = running_nodes (wr_nodes (write_nodes (\<lambda>_. skip_fields now []) (names skipped) run)) in
                 if still \<noteq> [] then Inr (NextWaiting still, dk')
                 else if skipped = [] then Inr (NextBlocked, dk')
                 else Inr (NextNothing, dk'))
              else if 1 < length ready \<and> budget = BudgetBlock then
                and_then (rewrite_run key (write_nodes (\<lambda>nid.
                    skip_fields now ''WARNING: parallel dispatch skipped, context budget too high'')
                    (names ready)) dk') (\<lambda>dk''.
                Inr (NextSkippedForBudget ready,
                     write_checkpoint key (Some (hd (names ready))) ''skipped'' dk''))
              else Inr (NextReady ready, dk'))))))"

end
