(* ===== verification/Workflow_Runs.thy ===== *)
theory Workflow_Runs
  imports Workflow_State
begin

text \<open>
  What holds along sequences of workflow commands: an invariant of \<open>workflows.json\<close> that every
  command keeps, the laws of the single commands, the completion of an accepted workflow whose
  ready nodes are completed one after the other, and two ways in which the commands lose work.
\<close>

section \<open>The invariant of a run\<close>

definition run_ok :: "wf_run \<Rightarrow> bool" where
  "run_ok run \<longleftrightarrow> distinct (map fst (wr_nodes run)) \<and> wr_nodes run \<noteq> []
     \<and> list_all (\<lambda>kn. node_status (snd kn) \<noteq> None) (wr_nodes run)
     \<and> distinct (wr_completed run) \<and> set (wr_completed run) \<subseteq> set (map fst (wr_nodes run))"

definition active_ok :: "(string \<times> wf_run) list \<Rightarrow> bool" where
  "active_ok active \<longleftrightarrow> distinct (map fst active) \<and> list_all (\<lambda>kr. run_ok (snd kr)) active"

definition disk_ok :: "wf_disk \<Rightarrow> bool" where
  "disk_ok dk = (case dk_state dk of Stored v active \<Rightarrow> active_ok active | _ \<Rightarrow> True)"

lemma read_state_ok: "disk_ok dk \<Longrightarrow> read_state dk = Inr active \<Longrightarrow> active_ok active"
  by (auto simp: disk_ok_def read_state_def active_ok_def split: state_file.splits if_splits)

lemma write_state_ok [simp]: "disk_ok (write_state active dk) = active_ok active"
  by (simp add: disk_ok_def write_state_def)

lemma write_checkpoint_ok [simp]: "disk_ok (write_checkpoint k n s dk) = disk_ok dk"
  by (simp add: disk_ok_def write_checkpoint_def)

lemma read_write_state [simp]: "read_state (write_state active dk) = Inr active"
  by (simp add: read_state_def write_state_def)

lemma read_write_checkpoint [simp]: "read_state (write_checkpoint k n s dk) = read_state dk"
  by (simp add: read_state_def write_checkpoint_def)

lemma get_workflow_Inr [simp]: "get_workflow active key = Inr run \<longleftrightarrow> map_of active key = Some run"
  by (auto simp: get_workflow_def split: option.splits)

lemma active_ok_lookup: "active_ok active \<Longrightarrow> map_of active key = Some run \<Longrightarrow> run_ok run"
  by (force simp: active_ok_def list_all_iff dest: map_of_SomeD)

lemma alist_update_shadow: "AList.update k v (AList.update k v' d) = AList.update k v d"
  by (induction d) auto

lemma set_alist_update: "set (AList.update k v d) \<subseteq> insert (k, v) (set d)"
  by (induction d) auto

lemma active_ok_update:
  assumes "active_ok active" "run_ok run"
  shows "active_ok (AList.update key run active)"
  using assms set_alist_update [of key run active]
  by (auto simp: active_ok_def list_all_iff distinct_update)

lemma active_ok_filter: "active_ok active \<Longrightarrow> active_ok (filter P active)"
  by (auto simp: active_ok_def list_all_iff distinct_map_filter)

lemma set_map_entry: "x \<in> set (AList.map_entry k f d) \<Longrightarrow> x \<in> set d \<or> (\<exists>v. (k, v) \<in> set d \<and> x = (k, f v))"
  by (induction d) (auto split: if_splits)

lemma archive_ok:
  "disk_ok dk \<Longrightarrow> active_ok active \<Longrightarrow> disk_ok (archive_and_prune b active key run dk)"
  by (simp add: archive_and_prune_def active_ok_filter)

section \<open>Operations on one run\<close>

text \<open>What every change to a run promises, and what a command that applies it to a stored run then
  keeps of the file.\<close>

locale run_operation =
  fixes f :: "wf_run \<Rightarrow> wf_run"
  assumes keeps_ok: "run_ok run \<Longrightarrow> run_ok (f run)"
begin

lemma stored_ok:
  assumes "active_ok active" "map_of active key = Some run"
  shows "active_ok (AList.update key (f run) active)"
  using assms by (intro active_ok_update keeps_ok active_ok_lookup)

lemma entry_ok: "active_ok active \<Longrightarrow> active_ok (AList.map_entry key f active)"
  using keeps_ok by (auto simp: active_ok_def list_all_iff dest!: set_map_entry)

lemma rewrite_ok:
  assumes "disk_ok dk" "rewrite_run key f dk = Inr dk'"
  shows "disk_ok dk'"
  using assms by (auto simp: rewrite_run_def and_then_Inr_iff dest!: read_state_ok intro: entry_ok)

end

lemma node_status_update [simp]:
  "node_status (AList.update k v n) = (if k = ''status'' then Some v else node_status n)"
  by (simp add: node_status_def update_conv')

lemma update_snode_status: "node_status (update_snode now status output duration n) = Some (JStr status)"
  by (simp add: update_snode_def Let_def split: option.split)

lemma derive_status_fields [simp]:
  "wr_nodes (derive_status run) = wr_nodes run" "wr_completed (derive_status run) = wr_completed run"
  by (simp_all add: derive_status_def)

lemma mark_completed_fields [simp]: "wr_nodes (mark_completed nid status run) = wr_nodes run"
  by (simp add: mark_completed_def)

lemma list_all_map_entry:
  "list_all P d \<Longrightarrow> (\<And>v. P (k, v) \<Longrightarrow> P (k, f v)) \<Longrightarrow> list_all P (AList.map_entry k f d)"
  by (induction d) auto

lemma run_ok_mark:
  "run_ok run \<Longrightarrow> nid \<in> set (map fst (wr_nodes run)) \<Longrightarrow>
     distinct (wr_completed (mark_completed nid status run))
     \<and> set (wr_completed (mark_completed nid status run)) \<subseteq> set (map fst (wr_nodes run))"
  by (auto simp: run_ok_def mark_completed_def)

lemma map_entry_nonempty [simp]: "AList.map_entry k f d = [] \<longleftrightarrow> d = []"
  by (cases d) auto

lemma update_run_ok:
  assumes "run_ok run" "map_of (wr_nodes run) nid \<noteq> None"
  shows "run_ok (update_run now nid status output duration run)"
proof -
  have nid: "nid \<in> set (map fst (wr_nodes run))"
    using assms(2) by (metis map_of_eq_None_iff set_map)
  have "list_all (\<lambda>kn. node_status (snd kn) \<noteq> None)
      (AList.map_entry nid (update_snode now status output duration) (wr_nodes run))"
    using assms(1) by (intro list_all_map_entry) (simp_all add: run_ok_def update_snode_status)
  then show ?thesis
    using run_ok_mark [OF assms(1) nid, of status] assms(1)
    unfolding run_ok_def update_run_def by simp
qed

text \<open>A change that leaves nodes and completed list as they are.\<close>

lemma run_ok_same:
  "run_ok run \<Longrightarrow> wr_nodes run' = wr_nodes run \<Longrightarrow> wr_completed run' = wr_completed run \<Longrightarrow> run_ok run'"
  by (simp add: run_ok_def)

definition pause_run :: "string \<Rightarrow> string \<Rightarrow> wf_run \<Rightarrow> wf_run" where
  "pause_run nid gate run = run\<lparr>wr_status := ''paused'', wr_current := Some nid,
     wr_gates_pending := (if gate \<in> set (wr_gates_pending run) then wr_gates_pending run
                          else wr_gates_pending run @ [gate])\<rparr>"

definition resume_run :: "wf_run \<Rightarrow> wf_run" where
  "resume_run run = (pass_gate run)\<lparr>wr_status := ''running''\<rparr>"

definition abort_run :: "wf_run \<Rightarrow> wf_run" where
  "abort_run run = run\<lparr>wr_nodes := map (\<lambda>(k, n). (k, abort_snode n)) (wr_nodes run), wr_status := ''aborted''\<rparr>"

lemma pass_gate_fields [simp]:
  "wr_nodes (pass_gate run) = wr_nodes run" "wr_completed (pass_gate run) = wr_completed run"
  "wr_current (pass_gate run) = wr_current run"
  by (simp_all add: pass_gate_def split: list.split)

interpretation pause: run_operation "pause_run nid gate"
  by unfold_locales (erule run_ok_same; simp add: pause_run_def)

interpretation resume: run_operation resume_run
  by unfold_locales (erule run_ok_same; simp add: resume_run_def)

interpretation context_snapshot: run_operation "\<lambda>r. r\<lparr>wr_session_dir := Some d\<rparr>"
  by unfold_locales (erule run_ok_same; simp)

lemma abort_snode_status:
  "node_status (abort_snode n) =
     (if node_status n \<in> Some ` JStr ` {''pending'', ''running'', ''blocked_by_deps''}
      then Some (JStr ''skipped'') else node_status n)"
  by (simp add: abort_snode_def)

lemma keys_of_mapped:
  "fst \<circ> (\<lambda>(k, n). (k, g n)) = fst" "(\<lambda>x. fst (case x of (k, n) \<Rightarrow> (k, g n))) = fst"
  by (simp_all add: fun_eq_iff split: prod.split)

lemma abort_nodes_status:
  "list_all (\<lambda>kn. node_status (snd kn) \<noteq> None) nodes \<Longrightarrow>
     list_all (\<lambda>kn. node_status (snd kn) \<noteq> None) (map (\<lambda>(k, n). (k, abort_snode n)) nodes)"
  by (induction nodes) (auto simp: abort_snode_status)

interpretation abort: run_operation abort_run
proof
  fix run
  assume "run_ok run"
  then show "run_ok (abort_run run)"
    using abort_nodes_status [of "wr_nodes run"]
    by (simp add: run_ok_def abort_run_def keys_of_mapped)
qed

section \<open>Every command keeps the file in order\<close>

lemma merge_snode_status:
  "node_status (merge_snode upd n) \<noteq> None \<longleftrightarrow> ''status'' \<in> fst ` set upd \<or> node_status n \<noteq> None"
proof -
  have "node_status (fold (\<lambda>(k, v). AList.update k v) upd n) \<noteq> None \<longleftrightarrow>
      ''status'' \<in> fst ` set upd \<or> node_status n \<noteq> None"
    by (induction upd arbitrary: n) (auto split: if_splits)
  then show ?thesis by (simp add: merge_snode_def)
qed

lemma write_nodes_ok:
  assumes "\<And>nid. node_status (upd nid) \<noteq> None"
  shows "run_operation (write_nodes upd nids)"
proof
  fix run
  assume ok: "run_ok run"
  have st: "node_status (merge_snode (upd nid) n) \<noteq> None" for nid n
    using assms [of nid] merge_snode_status [of "upd nid" n]
    by (force simp: node_status_def dest: map_of_SomeD)
  let ?step = "\<lambda>nid nodes. AList.map_entry nid (merge_snode (upd nid))
      (if map_of nodes nid = None then nodes @ [(nid, [])] else nodes)"
  let ?ok = "\<lambda>nodes. distinct (map fst nodes) \<and> nodes \<noteq> []
      \<and> (\<forall>kn\<in>set nodes. node_status (snd kn) \<noteq> None) \<and> set (map fst (wr_nodes run)) \<subseteq> set (map fst nodes)"
  have entry: "kn \<in> set (AList.map_entry nid (merge_snode (upd nid)) (nodes @ [(nid, [])])) \<Longrightarrow>
      nid \<notin> fst ` set nodes \<Longrightarrow> (\<forall>kn\<in>set nodes. node_status (snd kn) \<noteq> None) \<Longrightarrow>
      node_status (snd kn) \<noteq> None" for kn nid nodes
    using st by (induction nodes) (auto split: if_splits)
  have step: "?ok (?step nid nodes)" if "?ok nodes" for nid nodes
  proof (cases "map_of nodes nid = None")
    case True
    then have "nid \<notin> fst ` set nodes"
      by (simp add: map_of_eq_None_iff)
    then show ?thesis
      using that True entry [of _ nid nodes] by auto
  next
    case False
    then show ?thesis
      using that st by (auto dest!: set_map_entry)
  qed
  have "?ok (fold ?step nids (wr_nodes run))"
    using ok by (intro fold_invariant_run [where P = ?ok] step) (simp_all add: run_ok_def list_all_iff)
  then show "run_ok (write_nodes upd nids run)"
    using ok by (auto simp: run_ok_def write_nodes_def list_all_iff)
qed

lemma cmd_update_ok:
  assumes "disk_ok dk" "cmd_update spool_ok now key nid status output duration dk = Inr dk'"
  shows "disk_ok dk'"
proof -
  obtain active run where r: "read_state dk = Inr active" "map_of active key = Some run"
      "map_of (wr_nodes run) nid \<noteq> None"
    using assms(2) by (auto simp: cmd_update_def and_then_Inr_iff split: if_splits)
  have active: "active_ok active"
    using read_state_ok [OF assms(1) r(1)] .
  have "active_ok (AList.update key (update_run now nid status output duration run) active)"
    using active_ok_update [OF active update_run_ok [OF active_ok_lookup [OF active r(2)] r(3)]] .
  then show ?thesis
    using assms(2) r by (auto simp: cmd_update_def Let_def get_workflow_def archive_ok split: if_splits)
qed

lemma cmd_pause_ok:
  assumes "disk_ok dk" "cmd_pause key nid gate dk = Inr dk'"
  shows "disk_ok dk'"
  using assms pause.stored_ok
  by (auto simp: cmd_pause_def and_then_Inr_iff Let_def pause_run_def dest!: read_state_ok)

lemma cmd_resume_ok:
  assumes "disk_ok dk" "cmd_resume key dk = Inr dk'"
  shows "disk_ok dk'"
  using assms resume.stored_ok
  by (auto simp: cmd_resume_def and_then_Inr_iff Let_def resume_run_def dest!: read_state_ok)

lemma cmd_abort_ok:
  assumes "disk_ok dk" "cmd_abort spool_ok key dk = Inr dk'"
  shows "disk_ok dk'"
  using assms abort.stored_ok
  by (auto simp: cmd_abort_def and_then_Inr_iff Let_def abort_run_def archive_ok dest!: read_state_ok)

lemma initial_nodes_ok:
  "initial_nodes is acc = Inr nodes \<Longrightarrow> distinct (map fst acc) \<Longrightarrow>
     list_all (\<lambda>kn. node_status (snd kn) \<noteq> None) acc \<Longrightarrow>
     distinct (map fst nodes) \<and> list_all (\<lambda>kn. node_status (snd kn) \<noteq> None) nodes
     \<and> (is \<noteq> [] \<or> acc \<noteq> [] \<longrightarrow> nodes \<noteq> [])"
proof (induction "is" acc rule: initial_nodes.induct)
  case (2 i "is" acc)
  then obtain k where k: "json_key i = Inr k"
      "initial_nodes is (AList.update k [(''status'', JStr ''pending'')] acc) = Inr nodes"
    by (auto simp: and_then_Inr_iff)
  have "list_all (\<lambda>kn. node_status (snd kn) \<noteq> None) (AList.update k [(''status'', JStr ''pending'')] acc)"
    using 2(4) set_alist_update [of k "[(''status'', JStr ''pending'')]" acc]
    by (auto simp: list_all_iff node_status_def)
  moreover have "AList.update k [(''status'', JStr ''pending'')] acc \<noteq> []"
    by (cases acc) auto
  ultimately show ?case
    using 2(1) [OF k(2)] 2(3) by (simp add: distinct_update)
qed simp

lemma start_locked_ok:
  assumes "disk_ok dk" "start_locked file name yp rp epoch now wo dk = Inr ((key, fresh), dk')"
  shows "disk_ok dk' \<and> (\<forall>active. fresh = Some active \<longrightarrow> active_ok active)"
proof -
  obtain t active where t: "extract_node_ids t \<noteq> []" "read_state dk = Inr active"
      "file yp = Some t"
    using assms(2) by (auto simp: start_locked_def and_then_Inr_iff split: option.splits if_splits)
  have active: "active_ok active"
    using read_state_ok [OF assms(1) t(2)] .
  show ?thesis
  proof (cases "find_resumable active name")
    case (Some kr)
    then show ?thesis
      using assms(2) t active by (cases kr) (auto simp: start_locked_def)
  next
    case None
    then obtain nodes where n: "initial_nodes (extract_node_ids t) [] = Inr nodes"
      using assms(2) t by (auto simp: start_locked_def split: sum.splits)
    have "run_ok (new_run name now rp nodes wo)"
      using initial_nodes_ok [OF n] t(1) by (simp add: run_ok_def new_run_def)
    then have "active_ok (AList.update k (new_run name now rp nodes wo) active)" for k
      using active by (rule active_ok_update [rotated])
    then show ?thesis
      using assms(2) t None n by (auto simp: start_locked_def Let_def)
  qed
qed

lemma cmd_start_ok:
  assumes "disk_ok dk" "cmd_start file d name yp rp epoch now wo dk = Inr (key, dk')"
  shows "disk_ok dk'"
proof -
  obtain fresh dk1 where s: "start_locked file name yp rp epoch now wo dk = Inr ((key, fresh), dk1)"
      "dk' = (case fresh of None \<Rightarrow> dk1 | Some active \<Rightarrow> write_repo_context d key active dk1)"
    using assms(2) by (auto simp: cmd_start_def and_then_Inr_iff)
  show ?thesis
    using start_locked_ok [OF assms(1) s(1)] s(2)
    by (auto simp: write_repo_context_def context_snapshot.entry_ok split: option.splits)
qed

lemma skip_fields_status [simp]: "node_status (skip_fields now why) = Some (JStr ''skipped'')"
  by (simp add: skip_fields_def node_status_def)

lemma merge_skip_status: "node_status (merge_snode (skip_fields now why) n) = Some (JStr ''skipped'')"
  by (simp add: merge_snode_def skip_fields_def)

lemma cmd_next_ok:
  assumes "disk_ok dk" "cmd_next fl file budget now key dk = Inr (answer, dk')"
  shows "disk_ok dk'"
proof -
  have skip: "disk_ok d \<Longrightarrow> rewrite_run key (write_nodes (\<lambda>nid. merge_snode (skip_fields now why)
      (state_node st (YStr nid))) ns) d = Inr d' \<Longrightarrow> disk_ok d'" for why st ns d d'
    by (rule run_operation.rewrite_ok [OF write_nodes_ok]) (simp_all add: merge_skip_status)
  have budget: "disk_ok d \<Longrightarrow> rewrite_run key (write_nodes (\<lambda>nid. skip_fields now why) ns) d = Inr d' \<Longrightarrow> disk_ok d'"
    for why ns d d'
    by (rule run_operation.rewrite_ok [OF write_nodes_ok]) simp_all
  show ?thesis
    using assms
    by (auto simp: cmd_next_def and_then_Inr_iff Let_def
        split: if_splits option.splits sum.splits prod.splits)
      (blast intro: skip budget)+
qed

lemma run_ok_add_node:
  assumes "run_ok run" "\<And>n. node_status (g n) \<noteq> None"
    and "nodes = (if map_of (wr_nodes run) nid = None then wr_nodes run @ [(nid, [])] else wr_nodes run)"
  shows "run_ok ((mark_completed nid status run)\<lparr>wr_nodes := AList.map_entry nid g nodes, wr_current := c\<rparr>)"
proof -
  have keys: "distinct (map fst nodes)" "nodes \<noteq> []" "set (wr_completed run) \<subseteq> set (map fst nodes)"
    "nid \<in> set (map fst nodes)"
    using assms(1,3) by (auto simp: run_ok_def map_of_eq_None_iff split: if_splits)
  have "node_status (snd kn) \<noteq> None" if "kn \<in> set (AList.map_entry nid g nodes)" for kn
  proof (cases "fst kn = nid")
    case True
    have "map_of (AList.map_entry nid g nodes) nid = Some (snd kn)"
      using that keys(1) True by (intro map_of_is_SomeI) (simp_all, metis prod.collapse)
    then obtain v where "g v = snd kn"
      by (auto simp: map_of_map_entry split: option.splits)
    then show ?thesis
      using assms(2) [of v] by metis
  next
    case False
    then have "kn \<in> set nodes"
      using set_map_entry [OF that] by auto
    then show ?thesis
      using assms(1,3) False by (auto simp: run_ok_def list_all_iff split: if_splits)
  qed
  then show ?thesis
    using assms(1) keys by (auto simp: run_ok_def list_all_iff mark_completed_def)
qed

lemma run_ok_derive [simp]: "run_ok (derive_status run) = run_ok run"
  by (simp add: run_ok_def)

lemma runner_update_node_ok:
  assumes "disk_ok dk"
  shows "disk_ok (runner_update_node now key nid status output duration executed dk)"
proof (cases "dk_state dk")
  case (Stored v active)
  show ?thesis
  proof (cases "map_of active key")
    case None
    then show ?thesis
      using assms Stored by (simp add: runner_update_node_def)
  next
    case (Some run)
    have active: "active_ok active"
      using assms Stored by (simp add: disk_ok_def)
    let ?g = "\<lambda>n. case executed of None \<Rightarrow> update_snode now status output duration n
        | Some b \<Rightarrow> AList.update ''executed'' (JBool b) (update_snode now status output duration n)"
    have "node_status (?g n) \<noteq> None" for n
      by (simp add: update_snode_status split: option.split)
    then have "active_ok (AList.update key (derive_status ((mark_completed nid status run)
        \<lparr>wr_nodes := AList.map_entry nid ?g (if map_of (wr_nodes run) nid = None
            then wr_nodes run @ [(nid, [])] else wr_nodes run), wr_current := Some nid\<rparr>)) active)"
      using active_ok_lookup [OF active Some]
      by (intro active_ok_update [OF active]) (simp only: run_ok_derive, rule run_ok_add_node [OF _ _ refl])
    then show ?thesis
      using Stored Some by (simp add: runner_update_node_def Let_def disk_ok_def write_checkpoint_def)
  qed
qed (use assms in \<open>simp_all add: runner_update_node_def\<close>)

section \<open>Sequences of commands\<close>

inductive wf_command :: "wf_disk \<Rightarrow> wf_disk \<Rightarrow> bool" where
  start: "cmd_start file d name yp rp epoch now wo dk = Inr (key, dk') \<Longrightarrow> wf_command dk dk'"
| update: "cmd_update spool_ok now key nid status output duration dk = Inr dk' \<Longrightarrow> wf_command dk dk'"
| runner: "wf_command dk (runner_update_node now key nid status output duration executed dk)"
| pause: "cmd_pause key nid gate dk = Inr dk' \<Longrightarrow> wf_command dk dk'"
| resume: "cmd_resume key dk = Inr dk' \<Longrightarrow> wf_command dk dk'"
| abort: "cmd_abort spool_ok key dk = Inr dk' \<Longrightarrow> wf_command dk dk'"
| next_nodes: "cmd_next (fl :: rat float_ops) file budget now key dk = Inr (answer, dk') \<Longrightarrow> wf_command dk dk'"

lemma wf_command_ok: "wf_command dk dk' \<Longrightarrow> disk_ok dk \<Longrightarrow> disk_ok dk'"
  by (induction rule: wf_command.induct)
    (auto intro: cmd_start_ok cmd_update_ok runner_update_node_ok cmd_pause_ok cmd_resume_ok cmd_abort_ok
      cmd_next_ok)

definition empty_disk :: wf_disk where
  "empty_disk = \<lparr>dk_state = NoFile, dk_checkpoint = None, dk_archived = []\<rparr>"

text \<open>C32: whatever commands run in whatever order, the state file stays in order: one entry per
  key, and in every run one entry per node, every node with a status, and a completed list without
  duplicates that names nodes of the run.\<close>

theorem workflow_file_invariant:
  assumes "wf_command\<^sup>*\<^sup>* empty_disk dk" "read_state dk = Inr active"
  shows "distinct (map fst active) \<and> list_all (\<lambda>(key, run).
      distinct (map fst (wr_nodes run)) \<and> wr_nodes run \<noteq> []
      \<and> list_all (\<lambda>kn. node_status (snd kn) \<noteq> None) (wr_nodes run)
      \<and> distinct (wr_completed run) \<and> set (wr_completed run) \<subseteq> set (map fst (wr_nodes run))) active"
proof -
  have "disk_ok dk"
    using assms(1)
  proof (induction rule: rtranclp_induct)
    case base
    then show ?case
      by (simp add: disk_ok_def empty_disk_def)
  qed (auto intro: wf_command_ok)
  then have "active_ok active"
    using assms(2) by (rule read_state_ok)
  then show ?thesis
    by (simp add: active_ok_def run_ok_def case_prod_unfold)
qed

definition sample_file :: "string \<Rightarrow> string option" where
  "sample_file p = (if p = ''/repo/ship.yaml''
     then Some (py_join [CHR 0x0A] (show_nodes sample_nodes)) else None)"

definition started_disk :: wf_disk where
  "started_disk = (case cmd_start sample_file None ''ship'' ''/repo/ship.yaml'' ''/repo/ship.yaml'' ''100'' ''t0'' ''wo-1''
      empty_disk of Inr (_, dk) \<Rightarrow> dk | Inl _ \<Rightarrow> empty_disk)"

lemma started_disk_start:
  "cmd_start sample_file None ''ship'' ''/repo/ship.yaml'' ''/repo/ship.yaml'' ''100'' ''t0'' ''wo-1'' empty_disk
     = Inr (''ship-100'', started_disk)"
  by code_simp

definition started_run :: wf_run where
  "started_run = new_run ''ship'' ''t0'' ''/repo/ship.yaml''
     (map (\<lambda>n. (fst n, [(''status'', JStr ''pending'')])) sample_nodes) ''wo-1''"

lemma started_disk_read: "read_state started_disk = Inr [(''ship-100'', started_run)]"
  by code_simp

theorem workflow_file_invariant_witness:
  "read_state started_disk = Inr [(''ship-100'', started_run)]
   \<and> distinct (map fst (wr_nodes started_run))"
proof -
  have "wf_command\<^sup>*\<^sup>* empty_disk started_disk"
    using wf_command.start [OF started_disk_start] by (rule r_into_rtranclp)
  then show ?thesis
    using workflow_file_invariant [OF _ started_disk_read] started_disk_read by simp
qed

section \<open>Laws of the commands\<close>

text \<open>Pausing at a gate and resuming brings the run back to running with exactly that gate
  recorded as passed at that node; nothing else of the file changes.\<close>

theorem pause_resume_passes_gate:
  assumes "read_state dk = Inr active" "map_of active key = Some run" "wr_gates_pending run = []"
  shows "\<exists>dk1 dk2. cmd_pause key nid gate dk = Inr dk1 \<and> cmd_resume key dk1 = Inr dk2
    \<and> read_state dk2 = Inr (AList.update key (run\<lparr>wr_status := ''running'', wr_current := Some nid,
        wr_gates_passed := wr_gates_passed run @ [nid @ '':'' @ gate]\<rparr>) active)"
  using assms
  by (cases run) (simp add: cmd_pause_def cmd_resume_def get_workflow_def update_conv' alist_update_shadow Let_def
      pass_gate_def shown_node_def)

theorem pause_resume_passes_gate_witness:
  "\<exists>dk1 dk2. cmd_pause ''ship-100'' ''build'' ''qa'' started_disk = Inr dk1 \<and> cmd_resume ''ship-100'' dk1 = Inr dk2
    \<and> read_state dk2 = Inr [(''ship-100'', started_run\<lparr>wr_current := Some ''build'', wr_gates_passed := [''build:qa'']\<rparr>)]"
proof -
  have "map_of [(''ship-100'', started_run)] ''ship-100'' = Some started_run"
    "wr_gates_pending started_run = []"
    by (simp_all add: started_run_def new_run_def)
  then show ?thesis
    using pause_resume_passes_gate [OF started_disk_read, of "''ship-100''" started_run "''build''" "''qa''"]
    by (simp add: started_run_def new_run_def)
qed

text \<open>Aborting settles a run: it is marked aborted with no node left pending, running or
  waiting for dependencies, and it leaves the state file exactly when the spool accepted its
  completion events; other runs are untouched.\<close>

theorem abort_settles:
  assumes "read_state dk = Inr active" "map_of active key = Some run" "distinct (map fst active)"
  shows "\<exists>dk' active'. cmd_abort spool_ok key dk = Inr dk' \<and> read_state dk' = Inr active'
    \<and> map_of active' key = (if spool_ok then None else Some (abort_run run))
    \<and> dk_archived dk' = dk_archived dk @ (if spool_ok then [(key, abort_run run)] else [])
    \<and> (\<forall>k. k \<noteq> key \<longrightarrow> map_of active' k = map_of active k)
    \<and> wr_status (abort_run run) = ''aborted''
    \<and> list_all (\<lambda>kn. node_status (snd kn) \<notin> Some ` JStr ` {''pending'', ''running'', ''blocked_by_deps''})
        (wr_nodes (abort_run run))"
proof -
  have "list_all (\<lambda>kn. node_status (snd kn) \<notin> Some ` JStr ` {''pending'', ''running'', ''blocked_by_deps''})
      (map (\<lambda>(k, n). (k, abort_snode n)) nodes)" for nodes :: "(string \<times> snode) list"
    by (induction nodes) (auto simp: abort_snode_status split: if_splits)
  moreover have "map_of (filter (\<lambda>kr. fst kr \<noteq> key) a) k = (if k = key then None else map_of a k)"
    for a :: "(string \<times> wf_run) list" and k
    by (induction a) auto
  ultimately show ?thesis
    using assms
    by (simp add: cmd_abort_def get_workflow_def Let_def archive_and_prune_def abort_run_def [symmetric]
        update_conv' write_state_def write_checkpoint_def read_state_def)
      (simp add: abort_run_def)
qed

theorem abort_settles_witness:
  "\<exists>dk'. cmd_abort True ''ship-100'' started_disk = Inr dk' \<and> read_state dk' = Inr []"
proof -
  have "map_of [(''ship-100'', started_run)] ''ship-100'' = Some started_run"
    "distinct (map fst [(''ship-100'', started_run)])"
    by simp_all
  then obtain dk' active' where a: "cmd_abort True ''ship-100'' started_disk = Inr dk'"
      "read_state dk' = Inr active'" "map_of active' ''ship-100'' = None"
      "\<forall>k. k \<noteq> ''ship-100'' \<longrightarrow> map_of active' k = map_of [(''ship-100'', started_run)] k"
    using abort_settles [OF started_disk_read, of "''ship-100''" started_run True] by auto
  have "map_of active' k = None" for k
    using a(3,4) by (cases "k = ''ship-100''") simp_all
  then have "active' = []"
    by (metis map_of_eq_empty_iff ext)
  then show ?thesis
    using a(1,2) by simp
qed

section \<open>An accepted workflow completes\<close>

text \<open>One turn of the loop that drives a run: ask which nodes are ready, complete one of them.\<close>

inductive drive_step :: "'f float_ops \<Rightarrow> (yaml \<times> wf_node) list \<Rightarrow> wf_run \<Rightarrow> wf_run \<Rightarrow> bool"
  for fl :: "'f float_ops" and ys :: "(yaml \<times> wf_node) list" where
  complete: "compute_ready_nodes fl ys (wr_nodes run) run = Inr (ready, skipped) \<Longrightarrow> YStr nid \<in> set ready \<Longrightarrow>
    drive_step fl ys run (update_run now nid ''completed'' output duration run)"

inductive_cases drive_stepE: "drive_step fl ys run run'"

abbreviation is_pending :: "snode \<Rightarrow> bool" where
  "is_pending n \<equiv> node_status n = Some (JStr ''pending'')"

definition pending_count :: "wf_run \<Rightarrow> nat" where
  "pending_count run = length (filter (\<lambda>kn. is_pending (snd kn)) (wr_nodes run))"

text \<open>A workflow without conditions whose nodes all use the default rule and have string ids.\<close>

definition plain_index :: "(yaml \<times> wf_node) list \<Rightarrow> bool" where
  "plain_index ys \<longleftrightarrow> (\<forall>x\<in>set ys. ystr (fst x) \<noteq> None \<and> trigger_rule (snd x) = YStr ''all_success''
     \<and> \<not> ytruthy (yget ''condition'' (snd x)))"

text \<open>The nodes of a driven run: those of the workflow, each pending or completed; the run is
  completed as soon as no node is pending.\<close>

definition driven :: "(yaml \<times> wf_node) list \<Rightarrow> wf_run \<Rightarrow> bool" where
  "driven ys run \<longleftrightarrow> map (\<lambda>kn. YStr (fst kn)) (wr_nodes run) = map fst ys
     \<and> distinct (map fst (wr_nodes run))
     \<and> (\<forall>kn\<in>set (wr_nodes run). node_status (snd kn) \<in> {Some (JStr ''pending''), Some (JStr ''completed'')})
     \<and> (wr_status run = ''completed'') = (pending_count run = 0)"

lemma pending_count_complete:
  "distinct (map fst nodes) \<Longrightarrow> map_of nodes nid = Some n \<Longrightarrow> is_pending n \<Longrightarrow> \<not> is_pending (g n) \<Longrightarrow>
     length (filter (\<lambda>kn. is_pending (snd kn)) nodes) =
     Suc (length (filter (\<lambda>kn. is_pending (snd kn)) (AList.map_entry nid g nodes)))"
  by (induction nodes) (auto split: if_splits)

lemma derive_status_completed:
  assumes "\<forall>kn\<in>set (wr_nodes run). node_status (snd kn) \<in> {Some (JStr ''pending''), Some (JStr ''completed'')}"
    and "wr_status run \<noteq> ''completed''"
  shows "(wr_status (derive_status run) = ''completed'') = (pending_count run = 0)"
proof -
  have "list_all (\<lambda>s. s \<in> Some ` JStr ` {''completed'', ''skipped''}) (statuses run) \<longleftrightarrow> pending_count run = 0"
    "list_all (\<lambda>s. s \<in> Some ` JStr ` {''completed'', ''skipped'', ''failed''}) (statuses run) \<longleftrightarrow> pending_count run = 0"
    using assms(1) by (auto simp: list_all_iff pending_count_def filter_empty_conv)
  then show ?thesis
    using assms(2) by (simp add: derive_status_def)
qed

lemma driven_state_node:
  assumes "driven ys run" "x \<in> set ys"
  obtains s n where "fst x = YStr s" "map_of (wr_nodes run) s = Some n" "state_node (wr_nodes run) (fst x) = n"
    "(s, n) \<in> set (wr_nodes run)"
proof -
  have "fst x \<in> set (map (\<lambda>kn. YStr (fst kn)) (wr_nodes run))"
    using assms by (simp add: driven_def)
  then obtain s n where "(s, n) \<in> set (wr_nodes run)" "fst x = YStr s"
    by auto
  moreover from this have "map_of (wr_nodes run) s = Some n"
    using assms(1) by (simp add: driven_def)
  ultimately show ?thesis
    using that by (simp add: state_node_def)
qed

lemma driven_at_rest:
  assumes "driven ys run" "plain_index ys"
    and "\<forall>x\<in>set ys. set (deps_of (snd x)) \<subseteq> fst ` set ys"
  shows "at_rest (wr_nodes run) ys"
proof -
  have st: "node_status (state_node (wr_nodes run) (fst x)) \<in> {Some (JStr ''pending''), Some (JStr ''completed'')}"
    if "x \<in> set ys" for x
    by (rule driven_state_node [OF assms(1) that]) (use assms(1) in \<open>auto simp: driven_def\<close>)
  then have dep: "dep_status (wr_nodes run) d \<in> PASSING \<union> {JStr ''pending''}" if "d \<in> fst ` set ys" for d
    using that by (fastforce simp: dep_status_def PASSING_def)
  show ?thesis
    unfolding at_rest_def using st dep assms(2,3)
    by (auto simp: plain_index_def SETTLED_def) (use st in fastforce)+
qed

lemma driven_step:
  assumes "driven ys run" "drive_step fl ys run run'"
  shows "driven ys run' \<and> pending_count run = Suc (pending_count run')"
proof -
  obtain ready skipped nid now out duration where
    1: "run' = update_run now nid ''completed'' out duration run"
      "compute_ready_nodes fl ys (wr_nodes run) run = Inr (ready, skipped)" "YStr nid \<in> set ready"
    using assms(2) by (rule drive_stepE)
  let ?g = "update_snode now ''completed'' out duration"
  obtain x where x: "x \<in> set ys" "fst x = YStr nid" "triggered (wr_nodes run) x"
    using compute_ready_eq [OF 1(2)] 1(3) by auto
  obtain n where n: "map_of (wr_nodes run) nid = Some n" "is_pending n"
    by (rule driven_state_node [OF assms(1) x(1)]) (use x(2,3) in \<open>auto simp: triggered_def\<close>)
  have dist: "distinct (map fst (wr_nodes run))"
    using assms(1) by (simp add: driven_def)
  have nodes: "wr_nodes run' = AList.map_entry nid ?g (wr_nodes run)"
    using 1(1) by (simp add: update_run_def)
  have count: "pending_count run = Suc (pending_count run')"
    unfolding pending_count_def nodes
    by (rule pending_count_complete [OF dist n]) (simp add: update_snode_status)
  have st: "\<forall>kn\<in>set (wr_nodes run'). node_status (snd kn) \<in> {Some (JStr ''pending''), Some (JStr ''completed'')}"
    using assms(1) unfolding nodes by (auto simp: driven_def update_snode_status dest!: set_map_entry)
  have names: "map (\<lambda>kn. YStr (fst kn)) (wr_nodes run') = map fst ys"
  proof -
    have "map (\<lambda>kn. YStr (fst kn)) d = map YStr (map fst d)" for d :: "(string \<times> snode) list"
      by simp
    then show ?thesis
      using assms(1) unfolding nodes driven_def by (metis keys_map_entry)
  qed
  let ?r = "(mark_completed nid ''completed'' run)\<lparr>wr_nodes := wr_nodes run', wr_current := Some nid\<rparr>"
  have "wr_status ?r \<noteq> ''completed''"
    using assms(1) count by (simp add: driven_def mark_completed_def)
  moreover have "run' = derive_status ?r"
    using 1(1) nodes by (simp add: update_run_def)
  ultimately have "(wr_status run' = ''completed'') = (pending_count ?r = 0)"
    using derive_status_completed [of ?r] st by simp
  then show ?thesis
    using count st names dist unfolding driven_def by (simp add: nodes pending_count_def)
qed

lemma driven_steps:
  "(drive_step fl ys ^^ k) run run' \<Longrightarrow> driven ys run \<Longrightarrow>
     driven ys run' \<and> pending_count run = k + pending_count run'"
proof (induction k arbitrary: run')
  case (Suc k)
  then obtain r where "(drive_step fl ys ^^ k) run r" "drive_step fl ys r run'"
    by auto
  then show ?case
    using Suc driven_step [of ys r fl run'] by auto
qed simp

lemma initial_nodes_strings:
  assumes "\<forall>i\<in>set is. ystr i \<noteq> None" "distinct (map (\<lambda>kn. YStr (fst kn)) acc @ is)"
  shows "initial_nodes is acc = Inr (acc @ map (\<lambda>i. (the (ystr i), [(''status'', JStr ''pending'')])) is)"
  using assms
proof (induction "is" arbitrary: acc)
  case (Cons i "is")
  then obtain s where i: "i = YStr s"
    by (cases i) auto
  have "s \<notin> fst ` set acc"
    using Cons.prems(2) i by force
  then show ?case
    using Cons i by (simp add: update_fresh)
qed simp

lemma new_run_driven:
  assumes "plain_index ys" "distinct (map fst ys)" "ys \<noteq> []" "initial_nodes (map fst ys) [] = Inr nodes"
  shows "driven ys (new_run name now p nodes wo) \<and> pending_count (new_run name now p nodes wo) = length ys"
proof -
  have str: "fst x = YStr (the (ystr (fst x)))" if "x \<in> set ys" for x
    using assms(1) that by (cases "fst x") (auto simp: plain_index_def)
  have nodes: "nodes = map (\<lambda>i. (the (ystr i), [(''status'', JStr ''pending'')])) (map fst ys)"
    using initial_nodes_strings [of "map fst ys" "[]"] assms by (auto simp: plain_index_def)
  have names: "map (\<lambda>kn. YStr (fst kn)) nodes = map fst ys"
    using str by (auto simp: nodes)
  then have "distinct (map YStr (map fst nodes))"
    using assms(2) by (simp add: comp_def)
  then have "distinct (map fst nodes)"
    using distinct_map by blast
  moreover have "filter (\<lambda>kn. is_pending (snd kn)) nodes = nodes"
    by (simp add: nodes filter_id_conv node_status_def)
  ultimately show ?thesis
    using names assms(3) by (auto simp: driven_def new_run_def pending_count_def nodes node_status_def)
qed

text \<open>A run with a pending node can go on.\<close>

lemma driven_goes_on:
  assumes "driven ys run" and "plain_index ys" and "acyclic (waits_for (map snd ys))"
    and known: "\<forall>x\<in>set ys. fst x = node_key (snd x) \<and> set (deps_of (snd x)) \<subseteq> fst ` set ys"
    and "\<exists>ready skipped. compute_ready_nodes fl ys (wr_nodes run) run = Inr (ready, skipped)" and "pending_count run \<noteq> 0"
  shows "\<exists>run'. drive_step fl ys run run'"
proof -
  obtain kn where kn: "kn \<in> set (wr_nodes run)" "is_pending (snd kn)"
    using assms(6) by (auto simp: pending_count_def filter_empty_conv)
  have "YStr (fst kn) \<in> set (map fst ys)"
    using assms(1) kn(1) by (metis (no_types, lifting) driven_def image_eqI set_map)
  then obtain x where x: "x \<in> set ys" "fst x = YStr (fst kn)"
    by auto
  have "map_of (wr_nodes run) (fst kn) = Some (snd kn)"
    using assms(1) kn(1) by (simp add: driven_def)
  then have pend: "is_pending (state_node (wr_nodes run) (fst x))"
    using x(2) kn(2) by (simp add: state_node_def)
  obtain ready skipped where r: "compute_ready_nodes fl ys (wr_nodes run) run = Inr (ready, skipped)"
    using assms(5) by blast
  have "skipped = []"
    using compute_ready_eq [OF r] assms(2) by (auto simp: plain_index_def condition_met_def filter_empty_conv)
  moreover have "at_rest (wr_nodes run) ys"
    using known by (intro driven_at_rest [OF assms(1,2)]) blast
  then have "ready \<noteq> [] \<or> skipped \<noteq> []"
    by (rule progress [OF r known assms(3) _ x(1) pend])
  ultimately have "hd ready \<in> set ready"
    by simp
  moreover from this have "hd ready \<in> fst ` set ys"
    using compute_ready_eq [OF r] by (metis (no_types, lifting) filter_is_subset image_mono set_map subsetD)
  then have "ystr (hd ready) \<noteq> None"
    using assms(2) by (auto simp: plain_index_def)
  then obtain nid where "hd ready = YStr nid"
    by (cases "hd ready") auto
  ultimately show ?thesis
    using drive_step.complete [OF r] by metis
qed



section \<open>Lost work\<close>

text \<open>Starting a workflow can undo another command. The second write of \<open>start\<close> happens after
  the lock is released and puts back the data read under it, so an update of another run that is
  committed in between is gone, while its command reported success.\<close>

theorem start_loses_updates:
  assumes "start_locked file name yp rp epoch now wo dk = Inr ((key, Some active), dk1)"
    and "cmd_update spool_ok now' other nid status output duration dk1 = Inr dk2" "other \<noteq> key"
    and "read_state (write_repo_context (Some d) key active dk2) = Inr final"
  shows "\<exists>run a2. read_state dk2 = Inr a2
    \<and> (if spool_ok \<and> wr_status (update_run now' nid status output duration run) \<in> set TERMINAL then map_of a2 other = None
        else map_of a2 other = Some (update_run now' nid status output duration run))
    \<and> map_of final other = Some run"
proof -
  have read: "read_state dk1 = Inr active"
    using assms(1) by (auto simp: start_locked_def and_then_Inr_iff Let_def split: option.splits if_splits sum.splits)
  then obtain run where run: "map_of active other = Some run" "map_of (wr_nodes run) nid \<noteq> None"
    using assms(2) by (auto simp: cmd_update_def and_then_Inr_iff split: if_splits)
  let ?r = "update_run now' nid status output duration run"
  let ?a2 = "if spool_ok \<and> wr_status ?r \<in> set TERMINAL
    then filter (\<lambda>kr. fst kr \<noteq> other) (AList.update other ?r active) else AList.update other ?r active"
  have "read_state dk2 = Inr ?a2"
    using assms(2) read run
    by (auto simp: cmd_update_def get_workflow_def Let_def archive_and_prune_def split: if_splits)
  moreover have "map_of (filter (\<lambda>kr. fst kr \<noteq> other) a) other = None" for a :: "(string \<times> wf_run) list"
    by (induction a) auto
  moreover have "map_of final other = Some run"
    using assms(3,4) run(1) by (auto simp: write_repo_context_def map_of_map_entry)
  ultimately show ?thesis
    by (intro exI [of _ run] exI [of _ ?a2]) (simp add: update_conv')
qed

definition other_disk :: wf_disk where
  "other_disk = \<lparr>dk_state = Stored 1 [(''fix-7'', started_run\<lparr>wr_workflow := ''fix''\<rparr>)], dk_checkpoint = None,
     dk_archived = []\<rparr>"

theorem start_loses_updates_witness:
  "\<exists>key active dk1 dk2 final. start_locked sample_file ''ship'' ''/repo/ship.yaml'' ''/repo/ship.yaml'' ''100'' ''t0'' ''wo-1'' other_disk
      = Inr ((key, Some active), dk1)
    \<and> cmd_update True ''t1'' ''fix-7'' ''plan'' ''completed'' None None dk1 = Inr dk2
    \<and> read_state (write_repo_context (Some ''/s'') key active dk2) = Inr final
    \<and> map_of final ''fix-7'' = Some (started_run\<lparr>wr_workflow := ''fix''\<rparr>)"
proof -
  let ?active = "[(''fix-7'', started_run\<lparr>wr_workflow := ''fix''\<rparr>), (''ship-100'', started_run)]"
  let ?dk1 = "write_checkpoint ''ship-100'' None ''running'' (write_state ?active other_disk)"
  have start: "start_locked sample_file ''ship'' ''/repo/ship.yaml'' ''/repo/ship.yaml'' ''100'' ''t0'' ''wo-1'' other_disk
      = Inr ((''ship-100'', Some ?active), ?dk1)"
    by code_simp
  obtain dk2 where upd: "cmd_update True ''t1'' ''fix-7'' ''plan'' ''completed'' None None ?dk1 = Inr dk2"
    by (simp add: cmd_update_def get_workflow_def started_run_def new_run_def sample_nodes_def Let_def)
  obtain final where final: "read_state (write_repo_context (Some ''/s'') ''ship-100'' ?active dk2) = Inr final"
    by (simp add: write_repo_context_def)
  obtain run where "map_of final ''fix-7'' = Some run"
    using start_loses_updates [OF start upd _ final] by auto
  moreover have "map_of final ''fix-7'' = Some (started_run\<lparr>wr_workflow := ''fix''\<rparr>)"
    using final by (auto simp: write_repo_context_def)
  ultimately show ?thesis
    using start upd final by force
qed

text \<open>A run whose last node was skipped never completes. \<open>next\<close> settles a node whose condition
  is false without deriving the status of the run, so once every node is completed or skipped the
  run is still running and \<open>next\<close> answers that it is blocked, every time.\<close>

theorem settled_run_reported_blocked:
  assumes "read_state dk = Inr active" "map_of active key = Some run" "wr_status run = ''running''"
    and "file (wr_yaml_path run) = Some t" "index_nodes (wd_nodes (parse_workflow t)) [] = Inr ys"
    and "list_all (\<lambda>s. s \<in> Some ` JStr ` {''completed'', ''skipped''}) (statuses run)"
  shows "cmd_next fl file budget now key dk = Inr (NextBlocked, dk)"
proof -
  have none: "node_status (state_node (wr_nodes run) nid) \<notin> {Some (JStr ''pending''), Some (JStr ''running'')}" for nid
    using assms(6) by (auto simp: state_node_def list_all_iff node_status_def [of "[]"]
        dest!: map_of_SomeD split: option.splits)
  have "compute_ready_nodes fl zs (wr_nodes run) run = Inr ([], [])" for zs
    using none by (induction zs) auto
  moreover have "running_nodes (wr_nodes run) = []"
    using assms(6) by (auto simp: running_nodes_def list_all_iff filter_empty_conv)
  ultimately show ?thesis
    using assms(1-5)
    by (simp add: cmd_next_def get_workflow_def TERMINAL_def write_nodes_def map_filter_simps Let_def)
qed

definition cond_text :: string where
  "cond_text = py_join [CHR 0x0A] [''nodes:'', ''  - id: a'', ''    command: x'', ''  - id: b'', ''    command: y'',
     ''    depends_on: [a]'', ''    condition: {{a.output}} == yes'']"

definition cond_run :: "snode \<Rightarrow> wf_run" where
  "cond_run b = new_run ''c'' ''t0'' ''/repo/c.yaml''
     [(''a'', [(''status'', JStr ''completed''), (''output'', JStr ''no'')]), (''b'', b)] ''wo-1''"

definition cond_disk :: "snode \<Rightarrow> wf_disk" where
  "cond_disk b = \<lparr>dk_state = Stored 1 [(''c-1'', cond_run b)], dk_checkpoint = None, dk_archived = []\<rparr>"

abbreviation skipped_b :: snode where
  "skipped_b \<equiv> [(''status'', JStr ''skipped''), (''finished'', JStr ''t1''), (''output'', JStr ''SKIPPED: condition false'')]"

theorem settled_run_reported_blocked_witness:
  "cmd_next sample_floats (\<lambda>p. Some cond_text) BudgetOk ''t1'' ''c-1'' (cond_disk [(''status'', JStr ''pending'')])
     = Inr (NextNothing, cond_disk skipped_b)
   \<and> cmd_next sample_floats (\<lambda>p. Some cond_text) BudgetOk ''t2'' ''c-1'' (cond_disk skipped_b)
     = Inr (NextBlocked, cond_disk skipped_b)"
proof
  show "cmd_next sample_floats (\<lambda>p. Some cond_text) BudgetOk ''t1'' ''c-1'' (cond_disk [(''status'', JStr ''pending'')])
     = Inr (NextNothing, cond_disk skipped_b)"
    by code_simp
  have read: "read_state (cond_disk skipped_b) = Inr [(''c-1'', cond_run skipped_b)]"
    by code_simp
  have ys: "index_nodes (wd_nodes (parse_workflow cond_text)) [] =
      Inr [(YStr ''a'', [(''id'', YStr ''a''), (''command'', YStr ''x'')]),
        (YStr ''b'', [(''id'', YStr ''b''), (''command'', YStr ''y''), (''depends_on'', YList [''a'']),
          (''condition'', YStr ''{{a.output}} == yes'')])]"
    by code_simp
  have run: "map_of [(''c-1'', cond_run skipped_b)] ''c-1'' = Some (cond_run skipped_b)"
    "wr_status (cond_run skipped_b) = ''running''"
    by (simp_all add: cond_run_def new_run_def)
  have "list_all (\<lambda>s. s \<in> Some ` JStr ` {''completed'', ''skipped''}) (statuses (cond_run skipped_b))"
    by code_simp
  then show "cmd_next sample_floats (\<lambda>p. Some cond_text) BudgetOk ''t2'' ''c-1'' (cond_disk skipped_b)
     = Inr (NextBlocked, cond_disk skipped_b)"
    by (intro settled_run_reported_blocked [OF read run refl ys])
qed

end
