(* ===== verification/Completion_Check.thy ===== *)
theory Completion_Check
  imports Workflow_Templates
begin

text \<open>
  Completion checks of the workflow runner (\<open>check_argv\<close> and \<open>_verify_completion\<close> of
  \<open>control/execution/workflow/runner.py\<close>): how a check written in a workflow becomes an argument
  vector, what is refused, and what counts as evidence that a node is complete. Of the standard
  library it models \<open>shlex.split\<close> (POSIX mode, on text without backslashes) and the name of a
  \<open>PureWindowsPath\<close>; running the subprocess is a parameter.
\<close>

section \<open>Splitting\<close>

datatype lexing = Between | Word string | Quoted char string

definition shlex_space :: "char \<Rightarrow> bool" where
  "shlex_space c \<longleftrightarrow> c = CHR '' '' \<or> c = CHR 0x09 \<or> c = CHR 0x0D \<or> c = CHR 0x0A"

definition is_quote :: "char \<Rightarrow> bool" where
  "is_quote c \<longleftrightarrow> c = CHR 0x22 \<or> c = CHR 0x27"

text \<open>\<open>shlex.split(s, posix=True)\<close> for \<open>s\<close> without a backslash; None is \<open>ValueError\<close> (no closing
  quotation).\<close>

fun shlex :: "lexing \<Rightarrow> string \<Rightarrow> string list option" where
  "shlex Between [] = Some []"
| "shlex (Word w) [] = Some [w]"
| "shlex (Quoted q w) [] = None"
| "shlex Between (c # s) =
     (if shlex_space c then shlex Between s
      else if is_quote c then shlex (Quoted c []) s
      else shlex (Word [c]) s)"
| "shlex (Word w) (c # s) =
     (if shlex_space c then map_option (\<lambda>ts. w # ts) (shlex Between s)
      else if is_quote c then shlex (Quoted c w) s
      else shlex (Word (w @ [c])) s)"
| "shlex (Quoted q w) (c # s) = (if c = q then shlex (Word w) s else shlex (Quoted q (w @ [c])) s)"

definition shlex_split :: "string \<Rightarrow> string list option" where
  "shlex_split s = shlex Between s"

section \<open>Programs\<close>

definition SHELL_METACHARACTERS :: "char list" where
  "SHELL_METACHARACTERS = [CHR ''|'', CHR '';'', CHR ''&'', CHR ''>'', CHR ''<'', CHR 0x60, CHR ''$'', CHR 0x0A]"

definition ESCAPE_CHARACTER :: char where
  "ESCAPE_CHARACTER = CHR 0x5C"

definition SHELL_DELEGATING_SUFFIXES :: "string list" where
  "SHELL_DELEGATING_SUFFIXES = [''.bat'', ''.cmd'']"

definition SHELL_INTERPRETERS :: "string list" where
  "SHELL_INTERPRETERS = [''cmd'', ''cmd.exe'', ''command.com'', ''powershell'', ''powershell.exe'', ''pwsh'',
     ''pwsh.exe'', ''sh'', ''bash'', ''dash'', ''zsh'', ''ksh'', ''csh'', ''tcsh'', ''fish'', ''wscript'',
     ''wscript.exe'', ''cscript'', ''cscript.exe'']"

definition UNIVERSAL_CODE_MARKERS :: "string list" where
  "UNIVERSAL_CODE_MARKERS = [''-c'', ''-e'', ''--eval'', ''--exec'', ''--command'']"

definition PROGRAM_CODE_MARKERS :: "(string \<times> string list) list" where
  "PROGRAM_CODE_MARKERS = [(''node'', [''-p'', ''--print'']), (''bun'', [''-p'', ''--print'']),
     (''deno'', [''eval'']), (''php'', [''-r''])]"

definition PROGRAM_ALIASES :: "(string \<times> string) list" where
  "PROGRAM_ALIASES = [(''nodejs'', ''node'')]"

definition INDIRECTION_COMMANDS :: "string list" where
  "INDIRECTION_COMMANDS = [''env'', ''nice'', ''ionice'', ''timeout'', ''nohup'', ''setsid'', ''stdbuf'', ''unshare'',
     ''chroot'', ''xargs'', ''sudo'', ''doas'', ''su'', ''runuser'', ''start'', ''time'', ''command'', ''exec'',
     ''busybox'', ''winpty'', ''docker'', ''podman'', ''ssh'', ''wsl'', ''watch'', ''flock'', ''parallel'', ''strace'',
     ''ltrace'', ''valgrind'', ''script'']"

definition rstrip_chars :: "string \<Rightarrow> string \<Rightarrow> string" where
  "rstrip_chars cs s = rev (dropWhile (\<lambda>c. c \<in> set cs) (rev s))"

definition remove_suffix :: "string \<Rightarrow> string \<Rightarrow> string" where
  "remove_suffix suf s = (if py_endswith s suf then take (length s - length suf) s else s)"

definition program_key :: "string \<Rightarrow> string" where
  "program_key program =
     (let key = rstrip_chars ''0123456789.'' (remove_suffix ''.exe'' program) in
      case map_of PROGRAM_ALIASES key of None \<Rightarrow> key | Some k \<Rightarrow> k)"

definition code_markers_for :: "string \<Rightarrow> string list" where
  "code_markers_for program =
     UNIVERSAL_CODE_MARKERS
     @ (case map_of PROGRAM_CODE_MARKERS (program_key program) of None \<Rightarrow> [] | Some ms \<Rightarrow> ms)"

text \<open>\<open>PureWindowsPath(token).name\<close> for a token without backslashes: a leading drive (\<open>X:\<close> or
  \<open>//host/share\<close>) is dropped, then the last component that is neither empty nor a full stop.\<close>

definition drop_drive :: "string \<Rightarrow> string" where
  "drop_drive p =
     (if py_startswith p ''//'' then
        (let start = (if py_lower (take 8 p) = ''//?/unc/'' then 8 else 2) in
         (case py_find p ''/'' start of
            None \<Rightarrow> []
          | Some i \<Rightarrow> (case py_find p ''/'' (i + 1) of None \<Rightarrow> [] | Some j \<Rightarrow> drop j p)))
      else if take 1 (drop 1 p) = '':'' then drop 2 p
      else p)"

definition windows_name :: "string \<Rightarrow> string" where
  "windows_name p =
     (let parts = filter (\<lambda>x. x \<noteq> [] \<and> x \<noteq> ''.'') (split_char (CHR ''/'') (drop_drive p)) in
      if parts = [] then [] else last parts)"

definition executable_name :: "string \<Rightarrow> string" where
  "executable_name token = rstrip_chars ''. '' (py_lower (windows_name token))"

definition templated :: "string \<Rightarrow> bool" where
  "templated t = py_in ''{{'' t"

definition short_markers :: "string \<Rightarrow> string list" where
  "short_markers program = filter (\<lambda>m. length m = 2 \<and> py_startswith m ''-'') (code_markers_for program)"

definition assigned_markers :: "string \<Rightarrow> string list" where
  "assigned_markers program = map (\<lambda>m. m @ ''='') (filter (\<lambda>m. py_startswith m ''--'') (code_markers_for program))"

text \<open>\<open>low.split("{{", 1)[0] or token\<close>\<close>

definition before_template :: "string \<Rightarrow> string \<Rightarrow> string" where
  "before_template low token =
     (case py_find low ''{{'' 0 of
        None \<Rightarrow> (if low = [] then token else low)
      | Some i \<Rightarrow> (if take i low = [] then token else take i low))"

fun templated_code_argument :: "string list \<Rightarrow> string \<Rightarrow> string option" where
  "templated_code_argument [] program = None"
| "templated_code_argument (token # rest) program =
     (let low = py_lower token in
      if templated token
         \<and> list_ex (\<lambda>m. py_startswith low m) (short_markers program @ assigned_markers program)
      then Some (before_template low token)
      else if low \<in> set (code_markers_for program) \<and> (case rest of [] \<Rightarrow> False | f # _ \<Rightarrow> templated f)
      then Some token
      else templated_code_argument rest program)"

section \<open>From check to argument vector\<close>

datatype check_refusal =
    EmptyCheck
  | ShellMetacharacter
  | Backslash
  | Unsplittable
  | TemplatedProgram
  | DataStream
  | NoProgram
  | DelegatesToShell
  | IndirectionCommand
  | ShellInterpreter
  | TemplatedCode
  | ResolverRaised

text \<open>The checks that do not look at the state of the run: those on the tokens, then all of them.\<close>

definition check_program :: "string \<Rightarrow> string list \<Rightarrow> check_refusal + string list" where
  "check_program program args =
     (let executable = executable_name program in
      if templated program then Inl TemplatedProgram
      else if py_in '':'' executable then Inl DataStream
      else if executable = [] then Inl NoProgram
      else if list_ex (\<lambda>s. py_endswith executable s) SHELL_DELEGATING_SUFFIXES then Inl DelegatesToShell
      else if program_key executable \<in> set INDIRECTION_COMMANDS then Inl IndirectionCommand
      else if executable \<in> set SHELL_INTERPRETERS then Inl ShellInterpreter
      else if templated_code_argument (program # args) executable \<noteq> None then Inl TemplatedCode
      else Inr (program # args))"

definition check_tokens :: "string \<Rightarrow> check_refusal + string list" where
  "check_tokens raw_check =
     (let raw = py_strip raw_check in
      if raw = [] then Inl EmptyCheck
      else if list_ex (\<lambda>c. c \<in> set raw) SHELL_METACHARACTERS then Inl ShellMetacharacter
      else if ESCAPE_CHARACTER \<in> set raw then Inl Backslash
      else (case shlex_split raw of
              None \<Rightarrow> Inl Unsplittable
            | Some [] \<Rightarrow> Inl EmptyCheck
            | Some (program # args) \<Rightarrow> check_program program args))"

fun resolve_tokens :: "(string \<Rightarrow> string option) \<Rightarrow> string list \<Rightarrow> check_refusal + string list" where
  "resolve_tokens resolver [] = Inr []"
| "resolve_tokens resolver (t # ts) =
     (case resolver t of
        None \<Rightarrow> Inl ResolverRaised
      | Some v \<Rightarrow> and_then (resolve_tokens resolver ts) (\<lambda>vs. Inr (v # vs)))"

text \<open>\<open>check_argv\<close>; a resolver returns None where it raises, and no resolver at all is None.\<close>

definition check_argv :: "string \<Rightarrow> (string \<Rightarrow> string option) option \<Rightarrow> check_refusal + string list" where
  "check_argv raw_check resolver =
     and_then (check_tokens raw_check) (\<lambda>tokens.
       case resolver of None \<Rightarrow> Inr tokens | Some r \<Rightarrow> resolve_tokens r tokens)"

section \<open>Evidence\<close>

datatype proc_result = TimedOut | CouldNotRun | Exited int string

datatype completion_verdict = Completed | Unverified | Blocked

text \<open>The resolver \<open>_verify_completion\<close> passes: a text without a template is itself.\<close>

definition run_resolver :: "wf_run \<Rightarrow> string \<Rightarrow> string" where
  "run_resolver run t = (if templated t then resolve_templates t run None else t)"

definition verify_completion ::
    "bool \<Rightarrow> (string list \<Rightarrow> proc_result) \<Rightarrow> wf_run \<Rightarrow> string option \<Rightarrow> string option \<Rightarrow> completion_verdict" where
  "verify_completion dry_run subprocess run completion_check completion_contains =
     (if dry_run then Completed
      else
        (let check = py_strip (case completion_check of None \<Rightarrow> [] | Some c \<Rightarrow> c);
             expected = py_strip (run_resolver run (py_strip (case completion_contains of None \<Rightarrow> [] | Some c \<Rightarrow> c))) in
         if check = [] then Unverified
         else (case check_argv check (Some (\<lambda>t. Some (run_resolver run t))) of
                 Inl _ \<Rightarrow> Blocked
               | Inr argv \<Rightarrow>
                   (case subprocess argv of
                      TimedOut \<Rightarrow> Blocked
                    | CouldNotRun \<Rightarrow> Blocked
                    | Exited code out \<Rightarrow>
                        if code \<noteq> 0 then Blocked
                        else if expected \<noteq> [] \<and> \<not> py_in expected (py_strip out) then Blocked
                        else Completed))))"

section \<open>Templates stay data\<close>

lemma resolve_tokens_total:
  "resolve_tokens (\<lambda>t. Some (f t)) ts = Inr (map f ts)"
  by (induction ts) simp_all

lemma check_argv_resolved:
  "check_argv raw (Some (\<lambda>t. Some (f t))) = and_then (check_tokens raw) (\<lambda>ts. Inr (map f ts))"
  by (simp add: check_argv_def resolve_tokens_total)

lemma check_tokens_program:
  assumes "check_tokens raw = Inr ts"
  obtains program args where "ts = program # args" "\<not> templated program"
    "executable_name program \<notin> set SHELL_INTERPRETERS"
    "program_key (executable_name program) \<notin> set INDIRECTION_COMMANDS"
    "templated_code_argument ts (executable_name program) = None"
    "shlex_split (py_strip raw) = Some ts"
proof -
  obtain program args where p: "shlex_split (py_strip raw) = Some (program # args)"
      "check_program program args = Inr ts"
    using assms unfolding check_tokens_def Let_def by (simp split: if_splits option.splits list.splits)
  have "ts = program # args" "\<not> templated program" "executable_name program \<notin> set SHELL_INTERPRETERS"
    "program_key (executable_name program) \<notin> set INDIRECTION_COMMANDS"
    "templated_code_argument (program # args) (executable_name program) = None"
    using p(2) unfolding check_program_def Let_def
    by (simp_all only: sum.inject sum.distinct split: if_splits) simp_all
  then show thesis
    using that p(1) by simp
qed

text \<open>C7: a node's output can never become the program, an extra argument or the decision to run
  a check. Whatever two states the run is in, the same check is refused for the same reason or
  yields argument vectors of the same length with the same first element, the program the
  workflow's author wrote; and every argument without a template is the same in both.\<close>

theorem check_argv_noninterference:
  "rel_sum (=) (\<lambda>argv1 argv2. length argv1 = length argv2
       \<and> hd argv1 = hd argv2 \<and> argv1 \<noteq> []
       \<and> (\<exists>tokens. check_argv raw None = Inr tokens \<and> hd argv1 = hd tokens
           \<and> list_all2 (\<lambda>t v. templated t \<or> t = v) tokens argv1
           \<and> list_all2 (\<lambda>t v. templated t \<or> t = v) tokens argv2))
     (check_argv raw (Some (\<lambda>t. Some (run_resolver run1 t))))
     (check_argv raw (Some (\<lambda>t. Some (run_resolver run2 t))))"
proof (cases "check_tokens raw")
  case (Inl e)
  then show ?thesis
    by (simp add: check_argv_resolved)
next
  case (Inr ts)
  obtain program args where ts: "ts = program # args" "\<not> templated program"
    by (rule check_tokens_program [OF Inr])
  have "list_all2 (\<lambda>t v. templated t \<or> t = v) us (map (run_resolver run) us)" for us run
    by (induction us) (simp_all add: run_resolver_def)
  moreover have "run_resolver run program = program" for run
    using ts(2) by (simp add: run_resolver_def)
  ultimately show ?thesis
    using ts Inr unfolding check_argv_resolved by (simp add: check_argv_def)
qed

lemma no_templated_code:
  assumes "templated_code_argument ts program = None" "Suc i < length ts"
    and "py_lower (ts ! i) \<in> set (code_markers_for program)"
  shows "\<not> templated (ts ! Suc i)"
  using assms
proof (induction ts arbitrary: i)
  case (Cons t ts)
  show ?case
  proof (cases i)
    case 0
    then show ?thesis
      using Cons.prems by (cases ts) (auto simp: Let_def split: if_splits)
  next
    case (Suc j)
    then show ?thesis
      using Cons by (auto simp: Let_def split: if_splits)
  qed
qed simp

text \<open>An accepted check names its program itself, one that is neither a shell nor a command
  that runs other commands, and no argument that follows a code marker of that program is filled
  from a template: the text after such a marker is the author's in every state of the run.\<close>

theorem accepted_check_runs_no_template:
  assumes "check_argv raw (Some (\<lambda>t. Some (run_resolver run t))) = Inr argv"
  shows "executable_name (hd argv) \<notin> set SHELL_INTERPRETERS
    \<and> program_key (executable_name (hd argv)) \<notin> set INDIRECTION_COMMANDS
    \<and> (\<exists>tokens. shlex_split (py_strip raw) = Some tokens \<and> length argv = length tokens
        \<and> (\<forall>i. Suc i < length argv \<and> py_lower (tokens ! i) \<in> set (code_markers_for (executable_name (hd argv)))
             \<longrightarrow> argv ! Suc i = tokens ! Suc i))"
proof -
  obtain ts where ts: "check_tokens raw = Inr ts" "argv = map (run_resolver run) ts"
    using assms by (auto simp: check_argv_resolved and_then_Inr_iff)
  obtain program args where p: "ts = program # args" "\<not> templated program"
    "executable_name program \<notin> set SHELL_INTERPRETERS"
    "program_key (executable_name program) \<notin> set INDIRECTION_COMMANDS"
    "templated_code_argument ts (executable_name program) = None" "shlex_split (py_strip raw) = Some ts"
    by (rule check_tokens_program [OF ts(1)])
  have hd: "hd argv = program"
    using ts(2) p(1,2) by (simp add: run_resolver_def)
  have "argv ! Suc i = ts ! Suc i"
    if "Suc i < length argv" "py_lower (ts ! i) \<in> set (code_markers_for program')" "program' = executable_name program"
    for i program'
    using no_templated_code [OF p(5), of i] that ts(2) by (simp add: run_resolver_def)
  then show ?thesis
    using p(3,4,6) hd ts(2) by auto
qed

theorem accepted_check_runs_no_template_witness:
  "check_argv ''py -m tool {{review.output}}'' (Some (\<lambda>t. Some (run_resolver sample_run t)))
     = Inr [''py'', ''-m'', ''tool'', ''PASS: all good'']
   \<and> ''py'' \<notin> set SHELL_INTERPRETERS"
proof -
  have "check_argv ''py -m tool {{review.output}}'' (Some (\<lambda>t. Some (run_resolver sample_run t)))
     = Inr [''py'', ''-m'', ''tool'', ''PASS: all good'']" "executable_name ''py'' = ''py''"
    by code_simp+
  then show ?thesis
    using accepted_check_runs_no_template by force
qed

text \<open>C25: outside a dry run a node is completed only on evidence: it declares a check, the check
  was accepted, the program exited with status 0, and the expected text, if any, is in its output.
  A node without a check is unverified, whatever its prompt said.\<close>

theorem completed_needs_evidence:
  "(verify_completion False subprocess run completion_check completion_contains = Completed) =
    (\<exists>check argv out. completion_check = Some check \<and> py_strip check \<noteq> []
      \<and> check_argv (py_strip check) (Some (\<lambda>t. Some (run_resolver run t))) = Inr argv
      \<and> subprocess argv = Exited 0 out
      \<and> (let expected = py_strip (run_resolver run (py_strip (case completion_contains of None \<Rightarrow> [] | Some c \<Rightarrow> c)))
         in expected = [] \<or> py_in expected (py_strip out)))"
proof (cases completion_check)
  case None
  have "py_strip [] = []"
    by (simp add: py_strip_def py_lstrip_def py_rstrip_def)
  then show ?thesis
    by (simp add: None verify_completion_def Let_def)
next
  case (Some check)
  then show ?thesis
    by (auto simp: verify_completion_def Let_def split: sum.splits proc_result.splits if_splits)
qed

text \<open>The code-marker rule does not see clustered flags. Python reads \<open>-Ic\<close> as \<open>-I -c\<close>, so a check
  \<open>py -Ic {{node.output}}\<close> runs the node's output as a program; it is accepted, while the same check
  spelled \<open>py -I -c {{node.output}}\<close> is refused.\<close>

theorem clustered_flag_bypasses_marker:
  "check_argv ''py -Ic {{review.output}}'' (Some (\<lambda>t. Some (run_resolver sample_run t)))
     = Inr [''py'', ''-Ic'', ''PASS: all good'']
   \<and> check_argv ''py -I -c {{review.output}}'' (Some (\<lambda>t. Some (run_resolver sample_run t))) = Inl TemplatedCode"
  by code_simp

end
