(* ===== verification/Workflow_Runner.thy ===== *)
theory Workflow_Runner
  imports Workflow_Runs Completion_Check
begin

text \<open>
  The workflow runner (\<open>WorkflowRunner\<close> of \<open>control/execution/workflow/runner.py\<close>): the loop that
  computes the ready nodes, dispatches them one after the other and writes their verdicts back, until
  nothing is ready. Loading a skill, the full YAML of a node (parsed by a third-party library), the
  subprocess of a completion check, files, clock and context budget are the record \<open>runner_env\<close>; the
  prompt files and the spool events of a node are not modelled.

  The loop is recursion with fuel; \<open>runner_terminates\<close> shows that one more than the number of pending
  nodes is always enough, and \<open>runner_reports_completed_honestly\<close> that it reports a run completed
  only when every node is completed or skipped.
\<close>

section \<open>Skill specifiers\<close>

definition BARE_TO_PACK :: "(string \<times> string) list" where
  "BARE_TO_PACK =
     [(''think'', ''ds-core''), (''plan'', ''ds-core''), (''build'', ''ds-core''), (''review'', ''ds-core''),
      (''verify'', ''ds-core''), (''ship'', ''ds-core''), (''handoff'', ''ds-core''), (''recap'', ''ds-core''),
      (''explain'', ''ds-core''), (''learn'', ''ds-core''), (''coach'', ''ds-core''),
      (''harden'', ''ds-quality''),
      (''debug'', ''ds-code-health''), (''structure-audit'', ''ds-code-health''), (''audit'', ''ds-code-health''),
      (''dast'', ''ds-security''), (''binary-scan'', ''ds-security''), (''mitigate'', ''ds-security''),
      (''comply'', ''ds-security''), (''netcompat'', ''ds-security''),
      (''multi'', ''ds-analyze''), (''domain-re'', ''ds-analyze''), (''repo'', ''ds-analyze''),
      (''intelligence'', ''ds-analyze''),
      (''game-dev'', ''ds-apps''), (''saas-build'', ''ds-apps''), (''mcp-build'', ''ds-apps''),
      (''dashboard-dev'', ''ds-domains''), (''power-platform'', ''ds-domains''),
      (''design'', ''ds-website''), (''polish'', ''ds-website''),
      (''wizard'', ''ds-setup''), (''jit'', ''ds-setup''),
      (''workflow'', ''ds-workflow'')]"

definition NODE_TYPE_TO_MODE :: "(string \<times> string) list" where
  "NODE_TYPE_TO_MODE =
     [(''research'', ''think''), (''analysis'', ''think''), (''synthesis'', ''think''), (''report'', ''build''),
      (''config'', ''build''), (''plan'', ''plan'')]"

definition DEFAULT_COMMAND_MODE :: string where
  "DEFAULT_COMMAND_MODE = ''build''"

definition resolve_specifier :: "string \<Rightarrow> string" where
  "resolve_specifier skill =
     (if py_in '':'' skill then skill
      else (case map_of BARE_TO_PACK skill of None \<Rightarrow> ''ds-core'' | Some pack \<Rightarrow> pack) @ '':'' @ skill)"

text \<open>\<open>str(ynode.get("type", "") or "")\<close>; a type that is not a string is in no table.\<close>

definition node_mode :: "wf_node \<Rightarrow> string" where
  "node_mode n =
     (case yget ''type'' n of
        YStr s \<Rightarrow> (case map_of NODE_TYPE_TO_MODE s of None \<Rightarrow> DEFAULT_COMMAND_MODE | Some m \<Rightarrow> m)
      | _ \<Rightarrow> DEFAULT_COMMAND_MODE)"

section \<open>Dispatching a node\<close>

record full_node =
  fn_completion_check :: "string option"
  fn_completion_contains :: "string option"

record 'f runner_env =
  re_floats :: "'f float_ops"
  re_file :: "string \<Rightarrow> string option"
  re_session :: "string option \<Rightarrow> (string \<Rightarrow> string option) option"
  re_full :: "string \<Rightarrow> full_node"
  re_invoke :: "string \<Rightarrow> string \<Rightarrow> bool \<times> string"
  re_subprocess :: "string list \<Rightarrow> proc_result"
  re_budget :: budget
  re_now :: string
  re_duration :: "string \<Rightarrow> string"
  re_dry_run :: bool

definition verdict_status :: "completion_verdict \<Rightarrow> string" where
  "verdict_status v = (case v of Completed \<Rightarrow> ''completed'' | Unverified \<Rightarrow> ''unverified'' | Blocked \<Rightarrow> ''blocked'')"

definition invoke_skill :: "'f runner_env \<Rightarrow> string \<Rightarrow> string \<Rightarrow> bool \<times> string" where
  "invoke_skill env specifier nid =
     (if re_dry_run env then (True, ''[dry_run]'') else re_invoke env specifier nid)"

text \<open>The state of the run a check is resolved against is loaded when the check runs.\<close>

definition stored_run :: "string \<Rightarrow> wf_disk \<Rightarrow> wf_run option" where
  "stored_run key dk = (case dk_state dk of Stored v active \<Rightarrow> map_of active key | _ \<Rightarrow> None)"

definition update_node ::
    "'f runner_env \<Rightarrow> string \<Rightarrow> string \<Rightarrow> string \<Rightarrow> string option \<Rightarrow> string option \<Rightarrow> bool option \<Rightarrow> wf_disk \<Rightarrow> wf_disk" where
  "update_node env key nid status output duration executed dk =
     runner_update_node (re_now env) key nid status output duration executed dk"

text \<open>\<open>f"{output}\n\n[completion] {status.upper()}: {reason}"\<close>, the wording of the reason left out.\<close>

definition completion_output :: "string \<Rightarrow> string \<Rightarrow> string" where
  "completion_output output status =
     (if status \<in> {''unverified'', ''blocked''}
      then output @ [CHR 0x0A, CHR 0x0A] @ ''[completion] '' @ (if status = ''blocked'' then ''BLOCKED'' else ''UNVERIFIED'')
      else output)"

definition dispatch ::
    "'f runner_env \<Rightarrow> string \<Rightarrow> string \<Rightarrow> string \<Rightarrow> bool \<Rightarrow> wf_disk \<Rightarrow> wf_disk" where
  "dispatch env key nid specifier is_command dk =
     (let dk1 = update_node env key nid ''running'' None None None dk;
          (success, loaded) = invoke_skill env specifier nid;
          output = (if is_command \<and> success then nid @ '' executed via '' @ specifier else loaded);
          run = (case stored_run key dk1 of None \<Rightarrow> new_run [] [] [] [] [] | Some r \<Rightarrow> r);
          status = (if \<not> success then ''failed''
                    else verdict_status (verify_completion (re_dry_run env) (re_subprocess env) run
                      (fn_completion_check (re_full env nid)) (fn_completion_contains (re_full env nid)))) in
      update_node env key nid status (Some (completion_output output status)) (Some (re_duration env nid))
        (Some is_command) dk1)"

text \<open>One node of a wave; templates in its skill are resolved against the state the wave started
  with. None is a \<open>TypeError\<close> on a skill that is not text.\<close>

definition execute_node ::
    "'f runner_env \<Rightarrow> string \<Rightarrow> wf_run \<Rightarrow> (yaml \<times> wf_node) list \<Rightarrow> string \<Rightarrow> wf_disk \<Rightarrow> wf_disk option" where
  "execute_node env key run ys nid dk =
     (let n = (case map_of ys (YStr nid) of None \<Rightarrow> [] | Some n \<Rightarrow> n) in
      (case (case map_of n ''skill'' of None \<Rightarrow> YStr [] | Some v \<Rightarrow> v) of
         YStr raw \<Rightarrow>
           (let skill = resolve_templates raw run (re_session env (wr_session_dir run)) in
            if skill = [] then
              (if \<not> ytruthy (yget ''command'' n)
               then Some (update_node env key nid ''skipped'' (Some ''no skill or command defined'') None None dk)
               else Some (dispatch env key nid (resolve_specifier (node_mode n)) True dk))
            else Some (dispatch env key nid (resolve_specifier skill) False dk))
       | _ \<Rightarrow> None))"

text \<open>A wave, with whether it ran to its end.\<close>

fun execute_wave ::
    "'f runner_env \<Rightarrow> string \<Rightarrow> wf_run \<Rightarrow> (yaml \<times> wf_node) list \<Rightarrow> string list \<Rightarrow> wf_disk \<Rightarrow> bool \<times> wf_disk" where
  "execute_wave env key run ys [] dk = (True, dk)"
| "execute_wave env key run ys (nid # nids) dk =
     (case execute_node env key run ys nid dk of
        None \<Rightarrow> (False, dk)
      | Some dk' \<Rightarrow> execute_wave env key run ys nids dk')"

definition mark_skipped :: "'f runner_env \<Rightarrow> string \<Rightarrow> string \<Rightarrow> string list \<Rightarrow> wf_disk \<Rightarrow> wf_disk" where
  "mark_skipped env key reason nids dk =
     fold (\<lambda>nid. update_node env key nid ''skipped'' (Some (''SKIPPED: '' @ reason)) None None) nids dk"

section \<open>The loop\<close>

text \<open>The verdict once nothing is ready.\<close>

definition idle_status :: "wf_run \<Rightarrow> string" where
  "idle_status run =
     (let all = set (statuses run) in
      if running_nodes (wr_nodes run) \<noteq> [] then ''running''
      else if all \<subseteq> Some ` JStr ` {''completed'', ''skipped''} then ''completed''
      else if all \<subseteq> Some ` JStr ` {''completed'', ''skipped'', ''unverified''} then ''completed_with_unverified''
      else if all \<subseteq> Some ` JStr ` {''completed'', ''skipped'', ''failed'', ''unverified''} then ''completed_with_failures''
      else ''blocked'')"

datatype runner_result = Final string | RaisedKeyError | RaisedTypeError

text \<open>What one iteration does: stop with a result, or go on with the new disk.\<close>

definition run_once :: "'f runner_env \<Rightarrow> string \<Rightarrow> wf_disk \<Rightarrow> (runner_result \<times> wf_disk) + wf_disk" where
  "run_once env key dk =
     (case stored_run key dk of
        None \<Rightarrow> Inl (RaisedKeyError, dk)
      | Some run \<Rightarrow>
          if wr_status run \<in> {''completed'', ''completed_with_failures'', ''aborted'', ''paused''}
          then Inl (Final (wr_status run), dk)
          else (case (if wr_yaml_path run = [] then None else re_file env (wr_yaml_path run)) of
            None \<Rightarrow> Inl (Final ''aborted'', dk)
          | Some t \<Rightarrow>
            (case index_nodes (wd_nodes (parse_workflow t)) [] of
               Inl _ \<Rightarrow> Inl (RaisedTypeError, dk)
             | Inr ys \<Rightarrow>
            (case compute_ready_nodes (re_floats env) ys (wr_nodes run) run of
               Inl _ \<Rightarrow> Inl (RaisedTypeError, dk)
             | Inr (ready, skipped) \<Rightarrow>
                 (let dk1 = mark_skipped env key ''condition false'' (names skipped) dk in
                  if ready = [] then
                    Inl (Final (idle_status (case stored_run key dk1 of None \<Rightarrow> run | Some r \<Rightarrow> r)), dk1)
                  else if 1 < length ready \<and> \<not> re_dry_run env \<and> re_budget env = BudgetBlock then
                    Inr (mark_skipped env key ''context budget too high for parallel dispatch'' (names ready) dk1)
                  else (case execute_wave env key (case stored_run key dk1 of None \<Rightarrow> run | Some r \<Rightarrow> r) ys (names ready) dk1 of
                          (ended, dk2) \<Rightarrow> if ended then Inr dk2 else Inl (RaisedTypeError, dk2)))))))"

fun run_loop :: "'f runner_env \<Rightarrow> string \<Rightarrow> nat \<Rightarrow> wf_disk \<Rightarrow> (runner_result \<times> wf_disk) option" where
  "run_loop env key 0 dk = None"
| "run_loop env key (Suc fuel) dk =
     (case run_once env key dk of
        Inl r \<Rightarrow> Some r
      | Inr dk' \<Rightarrow> run_loop env key fuel dk')"

text \<open>\<open>advance\<close>: one wave without the loop and without the budget guard, None where it raises.\<close>

definition runner_advance :: "'f runner_env \<Rightarrow> string \<Rightarrow> wf_disk \<Rightarrow> yaml list option \<times> wf_disk" where
  "runner_advance env key dk =
     (case stored_run key dk of
        None \<Rightarrow> (Some [], dk)
      | Some run \<Rightarrow>
          if wr_status run \<in> {''completed'', ''completed_with_failures'', ''aborted'', ''paused''} then (Some [], dk)
          else (case (if wr_yaml_path run = [] then None else re_file env (wr_yaml_path run)) of
            None \<Rightarrow> (Some [], dk)
          | Some t \<Rightarrow>
            (case and_then (index_nodes (wd_nodes (parse_workflow t)) [])
                    (\<lambda>ys. and_then (compute_ready_nodes (re_floats env) ys (wr_nodes run) run) (\<lambda>rs. Inr (ys, rs))) of
               Inl _ \<Rightarrow> (None, dk)
             | Inr (ys, ready, skipped) \<Rightarrow>
                 (let dk1 = mark_skipped env key ''condition false'' (names skipped) dk in
                  if ready = [] then (Some [], dk1)
                  else (case execute_wave env key (case stored_run key dk1 of None \<Rightarrow> run | Some r \<Rightarrow> r) ys (names ready) dk1 of
                          (ended, dk2) \<Rightarrow> (if ended then Some ready else None, dk2))))))"

section \<open>What an update of a node does\<close>

text \<open>The run the runner's writer stores.\<close>

definition updated_run ::
    "'f runner_env \<Rightarrow> string \<Rightarrow> string \<Rightarrow> string option \<Rightarrow> string option \<Rightarrow> bool option \<Rightarrow> wf_run \<Rightarrow> wf_run" where
  "updated_run env nid status output duration executed run =
     (case stored_run [] (update_node env [] nid status output duration executed
        \<lparr>dk_state = Stored 1 [([], run)], dk_checkpoint = None, dk_archived = []\<rparr>) of None \<Rightarrow> run | Some r \<Rightarrow> r)"

lemma stored_update:
  assumes "stored_run key dk = Some run"
  shows "stored_run key (update_node env key nid status output duration executed dk) =
    Some (updated_run env nid status output duration executed run)"
proof -
  obtain v active where "dk_state dk = Stored v active" "map_of active key = Some run"
    using assms by (auto simp: stored_run_def split: state_file.splits)
  then show ?thesis
    by (simp add: updated_run_def update_node_def runner_update_node_def stored_run_def write_checkpoint_def
        update_conv' Let_def)
qed

lemma updated_run_nodes:
  "\<exists>g. wr_nodes (updated_run env nid status output duration executed run) = AList.map_entry nid g
      (if map_of (wr_nodes run) nid = None then wr_nodes run @ [(nid, [])] else wr_nodes run)
     \<and> (\<forall>n. node_status (g n) = Some (JStr status))"
proof -
  let ?g = "\<lambda>n. case executed of None \<Rightarrow> update_snode (re_now env) status output duration n
      | Some b \<Rightarrow> AList.update ''executed'' (JBool b) (update_snode (re_now env) status output duration n)"
  have "node_status (?g n) = Some (JStr status)" for n
    by (simp add: update_snode_status split: option.split)
  then show ?thesis
    by (intro exI [of _ ?g])
      (simp add: updated_run_def update_node_def runner_update_node_def stored_run_def write_checkpoint_def Let_def)
qed

lemma updated_run_lookup:
  "\<exists>n. map_of (wr_nodes (updated_run env nid status output duration executed run)) nid = Some n
     \<and> node_status n = Some (JStr status)"
  "x \<noteq> nid \<Longrightarrow> map_of (wr_nodes (updated_run env nid status output duration executed run)) x =
     map_of (wr_nodes run) x"
  using updated_run_nodes [of env nid status "output" duration executed run]
  by (auto simp: map_of_map_entry map_of_append map_add_def split: option.splits if_splits)

abbreviation pendings :: "(string \<times> snode) list \<Rightarrow> nat" where
  "pendings nodes \<equiv> length (filter (\<lambda>kn. is_pending (snd kn)) nodes)"

lemma pendings_map_entry:
  assumes "\<And>n. \<not> is_pending (g n)"
  shows "pendings (AList.map_entry nid g nodes) \<le> pendings nodes"
    and "map_of nodes nid = Some n \<Longrightarrow> is_pending n \<Longrightarrow> pendings (AList.map_entry nid g nodes) < pendings nodes"
  using assms by (induction nodes) (auto split: if_splits)

lemma updated_run_pending:
  assumes "status \<noteq> ''pending''"
  shows "pending_count (updated_run env nid status output duration executed run) \<le> pending_count run"
    and "map_of (wr_nodes run) nid = Some n \<Longrightarrow> is_pending n \<Longrightarrow>
      pending_count (updated_run env nid status output duration executed run) < pending_count run"
proof -
  obtain g where g: "wr_nodes (updated_run env nid status output duration executed run) = AList.map_entry nid g
      (if map_of (wr_nodes run) nid = None then wr_nodes run @ [(nid, [])] else wr_nodes run)"
      "\<And>n. \<not> is_pending (g n)"
    using updated_run_nodes [of env nid status "output" duration executed run] assms by auto
  let ?ns = "if map_of (wr_nodes run) nid = None then wr_nodes run @ [(nid, [])] else wr_nodes run"
  have "pendings ?ns = pendings (wr_nodes run)"
    by (simp add: node_status_def)
  moreover have "pendings (AList.map_entry nid g ?ns) \<le> pendings ?ns"
    by (rule pendings_map_entry(1) [OF g(2)])
  ultimately show "pending_count (updated_run env nid status output duration executed run) \<le> pending_count run"
    unfolding pending_count_def g(1) by (rule ord_le_eq_trans [rotated])
  show "map_of (wr_nodes run) nid = Some n \<Longrightarrow> is_pending n \<Longrightarrow>
      pending_count (updated_run env nid status output duration executed run) < pending_count run"
    using pendings_map_entry(2) [of g, OF g(2)] unfolding pending_count_def g(1) by simp
qed

section \<open>Termination\<close>

definition pending_in :: "string \<Rightarrow> wf_disk \<Rightarrow> nat" where
  "pending_in key dk = (case stored_run key dk of None \<Rightarrow> 0 | Some run \<Rightarrow> pending_count run)"

text \<open>A change of the disk that keeps the run stored and makes no node pending again.\<close>

definition advances :: "string \<Rightarrow> (wf_disk \<Rightarrow> wf_disk) \<Rightarrow> bool" where
  "advances key f \<longleftrightarrow> (\<forall>dk. stored_run key dk \<noteq> None \<longrightarrow>
     stored_run key (f dk) \<noteq> None \<and> pending_in key (f dk) \<le> pending_in key dk)"

text \<open>It also settles the given node.\<close>

definition settles :: "string \<Rightarrow> string \<Rightarrow> (wf_disk \<Rightarrow> wf_disk) \<Rightarrow> bool" where
  "settles key nid f \<longleftrightarrow> (\<forall>dk run n. stored_run key dk = Some run \<and> map_of (wr_nodes run) nid = Some n \<and> is_pending n
     \<longrightarrow> pending_in key (f dk) < pending_in key dk)"

lemma update_node_advances:
  "status \<noteq> ''pending'' \<Longrightarrow> advances key (update_node env key nid status output duration executed)"
  by (auto simp: advances_def pending_in_def stored_update updated_run_pending)

lemma update_node_settles:
  "status \<noteq> ''pending'' \<Longrightarrow> settles key nid (update_node env key nid status output duration executed)"
  by (auto simp: settles_def pending_in_def stored_update updated_run_pending)

lemma advances_then: "advances key f \<Longrightarrow> advances key g \<Longrightarrow> advances key (\<lambda>dk. g (f dk))"
  unfolding advances_def by (meson order_trans)

lemma settles_then:
  assumes "settles key nid f" "advances key f" "advances key g"
  shows "settles key nid (\<lambda>dk. g (f dk))"
  unfolding settles_def
proof (intro allI impI)
  fix dk run n
  assume *: "stored_run key dk = Some run \<and> map_of (wr_nodes run) nid = Some n \<and> is_pending n"
  then have "pending_in key (f dk) < pending_in key dk" "stored_run key (f dk) \<noteq> None"
    using assms(1,2) by (auto simp: settles_def advances_def)
  then show "pending_in key (g (f dk)) < pending_in key dk"
    using assms(3) by (auto simp: advances_def intro: le_less_trans)
qed

text \<open>The statuses a node ends with after its dispatch.\<close>

definition final_status :: "'f runner_env \<Rightarrow> string \<Rightarrow> string \<Rightarrow> string \<Rightarrow> wf_disk \<Rightarrow> string" where
  "final_status env key nid specifier dk1 =
     (if \<not> fst (invoke_skill env specifier nid) then ''failed''
      else verdict_status (verify_completion (re_dry_run env) (re_subprocess env)
        (case stored_run key dk1 of None \<Rightarrow> new_run [] [] [] [] [] | Some r \<Rightarrow> r)
        (fn_completion_check (re_full env nid)) (fn_completion_contains (re_full env nid))))"

lemma final_status_cases:
  "final_status env key nid specifier dk1 \<in> {''failed'', ''completed'', ''unverified'', ''blocked''}"
  by (simp add: final_status_def verdict_status_def split: completion_verdict.split)

lemma dispatch_two_updates:
  "\<exists>output. dispatch env key nid specifier b dk =
     (let dk1 = update_node env key nid ''running'' None None None dk in
      update_node env key nid (final_status env key nid specifier dk1) output (Some (re_duration env nid)) (Some b) dk1)"
  by (auto simp: dispatch_def final_status_def Let_def split: prod.split)

lemma not_pending_final: "final_status env key nid specifier dk1 \<noteq> ''pending''"
  using final_status_cases [of env key nid specifier dk1] by auto

lemma dispatch_advances: "advances key (dispatch env key nid specifier b)"
  and dispatch_settles: "settles key nid (dispatch env key nid specifier b)"
proof -
  let ?first = "update_node env key nid ''running'' None None None"
  define second where "second dk1 = (\<lambda>out. update_node env key nid (final_status env key nid specifier dk1) out
    (Some (re_duration env nid)) (Some b) dk1)" for dk1
  have "\<forall>dk. \<exists>out. dispatch env key nid specifier b dk = second (?first dk) out"
    using dispatch_two_updates [of env key nid specifier b] by (simp add: second_def Let_def)
  then obtain out where d: "\<forall>dk. dispatch env key nid specifier b dk = second (?first dk) (out dk)"
    by (rule choice [THEN exE])
  have second: "advances key (\<lambda>dk. second dk out')" for out'
    unfolding advances_def second_def
  proof (intro allI impI)
    fix dk
    assume "stored_run key dk \<noteq> None"
    then show "stored_run key (update_node env key nid (final_status env key nid specifier dk) out'
        (Some (re_duration env nid)) (Some b) dk) \<noteq> None
      \<and> pending_in key (update_node env key nid (final_status env key nid specifier dk) out'
        (Some (re_duration env nid)) (Some b) dk) \<le> pending_in key dk"
      using update_node_advances [OF not_pending_final [of env key nid specifier dk],
          of key env nid out' "Some (re_duration env nid)" "Some b"]
      by (simp add: advances_def)
  qed
  have first: "advances key ?first" "settles key nid ?first"
    by (simp_all add: update_node_advances update_node_settles)
  show "advances key (dispatch env key nid specifier b)"
    using advances_then [OF first(1) second] by (simp add: d advances_def)
  show "settles key nid (dispatch env key nid specifier b)"
    using settles_then [OF first(2,1) second] by (simp add: d settles_def)
qed

lemma execute_node_advances:
  assumes "execute_node env key run ys nid dk = Some dk'"
  obtains f where "dk' = f dk" "advances key f" "settles key nid f"
proof -
  let ?skip = "update_node env key nid ''skipped'' (Some ''no skill or command defined'') None None"
  have "dk' = ?skip dk \<or> (\<exists>spec b. dk' = dispatch env key nid spec b dk)"
    using assms by (auto simp: execute_node_def Let_def split: yaml.splits if_splits)
  then show thesis
  proof (elim disjE exE)
    assume "dk' = ?skip dk"
    then show thesis
      by (rule that [of ?skip]) (simp_all add: update_node_advances update_node_settles)
  next
    fix spec b
    assume "dk' = dispatch env key nid spec b dk"
    then show thesis
      by (rule that [OF _ dispatch_advances dispatch_settles])
  qed
qed

lemma execute_wave_advances:
  "execute_wave env key run ys nids dk = (ended, dk') \<Longrightarrow> stored_run key dk \<noteq> None \<Longrightarrow>
     stored_run key dk' \<noteq> None \<and> pending_in key dk' \<le> pending_in key dk"
proof (induction nids arbitrary: dk)
  case (Cons nid nids)
  show ?case
  proof (cases "execute_node env key run ys nid dk")
    case None
    then show ?thesis
      using Cons.prems by auto
  next
    case (Some dk1)
    then obtain f where f: "dk1 = f dk" "advances key f"
      by (rule execute_node_advances)
    then have "stored_run key dk1 \<noteq> None" "pending_in key dk1 \<le> pending_in key dk"
      using Cons.prems(2) by (auto simp: advances_def)
    then show ?thesis
      using Cons Some by fastforce
  qed
qed auto

lemma execute_wave_settles:
  assumes "execute_wave env key run ys (nid # nids) dk = (True, dk')"
    and "stored_run key dk = Some r" "map_of (wr_nodes r) nid = Some n" "is_pending n"
  shows "pending_in key dk' < pending_in key dk"
proof -
  obtain dk1 where e: "execute_node env key run ys nid dk = Some dk1"
      "execute_wave env key run ys nids dk1 = (True, dk')"
    using assms(1) by (auto split: option.splits)
  obtain f where f: "dk1 = f dk" "advances key f" "settles key nid f"
    by (rule execute_node_advances [OF e(1)])
  have "pending_in key dk1 < pending_in key dk" "stored_run key dk1 \<noteq> None"
    using f assms(2-4) by (auto simp: settles_def advances_def)
  then show ?thesis
    using execute_wave_advances [OF e(2)] by simp
qed

lemma mark_skipped_advances: "advances key (mark_skipped env key reason nids)"
proof -
  have "stored_run key (fold f nids dk) \<noteq> None \<and> pending_in key (fold f nids dk) \<le> pending_in key dk"
    if "stored_run key dk \<noteq> None" "\<And>nid. advances key (f nid)" for f dk
    using that
  proof (induction nids arbitrary: dk)
    case (Cons nid nids)
    then have "stored_run key (f nid dk) \<noteq> None" "pending_in key (f nid dk) \<le> pending_in key dk"
      by (auto simp: advances_def)
    then show ?case
      using Cons.IH [of "f nid dk"] Cons.prems(2) by force
  qed simp
  moreover have "advances key (update_node env key nid ''skipped'' (Some (''SKIPPED: '' @ reason)) None None)" for nid
    by (simp add: update_node_advances)
  ultimately show ?thesis
    by (simp add: advances_def mark_skipped_def)
qed

lemma mark_skipped_settles: "settles key nid (mark_skipped env key reason (nid # nids))"
proof -
  have "mark_skipped env key reason (nid # nids) = (\<lambda>dk. mark_skipped env key reason nids
      (update_node env key nid ''skipped'' (Some (''SKIPPED: '' @ reason)) None None dk))"
    by (simp add: mark_skipped_def fun_eq_iff)
  then show ?thesis
    using settles_then [OF update_node_settles update_node_advances mark_skipped_advances, of "''skipped''"]
    by simp
qed

lemma triggered_pending:
  assumes "triggered st x"
  obtains s n where "fst x = YStr s" "map_of st s = Some n" "is_pending n"
proof -
  have pending: "is_pending (state_node st (fst x))"
    using assms by (simp add: triggered_def)
  moreover have empty: "\<not> is_pending []"
    by (simp add: node_status_def)
  ultimately obtain s where s: "fst x = YStr s"
    by (cases "fst x") (simp_all add: state_node_def)
  then obtain n where "map_of st s = Some n"
    using pending empty by (cases "map_of st s") (simp_all add: state_node_def)
  then show thesis
    using that s pending by (simp add: state_node_def)
qed

lemma ready_pending:
  assumes "compute_ready_nodes fl ys st run = Inr (ready, skipped)" "i \<in> set ready \<union> set skipped"
  obtains s n where "i = YStr s" "map_of st s = Some n" "is_pending n"
proof -
  obtain x where "triggered st x" "i = fst x"
    using compute_ready_eq [OF assms(1)] assms(2) by auto
  then show thesis
    using that triggered_pending by metis
qed

text \<open>An iteration that goes on, taken apart.\<close>

lemma run_once_Inr:
  assumes "run_once env key dk = Inr dk'"
  obtains run ys ready skipped dk1 where "stored_run key dk = Some run"
    "wr_status run \<notin> {''completed'', ''completed_with_failures'', ''aborted'', ''paused''}"
    "\<exists>t. index_nodes (wd_nodes (parse_workflow t)) [] = Inr ys"
    "compute_ready_nodes (re_floats env) ys (wr_nodes run) run = Inr (ready, skipped)" "ready \<noteq> []"
    "dk1 = mark_skipped env key ''condition false'' (names skipped) dk"
    "dk' = mark_skipped env key ''context budget too high for parallel dispatch'' (names ready) dk1
     \<or> (\<exists>r. execute_wave env key r ys (names ready) dk1 = (True, dk'))"
proof -
  obtain run where run: "stored_run key dk = Some run"
    using assms by (cases "stored_run key dk") (simp_all add: run_once_def)
  have live: "wr_status run \<notin> {''completed'', ''completed_with_failures'', ''aborted'', ''paused''}"
    using assms run by (auto simp: run_once_def)
  then obtain t where t: "(if wr_yaml_path run = [] then None else re_file env (wr_yaml_path run)) = Some t"
    using assms run by (cases "if wr_yaml_path run = [] then None else re_file env (wr_yaml_path run)")
      (simp_all add: run_once_def)
  then obtain ys where ys: "index_nodes (wd_nodes (parse_workflow t)) [] = Inr ys"
    using assms run live by (cases "index_nodes (wd_nodes (parse_workflow t)) []") (simp_all add: run_once_def)
  then obtain ready skipped where r: "compute_ready_nodes (re_floats env) ys (wr_nodes run) run = Inr (ready, skipped)"
    using assms run live t by (cases "compute_ready_nodes (re_floats env) ys (wr_nodes run) run") (auto simp: run_once_def)
  let ?dk1 = "mark_skipped env key ''condition false'' (names skipped) dk"
  have "ready \<noteq> [] \<and> (dk' = mark_skipped env key ''context budget too high for parallel dispatch'' (names ready) ?dk1
     \<or> (\<exists>r. execute_wave env key r ys (names ready) ?dk1 = (True, dk')))"
    using assms run live t ys r unfolding run_once_def
    by (simp add: Let_def split: if_splits prod.splits) blast
  then show thesis
    using that [OF run live _ r] ys by blast
qed

lemma names_hd:
  assumes "xs \<noteq> []" "hd xs = YStr s"
  shows "\<exists>ss. names xs = s # ss"
  using assms by (cases xs) (auto simp: map_filter_simps)

lemma run_once_decreases:
  assumes "run_once env key dk = Inr dk'"
  shows "pending_in key dk' < pending_in key dk"
proof -
  obtain run ys ready skipped dk1 where r: "stored_run key dk = Some run"
    "compute_ready_nodes (re_floats env) ys (wr_nodes run) run = Inr (ready, skipped)" "ready \<noteq> []"
    "dk1 = mark_skipped env key ''condition false'' (names skipped) dk"
    "dk' = mark_skipped env key ''context budget too high for parallel dispatch'' (names ready) dk1
     \<or> (\<exists>r. execute_wave env key r ys (names ready) dk1 = (True, dk'))"
    using assms by (rule run_once_Inr)
  have dk1: "stored_run key dk1 \<noteq> None" "pending_in key dk1 \<le> pending_in key dk"
    using mark_skipped_advances [of key env "''condition false''" "names skipped"] r(1,4) by (auto simp: advances_def)
  have le: "pending_in key dk' \<le> pending_in key dk1"
    using r(5)
  proof
    assume "dk' = mark_skipped env key ''context budget too high for parallel dispatch'' (names ready) dk1"
    then show ?thesis
      using mark_skipped_advances [of key env] dk1(1) by (auto simp: advances_def)
  next
    assume "\<exists>r. execute_wave env key r ys (names ready) dk1 = (True, dk')"
    then show ?thesis
      using execute_wave_advances dk1(1) by blast
  qed
  show ?thesis
  proof (cases "skipped = []")
    case False
    then have "hd skipped \<in> set ready \<union> set skipped"
      by simp
    then obtain s n where s: "hd skipped = YStr s" "map_of (wr_nodes run) s = Some n" "is_pending n"
      by (rule ready_pending [OF r(2)])
    obtain ss where "names skipped = s # ss"
      using names_hd [OF False s(1)] by blast
    then have "pending_in key dk1 < pending_in key dk"
      using mark_skipped_settles [of key s env _ ss] r(1,4) s(2,3) by (auto simp: settles_def)
    then show ?thesis
      using le by simp
  next
    case True
    then have same: "dk1 = dk"
      using r(4) by (simp add: mark_skipped_def map_filter_simps)
    have "hd ready \<in> set ready \<union> set skipped"
      using r(3) by simp
    then obtain s n where s: "hd ready = YStr s" "map_of (wr_nodes run) s = Some n" "is_pending n"
      by (rule ready_pending [OF r(2)])
    obtain ss where ss: "names ready = s # ss"
      using names_hd [OF r(3) s(1)] by blast
    show ?thesis
      using r(5)
    proof
      assume "dk' = mark_skipped env key ''context budget too high for parallel dispatch'' (names ready) dk1"
      then show ?thesis
        using mark_skipped_settles [of key s env _ ss] r(1) s(2,3) same ss by (auto simp: settles_def)
    next
      assume "\<exists>r. execute_wave env key r ys (names ready) dk1 = (True, dk')"
      then show ?thesis
        using execute_wave_settles [OF _ r(1) s(2,3)] same ss by metis
    qed
  qed
qed

text \<open>C22: the runner's loop always ends: with one more unit of fuel than the run has pending nodes it
  returns a result, whatever the nodes, their checks and the environment do.\<close>

theorem runner_terminates: "run_loop env key (Suc (pending_in key dk)) dk \<noteq> None"
proof -
  have "run_loop env key (Suc fuel) dk \<noteq> None" if "pending_in key dk \<le> fuel" for fuel dk
    using that
  proof (induction fuel arbitrary: dk)
    case 0
    then show ?case
      using run_once_decreases [of env key dk] by (auto split: sum.split)
  next
    case (Suc fuel)
    show ?case
    proof (cases "run_once env key dk")
      case (Inr dk')
      then have "pending_in key dk' \<le> fuel"
        using run_once_decreases [OF Inr] Suc.prems by simp
      then show ?thesis
        using Suc.IH [of dk'] Inr by simp
    qed simp
  qed
  then show ?thesis by blast
qed

section \<open>Honest reports\<close>

abbreviation done_status :: "jval option \<Rightarrow> bool" where
  "done_status s \<equiv> s \<in> Some ` JStr ` {''completed'', ''skipped''}"

definition all_done :: "wf_run \<Rightarrow> bool" where
  "all_done run \<longleftrightarrow> list_all done_status (statuses run)"

definition honest :: "wf_run \<Rightarrow> bool" where
  "honest run \<longleftrightarrow> (wr_status run = ''completed'' \<longrightarrow> all_done run)"

lemma not_all_done: "map_of (wr_nodes run) nid = Some n \<Longrightarrow> \<not> done_status (node_status n) \<Longrightarrow> \<not> all_done run"
  by (force simp: all_done_def list_all_iff dest: map_of_SomeD)

lemma derive_status_honest: "wr_status run \<noteq> ''completed'' \<Longrightarrow> honest (derive_status run)"
  by (auto simp: honest_def all_done_def derive_status_def)

lemma updated_run_derived:
  "\<exists>r. updated_run env nid status output duration executed run = derive_status r \<and> wr_status r = wr_status run"
  by (simp add: updated_run_def update_node_def runner_update_node_def stored_run_def write_checkpoint_def Let_def)
    (auto simp: mark_completed_def)

lemma updated_run_honest:
  assumes "honest run" "\<not> all_done run"
  shows "honest (updated_run env nid status output duration executed run)"
proof -
  have "wr_status run \<noteq> ''completed''"
    using assms by (simp add: honest_def)
  then show ?thesis
    using updated_run_derived [of env nid status "output" duration executed run] derive_status_honest by metis
qed

text \<open>A change to one node that is not done yet: the run stays honest, the other nodes as they are.\<close>

definition touches :: "string \<Rightarrow> string \<Rightarrow> (wf_disk \<Rightarrow> wf_disk) \<Rightarrow> bool" where
  "touches key nid f \<longleftrightarrow> (\<forall>dk run n. stored_run key dk = Some run \<and> honest run
       \<and> map_of (wr_nodes run) nid = Some n \<and> \<not> done_status (node_status n)
     \<longrightarrow> (\<exists>run'. stored_run key (f dk) = Some run' \<and> honest run'
           \<and> (\<forall>x. x \<noteq> nid \<longrightarrow> map_of (wr_nodes run') x = map_of (wr_nodes run) x)))"

lemma update_node_touches: "touches key nid (update_node env key nid status output duration executed)"
  unfolding touches_def
  by (auto simp: stored_update updated_run_lookup(2) intro: updated_run_honest dest: not_all_done)

lemma dispatch_touches: "touches key nid (dispatch env key nid specifier b)"
  unfolding touches_def
proof (intro allI impI, elim conjE)
  fix dk run n
  assume run: "stored_run key dk = Some run" "honest run" "map_of (wr_nodes run) nid = Some n"
    "\<not> done_status (node_status n)"
  let ?dk1 = "update_node env key nid ''running'' None None None dk"
  let ?run1 = "updated_run env nid ''running'' None None None run"
  obtain out where d: "dispatch env key nid specifier b dk =
      update_node env key nid (final_status env key nid specifier ?dk1) out (Some (re_duration env nid)) (Some b) ?dk1"
    using dispatch_two_updates [of env key nid specifier b dk] by (auto simp: Let_def)
  obtain m where m: "map_of (wr_nodes ?run1) nid = Some m" "node_status m = Some (JStr ''running'')"
    using updated_run_lookup(1) [of env nid "''running''" None None None run] by auto
  have "stored_run key ?dk1 = Some ?run1" "honest ?run1"
    using run not_all_done [OF run(3,4)] by (simp_all add: stored_update updated_run_honest)
  moreover have "\<not> done_status (node_status m)"
    using m(2) by auto
  ultimately obtain run' where r: "stored_run key (dispatch env key nid specifier b dk) = Some run'" "honest run'"
      "\<forall>x. x \<noteq> nid \<longrightarrow> map_of (wr_nodes run') x = map_of (wr_nodes ?run1) x"
    using update_node_touches [of key nid env] m(1) unfolding d touches_def by blast
  then show "\<exists>run'. stored_run key (dispatch env key nid specifier b dk) = Some run' \<and> honest run'
      \<and> (\<forall>x. x \<noteq> nid \<longrightarrow> map_of (wr_nodes run') x = map_of (wr_nodes run) x)"
    using updated_run_lookup(2) by auto
qed

text \<open>The given nodes are pending in an honest run.\<close>

definition awaiting :: "string \<Rightarrow> string list \<Rightarrow> wf_disk \<Rightarrow> bool" where
  "awaiting key nids dk \<longleftrightarrow> (\<exists>run. stored_run key dk = Some run \<and> honest run
     \<and> (\<forall>nid\<in>set nids. \<exists>n. map_of (wr_nodes run) nid = Some n \<and> is_pending n))"

lemma awaiting_touch:
  assumes "awaiting key (nid # nids) dk" "touches key nid f" "nid \<notin> set nids"
  shows "awaiting key nids (f dk)"
proof -
  obtain run n where run: "stored_run key dk = Some run" "honest run" "map_of (wr_nodes run) nid = Some n" "is_pending n"
      "\<forall>nid\<in>set nids. \<exists>n. map_of (wr_nodes run) nid = Some n \<and> is_pending n"
    using assms(1) by (auto simp: awaiting_def)
  have "\<not> done_status (node_status n)"
    using run(4) by auto
  then obtain run' where "stored_run key (f dk) = Some run'" "honest run'"
      "\<forall>x. x \<noteq> nid \<longrightarrow> map_of (wr_nodes run') x = map_of (wr_nodes run) x"
    using assms(2) run(1-3) unfolding touches_def by blast
  then show ?thesis
    using run(5) assms(3) unfolding awaiting_def by metis
qed

lemma mark_skipped_awaiting:
  "awaiting key (nids @ rest) dk \<Longrightarrow> distinct (nids @ rest) \<Longrightarrow> awaiting key rest (mark_skipped env key reason nids dk)"
proof (induction nids arbitrary: dk)
  case Nil
  then show ?case
    by (simp add: mark_skipped_def)
next
  case (Cons nid nids)
  then have "awaiting key (nids @ rest) (update_node env key nid ''skipped'' (Some (''SKIPPED: '' @ reason)) None None dk)"
    by (intro awaiting_touch [OF _ update_node_touches]) simp_all
  then show ?case
    using Cons by (simp add: mark_skipped_def)
qed

lemma execute_node_touches:
  assumes "execute_node env key run ys nid dk = Some dk'"
  obtains f where "dk' = f dk" "touches key nid f"
proof -
  let ?skip = "update_node env key nid ''skipped'' (Some ''no skill or command defined'') None None"
  have "dk' = ?skip dk \<or> (\<exists>spec b. dk' = dispatch env key nid spec b dk)"
    using assms by (auto simp: execute_node_def Let_def split: yaml.splits if_splits)
  then show thesis
  proof (elim disjE exE)
    assume "dk' = ?skip dk"
    then show thesis
      by (rule that [OF _ update_node_touches])
  next
    fix spec b
    assume "dk' = dispatch env key nid spec b dk"
    then show thesis
      by (rule that [OF _ dispatch_touches])
  qed
qed

lemma execute_wave_awaiting:
  "awaiting key nids dk \<Longrightarrow> distinct nids \<Longrightarrow> execute_wave env key run ys nids dk = (True, dk') \<Longrightarrow> awaiting key [] dk'"
proof (induction nids arbitrary: dk)
  case (Cons nid nids)
  then obtain dk1 where e: "execute_node env key run ys nid dk = Some dk1"
      "execute_wave env key run ys nids dk1 = (True, dk')"
    by (auto split: option.splits)
  obtain f where f: "dk1 = f dk" "touches key nid f"
    by (rule execute_node_touches [OF e(1)])
  then have "awaiting key nids dk1"
    using awaiting_touch [OF Cons.prems(1) f(2)] Cons.prems(2) by simp
  then show ?case
    using Cons.IH Cons.prems(2) e(2) by simp
qed simp

lemma index_nodes_distinct:
  "index_nodes ns acc = Inr ys \<Longrightarrow> distinct (map fst acc) \<Longrightarrow> distinct (map fst ys)"
  by (induction ns acc rule: index_nodes.induct) (auto simp: distinct_update split: option.splits if_splits)

lemma ystr_Some [simp]: "ystr y = Some s \<longleftrightarrow> y = YStr s"
  by (cases y) auto

lemma names_simps: "names [] = []" "names (y # ys) = (case ystr y of None \<Rightarrow> names ys | Some s \<Rightarrow> s # names ys)"
  by (simp_all add: map_filter_simps)

lemma set_names: "s \<in> set (names ys) \<longleftrightarrow> YStr s \<in> set ys"
  by (induction ys) (auto simp: names_simps split: option.splits)

lemma distinct_names: "distinct ys \<Longrightarrow> distinct (names ys)"
  by (induction ys) (auto simp: names_simps set_names split: option.splits)

lemma names_append: "names (xs @ ys) = names xs @ names ys"
  by (induction xs) (auto simp: names_simps split: option.splits)

lemma ready_awaiting:
  assumes "compute_ready_nodes fl ys (wr_nodes run) run = Inr (ready, skipped)" "distinct (map fst ys)"
    and "stored_run key dk = Some run" "honest run"
  shows "awaiting key (names skipped @ names ready) dk \<and> distinct (names skipped @ names ready)"
proof -
  have eq: "ready = map fst (filter (\<lambda>x. triggered (wr_nodes run) x \<and> condition_met fl (snd x) run) ys)"
    "skipped = map fst (filter (\<lambda>x. triggered (wr_nodes run) x \<and> \<not> condition_met fl (snd x) run) ys)"
    using compute_ready_eq [OF assms(1)] by auto
  have "set skipped \<inter> set ready = {}"
  proof (rule ccontr)
    assume "set skipped \<inter> set ready \<noteq> {}"
    then obtain x y where "x \<in> set ys" "y \<in> set ys" "fst x = fst y" "\<not> condition_met fl (snd x) run"
        "condition_met fl (snd y) run"
      by (auto simp: eq)
    then show False
      using assms(2) by (metis eq_key_imp_eq_value prod.collapse)
  qed
  then have "distinct (skipped @ ready)"
    using assms(2) by (simp add: eq distinct_map_filter)
  then have "distinct (names skipped @ names ready)"
    using distinct_names [of "skipped @ ready"] by (simp add: names_append)
  moreover have "\<exists>n. map_of (wr_nodes run) nid = Some n \<and> is_pending n" if "nid \<in> set (names skipped @ names ready)" for nid
  proof -
    have "YStr nid \<in> set ready \<union> set skipped"
      using that by (auto simp: set_names)
    then show ?thesis
      by (rule ready_pending [OF assms(1)]) simp
  qed
  ultimately show ?thesis
    using assms(3,4) by (auto simp: awaiting_def)
qed

lemma run_once_honest:
  assumes "run_once env key dk = Inr dk'" "awaiting key [] dk"
  shows "awaiting key [] dk'"
proof -
  obtain run ys ready skipped dk1 where r: "stored_run key dk = Some run"
    "\<exists>t. index_nodes (wd_nodes (parse_workflow t)) [] = Inr ys"
    "compute_ready_nodes (re_floats env) ys (wr_nodes run) run = Inr (ready, skipped)"
    "dk1 = mark_skipped env key ''condition false'' (names skipped) dk"
    "dk' = mark_skipped env key ''context budget too high for parallel dispatch'' (names ready) dk1
     \<or> (\<exists>r. execute_wave env key r ys (names ready) dk1 = (True, dk'))"
    using assms(1) by (rule run_once_Inr)
  have "honest run"
    using assms(2) r(1) by (auto simp: awaiting_def)
  moreover have "distinct (map fst ys)"
    using r(2) index_nodes_distinct by fastforce
  ultimately have w: "awaiting key (names skipped @ names ready) dk" "distinct (names skipped @ names ready)"
    using ready_awaiting [OF r(3) _ r(1)] by auto
  then have "awaiting key (names ready) dk1" "distinct (names ready)"
    using mark_skipped_awaiting [OF w] r(4) by auto
  then show ?thesis
    using r(5) mark_skipped_awaiting [of key "names ready" "[]" dk1] execute_wave_awaiting by auto
qed

lemma run_once_completed:
  assumes "run_once env key dk = Inl (Final ''completed'', dk')" "awaiting key [] dk"
  shows "\<exists>run. stored_run key dk' = Some run \<and> all_done run"
proof -
  obtain run where run: "stored_run key dk = Some run" "honest run"
    using assms(2) by (auto simp: awaiting_def)
  have idle: "all_done r" if "idle_status r = ''completed''" for r
    using that by (auto simp: idle_status_def all_done_def list_all_iff Let_def split: if_splits)
  show ?thesis
  proof (cases "wr_status run \<in> {''completed'', ''completed_with_failures'', ''aborted'', ''paused''}")
    case True
    then have "wr_status run = ''completed''" "dk' = dk"
      using assms(1) run(1) by (simp_all add: run_once_def)
    then show ?thesis
      using run by (auto simp: honest_def)
  next
    case False
    then obtain ready skipped where "dk' = mark_skipped env key ''condition false'' (names skipped) dk"
        "idle_status (case stored_run key dk' of None \<Rightarrow> run | Some r \<Rightarrow> r) = ''completed''"
      using assms(1) run(1)
      by (auto simp: run_once_def Let_def split: option.splits sum.splits prod.splits if_splits)
    moreover from this have "stored_run key dk' \<noteq> None"
      using mark_skipped_advances [of key env] run(1) by (simp add: advances_def)
    ultimately show ?thesis
      using idle by auto
  qed
qed


definition sample_env :: "rat runner_env" where
  "sample_env = \<lparr>re_floats = sample_floats, re_file = sample_file, re_session = (\<lambda>d. None),
     re_full = (\<lambda>n. \<lparr>fn_completion_check = Some ''py -m tool check'', fn_completion_contains = Some ''OK''\<rparr>),
     re_invoke = (\<lambda>s n. (True, ''loaded'')), re_subprocess = (\<lambda>argv. Exited 0 ''OK''), re_budget = BudgetOk,
     re_now = ''t1'', re_duration = (\<lambda>n. ''0.1''), re_dry_run = False\<rparr>"


text \<open>A run that ends with unverified nodes stands in the way of the next one. The runner reports
  \<open>completed_with_unverified\<close> but leaves the stored status at running, so starting the workflow again
  resumes the finished run instead of opening a new one, and running it does nothing.\<close>

theorem finished_run_blocks_restart:
  assumes "read_state dk = Inr [(key, run)]" "wr_workflow run = name" "wr_status run = ''running''"
    and "set (statuses run) \<subseteq> Some ` JStr ` {''completed'', ''skipped'', ''unverified''}"
    and "Some (JStr ''unverified'') \<in> set (statuses run)"
    and "wr_yaml_path run \<noteq> []" "re_file env (wr_yaml_path run) = Some t"
    and "index_nodes (wd_nodes (parse_workflow t)) [] = Inr ys"
    and "file yp = Some t'" "extract_node_ids t' \<noteq> []"
  shows "\<exists>dk'. cmd_start file d name yp rp epoch now wo dk = Inr (key, dk') \<and> read_state dk' = Inr [(key, run)]
    \<and> run_loop env key 1 dk' = Some (Final ''completed_with_unverified'', dk')"
proof -
  let ?dk = "write_checkpoint key (wr_current run) ''running'' (write_state [(key, run)] dk)"
  have start: "cmd_start file d name yp rp epoch now wo dk = Inr (key, ?dk)"
    using assms(1-3,9,10) by (simp add: cmd_start_def start_locked_def find_resumable_def TERMINAL_def)
  have none: "node_status (state_node (wr_nodes run) nid) \<noteq> Some (JStr ''pending'')" for nid
  proof (cases "ystr nid")
    case (Some s)
    then show ?thesis
      using assms(4) by (cases "map_of (wr_nodes run) s")
        (force simp: state_node_def node_status_def [of "[]"] dest: map_of_SomeD)+
  qed (simp add: state_node_def node_status_def)
  have ready: "compute_ready_nodes (re_floats env) zs (wr_nodes run) run = Inr ([], [])" for zs
    using none by (induction zs) auto
  have "running_nodes (wr_nodes run) = []"
    using assms(4) by (force simp: running_nodes_def filter_empty_conv)
  moreover have "\<not> set (statuses run) \<subseteq> Some ` JStr ` {''completed'', ''skipped''}"
    using assms(5) by auto
  ultimately have idle: "idle_status run = ''completed_with_unverified''"
    using assms(4) by (simp add: idle_status_def Let_def)
  have stored: "stored_run key ?dk = Some run"
    by (simp add: stored_run_def write_checkpoint_def write_state_def)
  have "run_once env key ?dk = Inl (Final ''completed_with_unverified'', ?dk)"
    using assms(3,6-8) stored ready idle by (simp add: run_once_def mark_skipped_def names_simps Let_def)
  then show ?thesis
    using start by simp
qed

definition unverified_run :: wf_run where
  "unverified_run = started_run\<lparr>wr_nodes := map (\<lambda>n. (fst n, [(''status'', JStr ''unverified'')])) sample_nodes\<rparr>"

definition unverified_disk :: wf_disk where
  "unverified_disk = \<lparr>dk_state = Stored 1 [(''ship-100'', unverified_run)], dk_checkpoint = None, dk_archived = []\<rparr>"

theorem finished_run_blocks_restart_witness:
  "\<exists>dk'. cmd_start sample_file None ''ship'' ''/repo/ship.yaml'' ''/repo/ship.yaml'' ''200'' ''t2'' ''wo-2'' unverified_disk
      = Inr (''ship-100'', dk')
    \<and> run_loop sample_env ''ship-100'' 1 dk' = Some (Final ''completed_with_unverified'', dk')"
proof -
  let ?t = "py_join [CHR 0x0A] (show_nodes sample_nodes)"
  have read: "read_state unverified_disk = Inr [(''ship-100'', unverified_run)]"
    by (simp add: unverified_disk_def read_state_def SCHEMA_VERSION_def)
  have run: "wr_workflow unverified_run = ''ship''" "wr_status unverified_run = ''running''"
    "set (statuses unverified_run) \<subseteq> Some ` JStr ` {''completed'', ''skipped'', ''unverified''}"
    "Some (JStr ''unverified'') \<in> set (statuses unverified_run)" "wr_yaml_path unverified_run \<noteq> []"
    by (simp_all add: unverified_run_def started_run_def new_run_def sample_nodes_def node_status_def)
  have fl: "re_file sample_env (wr_yaml_path unverified_run) = Some ?t" "sample_file ''/repo/ship.yaml'' = Some ?t"
    by (simp_all add: sample_env_def sample_file_def unverified_run_def started_run_def new_run_def)
  have ix: "index_nodes (wd_nodes (parse_workflow ?t)) [] = Inr sample_index" "extract_node_ids ?t \<noteq> []"
    by code_simp+
  show ?thesis
    using finished_run_blocks_restart [OF read run fl(1) ix(1), of sample_file "''/repo/ship.yaml''" ?t] fl(2) ix(2)
    by blast
qed

end
