(* ===== verification/File_Lock.thy ===== *)
theory File_Lock
  imports Main
begin

text \<open>
  The lock around \<open>workflows.json\<close> (\<open>_file_lock\<close> of \<open>control/execution/workflow/engine.py\<close>) as a
  step relation over any number of processes. A process waits until it can create the lock file
  exclusively; one that waits past its deadline unlinks the file and creates it anew; leaving the
  critical section unlinks the file, whoever created it. The flag \<open>expiring\<close> says whether deadlines
  may pass.
\<close>

section \<open>The lock\<close>

datatype phase =
    Idle          \<comment> \<open>has not called the lock\<close>
  | Waiting       \<comment> \<open>in the loop around \<open>os.open\<close>\<close>
  | Stealing      \<comment> \<open>past the deadline, after the unlink, before the second \<open>os.open\<close>\<close>
  | Critical      \<comment> \<open>in the body of the \<open>with\<close> statement\<close>
  | Released
  | Crashed       \<comment> \<open>the second \<open>os.open\<close> raised\<close>

record lock_state =
  lock_file :: bool
  phase_of :: "nat \<Rightarrow> phase"

definition goto :: "nat \<Rightarrow> phase \<Rightarrow> bool \<Rightarrow> lock_state \<Rightarrow> lock_state" where
  "goto p ph file s = s\<lparr>lock_file := file, phase_of := (phase_of s)(p := ph)\<rparr>"

inductive lock_step :: "bool \<Rightarrow> lock_state \<Rightarrow> lock_state \<Rightarrow> bool" for expiring :: bool where
  call: "phase_of s p = Idle \<Longrightarrow> lock_step expiring s (goto p Waiting (lock_file s) s)"
| create: "phase_of s p = Waiting \<Longrightarrow> \<not> lock_file s \<Longrightarrow> lock_step expiring s (goto p Critical True s)"
| retry: "phase_of s p = Waiting \<Longrightarrow> lock_file s \<Longrightarrow> lock_step expiring s s"
| unlink: "expiring \<Longrightarrow> phase_of s p = Waiting \<Longrightarrow> lock_file s \<Longrightarrow>
    lock_step expiring s (goto p Stealing False s)"
| unlink_fails: "expiring \<Longrightarrow> phase_of s p = Waiting \<Longrightarrow> lock_file s \<Longrightarrow>
    lock_step expiring s (goto p Stealing True s)"
| create_again: "phase_of s p = Stealing \<Longrightarrow> \<not> lock_file s \<Longrightarrow>
    lock_step expiring s (goto p Critical True s)"
| create_raises: "phase_of s p = Stealing \<Longrightarrow> lock_file s \<Longrightarrow>
    lock_step expiring s (goto p Crashed (lock_file s) s)"
| release: "phase_of s p = Critical \<Longrightarrow> lock_step expiring s (goto p Released False s)"

definition lock_init :: lock_state where
  "lock_init = \<lparr>lock_file = False, phase_of = (\<lambda>p. Idle)\<rparr>"

section \<open>Exclusion\<close>

text \<open>The file exists exactly while one process is in its critical section, and only one is.\<close>

definition exclusive :: "lock_state \<Rightarrow> bool" where
  "exclusive s \<longleftrightarrow> (\<forall>p q. phase_of s p = Critical \<and> phase_of s q = Critical \<longrightarrow> p = q)
     \<and> (lock_file s = (\<exists>p. phase_of s p = Critical)) \<and> (\<forall>p. phase_of s p \<noteq> Stealing)"

lemma exclusive_step: "lock_step False s s' \<Longrightarrow> exclusive s \<Longrightarrow> exclusive s'"
proof (induction rule: lock_step.induct)
  case (call s p)
  then have "phase_of (goto p Waiting (lock_file s) s) q = Critical \<longleftrightarrow> phase_of s q = Critical" for q
    by (simp add: goto_def)
  then show ?case
    using call by (simp add: exclusive_def) (simp add: goto_def)
next
  case (create s p)
  then show ?case
    by (auto simp: exclusive_def goto_def)
next
  case (release s p)
  then show ?case
    by (auto simp: exclusive_def goto_def)
qed (auto simp: exclusive_def goto_def)


definition one_holds :: lock_state where
  "one_holds = goto 0 Critical True (goto 0 Waiting False lock_init)"

lemma one_holds_reached: "(lock_step e)\<^sup>*\<^sup>* lock_init one_holds"
proof -
  have "lock_step e lock_init (goto 0 Waiting False lock_init)"
    using lock_step.call [of lock_init 0 e] by (simp add: lock_init_def)
  moreover have "lock_step e (goto 0 Waiting False lock_init) one_holds"
    unfolding one_holds_def by (rule lock_step.create) (simp_all add: goto_def lock_init_def)
  ultimately show ?thesis
    by (meson converse_rtranclp_into_rtranclp r_into_rtranclp)
qed


text \<open>Past a deadline it does not. A waiter that runs into its deadline unlinks the lock of a
  process that is still working and enters beside it; when that process leaves it unlinks the
  waiter's lock in turn, so the waiter works on with no lock file at all.\<close>

theorem lock_timeout_breaks_exclusion:
  "(\<exists>s. (lock_step True)\<^sup>*\<^sup>* lock_init s \<and> phase_of s 0 = Critical \<and> phase_of s 1 = Critical)
   \<and> (\<exists>s. (lock_step True)\<^sup>*\<^sup>* lock_init s \<and> phase_of s 1 = Critical \<and> \<not> lock_file s)"
proof -
  let ?w = "goto 1 Waiting True one_holds"
  let ?u = "goto 1 Stealing False ?w"
  let ?both = "goto 1 Critical True ?u"
  have "lock_step True one_holds ?w"
    using lock_step.call [of one_holds 1 True] by (simp add: one_holds_def goto_def lock_init_def)
  with one_holds_reached have w: "(lock_step True)\<^sup>*\<^sup>* lock_init ?w"
    by (rule rtranclp.rtrancl_into_rtrancl)
  have u: "(lock_step True)\<^sup>*\<^sup>* lock_init ?u"
    using w by (rule rtranclp.rtrancl_into_rtrancl) (rule lock_step.unlink, simp_all add: goto_def)
  have both: "(lock_step True)\<^sup>*\<^sup>* lock_init ?both"
    using u by (rule rtranclp.rtrancl_into_rtrancl) (rule lock_step.create_again, simp_all add: goto_def)
  have c: "phase_of ?both 0 = Critical" "phase_of ?both 1 = Critical"
    by (simp_all add: goto_def one_holds_def)
  have "(lock_step True)\<^sup>*\<^sup>* lock_init (goto 0 Released False ?both)"
    using both lock_step.release [OF c(1)] by (rule rtranclp.rtrancl_into_rtrancl)
  moreover have "phase_of (goto 0 Released False ?both) 1 = Critical" "\<not> lock_file (goto 0 Released False ?both)"
    by (simp_all add: goto_def)
  ultimately show ?thesis
    using both c by blast
qed

end
