(* ===== verification/Acceptance_Checks.thy ===== *)
theory Acceptance_Checks
  imports Completion_Check Py_Text
begin

text \<open>
  Executable acceptance criteria (\<^verbatim>\<open>core/work_orders/verify_executor.py\<close>): which lines of a task name a
  check, how a check becomes a command, how its outcome is recorded, and the run and the preview
  over all tasks of a work order. Running a query, a command or a request is a parameter
  (\<open>executor\<close>); \<open>shlex.split\<close> is modelled in full, escapes included.
\<close>

section \<open>Which lines name a check\<close>

text \<open>\<open>[A-Z][A-Z0-9_]*-CHECK:\<close> at the start of a line, letters of either case, then the expression:
  what follows the colon and any whitespace, up to a line feed.\<close>

definition check_token :: "string \<Rightarrow> (string \<times> string) option" where
  "check_token raw_line =
     (let line = py_strip raw_line; kind = takeWhile ascii_word line; rest = dropWhile ascii_word line in
      if kind = [] \<or> \<not> ascii_letter (hd kind) then None
      else if prefix_nocase ''-CHECK:'' rest
      then Some (kind @ take 6 rest, rest_of_line (dropWhile py_isspace (drop 7 rest)))
      else None)"

record wo_task =
  wt_id :: string
  wt_title :: string
  wt_status :: string
  wt_criteria :: string

definition check_lines :: "wo_task \<Rightarrow> (string \<times> string) list" where
  "check_lines t =
     List.map_filter (\<lambda>l. map_option (\<lambda>(token, expr). (py_upper token, py_strip expr)) (check_token l))
       (py_splitlines (wt_criteria t))"

section \<open>Splitting a command\<close>

datatype sh_state =
    SBetween
  | SWord string
  | SQuoted char string
  | SEscape string
  | SEscapeIn char string

definition escape_char :: char where
  "escape_char = CHR 0x5C"

text \<open>\<open>shlex.split(s, posix=True)\<close>; None is \<open>ValueError\<close> (no closing quotation, no escaped
  character). A backslash escapes any character outside quotes, only itself and the quote inside
  double quotes, and nothing inside single quotes.\<close>

fun sh_lex :: "sh_state \<Rightarrow> string \<Rightarrow> string list option" where
  "sh_lex SBetween [] = Some []"
| "sh_lex (SWord w) [] = Some [w]"
| "sh_lex (SQuoted q w) [] = None"
| "sh_lex (SEscape w) [] = None"
| "sh_lex (SEscapeIn q w) [] = None"
| "sh_lex SBetween (c # s) =
     (if shlex_space c then sh_lex SBetween s
      else if c = escape_char then sh_lex (SEscape []) s
      else if is_quote c then sh_lex (SQuoted c []) s
      else sh_lex (SWord [c]) s)"
| "sh_lex (SWord w) (c # s) =
     (if shlex_space c then map_option (\<lambda>ts. w # ts) (sh_lex SBetween s)
      else if is_quote c then sh_lex (SQuoted c w) s
      else if c = escape_char then sh_lex (SEscape w) s
      else sh_lex (SWord (w @ [c])) s)"
| "sh_lex (SQuoted q w) (c # s) =
     (if c = q then sh_lex (SWord w) s
      else if c = escape_char \<and> q = CHR 0x22 then sh_lex (SEscapeIn q w) s
      else sh_lex (SQuoted q (w @ [c])) s)"
| "sh_lex (SEscape w) (c # s) = sh_lex (SWord (w @ [c])) s"
| "sh_lex (SEscapeIn q w) (c # s) =
     sh_lex (SQuoted q (if c = escape_char \<or> c = q then w @ [c] else w @ [escape_char, c])) s"

definition sh_split :: "string \<Rightarrow> string list option" where
  "sh_split s = sh_lex SBetween s"

datatype cmd_form =
    NotCmd
  | CmdUnparseable
  | CmdEmpty
  | CmdArgv "string list"

definition cmd_argv :: "string \<Rightarrow> cmd_form" where
  "cmd_argv expr =
     (let stripped = py_strip expr in
      if py_lower (take 4 stripped) \<noteq> ''cmd:'' then NotCmd
      else (case sh_split (py_strip (drop 4 stripped)) of
              None \<Rightarrow> CmdUnparseable
            | Some [] \<Rightarrow> CmdEmpty
            | Some argv \<Rightarrow> CmdArgv argv))"

section \<open>Running one check\<close>

text \<open>What a subprocess, a query and a request can do. \<open>target\<close> is \<open>targeted_command\<close> of the
  project's standards: nothing declared, a command line, or a refusal.\<close>

datatype run_result = Exited int string | TimedOut | CommandNotFound | RunRaised string string

datatype sql_result = NoRows | SqlValue bool | SqlRaised string

datatype api_result = NoApp | UnsupportedMethod | Response int string | RequestFailed

datatype targeting = NoTarget | TargetCommand string | TargetRefused string

record executor =
  ex_run :: "string list \<Rightarrow> run_result"
  ex_sql :: "string \<Rightarrow> sql_result"
  ex_api :: "string \<Rightarrow> string \<Rightarrow> api_result"
  ex_target :: "string \<Rightarrow> targeting"
  ex_python :: string
  ex_root :: "string option"

datatype check_error =
    CheckNoRows
  | CheckRaised string
  | CheckUnparseable
  | CheckEmpty
  | CheckRefused string
  | CheckTimedOut
  | CheckNotFound
  | CheckExit int
  | CheckBadExpectation
  | CheckNoApp
  | CheckUnsupported
  | CheckStatus int
  | CheckEmptyBody
  | CheckUnknownKind

record check =
  ck_kind :: string
  ck_expr :: string
  ck_passed :: "bool option"
  ck_error :: "check_error option"
  ck_executed :: bool
  ck_unaddressed :: bool
  ck_not_run :: bool

definition new_check :: "string \<Rightarrow> string \<Rightarrow> check" where
  "new_check kind expr = \<lparr>ck_kind = kind, ck_expr = expr, ck_passed = Some False, ck_error = None,
     ck_executed = False, ck_unaddressed = False, ck_not_run = False\<rparr>"

definition failing :: "check_error \<Rightarrow> check \<Rightarrow> check" where
  "failing e c = c\<lparr>ck_error := Some e\<rparr>"

text \<open>A falsy first column fails without an error text.\<close>

definition run_one_sql_check :: "executor \<Rightarrow> string \<Rightarrow> check" where
  "run_one_sql_check ex expr =
     (let c = new_check ''SQL-CHECK'' expr in
      case ex_sql ex expr of
        NoRows \<Rightarrow> failing CheckNoRows c
      | SqlValue v \<Rightarrow> c\<lparr>ck_passed := Some v\<rparr>
      | SqlRaised e \<Rightarrow> failing (CheckRaised e) c)"

definition UNADDRESSED_EXITS :: "int list" where
  "UNADDRESSED_EXITS = [4, 5]"

text \<open>After \<open>subprocess.run\<close>: the exit code decides.\<close>

definition after_run :: "bool \<Rightarrow> run_result \<Rightarrow> check \<Rightarrow> check" where
  "after_run is_cmd r c =
     (case r of
        Exited code output \<Rightarrow>
          let c1 = c\<lparr>ck_passed := Some (code = 0), ck_executed := True\<rparr> in
          if code = 0 then c1
          else failing (CheckExit code) (c1\<lparr>ck_unaddressed := code \<in> set UNADDRESSED_EXITS \<and> \<not> is_cmd\<rparr>)
      | TimedOut \<Rightarrow> failing CheckTimedOut c
      | CommandNotFound \<Rightarrow> failing CheckNotFound c
      | RunRaised ty e \<Rightarrow> failing (CheckRaised e) c)"

definition pytest_argv :: "executor \<Rightarrow> string \<Rightarrow> string list" where
  "pytest_argv ex node = [ex_python ex, ''-m'', ''pytest'', node, ''-q'', ''--tb=short'', ''--no-header'']"

definition run_one_test_check :: "executor \<Rightarrow> string \<Rightarrow> check" where
  "run_one_test_check ex expr =
     (let c = new_check ''TEST-CHECK'' expr; stripped = py_strip expr in
      case cmd_argv stripped of
        CmdUnparseable \<Rightarrow> failing CheckUnparseable c
      | CmdEmpty \<Rightarrow> failing CheckEmpty c
      | CmdArgv argv \<Rightarrow> after_run True (ex_run ex argv) c
      | NotCmd \<Rightarrow>
          (case ex_target ex stripped of
             TargetRefused reason \<Rightarrow> failing (CheckRefused reason) c
           | NoTarget \<Rightarrow> after_run False (ex_run ex (pytest_argv ex stripped)) c
           | TargetCommand command \<Rightarrow>
               if command = [] then after_run False (ex_run ex (pytest_argv ex stripped)) c
               else (case sh_split command of
                       None \<Rightarrow> failing CheckUnparseable c
                     | Some argv \<Rightarrow> after_run False (ex_run ex argv) c)))"

text \<open>\<open>^(\\w+)\\s+(\\S+)(?:\\s*->\\s*(\\S+))?$\<close> on a stripped expression: the method, the longest path that
  leaves nothing or an arrow and one more word, and that word. \<open>api_tail\<close> reads what follows the
  path.\<close>

definition api_tail :: "string \<Rightarrow> string option option" where
  "api_tail r =
     (if r = [] then Some None
      else let a = dropWhile py_isspace r in
        if \<not> py_startswith a ''->'' then None
        else let e = dropWhile py_isspace (drop 2 a) in
          if e = [] \<or> list_ex py_isspace e then None else Some (Some e))"

fun api_path :: "nat \<Rightarrow> string \<Rightarrow> (string \<times> string option) option" where
  "api_path 0 t = None"
| "api_path (Suc k) t =
     (case api_tail (drop (Suc k) t) of
        Some e \<Rightarrow> Some (take (Suc k) t, e)
      | None \<Rightarrow> api_path k t)"

definition api_parse :: "string \<Rightarrow> (string \<times> string \<times> string option) option" where
  "api_parse expr =
     (let meth = takeWhile regex_word expr; r = dropWhile regex_word expr; t = dropWhile py_isspace r in
      if meth = [] \<or> r = t then None
      else map_option (\<lambda>(path, e). (meth, path, e)) (api_path (length (takeWhile (\<lambda>c. \<not> py_isspace c) t)) t))"

definition run_one_api_check :: "executor \<Rightarrow> string \<Rightarrow> check" where
  "run_one_api_check ex expr =
     (let c = new_check ''API-CHECK'' expr in
      case api_parse (py_strip expr) of
        None \<Rightarrow> failing CheckUnparseable c
      | Some (meth, path, expectation) \<Rightarrow>
          (case (case expectation of None \<Rightarrow> Some None | Some e \<Rightarrow> map_option Some (py_int e)) of
             None \<Rightarrow> failing CheckBadExpectation c
           | Some expected \<Rightarrow>
               (case ex_api ex (py_lower (py_upper meth)) path of
                  NoApp \<Rightarrow> failing CheckNoApp c
                | UnsupportedMethod \<Rightarrow> failing CheckUnsupported c
                | RequestFailed \<Rightarrow> failing (CheckRaised ''request failed'') c
                | Response status body \<Rightarrow>
                    let status_ok = (case expected of Some e \<Rightarrow> status = e | None \<Rightarrow> 200 \<le> status \<and> status < 300);
                        body_ok = py_strip body \<noteq> [];
                        c1 = c\<lparr>ck_passed := Some (status_ok \<and> body_ok)\<rparr>
                    in if \<not> status_ok then failing (CheckStatus status) c1
                       else if \<not> body_ok then failing CheckEmptyBody c1
                       else c1)))"

section \<open>All checks of a work order\<close>

definition run_check :: "executor \<Rightarrow> string \<times> string \<Rightarrow> check" where
  "run_check ex line =
     (let (token, expr) = line in
      if token = ''SQL-CHECK'' then run_one_sql_check ex expr
      else if token = ''TEST-CHECK'' then run_one_test_check ex expr
      else if token = ''API-CHECK'' then run_one_api_check ex expr
      else failing CheckUnknownKind (new_check token expr))"

definition NOT_RUN_KINDS :: "string list" where
  "NOT_RUN_KINDS = [''TEST-CHECK'', ''API-CHECK'', ''SQL-CHECK'']"

definition preview_check :: "string \<times> string \<Rightarrow> check" where
  "preview_check line =
     (let (token, expr) = line in
      if token \<in> set NOT_RUN_KINDS then (new_check token expr)\<lparr>ck_passed := None, ck_not_run := True\<rparr>
      else failing CheckUnknownKind (new_check token expr))"

type_synonym check_results = "(string \<times> check list) list"

text \<open>The results dictionary: a task whose title another one already has takes its place.\<close>

definition collect_checks :: "(string \<times> string \<Rightarrow> check) \<Rightarrow> wo_task list \<Rightarrow> check_results" where
  "collect_checks f ts =
     fold (\<lambda>t res. let checks = map f (check_lines t) in
             if checks = [] then res else AList.update (wt_title t) checks res) ts []"

definition run_executable_checks :: "executor \<Rightarrow> wo_task list \<Rightarrow> check_results" where
  "run_executable_checks ex ts = collect_checks (run_check ex) ts"

definition preview_executable_checks :: "wo_task list \<Rightarrow> check_results" where
  "preview_executable_checks ts = collect_checks preview_check ts"

abbreviation checks_of :: "check_results \<Rightarrow> check list" where
  "checks_of res \<equiv> concat (map snd res)"

text \<open>The payload status of the \<open>validation.result_recorded\<close> event of each executed check.\<close>

definition validation_events :: "check_results \<Rightarrow> (string \<times> string \<times> string) list" where
  "validation_events res =
     map (\<lambda>c. (ck_kind c, ck_expr c, if ck_passed c = Some True then ''passed'' else ''failed'')) (checks_of res)"

datatype execution_context = InProcessDirectory | InRoot string | AtDatabase | AtEndpoint | NothingExecuted

definition execution_context :: "string \<Rightarrow> string option \<Rightarrow> execution_context" where
  "execution_context kind proot =
     (if kind = ''TEST-CHECK'' then (case proot of None \<Rightarrow> InProcessDirectory | Some r \<Rightarrow> InRoot r)
      else if kind = ''SQL-CHECK'' then AtDatabase
      else if kind = ''API-CHECK'' then AtEndpoint
      else NothingExecuted)"

section \<open>How much of a verdict rests on execution\<close>

datatype test_basis = NoneRegistered | NotRunAtVerify | BasisExecuted

record test_execution =
  te_registered :: nat
  te_executed :: nat
  te_passed :: nat
  te_basis :: test_basis
  te_unexecuted :: "string list"

definition registers_test :: "string \<Rightarrow> bool" where
  "registers_test l = prefix_nocase ''TEST-CHECK:'' (dropWhile py_isspace l)"

definition record_test_execution :: "wo_task list \<Rightarrow> check_results \<Rightarrow> test_execution" where
  "record_test_execution ts res =
     (let registered = length (filter registers_test (concat (map (\<lambda>t. py_splitlines (wt_criteria t)) ts)));
          tests = filter (\<lambda>c. ck_kind c = ''TEST-CHECK'') (checks_of res);
          ran = filter ck_executed tests
      in \<lparr>te_registered = registered, te_executed = length ran,
          te_passed = length (filter (\<lambda>c. ck_passed c = Some True) ran),
          te_basis = (if registered = 0 then NoneRegistered else if ran \<noteq> [] then BasisExecuted else NotRunAtVerify),
          te_unexecuted = map (\<lambda>c. take 200 (ck_expr c)) (filter (\<lambda>c. \<not> ck_executed c) tests)\<rparr>)"

section \<open>Splitting without backslashes\<close>

text \<open>On text without backslashes the escapes never occur, and the splitter of the workflow checks
  gives the same words.\<close>

fun plain_state :: "lexing \<Rightarrow> sh_state" where
  "plain_state Between = SBetween"
| "plain_state (Word w) = SWord w"
| "plain_state (Quoted q w) = SQuoted q w"

lemma sh_lex_plain: "escape_char \<notin> set s \<Longrightarrow> sh_lex (plain_state st) s = shlex st s"
  by (induction st s rule: shlex.induct) (auto simp: escape_char_def)

lemma sh_split_plain: "escape_char \<notin> set s \<Longrightarrow> sh_split s = shlex_split s"
  using sh_lex_plain [of s Between] by (simp add: sh_split_def shlex_split_def)

section \<open>Single checks\<close>

lemma new_check_simps [simp]:
  "ck_kind (new_check k e) = k" "ck_expr (new_check k e) = e" "ck_passed (new_check k e) = Some False"
  "ck_executed (new_check k e) = False" "ck_unaddressed (new_check k e) = False"
  "ck_not_run (new_check k e) = False" "ck_error (new_check k e) = None"
  by (simp_all add: new_check_def)

lemma failing_simps [simp]:
  "ck_kind (failing x c) = ck_kind c" "ck_expr (failing x c) = ck_expr c"
  "ck_passed (failing x c) = ck_passed c" "ck_executed (failing x c) = ck_executed c"
  "ck_unaddressed (failing x c) = ck_unaddressed c" "ck_not_run (failing x c) = ck_not_run c"
  by (simp_all add: failing_def)

lemma after_run_simps [simp]:
  "ck_kind (after_run b r c) = ck_kind c" "ck_expr (after_run b r c) = ck_expr c"
  "ck_not_run (after_run b r c) = ck_not_run c"
  by (simp_all add: after_run_def Let_def split: run_result.split)

lemma after_run_passed:
  "ck_passed c = Some False \<Longrightarrow>
     (ck_passed (after_run b r c) = Some True \<longleftrightarrow> (\<exists>out. r = Exited 0 out))"
  by (auto simp: after_run_def Let_def split: run_result.split)

lemma after_run_unaddressed:
  "ck_passed c = Some False \<Longrightarrow> \<not> ck_unaddressed c \<Longrightarrow>
     ck_unaddressed (after_run b r c) \<longleftrightarrow> (\<exists>code out. r = Exited code out \<and> code \<in> {4, 5} \<and> \<not> b)"
  by (auto simp: after_run_def Let_def UNADDRESSED_EXITS_def split: run_result.split)

lemma test_check_simps [simp]:
  "ck_kind (run_one_test_check ex e) = ''TEST-CHECK''" "ck_expr (run_one_test_check ex e) = e"
  "ck_not_run (run_one_test_check ex e) = False"
  by (simp_all add: run_one_test_check_def Let_def split: cmd_form.split targeting.split option.split)

lemma sql_check_simps [simp]:
  "ck_kind (run_one_sql_check ex e) = ''SQL-CHECK''" "ck_expr (run_one_sql_check ex e) = e"
  "ck_not_run (run_one_sql_check ex e) = False"
  by (simp_all add: run_one_sql_check_def Let_def split: sql_result.split)

lemma api_check_simps [simp]:
  "ck_kind (run_one_api_check ex e) = ''API-CHECK''" "ck_expr (run_one_api_check ex e) = e"
  "ck_not_run (run_one_api_check ex e) = False"
  by (simp_all add: run_one_api_check_def Let_def split: option.split api_result.split prod.split)

lemma run_check_simps [simp]:
  "ck_kind (run_check ex l) = fst l" "ck_expr (run_check ex l) = snd l" "ck_not_run (run_check ex l) = False"
  by (auto simp: run_check_def split: prod.split)

lemma preview_check_simps [simp]:
  "ck_kind (preview_check l) = fst l" "ck_expr (preview_check l) = snd l"
  "ck_executed (preview_check l) = False" "ck_unaddressed (preview_check l) = False"
  by (auto simp: preview_check_def split: prod.split)

text \<open>The argument vectors a TEST-CHECK may run.\<close>

definition test_argv :: "executor \<Rightarrow> string \<Rightarrow> string list option" where
  "test_argv ex expr =
     (case cmd_argv expr of
        CmdArgv argv \<Rightarrow> Some argv
      | NotCmd \<Rightarrow>
          (case ex_target ex (py_strip expr) of
             TargetRefused r \<Rightarrow> None
           | TargetCommand command \<Rightarrow> if command = [] then Some (pytest_argv ex (py_strip expr)) else sh_split command
           | NoTarget \<Rightarrow> Some (pytest_argv ex (py_strip expr)))
      | _ \<Rightarrow> None)"

lemma cmd_argv_strip [simp]: "cmd_argv (py_strip e) = cmd_argv e"
  by (simp add: cmd_argv_def)

lemma run_one_test_check_argv:
  "ck_passed (run_one_test_check ex e) = Some True \<longleftrightarrow>
     (\<exists>argv out. test_argv ex e = Some argv \<and> ex_run ex argv = Exited 0 out)"
  by (simp add: run_one_test_check_def test_argv_def Let_def after_run_passed
      split: cmd_form.split targeting.split option.split)

section \<open>The results dictionary\<close>

lemma collect_checks_snoc:
  "collect_checks f (ts @ [t]) =
     (if check_lines t = [] then collect_checks f ts
      else AList.update (wt_title t) (map f (check_lines t)) (collect_checks f ts))"
  by (simp add: collect_checks_def Let_def)

lemma keys_update: "set (keys (AList.update k v al)) = insert k (set (keys al))"
  by (induction al) auto

lemma keys_collect_checks: "set (map fst (collect_checks f ts)) \<subseteq> wt_title ` set ts"
proof (induction ts rule: rev_induct)
  case Nil
  then show ?case by (simp add: collect_checks_def)
next
  case (snoc t ts)
  have "set (keys (collect_checks f (ts @ [t]))) \<subseteq> insert (wt_title t) (set (keys (collect_checks f ts)))"
    by (simp only: collect_checks_snoc keys_update split: if_split) blast
  also have "\<dots> \<subseteq> wt_title ` set (ts @ [t])"
    using snoc by (simp only: set_append image_Un) auto
  finally show ?case .
qed

lemma alist_update_fresh: "k \<notin> set (map fst al) \<Longrightarrow> AList.update k v al = al @ [(k, v)]"
  by (induction al) auto

lemma collect_checks_distinct:
  assumes "distinct (map wt_title ts)"
  shows "collect_checks f ts =
     map (\<lambda>t. (wt_title t, map f (check_lines t))) (filter (\<lambda>t. check_lines t \<noteq> []) ts)"
  using assms
proof (induction ts rule: rev_induct)
  case Nil
  then show ?case by (simp add: collect_checks_def)
next
  case (snoc t ts)
  have "wt_title t \<notin> set (map fst (collect_checks f ts))"
    using snoc.prems keys_collect_checks [of f ts] by auto
  with snoc show ?case
    by (simp add: collect_checks_snoc alist_update_fresh)
qed

lemma checks_of_distinct:
  "distinct (map wt_title ts) \<Longrightarrow> checks_of (collect_checks f ts) = map f (concat (map check_lines ts))"
  by (simp add: collect_checks_distinct) (induction ts; simp)

lemma set_update_subset: "set (map snd (AList.update k v al)) \<subseteq> insert v (set (map snd al))"
  by (induction al) auto

text \<open>With or without clashes, what is recorded are checks of the tasks.\<close>

lemma collect_checks_sub:
  "c \<in> set (checks_of (collect_checks f ts)) \<Longrightarrow> \<exists>t\<in>set ts. c \<in> f ` set (check_lines t)"
proof (induction ts rule: rev_induct)
  case Nil
  then show ?case by (simp add: collect_checks_def)
next
  case (snoc t ts)
  obtain cs where cs: "cs \<in> set (map snd (collect_checks f (ts @ [t])))" "c \<in> set cs"
    using snoc.prems by auto
  then consider "cs \<in> set (map snd (collect_checks f ts))" | "cs = map f (check_lines t)"
    using set_update_subset [of "wt_title t" "map f (check_lines t)" "collect_checks f ts"]
    by (auto simp only: collect_checks_snoc split: if_splits)
  then show ?case
  proof cases
    case 1
    then have "c \<in> set (checks_of (collect_checks f ts))"
      using cs(2) by auto
    with snoc.IH show ?thesis by auto
  next
    case 2
    with cs(2) show ?thesis by auto
  qed
qed

lemma collect_checks_shape:
  assumes "\<And>l. ck_kind (f l) = ck_kind (g l) \<and> ck_expr (f l) = ck_expr (g l)"
  shows "map (\<lambda>(k, cs). (k, map (\<lambda>c. (ck_kind c, ck_expr c)) cs)) (collect_checks f ts) =
         map (\<lambda>(k, cs). (k, map (\<lambda>c. (ck_kind c, ck_expr c)) cs)) (collect_checks g ts)"
proof (induction ts rule: rev_induct)
  case Nil
  then show ?case by (simp add: collect_checks_def)
next
  case (snoc t ts)
  have upd: "map (\<lambda>(k, cs). (k, h cs)) (AList.update x v al) =
             AList.update x (h v) (map (\<lambda>(k, cs). (k, h cs)) al)" for h :: "check list \<Rightarrow> (string \<times> string) list" and x v al
    by (induction al) auto
  have "map (\<lambda>c. (ck_kind c, ck_expr c)) (map f ls) = map (\<lambda>c. (ck_kind c, ck_expr c)) (map g ls)" for ls
    using assms by simp
  with snoc show ?case
    by (simp add: collect_checks_snoc upd del: map_map)
qed

section \<open>Properties\<close>

text \<open>What must have happened for a check to count as passed.\<close>

definition api_evidence :: "executor \<Rightarrow> string \<Rightarrow> bool" where
  "api_evidence ex expr \<longleftrightarrow>
     (\<exists>meth path expectation status body. api_parse (py_strip expr) = Some (meth, path, expectation) \<and>
        ex_api ex (py_lower (py_upper meth)) path = Response status body \<and> py_strip body \<noteq> [] \<and>
        (case expectation of None \<Rightarrow> 200 \<le> status \<and> status < 300 | Some e \<Rightarrow> py_int e = Some status))"

definition check_evidence :: "executor \<Rightarrow> string \<times> string \<Rightarrow> bool" where
  "check_evidence ex line \<longleftrightarrow>
     (let (token, expr) = line in
      (token = ''SQL-CHECK'' \<and> ex_sql ex expr = SqlValue True) \<or>
      (token = ''TEST-CHECK'' \<and> (\<exists>argv out. test_argv ex expr = Some argv \<and> ex_run ex argv = Exited 0 out)) \<or>
      (token = ''API-CHECK'' \<and> api_evidence ex expr))"

lemma run_one_sql_check_evidence:
  "ck_passed (run_one_sql_check ex e) = Some True \<longleftrightarrow> ex_sql ex e = SqlValue True"
  by (auto simp: run_one_sql_check_def Let_def split: sql_result.split)

lemma run_one_api_check_evidence:
  "ck_passed (run_one_api_check ex e) = Some True \<longleftrightarrow> api_evidence ex e"
  by (auto simp: run_one_api_check_def api_evidence_def Let_def split: option.splits api_result.splits)

lemma run_check_evidence: "ck_passed (run_check ex l) = Some True \<longleftrightarrow> check_evidence ex l"
  by (auto simp: run_check_def check_evidence_def run_one_test_check_argv run_one_sql_check_evidence
      run_one_api_check_evidence split: prod.split)

lemma recorded_check:
  assumes "c \<in> set (checks_of (run_executable_checks ex ts))"
  shows "c = run_check ex (ck_kind c, ck_expr c)"
proof -
  obtain t l where "t \<in> set ts" "c = run_check ex l"
    using collect_checks_sub assms unfolding run_executable_checks_def by fast
  then show ?thesis by simp
qed

text \<open>C8: A check of a work order is recorded as passed only on evidence: a query whose first column is
  truthy, a command that was run and exited with 0, or a response with the stated status (any 2xx when
  none is stated) and a body that is not blank. So a check of a kind the executor does not know, a query
  without rows, a command that cannot be split, a pytest node that is not found and a request that fails
  are never recorded as passed.\<close>

theorem passed_check_has_evidence:
  assumes "c \<in> set (checks_of (run_executable_checks ex ts))" and "ck_passed c = Some True"
  shows "check_evidence ex (ck_kind c, ck_expr c) \<and> ck_kind c \<in> {''SQL-CHECK'', ''TEST-CHECK'', ''API-CHECK''}"
proof -
  have "check_evidence ex (ck_kind c, ck_expr c)"
    using run_check_evidence recorded_check [OF assms(1)] assms(2) by metis
  then show ?thesis by (auto simp: check_evidence_def)
qed

definition sample_executor :: executor where
  "sample_executor = \<lparr>ex_run = (\<lambda>argv. if argv = [''npm'', ''test''] then Exited 0 [] else Exited 4 []),
     ex_sql = (\<lambda>q. NoRows), ex_api = (\<lambda>m p. NoApp), ex_target = (\<lambda>t. NoTarget),
     ex_python = ''python'', ex_root = None\<rparr>"

definition npm_task :: wo_task where
  "npm_task = \<lparr>wt_id = ''t1'', wt_title = ''a'', wt_status = ''complete'', wt_criteria = ''test-check: cmd: npm test''\<rparr>"

lemma npm_check_lines: "check_lines npm_task = [(''TEST-CHECK'', ''cmd: npm test'')]"
  by code_simp

lemma npm_argv: "cmd_argv ''cmd: npm test'' = CmdArgv [''npm'', ''test'']"
  by code_simp

lemma passed_check_has_evidence_witness:
  "check_evidence sample_executor (''TEST-CHECK'', ''cmd: npm test'')"
proof -
  let ?c = "run_check sample_executor (''TEST-CHECK'', ''cmd: npm test'')"
  have c: "?c \<in> set (checks_of (run_executable_checks sample_executor [npm_task]))"
    by (simp add: run_executable_checks_def collect_checks_def npm_check_lines)
  have "ck_passed ?c = Some True"
    by (simp add: run_check_def run_one_test_check_argv test_argv_def npm_argv sample_executor_def)
  from passed_check_has_evidence [OF c this] show ?thesis by simp
qed

text \<open>The preview of the checks is faithful to the run. It finds the same checks under the same titles,
  records none of them as passed, and whatever it does decide without running anything, the refusal of an
  unknown kind, is what the run decides for every executor.\<close>

theorem preview_matches_run:
  "map (\<lambda>(k, cs). (k, map (\<lambda>c. (ck_kind c, ck_expr c)) cs)) (preview_executable_checks ts) =
         map (\<lambda>(k, cs). (k, map (\<lambda>c. (ck_kind c, ck_expr c)) cs)) (run_executable_checks ex ts) \<and>
   list_all (\<lambda>c. ck_passed c \<noteq> Some True \<and> \<not> ck_executed c \<and>
           (ck_not_run c \<or> run_check ex (ck_kind c, ck_expr c) = c)) (checks_of (preview_executable_checks ts))"
proof (rule conjI)
  show "map (\<lambda>(k, cs). (k, map (\<lambda>c. (ck_kind c, ck_expr c)) cs)) (preview_executable_checks ts) =
        map (\<lambda>(k, cs). (k, map (\<lambda>c. (ck_kind c, ck_expr c)) cs)) (run_executable_checks ex ts)"
    unfolding preview_executable_checks_def run_executable_checks_def
    by (rule collect_checks_shape) simp
  have "ck_passed (preview_check l) \<noteq> Some True \<and>
      (ck_not_run (preview_check l) \<or> run_check ex l = preview_check l)" for l
    by (auto simp: preview_check_def run_check_def NOT_RUN_KINDS_def split: prod.split)
  then have each: "ck_passed (preview_check l) \<noteq> Some True \<and> \<not> ck_executed (preview_check l) \<and>
      (ck_not_run (preview_check l) \<or>
       run_check ex (ck_kind (preview_check l), ck_expr (preview_check l)) = preview_check l)" for l
    by simp
  show "list_all (\<lambda>c. ck_passed c \<noteq> Some True \<and> \<not> ck_executed c \<and>
      (ck_not_run c \<or> run_check ex (ck_kind c, ck_expr c) = c)) (checks_of (preview_executable_checks ts))"
    unfolding preview_executable_checks_def list_all_iff
  proof
    fix c assume "c \<in> set (checks_of (collect_checks preview_check ts))"
    then obtain l where "c = preview_check l"
      using collect_checks_sub [of c preview_check ts] by auto
    with each [of l] show "ck_passed c \<noteq> Some True \<and> \<not> ck_executed c \<and>
      (ck_not_run c \<or> run_check ex (ck_kind c, ck_expr c) = c)" by simp
  qed
qed

text \<open>When no two tasks share a title, every check line of every task is run and recorded exactly once,
  in order. When two tasks share a title and the later one has checks, the checks of the earlier one are
  dropped from the results, failures included: the dictionary is keyed by the title.\<close>

theorem same_title_hides_checks:
  "(distinct (map wt_title ts) \<longrightarrow>
     checks_of (run_executable_checks ex ts) = map (run_check ex) (concat (map check_lines ts))) \<and>
   (wt_title t1 = wt_title t2 \<and> check_lines t2 \<noteq> [] \<longrightarrow>
     run_executable_checks ex [t1, t2] = [(wt_title t2, map (run_check ex) (check_lines t2))])"
  by (simp add: run_executable_checks_def checks_of_distinct) (simp add: collect_checks_def Let_def)

definition broken_task :: wo_task where
  "broken_task = \<lparr>wt_id = ''t0'', wt_title = ''a'', wt_status = ''complete'', wt_criteria = ''FOO-CHECK: x''\<rparr>"

lemma broken_check_lines: "check_lines broken_task = [(''FOO-CHECK'', ''x'')]"
  by code_simp

lemma same_title_hides_checks_witness:
  "list_all (\<lambda>c. ck_passed c = Some True)
     (checks_of (run_executable_checks sample_executor [broken_task, npm_task])) \<and>
   ck_passed (run_check sample_executor (''FOO-CHECK'', ''x'')) = Some False"
proof -
  have "run_executable_checks sample_executor [broken_task, npm_task] =
      [(wt_title npm_task, map (run_check sample_executor) (check_lines npm_task))]"
    using same_title_hides_checks [of "[]" sample_executor broken_task npm_task]
    by (simp add: npm_check_lines) (simp add: npm_task_def broken_task_def)
  moreover have "ck_passed (run_check sample_executor (''TEST-CHECK'', ''cmd: npm test'')) = Some True"
    by (simp add: run_check_def run_one_test_check_argv test_argv_def npm_argv sample_executor_def)
  moreover have "ck_passed (run_check sample_executor (''FOO-CHECK'', ''x'')) = Some False"
    by (simp add: run_check_def)
  ultimately show ?thesis by (simp add: npm_check_lines)
qed

end
