(* ===== verification/Py_Regex.thy ===== *)
theory Py_Regex
  imports Py_Text
begin

text \<open>
  A model of the part of Python's \<open>re\<close> the sources use: literals, character classes, sequences,
  ordered alternatives, greedy repetition, groups and the end of the text. A pattern's matches at a
  place are listed in the order in which the backtracking matcher of \<open>re\<close> tries them, so \<open>match\<close> takes
  the first one, and \<open>search\<close>, \<open>findall\<close> and \<open>sub\<close> scan from left to right.
\<close>

datatype regex =
    Eps
  | Cls "char \<Rightarrow> bool"
  | Seq regex regex
  | Alt regex regex
  | Star regex
  | Grp nat regex
  | End

text \<open>A match is what it consumed, the groups it set (later entries are later groups) and the rest. The
  tests on lengths hold for every match; they let the recursion terminate on the rest of the text.\<close>

type_synonym rmatch = "string \<times> (nat \<times> string) list \<times> string"

function re_matches :: "regex \<Rightarrow> string \<Rightarrow> rmatch list" where
  "re_matches Eps s = [([], [], s)]"
| "re_matches (Cls p) s = (case s of [] \<Rightarrow> [] | c # t \<Rightarrow> if p c then [([c], [], t)] else [])"
| "re_matches (Seq r1 r2) s =
     concat (map (\<lambda>(c, g, t). if length t \<le> length s
       then map (\<lambda>(c', g', t'). (c @ c', g @ g', t')) (re_matches r2 t) else []) (re_matches r1 s))"
| "re_matches (Alt r1 r2) s = re_matches r1 s @ re_matches r2 s"
| "re_matches (Star r) s =
     concat (map (\<lambda>(c, g, t). if length t < length s
       then map (\<lambda>(c', g', t'). (c @ c', g @ g', t')) (re_matches (Star r) t) else []) (re_matches r s))
     @ [([], [], s)]"
| "re_matches (Grp n r) s = map (\<lambda>(c, g, t). (c, g @ [(n, c)], t)) (re_matches r s)"
| "re_matches End s = (if s = [] \<or> s = [CHR 0x0A] then [([], [], s)] else [])"
  by pat_completeness auto
termination
  by (relation "measures [\<lambda>(r, s). length s, \<lambda>(r, s). size r]") auto

definition re_match :: "regex \<Rightarrow> string \<Rightarrow> rmatch option" where
  "re_match r s = (case re_matches r s of [] \<Rightarrow> None | m # _ \<Rightarrow> Some m)"

fun re_search :: "regex \<Rightarrow> string \<Rightarrow> rmatch option" where
  "re_search r [] = re_match r []"
| "re_search r (c # s) = (case re_match r (c # s) of Some m \<Rightarrow> Some m | None \<Rightarrow> re_search r s)"

definition group_of :: "rmatch \<Rightarrow> nat \<Rightarrow> string option" where
  "group_of m n = map_of (rev (fst (snd m))) n"

text \<open>\<open>findall\<close> and \<open>sub\<close> for patterns that match no empty text: what a match consumed, in order, and
  the text with every match replaced.\<close>

function re_findall :: "regex \<Rightarrow> string \<Rightarrow> string list" where
  "re_findall r [] = []"
| "re_findall r (c # s) =
     (case re_match r (c # s) of
        Some (m, g, t) \<Rightarrow> if length t < length (c # s) then m # re_findall r t else re_findall r s
      | None \<Rightarrow> re_findall r s)"
  by pat_completeness auto
termination
  by (relation "measure (\<lambda>(r, s). length s)") auto

function re_sub :: "regex \<Rightarrow> string \<Rightarrow> string \<Rightarrow> string" where
  "re_sub r w [] = []"
| "re_sub r w (c # s) =
     (case re_match r (c # s) of
        Some (m, g, t) \<Rightarrow> if length t < length (c # s) then w @ re_sub r w t else c # re_sub r w s
      | None \<Rightarrow> c # re_sub r w s)"
  by pat_completeness auto
termination
  by (relation "measure (\<lambda>(r, w, s). length s)") auto

section \<open>Derived forms\<close>

definition Plus :: "regex \<Rightarrow> regex" where
  "Plus r = Seq r (Star r)"

definition Opt :: "regex \<Rightarrow> regex" where
  "Opt r = Alt r Eps"

fun Lit :: "string \<Rightarrow> regex" where
  "Lit [] = Eps"
| "Lit (c # s) = Seq (Cls (\<lambda>x. x = c)) (Lit s)"

fun LitNocase :: "string \<Rightarrow> regex" where
  "LitNocase [] = Eps"
| "LitNocase (c # s) = Seq (Cls (\<lambda>x. lower_char x = lower_char c)) (LitNocase s)"

fun AltOf :: "regex list \<Rightarrow> regex" where
  "AltOf [] = Cls (\<lambda>_. False)"
| "AltOf [r] = r"
| "AltOf (r # rs) = Alt r (AltOf rs)"

fun SeqOf :: "regex list \<Rightarrow> regex" where
  "SeqOf [] = Eps"
| "SeqOf (r # rs) = Seq r (SeqOf rs)"

section \<open>Laws\<close>

text \<open>Every match splits the text it was tried on.\<close>

declare re_matches.simps(5) [simp del]

lemma in_concat_map: "y \<in> set (concat (map f xs)) \<longleftrightarrow> (\<exists>x\<in>set xs. y \<in> set (f x))"
  by simp

lemma re_matches_SeqE:
  assumes "(m, g, t) \<in> set (re_matches (Seq r1 r2) s)"
  obtains c1 g1 t1 c2 g2 where "(c1, g1, t1) \<in> set (re_matches r1 s)" "length t1 \<le> length s"
    "(c2, g2, t) \<in> set (re_matches r2 t1)" "m = c1 @ c2" "g = g1 @ g2"
proof -
  obtain x where x: "x \<in> set (re_matches r1 s)" "(m, g, t) \<in> set (case x of (c, g, t) \<Rightarrow>
      if length t \<le> length s then map (\<lambda>(c', g', t'). (c @ c', g @ g', t')) (re_matches r2 t) else [])"
    using assms by (simp only: re_matches.simps(3) in_concat_map) blast
  obtain c1 g1 t1 where "x = (c1, g1, t1)" by (cases x)
  with x that show ?thesis by (auto split: if_splits)
qed

lemma re_matches_StarE:
  assumes "(m, g, t) \<in> set (re_matches (Star r) s)"
  obtains "m = []" "g = []" "t = s"
  | c1 g1 t1 c2 g2 where "(c1, g1, t1) \<in> set (re_matches r s)" "length t1 < length s"
    "(c2, g2, t) \<in> set (re_matches (Star r) t1)" "m = c1 @ c2" "g = g1 @ g2"
proof (cases "(m, g, t) = ([], [], s)")
  case True
  then show ?thesis using that(1) by simp
next
  case False
  then have "(m, g, t) \<notin> set [([], [], s)]" by simp
  then obtain x where x: "x \<in> set (re_matches r s)" "(m, g, t) \<in> set (case x of (c, g, t) \<Rightarrow>
      if length t < length s then map (\<lambda>(c', g', t'). (c @ c', g @ g', t')) (re_matches (Star r) t) else [])"
    using assms unfolding re_matches.simps(5) [of r s] set_append Un_iff in_concat_map by blast
  obtain c1 g1 t1 where "x = (c1, g1, t1)" by (cases x)
  with x that(2) show ?thesis by (auto split: if_splits)
qed

lemma re_matches_split: "(m, g, t) \<in> set (re_matches r s) \<Longrightarrow> s = m @ t"
proof (induction r s arbitrary: m g t rule: re_matches.induct)
  case (2 p s)
  then show ?case by (auto split: list.splits if_splits)
next
  case (3 r1 r2 s)
  from "3.prems" obtain c1 g1 t1 c2 g2 where 1: "(c1, g1, t1) \<in> set (re_matches r1 s)"
    and len: "length t1 \<le> length s" and 2: "(c2, g2, t) \<in> set (re_matches r2 t1)" and m: "m = c1 @ c2"
    by (rule re_matches_SeqE)
  have "s = c1 @ t1" "t1 = c2 @ t"
    using "3.IH"(1) [OF 1] "3.IH"(2) [OF 1 refl refl len 2] by auto
  with m show ?case by simp
next
  case (5 r s)
  from "5.prems" show ?case
  proof (rule re_matches_StarE)
    fix c1 g1 t1 c2 g2
    assume 1: "(c1, g1, t1) \<in> set (re_matches r s)" and len: "length t1 < length s"
      and 2: "(c2, g2, t) \<in> set (re_matches (Star r) t1)" and m: "m = c1 @ c2"
    have "s = c1 @ t1" "t1 = c2 @ t"
      using "5.IH"(1) [OF 1] "5.IH"(2) [OF 1 refl refl len 2] by auto
    with m show ?thesis by simp
  qed simp
next
  case (6 n r s)
  then show ?case by auto
qed (auto split: if_splits)

lemma re_match_split: "re_match r s = Some (m, g, t) \<Longrightarrow> s = m @ t"
  using re_matches_split [of m g t r s] by (auto simp: re_match_def split: list.splits)

lemma re_findall_sublist: "m \<in> set (re_findall r s) \<Longrightarrow> sublist m s"
proof (induction r s rule: re_findall.induct)
  case (2 r c s)
  show ?case
  proof (cases "re_match r (c # s)")
    case None
    with 2 show ?thesis by (auto simp: sublist_Cons_right)
  next
    case (Some x)
    obtain m' g t where x: "x = (m', g, t)"
      by (cases x)
    have st: "c # s = m' @ t"
      using re_match_split Some x by metis
    show ?thesis
    proof (cases "length t < length (c # s)")
      case True
      then consider "m = m'" | "m \<in> set (re_findall r t)"
        using 2(4) Some x by auto
      then show ?thesis
      proof cases
        case 1
        then show ?thesis using st by (metis sublist_append_rightI)
      next
        case 2
        then have "sublist m t"
          using "2.IH"(2) [OF Some [unfolded x] refl refl True] by simp
        then show ?thesis using st by (metis sublist_appendI sublist_order.order_trans append_Nil2)
      qed
    next
      case False
      then show ?thesis using 2 Some x by (auto simp: sublist_Cons_right)
    qed
  qed
qed simp

end
