(* ===== verification/Admission.thy ===== *)
theory Admission
  imports Acceptance_Checks Py_Regex Declared_Reason
begin

text \<open>
  Admission (\<^verbatim>\<open>core/work_orders/admission.py\<close>): whether a proposed task may be filed on a work order. Three
  lanes decide, or report that they cannot know: the Warden asks for a criterion that can be run or a
  declared reason, the Surveyor whether the finding belongs to the work order's module boundary, the
  Herald whether it is already filed. The file system (\<open>is_file\<close>) is a parameter. The texts of the
  refusals are the constructors of \<open>admission_reason\<close>.
\<close>

section \<open>Declared reasons\<close>

definition MIN_WHY :: nat where
  "MIN_WHY = 20"

section \<open>Paths a text names\<close>

definition path_token_char :: "char \<Rightarrow> bool" where
  "path_token_char c \<longleftrightarrow> ascii_word c \<or> c = CHR ''.'' \<or> c = CHR ''-''"

definition PATH_TOKEN :: regex where
  "PATH_TOKEN = SeqOf [Plus (Cls path_token_char),
     Plus (Seq (Lit ''/'') (Plus (Cls path_token_char))),
     Lit ''.'', Plus (Cls (\<lambda>c. ascii_letter c \<or> ascii_digit c))]"

definition lstrip_chars :: "string \<Rightarrow> string \<Rightarrow> string" where
  "lstrip_chars cs s = dropWhile (\<lambda>c. c \<in> set cs) s"

definition slashes :: "string \<Rightarrow> string" where
  "slashes s = map (\<lambda>c. if c = CHR 0x5C then CHR ''/'' else c) s"

definition paths_named :: "(string \<Rightarrow> bool) \<Rightarrow> string \<Rightarrow> string list" where
  "paths_named is_file text =
     fold (\<lambda>token found. let candidate = lstrip_chars ''./'' (slashes token) in
         if candidate \<in> set found then found
         else if is_file candidate then found @ [candidate] else found)
       (re_findall PATH_TOKEN text) []"

section \<open>Criteria\<close>

definition normalised :: "string \<Rightarrow> string" where
  "normalised title = py_lower (py_strip (collapse_space title))"

definition has_executable_criterion :: "string option \<Rightarrow> bool" where
  "has_executable_criterion ac = list_ex (\<lambda>l. check_token l \<noteq> None) (py_splitlines (text_or_empty ac))"

text \<open>\<open>re.search(r"TEST-CHECK\s*:\s*(.*)$", line)\<close>, the captured expression stripped.\<close>

fun test_check_expr :: "string \<Rightarrow> string option" where
  "test_check_expr [] = None"
| "test_check_expr (c # s) =
     (let after = dropWhile py_isspace (drop 10 (c # s)) in
      if prefix ''TEST-CHECK'' (c # s) \<and> prefix '':'' after then Some (py_strip (tl after))
      else test_check_expr s)"

definition quote_chars :: string where
  "quote_chars = [CHR 0x60, CHR 0x22, CHR 0x27]"

text \<open>What a TEST-CHECK target names: None for nothing wrong with it.\<close>

definition test_target_problem :: "(string \<Rightarrow> bool) \<Rightarrow> string \<Rightarrow> string option" where
  "test_target_problem is_file expr =
     (case cmd_argv expr of
        CmdEmpty \<Rightarrow> Some ''(nothing after TEST-CHECK: cmd:)''
      | CmdUnparseable \<Rightarrow> Some (''cmd: '' @ py_strip (drop 4 expr))
      | CmdArgv argv \<Rightarrow> None
      | NotCmd \<Rightarrow>
          let raw = (case py_words expr of [] \<Rightarrow> [] | w # _ \<Rightarrow> strip_chars quote_chars (py_strip w)) in
          if raw = [] then Some ''(nothing after TEST-CHECK:)''
          else if py_startswith raw ''::'' then None
          else
            let target = strip_chars quote_chars (py_strip
                  (case py_find raw ''::'' 0 of None \<Rightarrow> raw | Some i \<Rightarrow> take i raw)) in
            if target = [] then Some ''(nothing after TEST-CHECK:)''
            else if \<not> (CHR ''/'' \<in> set target \<or> CHR 0x5C \<in> set target \<or> py_endswith target ''.py'')
            then Some target
            else if \<not> is_file target then Some target
            else None)"

fun first_problem :: "(string \<Rightarrow> bool) \<Rightarrow> string list \<Rightarrow> string option" where
  "first_problem is_file [] = None"
| "first_problem is_file (l # ls) =
     (case (case test_check_expr l of None \<Rightarrow> None | Some expr \<Rightarrow> test_target_problem is_file expr) of
        Some p \<Rightarrow> Some p
      | None \<Rightarrow> first_problem is_file ls)"

definition unrunnable_target :: "(string \<Rightarrow> bool) \<Rightarrow> string option \<Rightarrow> string option" where
  "unrunnable_target is_file ac = first_problem is_file (py_splitlines (text_or_empty ac))"

section \<open>The lanes\<close>

datatype admission_reason =
    UnrunnableCriterion string
  | ReasonTooShort nat
  | NoCriterion
  | AlreadyFiled
  | SharedCriterion string
  | NoBoundary "string list"
  | OutsideBoundary "string list" "string list"

fun seat_of :: "admission_reason \<Rightarrow> string" where
  "seat_of (UnrunnableCriterion p) = ''Gate-integrity engineer''"
| "seat_of (ReasonTooShort n) = ''Gate-integrity engineer''"
| "seat_of NoCriterion = ''Gate-integrity engineer''"
| "seat_of AlreadyFiled = ''Claim integrity''"
| "seat_of (SharedCriterion h) = ''Claim integrity''"
| "seat_of (NoBoundary ps) = ''Merge-order steward''"
| "seat_of (OutsideBoundary ps gs) = ''Merge-order steward''"

definition warden :: "(string \<Rightarrow> bool) \<Rightarrow> string option \<Rightarrow> string option \<Rightarrow> admission_reason option" where
  "warden is_file ac why =
     (if has_executable_criterion ac then map_option UnrunnableCriterion (unrunnable_target is_file ac)
      else let declared = collapse_space (text_or_empty why) in
        if MIN_WHY \<le> length declared then None
        else if declared \<noteq> [] then Some (ReasonTooShort (length declared))
        else Some NoCriterion)"

definition criterion_refusal ::
    "(string \<Rightarrow> bool) \<Rightarrow> string option \<Rightarrow> string option \<Rightarrow> string option \<Rightarrow> admission_reason option" where
  "criterion_refusal is_file ac why description =
     warden is_file ac (if truthy why then why else Some (declared_reason description))"

text \<open>A lane's answer is a refusal and an unknown, at most one of them set.\<close>

definition surveyor :: "string list \<Rightarrow> string \<Rightarrow> admission_reason option \<times> admission_reason option" where
  "surveyor target_paths description =
     (let paths = filter (\<lambda>p. py_strip p \<noteq> []) target_paths in
      if paths = [] then (None, None)
      else let globs = boundary_globs description in
        if globs = [] then (None, Some (NoBoundary (take 3 paths)))
        else if list_ex (\<lambda>p. list_ex (\<lambda>g. py_startswith (slashes p) g) globs) paths then (None, None)
        else (Some (OutsideBoundary (take 3 paths) (take 3 globs)), None))"

text \<open>The criteria of the open tasks with the titles that hold them; a plain collection of criteria has
  empty titles. A later criterion of the same normal form takes the place of an earlier one.\<close>

definition herald ::
    "string \<Rightarrow> string list \<Rightarrow> string option \<Rightarrow> (string \<times> string) list
      \<Rightarrow> admission_reason option \<times> admission_reason option" where
  "herald title existing_titles ac existing_criteria =
     (if normalised title \<in> normalised ` set existing_titles then (Some AlreadyFiled, None)
      else if has_executable_criterion ac then
        (let already = map (\<lambda>(c, t). (normalised c, t))
               (filter (\<lambda>(c, t). has_executable_criterion (Some c)) existing_criteria)
         in (None, map_option SharedCriterion (map_of (rev already) (normalised (text_or_empty ac)))))
      else (None, None))"

record verdict =
  vd_admitted :: bool
  vd_refusals :: "admission_reason list"
  vd_unknowns :: "admission_reason list"

record proposal =
  pr_title :: string
  pr_criteria :: "string option"
  pr_why :: "string option"
  pr_description :: string

definition admit_task ::
    "(string \<Rightarrow> bool) \<Rightarrow> proposal \<Rightarrow> string \<Rightarrow> string list \<Rightarrow> (string \<times> string) list \<Rightarrow> string list \<Rightarrow> verdict" where
  "admit_task is_file p work_order_description existing_titles existing_criteria target_paths =
     (let (refusal_h, unknown_h) = herald (pr_title p) existing_titles (pr_criteria p) existing_criteria;
          (refusal_s, unknown_s) = surveyor target_paths work_order_description;
          refusals = opt_list (warden is_file (pr_criteria p) (pr_why p)) @ opt_list refusal_h @ opt_list refusal_s
      in \<lparr>vd_admitted = (refusals = []), vd_refusals = refusals,
          vd_unknowns = opt_list unknown_h @ opt_list unknown_s\<rparr>)"

record reach =
  rc_open :: nat
  rc_with :: nat
  rc_without :: nat
  rc_undeclared :: "string list"

text \<open>The counts of \<open>attribution_reach\<close> over the rows of the open work orders.\<close>

definition attribution_reach :: "(string \<times> string) list \<Rightarrow> reach" where
  "attribution_reach rows =
     (let declared = filter (\<lambda>(w, d). boundary_globs d \<noteq> []) rows;
          undeclared = filter (\<lambda>(w, d). boundary_globs d = []) rows
      in \<lparr>rc_open = length rows, rc_with = length declared, rc_without = length undeclared,
          rc_undeclared = sort (map fst undeclared)\<rparr>)"

section \<open>Admission and the executor\<close>

lemma map_filter_eq_Nil: "List.map_filter f xs = [] \<longleftrightarrow> (\<forall>x\<in>set xs. f x = None)"
  by (induction xs) (auto simp: List.map_filter_def)

text \<open>Admission and execution agree on what an executable criterion is: the criteria of a task are
  executable for the Warden exactly when the run over that task finds a check, and then the run records
  at least one check for the work order.\<close>

theorem executable_criterion_is_run:
  "(has_executable_criterion (Some (wt_criteria t)) \<longleftrightarrow> check_lines t \<noteq> []) \<and>
   (has_executable_criterion (Some (wt_criteria t)) \<longleftrightarrow> checks_of (run_executable_checks ex [t]) \<noteq> [])"
proof -
  have "has_executable_criterion (Some (wt_criteria t)) \<longleftrightarrow> check_lines t \<noteq> []"
    by (auto simp: has_executable_criterion_def text_or_empty_def check_lines_def map_filter_eq_Nil list_ex_iff)
  moreover have "checks_of (run_executable_checks ex [t]) = map (run_check ex) (check_lines t)"
    by (simp add: run_executable_checks_def checks_of_distinct)
  ultimately show ?thesis by simp
qed

section \<open>Reading a declared reason back\<close>

text \<open>A declared reason survives being recorded. Folded into any description it is read back up to
  whitespace, unless it quotes the marker itself; and the task it was folded into passes or fails the
  Warden on its row alone exactly as it did with the reason given.\<close>

theorem declared_reason_roundtrip:
  assumes "\<not> sublist DECLARED_PREFIX (collapse_space why)" and "collapse_space why \<noteq> []"
  shows "declared_reason (Some (compose_declared_reason description (Some why))) = collapse_space why \<and>
     criterion_refusal is_file ac None (Some (compose_declared_reason description (Some why))) =
     warden is_file ac (Some why)"
proof -
  obtain b where "compose_declared_reason description (Some why) = b @ DECLARED_PREFIX @ '' '' @ collapse_space why"
    using assms(2) by (auto simp: compose_declared_reason_def text_or_empty_def Let_def)
  then have r: "declared_reason (Some (compose_declared_reason description (Some why))) = collapse_space why"
    using declared_reason_of_suffix [OF assms(1), of b] by simp
  then show ?thesis
    by (simp add: criterion_refusal_def warden_def text_or_empty_def Let_def)
qed

lemma declared_reason_roundtrip_witness:
  "declared_reason (Some (compose_declared_reason None (Some ''a design  judgement''))) = ''a design judgement''"
proof -
  have "collapse_space ''a design  judgement'' = ''a design judgement''" by code_simp
  then show ?thesis
    using declared_reason_roundtrip [of "''a design  judgement''" None "\<lambda>_. False" None]
    by (simp add: DECLARED_PREFIX_def sublist_code)
qed

section \<open>What admission promises\<close>

definition checkable :: "(string \<Rightarrow> bool) \<Rightarrow> proposal \<Rightarrow> bool" where
  "checkable is_file p \<longleftrightarrow> has_executable_criterion (pr_criteria p) \<and> unrunnable_target is_file (pr_criteria p) = None"

definition declared :: "proposal \<Rightarrow> bool" where
  "declared p \<longleftrightarrow> \<not> has_executable_criterion (pr_criteria p) \<and>
     MIN_WHY \<le> length (collapse_space (text_or_empty (pr_why p)))"

definition attributable :: "string list \<Rightarrow> string \<Rightarrow> bool" where
  "attributable paths description \<longleftrightarrow>
     (let ps = filter (\<lambda>p. py_strip p \<noteq> []) paths; globs = boundary_globs description in
      ps = [] \<or> globs = [] \<or> (\<exists>p\<in>set ps. \<exists>g\<in>set globs. py_startswith (slashes p) g))"

lemma warden_admits: "warden is_file (pr_criteria p) (pr_why p) = None \<longleftrightarrow> checkable is_file p \<or> declared p"
  by (auto simp: warden_def checkable_def declared_def MIN_WHY_def Let_def)

lemma surveyor_admits: "fst (surveyor paths description) = None \<longleftrightarrow> attributable paths description"
  by (auto simp: surveyor_def attributable_def Let_def list_ex_iff)

lemma herald_admits:
  "fst (herald title titles ac crits) = None \<longleftrightarrow> normalised title \<notin> normalised ` set titles"
  by (auto simp: herald_def Let_def)

lemma opt_list_Nil [simp]: "opt_list x = [] \<longleftrightarrow> x = None"
  by (simp add: opt_list_def split: option.split)

lemma admitted_facts:
  "vd_admitted (admit_task is_file p description titles crits paths) \<Longrightarrow>
     (checkable is_file p \<or> declared p) \<and> normalised (pr_title p) \<notin> normalised ` set titles"
  by (simp add: admit_task_def case_prod_beta Let_def warden_admits surveyor_admits herald_admits)

lemma not_admitted_refused:
  "\<not> vd_admitted (admit_task is_file p description titles crits paths) \<Longrightarrow>
     vd_refusals (admit_task is_file p description titles crits paths) \<noteq> []"
  by (simp add: admit_task_def case_prod_beta Let_def)


text \<open>Files a text names are never invented: each exists, and is reported once. Because the leading
  characters \<open>.\<close> and \<open>/\<close> are stripped, no path below a hidden directory is ever reported.\<close>

lemma paths_named_sound:
  "distinct (paths_named is_file text) \<and>
   (\<forall>p\<in>set (paths_named is_file text). is_file p \<and> (p = [] \<or> hd p \<notin> {CHR ''.'', CHR ''/''}))"
proof -
  have hd_ok: "lstrip_chars ''./'' t = [] \<or> hd (lstrip_chars ''./'' t) \<notin> {CHR ''.'', CHR ''/''}" for t
    using hd_dropWhile [of "\<lambda>c. c \<in> set ''./''" t] by (auto simp: lstrip_chars_def)
  show ?thesis
    unfolding paths_named_def
    by (rule fold_invariant_run) (use hd_ok in \<open>auto simp: Let_def\<close>)
qed

text \<open>Where the lanes differ from the code they guard. A criterion whose token is written in lower case
  is executable and is admitted with any target, since the target is looked for in upper case only. A path
  is inside the Surveyor's boundary whenever the clause is a textual prefix of it, although the boundary
  matcher of the edit hook puts the same path outside; and a file below a hidden directory is never
  attributed, since its leading full stop is stripped before it is looked up.\<close>

theorem admission_gaps:
  "vd_admitted (admit_task (\<lambda>_. False) \<lparr>pr_title = ''t'', pr_criteria = Some ''test-check: nowhere'',
     pr_why = None, pr_description = []\<rparr> [] [] [] []) \<and>
   surveyor [''core/gatekeeper/x.py''] ''Module boundary: core/gate.'' = (None, None) \<and>
   \<not> path_in_boundary (Some ''core/gatekeeper/x.py'') (boundary_globs ''Module boundary: core/gate.'') \<and>
   paths_named (\<lambda>p. p = ''.github/ci.yml'') ''see .github/ci.yml'' = []"
proof (intro conjI)
  show "vd_admitted (admit_task (\<lambda>_. False) \<lparr>pr_title = ''t'', pr_criteria = Some ''test-check: nowhere'',
     pr_why = None, pr_description = []\<rparr> [] [] [] [])"
    by code_simp
  show "surveyor [''core/gatekeeper/x.py''] ''Module boundary: core/gate.'' = (None, None)"
    by code_simp
  show "\<not> path_in_boundary (Some ''core/gatekeeper/x.py'') (boundary_globs ''Module boundary: core/gate.'')"
    by code_simp
  have "p \<notin> set (paths_named (\<lambda>p. p = ''.github/ci.yml'') ''see .github/ci.yml'')" for p
    using paths_named_sound [of "\<lambda>p. p = ''.github/ci.yml''" "''see .github/ci.yml''"] by auto
  then show "paths_named (\<lambda>p. p = ''.github/ci.yml'') ''see .github/ci.yml'' = []"
    by (metis list.set_intros(1) neq_Nil_conv)
qed

end
