(* ===== verification/Gap_Work.thy ===== *)
theory Gap_Work
  imports Admission Work_Order_Mutations "HOL-Library.Option_ord"
begin

text \<open>
  Gaps of a review (\<^verbatim>\<open>core/work_orders/verify_gaps.py\<close>): how a finding becomes a task on the reviewed
  work order, a task on an earlier remediation work order, or a new work order; the stable key that
  keeps the same finding from spawning twice; and the drain that collapses duplicates.

  A gap carries its title, description and tasks, as every producer sets them. Fresh ids, the clock,
  the ids and faults of emissions and the files of the repository are the environment; the n-th id and
  the n-th emission of a run are counted by the state. Rows written with the same \<open>created_at\<close> are read
  in the order of the table.
\<close>

record gap_task =
  gk_title :: string
  gk_description :: "string option"
  gk_criteria :: "string option"
  gk_why :: "string option"

record gap =
  ga_title :: string
  ga_category :: "string option"
  ga_description :: string
  ga_type :: "string option"
  ga_tasks :: "gap_task list"

record gap_env =
  ge_now :: string
  ge_id :: "nat \<Rightarrow> string"
  ge_event_id :: "nat \<Rightarrow> string"
  ge_spool_ok :: "nat \<Rightarrow> bool"
  ge_is_file :: "string \<Rightarrow> bool"

record gap_state =
  gs_au :: authority
  gs_next :: nat

section \<open>Keys\<close>

definition category_char :: "char \<Rightarrow> bool" where
  "category_char c = (let n = (of_char c :: nat) in (97 \<le> n \<and> n \<le> 122) \<or> (48 \<le> n \<and> n \<le> 57))"

definition dashed :: "string \<Rightarrow> string" where
  "dashed s = strip_hyphens (sub_runs (\<lambda>c. \<not> category_char c) s)"

definition gap_category :: "gap \<Rightarrow> string" where
  "gap_category g =
     (let explicit = py_lower (py_strip (text_or_empty (ga_category g))) in
      if explicit \<noteq> [] then dashed explicit else dashed (py_lower (py_strip (ga_title g))))"

definition ADVISORY_PROJECT_WIDE_CATEGORIES :: "string list" where
  "ADVISORY_PROJECT_WIDE_CATEGORIES = [''missing-behavioral-ac'',
     ''add-missing-adversarial-tests-for-durable-reachable-failure-modes'', ''add-missing-test-coverage'']"

definition PROJECT_WIDE_AFTER_N_OPEN_SPAWNS :: nat where
  "PROJECT_WIDE_AFTER_N_OPEN_SPAWNS = 2"

definition open_for_gaps :: "string list" where
  "open_for_gaps = [''created'', ''in_progress'']"

definition category_needle :: "string \<Rightarrow> string" where
  "category_needle category = ''::'' @ category @ '']''"

text \<open>\<open>instr(description, needle) > 0\<close>, which NULL does not satisfy.\<close>

definition mentions :: "string \<Rightarrow> string option \<Rightarrow> bool" where
  "mentions needle description = (case description of None \<Rightarrow> False | Some d \<Rightarrow> py_in needle d)"

definition category_open_spawn_count :: "authority \<Rightarrow> string \<Rightarrow> string \<Rightarrow> nat" where
  "category_open_spawn_count au project_id category =
     length (filter (\<lambda>(w, r). wo_project_id r = Some project_id \<and> wo_status r \<in> set open_for_gaps \<and>
       mentions (category_needle category) (wo_description r)) (work_orders (au_db au)))"

definition gap_key :: "authority \<Rightarrow> string \<Rightarrow> string \<Rightarrow> gap \<Rightarrow> string" where
  "gap_key au project_id reviewed g =
     (let category = gap_category g in
      if category \<in> set ADVISORY_PROJECT_WIDE_CATEGORIES then ''advisory::'' @ category
      else if project_id \<noteq> [] \<and>
              PROJECT_WIDE_AFTER_N_OPEN_SPAWNS \<le> category_open_spawn_count au project_id category
      then ''advisory::'' @ category
      else reviewed @ ''::'' @ category)"

definition gap_key_marker :: "string \<Rightarrow> string" where
  "gap_key_marker key = ''[gap-key: '' @ key @ '']''"

definition ATTACH_ROUNDS_BEFORE_PRESSURE :: nat where
  "ATTACH_ROUNDS_BEFORE_PRESSURE = 3"

definition attached_marker :: string where
  "attached_marker = ''[gap-attached: ''"

definition gap_attached_stamp :: "string \<Rightarrow> string" where
  "gap_attached_stamp key = [newline_char, newline_char] @ attached_marker @ key @ '']''"

definition NO_EVENT_WARNING :: string where
  "NO_EVENT_WARNING = [newline_char, newline_char] @
     ''[WARNING: no canonical event was emitted for this task -- it will not survive a'' @
     '' projection rebuild. Re-run verify once the spool is writable.]''"

text \<open>The text between a marker and the next closing bracket; None when the marker is absent or the text is
  empty.\<close>

definition marked_key :: "string \<Rightarrow> string \<Rightarrow> string option" where
  "marked_key m text =
     (case py_find text m 0 of
        None \<Rightarrow> None
      | Some start \<Rightarrow>
          let begin = start + length m in
          (case py_find text '']'' begin of
             None \<Rightarrow> None
           | Some e \<Rightarrow> if begin < e then Some (take (e - begin) (drop begin text)) else None))"

definition attached_gap_keys :: "authority \<Rightarrow> string \<Rightarrow> string list" where
  "attached_gap_keys au w =
     remdups (List.map_filter (\<lambda>(k, t). if t_work_order_id t = w
        then marked_key attached_marker (text_or_empty (t_description t)) else None) (tasks (au_db au)))"

definition work_order_is_open :: "authority \<Rightarrow> string \<Rightarrow> bool" where
  "work_order_is_open au w = (case wo_of w au of None \<Rightarrow> False | Some r \<Rightarrow> wo_status r \<in> set open_for_gaps)"

section \<open>Emitting and inserting\<close>

text \<open>\<open>_emit_creation\<close>: the flag says whether the event landed.\<close>

definition emit_creation ::
    "gap_env \<Rightarrow> string \<Rightarrow> (string \<times> string option) list \<Rightarrow> (string \<times> string option) list \<Rightarrow> gap_state
      \<Rightarrow> gap_state \<times> bool" where
  "emit_creation env ty payload trace s =
     (let n = gs_next s;
          c = \<lparr>c_now = ge_now env, c_uuid = ge_event_id env n, c_spool_ok = ge_spool_ok env n, c_remembers = True\<rparr>;
          (au, failed) = emit c (make_envelope c ty payload
            ([(''domain'', Some ''sdlc''), (''attribution_status'', Some ''fully_attributed'')] @ trace)) (gs_au s)
      in (s\<lparr>gs_au := au, gs_next := Suc n\<rparr>, \<not> failed))"

definition fresh_id :: "gap_env \<Rightarrow> gap_state \<Rightarrow> string \<times> gap_state" where
  "fresh_id env s = (ge_id env (gs_next s), s\<lparr>gs_next := Suc (gs_next s)\<rparr>)"

text \<open>The status \<open>creation_status\<close> reads from the transition table.\<close>

definition created_status :: "bool \<Rightarrow> string" where
  "created_status work_order = (case creation_status work_order of Inl e \<Rightarrow> [] | Inr st \<Rightarrow> st)"

definition insert_task_row :: "string \<Rightarrow> task_row \<Rightarrow> gap_state \<Rightarrow> gap_state" where
  "insert_task_row k t s =
     s\<lparr>gs_au := (gs_au s)\<lparr>au_db := (au_db (gs_au s))\<lparr>tasks := tasks (au_db (gs_au s)) @ [(k, t)]\<rparr>\<rparr>\<rparr>"

definition insert_wo_row :: "string \<Rightarrow> wo_row \<Rightarrow> gap_state \<Rightarrow> gap_state" where
  "insert_wo_row k r s =
     s\<lparr>gs_au := (gs_au s)\<lparr>au_db := (au_db (gs_au s))\<lparr>work_orders := work_orders (au_db (gs_au s)) @ [(k, r)]\<rparr>\<rparr>\<rparr>"

definition gap_task_row ::
    "gap_env \<Rightarrow> string \<Rightarrow> string \<Rightarrow> string \<Rightarrow> string \<Rightarrow> string option \<Rightarrow> task_row" where
  "gap_task_row env w project_id title description criteria =
     \<lparr>t_work_order_id = w, t_project_id = project_id, t_title = title, t_description = Some description,
      t_status = created_status False, t_created_at = ge_now env, t_updated_at = ge_now env,
      t_source_event_id = None, t_last_event_id = None, t_acceptance_criteria = criteria\<rparr>"

section \<open>Attaching to a work order\<close>

record refused_finding =
  rf_title :: string
  rf_description :: string
  rf_gap_key :: string
  rf_refusals :: "admission_reason list"
  rf_work_order :: string

record attach_state =
  as_state :: gap_state
  as_existing :: "string list"
  as_criteria :: "(string \<times> string) list"
  as_added :: nat
  as_unfiled :: "refused_finding list"
  as_noted :: "(string \<times> admission_reason list) list"

definition title_key :: "string \<Rightarrow> string" where
  "title_key title = py_lower (py_strip title)"

definition open_task_statuses :: "string list" where
  "open_task_statuses = [''pending'', ''in_progress'']"

definition existing_titles :: "authority \<Rightarrow> string \<Rightarrow> string list" where
  "existing_titles au w =
     map (\<lambda>(k, t). title_key (t_title t)) (filter (\<lambda>(k, t). t_work_order_id t = w) (tasks (au_db au)))"

text \<open>The stripped criterion of each open task with the title that holds it, as the dictionary the code
  builds.\<close>

definition existing_criteria :: "authority \<Rightarrow> string \<Rightarrow> (string \<times> string) list" where
  "existing_criteria au w =
     fold (\<lambda>(k, t) d. AList.update (py_strip (text_or_empty (t_acceptance_criteria t))) (t_title t) d)
       (filter (\<lambda>(k, t). t_work_order_id t = w \<and> t_status t \<in> set open_task_statuses \<and>
          py_strip (text_or_empty (t_acceptance_criteria t)) \<noteq> []) (tasks (au_db au))) []"

definition wo_description_of :: "authority \<Rightarrow> string \<Rightarrow> string" where
  "wo_description_of au w = (case wo_of w au of None \<Rightarrow> [] | Some r \<Rightarrow> text_or_empty (wo_description r))"

definition proposal_of :: "gap_task \<Rightarrow> proposal" where
  "proposal_of g = \<lparr>pr_title = gk_title g, pr_criteria = gk_criteria g, pr_why = gk_why g,
     pr_description = text_or_empty (gk_description g)\<rparr>"

text \<open>The row and the event of one admitted task. The description of the row carries a warning when the event
  did not land.\<close>

definition file_task ::
    "gap_env \<Rightarrow> string \<Rightarrow> string \<Rightarrow> (string \<times> string option) list \<Rightarrow> string \<Rightarrow> string \<Rightarrow> string option
      \<Rightarrow> gap_state \<Rightarrow> gap_state" where
  "file_task env w project_id trace title description criteria s =
     (let (k, s1) = fresh_id env s;
          (s2, emitted) = emit_creation env TASK_CREATED
            [(''title'', Some title), (''description'', Some description), (''acceptance_criteria'', criteria),
             (''status'', Some ''created'')] (trace @ [(''task_id'', Some k)]) s1
      in insert_task_row k (gap_task_row env w project_id title
           (if emitted then description else description @ NO_EVENT_WARNING) criteria) s2)"

definition attached_description :: "string \<Rightarrow> gap_task \<Rightarrow> string" where
  "attached_description key g =
     (let description = text_or_empty (gk_description g) @ (if key \<noteq> [] then gap_attached_stamp key else [])
      in if truthy (gk_criteria g) then description
         else compose_declared_reason (Some description) (gk_why g))"

definition attach_task :: "gap_env \<Rightarrow> string \<Rightarrow> string \<Rightarrow> string \<Rightarrow> string \<Rightarrow> gap_task \<Rightarrow> attach_state \<Rightarrow> attach_state" where
  "attach_task env w project_id wo_desc key g a =
     (if title_key (gk_title g) \<in> set (as_existing a) then a
      else
        let v = admit_task (ge_is_file env) (proposal_of g) wo_desc (as_existing a) (as_criteria a)
              (paths_named (ge_is_file env) (gk_title g @ '' '' @ text_or_empty (gk_description g)))
        in if \<not> vd_admitted v
           then a\<lparr>as_unfiled := as_unfiled a @ [\<lparr>rf_title = gk_title g,
                  rf_description = text_or_empty (gk_description g), rf_gap_key = key,
                  rf_refusals = vd_refusals v, rf_work_order = w\<rparr>]\<rparr>
           else a\<lparr>as_state := file_task env w project_id
                    [(''project_id'', Some project_id), (''work_order_id'', Some w)]
                    (gk_title g) (attached_description key g) (gk_criteria g) (as_state a),
                  as_existing := title_key (gk_title g) # as_existing a,
                  as_criteria := (if py_strip (text_or_empty (gk_criteria g)) \<noteq> []
                    then AList.update (py_strip (text_or_empty (gk_criteria g))) (gk_title g) (as_criteria a)
                    else as_criteria a),
                  as_added := Suc (as_added a),
                  as_noted := (if vd_unknowns v \<noteq> [] then as_noted a @ [(gk_title g, vd_unknowns v)]
                    else as_noted a)\<rparr>)"

definition attach_gap_tasks ::
    "gap_env \<Rightarrow> string \<Rightarrow> string \<Rightarrow> gap_task list \<Rightarrow> string \<Rightarrow> gap_state \<Rightarrow> attach_state" where
  "attach_gap_tasks env w project_id gs key s =
     fold (attach_task env w project_id (wo_description_of (gs_au s) w) key) gs
       \<lparr>as_state = s, as_existing = existing_titles (gs_au s) w, as_criteria = existing_criteria (gs_au s) w,
        as_added = 0, as_unfiled = [], as_noted = []\<rparr>"

section \<open>Spawning and merging\<close>

datatype gap_outcome =
    Attached nat bool
  | Suppressed
  | Merged
  | Spawned nat nat bool

record gap_record =
  gr_work_order :: string
  gr_gap_key :: string
  gr_outcome :: gap_outcome
  gr_unfiled :: "refused_finding list"
  gr_unknowns :: "(string \<times> admission_reason list) list"

text \<open>The earlier remediation of the gap: work orders in progress first, then created ones, then the rest,
  each in the order of creation.\<close>

definition prior_rank :: "wo_row \<Rightarrow> nat" where
  "prior_rank r = (if wo_status r = ''in_progress'' then 0 else if wo_status r = ''created'' then 1 else 2)"

definition prior_spawn :: "authority \<Rightarrow> string \<Rightarrow> string \<Rightarrow> (string \<times> wo_row) option" where
  "prior_spawn au project_id needle =
     (case sort_key (\<lambda>(w, r). prior_rank r) (sort_key (\<lambda>(w, r). wo_created_at r)
        (filter (\<lambda>(w, r). wo_project_id r = Some project_id \<and> mentions needle (wo_description r))
          (work_orders (au_db au)))) of
        [] \<Rightarrow> None
      | x # _ \<Rightarrow> Some x)"

definition project_wide :: "string \<Rightarrow> bool" where
  "project_wide key = py_startswith key ''advisory::''"

definition search_needle :: "string \<Rightarrow> gap \<Rightarrow> string" where
  "search_needle key g = (if project_wide key then category_needle (gap_category g) else gap_key_marker key)"

record review =
  rv_project :: string
  rv_milestone :: "string option"
  rv_work_order :: string
  rv_title :: string
  rv_incomplete :: bool

definition spawn_task ::
    "gap_env \<Rightarrow> review \<Rightarrow> string \<Rightarrow> string \<Rightarrow> gap_task \<Rightarrow> gap_state \<times> nat \<times> refused_finding list
      \<Rightarrow> gap_state \<times> nat \<times> refused_finding list" where
  "spawn_task env rv w desc g acc =
     (let (s, filed, refused) = acc;
          task_desc = (if truthy (gk_criteria g) then text_or_empty (gk_description g)
                       else compose_declared_reason (gk_description g) (gk_why g));
          v = admit_task (ge_is_file env) (proposal_of g) desc [] []
                (paths_named (ge_is_file env) (gk_title g @ '' '' @ task_desc))
      in if \<not> vd_admitted v
         then (s, filed, refused @ [\<lparr>rf_title = gk_title g, rf_description = task_desc, rf_gap_key = [],
                rf_refusals = vd_refusals v, rf_work_order = w\<rparr>])
         else (file_task env w (rv_project rv)
                 [(''project_id'', Some (rv_project rv)), (''milestone_id'', rv_milestone rv),
                  (''work_order_id'', Some w)]
                 (gk_title g) task_desc (gk_criteria g) s, Suc filed, refused))"

definition spawned_description :: "gap_env \<Rightarrow> review \<Rightarrow> gap \<Rightarrow> string \<Rightarrow> string" where
  "spawned_description env rv g key =
     ''Spawned by review of '' @ [CHR 0x27] @ rv_title rv @ [CHR 0x27] @ '' on '' @ take 10 (ge_now env) @ '': '' @
     ga_description g @ '' '' @ gap_key_marker key"

definition spawned_row :: "gap_env \<Rightarrow> review \<Rightarrow> gap \<Rightarrow> string \<Rightarrow> int \<Rightarrow> wo_row" where
  "spawned_row env rv g description seq =
     wo_default\<lparr>wo_project_id := Some (rv_project rv), wo_milestone_id := rv_milestone rv,
       wo_title := Some (ga_title g), wo_description := Some description,
       wo_type := Some (case ga_type g of None \<Rightarrow> ''cleanup'' | Some t \<Rightarrow> t),
       wo_status := created_status True, wo_sequence_order := Some seq, wo_created_at := Some (ge_now env),
       wo_updated_at := Some (ge_now env), wo_last_updated_at := ge_now env\<rparr>"

definition spawn_work_order ::
    "gap_env \<Rightarrow> review \<Rightarrow> int \<Rightarrow> gap \<Rightarrow> string \<Rightarrow> gap_state \<Rightarrow> gap_state \<times> gap_record \<times> refused_finding list" where
  "spawn_work_order env rv seq g key s =
     (let (w, s1) = fresh_id env s;
          desc = spawned_description env rv g key;
          (s2, emitted) = emit_creation env WORK_ORDER_CREATED
            [(''title'', Some (ga_title g)), (''status'', Some ''created''),
             (''type'', Some (case ga_type g of None \<Rightarrow> ''cleanup'' | Some t \<Rightarrow> t)), (''description'', Some desc)]
            [(''project_id'', Some (rv_project rv)), (''milestone_id'', rv_milestone rv), (''work_order_id'', Some w)] s1;
          s3 = insert_wo_row w (spawned_row env rv g (if emitted then desc else desc @ NO_EVENT_WARNING) seq) s2;
          (s4, filed, refused) = fold (spawn_task env rv w desc) (ga_tasks g) (s3, 0, [])
      in (s4, \<lparr>gr_work_order = w, gr_gap_key = key,
               gr_outcome = Spawned filed (length (ga_tasks g)) emitted, gr_unfiled = [], gr_unknowns = []\<rparr>, refused))"

record insert_state =
  is_state :: gap_state
  is_spawned :: "gap_record list"
  is_unfiled :: "refused_finding list"
  is_counter :: nat

text \<open>The tasks an attached gap proposes: its own, or the gap itself when it has none.\<close>

definition tasks_to_attach :: "gap \<Rightarrow> gap_task list" where
  "tasks_to_attach g =
     (if ga_tasks g \<noteq> [] then ga_tasks g
      else [\<lparr>gk_title = ga_title g, gk_description = Some (ga_description g), gk_criteria = None, gk_why = None\<rparr>])"

definition insert_gap :: "gap_env \<Rightarrow> review \<Rightarrow> int \<Rightarrow> gap \<Rightarrow> insert_state \<Rightarrow> insert_state" where
  "insert_gap env rv base_seq g i =
     (let s = is_state i; au = gs_au s;
          key = gap_key au (rv_project rv) (rv_work_order rv) g;
          prior = prior_spawn au (rv_project rv) (search_needle key g);
          settled = (case prior of None \<Rightarrow> False | Some (w, r) \<Rightarrow>
             wo_status r \<notin> set open_for_gaps \<and> \<not> project_wide key \<and> w \<noteq> rv_work_order rv)
      in
      if \<not> settled \<and> rv_incomplete rv \<and> work_order_is_open au (rv_work_order rv) then
        (let rounds = length (remdups (key # attached_gap_keys au (rv_work_order rv)));
             a = attach_gap_tasks env (rv_work_order rv) (rv_project rv) (tasks_to_attach g) key s
         in i\<lparr>is_state := as_state a, is_spawned := is_spawned i @ [\<lparr>gr_work_order = rv_work_order rv, gr_gap_key = key,
                gr_outcome = Attached (as_added a) (ATTACH_ROUNDS_BEFORE_PRESSURE \<le> rounds),
                gr_unfiled = as_unfiled a, gr_unknowns = as_noted a\<rparr>]\<rparr>)
      else
        (case prior of
           Some (w, r) \<Rightarrow>
             if wo_status r \<in> set open_for_gaps then
               (let a = attach_gap_tasks env w (rv_project rv) (ga_tasks g) [] s
                in i\<lparr>is_state := as_state a, is_spawned := is_spawned i @ [\<lparr>gr_work_order = w, gr_gap_key = key,
                       gr_outcome = Merged, gr_unfiled = as_unfiled a, gr_unknowns = as_noted a\<rparr>]\<rparr>)
             else if \<not> project_wide key then
               i\<lparr>is_spawned := is_spawned i @ [\<lparr>gr_work_order = w, gr_gap_key = key, gr_outcome = Suppressed,
                  gr_unfiled = [], gr_unknowns = []\<rparr>]\<rparr>
             else
               (let (s', r', refused) = spawn_work_order env rv (base_seq + int (is_counter i) + 1) g key s
                in \<lparr>is_state = s', is_spawned = is_spawned i @ [r'], is_unfiled = is_unfiled i @ refused,
                    is_counter = Suc (is_counter i)\<rparr>)
         | None \<Rightarrow>
             (let (s', r', refused) = spawn_work_order env rv (base_seq + int (is_counter i) + 1) g key s
              in \<lparr>is_state = s', is_spawned = is_spawned i @ [r'], is_unfiled = is_unfiled i @ refused,
                  is_counter = Suc (is_counter i)\<rparr>)))"

text \<open>The end of the function: when anything was refused on a spawn, the refusals of every record become those
  of the spawns of its work order.\<close>

definition return_unfiled :: "insert_state \<Rightarrow> gap_record list" where
  "return_unfiled i =
     (if is_unfiled i = [] then is_spawned i
      else map (\<lambda>r. r\<lparr>gr_unfiled := filter (\<lambda>f. rf_work_order f = gr_work_order r) (is_unfiled i)\<rparr>) (is_spawned i))"

definition base_sequence :: "authority \<Rightarrow> review \<Rightarrow> int option \<Rightarrow> int" where
  "base_sequence au rv reviewed_sequence =
     (let base = (case reviewed_sequence of None \<Rightarrow> 0 | Some n \<Rightarrow> n) in
      if truthy (rv_milestone rv) then
        fold max (List.map_filter (\<lambda>(w, r). if wo_milestone_id r = rv_milestone rv then wo_sequence_order r else None)
          (work_orders (au_db au))) base
      else base)"

definition insert_gap_work_orders ::
    "gap_env \<Rightarrow> review \<Rightarrow> int option \<Rightarrow> gap list \<Rightarrow> gap_state \<Rightarrow> gap_state \<times> gap_record list" where
  "insert_gap_work_orders env rv reviewed_sequence gs s =
     (let i = fold (insert_gap env rv (base_sequence (gs_au s) rv reviewed_sequence)) gs
            \<lparr>is_state = s, is_spawned = [], is_unfiled = [], is_counter = 0\<rparr>
      in (is_state i, return_unfiled i))"

section \<open>Draining duplicates\<close>

definition key_category :: "string \<Rightarrow> string" where
  "key_category key = (case py_find key ''::'' 0 of None \<Rightarrow> key | Some i \<Rightarrow> drop (i + 2) key)"

definition spawn_marker :: string where
  "spawn_marker = ''[gap-key: ''"

text \<open>The category of a marked description, and the rows grouped by category, categories in order, the
  rows of a category in the order of their creation.\<close>

definition marked_category :: "string \<Rightarrow> string option \<Rightarrow> string option" where
  "marked_category m description = map_option key_category (marked_key m (text_or_empty description))"

definition fanned_out :: "('k \<times> string option) list \<Rightarrow> (string \<times> 'k list) list" where
  "fanned_out rows =
     filter (\<lambda>(c, ks). 2 \<le> length ks)
       (map (\<lambda>c. (c, map fst (filter (\<lambda>(k, c'). c' = Some c) rows)))
          (sort (remdups (List.map_filter snd rows))))"

definition drain_rows :: "authority \<Rightarrow> string \<Rightarrow> (string \<times> string option) list" where
  "drain_rows au project_id =
     map (\<lambda>(w, r). (w, marked_category spawn_marker (wo_description r)))
       (sort_key (\<lambda>(w, r). wo_created_at r)
         (filter (\<lambda>(w, r). wo_project_id r = Some project_id \<and> wo_status r \<in> set open_for_gaps \<and>
            mentions spawn_marker (wo_description r)) (work_orders (au_db au))))"

definition attached_drain_rows :: "authority \<Rightarrow> string \<Rightarrow> (string \<times> string option) list" where
  "attached_drain_rows au project_id =
     map (\<lambda>(k, t). (k, marked_category attached_marker (t_description t)))
       (sort_key (\<lambda>(k, t). t_created_at t)
         (filter (\<lambda>(k, t). (case wo_of (t_work_order_id t) au of
              None \<Rightarrow> False
            | Some r \<Rightarrow> wo_project_id r = Some project_id \<and> wo_status r \<in> set open_for_gaps) \<and>
            t_status t \<notin> {''complete'', ''done'', ''cancelled'', ''deleted''} \<and>
            mentions attached_marker (t_description t)) (tasks (au_db au))))"

definition drained_note :: "gap_env \<Rightarrow> string \<Rightarrow> string \<Rightarrow> string" where
  "drained_note env category keep =
     [newline_char, newline_char] @ ''[DRAINED '' @ ge_now env @ ''] Duplicate spawn of gap category '' @ py_repr category @
     ''; consolidated into '' @ keep @ ''. Not work that was dropped -- the same finding registered once per reviewed'' @
     '' work order by a dedup key that was one field too specific.''"

definition status_of :: "string \<Rightarrow> bool \<Rightarrow> string" where
  "status_of event_type work_order = (case status_for event_type work_order of Inl e \<Rightarrow> [] | Inr st \<Rightarrow> st)"

definition drain_work_order :: "gap_env \<Rightarrow> string \<Rightarrow> string \<Rightarrow> string \<Rightarrow> string \<Rightarrow> gap_state \<Rightarrow> gap_state" where
  "drain_work_order env project_id category keep w s =
     (let s1 = s\<lparr>gs_au := update_wo w (\<lambda>r. r\<lparr>wo_status := status_of WORK_ORDER_CANCELLED True,
              wo_updated_at := Some (ge_now env),
              wo_description := Some (text_or_empty (wo_description r) @ drained_note env category keep)\<rparr>) (gs_au s)\<rparr>
      in fst (emit_creation env WORK_ORDER_CANCELLED
           [(''work_order_id'', Some w), (''project_id'', Some project_id),
            (''reason'', Some (''drained as a duplicate spawn of category '' @ category @ ''; kept '' @ keep))]
           [(''project_id'', Some project_id), (''work_order_id'', Some w)] s1))"

definition drain_task :: "gap_env \<Rightarrow> string \<Rightarrow> string \<Rightarrow> string \<Rightarrow> string \<Rightarrow> gap_state \<Rightarrow> gap_state" where
  "drain_task env project_id category keep k s =
     (let s1 = s\<lparr>gs_au := update_task k (\<lambda>t. t\<lparr>t_status := status_of TASK_CANCELLED False,
              t_updated_at := ge_now env,
              t_description := Some (text_or_empty (t_description t) @ drained_note env category keep)\<rparr>) (gs_au s)\<rparr>
      in fst (emit_creation env TASK_CANCELLED
           [(''reason'', Some (''drained as a duplicate attachment of category '' @ category @ ''; kept '' @ keep))]
           [(''project_id'', Some project_id), (''work_order_id'', Some keep), (''task_id'', Some k)] s1))"

definition apply_plan ::
    "(string \<Rightarrow> string \<Rightarrow> string \<Rightarrow> gap_state \<Rightarrow> gap_state) \<Rightarrow> (string \<times> string list) list \<Rightarrow> gap_state \<Rightarrow> gap_state" where
  "apply_plan cancel plan s =
     fold (\<lambda>(category, ks) s. fold (cancel category (hd ks)) (tl ks) s) plan s"

record drain_report =
  dr_applied :: bool
  dr_plan :: "(string \<times> string list) list"
  dr_attached_plan :: "(string \<times> string list) list"

definition drain_fanned_out_categories ::
    "gap_env \<Rightarrow> string \<Rightarrow> bool \<Rightarrow> gap_state \<Rightarrow> gap_state \<times> drain_report" where
  "drain_fanned_out_categories env project_id apply_it s =
     (let plan = fanned_out (drain_rows (gs_au s) project_id);
          task_plan = fanned_out (attached_drain_rows (gs_au s) project_id);
          s' = (if apply_it then apply_plan (drain_task env project_id) task_plan
                  (apply_plan (drain_work_order env project_id) plan s) else s)
      in (s', \<lparr>dr_applied = apply_it, dr_plan = plan, dr_attached_plan = task_plan\<rparr>))"

section \<open>Emissions and rows\<close>

lemma emit_au_db [simp]: "au_db (fst (emit c e au)) = au_db au"
  by (simp add: emit_def split: sum.split)

lemma emit_creation_db [simp]:
  "au_db (gs_au (fst (emit_creation env ty p tr s))) = au_db (gs_au s)"
  by (simp add: emit_creation_def Let_def case_prod_beta)

lemma fresh_id_au [simp]: "gs_au (snd (fresh_id env s)) = gs_au s"
  by (simp add: fresh_id_def)

lemma insert_task_row_db [simp]:
  "work_orders (au_db (gs_au (insert_task_row k t s))) = work_orders (au_db (gs_au s))"
  "tasks (au_db (gs_au (insert_task_row k t s))) = tasks (au_db (gs_au s)) @ [(k, t)]"
  by (simp_all add: insert_task_row_def)

lemma insert_wo_row_db [simp]:
  "work_orders (au_db (gs_au (insert_wo_row k r s))) = work_orders (au_db (gs_au s)) @ [(k, r)]"
  "tasks (au_db (gs_au (insert_wo_row k r s))) = tasks (au_db (gs_au s))"
  by (simp_all add: insert_wo_row_def)

abbreviation wos_of :: "gap_state \<Rightarrow> wo_table" where
  "wos_of s \<equiv> work_orders (au_db (gs_au s))"

abbreviation tasks_of :: "gap_state \<Rightarrow> task_row table" where
  "tasks_of s \<equiv> tasks (au_db (gs_au s))"

text \<open>Filing a task adds one row and nothing else.\<close>

lemma file_task_rows:
  "wos_of (file_task env w pid tr title d crit s) = wos_of s \<and>
   (\<exists>k d'. d' \<in> {d, d @ NO_EVENT_WARNING} \<and>
      tasks_of (file_task env w pid tr title d crit s) = tasks_of s @ [(k, gap_task_row env w pid title d' crit)])"
proof -
  obtain k s1 where 1: "fresh_id env s = (k, s1)" by (cases "fresh_id env s")
  then have s1: "gs_au s1 = gs_au s" using fresh_id_au [of env s] by simp
  let ?p = "[(''title'', Some title), (''description'', Some d), (''acceptance_criteria'', crit),
             (''status'', Some ''created'')]"
  obtain s2 b where 2: "emit_creation env TASK_CREATED ?p (tr @ [(''task_id'', Some k)]) s1 = (s2, b)"
    by (cases "emit_creation env TASK_CREATED ?p (tr @ [(''task_id'', Some k)]) s1")
  then have "au_db (gs_au s2) = au_db (gs_au s)"
    using emit_creation_db [of env TASK_CREATED ?p "tr @ [(''task_id'', Some k)]" s1] s1 by simp
  with 1 2 show ?thesis
    by (auto simp: file_task_def)
qed

end
