(* ===== verification/Gap_Safety.thy ===== *)
theory Gap_Safety
  imports Gap_Work
begin

text \<open>
  What the gap machinery promises: the fan-out of a category is bounded, every task it files can be
  checked or carries its declared reason, every proposed task is filed, already there or reported, and
  the drain leaves one open work order per category. And where it loses what it promised to keep.
\<close>

section \<open>Work orders while tasks are filed\<close>

lemma attach_task_wos: "wos_of (as_state (attach_task env w pid d key g a)) = wos_of (as_state a)"
  by (simp add: attach_task_def Let_def file_task_rows)

lemma attach_gap_tasks_wos [simp]:
  "wos_of (as_state (attach_gap_tasks env w pid gs key s)) = wos_of s"
proof -
  have "wos_of (as_state (fold (attach_task env w pid d key) gs a)) = wos_of (as_state a)" for d a
    by (induction gs arbitrary: a) (simp_all add: attach_task_wos)
  then show ?thesis by (simp add: attach_gap_tasks_def)
qed

lemma spawn_task_wos: "wos_of (fst (spawn_task env rv w d g acc)) = wos_of (fst acc)"
  by (simp add: spawn_task_def Let_def case_prod_beta file_task_rows)

lemma fold_spawn_task_wos: "wos_of (fst (fold (spawn_task env rv w d) gs acc)) = wos_of (fst acc)"
  by (induction gs arbitrary: acc) (simp_all add: spawn_task_wos)

lemma spawn_work_order_wos:
  "\<exists>w d. d \<in> {spawned_description env rv g key, spawned_description env rv g key @ NO_EVENT_WARNING} \<and>
     wos_of (fst (spawn_work_order env rv seq g key s)) = wos_of s @ [(w, spawned_row env rv g d seq)]"
proof -
  let ?d = "spawned_description env rv g key" and ?w = "fst (fresh_id env s)"
  let ?s1 = "snd (fresh_id env s)"
  let ?e = "emit_creation env WORK_ORDER_CREATED
            [(''title'', Some (ga_title g)), (''status'', Some ''created''),
             (''type'', Some (case ga_type g of None \<Rightarrow> ''cleanup'' | Some t \<Rightarrow> t)), (''description'', Some ?d)]
            [(''project_id'', Some (rv_project rv)), (''milestone_id'', rv_milestone rv), (''work_order_id'', Some ?w)] ?s1"
  have "wos_of (fst (spawn_work_order env rv seq g key s)) =
      wos_of s @ [(?w, spawned_row env rv g (if snd ?e then ?d else ?d @ NO_EVENT_WARNING) seq)]"
    by (simp add: spawn_work_order_def Let_def case_prod_beta fold_spawn_task_wos)
  then show ?thesis
    by (intro exI [of _ ?w] exI [of _ "if snd ?e then ?d else ?d @ NO_EVENT_WARNING"]) simp
qed

section \<open>The fan-out bound\<close>

abbreviation spawn_count :: "gap_state \<Rightarrow> string \<Rightarrow> string \<Rightarrow> nat" where
  "spawn_count s pid c \<equiv> category_open_spawn_count (gs_au s) pid c"

lemma spawn_count_cong: "wos_of s = wos_of s' \<Longrightarrow> spawn_count s pid c = spawn_count s' pid c"
  by (simp add: category_open_spawn_count_def)

lemma spawn_count_spawn: "spawn_count (fst (spawn_work_order env rv seq g key s)) pid c \<le> Suc (spawn_count s pid c)"
proof -
  obtain w d where "wos_of (fst (spawn_work_order env rv seq g key s)) = wos_of s @ [(w, spawned_row env rv g d seq)]"
    using spawn_work_order_wos by blast
  then show ?thesis by (simp add: category_open_spawn_count_def)
qed

text \<open>The first row by rank has the least rank.\<close>

lemma sort_key_hd_least: "sort_key f xs = x # ys \<Longrightarrow> y \<in> set xs \<Longrightarrow> f x \<le> f y"
  using sorted_sort_key [of f xs] set_sort [of f xs] by (metis list.set_map list.simps(9) sorted_simps(2)
      image_eqI set_ConsD order_refl)

lemma prior_open:
  assumes "(w, r) \<in> set (work_orders (au_db au))" "wo_project_id r = Some pid" "wo_status r \<in> set open_for_gaps"
    "mentions needle (wo_description r)"
  shows "\<exists>w' r'. prior_spawn au pid needle = Some (w', r') \<and> wo_status r' \<in> set open_for_gaps"
proof -
  let ?xs = "sort_key (\<lambda>(w, r). wo_created_at r)
        (filter (\<lambda>(w, r). wo_project_id r = Some pid \<and> mentions needle (wo_description r)) (work_orders (au_db au)))"
  let ?f = "\<lambda>(w :: string, r). prior_rank r"
  have mem: "(w, r) \<in> set ?xs"
    using assms by simp
  then have "?xs \<noteq> []" by (metis empty_iff empty_set)
  then obtain x ys where x: "sort_key ?f ?xs = x # ys"
    using length_sort [of ?f ?xs] by (cases "sort_key ?f ?xs") auto
  have "?f x \<le> ?f (w, r)"
    by (rule sort_key_hd_least [OF x mem])
  also have "\<dots> < 2"
    using assms(3) by (auto simp: prior_rank_def open_for_gaps_def)
  finally obtain w' r' where "x = (w', r')" "prior_rank r' < 2"
    by (cases x) auto
  with x show ?thesis
    by (auto simp: prior_spawn_def prior_rank_def open_for_gaps_def split: if_splits)
qed

lemma project_wide_advisory [simp]: "project_wide (''advisory::'' @ c)"
  by (simp add: project_wide_def py_startswith_def)

lemma insert_gap_open_prior:
  assumes "prior_spawn (gs_au (is_state i)) (rv_project rv)
      (search_needle (gap_key (gs_au (is_state i)) (rv_project rv) (rv_work_order rv) g) g) = Some (w, r)"
    and "wo_status r \<in> set open_for_gaps"
  shows "wos_of (is_state (insert_gap env rv b g i)) = wos_of (is_state i)"
  using assms by (simp add: insert_gap_def Let_def)

lemma insert_gap_count:
  assumes "rv_project rv = pid" and "pid \<noteq> []" and "gap_category g = c"
  shows "spawn_count (is_state (insert_gap env rv b g i)) pid c \<le> max 2 (spawn_count (is_state i) pid c)"
proof (cases "2 \<le> spawn_count (is_state i) pid c")
  case False
  have "spawn_count (is_state (insert_gap env rv b g i)) pid c \<le> Suc (spawn_count (is_state i) pid c)"
  proof -
    have unchanged: "spawn_count (as_state (attach_gap_tasks env w p gs key (is_state i))) pid c = spawn_count (is_state i) pid c"
      for w p gs key by (rule spawn_count_cong) simp
    have spawned: "spawn_count (fst (spawn_work_order env rv seq g key (is_state i))) pid c \<le> Suc (spawn_count (is_state i) pid c)"
      for seq key by (rule spawn_count_spawn)
    show ?thesis
      by (auto simp: insert_gap_def Let_def case_prod_beta unchanged spawned split: option.split)
  qed
  with False show ?thesis by linarith
next
  case True
  let ?au = "gs_au (is_state i)"
  have key: "gap_key ?au pid (rv_work_order rv) g = ''advisory::'' @ c"
    using True assms by (simp add: gap_key_def Let_def PROJECT_WIDE_AFTER_N_OPEN_SPAWNS_def)
  have "filter (\<lambda>(w, r). wo_project_id r = Some pid \<and> wo_status r \<in> set open_for_gaps \<and>
       mentions (category_needle c) (wo_description r)) (work_orders (au_db ?au)) \<noteq> []"
    using True by (auto simp: category_open_spawn_count_def)
  then obtain w r where "(w, r) \<in> set (work_orders (au_db ?au))" "wo_project_id r = Some pid"
    "wo_status r \<in> set open_for_gaps" "mentions (category_needle c) (wo_description r)"
    by (auto simp: filter_empty_conv)
  then obtain w' r' where "prior_spawn ?au pid (category_needle c) = Some (w', r')" "wo_status r' \<in> set open_for_gaps"
    using prior_open by blast
  moreover have "search_needle (gap_key ?au pid (rv_work_order rv) g) g = category_needle c"
    unfolding key search_needle_def by (simp only: project_wide_advisory if_True assms(3))
  ultimately have "wos_of (is_state (insert_gap env rv b g i)) = wos_of (is_state i)"
    using insert_gap_open_prior [of i rv g w' r' env b] assms(1) by simp
  then show ?thesis
    by (simp add: spawn_count_cong [of "is_state (insert_gap env rv b g i)" "is_state i"])
qed

text \<open>C27: The fan-out of a category is bounded. However many reviews of however many work orders of a project
  report gaps of one category, the reviews never leave more than two open work orders carrying that
  category's key, or as many as there were before; for this the key becomes project-wide once two are
  open and then merges into one of them.\<close>

theorem gap_fan_out_bounded:
  assumes "pid \<noteq> []" and "\<forall>(env, rv, seq, g)\<in>set runs. rv_project rv = pid \<and> gap_category g = c"
  shows "spawn_count (fold (\<lambda>(env, rv, seq, g) s. fst (insert_gap_work_orders env rv seq [g] s)) runs s) pid c
     \<le> max 2 (spawn_count s pid c)"
  using assms(2)
proof (induction runs arbitrary: s)
  case (Cons x runs)
  obtain env rv seq g where x: "x = (env, rv, seq, g)" by (cases x)
  let ?s = "fst (insert_gap_work_orders env rv seq [g] s)"
  have "spawn_count ?s pid c \<le> max 2 (spawn_count s pid c)"
    using insert_gap_count [of rv pid g c env "base_sequence (gs_au s) rv seq"
        "\<lparr>is_state = s, is_spawned = [], is_unfiled = [], is_counter = 0\<rparr>"] assms(1) Cons.prems x
    by (simp add: insert_gap_work_orders_def Let_def)
  with Cons x show ?case
    by (fastforce intro: order_trans)
qed simp

section \<open>Every filed task can be checked or carries its reason\<close>

definition auditable :: "(string \<Rightarrow> bool) \<Rightarrow> task_row \<Rightarrow> bool" where
  "auditable is_file t \<longleftrightarrow>
     (has_executable_criterion (t_acceptance_criteria t) \<and> unrunnable_target is_file (t_acceptance_criteria t) = None)
     \<or> MIN_WHY \<le> length (declared_reason (t_description t))"

text \<open>A proposed task that states its criterion or its reason properly: a criterion that is not blank names a
  check, and the reason does not quote the marker.\<close>

definition well_stated :: "gap_task \<Rightarrow> bool" where
  "well_stated g \<longleftrightarrow> (truthy (gk_criteria g) \<longrightarrow> has_executable_criterion (gk_criteria g)) \<and>
     \<not> sublist DECLARED_PREFIX (collapse_space (text_or_empty (gk_why g)))"

lemma sublist_across: "x \<notin> set m \<Longrightarrow> sublist m (a @ x # b) \<Longrightarrow> sublist m a \<or> sublist m b"
proof (induction a)
  case Nil
  then show ?case by (auto simp: sublist_Cons_right prefix_Cons)
next
  case (Cons y a)
  have "prefix m ((y # a) @ x # b) \<Longrightarrow> sublist m (y # a)"
    using prefix_before [OF Cons.prems(1), of "y # a" b] by auto
  with Cons show ?case by (auto simp: sublist_Cons_right)
qed

lemma words_acc_break: "py_isspace c \<Longrightarrow> words_acc a (w @ c # x) = words_acc a w @ words_acc [] x"
  by (induction a w rule: words_acc.induct) auto

lemma length_join_append: "length (py_join sep us) \<le> length (py_join sep (us @ vs))"
  by (induction us rule: induct_list012; cases vs) auto

lemma newline_isspace [simp]: "py_isspace newline_char"
  by (simp add: py_isspace_def)

lemma collapse_space_longer:
  "length (collapse_space w) \<le> length (collapse_space (w @ newline_char # x))"
  using length_join_append by (simp add: collapse_space_def py_words_def words_acc_break)

lemma warning_split: "\<exists>r. NO_EVENT_WARNING = newline_char # r \<and> \<not> sublist DECLARED_PREFIX r"
  by (rule exI [of _ "tl NO_EVENT_WARNING"]) code_simp

lemma declared_reason_kept:
  assumes "collapse_space why \<noteq> []" and "\<not> sublist DECLARED_PREFIX (collapse_space why)"
    and "x \<in> {d, d @ NO_EVENT_WARNING}" and "d = compose_declared_reason desc (Some why)"
  shows "length (collapse_space why) \<le> length (declared_reason (Some x))"
proof -
  obtain b where d: "d = b @ DECLARED_PREFIX @ '' '' @ collapse_space why"
    using assms(1,4) by (auto simp: compose_declared_reason_def text_or_empty_def Let_def)
  obtain r where r: "NO_EVENT_WARNING = newline_char # r" "\<not> sublist DECLARED_PREFIX r"
    using warning_split by blast
  have "newline_char \<notin> set DECLARED_PREFIX"
    by (simp add: DECLARED_PREFIX_def)
  then have no: "\<not> sublist DECLARED_PREFIX (collapse_space why @ newline_char # r)"
    using sublist_across [of newline_char DECLARED_PREFIX "collapse_space why" r] assms(2) r(2) by blast
  from assms(3) consider "x = d" | "x = b @ DECLARED_PREFIX @ '' '' @ collapse_space why @ newline_char # r"
    using d r by auto
  then show ?thesis
  proof cases
    case 1
    then show ?thesis using declared_reason_of_suffix [OF assms(2), of b] d by simp
  next
    case 2
    then show ?thesis
      using declared_reason_of_suffix [OF no, of b] collapse_space_longer [of "collapse_space why" r] by simp
  qed
qed

text \<open>What admission and composition give for one row.\<close>

lemma filed_row_auditable:
  assumes "vd_admitted (admit_task is_file (proposal_of g) wd titles crits paths)" and "well_stated g"
    and "\<not> truthy (gk_criteria g) \<Longrightarrow> d = compose_declared_reason desc (gk_why g)"
    and "x \<in> {d, d @ NO_EVENT_WARNING}"
  shows "auditable is_file (gap_task_row env w pid title x (gk_criteria g))"
proof -
  have "checkable is_file (proposal_of g) \<or> declared (proposal_of g)"
    using assms(1) admitted_facts by blast
  then consider "has_executable_criterion (gk_criteria g)" "unrunnable_target is_file (gk_criteria g) = None"
    | "\<not> truthy (gk_criteria g)" "MIN_WHY \<le> length (collapse_space (text_or_empty (gk_why g)))"
    using assms(2) by (auto simp: checkable_def declared_def proposal_of_def well_stated_def)
  then show ?thesis
  proof cases
    case 1
    then show ?thesis by (simp add: auditable_def gap_task_row_def)
  next
    case 2
    have "compose_declared_reason desc (gk_why g) = compose_declared_reason desc (Some (text_or_empty (gk_why g)))"
      by (simp add: compose_declared_reason_def text_or_empty_def split: option.split)
    then have "d = compose_declared_reason desc (Some (text_or_empty (gk_why g)))"
      using assms(3) 2(1) by simp
    moreover have "collapse_space (text_or_empty (gk_why g)) \<noteq> []"
      using 2(2) by (auto simp: MIN_WHY_def)
    ultimately have "length (collapse_space (text_or_empty (gk_why g))) \<le> length (declared_reason (Some x))"
      using declared_reason_kept assms(2,4) by (auto simp: well_stated_def)
    with 2(2) show ?thesis by (simp add: auditable_def gap_task_row_def)
  qed
qed

definition audited :: "(string \<Rightarrow> bool) \<Rightarrow> gap_state \<Rightarrow> gap_state \<Rightarrow> bool" where
  "audited is_file s s' \<longleftrightarrow> (\<forall>x\<in>set (tasks_of s'). x \<in> set (tasks_of s) \<or> auditable is_file (snd x))"

lemma audited_refl [simp]: "audited f s s"
  by (simp add: audited_def)

lemma audited_trans: "audited f s s' \<Longrightarrow> audited f s' s'' \<Longrightarrow> audited f s s''"
  by (auto simp: audited_def)

lemma audited_cong: "tasks_of s' = tasks_of s \<Longrightarrow> audited f s s'"
  by (simp add: audited_def)

lemma file_task_audited:
  assumes "\<And>x. x \<in> {d, d @ NO_EVENT_WARNING} \<Longrightarrow> auditable f (gap_task_row env w pid title x crit)"
  shows "audited f s (file_task env w pid tr title d crit s)"
proof -
  obtain k d' where "d' \<in> {d, d @ NO_EVENT_WARNING}"
    "tasks_of (file_task env w pid tr title d crit s) = tasks_of s @ [(k, gap_task_row env w pid title d' crit)]"
    using file_task_rows [of env w pid tr title d crit s] by (elim conjE exE)
  with assms [of d'] show ?thesis by (auto simp: audited_def)
qed

lemma attach_task_audited:
  assumes "well_stated g"
  shows "audited (ge_is_file env) (as_state a) (as_state (attach_task env w pid wd key g a))"
proof -
  have d: "\<not> truthy (gk_criteria g) \<Longrightarrow> attached_description key g = compose_declared_reason
      (Some (text_or_empty (gk_description g) @ (if key \<noteq> [] then gap_attached_stamp key else []))) (gk_why g)"
    by (simp add: attached_description_def Let_def)
  show ?thesis
    by (auto simp: attach_task_def Let_def
        intro!: file_task_audited filed_row_auditable [OF _ assms d])
qed

lemma attach_gap_tasks_audited:
  assumes "\<forall>g\<in>set gs. well_stated g"
  shows "audited (ge_is_file env) s (as_state (attach_gap_tasks env w pid gs key s))"
proof -
  have "audited (ge_is_file env) (as_state a) (as_state (fold (attach_task env w pid d key) gs a))" for d a
    using assms
  proof (induction gs arbitrary: a)
    case (Cons g gs)
    then show ?case
      using attach_task_audited [of g env a w pid d key] by (auto intro: audited_trans)
  qed simp
  then show ?thesis by (simp add: attach_gap_tasks_def) (metis attach_state.select_convs(1))
qed

lemma spawn_task_audited:
  assumes "well_stated g"
  shows "audited (ge_is_file env) (fst acc) (fst (spawn_task env rv w d g acc))"
  by (auto simp: spawn_task_def Let_def case_prod_beta
      intro!: file_task_audited filed_row_auditable [OF _ assms])

lemma fold_spawn_task_audited:
  "\<forall>g\<in>set gs. well_stated g \<Longrightarrow> audited (ge_is_file env) (fst acc) (fst (fold (spawn_task env rv w d) gs acc))"
proof (induction gs arbitrary: acc)
  case (Cons g gs)
  then show ?case
    using spawn_task_audited [of g env acc rv w d] Cons.IH [of "spawn_task env rv w d g acc"]
    by (simp add: audited_trans)
qed simp

lemma emit_creation_tasks [simp]: "tasks_of (fst (emit_creation env ty p tr s)) = tasks_of s"
  by simp

lemma spawn_work_order_audited:
  assumes "\<forall>t\<in>set (ga_tasks g). well_stated t"
  shows "audited (ge_is_file env) s (fst (spawn_work_order env rv seq g key s))"
proof -
  have "audited (ge_is_file env) s (fst (fold (spawn_task env rv w d) (ga_tasks g) (insert_wo_row w r s', x)))"
    if "tasks_of s' = tasks_of s" for w d r s' x
    using fold_spawn_task_audited [OF assms, of env "(insert_wo_row w r s', x)" rv w d] that
    by (simp add: audited_def)
  then show ?thesis
    by (simp add: spawn_work_order_def Let_def case_prod_beta)
qed

lemma insert_gap_audited:
  assumes "\<forall>t\<in>set (ga_tasks g). well_stated t"
  shows "audited (ge_is_file env) (is_state i) (is_state (insert_gap env rv b g i))"
proof -
  have default: "\<forall>t\<in>set (tasks_to_attach g). well_stated t"
    using assms by (auto simp: tasks_to_attach_def well_stated_def text_or_empty_def collapse_space_def
        py_words_def DECLARED_PREFIX_def)
  show ?thesis
    using attach_gap_tasks_audited [OF default, of env "is_state i"]
      attach_gap_tasks_audited [OF assms, of env "is_state i"]
      spawn_work_order_audited [OF assms, of env "is_state i" rv]
    by (auto simp: insert_gap_def Let_def case_prod_beta split: option.split)
qed

text \<open>No review files a stub. Every task the gaps of a review leave on a work order, attached, merged or
  spawned, was there before, or carries a criterion that can be run, or a declared reason of at least
  twenty characters that can be read back from its row, whether or not its event could be emitted; provided
  each proposal states its criterion or reason properly.\<close>

theorem no_stub_is_filed:
  assumes "\<forall>g\<in>set gs. \<forall>t\<in>set (ga_tasks g). well_stated t"
    and "(k, t) \<in> set (tasks_of (fst (insert_gap_work_orders env rv seq gs s)))" and "(k, t) \<notin> set (tasks_of s)"
  shows "auditable (ge_is_file env) t"
proof -
  have "audited (ge_is_file env) (is_state i) (is_state (fold (insert_gap env rv b) gs i))" for b i
    using assms(1)
  proof (induction gs arbitrary: i)
    case (Cons g gs)
    then show ?case
      using insert_gap_audited [of g env i rv b] by (auto intro: audited_trans)
  qed simp
  from this [of "\<lparr>is_state = s, is_spawned = [], is_unfiled = [], is_counter = 0\<rparr>"
      "base_sequence (gs_au s) rv seq"] show ?thesis
    using assms(2,3) by (auto simp: audited_def insert_gap_work_orders_def Let_def)
qed

section \<open>Every proposed task is accounted for\<close>

definition accounted :: "attach_state \<Rightarrow> gap_task \<Rightarrow> bool" where
  "accounted a g \<longleftrightarrow> title_key (gk_title g) \<in> set (as_existing a) \<or>
     (\<exists>f\<in>set (as_unfiled a). rf_title f = gk_title g \<and> rf_refusals f \<noteq> [])"

lemma attach_task_keeps: "accounted a g \<Longrightarrow> accounted (attach_task env w pid d key h a) g"
  by (auto simp: accounted_def attach_task_def Let_def)

lemma attach_task_accounts: "accounted (attach_task env w pid d key g a) g"
  by (auto simp: accounted_def attach_task_def Let_def dest: not_admitted_refused)

text \<open>Nothing proposed to a work order disappears. After gaps are attached every proposed task has its
  title on the work order, as it already had or because it was filed, or is reported as unfiled with
  the refusal that stopped it; and the number of rows added is the number reported.\<close>

theorem attach_accounts_for_all:
  "list_all (accounted (attach_gap_tasks env w pid gs key s)) gs \<and>
   length (tasks_of (as_state (attach_gap_tasks env w pid gs key s))) =
     length (tasks_of s) + as_added (attach_gap_tasks env w pid gs key s)"
proof -
  have keep: "accounted a g \<Longrightarrow> accounted (fold (attach_task env w pid d key) hs a) g" for a g d hs
    by (induction hs arbitrary: a) (simp_all add: attach_task_keeps)
  have all: "list_all (accounted (fold (attach_task env w pid d key) hs a)) hs" for a d hs
  proof (induction hs arbitrary: a)
    case (Cons h hs)
    then show ?case using keep [OF attach_task_accounts] by simp
  qed simp
  have one: "length (tasks_of (as_state (attach_task env w pid d key g a))) + as_added a =
      length (tasks_of (as_state a)) + as_added (attach_task env w pid d key g a)" for d g a
  proof -
    have "length (tasks_of (file_task env w pid tr ti de cr st)) = Suc (length (tasks_of st))" for tr ti de cr st
      using file_task_rows [of env w pid tr ti de cr st] by (elim conjE exE) simp
    then show ?thesis by (simp add: attach_task_def Let_def)
  qed
  have "length (tasks_of (as_state (fold (attach_task env w pid d key) hs a))) + as_added a =
      length (tasks_of (as_state a)) + as_added (fold (attach_task env w pid d key) hs a)" for d hs a
  proof (induction hs arbitrary: a)
    case (Cons h hs)
    show ?case using one [of d h a] Cons.IH [of "attach_task env w pid d key h a"] by simp
  qed simp
  from this [of "wo_description_of (gs_au s) w" gs] all show ?thesis
    by (simp add: attach_gap_tasks_def) (metis add.right_neutral attach_state.select_convs(1,4))
qed

section \<open>The drain\<close>

text \<open>The work orders after a drain: those of a set cancelled, the others untouched.\<close>

definition cancels :: "string set \<Rightarrow> wo_table \<Rightarrow> wo_table \<Rightarrow> bool" where
  "cancels C t t' \<longleftrightarrow> (\<exists>F. t' = map (\<lambda>(w, r). (w, F w r)) t \<and>
     (\<forall>w r. (w \<in> C \<longrightarrow> wo_status (F w r) = ''cancelled'') \<and> (w \<notin> C \<longrightarrow> F w r = r)))"

lemma cancels_refl: "cancels {} t t"
  unfolding cancels_def by (rule exI [of _ "\<lambda>w r. r"]) auto

lemma cancels_step:
  assumes "cancels C t t'" and "\<And>r. wo_status (f r) = ''cancelled''"
  shows "cancels (insert w C) t (tbl_update w f t')"
proof -
  obtain F where F: "t' = map (\<lambda>(w, r). (w, F w r)) t"
    "\<forall>w r. (w \<in> C \<longrightarrow> wo_status (F w r) = ''cancelled'') \<and> (w \<notin> C \<longrightarrow> F w r = r)"
    using assms(1) by (auto simp: cancels_def)
  show ?thesis
    unfolding cancels_def F(1) tbl_update_def
    by (rule exI [of _ "\<lambda>w' r. if w' = w then f (F w' r) else F w' r"]) (use F(2) assms(2) in auto)
qed

lemma drain_work_order_cancels:
  "cancels C t (wos_of s) \<Longrightarrow> cancels (insert w C) t (wos_of (drain_work_order env pid c keep w s))"
  by (simp add: drain_work_order_def Let_def update_wo_def cancels_step status_of_def)

lemma drain_task_wos: "wos_of (drain_task env pid c keep k s) = wos_of s"
  by (simp add: drain_task_def Let_def update_task_def)

definition plan_cancels :: "(string \<times> string list) list \<Rightarrow> string set" where
  "plan_cancels plan = (\<Union>(c, ks)\<in>set plan. set (tl ks))"

lemma apply_plan_tasks_wos: "wos_of (apply_plan (drain_task env pid) plan s) = wos_of s"
proof -
  have "wos_of (fold (drain_task env pid c k) ks s) = wos_of s" for c k ks s
    by (induction ks arbitrary: s) (simp_all add: drain_task_wos)
  then show ?thesis
    unfolding apply_plan_def by (induction plan arbitrary: s) (simp_all add: case_prod_beta)
qed

lemma apply_plan_cancels:
  "cancels C t (wos_of s) \<Longrightarrow> cancels (C \<union> plan_cancels plan) t (wos_of (apply_plan (drain_work_order env pid) plan s))"
proof (induction plan arbitrary: C s)
  case Nil
  then show ?case by (simp add: plan_cancels_def apply_plan_def)
next
  case (Cons x plan)
  obtain c ks where x: "x = (c, ks)" by (cases x)
  have "cancels (C \<union> set ws) t (wos_of (fold (drain_work_order env pid c k) ws s))"
    if "cancels C t (wos_of s)" for ws k s C
    using that
  proof (induction ws arbitrary: C s)
    case (Cons w ws)
    from Cons.IH [OF drain_work_order_cancels [OF Cons.prems]] show ?case by simp
  qed simp
  from Cons.IH [OF this [OF Cons.prems, where ws = "tl ks" and k = "hd ks"]] x show ?case
    by (simp add: plan_cancels_def apply_plan_def Un_assoc)
qed

lemma filter_cancelled:
  assumes "\<forall>w r. (w \<in> C \<longrightarrow> wo_status (F w r) = ''cancelled'') \<and> (w \<notin> C \<longrightarrow> F w r = r)"
  shows "filter (\<lambda>(w, r). A r \<and> wo_status r \<in> set open_for_gaps \<and> B r) (map (\<lambda>(w, r). (w, F w r)) t) =
     filter (\<lambda>(w, r). w \<notin> C) (filter (\<lambda>(w, r). A r \<and> wo_status r \<in> set open_for_gaps \<and> B r) t)"
proof (induction t)
  case (Cons x t)
  obtain w r where x: "x = (w, r)" by (cases x)
  show ?case
    using Cons assms [rule_format, of w r] unfolding x
    by (cases "w \<in> C") (auto simp: open_for_gaps_def)
qed simp

lemma drain_rows_cancelled:
  assumes "cancels C (work_orders (au_db au)) (work_orders (au_db au'))"
  shows "drain_rows au' pid = filter (\<lambda>(w, c). w \<notin> C) (drain_rows au pid)"
proof -
  obtain F where F: "work_orders (au_db au') = map (\<lambda>(w, r). (w, F w r)) (work_orders (au_db au))"
    "\<forall>w r. (w \<in> C \<longrightarrow> wo_status (F w r) = ''cancelled'') \<and> (w \<notin> C \<longrightarrow> F w r = r)"
    using assms by (auto simp: cancels_def)
  have "filter (\<lambda>(w, c). w \<notin> C) (map (\<lambda>(w, r). (w, h r)) xs) = map (\<lambda>(w, r). (w, h r)) (filter (\<lambda>(w, r). w \<notin> C) xs)"
    for h :: "wo_row \<Rightarrow> string option" and xs
    by (induction xs) auto
  then show ?thesis
    unfolding drain_rows_def F(1) filter_cancelled [OF F(2)] by (simp add: filter_sort)
qed

text \<open>The open spawns of one category, the earliest first.\<close>

definition open_spawns :: "authority \<Rightarrow> string \<Rightarrow> string \<Rightarrow> string list" where
  "open_spawns au pid c = map fst (filter (\<lambda>(w, c'). c' = Some c) (drain_rows au pid))"

lemma open_spawns_cancelled:
  assumes "cancels C (work_orders (au_db au)) (work_orders (au_db au'))"
  shows "open_spawns au' pid c = filter (\<lambda>w. w \<notin> C) (open_spawns au pid c)"
proof -
  have "map fst (filter (\<lambda>(w, c'). c' = Some c) (filter (\<lambda>(w, c). w \<notin> C) xs)) =
        filter (\<lambda>w. w \<notin> C) (map fst (filter (\<lambda>(w, c'). c' = Some c) xs))" for xs :: "(string \<times> string option) list"
    by (induction xs) auto
  then show ?thesis
    by (simp only: open_spawns_def drain_rows_cancelled [OF assms])
qed

lemma in_fanned_out:
  "(c, ks) \<in> set (fanned_out rows) \<longleftrightarrow>
     ks = map fst (filter (\<lambda>(k, c'). c' = Some c) rows) \<and> 2 \<le> length ks"
proof -
  have "filter (\<lambda>(k, c'). c' = Some c) rows \<noteq> [] \<Longrightarrow> c \<in> set (List.map_filter snd rows)"
    by (induction rows) (auto simp: List.map_filter_def split: if_splits)
  then show ?thesis
    by (fastforce simp: fanned_out_def)
qed

lemma distinct_drain_keys:
  assumes "distinct (keys (work_orders (au_db au)))"
  shows "distinct (map fst (drain_rows au pid))"
proof -
  have d: "distinct (map fst (filter P (work_orders (au_db au))))" for P
    using assms by (simp add: distinct_map_filter)
  have "distinct (map fst (sort_key f xs)) \<longleftrightarrow> distinct (map fst xs)"
    for f :: "string \<times> wo_row \<Rightarrow> string option" and xs
    by (metis distinct_map distinct_sort set_sort)
  with d show ?thesis by (simp add: drain_rows_def case_prod_beta comp_def)
qed


section \<open>Witnesses\<close>

definition silent_env :: gap_env where
  "silent_env = \<lparr>ge_now = ''2026-09-22T10:00:00'', ge_id = (\<lambda>n. ''id'' @ replicate n (CHR ''x'')),
     ge_event_id = (\<lambda>n. ''ev'' @ replicate n (CHR ''x'')), ge_spool_ok = (\<lambda>n. False), ge_is_file = (\<lambda>p. False)\<rparr>"

definition empty_state :: gap_state where
  "empty_state = \<lparr>gs_au = \<lparr>au_db = empty_db [], au_deps = [],
     au_spool = \<lparr>sp_inbox = [], sp_processing = [], sp_processed = [], sp_failed = [], sp_reasons = [],
       sp_raw = [], sp_business = [], sp_ai = []\<rparr>\<rparr>,
     gs_next = 0\<rparr>"

definition sample_review :: review where
  "sample_review = \<lparr>rv_project = ''p'', rv_milestone = None, rv_work_order = ''r'', rv_title = ''R'', rv_incomplete = False\<rparr>"

definition sample_gap :: "string \<Rightarrow> string \<Rightarrow> string option \<Rightarrow> string option \<Rightarrow> gap" where
  "sample_gap category title criteria why =
     \<lparr>ga_title = ''G'', ga_category = Some category, ga_description = ''d'', ga_type = None,
      ga_tasks = [\<lparr>gk_title = title, gk_description = None, gk_criteria = criteria, gk_why = why\<rparr>]\<rparr>"

abbreviation checked_gap :: "string \<Rightarrow> gap" where
  "checked_gap category \<equiv> sample_gap category ''T'' (Some ''SQL-CHECK: select 1'') None"

definition one_spawn :: gap_state where
  "one_spawn = fst (insert_gap_work_orders silent_env sample_review None [checked_gap ''a''] empty_state)"

definition two_spawns :: gap_state where
  "two_spawns = fst (insert_gap_work_orders silent_env (sample_review\<lparr>rv_work_order := ''q''\<rparr>) None [checked_gap ''a''] one_spawn)"

lemma gap_fan_out_bounded_witness: "spawn_count two_spawns ''p'' ''a'' \<le> 2"
proof -
  have "gap_category (checked_gap ''a'') = ''a''" by code_simp
  moreover have "spawn_count empty_state ''p'' ''a'' = 0" by code_simp
  ultimately show ?thesis
    using gap_fan_out_bounded [of "''p''" "[(silent_env, sample_review, None, checked_gap ''a''),
        (silent_env, sample_review\<lparr>rv_work_order := ''q''\<rparr>, None, checked_gap ''a'')]" "''a''" empty_state]
    by (simp add: two_spawns_def one_spawn_def sample_review_def)
qed

lemma one_spawn_task: "\<exists>k t. (k, t) \<in> set (tasks_of one_spawn)"
proof -
  have "tasks_of one_spawn \<noteq> []" by code_simp
  then show ?thesis by (cases "tasks_of one_spawn") auto
qed

lemma no_stub_is_filed_witness: "\<exists>k t. (k, t) \<in> set (tasks_of one_spawn) \<and> auditable (\<lambda>p. False) t"
proof -
  obtain k t where kt: "(k, t) \<in> set (tasks_of one_spawn)" using one_spawn_task by blast
  have "has_executable_criterion (Some ''SQL-CHECK: select 1'')" by code_simp
  then have ws: "\<forall>g\<in>set [checked_gap ''a'']. \<forall>t\<in>set (ga_tasks g). well_stated t"
    by (simp add: sample_gap_def well_stated_def text_or_empty_def collapse_space_def py_words_def DECLARED_PREFIX_def)
  have "tasks_of empty_state = []" by (simp add: empty_state_def empty_db_def)
  then have "auditable (ge_is_file silent_env) t"
    using no_stub_is_filed [OF ws, of k t silent_env sample_review None empty_state] kt
    by (simp add: one_spawn_def)
  with kt show ?thesis by (auto simp: silent_env_def)
qed

definition spawn_counts :: "gap_state \<Rightarrow> bool \<times> nat" where
  "spawn_counts s = (distinct (keys (wos_of s)), length (open_spawns (gs_au s) ''p'' ''a''))"

lemma two_spawns_counts: "spawn_counts two_spawns = (True, 2)"
  by code_simp


text \<open>Two places where what should be kept is lost. When one gap of a review merges into an earlier work
  order and its task is refused, and another gap of the same review spawns a work order and has a task
  refused, the refusal of the first is missing from the records the review returns, although the attach
  reported it. And a task admitted on its declared reason although it has a criterion, one that is only
  prose, is filed without the reason, so that its row is a stub.\<close>

theorem refusal_and_reason_lost:
  "as_unfiled (attach_gap_tasks silent_env (fst (hd (wos_of one_spawn))) ''p''
       (ga_tasks (sample_gap ''a'' ''U'' None None)) [] one_spawn) \<noteq> [] \<and>
   map (\<lambda>r. (gr_outcome r, length (gr_unfiled r)))
     (snd (insert_gap_work_orders silent_env sample_review None
        [sample_gap ''a'' ''U'' None None, sample_gap ''b'' ''V'' None None] one_spawn)) =
     [(Merged, 0), (Spawned 0 1 False, 1)] \<and>
   map (\<lambda>(k, t). auditable (\<lambda>p. False) t)
     (tasks_of (fst (insert_gap_work_orders silent_env sample_review None
        [sample_gap ''a'' ''W'' (Some ''works well'') (Some ''a judgement about design'')] empty_state))) = [False]"
proof (intro conjI)
  show "as_unfiled (attach_gap_tasks silent_env (fst (hd (wos_of one_spawn))) ''p''
       (ga_tasks (sample_gap ''a'' ''U'' None None)) [] one_spawn) \<noteq> []"
    by code_simp
  show "map (\<lambda>r. (gr_outcome r, length (gr_unfiled r)))
     (snd (insert_gap_work_orders silent_env sample_review None
        [sample_gap ''a'' ''U'' None None, sample_gap ''b'' ''V'' None None] one_spawn)) =
     [(Merged, 0), (Spawned 0 1 False, 1)]"
    by code_simp
  show "map (\<lambda>(k, t). auditable (\<lambda>p. False) t)
     (tasks_of (fst (insert_gap_work_orders silent_env sample_review None
        [sample_gap ''a'' ''W'' (Some ''works well'') (Some ''a judgement about design'')] empty_state))) = [False]"
    by code_simp
qed

end
