(* ===== verification/Py_Json.thy ===== *)
theory Py_Json
  imports Py_Text "HOL-Library.AList"
begin

text \<open>
  The part of Python's \<open>json\<close> module the stores of the program use: values, \<open>json.dumps\<close> (ASCII only,
  with or without \<open>indent\<close>) and \<open>json.loads\<close>, and that the second undoes the first.

  A dictionary is an association list in insertion order. The texts of floats are kept as they are
  read, NaN and the infinities included: no code modelled here computes with them. Escapes of code points
  above 255 have no character here and are read as errors.
\<close>

datatype json =
    JsNull
  | JsBool bool
  | JsInt int
  | JsFloat string
  | JsStr string
  | JsList "json list"
  | JsObj "(string \<times> json) list"

section \<open>Writing\<close>

fun nat_text :: "nat \<Rightarrow> string" where
  "nat_text n = (if n < 10 then [char_of (48 + n)] else nat_text (n div 10) @ [char_of (48 + n mod 10)])"

declare nat_text.simps [simp del]

definition int_text :: "int \<Rightarrow> string" where
  "int_text i = (if i < 0 then CHR ''-'' # nat_text (nat (- i)) else nat_text (nat i))"

definition quote_char :: char where
  "quote_char = CHR 0x22"

definition backslash :: char where
  "backslash = CHR 0x5C"

definition json_escape :: "char \<Rightarrow> string" where
  "json_escape c =
     (let n = (of_char c :: nat) in
      if c = quote_char \<or> c = backslash then [backslash, c]
      else if n = 10 then [backslash, CHR ''n''] else if n = 13 then [backslash, CHR ''r'']
      else if n = 9 then [backslash, CHR ''t''] else if n = 12 then [backslash, CHR ''f'']
      else if n = 8 then [backslash, CHR ''b'']
      else if 32 \<le> n \<and> n \<le> 126 then [c]
      else [backslash, CHR ''u'', CHR ''0'', CHR ''0'', hex_digit (n div 16), hex_digit (n mod 16)])"

lemma seven_bits: "(of_char c :: nat) < 128 \<longleftrightarrow> \<not> digit7 c"
proof (cases c)
  case (Char b0 b1 b2 b3 b4 b5 b6 b7)
  then show ?thesis
    by (cases b7; simp add: of_bool_def split: if_splits)
qed

lemma json_escape_code [code]: "json_escape c =
   (if c = quote_char \<or> c = backslash then [backslash, c]
    else if printable c \<and> \<not> digit7 c then [c]
    else if c = CHR 0x0A then [backslash, CHR ''n''] else if c = CHR 0x0D then [backslash, CHR ''r'']
    else if c = CHR 0x09 then [backslash, CHR ''t''] else if c = CHR 0x0C then [backslash, CHR ''f'']
    else if c = CHR 0x08 then [backslash, CHR ''b'']
    else [backslash, CHR ''u'', CHR ''0'', CHR ''0'', hex_digit (of_char c div 16), hex_digit (of_char c mod 16)])"
proof -
  have "(of_char c :: nat) = 10 \<longleftrightarrow> c = CHR 0x0A" "(of_char c :: nat) = 13 \<longleftrightarrow> c = CHR 0x0D" "(of_char c :: nat) = 9 \<longleftrightarrow> c = CHR 0x09"
    "(of_char c :: nat) = 12 \<longleftrightarrow> c = CHR 0x0C" "(of_char c :: nat) = 8 \<longleftrightarrow> c = CHR 0x08"
    using char_code_iff [of c 10] char_code_iff [of c 13] char_code_iff [of c 9] char_code_iff [of c 12] char_code_iff [of c 8]
    by (simp_all add: char_of_def bit_simps)
  moreover have "(32 \<le> (of_char c :: nat) \<and> (of_char c :: nat) \<le> 126) \<longleftrightarrow> printable c \<and> \<not> digit7 c"
    unfolding seven_bits [symmetric] printable_def Let_def by auto
  moreover have "json_escape c = (let n = (of_char c :: nat) in
    if c = quote_char \<or> c = backslash then [backslash, c] else if 32 \<le> n \<and> n \<le> 126 then [c]
    else if n = 10 then [backslash, CHR ''n''] else if n = 13 then [backslash, CHR ''r'']
    else if n = 9 then [backslash, CHR ''t''] else if n = 12 then [backslash, CHR ''f''] else if n = 8 then [backslash, CHR ''b'']
    else [backslash, CHR ''u'', CHR ''0'', CHR ''0'', hex_digit (n div 16), hex_digit (n mod 16)])"
    unfolding json_escape_def Let_def by auto
  ultimately show ?thesis
    by (simp only: Let_def)
qed

lemma control_char [code_unfold]: "(of_char c :: nat) < 32 \<longleftrightarrow> \<not> digit5 c \<and> \<not> digit6 c \<and> \<not> digit7 c"
proof (cases c)
  case (Char b0 b1 b2 b3 b4 b5 b6 b7)
  then show ?thesis
    by (cases b5; cases b6; cases b7; simp add: of_bool_def split: if_splits)
qed

definition json_quote :: "string \<Rightarrow> string" where
  "json_quote s = [quote_char] @ concat (map json_escape s) @ [quote_char]"

text \<open>The line break and indentation at a nesting level, and what separates the items there.\<close>

definition json_break :: "nat option \<Rightarrow> nat \<Rightarrow> string" where
  "json_break ind level = (case ind of None \<Rightarrow> [] | Some n \<Rightarrow> CHR 0x0A # replicate (n * level) (CHR '' ''))"

definition json_sep :: "nat option \<Rightarrow> nat \<Rightarrow> string" where
  "json_sep ind level = (case ind of None \<Rightarrow> '', '' | Some n \<Rightarrow> CHR '','' # json_break ind level)"

fun dumps_at :: "nat option \<Rightarrow> nat \<Rightarrow> json \<Rightarrow> string" where
  "dumps_at ind l JsNull = ''null''"
| "dumps_at ind l (JsBool b) = (if b then ''true'' else ''false'')"
| "dumps_at ind l (JsInt i) = int_text i"
| "dumps_at ind l (JsFloat t) = t"
| "dumps_at ind l (JsStr s) = json_quote s"
| "dumps_at ind l (JsList xs) =
     (if xs = [] then ''[]''
      else CHR ''['' # json_break ind (Suc l) @ py_join (json_sep ind (Suc l)) (map (dumps_at ind (Suc l)) xs) @
        json_break ind l @ '']'')"
| "dumps_at ind l (JsObj kvs) =
     (if kvs = [] then ''{}''
      else CHR ''{'' # json_break ind (Suc l) @
        py_join (json_sep ind (Suc l)) (map (\<lambda>(k, v). json_quote k @ '': '' @ dumps_at ind (Suc l) v) kvs) @
        json_break ind l @ ''}'')"

definition json_dumps :: "nat option \<Rightarrow> json \<Rightarrow> string" where
  "json_dumps ind v = dumps_at ind 0 v"

section \<open>Reading\<close>

definition json_ws :: "char \<Rightarrow> bool" where
  "json_ws c \<longleftrightarrow> c \<in> {CHR '' '', CHR 0x09, CHR 0x0A, CHR 0x0D}"

abbreviation skip_ws :: "string \<Rightarrow> string" where
  "skip_ws s \<equiv> dropWhile json_ws s"

definition hex_value :: "char \<Rightarrow> nat option" where
  "hex_value c = (let n = (of_char c :: nat) in
     if 48 \<le> n \<and> n \<le> 57 then Some (n - 48)
     else if 97 \<le> n \<and> n \<le> 102 then Some (n - 87)
     else if 65 \<le> n \<and> n \<le> 70 then Some (n - 55) else None)"

definition hex_char :: "char \<Rightarrow> char \<Rightarrow> char \<Rightarrow> char \<Rightarrow> char option" where
  "hex_char a b c d =
     (case (hex_value a, hex_value b, hex_value c, hex_value d) of
        (Some w, Some x, Some y, Some z) \<Rightarrow> if w = 0 \<and> x = 0 then Some (char_of (16 * y + z)) else None
      | _ \<Rightarrow> None)"

definition unescape :: "char \<Rightarrow> char option" where
  "unescape c = map_of [(quote_char, quote_char), (backslash, backslash), (CHR ''/'', CHR ''/''),
     (CHR ''b'', CHR 0x08), (CHR ''f'', CHR 0x0C), (CHR ''n'', CHR 0x0A), (CHR ''r'', CHR 0x0D),
     (CHR ''t'', CHR 0x09)] c"

text \<open>After the opening quote: the string and the rest after the closing one.\<close>

fun json_string :: "string \<Rightarrow> (string \<times> string) option" where
  "json_string [] = None"
| "json_string (c # s) =
     (if c = quote_char then Some ([], s)
      else if c = backslash then
        (case s of
           [] \<Rightarrow> None
         | e # t \<Rightarrow>
             if e = CHR ''u'' then
               (case t of
                  w # x # y # z # t' \<Rightarrow>
                    (case hex_char w x y z of
                       None \<Rightarrow> None
                     | Some d \<Rightarrow> map_option (\<lambda>(r, rest). (d # r, rest)) (json_string t'))
                | _ \<Rightarrow> None)
             else (case unescape e of
                     None \<Rightarrow> None
                   | Some d \<Rightarrow> map_option (\<lambda>(r, rest). (d # r, rest)) (json_string t)))
      else if (of_char c :: nat) < 32 then None
      else map_option (\<lambda>(r, rest). (c # r, rest)) (json_string s))"

definition digits_value :: "string \<Rightarrow> int" where
  "digits_value ds = fold (\<lambda>c a. 10 * a + (int (of_char c) - 48)) ds 0"

text \<open>A fraction and an exponent, when the text goes on with one.\<close>

definition fraction_part :: "string \<Rightarrow> string \<times> string" where
  "fraction_part s =
     (case s of
        c # t \<Rightarrow> if c = CHR ''.'' \<and> takeWhile ascii_digit t \<noteq> []
          then (c # takeWhile ascii_digit t, dropWhile ascii_digit t) else ([], s)
      | [] \<Rightarrow> ([], s))"

definition exponent_part :: "string \<Rightarrow> string \<times> string" where
  "exponent_part s =
     (case s of
        c # t \<Rightarrow>
          (let (sg, u) = (case t of d # t' \<Rightarrow> if d = CHR ''+'' \<or> d = CHR ''-'' then ([d], t') else ([], t)
             | [] \<Rightarrow> ([], t))
           in if (c = CHR ''e'' \<or> c = CHR ''E'') \<and> takeWhile ascii_digit u \<noteq> []
              then (c # sg @ takeWhile ascii_digit u, dropWhile ascii_digit u) else ([], s))
      | [] \<Rightarrow> ([], s))"

definition json_number :: "string \<Rightarrow> (json \<times> string) option" where
  "json_number s =
     (let (sg, u) = (case s of c # t \<Rightarrow> if c = CHR ''-'' then ([c], t) else ([], s) | [] \<Rightarrow> ([], s));
          run = takeWhile ascii_digit u;
          ds = (if run \<noteq> [] \<and> hd run = CHR ''0'' then [CHR ''0''] else run);
          (fr, u1) = fraction_part (drop (length ds) u);
          (ex, u2) = exponent_part u1
      in if ds = [] then None
         else if fr = [] \<and> ex = []
         then Some (JsInt (if sg = [] then digits_value ds else - digits_value ds), u2)
         else Some (JsFloat (sg @ ds @ fr @ ex), u2))"

definition json_literals :: "(string \<times> json) list" where
  "json_literals = [(''null'', JsNull), (''true'', JsBool True), (''false'', JsBool False),
     (''NaN'', JsFloat ''NaN''), (''Infinity'', JsFloat ''Infinity''), (''-Infinity'', JsFloat ''-Infinity'')]"

definition json_atom :: "string \<Rightarrow> (json \<times> string) option" where
  "json_atom s =
     (case filter (\<lambda>(w, v). prefix w s) json_literals of
        (w, v) # _ \<Rightarrow> Some (v, drop (length w) s)
      | [] \<Rightarrow> json_number s)"

text \<open>The dictionary of the pairs read: a later value of a key takes the place of the earlier one.\<close>

definition dict_of :: "(string \<times> json) list \<Rightarrow> (string \<times> json) list" where
  "dict_of kvs = fold (\<lambda>(k, v) d. AList.update k v d) kvs []"

fun json_value :: "nat \<Rightarrow> string \<Rightarrow> (json \<times> string) option"
  and json_items :: "nat \<Rightarrow> string \<Rightarrow> (json list \<times> string) option"
  and json_members :: "nat \<Rightarrow> string \<Rightarrow> ((string \<times> json) list \<times> string) option" where
  "json_value 0 s = None"
| "json_value (Suc n) s =
     (case s of
        [] \<Rightarrow> None
      | c # t \<Rightarrow>
          if c = quote_char then map_option (\<lambda>(x, r). (JsStr x, r)) (json_string t)
          else if c = CHR ''['' then
            (case skip_ws t of
               [] \<Rightarrow> None
             | d # r \<Rightarrow> if d = CHR '']'' then Some (JsList [], r)
                 else map_option (\<lambda>(xs, r'). (JsList xs, r')) (json_items n (d # r)))
          else if c = CHR ''{'' then
            (case skip_ws t of
               [] \<Rightarrow> None
             | d # r \<Rightarrow> if d = CHR ''}'' then Some (JsObj [], r)
                 else map_option (\<lambda>(kvs, r'). (JsObj (dict_of kvs), r')) (json_members n (d # r)))
          else json_atom s)"
| "json_items 0 s = None"
| "json_items (Suc n) s =
     (case json_value n s of
        None \<Rightarrow> None
      | Some (v, r) \<Rightarrow>
          (case skip_ws r of
             [] \<Rightarrow> None
           | c # r' \<Rightarrow>
               if c = CHR '']'' then Some ([v], r')
               else if c = CHR '','' then map_option (\<lambda>(vs, r'). (v # vs, r')) (json_items n (skip_ws r'))
               else None))"
| "json_members 0 s = None"
| "json_members (Suc n) s =
     (case s of
        [] \<Rightarrow> None
      | q # t \<Rightarrow>
          if q \<noteq> quote_char then None
          else (case json_string t of
             None \<Rightarrow> None
           | Some (k, r) \<Rightarrow>
               (case skip_ws r of
                  [] \<Rightarrow> None
                | d # r1 \<Rightarrow>
                    if d \<noteq> CHR '':'' then None
                    else (case json_value n (skip_ws r1) of
                       None \<Rightarrow> None
                     | Some (v, r2) \<Rightarrow>
                         (case skip_ws r2 of
                            [] \<Rightarrow> None
                          | c # r' \<Rightarrow>
                              if c = CHR ''}'' then Some ([(k, v)], r')
                              else if c = CHR '',''
                              then map_option (\<lambda>(vs, r'). ((k, v) # vs, r')) (json_members n (skip_ws r'))
                              else None)))))"

text \<open>Every level of nesting and every item takes a character of the text, and two units of fuel.\<close>

definition json_loads :: "string \<Rightarrow> json option" where
  "json_loads s =
     (case json_value (2 * length s + 2) (skip_ws s) of
        Some (v, r) \<Rightarrow> if skip_ws r = [] then Some v else None
      | None \<Rightarrow> None)"

section \<open>Queries on values\<close>

fun js_truthy :: "json \<Rightarrow> bool" where
  "js_truthy JsNull = False"
| "js_truthy (JsBool b) = b"
| "js_truthy (JsInt i) = (i \<noteq> 0)"
| "js_truthy (JsFloat t) = list_ex (\<lambda>c. c \<notin> set ''0.-+eE'') (takeWhile (\<lambda>c. c \<noteq> CHR ''e'' \<and> c \<noteq> CHR ''E'') t)"
| "js_truthy (JsStr s) = (s \<noteq> [])"
| "js_truthy (JsList xs) = (xs \<noteq> [])"
| "js_truthy (JsObj kvs) = (kvs \<noteq> [])"

text \<open>\<open>d.get(k)\<close>\<close>

definition js_get :: "(string \<times> json) list \<Rightarrow> string \<Rightarrow> json" where
  "js_get d k = (case map_of d k of None \<Rightarrow> JsNull | Some v \<Rightarrow> v)"

section \<open>Numbers and strings read back\<close>

lemma control_chars:
  "char_of (8 :: nat) = CHR 0x08" "char_of (9 :: nat) = CHR 0x09" "char_of (10 :: nat) = CHR 0x0A"
  "char_of (12 :: nat) = CHR 0x0C" "char_of (13 :: nat) = CHR 0x0D" "char_of (48 :: nat) = CHR ''0''"
  by code_simp+

lemma digits_value_snoc: "digits_value (xs @ [c]) = 10 * digits_value xs + (int (of_char c) - 48)"
  by (simp add: digits_value_def)

lemma nat_text_value [simp]: "digits_value (nat_text n) = int n"
proof (induction n rule: nat_text.induct)
  case (1 n)
  show ?case
  proof (cases "n < 10")
    case True
    then show ?thesis by (subst nat_text.simps) (simp add: digits_value_def)
  next
    case False
    then have "digits_value (nat_text n) = 10 * int (n div 10) + int (n mod 10)"
      using 1 by (subst nat_text.simps) (simp add: digits_value_snoc)
    then show ?thesis by presburger
  qed
qed

lemma nat_text_digits: "nat_text n \<noteq> [] \<and> list_all ascii_digit (nat_text n) \<and>
    (n = 0 \<longrightarrow> nat_text n = ''0'') \<and> (n \<noteq> 0 \<longrightarrow> hd (nat_text n) \<noteq> CHR ''0'')"
proof (induction n rule: nat_text.induct)
  case (1 n)
  show ?case
  proof (cases "n < 10")
    case True
    have "n = 0" if "char_of (48 + n) = CHR ''0''"
    proof -
      have "(of_char (char_of (48 + n) :: char) :: nat) = of_char (CHR ''0'')" using that by simp
      with True show ?thesis by simp
    qed
    with True show ?thesis
      by (subst (1 2 3 4) nat_text.simps) (auto simp: ascii_digit_def control_chars)
  next
    case False
    then have IH: "nat_text (n div 10) \<noteq> []" "list_all ascii_digit (nat_text (n div 10))"
        "hd (nat_text (n div 10)) \<noteq> CHR ''0''"
      using 1 by auto
    have "ascii_digit (char_of (48 + n mod 10))"
      by (simp add: ascii_digit_def)
    with IH False show ?thesis
      by (subst (1 2 3 4) nat_text.simps) simp
  qed
qed

definition json_ends :: "string \<Rightarrow> bool" where
  "json_ends s \<longleftrightarrow> (case s of [] \<Rightarrow> True | c # _ \<Rightarrow> json_ws c \<or> c \<in> set '',]}'')"

lemma json_ends_simps [simp]:
  "json_ends []" "json_ends (CHR '','' # s)" "json_ends (CHR '']'' # s)" "json_ends (CHR ''}'' # s)"
  by (simp_all add: json_ends_def)

lemma json_endsD:
  "json_ends (c # s) \<Longrightarrow> \<not> ascii_digit c \<and> c \<noteq> CHR ''.'' \<and> c \<noteq> CHR ''e'' \<and> c \<noteq> CHR ''E''"
  by (auto simp: json_ends_def json_ws_def ascii_digit_def)

lemma takeWhile_digits: "list_all ascii_digit ds \<Longrightarrow> json_ends r \<Longrightarrow> takeWhile ascii_digit (ds @ r) = ds"
  by (induction ds) (cases r, auto dest: json_endsD)

lemma no_fraction: "json_ends r \<Longrightarrow> fraction_part r = ([], r) \<and> exponent_part r = ([], r)"
  by (cases r) (auto simp: fraction_part_def exponent_part_def Let_def case_prod_beta dest: json_endsD split: list.split)

lemma json_number_text:
  assumes "json_ends r"
  shows "json_number (int_text i @ r) = Some (JsInt i, r)"
proof -
  have key: "json_number (sg @ nat_text n @ r) = Some (JsInt (if sg = [] then int n else - int n), r)"
    if sg: "sg = [] \<or> sg = ''-''" for sg n
  proof -
    have d: "nat_text n \<noteq> []" "list_all ascii_digit (nat_text n)"
        "n = 0 \<longrightarrow> nat_text n = ''0''" "n \<noteq> 0 \<longrightarrow> hd (nat_text n) \<noteq> CHR ''0''"
      using nat_text_digits [of n] by auto
    have split: "(case sg @ nat_text n @ r of c # t \<Rightarrow> if c = CHR ''-'' then ([c], t) else ([], sg @ nat_text n @ r)
        | [] \<Rightarrow> ([], sg @ nat_text n @ r)) = (sg, nat_text n @ r)"
      using sg d(1,2) by (cases "nat_text n") (auto simp: ascii_digit_def)
    have run: "takeWhile ascii_digit (nat_text n @ r) = nat_text n"
      using takeWhile_digits [OF d(2) assms] .
    show ?thesis
    proof (cases "n = 0")
      case True
      with d(3) have n: "nat_text n = ''0''" by simp
      then show ?thesis
        using no_fraction [OF assms] run split True sg
        by (auto simp: json_number_def n digits_value_def)
    next
      case False
      with d(4) have "hd (nat_text n) \<noteq> CHR ''0''" by simp
      then show ?thesis
        using no_fraction [OF assms] d(1) by (simp add: json_number_def split run)
    qed
  qed
  show ?thesis
  proof (cases "i < 0")
    case True
    then show ?thesis using key [of "''-''" "nat (- i)"] by (simp add: int_text_def)
  next
    case False
    then show ?thesis using key [of "[]" "nat i"] by (simp add: int_text_def)
  qed
qed

lemma int_text_head: "\<exists>c t. int_text i = c # t \<and> (ascii_digit c \<or> (c = CHR ''-'' \<and> t \<noteq> [] \<and> ascii_digit (hd t)))"
  using nat_text_digits [of "nat i"] nat_text_digits [of "nat (- i)"]
  by (cases "nat_text (nat i)"; cases "nat_text (nat (- i))") (auto simp: int_text_def)

lemma json_atom_int: "json_ends r \<Longrightarrow> json_atom (int_text i @ r) = Some (JsInt i, r)"
  using int_text_head [of i] json_number_text [of r i]
  by (auto simp: json_atom_def json_literals_def ascii_digit_def neq_Nil_conv)

lemma hex_value_digit: "k < 16 \<Longrightarrow> hex_value (hex_digit k) = Some k"
  by (auto simp: hex_value_def hex_digit_def Let_def)

lemma hex_char_escape: "hex_char (CHR ''0'') (CHR ''0'') (hex_digit ((of_char c :: nat) div 16)) (hex_digit (of_char c mod 16)) = Some c"
proof -
  have "hex_value (CHR ''0'') = Some 0" by (simp add: hex_value_def)
  moreover have "(of_char c :: nat) div 16 < 16"
    using nat_of_char_less_256 [of c] by linarith
  ultimately show ?thesis
    by (simp add: hex_char_def hex_value_digit)
qed

lemma json_string_escape [simp]:
  "json_string (json_escape c @ u) = map_option (\<lambda>(r, rest). (c # r, rest)) (json_string u)"
proof -
  have char: "c = char_of n" if "(of_char c :: nat) = n" for n
    using that by (metis char_of_char)
  show ?thesis
    using char [of 10] char [of 13] char [of 9] char [of 12] char [of 8] hex_char_escape [of c]
    by (auto simp: json_escape_def Let_def unescape_def quote_char_def backslash_def control_chars)
qed

lemma json_string_quoted [simp]: "json_string (concat (map json_escape s) @ quote_char # r) = Some (s, r)"
  by (induction s) (simp_all add: quote_char_def)

section \<open>Values read back\<close>

text \<open>The values \<open>dumps\<close> is undone on: keys are distinct, as in any dictionary, and no floats.\<close>

fun json_plain :: "json \<Rightarrow> bool" where
  "json_plain (JsFloat t) = False"
| "json_plain (JsList xs) = (\<forall>x\<in>set xs. json_plain x)"
| "json_plain (JsObj kvs) = (distinct (map fst kvs) \<and> (\<forall>kv\<in>set kvs. json_plain (snd kv)))"
| "json_plain v = True"

text \<open>Enough fuel to read a value.\<close>

fun json_fuel :: "json \<Rightarrow> nat" where
  "json_fuel (JsList xs) = Suc (length xs + sum_list (map json_fuel xs))"
| "json_fuel (JsObj kvs) = Suc (length kvs + sum_list (map (\<lambda>kv. json_fuel (snd kv)) kvs))"
| "json_fuel v = 1"

lemma skip_break [simp]: "skip_ws (json_break ind l @ s) = skip_ws s"
proof -
  have "skip_ws (replicate n (CHR '' '') @ s) = skip_ws s" for n
    by (induction n) (simp_all add: json_ws_def)
  then show ?thesis by (cases ind) (simp_all add: json_break_def json_ws_def)
qed

lemma json_sep_cons: "\<exists>w. json_sep ind l = CHR '','' # w \<and> (\<forall>s. skip_ws (w @ s) = skip_ws s)"
  by (cases ind) (simp_all add: json_sep_def json_ws_def)

lemma json_ends_break [simp]: "json_ends s \<Longrightarrow> json_ends (json_break ind l @ s)"
  by (cases ind) (simp_all add: json_break_def json_ends_def json_ws_def)

lemma json_ends_sep [simp]: "json_ends (json_sep ind l @ s)"
  using json_sep_cons [of ind l] by auto

lemma dumps_head: "json_plain v \<Longrightarrow> \<exists>c t. dumps_at ind l v = c # t \<and> \<not> json_ws c \<and> c \<notin> set '']}''"
proof (cases v)
  case (JsInt i)
  then show ?thesis using int_text_head [of i] by (auto simp: ascii_digit_def json_ws_def)
qed (auto simp: json_quote_def quote_char_def json_ws_def)

lemma skip_dumps: "json_plain v \<Longrightarrow> skip_ws (dumps_at ind l v @ s) = dumps_at ind l v @ s"
  using dumps_head [of v ind l] by auto

lemma json_items_join:
  assumes "\<And>x n rest. x \<in> set xs \<Longrightarrow> json_fuel x \<le> n \<Longrightarrow> json_ends rest \<Longrightarrow> json_value n (f x @ rest) = Some (x, rest)"
    and "\<And>x s. x \<in> set xs \<Longrightarrow> skip_ws (f x @ s) = f x @ s"
    and "xs \<noteq> []" "length xs + sum_list (map json_fuel xs) \<le> n"
  shows "json_items n (py_join (json_sep ind l) (map f xs) @ json_break ind l' @ CHR '']'' # rest) = Some (xs, rest)"
  using assms
proof (induction xs arbitrary: n)
  case (Cons x xs)
  from Cons.prems(4) obtain m where n: "n = Suc m" "json_fuel x \<le> m" "length xs + sum_list (map json_fuel xs) \<le> m"
    by (cases n) auto
  have v: "json_ends r \<Longrightarrow> json_value m (f x @ r) = Some (x, r)" for r
    using Cons.prems(1) n(2) by simp
  show ?case
  proof (cases xs)
    case Nil
    then show ?thesis using v [of "json_break ind l' @ CHR '']'' # rest"] by (simp add: n(1) json_ws_def)
  next
    case (Cons y ys)
    obtain w where w: "json_sep ind l = CHR '','' # w" "\<And>s. skip_ws (w @ s) = skip_ws s"
      using json_sep_cons by blast
    let ?r = "py_join (json_sep ind l) (map f xs) @ json_break ind l' @ CHR '']'' # rest"
    have IH: "json_items m ?r = Some (xs, rest)"
      using Cons.IH [of m] Cons.prems n(3) Cons by simp
    have "\<exists>s. ?r = f y @ s" by (cases ys) (simp_all add: Cons)
    then have sk: "skip_ws ?r = ?r" using Cons.prems(2) [of y] Cons by auto
    have "json_value m (f x @ json_sep ind l @ ?r) = Some (x, json_sep ind l @ ?r)"
      by (rule v) simp
    then show ?thesis using IH sk by (simp add: n(1) Cons w json_ws_def)
  qed
qed simp

lemma json_members_join:
  assumes "\<And>k x n rest. (k, x) \<in> set kvs \<Longrightarrow> json_fuel x \<le> n \<Longrightarrow> json_ends rest \<Longrightarrow> json_value n (f x @ rest) = Some (x, rest)"
    and "\<And>k x s. (k, x) \<in> set kvs \<Longrightarrow> skip_ws (f x @ s) = f x @ s"
    and "kvs \<noteq> []" "length kvs + sum_list (map (\<lambda>kv. json_fuel (snd kv)) kvs) \<le> n"
  shows "json_members n (py_join (json_sep ind l) (map (\<lambda>(k, v). json_quote k @ '': '' @ f v) kvs) @
           json_break ind l' @ CHR ''}'' # rest) = Some (kvs, rest)"
  using assms
proof (induction kvs arbitrary: n)
  case (Cons kv kvs)
  obtain k x where kv: "kv = (k, x)" by (cases kv)
  from Cons.prems(4) obtain m where n: "n = Suc m" "json_fuel x \<le> m"
      "length kvs + sum_list (map (\<lambda>kv. json_fuel (snd kv)) kvs) \<le> m"
    by (cases n) (auto simp: kv)
  have v: "json_ends r \<Longrightarrow> json_value m (f x @ r) = Some (x, r)" for r
    using Cons.prems(1) [of k x m r] n(2) kv by simp
  have fx: "skip_ws (f x @ s) = f x @ s" for s
    using Cons.prems(2) [of k x s] kv by simp
  show ?case
  proof (cases kvs)
    case Nil
    then show ?thesis using v [of "json_break ind l' @ CHR ''}'' # rest"] fx
      by (simp add: n(1) json_ws_def kv json_quote_def)
  next
    case (Cons y ys)
    obtain w where w: "json_sep ind l = CHR '','' # w" "\<And>s. skip_ws (w @ s) = skip_ws s"
      using json_sep_cons by blast
    let ?r = "py_join (json_sep ind l) (map (\<lambda>(k, v). json_quote k @ '': '' @ f v) kvs) @ json_break ind l' @ CHR ''}'' # rest"
    have IH: "json_members m ?r = Some (kvs, rest)"
    proof (rule Cons.IH)
      fix k' x' n' rest assume "(k', x') \<in> set kvs" "json_fuel x' \<le> n'" "json_ends rest"
      then show "json_value n' (f x' @ rest) = Some (x', rest)"
        using Cons.prems(1) [of k' x' n' rest] by simp
    next
      fix k' x' s assume "(k', x') \<in> set kvs"
      then show "skip_ws (f x' @ s) = f x' @ s" using Cons.prems(2) [of k' x' s] by simp
    qed (use n(3) Cons in simp_all)
    have "\<exists>s. ?r = quote_char # s" by (cases y; cases ys) (simp_all add: Cons json_quote_def)
    then have sk: "skip_ws ?r = ?r" by (auto simp: quote_char_def json_ws_def)
    have "json_value m (f x @ json_sep ind l @ ?r) = Some (x, json_sep ind l @ ?r)"
      by (rule v) simp
    then show ?thesis using IH sk fx by (simp add: n(1) Cons w json_ws_def kv json_quote_def)
  qed
qed simp

lemma dict_of_distinct: "distinct (map fst kvs) \<Longrightarrow> dict_of kvs = kvs"
proof (induction kvs rule: rev_induct)
  case (snoc kv kvs)
  have "AList.update k v d = d @ [(k, v)]" if "k \<notin> fst ` set d" for k v and d :: "(string \<times> json) list"
    using that by (induction d) auto
  with snoc show ?case by (cases kv) (simp add: dict_of_def)
qed (simp add: dict_of_def)

lemma json_value_dumps:
  "json_plain v \<Longrightarrow> json_fuel v \<le> n \<Longrightarrow> json_ends r \<Longrightarrow> json_value n (dumps_at ind l v @ r) = Some (v, r)"
proof (induction v arbitrary: n l r)
  case JsNull
  then show ?case by (cases n) (simp_all add: json_atom_def json_literals_def quote_char_def)
next
  case (JsBool b)
  then show ?case by (cases n) (simp_all add: json_atom_def json_literals_def quote_char_def)
next
  case (JsInt i)
  then obtain m where "n = Suc m" by (cases n) auto
  moreover obtain c t where ct: "int_text i = c # t" "ascii_digit c \<or> c = CHR ''-''" using int_text_head by blast
  moreover have "c \<noteq> quote_char \<and> c \<noteq> CHR ''['' \<and> c \<noteq> CHR ''{''"
    using ct(2) by (auto simp: ascii_digit_def quote_char_def)
  ultimately show ?case using json_atom_int [OF JsInt(3), of i] by simp
next
  case (JsStr s)
  then show ?case by (cases n) (simp_all add: json_quote_def)
next
  case (JsList xs)
  then obtain m where n: "n = Suc m" "length xs + sum_list (map json_fuel xs) \<le> m" by (cases n) auto
  show ?case
  proof (cases "xs = []")
    case False
    let ?t = "py_join (json_sep ind (Suc l)) (map (dumps_at ind (Suc l)) xs) @ json_break ind l @ CHR '']'' # r"
    have items: "json_items m ?t = Some (xs, r)"
      using JsList False n(2) by (intro json_items_join) (auto intro: skip_dumps)
    obtain x ys where xs: "xs = x # ys" using False by (cases xs) auto
    have "\<exists>s. ?t = dumps_at ind (Suc l) x @ s" by (cases ys) (simp_all add: xs)
    moreover have "json_plain x" using JsList.prems(1) xs by simp
    ultimately obtain c t where "?t = c # t" "\<not> json_ws c" "c \<noteq> CHR '']''"
      using dumps_head [of x ind "Suc l"] by auto
    with items False show ?thesis by (simp add: n(1) quote_char_def)
  qed (simp add: n(1) quote_char_def json_ws_def)
next
  case (JsObj kvs)
  then obtain m where n: "n = Suc m" "length kvs + sum_list (map (\<lambda>kv. json_fuel (snd kv)) kvs) \<le> m"
    by (cases n) auto
  show ?case
  proof (cases "kvs = []")
    case False
    let ?t = "py_join (json_sep ind (Suc l)) (map (\<lambda>(k, v). json_quote k @ '': '' @ dumps_at ind (Suc l) v) kvs) @
        json_break ind l @ CHR ''}'' # r"
    have plain: "json_plain x" if "(k, x) \<in> set kvs" for k x using JsObj.prems(1) that by force
    have members: "json_members m ?t = Some (kvs, r)"
      using False n(2)
    proof (intro json_members_join)
      fix k x n' rest assume "(k, x) \<in> set kvs" "json_fuel x \<le> n'" "json_ends rest"
      then show "json_value n' (dumps_at ind (Suc l) x @ rest) = Some (x, rest)"
        using JsObj.IH [of "(k, x)" x] plain by simp
    qed (auto intro: skip_dumps plain)
    obtain y ys where kvs: "kvs = y # ys" using False by (cases kvs) auto
    have "\<exists>s. ?t = quote_char # s" by (cases y; cases ys) (simp_all add: kvs json_quote_def)
    then obtain t where "?t = quote_char # t" by blast
    with members False JsObj.prems(1) show ?thesis
      by (simp add: n(1) quote_char_def json_ws_def dict_of_distinct)
  qed (simp add: n(1) quote_char_def json_ws_def)
qed simp

section \<open>Texts read back\<close>

lemma fold_lengths: "list_all (\<lambda>x. fu x \<le> 2 * length (f x)) xs \<Longrightarrow> xs \<noteq> [] \<Longrightarrow>
    length xs + sum_list (map fu xs) \<le> 2 * length (py_join (CHR '','' # w) (map f xs)) + 1"
proof (induction xs)
  case (Cons x xs)
  then show ?case by (cases xs) auto
qed simp

lemma json_fuel_le: "json_plain v \<Longrightarrow> json_fuel v \<le> 2 * length (dumps_at ind l v)"
proof (induction v arbitrary: l)
  case (JsInt i)
  then show ?case using int_text_head [of i] by auto
next
  case (JsList xs)
  obtain w where w: "json_sep ind (Suc l) = CHR '','' # w" using json_sep_cons by blast
  have "list_all (\<lambda>x. json_fuel x \<le> 2 * length (dumps_at ind (Suc l) x)) xs"
    using JsList by (simp add: list_all_iff)
  then show ?case
    using fold_lengths [of json_fuel "dumps_at ind (Suc l)" xs w] by (auto simp: w)
next
  case (JsObj kvs)
  obtain w where w: "json_sep ind (Suc l) = CHR '','' # w" using json_sep_cons by blast
  let ?f = "\<lambda>(k, v). json_quote k @ '': '' @ dumps_at ind (Suc l) v"
  have "list_all (\<lambda>kv. json_fuel (snd kv) \<le> 2 * length (?f kv)) kvs"
  proof (unfold list_all_iff, intro ballI)
    fix kv assume kv: "kv \<in> set kvs"
    obtain k v where "kv = (k, v)" by (cases kv)
    moreover have "json_fuel v \<le> 2 * length (dumps_at ind (Suc l) v)"
      using JsObj.IH [of "(k, v)" v "Suc l"] JsObj.prems kv \<open>kv = (k, v)\<close> by force
    ultimately show "json_fuel (snd kv) \<le> 2 * length (?f kv)" by simp
  qed
  then show ?case
    using fold_lengths [of "\<lambda>kv. json_fuel (snd kv)" ?f kvs w] by (auto simp: w)
qed (auto simp: json_quote_def)

lemma json_loads_dumps [simp]: "json_plain v \<Longrightarrow> json_loads (json_dumps ind v) = Some v"
  using json_value_dumps [of v "2 * length (json_dumps ind v) + 2" "[]" ind 0]
    json_fuel_le [of v ind 0] skip_dumps [of v ind 0 "[]"]
  by (simp add: json_loads_def json_dumps_def)

end
