(* ===== verification/Lane_Answers.thy ===== *)
theory Lane_Answers
  imports Gap_Work Py_Json
begin

text \<open>
  What a reviewer submits and how it is tested: the container a lane runs in
  (\<^verbatim>\<open>core/gates/lane_sandbox.py\<close>), the shape of an answer and the techniques a lane can demand
  (\<^verbatim>\<open>core/work_orders/review_answers.py\<close>).

  Docker and git are a parameter: what \<open>docker info\<close>, \<open>docker image inspect\<close>, \<open>git archive\<close>, \<open>docker build\<close> and
  \<open>docker run\<close> answer. Text fields of an answer are strings, as the code makes them with \<open>str\<close>.
\<close>

section \<open>The lane container\<close>

datatype engine_info = DockerMissing | DockerSilent string | DockerInfo int string string

text \<open>A run that ends has an exit code; one that hits the limit has none. Both leave an output.\<close>

record docker =
  dk_info :: engine_info
  dk_has :: "string \<Rightarrow> bool"
  dk_archive :: "string \<Rightarrow> string \<Rightarrow> int"
  dk_build :: "string \<Rightarrow> int \<times> string"
  dk_exec :: "string \<Rightarrow> string \<Rightarrow> int option \<times> string"
  dk_sha256 :: "string \<Rightarrow> string"

record lane_run =
  lr_exit :: "int option"
  lr_timed_out :: bool
  lr_sha256 :: string
  lr_tail :: string

definition last_chars :: "nat \<Rightarrow> string \<Rightarrow> string" where
  "last_chars n s = drop (length s - n) s"

definition OUTPUT_TAIL_CHARS :: nat where
  "OUTPUT_TAIL_CHARS = 4000"

definition IMAGE_PREFIX :: string where
  "IMAGE_PREFIX = ''ds-review''"

text \<open>Why no container can run, if it cannot.\<close>

definition docker_available :: "docker \<Rightarrow> string option" where
  "docker_available dk =
     (case dk_info dk of
        DockerMissing \<Rightarrow> Some ''`docker` is not on PATH''
      | DockerSilent e \<Rightarrow> Some (''`docker info` did not answer: '' @ e)
      | DockerInfo code out err \<Rightarrow>
          if code = 0 then None
          else (let detail = py_splitlines (py_strip (if err \<noteq> [] then err else out)) in
            Some (''the Docker engine is not running'' @ (if detail \<noteq> [] then '' ('' @ last detail @ '')'' else []) @
              ''. Start Docker Desktop and retry.'')))"

definition image_tag :: "string \<Rightarrow> string" where
  "image_tag sha = IMAGE_PREFIX @ '':'' @ take 12 sha"

definition build_image :: "docker \<Rightarrow> string \<Rightarrow> string \<Rightarrow> string + string" where
  "build_image dk repo_root sha =
     (let tag = image_tag sha in
      if dk_has dk tag then Inr tag
      else if dk_archive dk repo_root sha \<noteq> 0 then Inl (''`git archive '' @ take 12 sha @ ''` failed (exit '' @
        int_text (dk_archive dk repo_root sha) @ '')'')
      else (case dk_build dk tag of (code, err) \<Rightarrow>
        if code = 0 then Inr tag
        else Inl (let detail = py_splitlines (py_strip err) in
          ''building '' @ tag @ '' failed: '' @ (if detail \<noteq> [] then last detail else ''no error text''))))"

definition run_in_lane :: "docker \<Rightarrow> string \<Rightarrow> string \<Rightarrow> lane_run" where
  "run_in_lane dk img command =
     (case dk_exec dk img command of (code, out) \<Rightarrow>
        \<lparr>lr_exit = code, lr_timed_out = (code = None), lr_sha256 = dk_sha256 dk out,
         lr_tail = last_chars OUTPUT_TAIL_CHARS out\<rparr>)"

text \<open>A reproduction as reported: the exit code is absent when the report gives no integer.\<close>

record reproduction =
  rp_command :: string
  rp_exit :: "int option"

definition verify_reproduction :: "docker \<Rightarrow> string \<Rightarrow> reproduction \<Rightarrow> bool \<times> lane_run option \<times> string" where
  "verify_reproduction dk img rp =
     (let command = py_strip (rp_command rp) in
      if command = [] then (False, None, ''the reproduction has no command'')
      else (case rp_exit rp of
         None \<Rightarrow> (False, None, ''the reproduction must report the integer exit_code it saw'')
       | Some reported \<Rightarrow>
           let run = run_in_lane dk img command in
           if lr_timed_out run then (False, Some run, ''re-running it timed out after 600s'')
           else if lr_exit run \<noteq> Some reported then
             (False, Some run, ''re-run exited '' @ int_text (the (lr_exit run)) @ '', the reviewer reported '' @
               int_text reported @ '' -- the reproduction does not reproduce'')
           else (True, Some run, ''reproduced'')))"

section \<open>Answers\<close>

definition LANE_VERDICTS :: "string list" where
  "LANE_VERDICTS = [''pass'', ''finding'', ''cannot-tell'']"

definition TESTED_VERDICTS :: "string list" where
  "TESTED_VERDICTS = [''pass'', ''finding'']"

definition METHOD_VOCABULARY :: "string list" where
  "METHOD_VOCABULARY = [''enumerate_paired_sites'', ''prove_the_break'', ''fetch_authoritative_docs'', ''verify_cited_records'']"

text \<open>A submitted answer; a list or object that is absent or of another type is None. Anything that is not an object
  is given by its representation.\<close>

record raw_answer =
  ra_lane :: string
  ra_verdict :: string
  ra_evidence :: string
  ra_why :: string
  ra_check :: string
  ra_declare :: string
  ra_resolves_with :: string
  ra_environment_gap :: string
  ra_reproduction :: "reproduction option"
  ra_paired_sites :: "string list option"
  ra_counterfactual :: "reproduction option"
  ra_docs_consulted :: "string list option"
  ra_citations_verified :: "string list option"

datatype submitted = NotObject string | AnAnswer raw_answer

record resolution =
  rs_command :: string
  rs_before :: "(string \<times> int option) option"
  rs_exit :: "int option"
  rs_image :: string

text \<open>A recorded answer: what was submitted, the run that confirmed it and, for a pass that resolves a finding, the
  run that shows the finding gone. The resolution of a replacement test also keeps the run at the finding's image.\<close>

record lane_answer =
  la_lane :: string
  la_verdict :: string
  la_evidence :: string
  la_why :: string
  la_check :: string
  la_declare :: string
  la_resolves_with :: "string option"
  la_environment_gap :: "string option"
  la_reproduction :: "reproduction option"
  la_paired_sites :: "string list"
  la_counterfactual :: "reproduction option"
  la_docs_consulted :: "string list"
  la_citations_verified :: "string list"
  la_run :: "(lane_run \<times> string) option"
  la_resolution :: "resolution option"

record refused_answer =
  rf_lane :: string
  rf_reason :: string

section \<open>Techniques a lane demands\<close>

definition named_items :: "string list option \<Rightarrow> string list" where
  "named_items xs = (case xs of None \<Rightarrow> [] | Some l \<Rightarrow> filter (\<lambda>s. s \<noteq> []) (map py_strip l))"

definition paired_sites_gap :: "raw_answer \<Rightarrow> string option" where
  "paired_sites_gap a =
     (if length (named_items (ra_paired_sites a)) < 2 then
        Some (''enumerate_paired_sites: `paired_sites` must list at least two specific sites actually inspected (a'' @
          '' file:line or symbol each), not just the one site the diff touched -- checking siblings is the whole point'')
      else None)"

definition counterfactual_gap :: "raw_answer \<Rightarrow> string option" where
  "counterfactual_gap a =
     (case ra_counterfactual a of
        None \<Rightarrow> Some (''prove_the_break: a pass needs `counterfactual` naming the command run against the mutated or'' @
          '' bypassed guard and the exit_code it produced -- a pass that only re-runs the happy path never showed what'' @
              '' breaking the guard looks like'')
      | Some c \<Rightarrow>
          if py_strip (rp_command c) = [] then
            Some (''prove_the_break: a pass needs `counterfactual` naming the command run against the mutated or'' @
              '' bypassed guard and the exit_code it produced -- a pass that only re-runs the happy path never showed what'' @
              '' breaking the guard looks like'')
          else if rp_exit c = None then Some ''prove_the_break: `counterfactual.exit_code` must be an integer''
          else (case ra_reproduction a of
             None \<Rightarrow> None
           | Some r \<Rightarrow> if rp_exit c = rp_exit r then
               Some (''prove_the_break: `counterfactual.exit_code` is identical to the reproduction'' @ [CHR 0x27] @
                 ''s own exit_code -- a counterfactual that behaves the same as the guarded case proves nothing broke'')
             else None))"

definition docs_gap :: "raw_answer \<Rightarrow> string option" where
  "docs_gap a =
     (if named_items (ra_docs_consulted a) = [] then
        Some (''fetch_authoritative_docs: `docs_consulted` must name at least one document or URL actually fetched for'' @
          '' this lane, not reasoned from training-data memory'')
      else None)"

definition citations_gap :: "raw_answer \<Rightarrow> string option" where
  "citations_gap a =
     (if named_items (ra_citations_verified a) = [] then
        Some (''verify_cited_records: this answer'' @ [CHR 0x27] @ ''s `evidence` cites a record, so'' @
          '' `citations_verified` must name each one actually opened and confirmed -- a citation taken on trust is exactly'' @
          '' what this technique exists to refuse'')
      else None)"

definition method_gaps :: "raw_answer \<Rightarrow> string \<Rightarrow> string list \<Rightarrow> string list" where
  "method_gaps a vd required =
     (if ''enumerate_paired_sites'' \<in> set required then opt_list (paired_sites_gap a) else []) @
     (if ''prove_the_break'' \<in> set required \<and> vd = ''pass'' then opt_list (counterfactual_gap a) else []) @
     (if ''fetch_authoritative_docs'' \<in> set required then opt_list (docs_gap a) else []) @
     (if ''verify_cited_records'' \<in> set required \<and> py_strip (ra_evidence a) \<noteq> [] then opt_list (citations_gap a) else [])"

section \<open>Validation\<close>

type_synonym method_table = "(string \<times> string list) list"

definition required_methods :: "method_table \<Rightarrow> string \<Rightarrow> string list" where
  "required_methods methods lane = (case map_of methods lane of None \<Rightarrow> [] | Some ms \<Rightarrow> ms)"

definition untested_reason :: "string \<Rightarrow> raw_answer \<Rightarrow> string option" where
  "untested_reason vd a =
     (if vd \<notin> set TESTED_VERDICTS then None
      else (case ra_reproduction a of
         None \<Rightarrow> Some (''a '' @ vd @ '' must carry a reproduction -- the command you ran in the lane container and the'' @
           '' exit_code it returned. Reading alone can only answer cannot-tell.'')
       | Some r \<Rightarrow>
           if py_strip (rp_command r) = [] then
             Some (''a '' @ vd @ '' must carry a reproduction -- the command you ran in the lane container and the'' @
               '' exit_code it returned. Reading alone can only answer cannot-tell.'')
           else if rp_exit r = None then Some ''the reproduction must report the integer exit_code it saw''
           else None))"

text \<open>Why an answer is refused, in the order of the checks, given the lanes accepted before it.\<close>

definition answer_refusal ::
    "string \<Rightarrow> string list \<Rightarrow> method_table \<Rightarrow> string list \<Rightarrow> raw_answer \<Rightarrow> (string \<times> string) option" where
  "answer_refusal reviewer assigned methods seen a =
     (let lane = py_strip (ra_lane a); vd = py_strip (ra_verdict a);
          evidence = py_strip (ra_evidence a); why = py_strip (ra_why a) in
      if lane = [] then Some (''(missing)'', ''no lane id on the answer'')
      else if lane \<notin> set assigned then
        Some (lane, reviewer @ '' was not dispatched this lane this round. Its lanes: '' @
          (if assigned = [] then ''(none)'' else py_join '', '' (sort (remdups assigned))))
      else if lane \<in> set seen then Some (lane, ''answered twice in one submission'')
      else if vd \<notin> set LANE_VERDICTS then
        Some (lane, ''verdict '' @ py_repr vd @ '' is not one of '' @ py_join '', '' LANE_VERDICTS)
      else if vd = ''finding'' \<and> evidence = [] then
        Some (lane, ''a finding with no evidence is an opinion -- say what the reproduction'' @ [CHR 0x27] @
          ''s output shows and where the defect is'')
      else if vd = ''cannot-tell'' \<and> why = [] \<and> evidence = [] then
        Some (lane, ''cannot-tell must say what would have been needed'')
      else (case untested_reason vd a of
         Some r \<Rightarrow> Some (lane, r)
       | None \<Rightarrow>
           let gaps = method_gaps a vd (required_methods methods lane) in
           if gaps \<noteq> [] then Some (lane, py_join ''; '' gaps) else None))"

definition optional_text :: "string \<Rightarrow> string option" where
  "optional_text s = (if s = [] then None else Some s)"

definition kept_reproduction :: "reproduction \<Rightarrow> reproduction" where
  "kept_reproduction r = r\<lparr>rp_command := py_strip (rp_command r)\<rparr>"

definition accepted_answer :: "raw_answer \<Rightarrow> lane_answer" where
  "accepted_answer a =
     \<lparr>la_lane = py_strip (ra_lane a), la_verdict = py_strip (ra_verdict a), la_evidence = py_strip (ra_evidence a),
      la_why = py_strip (ra_why a), la_check = py_strip (ra_check a), la_declare = py_strip (ra_declare a),
      la_resolves_with = (if py_strip (ra_verdict a) = ''pass'' then optional_text (py_strip (ra_resolves_with a)) else None),
      la_environment_gap = optional_text (py_strip (ra_environment_gap a)),
      la_reproduction = map_option kept_reproduction (ra_reproduction a),
      la_paired_sites = named_items (ra_paired_sites a),
      la_counterfactual = (case ra_counterfactual a of None \<Rightarrow> None
         | Some c \<Rightarrow> if py_strip (rp_command c) = [] then None else Some (kept_reproduction c)),
      la_docs_consulted = named_items (ra_docs_consulted a),
      la_citations_verified = named_items (ra_citations_verified a),
      la_run = None, la_resolution = None\<rparr>"

definition validate_step ::
    "string \<Rightarrow> string list \<Rightarrow> method_table \<Rightarrow> submitted \<Rightarrow> lane_answer list \<times> refused_answer list
      \<Rightarrow> lane_answer list \<times> refused_answer list" where
  "validate_step reviewer assigned methods s st =
     (case st of (accepted, refused) \<Rightarrow>
       (case s of
          NotObject text \<Rightarrow> (accepted, refused @ [\<lparr>rf_lane = ''(malformed)'', rf_reason = ''not an object: '' @ text\<rparr>])
        | AnAnswer a \<Rightarrow>
            (case answer_refusal reviewer assigned methods (map la_lane accepted) a of
               Some (lane, reason) \<Rightarrow> (accepted, refused @ [\<lparr>rf_lane = lane, rf_reason = reason\<rparr>])
             | None \<Rightarrow> (accepted @ [accepted_answer a], refused))))"

definition validate_answers ::
    "submitted list \<Rightarrow> string \<Rightarrow> string list \<Rightarrow> method_table \<Rightarrow> lane_answer list \<times> refused_answer list" where
  "validate_answers answers reviewer assigned methods =
     fold (validate_step reviewer assigned methods) answers ([], [])"

section \<open>Facts\<close>

lemma verify_reproduction_holds:
  "verify_reproduction dk img rp = (True, run, reason) \<longleftrightarrow>
     (\<exists>code. py_strip (rp_command rp) \<noteq> [] \<and> rp_exit rp = Some code \<and>
        fst (dk_exec dk img (py_strip (rp_command rp))) = Some code \<and>
        run = Some (run_in_lane dk img (py_strip (rp_command rp))) \<and> reason = ''reproduced'')"
  by (auto simp: verify_reproduction_def run_in_lane_def Let_def split: option.splits prod.splits if_splits)

text \<open>What an accepted answer is: dispatched, once per submission, of the vocabulary, and tested when it claims a test.\<close>

definition wellformed_answer :: "string list \<Rightarrow> lane_answer \<Rightarrow> bool" where
  "wellformed_answer assigned e \<longleftrightarrow>
     la_lane e \<in> set assigned \<and> la_verdict e \<in> set LANE_VERDICTS \<and>
     (la_verdict e \<in> set TESTED_VERDICTS \<longrightarrow>
        (\<exists>r. la_reproduction e = Some r \<and> rp_command r \<noteq> [] \<and> rp_exit r \<noteq> None)) \<and>
     (la_resolves_with e \<noteq> None \<longrightarrow> la_verdict e = ''pass'')"

lemma untested_reason_None:
  "untested_reason v a = None \<Longrightarrow> v \<in> set TESTED_VERDICTS \<Longrightarrow>
     \<exists>r. ra_reproduction a = Some r \<and> py_strip (rp_command r) \<noteq> [] \<and> rp_exit r \<noteq> None"
  by (auto simp: untested_reason_def split: option.splits if_splits)

lemma answer_refusal_None:
  assumes "answer_refusal reviewer assigned methods seen a = None"
  shows "wellformed_answer assigned (accepted_answer a) \<and> la_lane (accepted_answer a) \<notin> set seen"
proof -
  from assms have lane: "py_strip (ra_lane a) \<in> set assigned" "py_strip (ra_lane a) \<notin> set seen"
      "py_strip (ra_verdict a) \<in> set LANE_VERDICTS"
    and tested: "untested_reason (py_strip (ra_verdict a)) a = None"
    by (auto simp: answer_refusal_def Let_def split: if_splits option.splits)
  show ?thesis
    using lane untested_reason_None [OF tested]
    by (auto simp: wellformed_answer_def accepted_answer_def kept_reproduction_def)
qed

definition fresh_answer :: "string list \<Rightarrow> lane_answer \<Rightarrow> bool" where
  "fresh_answer assigned e \<longleftrightarrow> wellformed_answer assigned e \<and> la_resolution e = None \<and> la_run e = None"

lemma fresh_accepted:
  "answer_refusal reviewer assigned methods seen a = None \<Longrightarrow> fresh_answer assigned (accepted_answer a)"
  using answer_refusal_None [of reviewer assigned methods seen a]
  by (simp add: fresh_answer_def) (simp add: accepted_answer_def)

lemma validate_step_keeps:
  assumes "distinct (map la_lane acc)" "\<forall>e\<in>set acc. fresh_answer assigned e"
    and "validate_step reviewer assigned methods s (acc, refused) = (acc', refused')"
  shows "distinct (map la_lane acc') \<and> (\<forall>e\<in>set acc'. fresh_answer assigned e)"
proof (cases s)
  case (NotObject m)
  with assms show ?thesis by (auto simp: validate_step_def)
next
  case (AnAnswer a)
  show ?thesis
  proof (cases "answer_refusal reviewer assigned methods (map la_lane acc) a")
    case None
    then have "acc' = acc @ [accepted_answer a]"
      using assms(3) AnAnswer by (simp add: validate_step_def)
    with assms(1,2) fresh_accepted [OF None] answer_refusal_None [OF None] show ?thesis
      by simp
  next
    case (Some p)
    with assms AnAnswer show ?thesis by (cases p) (simp add: validate_step_def)
  qed
qed

lemma validate_answers_sound:
  assumes "validate_answers answers reviewer assigned methods = (accepted, refused)"
  shows "distinct (map la_lane accepted)" "\<forall>e\<in>set accepted. fresh_answer assigned e"
proof -
  have "distinct (map la_lane acc') \<and> (\<forall>e\<in>set acc'. fresh_answer assigned e)"
    if "fold (validate_step reviewer assigned methods) answers (acc, ref) = (acc', ref')"
      "distinct (map la_lane acc)" "\<forall>e\<in>set acc. fresh_answer assigned e" for acc ref acc' ref'
    using that
  proof (induction answers arbitrary: acc ref)
    case (Cons s answers)
    obtain acc1 ref1 where 1: "validate_step reviewer assigned methods s (acc, ref) = (acc1, ref1)"
      by fastforce
    with Cons.prems(1) have "fold (validate_step reviewer assigned methods) answers (acc1, ref1) = (acc', ref')"
      by simp
    with validate_step_keeps [OF Cons.prems(2,3) 1] show ?case
      using Cons.IH by blast
  qed simp
  from this [of "[]" "[]" accepted refused] assms
  show "distinct (map la_lane accepted)" "\<forall>e\<in>set accepted. fresh_answer assigned e"
    by (simp_all add: validate_answers_def)
qed

end
