(* ===== verification/Lane_Review.thy ===== *)
theory Lane_Review
  imports Lane_Answers "HOL-Library.AList"
begin

text \<open>
  The round table's record (\<^verbatim>\<open>core/work_orders/review_answers.py\<close>): which lanes a round asks of whom, what each
  reviewer answered over the rounds, which answer stands on a lane, and whether the review holds the work order.

  The documents are typed; the code keeps them as JSON artifacts of kind \<open>review_verdict\<close>, the dispatch under the
  key \<open>dispatch\<close> and a reviewer's answers under \<open>lanes:<reviewer>\<close> (a document that is not JSON reads as absent). The
  convening of a round (\<^verbatim>\<open>core/gates/round_table.py\<close>), the lane registry and the compiled reviewers are arguments: the
  slots convened, the lanes each owner owns, the model of each seat and the techniques each lane demands.
\<close>

section \<open>Documents\<close>

record slot =
  sl_reviewer :: "string option"
  sl_seat :: "string option"
  sl_lanes :: "string list"
  sl_model :: "string option"

record dispatch_doc =
  dd_round :: nat
  dd_sha :: string
  dd_image :: string
  dd_change_set :: "string list"
  dd_assignments :: "slot list"
  dd_carried :: "string list"
  dd_credential_hashes :: "(string \<times> string) list"
  dd_at :: string

record submission =
  sm_round :: nat
  sm_at :: string
  sm_lanes :: "lane_answer list"

record lane_store =
  ls_dispatch :: "dispatch_doc option"
  ls_docs :: "(string \<times> submission list) list"

text \<open>What an operation meets: docker, the clock, the token drawn for each reviewer, whether the artifact write lands,
  and the repository the process runs from.\<close>

record review_env =
  re_docker :: docker
  re_now :: string
  re_token :: "string \<Rightarrow> string"
  re_written :: bool
  re_repo_root :: string

definition credential_hash :: "review_env \<Rightarrow> string \<Rightarrow> string" where
  "credential_hash env c = dk_sha256 (re_docker env) c"

definition CHAIR_SEAT :: string where
  "CHAIR_SEAT = ''Chair and verdict owner''"

definition REFEREE_LANE :: string where
  "REFEREE_LANE = ''evidence-referee''"

definition MISSION_LANE_ID :: string where
  "MISSION_LANE_ID = ''mission-domain-consequence''"

definition MISSION_REVIEW_CLIENTS :: "string list" where
  "MISSION_REVIEW_CLIENTS = [''fulcrum'']"

definition work_order_project :: "authority \<Rightarrow> string \<Rightarrow> string option" where
  "work_order_project au w =
     (case wo_of w au of None \<Rightarrow> None | Some r \<Rightarrow> if truthy (wo_project_id r) then wo_project_id r else None)"

section \<open>The answer that stands on a lane\<close>

record standing =
  sd_answer :: lane_answer
  sd_round :: nat
  sd_resolves :: "nat option"
  sd_cannot_tell :: "nat list"

abbreviation is_finding :: "standing \<Rightarrow> bool" where
  "is_finding s \<equiv> la_verdict (sd_answer s) = ''finding''"

definition stand :: "nat \<Rightarrow> lane_answer \<Rightarrow> (string \<times> standing) list \<Rightarrow> (string \<times> standing) list" where
  "stand n e cur =
     (let fresh = \<lambda>from. \<lparr>sd_answer = e, sd_round = n, sd_resolves = from, sd_cannot_tell = []\<rparr> in
      case map_of cur (la_lane e) of
        None \<Rightarrow> AList.update (la_lane e) (fresh None) cur
      | Some s \<Rightarrow>
          if la_verdict e = ''cannot-tell'' \<and> is_finding s
          then AList.update (la_lane e) (s\<lparr>sd_cannot_tell := sd_cannot_tell s @ [n]\<rparr>) cur
          else AList.update (la_lane e)
            (fresh (if la_verdict e = ''pass'' \<and> is_finding s then Some (sd_round s) else None)) cur)"

definition stand_all :: "submission \<Rightarrow> (string \<times> standing) list \<Rightarrow> (string \<times> standing) list" where
  "stand_all s cur = fold (stand (sm_round s)) (sm_lanes s) cur"

definition current_by_lane :: "submission list \<Rightarrow> (string \<times> standing) list" where
  "current_by_lane subs = fold stand_all subs []"

section \<open>Reading back\<close>

definition reviewer_doc :: "lane_store \<Rightarrow> string \<Rightarrow> submission list" where
  "reviewer_doc st reviewer = (case map_of (ls_docs st) reviewer of None \<Rightarrow> [] | Some subs \<Rightarrow> subs)"

definition all_reviewer_docs :: "lane_store \<Rightarrow> (string \<times> submission list) list" where
  "all_reviewer_docs st = sort_key fst (ls_docs st)"

definition recorded_answers :: "lane_store \<Rightarrow> (string \<times> standing) list" where
  "recorded_answers st =
     sort_key fst (sort_key (\<lambda>(reviewer, s). la_lane (sd_answer s))
       (concat (map (\<lambda>(reviewer, subs). map (\<lambda>(l, s). (reviewer, s)) (current_by_lane subs)) (all_reviewer_docs st))))"

definition open_findings :: "lane_store \<Rightarrow> (string \<times> standing) list" where
  "open_findings st = filter (\<lambda>(reviewer, s). is_finding s) (recorded_answers st)"

text \<open>Every answer of the history, with its reviewer and round.\<close>

definition all_answers :: "lane_store \<Rightarrow> (string \<times> nat \<times> lane_answer) list" where
  "all_answers st =
     concat (map (\<lambda>(reviewer, subs). concat (map (\<lambda>s. map (\<lambda>e. (reviewer, sm_round s, e)) (sm_lanes s)) subs))
       (all_reviewer_docs st))"

definition answered_in_round :: "lane_store \<Rightarrow> nat \<Rightarrow> (string \<times> string) list" where
  "answered_in_round st n =
     map (\<lambda>(reviewer, k, e). (reviewer, la_lane e)) (filter (\<lambda>(reviewer, k, e). k = n) (all_answers st))"

definition last_referee_round :: "lane_store \<Rightarrow> nat" where
  "last_referee_round st =
     fold (\<lambda>(reviewer, n, e) m. if la_lane e = REFEREE_LANE \<and> la_verdict e = ''pass'' then max m n else m) (all_answers st) 0"

definition is_replacement :: "lane_answer \<Rightarrow> bool" where
  "is_replacement e = (case la_resolution e of None \<Rightarrow> False | Some r \<Rightarrow> rs_before r \<noteq> None)"

definition awaiting_referee :: "lane_store \<Rightarrow> (string \<times> nat \<times> lane_answer) list" where
  "awaiting_referee st =
     sort_key fst (sort_key (\<lambda>(reviewer, n, e). la_lane e)
       (filter (\<lambda>(reviewer, n, e). last_referee_round st \<le> n \<and> is_replacement e) (all_answers st)))"

section \<open>Dispatching a round\<close>

text \<open>Owners, seats and reviewers as the registry gives them: who owns which lanes, and the model of each seat.\<close>

type_synonym ownership = "(string \<times> string list) list"

definition owner_key :: "string option \<Rightarrow> string option \<Rightarrow> string" where
  "owner_key reviewer seat =
     (if truthy reviewer then the reviewer else ''seat:'' @ (case seat of None \<Rightarrow> ''None'' | Some s \<Rightarrow> s))"

definition dispatched_lanes :: "dispatch_doc option \<Rightarrow> string \<Rightarrow> string list" where
  "dispatched_lanes d reviewer =
     (case d of None \<Rightarrow> []
      | Some doc \<Rightarrow> (case find (\<lambda>s. sl_reviewer s = Some reviewer) (dd_assignments doc) of None \<Rightarrow> [] | Some s \<Rightarrow> sl_lanes s))"

definition initial_slots :: "slot list \<Rightarrow> (string \<times> slot) list" where
  "initial_slots assignments =
     fold (\<lambda>s. AList.update (owner_key (sl_reviewer s) (sl_seat s))
       \<lparr>sl_reviewer = sl_reviewer s, sl_seat = sl_seat s, sl_lanes = sort (remdups (sl_lanes s)), sl_model = None\<rparr>)
       assignments []"

text \<open>\<open>setdefault\<close>, then adding the lane when the slot lacks it; the lanes that were added are collected.\<close>

definition carry_lane ::
    "string \<Rightarrow> slot \<Rightarrow> string \<Rightarrow> (string \<times> slot) list \<times> string list \<Rightarrow> (string \<times> slot) list \<times> string list" where
  "carry_lane key blank lane st =
     (case st of (slots, carried) \<Rightarrow>
       let s = (case map_of slots key of None \<Rightarrow> blank | Some s \<Rightarrow> s) in
       if lane \<in> set (sl_lanes s) then (AList.update key s slots, carried)
       else (AList.update key (s\<lparr>sl_lanes := sort (sl_lanes s @ [lane])\<rparr>) slots, carried @ [lane]))"

definition blank_slot :: "string option \<Rightarrow> string option \<Rightarrow> slot" where
  "blank_slot reviewer seat = \<lparr>sl_reviewer = reviewer, sl_seat = seat, sl_lanes = [], sl_model = None\<rparr>"

text \<open>A recorded answer names no seat, so a finding is carried under its reviewer.\<close>

definition carry_finding ::
    "string \<times> standing \<Rightarrow> (string \<times> slot) list \<times> string list \<Rightarrow> (string \<times> slot) list \<times> string list" where
  "carry_finding f = (case f of (reviewer, s) \<Rightarrow>
     carry_lane (owner_key (Some reviewer) None) (blank_slot (Some reviewer) None) (la_lane (sd_answer s)))"

definition referee_owner :: "ownership \<Rightarrow> string option" where
  "referee_owner owned = map_option fst (find (\<lambda>(k, lanes). REFEREE_LANE \<in> set lanes) owned)"

definition referee_blank :: "string \<Rightarrow> slot" where
  "referee_blank key =
     (if py_startswith key ''seat:'' then blank_slot None (Some (drop 5 key)) else blank_slot (Some key) None)"

definition with_model :: "(string \<times> string) list \<Rightarrow> slot \<Rightarrow> slot" where
  "with_model models s =
     (if truthy (sl_seat s) then (case map_of models (the (sl_seat s)) of None \<Rightarrow> s | Some m \<Rightarrow> s\<lparr>sl_model := Some m\<rparr>) else s)"

definition shown_reviewer :: "slot \<Rightarrow> string" where
  "shown_reviewer s = (case sl_reviewer s of None \<Rightarrow> ''None'' | Some r \<Rightarrow> r)"

datatype dispatch_error =
    UnknownWorkOrder
  | StrayLanes "string option" "string list"
  | NoReferee

definition resolve_round_content ::
    "lane_store \<Rightarrow> slot list \<Rightarrow> ownership \<Rightarrow> (string \<times> string) list \<Rightarrow> dispatch_error + slot list \<times> string list" where
  "resolve_round_content st assignments owned models =
     (let carried1 = fold carry_finding (open_findings st) (initial_slots assignments, []);
          pending = awaiting_referee st;
          referee = referee_owner owned
      in
      if pending \<noteq> [] \<and> referee = None then Inl NoReferee
      else
        let (slots, carried) =
              (if pending \<noteq> [] then carry_lane (the referee) (referee_blank (the referee)) REFEREE_LANE carried1 else carried1);
            modelled = map (with_model models \<circ> snd) slots
        in Inr (sort_key (\<lambda>s. sl_reviewer s = None) (sort_key shown_reviewer modelled), sort carried))"

record round_request =
  rq_sha :: string
  rq_image :: string
  rq_change_set :: "string list"
  rq_assignments :: "slot list"
  rq_owned :: ownership
  rq_models :: "(string \<times> string) list"
  rq_force :: bool

datatype dispatch_result =
    AlreadyDispatched dispatch_doc
  | Dispatched dispatch_doc bool "(string \<times> string) list"

definition stray_lanes :: "ownership \<Rightarrow> slot \<Rightarrow> string list" where
  "stray_lanes owned s =
     (let own = (case map_of owned (owner_key (sl_reviewer s) (sl_seat s)) of None \<Rightarrow> [] | Some ls \<Rightarrow> ls)
      in sort (remdups (filter (\<lambda>l. l \<notin> set own) (sl_lanes s))))"

definition same_round :: "dispatch_doc \<Rightarrow> string \<Rightarrow> slot list \<Rightarrow> string list \<Rightarrow> bool" where
  "same_round prior sha assignments carried \<longleftrightarrow>
     dd_sha prior = sha \<and> dd_assignments prior = assignments \<and> dd_carried prior = carried"

definition issued_credentials :: "review_env \<Rightarrow> slot list \<Rightarrow> (string \<times> string) list" where
  "issued_credentials env slots =
     fold (\<lambda>s cs. if truthy (sl_reviewer s) then AList.update (the (sl_reviewer s)) (re_token env (the (sl_reviewer s))) cs else cs)
       slots []"

definition record_dispatch ::
    "review_env \<Rightarrow> authority \<Rightarrow> string \<Rightarrow> round_request \<Rightarrow> lane_store \<Rightarrow> (dispatch_error + dispatch_result) \<times> lane_store" where
  "record_dispatch env au w rq st =
     (if work_order_project au w = None then (Inl UnknownWorkOrder, st)
      else (case find (\<lambda>s. stray_lanes (rq_owned rq) s \<noteq> []) (rq_assignments rq) of
        Some s \<Rightarrow> (Inl (StrayLanes (sl_reviewer s) (stray_lanes (rq_owned rq) s)), st)
      | None \<Rightarrow>
          (case resolve_round_content st (rq_assignments rq) (rq_owned rq) (rq_models rq) of
             Inl e \<Rightarrow> (Inl e, st)
           | Inr (resolved, carried) \<Rightarrow>
               if \<not> rq_force rq \<and> (case ls_dispatch st of None \<Rightarrow> False | Some p \<Rightarrow> same_round p (rq_sha rq) resolved carried)
               then (Inr (AlreadyDispatched (the (ls_dispatch st))), st)
               else
                 let credentials = issued_credentials env resolved;
                     doc = \<lparr>dd_round = (case ls_dispatch st of None \<Rightarrow> 1 | Some p \<Rightarrow> Suc (dd_round p)),
                       dd_sha = rq_sha rq, dd_image = rq_image rq, dd_change_set = rq_change_set rq,
                       dd_assignments = resolved, dd_carried = carried,
                       dd_credential_hashes = map (\<lambda>(r, c). (r, credential_hash env c)) credentials, dd_at = re_now env\<rparr>
                 in (Inr (Dispatched doc (re_written env) credentials),
                     if re_written env then st\<lparr>ls_dispatch := Some doc\<rparr> else st))))"

text \<open>The lane that is asked of some clients only.\<close>

definition apply_mission_lane_client_gate :: "slot list \<Rightarrow> string option \<Rightarrow> slot list" where
  "apply_mission_lane_client_gate assignments client_id =
     (if client_id = None \<or> the client_id \<in> set MISSION_REVIEW_CLIENTS then assignments
      else List.map_filter (\<lambda>s.
        if MISSION_LANE_ID \<notin> set (sl_lanes s) then Some s
        else (let kept = filter (\<lambda>l. l \<noteq> MISSION_LANE_ID) (sl_lanes s) in
          if kept = [] then None else Some (s\<lparr>sl_lanes := kept\<rparr>))) assignments)"

text \<open>Convening and dispatching: the root of the work order's project, the commit at its head, the slots the round
  table convenes and the client of the project are what the call finds.\<close>

record convened =
  cv_primary :: "string option"
  cv_described :: string
  cv_head :: "string \<Rightarrow> string + string"
  cv_assignments :: "slot list"
  cv_client :: "string option"
  cv_owned :: ownership
  cv_models :: "(string \<times> string) list"

datatype round_error = RoundRefused dispatch_error | RoundFailed string

definition dispatch_review_round ::
    "review_env \<Rightarrow> authority \<Rightarrow> convened \<Rightarrow> string \<Rightarrow> bool \<Rightarrow> lane_store \<Rightarrow> (round_error + dispatch_result) \<times> lane_store" where
  "dispatch_review_round env au cv w force st =
     (if work_order_project au w = None then (Inl (RoundRefused UnknownWorkOrder), st)
      else (case docker_available (re_docker env) of
        Some why_not \<Rightarrow> (Inl (RoundFailed (why_not @
          '' A lane tests in a container; without one there is no review to dispatch.'')), st)
      | None \<Rightarrow>
        (case cv_primary cv of
           None \<Rightarrow> (Inl (RoundFailed (''no reviewable project root for '' @ py_repr w @ '': '' @ cv_described cv @
             ''. A review must be built from the project'' @ [CHR 0x27] @ ''s own code, not Dream Studio'' @ [CHR 0x27] @
             ''s -- set this work order'' @ [CHR 0x27] @ ''s project_path (ds_project_create) to where its code actually lives.'')), st)
         | Some change_root \<Rightarrow>
           (case cv_head cv change_root of
              Inl e \<Rightarrow> (Inl (RoundFailed e), st)
            | Inr sha \<Rightarrow>
              (let asked = apply_mission_lane_client_gate (cv_assignments cv) (cv_client cv);
                   standing_round = (if force then Inr None
                     else (case resolve_round_content st asked (cv_owned cv) (cv_models cv) of
                       Inl e \<Rightarrow> Inl e
                     | Inr (resolved, carried) \<Rightarrow>
                         Inr (case ls_dispatch st of None \<Rightarrow> None
                           | Some p \<Rightarrow> if same_round p sha resolved carried then Some p else None)))
               in
               case standing_round of
                 Inl e \<Rightarrow> (Inl (RoundRefused e), st)
               | Inr (Some p) \<Rightarrow> (Inr (AlreadyDispatched p), st)
               | Inr None \<Rightarrow>
                   (case build_image (re_docker env) change_root sha of
                      Inl e \<Rightarrow> (Inl (RoundFailed e), st)
                    | Inr img \<Rightarrow>
                        (case record_dispatch env au w
                           \<lparr>rq_sha = sha, rq_image = img, rq_change_set = [''(local working tree)''], rq_assignments = asked,
                            rq_owned = cv_owned cv, rq_models = cv_models cv, rq_force = force\<rparr> st of
                           (Inl e, st') \<Rightarrow> (Inl (RoundRefused e), st')
                         | (Inr r, st') \<Rightarrow> (Inr r, st'))))))))"

text \<open>A command run for a reviewer, in the image of the round.\<close>

definition run_review_command :: "review_env \<Rightarrow> string \<Rightarrow> string \<Rightarrow> lane_store \<Rightarrow> string + lane_run" where
  "run_review_command env w command st =
     (case ls_dispatch st of
        None \<Rightarrow> Inl (''no dispatch recorded for '' @ py_repr w @ ''; dispatch a review round first'')
      | Some d \<Rightarrow> (case docker_available (re_docker env) of
          Some why_not \<Rightarrow> Inl why_not
        | None \<Rightarrow> Inr (run_in_lane (re_docker env) (dd_image d) command)))"

section \<open>Recording answers\<close>

abbreviation green :: "string \<Rightarrow> reproduction" where
  "green command \<equiv> \<lparr>rp_command = command, rp_exit = Some 0\<rparr>"

text \<open>A pass over a finding: by a replacement test that fails at the finding's commit and passes at this one \<dots>\<close>

definition resolve_by_replacement ::
    "review_env \<Rightarrow> string \<Rightarrow> standing \<Rightarrow> string \<Rightarrow> string + resolution" where
  "resolve_by_replacement env img prior replacement =
     (let dk = re_docker env; old_tag = (case la_run (sd_answer prior) of None \<Rightarrow> [] | Some (run, i) \<Rightarrow> i) in
      if CHR '':'' \<notin> set old_tag then
        Inl (''the finding from round '' @ nat_text (sd_round prior) @ '' records no image, so a replacement test cannot be run'' @
          '' against the commit it was found in'')
      else (case build_image dk (re_repo_root env) (tl (dropWhile (\<lambda>c. c \<noteq> CHR '':'') old_tag)) of
        Inl e \<Rightarrow> Inl (''cannot rebuild '' @ old_tag @ '' to test the replacement: '' @ e)
      | Inr before_img \<Rightarrow>
          (case verify_reproduction dk img (green replacement) of
             (now_ok, now_run, now_reason) \<Rightarrow>
               if \<not> now_ok then Inl (''the replacement test does not pass at this commit -- '' @ now_reason)
               else (case verify_reproduction dk before_img (green replacement) of
                 (before_ok, before_run, r) \<Rightarrow>
                   if before_ok \<or> before_run = None \<or> lr_timed_out (the before_run) then
                     Inl (''the replacement test did not fail at '' @ old_tag @ '', where the finding was recorded in round '' @
                       nat_text (sd_round prior) @ '', so it does not discriminate the fix -- a test that passes before and'' @
                       '' after resolves nothing'')
                   else Inr \<lparr>rs_command = replacement, rs_before = Some (before_img, lr_exit (the before_run)),
                     rs_exit = lr_exit (the now_run), rs_image = img\<rparr>))))"

text \<open>\<dots> or by the finding's own reproduction, which must now exit 0.\<close>

definition resolve_by_finding :: "review_env \<Rightarrow> string \<Rightarrow> string \<Rightarrow> standing \<Rightarrow> string + resolution" where
  "resolve_by_finding env img lane prior =
     (let command = (case la_reproduction (sd_answer prior) of None \<Rightarrow> [] | Some r \<Rightarrow> rp_command r) in
      if py_strip command = [] then
        Inl (''the finding from round '' @ nat_text (sd_round prior) @ '' carries no reproduction to re-run, so no pass can'' @
          '' show it resolved'')
      else (case verify_reproduction (re_docker env) img (green command) of
        (holds, run, reason) \<Rightarrow>
          if holds then Inr \<lparr>rs_command = command, rs_before = None, rs_exit = lr_exit (the run), rs_image = img\<rparr>
          else Inl (''lane '' @ lane @ '' holds an open finding from round '' @ nat_text (sd_round prior) @
            '', and a pass resolves it only when that finding'' @ [CHR 0x27] @ ''s own reproduction now exits 0 -- '' @ reason @
            ''. If that reproduction has gone stale, give a `resolves_with` test that fails at the finding'' @ [CHR 0x27] @
            ''s commit and passes at this one'')))"

definition confirm_run :: "review_env \<Rightarrow> string \<Rightarrow> lane_answer \<Rightarrow> string + lane_answer" where
  "confirm_run env img e =
     (if la_verdict e \<notin> set TESTED_VERDICTS then Inr e
      else (case la_reproduction e of
        None \<Rightarrow> Inl ''the reproduction has no command''
      | Some r \<Rightarrow> (case verify_reproduction (re_docker env) img r of
          (holds, run, reason) \<Rightarrow>
            if holds then Inr (e\<lparr>la_run := Some ((the run)\<lparr>lr_tail := last_chars 1500 (lr_tail (the run))\<rparr>, img)\<rparr>)
            else Inl reason)))"

definition settle_answer ::
    "review_env \<Rightarrow> string \<Rightarrow> (string \<times> standing) list \<Rightarrow> lane_answer \<Rightarrow> string + lane_answer" where
  "settle_answer env img standing_on e =
     and_then (confirm_run env img e) (\<lambda>e1.
       case map_of standing_on (la_lane e) of
         None \<Rightarrow> Inr e1
       | Some prior \<Rightarrow>
           if la_verdict e = ''pass'' \<and> is_finding prior then
             and_then (case la_resolves_with e of
                 Some replacement \<Rightarrow> resolve_by_replacement env img prior replacement
               | None \<Rightarrow> resolve_by_finding env img (la_lane e) prior)
               (\<lambda>r. Inr (e1\<lparr>la_resolution := Some r\<rparr>))
           else Inr e1)"

record review_outcome =
  ro_round :: nat
  ro_stored :: bool
  ro_accepted :: "lane_answer list"
  ro_refused :: "refused_answer list"
  ro_unanswered :: "string list"
  ro_complete :: bool

definition settled_answers ::
    "review_env \<Rightarrow> string \<Rightarrow> (string \<times> standing) list \<Rightarrow> lane_answer list \<Rightarrow> lane_answer list \<times> refused_answer list" where
  "settled_answers env img standing_on es =
     (List.map_filter (\<lambda>e. case settle_answer env img standing_on e of Inl r \<Rightarrow> None | Inr e' \<Rightarrow> Some e') es,
      List.map_filter (\<lambda>e. case settle_answer env img standing_on e of
        Inl r \<Rightarrow> Some \<lparr>rf_lane = la_lane e, rf_reason = r\<rparr> | Inr e' \<Rightarrow> None) es)"

text \<open>Why a submission is refused outright, if it is.\<close>

definition submission_refusal :: "review_env \<Rightarrow> authority \<Rightarrow> string \<Rightarrow> string \<Rightarrow> string option \<Rightarrow> lane_store \<Rightarrow> string option" where
  "submission_refusal env au w reviewer credential st =
     (if work_order_project au w = None then
        Some (''no work order '' @ py_repr w @ '' in this authority. A review recorded against an id that names nothing is a'' @
          '' review nobody will ever read.'')
      else (case ls_dispatch st of
        None \<Rightarrow> Some (''no dispatch is recorded for '' @ w @ ''. Run `ds review --dispatch --work-order '' @ w @ ''` first: it'' @
          '' builds the lane image and records which lanes each reviewer is asked, and answers are held to that record.'')
      | Some d \<Rightarrow>
          if dispatched_lanes (Some d) reviewer = [] then
            Some (py_repr reviewer @ '' was dispatched no lane in round '' @ nat_text (dd_round d) @ '' of '' @ w @ ''.'')
          else (case map_of (dd_credential_hashes d) reviewer of
            None \<Rightarrow> Some (''round '' @ nat_text (dd_round d) @ '' of '' @ w @ '' carries no credential for '' @ py_repr reviewer @
              '', so nothing can show this submission comes from it.'')
          | Some expected \<Rightarrow>
              if expected = [] then
                Some (''round '' @ nat_text (dd_round d) @ '' of '' @ w @ '' carries no credential for '' @ py_repr reviewer @
                  '', so nothing can show this submission comes from it.'')
              else if credential_hash env (text_or_empty credential) \<noteq> expected then
                Some (''this submission does not carry the credential issued to '' @ py_repr reviewer @ '' when round '' @
                  nat_text (dd_round d) @ '' was dispatched. Each reviewer is handed its own; one seat cannot answer as another.'')
              else (case docker_available (re_docker env) of
                Some why_not \<Rightarrow> Some (''cannot re-run reproductions: '' @ why_not @ ''. Nothing is recorded -- a reproduction the'' @
                  '' door cannot run is a claim it would be taking on trust.'')
              | None \<Rightarrow> None))))"

definition record_answers ::
    "review_env \<Rightarrow> authority \<Rightarrow> method_table \<Rightarrow> string \<Rightarrow> string \<Rightarrow> string option \<Rightarrow> submitted list \<Rightarrow> lane_store
      \<Rightarrow> (string + review_outcome) \<times> lane_store" where
  "record_answers env au methods w reviewer credential answers st =
     (case submission_refusal env au w reviewer credential st of
        Some reason \<Rightarrow> (Inl reason, st)
      | None \<Rightarrow>
          (let d = the (ls_dispatch st); assigned = dispatched_lanes (Some d) reviewer;
               (accepted, refused) = validate_answers answers reviewer assigned methods;
               subs = reviewer_doc st reviewer;
               (verified, more_refused) = settled_answers env (dd_image d) (current_by_lane subs) accepted;
               subs' = (if verified \<noteq> [] then subs @ [\<lparr>sm_round = dd_round d, sm_at = re_now env, sm_lanes = verified\<rparr>] else subs);
               answered = concat (map (\<lambda>s. map la_lane (sm_lanes s)) (filter (\<lambda>s. sm_round s = dd_round d) subs'));
               unanswered = sort (remdups (filter (\<lambda>l. l \<notin> set answered) assigned));
               stored = (verified = [] \<or> re_written env)
           in (Inr \<lparr>ro_round = dd_round d, ro_stored = stored, ro_accepted = verified, ro_refused = refused @ more_refused,
                    ro_unanswered = unanswered, ro_complete = (stored \<and> unanswered = [] \<and> refused @ more_refused = [])\<rparr>,
               if verified \<noteq> [] \<and> re_written env then st\<lparr>ls_docs := AList.update reviewer subs' (ls_docs st)\<rparr> else st)))"

section \<open>Whether the review holds\<close>

record lane_status =
  lt_unanswered :: "(string \<times> string list) list"
  lt_open_findings :: "(string \<times> standing) list"
  lt_cannot_tell :: "(string \<times> standing) list"
  lt_resolved :: "(string \<times> standing) list"
  lt_awaiting_referee :: "(string \<times> nat \<times> lane_answer) list"
  lt_chair_lanes :: "string list"
  lt_seat_models :: "(string \<times> string) list"
  lt_reasons :: "string list"

definition is_chair :: "slot \<Rightarrow> bool" where
  "is_chair s \<longleftrightarrow> sl_reviewer s = None \<and> sl_seat s = Some CHAIR_SEAT"

definition unanswered_slot :: "(string \<times> string) list \<Rightarrow> slot \<Rightarrow> (string \<times> string list) option" where
  "unanswered_slot answered s =
     (if is_chair s then None
      else (case sl_reviewer s of
        None \<Rightarrow> Some (''(no reviewer compiled for '' @ (case sl_seat s of None \<Rightarrow> ''None'' | Some t \<Rightarrow> t) @ '')'', sl_lanes s)
      | Some r \<Rightarrow> (let missing = filter (\<lambda>l. (r, l) \<notin> set answered) (sl_lanes s) in
          if missing = [] then None else Some (r, missing))))"

definition unanswered_lanes :: "lane_store \<Rightarrow> dispatch_doc \<Rightarrow> (string \<times> string list) list" where
  "unanswered_lanes st d =
     fold (\<lambda>(k, ls). AList.update k ls)
       (List.map_filter (unanswered_slot (answered_in_round st (dd_round d))) (dd_assignments d)) []"

definition holding_reasons :: "lane_store \<Rightarrow> string list" where
  "holding_reasons st =
     (case ls_dispatch st of
        None \<Rightarrow> [''no review has been dispatched for this work order'']
      | Some d \<Rightarrow>
          (let un = unanswered_lanes st d in
           if un = [] then []
           else [nat_text (sum_list (map (length \<circ> snd) un)) @ '' dispatched lane(s) unanswered in round '' @ nat_text (dd_round d)])) @
     (if open_findings st = [] then [] else [nat_text (length (open_findings st)) @ '' open finding(s)'']) @
     (if awaiting_referee st = [] then []
      else [nat_text (length (awaiting_referee st)) @ '' finding(s) resolved by a replacement test await the '' @ REFEREE_LANE @
        '' lane, which judges whether that test exercises the defect''])"

definition review_status :: "lane_store \<Rightarrow> lane_status" where
  "review_status st =
     (let slots = (case ls_dispatch st of None \<Rightarrow> [] | Some d \<Rightarrow> dd_assignments d) in
      \<lparr>lt_unanswered = (case ls_dispatch st of None \<Rightarrow> [] | Some d \<Rightarrow> unanswered_lanes st d),
       lt_open_findings = open_findings st,
       lt_cannot_tell = filter (\<lambda>(r, s). la_verdict (sd_answer s) = ''cannot-tell'') (recorded_answers st),
       lt_resolved = filter (\<lambda>(r, s). sd_resolves s \<noteq> None \<and> sd_resolves s \<noteq> Some 0) (recorded_answers st),
       lt_awaiting_referee = awaiting_referee st,
       lt_chair_lanes = sort (concat (map sl_lanes (filter is_chair slots))),
       lt_seat_models = fold (\<lambda>s ms. if truthy (sl_seat s) \<and> truthy (sl_model s)
         then AList.update (the (sl_seat s)) (the (sl_model s)) ms else ms) slots [],
       lt_reasons = holding_reasons st\<rparr>)"

definition lane_review_state :: "lane_store \<Rightarrow> string" where
  "lane_review_state st =
     (if ls_dispatch st = None then ''never_dispatched''
      else if lt_reasons (review_status st) \<noteq> [] then ''blocking'' else ''clear'')"

definition lane_review_failure :: "string \<Rightarrow> lane_store \<Rightarrow> string option" where
  "lane_review_failure w st =
     (case ls_dispatch st of
        None \<Rightarrow> Some (''lane_review: this work order is past review but no review was ever dispatched. Run `ds review'' @
          '' --dispatch --work-order '' @ w @ ''`.'')
      | Some d \<Rightarrow>
          (let reasons = lt_reasons (review_status st) in
           if reasons = [] then None
           else Some (''lane_review: the round '' @ nat_text (dd_round d) @ '' lane review still holds this work order -- '' @
             py_join ''; '' reasons @ ''. See `ds review --status --work-order '' @ w @ ''`.'')))"

section \<open>Findings as work\<close>

definition finding_as_task :: "string \<times> standing \<Rightarrow> gap_task" where
  "finding_as_task f =
     (case f of (reviewer, s) \<Rightarrow>
       let a = sd_answer s; lane = (if la_lane a = [] then ''unknown-lane'' else la_lane a);
           why = py_strip (la_why a); evidence = py_strip (la_evidence a);
           summary = (if why \<noteq> [] then why else if evidence \<noteq> [] then evidence else ''see the recorded finding'');
           reproduce = (case la_reproduction a of
               None \<Rightarrow> []
             | Some r \<Rightarrow> if rp_command r = [] then []
                 else [newline_char, newline_char] @ ''Reproduce (exits '' @
                   (case rp_exit r of None \<Rightarrow> ''None'' | Some n \<Rightarrow> int_text n) @ '' in the lane image): '' @ rp_command r)
       in \<lparr>gk_title = ''Answer the '' @ lane @ '' finding'',
           gk_description = Some (py_strip ((if reviewer = [] then ''a reviewer'' else reviewer) @ '' on lane '' @ lane @ '': '' @
             summary @ [newline_char, newline_char] @ ''Evidence: '' @ evidence @ reproduce)),
           gk_criteria = optional_text (py_strip (la_check a)),
           gk_why = optional_text (py_strip (la_declare a))\<rparr>)"

text \<open>The state with the tasks filed, what was added, what was refused and noted, and the number of findings.\<close>

definition file_findings_as_tasks ::
    "gap_env \<Rightarrow> string \<Rightarrow> string \<Rightarrow> lane_store \<Rightarrow> gap_state \<Rightarrow> (nat \<times> refused_finding list \<times> nat) \<times> gap_state" where
  "file_findings_as_tasks env w project_id st s =
     (let findings = open_findings st in
      if findings = [] then ((0, [], 0), s)
      else (let a = attach_gap_tasks env w project_id (map finding_as_task findings) ''review-lane'' s
            in ((as_added a, as_unfiled a, length findings), as_state a)))"

end
