(* ===== verification/Lane_Safety.thy ===== *)
theory Lane_Safety
  imports Lane_Review
begin

text \<open>
  What the lane review guarantees: when it lets a work order through, who can answer a lane, that every recorded
  claim was re-run, that an open finding is asked again in every round, and that over any run of dispatches and
  submissions it closes only with a recorded pass whose resolving run exited 0.
\<close>

section \<open>What stands on a lane\<close>

lemma map_of_stand:
  "map_of (stand n e cur) l =
     (if l = la_lane e then Some
        (case map_of cur l of
           Some s \<Rightarrow> if la_verdict e = ''cannot-tell'' \<and> is_finding s then s\<lparr>sd_cannot_tell := sd_cannot_tell s @ [n]\<rparr>
             else \<lparr>sd_answer = e, sd_round = n, sd_resolves = (if la_verdict e = ''pass'' \<and> is_finding s then Some (sd_round s) else None),
                   sd_cannot_tell = []\<rparr>
         | None \<Rightarrow> \<lparr>sd_answer = e, sd_round = n, sd_resolves = None, sd_cannot_tell = []\<rparr>)
      else map_of cur l)"
  by (simp add: stand_def Let_def update_conv split: option.split)

definition finding_on :: "(string \<times> standing) list \<Rightarrow> string \<Rightarrow> bool" where
  "finding_on cur l \<longleftrightarrow> (\<exists>s. map_of cur l = Some s \<and> is_finding s)"

lemma finding_on_stand:
  assumes "finding_on cur l" "la_verdict e \<in> set LANE_VERDICTS" "la_lane e = l \<Longrightarrow> la_verdict e \<noteq> ''pass''"
  shows "finding_on (stand n e cur) l"
  using assms by (auto simp: finding_on_def map_of_stand LANE_VERDICTS_def split: option.split)

lemma finding_on_stands:
  "finding_on cur l \<Longrightarrow> \<forall>e\<in>set es. la_verdict e \<in> set LANE_VERDICTS \<and> (la_lane e = l \<longrightarrow> la_verdict e \<noteq> ''pass'') \<Longrightarrow>
     finding_on (fold (stand n) es cur) l"
  by (induction es arbitrary: cur) (simp_all add: finding_on_stand)

lemma current_by_lane_snoc: "current_by_lane (subs @ [s]) = stand_all s (current_by_lane subs)"
  by (simp add: current_by_lane_def)

lemma finding_on_snoc:
  "finding_on (current_by_lane subs) l \<Longrightarrow>
     \<forall>e\<in>set (sm_lanes s). la_verdict e \<in> set LANE_VERDICTS \<and> (la_lane e = l \<longrightarrow> la_verdict e \<noteq> ''pass'') \<Longrightarrow>
     finding_on (current_by_lane (subs @ [s])) l"
  by (simp add: current_by_lane_snoc stand_all_def finding_on_stands)

definition lane_keyed :: "(string \<times> standing) list \<Rightarrow> bool" where
  "lane_keyed cur \<longleftrightarrow> (\<forall>l s. (l, s) \<in> set cur \<longrightarrow> la_lane (sd_answer s) = l)"

lemma set_update_pair: "set (AList.update k v xs) \<subseteq> insert (k, v) (set xs)"
  by (induction xs) auto

lemma lane_keyed_update: "lane_keyed cur \<Longrightarrow> la_lane (sd_answer v) = k \<Longrightarrow> lane_keyed (AList.update k v cur)"
  using set_update_pair [of k v cur] unfolding lane_keyed_def by blast

lemma lane_keyed_stand: "lane_keyed cur \<Longrightarrow> lane_keyed (stand n e cur)"
proof (cases "map_of cur (la_lane e)")
  case (Some p)
  assume "lane_keyed cur"
  with Some have "la_lane (sd_answer p) = la_lane e"
    by (auto simp: lane_keyed_def dest: map_of_SomeD)
  with \<open>lane_keyed cur\<close> Some show ?thesis
    by (simp add: stand_def Let_def lane_keyed_update)
qed (simp add: stand_def Let_def lane_keyed_update)

lemma lane_keyed_fold: "lane_keyed cur \<Longrightarrow> lane_keyed (fold (stand n) es cur)"
  by (induction es arbitrary: cur) (simp_all add: lane_keyed_stand)

lemma current_lane: "(l, s) \<in> set (current_by_lane subs) \<Longrightarrow> la_lane (sd_answer s) = l"
proof -
  have "lane_keyed (current_by_lane subs)"
    by (induction subs rule: rev_induct) (simp_all add: current_by_lane_def stand_all_def lane_keyed_fold, simp add: lane_keyed_def)
  then show "(l, s) \<in> set (current_by_lane subs) \<Longrightarrow> la_lane (sd_answer s) = l"
    by (simp add: lane_keyed_def)
qed

lemma distinct_current: "distinct (map fst (current_by_lane subs))"
proof -
  have 1: "distinct (map fst cur) \<Longrightarrow> distinct (map fst (stand n e cur))" for n e cur
    by (auto simp: stand_def Let_def distinct_update split: option.split)
  have "distinct (map fst cur) \<Longrightarrow> distinct (map fst (fold (stand n) es cur))" for n es cur
    by (induction es arbitrary: cur) (simp_all add: 1)
  then show ?thesis
    by (induction subs rule: rev_induct) (simp_all add: current_by_lane_def stand_all_def)
qed

section \<open>When the review lets a work order through\<close>

definition distinct_docs :: "lane_store \<Rightarrow> bool" where
  "distinct_docs st \<longleftrightarrow> distinct (map fst (ls_docs st))"

lemma open_findings_iff:
  "(r, s) \<in> set (open_findings st) \<longleftrightarrow>
     (\<exists>subs. (r, subs) \<in> set (ls_docs st) \<and> (la_lane (sd_answer s), s) \<in> set (current_by_lane subs) \<and> is_finding s)"
  by (auto simp: open_findings_def recorded_answers_def all_reviewer_docs_def dest: current_lane) force

lemma open_findings_doc:
  assumes "distinct_docs st" "finding_on (current_by_lane (reviewer_doc st r)) l"
  shows "\<exists>s. (r, s) \<in> set (open_findings st) \<and> la_lane (sd_answer s) = l"
proof -
  from assms(2) obtain s where s: "(l, s) \<in> set (current_by_lane (reviewer_doc st r))" "is_finding s"
    by (auto simp: finding_on_def dest: map_of_SomeD)
  then have "map_of (ls_docs st) r = Some (reviewer_doc st r)"
    by (auto simp: reviewer_doc_def current_by_lane_def split: option.splits)
  then have "(r, reviewer_doc st r) \<in> set (ls_docs st)"
    by (rule map_of_SomeD)
  with s current_lane [OF s(1)] show ?thesis
    by (auto simp: open_findings_iff)
qed

lemma update_ne [simp]: "AList.update k v xs \<noteq> []"
  by (cases xs) auto

lemma update_fold_ne: "acc \<noteq> [] \<Longrightarrow> fold (\<lambda>(k, ls). AList.update k ls) kvs acc \<noteq> []"
  by (induction kvs arbitrary: acc) (simp_all add: case_prod_beta)

lemma update_fold_Nil: "fold (\<lambda>(k, ls). AList.update k ls) kvs [] = [] \<longleftrightarrow> kvs = []"
  by (cases kvs) (simp_all add: update_fold_ne split: prod.split)

lemma unanswered_lanes_Nil:
  "unanswered_lanes st d = [] \<longleftrightarrow>
     (\<forall>s\<in>set (dd_assignments d). is_chair s \<or>
        (\<exists>r. sl_reviewer s = Some r \<and> (\<forall>l\<in>set (sl_lanes s). (r, l) \<in> set (answered_in_round st (dd_round d)))))"
  by (auto simp: unanswered_lanes_def update_fold_Nil map_filter_eq_Nil unanswered_slot_def Let_def filter_empty_conv
      split: option.splits if_splits)

lemma holding_reasons_Nil:
  "holding_reasons st = [] \<longleftrightarrow>
     (\<exists>d. ls_dispatch st = Some d \<and> unanswered_lanes st d = []) \<and> open_findings st = [] \<and> awaiting_referee st = []"
  by (auto simp: holding_reasons_def Let_def split: option.splits)

lemma lane_review_failure_None:
  "lane_review_failure w st = None \<longleftrightarrow>
     (\<exists>d. ls_dispatch st = Some d \<and> unanswered_lanes st d = []) \<and> open_findings st = [] \<and> awaiting_referee st = []"
proof (cases "ls_dispatch st")
  case None
  then show ?thesis by (simp add: lane_review_failure_def)
next
  case (Some d)
  then have "lane_review_failure w st = None \<longleftrightarrow> holding_reasons st = []"
    by (simp add: lane_review_failure_def review_status_def Let_def)
  with Some show ?thesis by (simp add: holding_reasons_Nil)
qed

lemma fold_referee_le:
  "(fold (\<lambda>(reviewer, n, e) m. if la_lane e = REFEREE_LANE \<and> la_verdict e = ''pass'' then max m n else m) xs (m0::nat) \<le> k) \<longleftrightarrow>
     m0 \<le> k \<and> (\<forall>(r, n, e)\<in>set xs. la_lane e = REFEREE_LANE \<and> la_verdict e = ''pass'' \<longrightarrow> n \<le> k)"
  by (induction xs arbitrary: m0) (auto simp: max.bounded_iff split: prod.splits)

lemma last_referee_le:
  "last_referee_round st \<le> k \<longleftrightarrow>
     (\<forall>(r, n, e)\<in>set (all_answers st). la_lane e = REFEREE_LANE \<and> la_verdict e = ''pass'' \<longrightarrow> n \<le> k)"
  by (simp add: last_referee_round_def fold_referee_le)

lemma awaiting_referee_Nil:
  "awaiting_referee st = [] \<longleftrightarrow>
     (\<forall>(r, n, e)\<in>set (all_answers st). is_replacement e \<longrightarrow>
        (\<exists>(r', m, f)\<in>set (all_answers st). la_lane f = REFEREE_LANE \<and> la_verdict f = ''pass'' \<and> n < m))"
proof -
  have "awaiting_referee st = [] \<longleftrightarrow>
      (\<forall>(r, n, e)\<in>set (all_answers st). is_replacement e \<longrightarrow> \<not> last_referee_round st \<le> n)"
    by (auto simp: awaiting_referee_def filter_empty_conv simp flip: set_empty split: prod.splits)
  then show ?thesis
    by (simp add: last_referee_le case_prod_beta not_le Bex_def)
qed

text \<open>C4: the lane review lets a work order through exactly when a round was dispatched, every lane it asked of a reviewer
  was answered by that reviewer in that round (a seat without a reviewer blocks, the chair's seat does not), no
  finding stands, and every finding resolved by a replacement test was passed by the referee in a later round.\<close>

theorem lane_review_clear_iff:
  "lane_review_failure w st = None \<longleftrightarrow>
     (\<exists>d. ls_dispatch st = Some d \<and>
        (\<forall>s\<in>set (dd_assignments d). is_chair s \<or>
           (\<exists>r. sl_reviewer s = Some r \<and> (\<forall>l\<in>set (sl_lanes s). (r, l) \<in> set (answered_in_round st (dd_round d)))))) \<and>
     (\<forall>(r, subs)\<in>set (ls_docs st). \<forall>(l, s)\<in>set (current_by_lane subs). la_verdict (sd_answer s) \<noteq> ''finding'') \<and>
     (\<forall>(r, n, e)\<in>set (all_answers st). is_replacement e \<longrightarrow>
        (\<exists>(r', m, f)\<in>set (all_answers st). la_lane f = REFEREE_LANE \<and> la_verdict f = ''pass'' \<and> n < m))"
proof -
  have "open_findings st = [] \<longleftrightarrow>
      (\<forall>(r, subs)\<in>set (ls_docs st). \<forall>(l, s)\<in>set (current_by_lane subs). la_verdict (sd_answer s) \<noteq> ''finding'')"
  proof -
    have "open_findings st = [] \<longleftrightarrow> (\<forall>r s. (r, s) \<notin> set (open_findings st))"
      by (cases "open_findings st") auto
    then show ?thesis
      by (auto simp: open_findings_iff) (blast dest: current_lane)+
  qed
  then show ?thesis
    by (simp only: lane_review_failure_None unanswered_lanes_Nil awaiting_referee_Nil)
qed

text \<open>A round that asked one lane of one reviewer, who could not tell.\<close>

definition answered_store :: lane_store where
  "answered_store =
     \<lparr>ls_dispatch = Some \<lparr>dd_round = 1, dd_sha = [], dd_image = ''i'', dd_change_set = [],
        dd_assignments = [\<lparr>sl_reviewer = Some ''r'', sl_seat = Some ''s'', sl_lanes = [''a''], sl_model = None\<rparr>],
        dd_carried = [], dd_credential_hashes = [], dd_at = []\<rparr>,
      ls_docs = [(''r'', [\<lparr>sm_round = 1, sm_at = [], sm_lanes = [\<lparr>la_lane = ''a'', la_verdict = ''cannot-tell'', la_evidence = [],
        la_why = [], la_check = [], la_declare = [], la_resolves_with = None, la_environment_gap = None, la_reproduction = None,
        la_paired_sites = [], la_counterfactual = None, la_docs_consulted = [], la_citations_verified = [], la_run = None,
        la_resolution = None\<rparr>]\<rparr>])]\<rparr>"

lemma lane_review_clear_iff_witness:
  "\<exists>d. ls_dispatch answered_store = Some d \<and> (''r'', ''a'') \<in> set (answered_in_round answered_store (dd_round d))"
proof -
  have "lane_review_failure ''w1'' answered_store = None"
    by code_simp
  from this [unfolded lane_review_clear_iff] obtain d where d: "ls_dispatch answered_store = Some d"
      "\<forall>s\<in>set (dd_assignments d). is_chair s \<or>
         (\<exists>r. sl_reviewer s = Some r \<and> (\<forall>l\<in>set (sl_lanes s). (r, l) \<in> set (answered_in_round answered_store (dd_round d))))"
    by blast
  moreover have "\<not> is_chair s" if "s \<in> set (dd_assignments d)" for s
    using d(1) that by (auto simp: answered_store_def is_chair_def CHAIR_SEAT_def)
  ultimately show ?thesis
    by (force simp: answered_store_def)
qed

section \<open>What a submission records\<close>

text \<open>How a pass resolves the finding it meets: by the finding's own reproduction, or by the replacement it names,
  which failed at the finding's image; the resolving run exited 0 in the image of the round.\<close>

definition resolved_by :: "string \<Rightarrow> standing \<Rightarrow> lane_answer \<Rightarrow> bool" where
  "resolved_by img p e \<longleftrightarrow>
     (\<exists>r. la_resolution e = Some r \<and> rs_exit r = Some 0 \<and> rs_image r = img \<and>
        (case rs_before r of
           None \<Rightarrow> la_resolves_with e = None \<and> (\<exists>rp. la_reproduction (sd_answer p) = Some rp \<and> rs_command r = rp_command rp)
         | Some (before_img, code) \<Rightarrow> la_resolves_with e = Some (rs_command r) \<and> code \<noteq> Some 0))"

text \<open>A submission as the recording door lets it in, given the submissions before it and the image of its round.\<close>

definition tested_in :: "string \<Rightarrow> lane_answer \<Rightarrow> bool" where
  "tested_in img e \<longleftrightarrow>
     (la_verdict e \<in> set TESTED_VERDICTS \<longrightarrow>
        (\<exists>rp run. la_reproduction e = Some rp \<and> la_run e = Some (run, img) \<and> lr_exit run = rp_exit rp \<and> rp_exit rp \<noteq> None))"

lemma tested_in_resolution [simp]: "tested_in img (e\<lparr>la_resolution := r\<rparr>) = tested_in img e"
  by (simp add: tested_in_def)

definition sound_submission :: "submission list \<Rightarrow> string \<Rightarrow> submission \<Rightarrow> bool" where
  "sound_submission subs img s \<longleftrightarrow>
     distinct (map la_lane (sm_lanes s)) \<and>
     (\<forall>e\<in>set (sm_lanes s). la_verdict e \<in> set LANE_VERDICTS \<and> tested_in img e \<and>
        (\<forall>p. la_verdict e = ''pass'' \<longrightarrow> map_of (current_by_lane subs) (la_lane e) = Some p \<longrightarrow> is_finding p \<longrightarrow> resolved_by img p e))"

lemma green_run:
  "verify_reproduction dk img (green c) = (True, run, reason) \<Longrightarrow> \<exists>x. run = Some x \<and> lr_exit x = Some 0 \<and> \<not> lr_timed_out x"
  by (auto simp: verify_reproduction_holds run_in_lane_def split: prod.split)

lemma red_run:
  "verify_reproduction dk img (green c) = (False, Some x, reason) \<Longrightarrow> lr_exit x \<noteq> Some 0 \<or> lr_timed_out x"
  by (auto simp: verify_reproduction_def Let_def split: if_splits)

lemma resolve_by_replacement_Inr:
  assumes "resolve_by_replacement env img p c = Inr r"
  shows "rs_command r = c \<and> rs_exit r = Some 0 \<and> rs_image r = img \<and> (\<exists>i code. rs_before r = Some (i, code) \<and> code \<noteq> Some 0)"
  using assms
  by (auto simp: resolve_by_replacement_def Let_def dest: green_run red_run split: if_splits sum.splits prod.splits)

lemma resolve_by_finding_Inr:
  assumes "resolve_by_finding env img l p = Inr r"
  shows "rs_exit r = Some 0 \<and> rs_image r = img \<and> rs_before r = None \<and>
    (\<exists>rp. la_reproduction (sd_answer p) = Some rp \<and> rs_command r = rp_command rp)"
proof -
  have "py_strip [] = []"
    by (simp add: py_strip_def py_lstrip_def py_rstrip_def)
  with assms show ?thesis
    by (auto simp: resolve_by_finding_def Let_def dest: green_run split: if_splits prod.splits option.splits)
qed

lemma confirm_run_Inr:
  assumes "confirm_run env img e = Inr e1"
  shows "tested_in img e1 \<and> la_lane e1 = la_lane e \<and> la_verdict e1 = la_verdict e \<and> la_resolution e1 = la_resolution e \<and>
    la_resolves_with e1 = la_resolves_with e \<and> la_reproduction e1 = la_reproduction e"
  using assms
  by (auto simp: confirm_run_def tested_in_def verify_reproduction_holds run_in_lane_def
      split: if_splits prod.splits option.splits)

lemma settle_answer_Inr:
  assumes "settle_answer env img cur e = Inr e'"
  shows "tested_in img e'" "la_lane e' = la_lane e" "la_verdict e' = la_verdict e"
    and "\<lbrakk>map_of cur (la_lane e) = Some p; la_verdict e = ''pass''; is_finding p\<rbrakk> \<Longrightarrow> resolved_by img p e'"
proof -
  from assms obtain e1 where e1: "confirm_run env img e = Inr e1"
    by (auto simp: settle_answer_def and_then_Inr_iff)
  note c = confirm_run_Inr [OF e1]
  have e': "e' = e1 \<or> (\<exists>r. e' = e1\<lparr>la_resolution := Some r\<rparr>)"
    using assms e1 by (auto simp: settle_answer_def and_then_Inr_iff split: option.splits if_splits)
  then show "tested_in img e'" "la_lane e' = la_lane e" "la_verdict e' = la_verdict e"
    using c by auto
  assume p: "map_of cur (la_lane e) = Some p" "la_verdict e = ''pass''" "is_finding p"
  with assms e1 obtain r where r: "e' = e1\<lparr>la_resolution := Some r\<rparr>"
      "(case la_resolves_with e of Some c \<Rightarrow> resolve_by_replacement env img p c
        | None \<Rightarrow> resolve_by_finding env img (la_lane e) p) = Inr r"
    by (auto simp: settle_answer_def and_then_Inr_iff)
  show "resolved_by img p e'"
  proof (cases "la_resolves_with e")
    case None
    with r c resolve_by_finding_Inr [of env img "la_lane e" p r] show ?thesis
      by (auto simp: resolved_by_def)
  next
    case (Some k)
    with r c resolve_by_replacement_Inr [of env img p k r] show ?thesis
      by (auto simp: resolved_by_def)
  qed
qed

lemma set_map_filter_iff: "y \<in> set (List.map_filter f xs) \<longleftrightarrow> (\<exists>x\<in>set xs. f x = Some y)"
  by (induction xs) (auto simp: List.map_filter_simps split: option.splits)

lemma map_filter_subkeys:
  assumes "\<And>x y. f x = Some y \<Longrightarrow> g y = h x" "distinct (map h xs)"
  shows "distinct (map g (List.map_filter f xs))"
  using assms(2)
proof (induction xs)
  case (Cons x xs)
  have "g y \<noteq> h x" if "y \<in> set (List.map_filter f xs)" for y
    using that Cons.prems assms(1) by (auto simp: set_map_filter_iff) (metis imageI)
  then have "g y \<notin> g ` set (List.map_filter f xs)" if "f x = Some y" for y
    using assms(1) [OF that] by fastforce
  with Cons show ?case
    by (simp add: List.map_filter_simps split: option.split)
qed (simp add: List.map_filter_simps)

text \<open>One submission: either nothing is stored, or one sound submission of lanes this reviewer was asked, under the
  credential issued to it.\<close>

lemma record_answers_effect:
  assumes "record_answers env au methods w reviewer credential answers st = (out, st')"
  shows "st' = st \<or>
    (\<exists>d s. ls_dispatch st = Some d \<and> sm_round s = dd_round d \<and> sound_submission (reviewer_doc st reviewer) (dd_image d) s \<and>
       (\<forall>e\<in>set (sm_lanes s). la_lane e \<in> set (dispatched_lanes (Some d) reviewer)) \<and>
       map_of (dd_credential_hashes d) reviewer = Some (credential_hash env (text_or_empty credential)) \<and>
       st' = st\<lparr>ls_docs := AList.update reviewer (reviewer_doc st reviewer @ [s]) (ls_docs st)\<rparr>)"
proof (cases "submission_refusal env au w reviewer credential st")
  case (Some m)
  with assms show ?thesis by (simp add: record_answers_def)
next
  case None
  then obtain d where d: "ls_dispatch st = Some d"
      and cr: "map_of (dd_credential_hashes d) reviewer = Some (credential_hash env (text_or_empty credential))"
    by (auto simp: submission_refusal_def split: option.splits if_splits)
  obtain acc ref where acc: "validate_answers answers reviewer (dispatched_lanes (Some d) reviewer) methods = (acc, ref)"
    by fastforce
  note va = validate_answers_sound [OF acc]
  define ver where "ver = List.map_filter (\<lambda>e. case settle_answer env (dd_image d)
      (current_by_lane (reviewer_doc st reviewer)) e of Inl r \<Rightarrow> None | Inr e' \<Rightarrow> Some e') acc"
  define s where "s = \<lparr>sm_round = dd_round d, sm_at = re_now env, sm_lanes = ver\<rparr>"
  have v: "\<exists>e\<in>set acc. settle_answer env (dd_image d) (current_by_lane (reviewer_doc st reviewer)) e = Inr e'"
    if "e' \<in> set ver" for e'
  proof -
    from that obtain e where "e \<in> set acc" "(case settle_answer env (dd_image d)
        (current_by_lane (reviewer_doc st reviewer)) e of Inl r \<Rightarrow> None | Inr x \<Rightarrow> Some x) = Some e'"
      by (auto simp: ver_def set_map_filter_iff)
    then show ?thesis
      by (auto split: sum.splits intro!: bexI [of _ e])
  qed
  have "distinct (map la_lane ver)"
    unfolding ver_def by (rule map_filter_subkeys [where h = la_lane])
      (use va(1) in \<open>auto dest: settle_answer_Inr(2) split: sum.splits\<close>)
  moreover have "la_verdict e' \<in> set LANE_VERDICTS \<and> tested_in (dd_image d) e' \<and> la_lane e' \<in> set (dispatched_lanes (Some d) reviewer) \<and>
      (\<forall>p. la_verdict e' = ''pass'' \<longrightarrow> map_of (current_by_lane (reviewer_doc st reviewer)) (la_lane e') = Some p \<longrightarrow>
         is_finding p \<longrightarrow> resolved_by (dd_image d) p e')" if "e' \<in> set ver" for e'
  proof -
    from v [OF that] obtain e where e: "e \<in> set acc"
        "settle_answer env (dd_image d) (current_by_lane (reviewer_doc st reviewer)) e = Inr e'" by blast
    with va(2) have "la_verdict e \<in> set LANE_VERDICTS" "la_lane e \<in> set (dispatched_lanes (Some d) reviewer)"
      by (auto simp: fresh_answer_def wellformed_answer_def)
    with settle_answer_Inr [OF e(2)] show ?thesis by simp
  qed
  ultimately have "sound_submission (reviewer_doc st reviewer) (dd_image d) s"
      "\<forall>e\<in>set (sm_lanes s). la_lane e \<in> set (dispatched_lanes (Some d) reviewer)"
    by (auto simp: sound_submission_def s_def)
  moreover have "st' = (if ver \<noteq> [] \<and> re_written env
      then st\<lparr>ls_docs := AList.update reviewer (reviewer_doc st reviewer @ [s]) (ls_docs st)\<rparr> else st)"
    using assms None d acc by (auto simp: record_answers_def settled_answers_def Let_def s_def ver_def)
  ultimately show ?thesis
    using d cr by (intro disj_imp [THEN iffD2] impI exI [of _ d] exI [of _ s]) (auto simp: s_def split: if_splits)
qed

end
