(* ===== verification/Lane_Rounds.thy ===== *)
theory Lane_Rounds
  imports Lane_Safety
begin

text \<open>
  Runs of the lane review: dispatches and submissions in any order, by anyone. History is only appended to, an open
  finding is asked again in every round and closes only with a pass whose resolving run exited 0, and a dispatch
  repeated on the same commit changes nothing.
\<close>

section \<open>Steps\<close>

inductive review_step :: "string \<Rightarrow> lane_store \<Rightarrow> lane_store \<Rightarrow> bool" for w where
  dispatch: "record_dispatch env au w rq st = (out, st') \<Longrightarrow> review_step w st st'"
| convene: "dispatch_review_round env au cv w force st = (res, st') \<Longrightarrow> review_step w st st'"
| answer: "record_answers env au methods w reviewer credential answers st = (got, st') \<Longrightarrow> review_step w st st'"

definition no_review :: lane_store where
  "no_review = \<lparr>ls_dispatch = None, ls_docs = []\<rparr>"

lemma record_dispatch_docs: "record_dispatch env au w rq st = (out, st') \<Longrightarrow> ls_docs st' = ls_docs st"
  by (auto simp: record_dispatch_def Let_def split: if_splits option.splits sum.splits prod.splits)

lemma dispatch_round_docs: "dispatch_review_round env au cv w force st = (out, st') \<Longrightarrow> ls_docs st' = ls_docs st"
  by (auto simp: dispatch_review_round_def Let_def dest: record_dispatch_docs
      split: if_splits option.splits sum.splits prod.splits)

lemma reviewer_doc_update:
  "reviewer_doc (st\<lparr>ls_docs := AList.update r subs (ls_docs st)\<rparr>) q = (if q = r then subs else reviewer_doc st q)"
  by (simp add: reviewer_doc_def update_conv)

lemma review_step_docs:
  assumes "review_step w st st'"
  shows "reviewer_doc st' r = reviewer_doc st r \<or>
    (\<exists>s img. reviewer_doc st' r = reviewer_doc st r @ [s] \<and> sound_submission (reviewer_doc st r) img s)"
    and "distinct_docs st \<Longrightarrow> distinct_docs st'"
  using assms
proof (induction rule: review_step.cases)
  case (answer env au methods reviewer credential answers st got st')
  { case 1
    from record_answers_effect [OF answer(3)] answer show ?case
      by (auto simp: reviewer_doc_update) }
  { case 2
    from record_answers_effect [OF answer(3)] answer 2 show ?case
      by (auto simp: distinct_docs_def distinct_update) }
qed (auto simp: reviewer_doc_def distinct_docs_def dest: record_dispatch_docs dispatch_round_docs)

section \<open>An open finding closes only with a green run\<close>

text \<open>After the submissions \<open>subs\<close>, the submissions \<open>ys\<close> contain a pass on the lane that met the finding standing then and
  resolved it.\<close>

definition closed_by_pass :: "submission list \<Rightarrow> submission list \<Rightarrow> string \<Rightarrow> bool" where
  "closed_by_pass subs ys l \<longleftrightarrow>
     (\<exists>before s after e p img. ys = before @ s # after \<and> e \<in> set (sm_lanes s) \<and> la_lane e = l \<and> la_verdict e = ''pass'' \<and>
        map_of (current_by_lane (subs @ before)) l = Some p \<and> is_finding p \<and> tested_in img e \<and> resolved_by img p e)"

lemma closed_by_pass_more: "closed_by_pass subs ys l \<Longrightarrow> closed_by_pass subs (ys @ zs) l"
  by (fastforce simp: closed_by_pass_def)

lemma closed_by_passI:
  assumes "finding_on (current_by_lane (subs @ ys)) l" "sound_submission (subs @ ys) img s"
    and "e \<in> set (sm_lanes s)" "la_lane e = l" "la_verdict e = ''pass''"
  shows "closed_by_pass subs (ys @ [s]) l"
proof -
  from assms(1) obtain p where p: "map_of (current_by_lane (subs @ ys)) l = Some p" "is_finding p"
    by (auto simp: finding_on_def)
  with assms(2-5) have "tested_in img e" "resolved_by img p e"
    by (auto simp: sound_submission_def)
  with p assms(3-5) show ?thesis
    unfolding closed_by_pass_def by (intro exI [of _ ys] exI [of _ s] exI [of _ "[]"] exI [of _ e] exI [of _ p] exI [of _ img]) simp
qed

lemma finding_stays_or_closes:
  assumes "(review_step w)\<^sup>*\<^sup>* st st'" "finding_on (current_by_lane (reviewer_doc st r)) l"
  shows "\<exists>ys. reviewer_doc st' r = reviewer_doc st r @ ys \<and>
    (finding_on (current_by_lane (reviewer_doc st' r)) l \<or> closed_by_pass (reviewer_doc st r) ys l)"
  using assms(1)
proof (induction rule: rtranclp_induct)
  case base
  with assms(2) show ?case by simp
next
  case (step st1 st2)
  then obtain ys where ys: "reviewer_doc st1 r = reviewer_doc st r @ ys"
      "finding_on (current_by_lane (reviewer_doc st1 r)) l \<or> closed_by_pass (reviewer_doc st r) ys l"
    by blast
  consider (same) "reviewer_doc st2 r = reviewer_doc st1 r"
    | (more) s img where "reviewer_doc st2 r = reviewer_doc st1 r @ [s]" "sound_submission (reviewer_doc st1 r) img s"
    using review_step_docs(1) [OF step(2)] by blast
  then show ?case
  proof cases
    case same
    with ys show ?thesis by auto
  next
    case more
    have "finding_on (current_by_lane (reviewer_doc st2 r)) l \<or> closed_by_pass (reviewer_doc st r) (ys @ [s]) l"
      using ys(2)
    proof
      assume f: "finding_on (current_by_lane (reviewer_doc st1 r)) l"
      show ?thesis
      proof (cases "\<exists>e\<in>set (sm_lanes s). la_lane e = l \<and> la_verdict e = ''pass''")
        case True
        with f more ys(1) show ?thesis by (auto intro: closed_by_passI)
      next
        case False
        with f more finding_on_snoc [OF f, of s] show ?thesis
          by (auto simp: sound_submission_def)
      qed
    qed (auto intro: closed_by_pass_more)
    with more ys(1) show ?thesis by auto
  qed
qed

lemma reachable_distinct: "(review_step w)\<^sup>*\<^sup>* no_review st \<Longrightarrow> distinct_docs st"
  by (induction rule: rtranclp_induct) (simp add: distinct_docs_def no_review_def, erule review_step_docs(2))

lemma open_finding_holds:
  "distinct_docs st \<Longrightarrow> finding_on (current_by_lane (reviewer_doc st r)) l \<Longrightarrow> lane_review_failure w st \<noteq> None"
  using open_findings_doc [of st r l] by (auto simp: lane_review_failure_None)

text \<open>C3: over any run of dispatches, convened rounds and submissions, whoever makes them, a reviewer's history only grows,
  and a finding it recorded on a lane keeps holding the work order until the history contains a pass on that lane,
  re-run with the exit code it reported, that resolved the finding standing then: by that finding's own
  reproduction or by the named replacement test that failed at the finding's image, exiting 0 in the round's image.\<close>

theorem finding_closes_only_by_green_run:
  assumes "(review_step w)\<^sup>*\<^sup>* no_review st" "(review_step w)\<^sup>*\<^sup>* st st'"
    and "map_of (current_by_lane (reviewer_doc st r)) l = Some p" "la_verdict (sd_answer p) = ''finding''"
  shows "\<exists>ys. reviewer_doc st' r = reviewer_doc st r @ ys \<and>
    (lane_review_failure w st' \<noteq> None \<or> closed_by_pass (reviewer_doc st r) ys l)"
proof -
  have "distinct_docs st'"
    using reachable_distinct [of w] rtranclp_trans [OF assms(1,2)] by simp
  moreover have "finding_on (current_by_lane (reviewer_doc st r)) l"
    using assms(3,4) by (simp add: finding_on_def)
  ultimately show ?thesis
    using finding_stays_or_closes [OF assms(2)] open_finding_holds by blast
qed

section \<open>An open finding is asked again\<close>

text \<open>The slots by owner: a named reviewer has the slot under its own name.\<close>

definition owned_slots :: "(string \<times> slot) list \<Rightarrow> bool" where
  "owned_slots slots \<longleftrightarrow> distinct (map fst slots) \<and>
     (\<forall>k s r. (k, s) \<in> set slots \<longrightarrow>
        (sl_reviewer s = Some r \<and> r \<noteq> [] \<longrightarrow> k = r) \<and>
        (k = r \<and> r \<noteq> [] \<and> \<not> py_startswith r ''seat:'' \<longrightarrow> sl_reviewer s = Some r))"

definition asks :: "(string \<times> slot) list \<Rightarrow> string \<Rightarrow> string \<Rightarrow> bool" where
  "asks slots r l \<longleftrightarrow> (\<exists>s. map_of slots r = Some s \<and> l \<in> set (sl_lanes s))"

definition fits_owner :: "string \<Rightarrow> slot \<Rightarrow> bool" where
  "fits_owner k s \<longleftrightarrow>
     (\<forall>r. (sl_reviewer s = Some r \<and> r \<noteq> [] \<longrightarrow> k = r) \<and>
        (k = r \<and> r \<noteq> [] \<and> \<not> py_startswith r ''seat:'' \<longrightarrow> sl_reviewer s = Some r))"

lemma owned_slots_alt: "owned_slots slots \<longleftrightarrow> distinct (map fst slots) \<and> (\<forall>(k, s)\<in>set slots. fits_owner k s)"
  by (auto simp: owned_slots_def fits_owner_def)

lemma owned_slots_update:
  "owned_slots slots \<Longrightarrow> fits_owner k s \<Longrightarrow> owned_slots (AList.update k s slots)"
  using set_update_pair [of k s slots] by (auto simp: owned_slots_alt distinct_update)

lemma fits_owner_key: "fits_owner (owner_key reviewer seat) \<lparr>sl_reviewer = reviewer, sl_seat = st, sl_lanes = ls, sl_model = m\<rparr>"
  by (cases reviewer) (auto simp: fits_owner_def owner_key_def py_startswith_def)

lemma fits_owner_lanes [simp]:
  "fits_owner k (s\<lparr>sl_lanes := ls\<rparr>) = fits_owner k s" "fits_owner k (s\<lparr>sl_model := m\<rparr>) = fits_owner k s"
  by (simp_all add: fits_owner_def)

lemma owned_slots_initial: "owned_slots (initial_slots assignments)"
proof -
  have "owned_slots acc \<Longrightarrow> owned_slots (fold (\<lambda>s. AList.update (owner_key (sl_reviewer s) (sl_seat s))
       \<lparr>sl_reviewer = sl_reviewer s, sl_seat = sl_seat s, sl_lanes = sort (remdups (sl_lanes s)), sl_model = None\<rparr>) assignments acc)" for acc
    by (induction assignments arbitrary: acc) (simp_all add: owned_slots_update fits_owner_key)
  moreover have "owned_slots []"
    by (simp add: owned_slots_def)
  ultimately show ?thesis
    unfolding initial_slots_def by blast
qed

lemma carry_lane_owned:
  assumes "owned_slots slots" "fits_owner key blank" "carry_lane key blank lane (slots, carried) = (slots', carried')"
  shows "owned_slots slots' \<and> asks slots' key lane \<and> (\<forall>r l. asks slots r l \<longrightarrow> asks slots' r l)"
proof -
  define s where "s = (case map_of slots key of None \<Rightarrow> blank | Some s \<Rightarrow> s)"
  define s' where "s' = (if lane \<in> set (sl_lanes s) then s else s\<lparr>sl_lanes := sort (sl_lanes s @ [lane])\<rparr>)"
  have "fits_owner key s"
    using assms(1,2) by (auto simp: s_def owned_slots_alt split: option.split dest: map_of_SomeD)
  then have fit: "fits_owner key s'"
    by (simp add: s'_def)
  have lanes: "lane \<in> set (sl_lanes s')" "set (sl_lanes s) \<subseteq> set (sl_lanes s')"
    by (auto simp: s'_def)
  have upd: "slots' = AList.update key s' slots"
    using assms(3) by (simp add: carry_lane_def Let_def s_def s'_def split: if_splits)
  have "asks slots' r l" if "asks slots r l" for r l
    using that lanes(2) by (cases "r = key") (auto simp: asks_def upd update_conv s_def)
  moreover have "asks slots' key lane"
    using lanes(1) by (simp add: asks_def upd update_conv)
  ultimately show ?thesis
    using owned_slots_update [OF assms(1) fit] by (simp add: upd)
qed

lemma carry_finding_owned:
  assumes "owned_slots slots" "carry_finding f (slots, carried) = (slots', carried')"
  shows "owned_slots slots' \<and> (\<forall>r l. asks slots r l \<longrightarrow> asks slots' r l) \<and>
    (fst f \<noteq> [] \<longrightarrow> asks slots' (fst f) (la_lane (sd_answer (snd f))))"
  using assms carry_lane_owned [of slots "owner_key (Some (fst f)) None" "blank_slot (Some (fst f)) None"
      "la_lane (sd_answer (snd f))" carried slots' carried'] fits_owner_key [of "Some (fst f)" None None "[]" None]
  by (auto simp: carry_finding_def case_prod_beta blank_slot_def owner_key_def)

lemma carry_findings_owned:
  assumes "owned_slots slots" "fold carry_finding fs (slots, carried) = (slots', carried')"
  shows "owned_slots slots' \<and> (\<forall>r l. asks slots r l \<longrightarrow> asks slots' r l) \<and>
    (\<forall>(r, s)\<in>set fs. r \<noteq> [] \<longrightarrow> asks slots' r (la_lane (sd_answer s)))"
  using assms
proof (induction fs arbitrary: slots carried)
  case (Cons f fs)
  obtain slots1 carried1 where 1: "carry_finding f (slots, carried) = (slots1, carried1)" by fastforce
  note c = carry_finding_owned [OF Cons.prems(1) 1]
  from Cons.prems(2) 1 have "fold carry_finding fs (slots1, carried1) = (slots', carried')" by simp
  with Cons.IH c have "owned_slots slots' \<and> (\<forall>r l. asks slots1 r l \<longrightarrow> asks slots' r l) \<and>
    (\<forall>(r, s)\<in>set fs. r \<noteq> [] \<longrightarrow> asks slots' r (la_lane (sd_answer s)))" by blast
  with c show ?case by (cases f) auto
qed simp

lemma referee_fits: "fits_owner k (referee_blank k)"
  by (auto simp: referee_blank_def blank_slot_def fits_owner_def py_startswith_def)

lemma resolve_round_asks:
  assumes "resolve_round_content st assignments owned models = Inr (resolved, carried)"
    and "(r, s) \<in> set (open_findings st)" "r \<noteq> []" "\<not> py_startswith r ''seat:''"
  shows "(\<exists>x\<in>set resolved. sl_reviewer x = Some r) \<and>
    (\<forall>x\<in>set resolved. sl_reviewer x = Some r \<longrightarrow> la_lane (sd_answer s) \<in> set (sl_lanes x))"
proof -
  obtain slots1 c1 where 1: "fold carry_finding (open_findings st) (initial_slots assignments, []) = (slots1, c1)"
    by fastforce
  note f = carry_findings_owned [OF owned_slots_initial 1]
  from f assms(2,3) have a1: "asks slots1 r (la_lane (sd_answer s))" by auto
  obtain slots2 c2 where 2: "(if awaiting_referee st \<noteq> []
      then carry_lane (the (referee_owner owned)) (referee_blank (the (referee_owner owned))) REFEREE_LANE (slots1, c1)
      else (slots1, c1)) = (slots2, c2)"
    by fastforce
  have "owned_slots slots2 \<and> asks slots2 r (la_lane (sd_answer s))"
  proof (cases "awaiting_referee st = []")
    case True
    with 2 f a1 show ?thesis by simp
  next
    case False
    with 2 have "carry_lane (the (referee_owner owned)) (referee_blank (the (referee_owner owned))) REFEREE_LANE (slots1, c1) = (slots2, c2)"
      by simp
    from carry_lane_owned [OF _ referee_fits this] f a1 show ?thesis by blast
  qed
  then have o2: "owned_slots slots2" and a2: "asks slots2 r (la_lane (sd_answer s))"
    by blast+
  from assms(1) 1 2 have "resolved = sort_key (\<lambda>s. sl_reviewer s = None) (sort_key shown_reviewer (map (with_model models \<circ> snd) slots2))"
    by (auto simp: resolve_round_content_def Let_def split: if_splits prod.splits)
  then have set_res: "set resolved = (with_model models \<circ> snd) ` set slots2"
    by simp
  have wm: "sl_reviewer (with_model models x) = sl_reviewer x" "sl_lanes (with_model models x) = sl_lanes x" for x
    by (simp_all add: with_model_def split: option.split)
  from a2 obtain x where x: "(r, x) \<in> set slots2" "la_lane (sd_answer s) \<in> set (sl_lanes x)"
    by (auto simp: asks_def dest: map_of_SomeD)
  have uniq: "y = x" if "(k, y) \<in> set slots2" "sl_reviewer y = Some r" for k y
  proof -
    have "k = r"
      using o2 that assms(3) unfolding owned_slots_def by blast
    moreover have "distinct (map fst slots2)"
      using o2 by (rule owned_slots_alt [THEN iffD1, THEN conjunct1])
    ultimately show ?thesis
      using that(1) x(1) eq_key_imp_eq_value by metis
  qed
  have "sl_reviewer x = Some r"
    using o2 x(1) assms(3,4) unfolding owned_slots_def by blast
  then have "\<exists>y\<in>set resolved. sl_reviewer y = Some r"
    using x(1) wm(1) unfolding set_res by force
  moreover have "la_lane (sd_answer s) \<in> set (sl_lanes y)" if "y \<in> set resolved" "sl_reviewer y = Some r" for y
    using that x(2) uniq wm unfolding set_res by auto
  ultimately show ?thesis by blast
qed

text \<open>every new round asks the reviewer of an open finding about its lane again, whatever the convened slots are: the
  lane is among the lanes the reviewer is dispatched, and the reviewer is issued a credential to answer it. (A
  reviewer's name is not empty and does not look like a seat key.)\<close>

theorem open_finding_is_asked_again:
  assumes "record_dispatch env au w rq st = (Inr (Dispatched doc stored credentials), st')"
    and "(r, s) \<in> set (open_findings st)" "r \<noteq> []" "\<not> py_startswith r ''seat:''"
  shows "la_lane (sd_answer s) \<in> set (dispatched_lanes (Some doc) r) \<and> map_of credentials r = Some (re_token env r) \<and>
    map_of (dd_credential_hashes doc) r = Some (credential_hash env (re_token env r))"
proof -
  from assms(1) obtain carried where res:
      "resolve_round_content st (rq_assignments rq) (rq_owned rq) (rq_models rq) = Inr (dd_assignments doc, carried)"
    and cred: "credentials = issued_credentials env (dd_assignments doc)"
    and hash: "dd_credential_hashes doc = map (\<lambda>(r, c). (r, credential_hash env c)) credentials"
    by (auto simp: record_dispatch_def Let_def split: if_splits option.splits sum.splits prod.splits)
  note asked = resolve_round_asks [OF res assms(2-4)]
  have lane: "la_lane (sd_answer s) \<in> set (dispatched_lanes (Some doc) r)"
  proof (cases "find (\<lambda>x. sl_reviewer x = Some r) (dd_assignments doc)")
    case None
    with asked show ?thesis by (auto simp: find_None_iff)
  next
    case (Some x)
    then have "x \<in> set (dd_assignments doc)" "sl_reviewer x = Some r"
      by (auto simp: find_Some_iff)
    with asked Some show ?thesis by (simp add: dispatched_lanes_def)
  qed
  have iss: "map_of (fold (\<lambda>s cs. if truthy (sl_reviewer s)
        then AList.update (the (sl_reviewer s)) (re_token env (the (sl_reviewer s))) cs else cs) slots cs) r =
      (if \<exists>x\<in>set slots. sl_reviewer x = Some r then Some (re_token env r) else map_of cs r)" for slots cs
  proof (induction slots arbitrary: cs)
    case (Cons a slots)
    then show ?case
      using assms(3) by (cases "sl_reviewer a") (auto simp: update_conv)
  qed simp
  have c: "map_of credentials r = Some (re_token env r)"
    using asked by (simp add: cred issued_credentials_def iss)
  then have "map_of (dd_credential_hashes doc) r = Some (credential_hash env (re_token env r))"
    by (simp add: hash map_of_map)
  with lane c show ?thesis by simp
qed

section \<open>Repeating a dispatch\<close>

lemma resolve_round_dispatch: "resolve_round_content (st\<lparr>ls_dispatch := d\<rparr>) a o' m = resolve_round_content st a o' m"
proof -
  have "all_reviewer_docs (st\<lparr>ls_dispatch := d\<rparr>) = all_reviewer_docs st"
    by (simp add: all_reviewer_docs_def)
  then have "open_findings (st\<lparr>ls_dispatch := d\<rparr>) = open_findings st" "all_answers (st\<lparr>ls_dispatch := d\<rparr>) = all_answers st"
    by (simp_all add: open_findings_def recorded_answers_def all_answers_def)
  then show ?thesis
    by (simp add: resolve_round_content_def awaiting_referee_def last_referee_round_def)
qed

text \<open>A dispatch that landed, repeated by a caller that did not see the answer, opens no second round: the same
  document is returned, nothing is stored and no credential is issued again, whatever the clock and the tokens
  drawn are by then.\<close>

theorem redispatch_is_idle:
  assumes "record_dispatch env au w rq st = (Inr (Dispatched doc True credentials), st')" "\<not> rq_force rq"
  shows "record_dispatch env2 au w rq st' = (Inr (AlreadyDispatched doc), st')"
proof -
  from assms(1) obtain carried where g: "work_order_project au w \<noteq> None"
      "find (\<lambda>s. stray_lanes (rq_owned rq) s \<noteq> []) (rq_assignments rq) = None"
    and res: "resolve_round_content st (rq_assignments rq) (rq_owned rq) (rq_models rq) = Inr (dd_assignments doc, carried)"
    and doc: "dd_sha doc = rq_sha rq" "dd_carried doc = carried" "st' = st\<lparr>ls_dispatch := Some doc\<rparr>"
    by (auto simp: record_dispatch_def Let_def split: if_splits option.splits sum.splits prod.splits)
  have "same_round doc (rq_sha rq) (dd_assignments doc) carried"
    using doc by (simp add: same_round_def)
  with g res assms(2) show ?thesis
    by (simp add: record_dispatch_def resolve_round_dispatch doc(3))
qed

section \<open>A finding whose reproduction exits 0\<close>

text \<open>nothing asks that the reproduction of a finding fails. A finding reported with exit code 0, confirmed by a run
  in the round's image, is resolved in the same image by any confirmed pass of the same reviewer: the run that is to
  show the defect gone is the run that confirmed the finding.\<close>

theorem green_finding_resolves_itself:
  assumes "confirm_run env img f = Inr f'" "la_verdict f = ''finding''" "la_reproduction f = Some \<lparr>rp_command = c, rp_exit = Some 0\<rparr>"
    and "map_of cur (la_lane e) = Some \<lparr>sd_answer = f', sd_round = n, sd_resolves = from, sd_cannot_tell = ct\<rparr>"
    and "la_verdict e = ''pass''" "la_resolves_with e = None" "confirm_run env img e = Inr e'"
  shows "\<exists>r. settle_answer env img cur e = Inr (e'\<lparr>la_resolution := Some r\<rparr>) \<and> rs_command r = c \<and> rs_exit r = Some 0"
proof -
  from assms(1-3) obtain run reason where v: "verify_reproduction (re_docker env) img (green c) = (True, run, reason)"
    by (auto simp: confirm_run_def TESTED_VERDICTS_def split: prod.splits if_splits)
  then have c: "py_strip c \<noteq> []"
    by (simp add: verify_reproduction_holds)
  from confirm_run_Inr [OF assms(1)] assms(2,3)
  have f': "la_verdict f' = ''finding''" "la_reproduction f' = Some (green c)" by simp_all
  from v c obtain r where "resolve_by_finding env img (la_lane e)
      \<lparr>sd_answer = f', sd_round = n, sd_resolves = from, sd_cannot_tell = ct\<rparr> = Inr r" "rs_command r = c" "rs_exit r = Some 0"
    using green_run [OF v] by (auto simp: resolve_by_finding_def f')
  with assms(4-7) f'(1) show ?thesis
    by (intro exI [of _ r]) (simp add: settle_answer_def)
qed

section \<open>Who can answer\<close>

text \<open>C31: a submission changes the record only if it carries the credential issued to the reviewer it names in the standing
  round, and then it appends, to that reviewer's history alone, answers on lanes the round asked of it, each
  claim re-run in the round's image with the exit code reported; a refused submission changes nothing.\<close>

theorem only_the_credentialed_reviewer_answers:
  assumes "record_answers env au methods w reviewer credential answers st = (out, st')" "st' \<noteq> st"
  shows "\<exists>d s. ls_dispatch st = Some d \<and> ls_dispatch st' = Some d \<and>
    map_of (dd_credential_hashes d) reviewer = Some (credential_hash env (text_or_empty credential)) \<and>
    reviewer_doc st' reviewer = reviewer_doc st reviewer @ [s] \<and> (\<forall>q. q \<noteq> reviewer \<longrightarrow> reviewer_doc st' q = reviewer_doc st q) \<and>
    sm_round s = dd_round d \<and>
    (\<forall>e\<in>set (sm_lanes s). la_lane e \<in> set (dispatched_lanes (Some d) reviewer) \<and> tested_in (dd_image d) e)"
  using record_answers_effect [OF assms(1)] assms(2)
  by (auto simp: reviewer_doc_update sound_submission_def)

section \<open>Concrete rounds\<close>

text \<open>A work order whose test fails in the old image and passes in the new one: a round, a finding, a second round, a pass.\<close>

definition sample_review_authority :: authority where
  "sample_review_authority =
     \<lparr>au_db = (empty_db [])\<lparr>work_orders := [(''w1'', wo_default\<lparr>wo_project_id := Some ''p1''\<rparr>)]\<rparr>, au_deps = [],
      au_spool = empty_spool\<rparr>"

definition sample_review_env :: review_env where
  "sample_review_env =
     \<lparr>re_docker = \<lparr>dk_info = DockerInfo 0 ''27'' [], dk_has = \<lambda>_. True, dk_archive = \<lambda>_ _. 0, dk_build = \<lambda>_. (0, []),
        dk_exec = \<lambda>img c. (Some (if c = ''t'' \<and> img = ''o:1'' then 1 else 0), []), dk_sha256 = \<lambda>x. x\<rparr>,
      re_now = ''n'', re_token = \<lambda>r. r @ ''1'', re_written = True, re_repo_root = ''/''\<rparr>"

definition sample_request :: "string \<Rightarrow> round_request" where
  "sample_request img =
     \<lparr>rq_sha = img, rq_image = img, rq_change_set = [],
      rq_assignments = [\<lparr>sl_reviewer = Some ''ann'', sl_seat = Some ''s'', sl_lanes = [''l''], sl_model = None\<rparr>],
      rq_owned = [(''ann'', [''l''])], rq_models = [], rq_force = False\<rparr>"

definition sample_answer :: "string \<Rightarrow> string \<Rightarrow> int \<Rightarrow> raw_answer" where
  "sample_answer v c n =
     \<lparr>ra_lane = ''l'', ra_verdict = v, ra_evidence = ''seen'', ra_why = [], ra_check = [], ra_declare = [],
      ra_resolves_with = [], ra_environment_gap = [], ra_reproduction = Some \<lparr>rp_command = c, rp_exit = Some n\<rparr>,
      ra_paired_sites = None, ra_counterfactual = None, ra_docs_consulted = None, ra_citations_verified = None\<rparr>"

definition sample_dispatch :: "string \<Rightarrow> lane_store \<Rightarrow> (dispatch_error + dispatch_result) \<times> lane_store" where
  "sample_dispatch img st = record_dispatch sample_review_env sample_review_authority ''w1'' (sample_request img) st"

definition sample_record :: "string \<Rightarrow> string \<Rightarrow> int \<Rightarrow> lane_store \<Rightarrow> (string + review_outcome) \<times> lane_store" where
  "sample_record v c n st = record_answers sample_review_env sample_review_authority [] ''w1'' ''ann'' (Some ''ann1'')
     [AnAnswer (sample_answer v c n)] st"

definition sample_found :: lane_store where
  "sample_found = snd (sample_record ''finding'' ''t'' 1 (snd (sample_dispatch ''o:1'' no_review)))"

definition sample_fixed :: lane_store where
  "sample_fixed = snd (sample_record ''pass'' ''t'' 0 (snd (sample_dispatch ''n:2'' sample_found)))"

lemma sample_steps:
  "review_step ''w1'' st (snd (sample_dispatch img st))" "review_step ''w1'' st (snd (sample_record v c n st))"
  unfolding sample_dispatch_def sample_record_def
  by (rule review_step.dispatch, rule prod.collapse [symmetric], rule review_step.answer, rule prod.collapse [symmetric])

lemma sample_reached: "(review_step ''w1'')\<^sup>*\<^sup>* no_review sample_found" "(review_step ''w1'')\<^sup>*\<^sup>* sample_found sample_fixed"
  unfolding sample_found_def sample_fixed_def
  by (meson sample_steps rtranclp.intros converse_rtranclp_into_rtranclp)+

text \<open>The documents a concrete dispatch makes.\<close>

definition made_round :: "(dispatch_error + dispatch_result) \<times> lane_store \<Rightarrow> (dispatch_doc \<times> (string \<times> string) list) option" where
  "made_round r = (case fst r of Inr (Dispatched d True cs) \<Rightarrow> Some (d, cs) | _ \<Rightarrow> None)"

lemma made_roundD: "made_round r = Some (d, cs) \<Longrightarrow> r = (Inr (Dispatched d True cs), snd r)"
  by (cases r) (auto simp: made_round_def split: sum.splits dispatch_result.splits bool.splits)

definition unasked_request :: round_request where
  "unasked_request = (sample_request ''n:2'')\<lparr>rq_assignments := []\<rparr>"

text \<open>The concrete rounds, evaluated at once.\<close>

definition round_facts :: "lane_store \<Rightarrow> lane_store \<Rightarrow> lane_store \<Rightarrow> bool" where
  "round_facts first found fixed \<longleftrightarrow>
     map_option (\<lambda>p. la_verdict (sd_answer p)) (map_of (current_by_lane (reviewer_doc found ''ann'')) ''l'') = Some ''finding'' \<and>
     lane_review_failure ''w1'' found \<noteq> None \<and> lane_review_failure ''w1'' fixed = None \<and>
     map_option (\<lambda>(d, cs). dd_round d)
       (made_round (record_dispatch sample_review_env sample_review_authority ''w1'' unasked_request found)) = Some 2 \<and>
     map (\<lambda>(q, s). (q, la_lane (sd_answer s))) (open_findings found) = [(''ann'', ''l'')] \<and>
     ls_docs first = [] \<and> ls_docs found \<noteq> [] \<and> map_option dd_round (ls_dispatch first) = Some 1"

lemma rounds_evaluated: "round_facts (snd (sample_dispatch ''o:1'' no_review)) sample_found sample_fixed"
  by code_simp

lemma finding_closes_only_by_green_run_witness:
  "lane_review_failure ''w1'' sample_found \<noteq> None \<and>
   (\<exists>ys. reviewer_doc sample_fixed ''ann'' = reviewer_doc sample_found ''ann'' @ ys \<and>
      closed_by_pass (reviewer_doc sample_found ''ann'') ys ''l'')"
proof -
  have "lane_review_failure ''w1'' sample_found \<noteq> None" "lane_review_failure ''w1'' sample_fixed = None"
    "map_option (\<lambda>p. la_verdict (sd_answer p)) (map_of (current_by_lane (reviewer_doc sample_found ''ann'')) ''l'') = Some ''finding''"
    using rounds_evaluated unfolding round_facts_def by blast+
  then show ?thesis
    using finding_closes_only_by_green_run [OF sample_reached, of "''ann''" "''l''"] by auto
qed

lemma open_finding_is_asked_again_witness:
  "\<exists>d. ls_dispatch (snd (record_dispatch sample_review_env sample_review_authority ''w1'' unasked_request sample_found)) = Some d \<and>
     dd_round d = 2 \<and> ''l'' \<in> set (dispatched_lanes (Some d) ''ann'')"
proof -
  let ?r = "record_dispatch sample_review_env sample_review_authority ''w1'' unasked_request sample_found"
  have "map_option (\<lambda>(d, cs). dd_round d) (made_round ?r) = Some 2"
    using rounds_evaluated unfolding round_facts_def by blast
  then obtain d cs where m: "made_round ?r = Some (d, cs)" "dd_round d = 2"
    by auto
  note r = made_roundD [OF m(1)]
  have "ls_dispatch (snd ?r) = Some d"
    using r by (auto simp: record_dispatch_def Let_def sample_review_env_def split: if_splits option.splits sum.splits prod.splits)
  moreover have "map (\<lambda>(q, s). (q, la_lane (sd_answer s))) (open_findings sample_found) = [(''ann'', ''l'')]"
    using rounds_evaluated unfolding round_facts_def by blast
  then obtain s where s: "(''ann'', s) \<in> set (open_findings sample_found)" "la_lane (sd_answer s) = ''l''"
    by auto
  moreover have "\<not> py_startswith ''ann'' ''seat:''"
    by code_simp
  ultimately show ?thesis
    using open_finding_is_asked_again [OF r s(1)] m(2) by simp
qed

lemma redispatch_is_idle_witness:
  "let first = sample_dispatch ''o:1'' no_review; again = sample_dispatch ''o:1'' (snd first) in
     snd again = snd first \<and> map_option dd_round (ls_dispatch (snd again)) = Some 1"
proof -
  have "map_option (\<lambda>(d, cs). dd_round d) (made_round (sample_dispatch ''o:1'' no_review)) = Some 1"
    "map_option dd_round (ls_dispatch (snd (sample_dispatch ''o:1'' no_review))) = Some 1"
    by code_simp+
  then obtain d cs where m: "made_round (sample_dispatch ''o:1'' no_review) = Some (d, cs)"
      "map_option dd_round (ls_dispatch (snd (sample_dispatch ''o:1'' no_review))) = Some 1"
    by auto
  from redispatch_is_idle [OF made_roundD [OF m(1), unfolded sample_dispatch_def], of sample_review_env]
  have "sample_dispatch ''o:1'' (snd (sample_dispatch ''o:1'' no_review)) =
      (Inr (AlreadyDispatched d), snd (sample_dispatch ''o:1'' no_review))"
    by (simp add: sample_request_def sample_dispatch_def)
  with m(2) show ?thesis by (simp add: Let_def)
qed

text \<open>\<open>grep\<close> finds the defect and exits 0: the same command, unchanged, in the same image, resolves it.\<close>

lemma green_finding_resolves_itself_witness:
  "\<exists>f cur r e. confirm_run sample_review_env ''o:1'' (accepted_answer (sample_answer ''finding'' ''grep'' 0)) = Inr f \<and>
     cur = stand 1 f [] \<and>
     settle_answer sample_review_env ''o:1'' cur (accepted_answer (sample_answer ''pass'' ''grep'' 0)) = Inr e \<and>
     la_resolution e = Some r \<and> rs_command r = ''grep''"
proof -
  let ?f = "accepted_answer (sample_answer ''finding'' ''grep'' 0)" and ?e = "accepted_answer (sample_answer ''pass'' ''grep'' 0)"
  have "case confirm_run sample_review_env ''o:1'' ?f of Inl m \<Rightarrow> False | Inr x \<Rightarrow> la_lane x = ''l''"
    "case confirm_run sample_review_env ''o:1'' ?e of Inl m \<Rightarrow> False | Inr x \<Rightarrow> True"
    by code_simp+
  then obtain f e where fe: "confirm_run sample_review_env ''o:1'' ?f = Inr f" "la_lane f = ''l''"
      "confirm_run sample_review_env ''o:1'' ?e = Inr e"
    by (auto split: sum.splits)
  have facts: "la_verdict ?f = ''finding''" "la_reproduction ?f = Some \<lparr>rp_command = ''grep'', rp_exit = Some 0\<rparr>"
    "la_verdict ?e = ''pass''" "la_resolves_with ?e = None" "la_lane ?e = ''l''"
    by code_simp+
  have "map_of (stand 1 f []) (la_lane ?e) = Some \<lparr>sd_answer = f, sd_round = 1, sd_resolves = None, sd_cannot_tell = []\<rparr>"
    by (simp add: map_of_stand fe(2) facts(5))
  from green_finding_resolves_itself [OF fe(1) facts(1,2) this facts(3,4) fe(3)]
  obtain r where "settle_answer sample_review_env ''o:1'' (stand 1 f []) ?e = Inr (e\<lparr>la_resolution := Some r\<rparr>)" "rs_command r = ''grep''"
    by blast
  with fe(1) show ?thesis
    by (intro exI [of _ f] exI [of _ "stand 1 f []"] exI [of _ r] exI [of _ "e\<lparr>la_resolution := Some r\<rparr>"]) simp
qed

lemma only_the_credentialed_reviewer_answers_witness:
  "\<exists>s. reviewer_doc sample_found ''ann'' = [s] \<and> sm_round s = 1"
proof -
  let ?st = "snd (sample_dispatch ''o:1'' no_review)"
  have ne: "ls_docs ?st = []" "ls_docs sample_found \<noteq> []" "map_option dd_round (ls_dispatch ?st) = Some 1"
    using rounds_evaluated unfolding round_facts_def by blast+
  have "record_answers sample_review_env sample_review_authority [] ''w1'' ''ann'' (Some ''ann1'')
      [AnAnswer (sample_answer ''finding'' ''t'' 1)] ?st = (fst (sample_record ''finding'' ''t'' 1 ?st), sample_found)"
    by (simp add: sample_found_def sample_record_def)
  moreover have "sample_found \<noteq> ?st"
    using ne(1,2) by metis
  ultimately show ?thesis
    using only_the_credentialed_reviewer_answers ne(1,3) by (fastforce simp: reviewer_doc_def)
qed

end
