(* ===== verification/Artifact_Store.thy ===== *)
theory Artifact_Store
  imports Py_Json
begin

text \<open>
  Where the verdicts, contracts, scans and records of a work order are kept
  (\<^verbatim>\<open>core/work_orders/artifacts.py\<close>) and the provenance envelope around them
  (\<^verbatim>\<open>core/work_orders/artifact_envelope.py\<close>).

  The table is an association list from its primary key (work order, kind, instance key) to rows. What
  SQLite answers to one attempt to write and what git prints are parameters. An authority that cannot be
  read answers like an empty table, as the code's handlers make it.
\<close>

section \<open>The envelope\<close>

definition ENVELOPE_MARKER :: string where
  "ENVELOPE_MARKER = ''__ds_envelope__''"

definition ENVELOPE_VERSION :: int where
  "ENVELOPE_VERSION = 1"

definition js_opt :: "string option \<Rightarrow> json" where
  "js_opt s = (case s of None \<Rightarrow> JsNull | Some t \<Rightarrow> JsStr t)"

definition wrap :: "string \<Rightarrow> string \<Rightarrow> string option \<Rightarrow> string \<Rightarrow> string" where
  "wrap content generator head_commit_sha created_at =
     json_dumps (Some 2) (JsObj
       [(ENVELOPE_MARKER, JsInt ENVELOPE_VERSION), (''generator'', JsStr generator),
        (''created_at'', JsStr created_at), (''head_commit_sha'', js_opt head_commit_sha),
        (''content'', JsStr content)])"

type_synonym envelope_dict = "(string \<times> json) list"

definition unwrap :: "string option \<Rightarrow> string option \<times> envelope_dict option" where
  "unwrap stored =
     (case stored of
        None \<Rightarrow> (None, None)
      | Some s \<Rightarrow>
          if \<not> py_startswith (py_lstrip s) ''{'' then (Some s, None)
          else (case json_loads s of
             Some (JsObj d) \<Rightarrow>
               if ENVELOPE_MARKER \<notin> fst ` set d then (Some s, None)
               else ((case js_get d ''content'' of JsStr c \<Rightarrow> Some c | _ \<Rightarrow> Some s),
                     Some (filter (\<lambda>(k, v). k \<noteq> ''content'') d))
           | _ \<Rightarrow> (Some s, None)))"

section \<open>Git\<close>

text \<open>A git command: its exit code and output; None when it cannot be started or times out.\<close>

type_synonym git = "string list \<Rightarrow> (int \<times> string) option"

definition git_head_sha :: "git \<Rightarrow> string option \<Rightarrow> string option" where
  "git_head_sha git project_root =
     (if project_root = None then None
      else (case git [''git'', ''rev-parse'', ''HEAD''] of
         None \<Rightarrow> None
       | Some (code, out) \<Rightarrow> if code = 0 \<and> py_strip out \<noteq> [] then Some (py_strip out) else None))"

definition output_lines :: "string \<Rightarrow> string list" where
  "output_lines out = filter (\<lambda>h. h \<noteq> []) (py_splitlines (py_strip out))"

definition commits_after :: "git \<Rightarrow> string \<Rightarrow> string option \<Rightarrow> string list option" where
  "commits_after git sha project_root =
     (if project_root = None then None
      else (case git [''git'', ''log'', sha @ ''..HEAD'', ''--format=%H''] of
         None \<Rightarrow> None
       | Some (code, out) \<Rightarrow> if code \<noteq> 0 then None else Some (output_lines out)))"

text \<open>The part of a title before its first \<open>" - "\<close>.\<close>

definition title_token :: "string \<Rightarrow> string" where
  "title_token title = py_strip (case py_find title '' - '' 0 of None \<Rightarrow> title | Some i \<Rightarrow> take i title)"

definition commit_patterns :: "string \<Rightarrow> string option \<Rightarrow> string list" where
  "commit_patterns w title =
     (let ps = [w, take 8 w, ''Work-Order: '' @ w];
          token = (if truthy title then title_token (the title) else [])
      in if token \<noteq> [] \<and> token \<notin> set ps then ps @ [token] else ps)"

text \<open>\<open>list(dict.fromkeys(xs))\<close>: the first occurrence of each.\<close>

definition first_occurrences :: "'a list \<Rightarrow> 'a list" where
  "first_occurrences xs = rev (remdups (rev xs))"

fun grep_commits :: "git \<Rightarrow> string \<Rightarrow> string list \<Rightarrow> string list option" where
  "grep_commits git sha [] = Some []"
| "grep_commits git sha (p # ps) =
     (case git [''git'', ''log'', sha @ ''..HEAD'', ''--fixed-strings'', ''--grep='' @ p, ''--format=%H''] of
        None \<Rightarrow> None
      | Some (code, out) \<Rightarrow>
          if code \<noteq> 0 then None else map_option (\<lambda>hs. output_lines out @ hs) (grep_commits git sha ps))"

definition wo_commits_after :: "git \<Rightarrow> string \<Rightarrow> string option \<Rightarrow> string \<Rightarrow> string option \<Rightarrow> string list option" where
  "wo_commits_after git sha project_root w title =
     (if project_root = None then None
      else map_option first_occurrences (grep_commits git sha (commit_patterns w title)))"

section \<open>The table\<close>

definition VALID_KINDS :: "string list" where
  "VALID_KINDS = [''api_contract'', ''security_scan'', ''design_audit'', ''review_verdict'', ''context'',
     ''operator_decision'', ''decision_request'', ''escalation'', ''report'', ''eval'', ''impact_affirmation'']"

definition KIND_TO_FILENAME :: "(string \<times> string) list" where
  "KIND_TO_FILENAME = [(''api_contract'', ''api-contract.md''), (''security_scan'', ''security-scan.md''),
     (''design_audit'', ''design-audit.md''), (''review_verdict'', ''review-verdict.json''),
     (''context'', ''context.md''), (''impact_affirmation'', ''impact-affirmation.md'')]"

record artifact_row =
  ar_content :: string
  ar_created_at :: string
  ar_updated_at :: string

type_synonym artifact_key = "string \<times> string \<times> string"
type_synonym artifact_table = "(artifact_key \<times> artifact_row) list"

definition upsert_artifact :: "artifact_key \<Rightarrow> string \<Rightarrow> string \<Rightarrow> artifact_table \<Rightarrow> artifact_table" where
  "upsert_artifact k content now t =
     (case map_of t k of
        None \<Rightarrow> t @ [(k, \<lparr>ar_content = content, ar_created_at = now, ar_updated_at = now\<rparr>)]
      | Some r \<Rightarrow> AList.update k (r\<lparr>ar_content := content, ar_updated_at := now\<rparr>) t)"

datatype sqlite_error = OperationalError string | IntegrityError string

definition MIGRATION_ADDED_COLUMNS :: "string list" where
  "MIGRATION_ADDED_COLUMNS = [''instance_key'']"

definition is_stale_schema :: "string \<Rightarrow> bool" where
  "is_stale_schema message =
     (let text = py_lower message in
      if py_in ''no such table'' text then True
      else if py_in ''no such column'' text \<or> py_in ''has no column named'' text
      then list_ex (\<lambda>column. py_in column text) MIGRATION_ADDED_COLUMNS
      else False)"

definition is_locked :: "string \<Rightarrow> bool" where
  "is_locked message = (py_in ''locked'' (py_lower message) \<or> py_in ''busy'' (py_lower message))"

definition LOCK_ATTEMPTS :: nat where
  "LOCK_ATTEMPTS = 4"

text \<open>The attempts of one write, the n-th answered by \<open>answer n\<close>; \<open>left\<close> counts the ones that remain.\<close>

fun write_attempts :: "(nat \<Rightarrow> sqlite_error option) \<Rightarrow> nat \<Rightarrow> nat \<Rightarrow> sqlite_error + bool" where
  "write_attempts answer n 0 = Inr True"
| "write_attempts answer n (Suc left) =
     (case answer n of
        None \<Rightarrow> Inr True
      | Some (OperationalError m) \<Rightarrow>
          if \<not> is_locked m \<or> left = 0 then (if is_stale_schema m then Inr False else Inl (OperationalError m))
          else write_attempts answer (Suc n) left
      | Some (IntegrityError m) \<Rightarrow> if py_in ''CHECK constraint'' m then Inr False else Inl (IntegrityError m))"

datatype store_error = UnknownKind | StoreFault sqlite_error

record store_env =
  se_now :: string
  se_answer :: "nat \<Rightarrow> sqlite_error option"
  se_git :: git
  se_root :: "string option"

definition stored_text :: "store_env \<Rightarrow> string option \<Rightarrow> string \<Rightarrow> string" where
  "stored_text env generator content =
     (case generator of None \<Rightarrow> content
      | Some g \<Rightarrow> wrap content g (git_head_sha (se_git env) (se_root env)) (se_now env))"

definition set_wo_artifact ::
    "store_env \<Rightarrow> artifact_key \<Rightarrow> string \<Rightarrow> string option \<Rightarrow> artifact_table \<Rightarrow> (store_error + bool) \<times> artifact_table" where
  "set_wo_artifact env k content generator t =
     (if fst (snd k) \<notin> set VALID_KINDS then (Inl UnknownKind, t)
      else (case write_attempts (se_answer env) 0 LOCK_ATTEMPTS of
         Inl e \<Rightarrow> (Inl (StoreFault e), t)
       | Inr False \<Rightarrow> (Inr False, t)
       | Inr True \<Rightarrow> (Inr True, upsert_artifact k (stored_text env generator content) (se_now env) t)))"

definition get_wo_artifact_envelope :: "artifact_key \<Rightarrow> artifact_table \<Rightarrow> string option \<times> envelope_dict option" where
  "get_wo_artifact_envelope k t = unwrap (map_option ar_content (map_of t k))"

definition get_wo_artifact :: "artifact_key \<Rightarrow> artifact_table \<Rightarrow> string option" where
  "get_wo_artifact k t = fst (get_wo_artifact_envelope k t)"

definition has_wo_artifact :: "artifact_key \<Rightarrow> artifact_table \<Rightarrow> bool" where
  "has_wo_artifact k t = (get_wo_artifact k t \<noteq> None)"

definition shown_content :: "artifact_row \<Rightarrow> string" where
  "shown_content r = (case fst (unwrap (Some (ar_content r))) of None \<Rightarrow> [] | Some c \<Rightarrow> c)"

definition list_wo_artifacts :: "string \<Rightarrow> string \<Rightarrow> artifact_table \<Rightarrow> (string \<times> string) list" where
  "list_wo_artifacts w kind t =
     map (\<lambda>((w', k', i), r). (i, shown_content r))
       (sort_key (\<lambda>((w', k', i), r). i) (filter (\<lambda>((w', k', i), r). w' = w \<and> k' = kind) t))"

text \<open>\<open>ORDER BY updated_at DESC, work_order_id, instance_key\<close>\<close>

definition list_artifacts_by_kind :: "string \<Rightarrow> artifact_table \<Rightarrow> (string \<times> string \<times> string \<times> string) list" where
  "list_artifacts_by_kind kind t =
     map (\<lambda>((w, k', i), r). (w, i, shown_content r, ar_updated_at r))
       (rev (sort_key (\<lambda>(k, r). ar_updated_at r)
         (rev (sort_key (\<lambda>((w, k', i), r). w) (sort_key (\<lambda>((w, k', i), r). i)
           (filter (\<lambda>((w, k', i), r). k' = kind) t))))))"

section \<open>Recovering the copies on disk\<close>

datatype file_read = FileText string | FileUnreadable

text \<open>One artifact of a directory: copied, not copied, or a failure to report. \<open>envs\<close> gives the answers of the
  authority per artifact.\<close>

definition backfill_file ::
    "(artifact_key \<Rightarrow> store_env) \<Rightarrow> string \<Rightarrow> (string \<times> string) \<times> file_read \<Rightarrow> nat \<times> artifact_key list \<times> artifact_table
      \<Rightarrow> nat \<times> artifact_key list \<times> artifact_table" where
  "backfill_file envs w entry acc =
     (let ((kind, fname), f) = entry; (written, failures, t) = acc; key = (w, kind, []) in
      case f of
        FileUnreadable \<Rightarrow> (written, failures @ [key], t)
      | FileText content \<Rightarrow>
          (case set_wo_artifact (envs key) key content None t of
             (Inr True, t') \<Rightarrow> (Suc written, failures, t')
           | (Inr False, t') \<Rightarrow> (written, failures, t')
           | (Inl e, t') \<Rightarrow> (written, failures @ [key], t')))"

text \<open>The directories of the work orders with the files they hold.\<close>

definition backfill_wo_artifacts ::
    "(artifact_key \<Rightarrow> store_env) \<Rightarrow> (string \<times> (string \<times> file_read) list) list \<Rightarrow> artifact_table
      \<Rightarrow> nat \<times> artifact_key list \<times> artifact_table" where
  "backfill_wo_artifacts envs dirs t =
     fold (\<lambda>(w, files). fold (backfill_file envs w)
         (List.map_filter (\<lambda>(kind, fname). map_option (\<lambda>f. ((kind, fname), f)) (map_of files fname)) KIND_TO_FILENAME))
       (sort_key fst dirs) (0, [], t)"

section \<open>Laws\<close>

lemma wrap_plain: "json_plain (JsObj [(ENVELOPE_MARKER, JsInt ENVELOPE_VERSION), (''generator'', JsStr g),
    (''created_at'', JsStr at), (''head_commit_sha'', js_opt sha), (''content'', JsStr c)])"
  by (cases sha) (simp_all add: js_opt_def ENVELOPE_MARKER_def)

lemma unwrap_wrap:
  "unwrap (Some (wrap c g sha at)) =
     (Some c, Some [(ENVELOPE_MARKER, JsInt ENVELOPE_VERSION), (''generator'', JsStr g), (''created_at'', JsStr at),
        (''head_commit_sha'', js_opt sha)])"
proof -
  have "\<exists>s. wrap c g sha at = CHR ''{'' # s"
    by (simp add: wrap_def json_dumps_def)
  then have "py_startswith (py_lstrip (wrap c g sha at)) ''{''"
    by (auto simp: py_lstrip_def py_startswith_def py_isspace_def)
  moreover have "json_loads (wrap c g sha at) = Some (JsObj [(ENVELOPE_MARKER, JsInt ENVELOPE_VERSION),
      (''generator'', JsStr g), (''created_at'', JsStr at), (''head_commit_sha'', js_opt sha), (''content'', JsStr c)])"
    unfolding wrap_def by (rule json_loads_dumps [OF wrap_plain])
  ultimately show ?thesis
    by (simp add: unwrap_def js_get_def ENVELOPE_MARKER_def)
qed

lemma map_of_artifact_upsert: "map_of (upsert_artifact k c now t) k' =
    (if k' = k then Some (case map_of t k of
         None \<Rightarrow> \<lparr>ar_content = c, ar_created_at = now, ar_updated_at = now\<rparr>
       | Some r \<Rightarrow> r\<lparr>ar_content := c, ar_updated_at := now\<rparr>)
     else map_of t k')"
  by (auto simp: upsert_artifact_def update_conv map_add_def split: option.split)

lemma get_upsert: "get_wo_artifact_envelope k' (upsert_artifact k c now t) =
    (if k' = k then unwrap (Some c) else get_wo_artifact_envelope k' t)"
  by (auto simp: get_wo_artifact_envelope_def map_of_artifact_upsert split: option.split)

lemma set_wo_artifact_cases:
  "(\<exists>r. set_wo_artifact env k c g t = (r, t) \<and> r \<noteq> Inr True) \<or>
   (set_wo_artifact env k c g t = (Inr True, upsert_artifact k (stored_text env g c) (se_now env) t) \<and>
    fst (snd k) \<in> set VALID_KINDS)"
  by (auto simp: set_wo_artifact_def split: sum.split bool.split)

text \<open>What is stored: text that is read back as it was written, or text under a generator, which is read back
  with its provenance.\<close>

definition bare_text :: "string \<Rightarrow> bool" where
  "bare_text c \<longleftrightarrow> unwrap (Some c) = (Some c, None)"

lemma bare_textI: "\<not> py_startswith (py_lstrip c) ''{'' \<Longrightarrow> bare_text c"
  by (simp add: bare_text_def unwrap_def)

lemma unwrap_stored:
  "g \<noteq> None \<or> bare_text c \<Longrightarrow> fst (unwrap (Some (stored_text env g c))) = Some c"
  by (auto simp: stored_text_def unwrap_wrap bare_text_def split: option.split)

section \<open>The store as an interface\<close>

text \<open>What the readers of the store rely on: a document is read back under its key, and the others stay. A
  document kind with an encoding into text inherits both.\<close>

locale keyed_store =
  fixes put :: "'k \<Rightarrow> string \<Rightarrow> 's \<Rightarrow> 's"
    and get :: "'k \<Rightarrow> 's \<Rightarrow> string option"
    and readable :: "string \<Rightarrow> bool"
  assumes get_put: "readable c \<Longrightarrow> get k (put k c s) = Some c"
    and get_put_other: "k' \<noteq> k \<Longrightarrow> get k' (put k c s) = get k' s"

locale document_store = keyed_store put get readable
  for put :: "'k \<Rightarrow> string \<Rightarrow> 's \<Rightarrow> 's" and get readable +
  fixes encode :: "'d \<Rightarrow> string" and decode :: "string \<Rightarrow> 'd option" and valid :: "'d \<Rightarrow> bool"
  assumes decode_encode: "valid d \<Longrightarrow> decode (encode d) = Some d"
    and encode_readable: "valid d \<Longrightarrow> readable (encode d)"
begin

definition write_doc :: "'k \<Rightarrow> 'd \<Rightarrow> 's \<Rightarrow> 's" where
  "write_doc k d s = put k (encode d) s"

definition read_doc :: "'k \<Rightarrow> 's \<Rightarrow> 'd option" where
  "read_doc k s = Option.bind (get k s) decode"

lemma read_write: "valid d \<Longrightarrow> read_doc k (write_doc k d s) = Some d"
  by (simp add: read_doc_def write_doc_def get_put encode_readable decode_encode)

lemma read_write_other: "k' \<noteq> k \<Longrightarrow> read_doc k' (write_doc k d s) = read_doc k' s"
  by (simp add: read_doc_def write_doc_def get_put_other)

text \<open>The last of a sequence of writes decides.\<close>

lemma read_last:
  assumes "\<forall>(k, d)\<in>set ws. valid d"
  shows "read_doc k (fold (\<lambda>(k, d). write_doc k d) ws s) =
    (case map_of (rev ws) k of None \<Rightarrow> read_doc k s | Some d \<Rightarrow> Some d)"
  using assms
proof (induction ws rule: rev_induct)
  case (snoc w ws)
  obtain k1 d1 where w: "w = (k1, d1)" by (cases w)
  show ?case
  proof (cases "k = k1")
    case True
    then show ?thesis using snoc.prems by (simp add: w read_write)
  next
    case False
    then show ?thesis using snoc by (simp add: w read_write_other)
  qed
qed simp

end

text \<open>The writes of a generator, each wrapped in its envelope: any text is read back.\<close>

definition put_generated :: "store_env \<Rightarrow> string \<Rightarrow> artifact_key \<Rightarrow> string \<Rightarrow> artifact_table \<Rightarrow> artifact_table" where
  "put_generated env g k c t = upsert_artifact k (stored_text env (Some g) c) (se_now env) t"

interpretation generated: keyed_store "put_generated env g" get_wo_artifact "\<lambda>c. True"
  by unfold_locales (simp_all add: put_generated_def get_wo_artifact_def get_upsert unwrap_stored)

interpretation json_docs: document_store "put_generated env g" get_wo_artifact "\<lambda>c. True"
    "json_dumps (Some 2)" json_loads json_plain
  by unfold_locales simp_all

text \<open>The bare writes: what is not itself an envelope is read back.\<close>

definition put_bare :: "string \<Rightarrow> artifact_key \<Rightarrow> string \<Rightarrow> artifact_table \<Rightarrow> artifact_table" where
  "put_bare now k c t = upsert_artifact k c now t"

interpretation bare: keyed_store "put_bare now" get_wo_artifact bare_text
  by unfold_locales (simp_all add: put_bare_def get_wo_artifact_def get_upsert bare_text_def)

section \<open>Properties\<close>

text \<open>C35: The artifact store gives back what was put in. A write either reports that it landed or leaves the
  table unchanged. An artifact that landed under a generator is read back with exactly its text and an envelope
  naming that generator, the time and the commit the repository was at; text without a generator is read back
  as it is unless it is an envelope itself; and the artifacts under other keys are untouched.\<close>

theorem artifact_roundtrip:
  "case set_wo_artifact env k c g t of (r, t') \<Rightarrow>
     (r \<noteq> Inr True \<longrightarrow> t' = t) \<and>
     (r = Inr True \<longrightarrow>
        (case g of
           Some gen \<Rightarrow> get_wo_artifact_envelope k t' = (Some c, Some [(ENVELOPE_MARKER, JsInt ENVELOPE_VERSION),
             (''generator'', JsStr gen), (''created_at'', JsStr (se_now env)),
             (''head_commit_sha'', js_opt (git_head_sha (se_git env) (se_root env)))])
         | None \<Rightarrow> bare_text c \<longrightarrow> get_wo_artifact_envelope k t' = (Some c, None)) \<and>
        (\<forall>k'. k' \<noteq> k \<longrightarrow> get_wo_artifact_envelope k' t' = get_wo_artifact_envelope k' t))"
  using set_wo_artifact_cases [of env k c g t]
  by (auto simp: get_upsert stored_text_def unwrap_wrap bare_text_def split: option.split)

definition sample_store_env :: store_env where
  "sample_store_env = \<lparr>se_now = ''2026-09-01'', se_answer = \<lambda>n. if n < 2 then Some (OperationalError ''database is locked'') else None,
     se_git = \<lambda>args. Some (0, ''abc123'' @ [CHR 0x0A]), se_root = Some ''/repo''\<rparr>"

definition sample_artifact :: artifact_key where
  "sample_artifact = (''wo-1'', ''review_verdict'', [])"

theorem artifact_roundtrip_witness:
  "case set_wo_artifact sample_store_env sample_artifact ''the verdict'' (Some ''ds work-order verify'') [] of (r, t') \<Rightarrow>
     r = Inr True \<and> get_wo_artifact sample_artifact t' = Some ''the verdict'' \<and>
     js_get (the (snd (get_wo_artifact_envelope sample_artifact t'))) ''head_commit_sha'' = JsStr ''abc123''"
proof -
  let ?p = "set_wo_artifact sample_store_env sample_artifact ''the verdict'' (Some ''ds work-order verify'') []"
  have r: "fst ?p = Inr True" by code_simp
  have sha: "git_head_sha (se_git sample_store_env) (se_root sample_store_env) = Some ''abc123''" by code_simp
  show ?thesis
    using artifact_roundtrip [where env = sample_store_env and k = sample_artifact and c = "''the verdict''"
        and g = "Some ''ds work-order verify''" and t = "[]"] r sha
    by (cases ?p) (simp add: get_wo_artifact_def js_get_def ENVELOPE_MARKER_def js_opt_def)
qed

text \<open>Provenance is a claim of the stored text, not of the store. An envelope written by hand as the text of
  an artifact, without a generator, is read back as if that generator had produced it, at the commit it names.\<close>

theorem envelope_is_forgeable:
  "get_wo_artifact_envelope k (put_bare now k (wrap c g sha at) t) =
     (Some c, Some [(ENVELOPE_MARKER, JsInt ENVELOPE_VERSION), (''generator'', JsStr g), (''created_at'', JsStr at),
        (''head_commit_sha'', js_opt sha)])"
  by (simp add: put_bare_def get_upsert unwrap_wrap)

end
