(* ===== verification/Gate_Rules.thy ===== *)
theory Gate_Rules
  imports Artifact_Store Py_Regex Work_Order_Mutations
begin

text \<open>
  The rules the close gates of a work order apply to what they read: the ratification of a contract
  (\<^verbatim>\<open>core/gates/spec_ratification.py\<close>), the blocking finding of a security scan (\<^verbatim>\<open>security_verdict.py\<close>), the
  currency of the design brief (\<^verbatim>\<open>brief_currency.py\<close>), the affirmation of a change's impact
  (\<^verbatim>\<open>change_impact.py\<close>) and the structural invariants (\<^verbatim>\<open>core/work_orders/structural_invariants.py\<close>).

  A rule that refuses answers with its reason. The tables it reads exist; the fallbacks for older schemas are
  left out.
\<close>

section \<open>Texts\<close>

definition py_num :: "nat \<Rightarrow> string" where
  "py_num n = nat_text n"

text \<open>\<open>str(v)\<close> and \<open>repr(v)\<close> of a JSON value; a float is shown as it was written.\<close>

fun json_repr :: "json \<Rightarrow> string" where
  "json_repr JsNull = ''None''"
| "json_repr (JsBool b) = (if b then ''True'' else ''False'')"
| "json_repr (JsInt i) = int_text i"
| "json_repr (JsFloat t) = t"
| "json_repr (JsStr s) = py_repr s"
| "json_repr (JsList xs) = ''['' @ py_join '', '' (map json_repr xs) @ '']''"
| "json_repr (JsObj kvs) = ''{'' @ py_join '', '' (map (\<lambda>(k, v). py_repr k @ '': '' @ json_repr v) kvs) @ ''}''"

definition json_str :: "json \<Rightarrow> string" where
  "json_str v = (case v of JsStr s \<Rightarrow> s | _ \<Rightarrow> json_repr v)"

text \<open>\<open>d.get(k) or default\<close>, as text.\<close>

definition text_or :: "(string \<times> json) list \<Rightarrow> string \<Rightarrow> string \<Rightarrow> string" where
  "text_or d k other = (if js_truthy (js_get d k) then json_str (js_get d k) else other)"

definition sub_object :: "(string \<times> json) list \<Rightarrow> string \<Rightarrow> (string \<times> json) list" where
  "sub_object d k = (case js_get d k of JsObj e \<Rightarrow> e | _ \<Rightarrow> [])"

definition sub_list :: "(string \<times> json) list \<Rightarrow> string \<Rightarrow> json list" where
  "sub_list d k = (case js_get d k of JsList xs \<Rightarrow> xs | _ \<Rightarrow> [])"

section \<open>Dates\<close>

definition wo_created_on :: "authority \<Rightarrow> string \<Rightarrow> string option" where
  "wo_created_on au w = (case wo_of w au of None \<Rightarrow> None | Some r \<Rightarrow> wo_created_at r)"

text \<open>A work order without a date, or with one before the cutover.\<close>

definition is_grandfathered :: "string option \<Rightarrow> string \<Rightarrow> bool" where
  "is_grandfathered created_at enforced_after =
     (\<not> truthy created_at \<or> take 10 (the created_at) < enforced_after)"

section \<open>Contracts\<close>

definition RATIFY_ENFORCED_AFTER :: string where
  "RATIFY_ENFORCED_AFTER = ''2026-08-02''"

definition RATIFIED :: string where
  "RATIFIED = ''ratified''"

text \<open>\<open>^\\s*[-*]?\\s*\\**status\\**\\s*:\\s*\\**\\s*([A-Za-z]+)\<close>, ignoring case, at the start of any line.\<close>

definition STATUS_RE :: regex where
  "STATUS_RE =
     (let spaces = Star (Cls py_isspace); stars = Star (Cls (\<lambda>c. c = CHR ''*''))
      in SeqOf [spaces, Opt (Cls (\<lambda>c. c = CHR ''-'' \<or> c = CHR ''*'')), spaces, stars, LitNocase ''status'', stars,
           spaces, Lit '':'', spaces, stars, spaces, Grp 1 (Plus (Cls ascii_letter))])"

fun search_lines :: "regex \<Rightarrow> bool \<Rightarrow> string \<Rightarrow> rmatch option" where
  "search_lines r bol [] = (if bol then re_match r [] else None)"
| "search_lines r bol (c # s) =
     (case (if bol then re_match r (c # s) else None) of
        Some m \<Rightarrow> Some m
      | None \<Rightarrow> search_lines r (c = CHR 0x0A) s)"

definition parse_spec_status :: "string \<Rightarrow> string option" where
  "parse_spec_status text =
     (case search_lines STATUS_RE True text of
        None \<Rightarrow> None
      | Some m \<Rightarrow> map_option (\<lambda>g. py_lower (py_strip g)) (group_of m 1))"

definition evaluate_api_contract :: "string option \<Rightarrow> string option \<Rightarrow> string option" where
  "evaluate_api_contract contract_text created_at =
     (case contract_text of
        None \<Rightarrow> Some ''api-contract.md not found''
      | Some t \<Rightarrow>
          if is_grandfathered created_at RATIFY_ENFORCED_AFTER then None
          else if parse_spec_status t = Some RATIFIED then None
          else Some (''linked spec is not Ratified (status='' @ the (py_or (parse_spec_status t) (Some ''missing'')) @
            ''); ratify the spec before close (see docs/specs/README.md)''))"

section \<open>Security scans\<close>

text \<open>\<open>BLOCKED\\b\<close>, ignoring case.\<close>

definition blocked_word :: "string \<Rightarrow> bool" where
  "blocked_word s = (prefix_nocase ''BLOCKED'' s \<and> (case drop 7 s of [] \<Rightarrow> True | c # _ \<Rightarrow> \<not> regex_word c))"

definition skip_space :: "string \<Rightarrow> string" where
  "skip_space s = dropWhile py_isspace s"

definition blocked_line :: "string \<Rightarrow> bool" where
  "blocked_line s =
     (blocked_word (skip_space s) \<or>
      (case skip_space s of
         c # t \<Rightarrow> (c = CHR ''-'' \<or> c = CHR ''*'') \<and> blocked_word (skip_space t)
       | [] \<Rightarrow> False))"

definition blocked_colon :: "string \<Rightarrow> bool" where
  "blocked_colon s = (prefix_nocase ''BLOCKED'' s \<and> py_startswith (skip_space (drop 7 s)) '':'')"

fun colon_blocked :: "string \<Rightarrow> bool" where
  "colon_blocked [] = False"
| "colon_blocked (c # s) =
     ((c = CHR '':'' \<and> blocked_word (skip_space s)) \<or> (c \<noteq> CHR 0x0A \<and> colon_blocked s))"

definition VERDICT_WORDS :: "string list" where
  "VERDICT_WORDS = [''status'', ''result'', ''verdict'', ''finding'']"

definition verdict_blocked :: "string \<Rightarrow> bool" where
  "verdict_blocked s =
     list_ex (\<lambda>w. prefix_nocase w s \<and> (case drop (length w) s of [] \<Rightarrow> True | c # _ \<Rightarrow> \<not> regex_word c) \<and>
       colon_blocked (drop (length w) s)) VERDICT_WORDS"

text \<open>The three alternatives of the pattern, tried at every place: \<open>bol\<close> says that it is the start of a line,
  \<open>word\<close> that a word character stands before it.\<close>

fun blocked_from :: "bool \<Rightarrow> bool \<Rightarrow> string \<Rightarrow> bool" where
  "blocked_from bol word [] = False"
| "blocked_from bol word (c # s) =
     ((bol \<and> blocked_line (c # s)) \<or> (\<not> word \<and> (blocked_colon (c # s) \<or> verdict_blocked (c # s))) \<or>
      blocked_from (c = CHR 0x0A) (regex_word c) s)"

definition is_security_blocked :: "string option \<Rightarrow> bool" where
  "is_security_blocked content = blocked_from True False (text_or_empty content)"

section \<open>The design brief\<close>

record brief_row =
  br_project :: string
  br_status :: string
  br_updated_at :: "string option"
  br_created_at :: "string option"

text \<open>The effective date of the brief: the latest lock, or a later declaration that it was reviewed unchanged.\<close>

definition locked_briefs :: "brief_row list \<Rightarrow> string \<Rightarrow> brief_row list" where
  "locked_briefs briefs project_id = filter (\<lambda>b. br_project b = project_id \<and> br_status b = ''locked'') briefs"

text \<open>\<open>ORDER BY COALESCE(updated_at, created_at) DESC LIMIT 1\<close>\<close>

definition latest_brief :: "brief_row list \<Rightarrow> string \<Rightarrow> brief_row option" where
  "latest_brief briefs project_id =
     (case rev (sort_key (\<lambda>b. case coalesce (br_updated_at b) (br_created_at b) of None \<Rightarrow> [] | Some d \<Rightarrow> CHR '' '' # d)
             (rev (locked_briefs briefs project_id))) of
        [] \<Rightarrow> None
      | b # _ \<Rightarrow> Some b)"

definition effective_since :: "brief_row \<Rightarrow> string option \<Rightarrow> string option" where
  "effective_since b reviewed_at =
     (let locked_at = py_or (br_updated_at b) (br_created_at b) in
      if \<not> truthy locked_at then None
      else (case reviewed_at of
         Some d \<Rightarrow> if the locked_at < d then Some d else locked_at
       | None \<Rightarrow> locked_at))"

definition moved_surface :: "type_registry \<Rightarrow> wo_table \<Rightarrow> string \<Rightarrow> string \<Rightarrow> (string \<times> wo_row) list" where
  "moved_surface types wos project_id effective =
     take 10 (rev (sort_key (\<lambda>(w, r). the (wo_closed_at r)) (rev
       (filter (\<lambda>(w, r). wo_project_id r = Some project_id \<and> wo_status r = ''closed'' \<and>
          wo_type r \<in> Some ` set (design_brief_staling_types types) \<and> wo_closed_at r \<noteq> None \<and>
          effective < the (wo_closed_at r)) wos))))"

definition currency_failure ::
    "type_registry \<Rightarrow> brief_row list \<Rightarrow> string option \<Rightarrow> wo_table \<Rightarrow> string \<Rightarrow> string option" where
  "currency_failure types briefs reviewed_at wos project_id =
     (case latest_brief briefs project_id of
        None \<Rightarrow> None
      | Some b \<Rightarrow>
          (case effective_since b reviewed_at of
             None \<Rightarrow> None
           | Some effective \<Rightarrow>
               (case moved_surface types wos project_id effective of
                  [] \<Rightarrow> None
                | (w, r) # others \<Rightarrow>
                    Some (py_num (Suc (length others)) @ '' UI-class work order(s) closed after the brief became effective ('' @
                      effective @ ''); newest: '' @ (case wo_title r of None \<Rightarrow> ''None'' | Some t \<Rightarrow> py_repr t) @ '' at '' @
                      the (wo_closed_at r) @ ''. The brief proves existence but not currency -- re-lock it'' @
                      '' (ds design-brief lock), or declare reviewed-no-change if the design language genuinely still'' @
                      '' holds. Only '' @ py_join '', '' (design_brief_staling_types types) @ '' work stales a brief; a'' @
                      '' brief is project-scoped, so one current brief satisfies every UI work order in it.''))))"

section \<open>Change impact\<close>

definition IMPACT_CLASSES :: "string list" where
  "IMPACT_CLASSES = [''auth'', ''contract'', ''migration'', ''changelog'']"

definition IMPACT_AFFIRM_ENFORCED_AFTER :: string where
  "IMPACT_AFFIRM_ENFORCED_AFTER = ''2026-08-02''"

definition render_affirmation :: "string list \<Rightarrow> string \<Rightarrow> string" where
  "render_affirmation touched note =
     (let touched_set = map py_lower touched;
          ls = [''# Change-Impact Affirmation'', []] @
            map (\<lambda>cls. ''- ['' @ (if cls \<in> set touched_set then ''x'' else '' '') @ ''] '' @ cls) IMPACT_CLASSES @
            (if py_strip note \<noteq> [] then [[], ''Note: '' @ py_strip note] else [])
      in py_join [CHR 0x0A] ls @ [CHR 0x0A])"

definition impact_key :: "string \<Rightarrow> artifact_key" where
  "impact_key w = (w, ''impact_affirmation'', [])"

definition affirm_change_impact ::
    "store_env \<Rightarrow> string \<Rightarrow> string list \<Rightarrow> string \<Rightarrow> artifact_table \<Rightarrow> (store_error + bool) \<times> artifact_table" where
  "affirm_change_impact env w touched note t =
     set_wo_artifact env (impact_key w) (render_affirmation touched note) None t"

definition check_change_impact_affirmed :: "authority \<Rightarrow> artifact_table \<Rightarrow> string \<Rightarrow> string list" where
  "check_change_impact_affirmed au arts w =
     (if is_grandfathered (wo_created_on au w) IMPACT_AFFIRM_ENFORCED_AFTER then []
      else if get_wo_artifact (impact_key w) arts = None
      then [''change_impact_affirmed: no impact affirmation recorded -- run `ds work-order affirm-impact <id>` to'' @
        '' affirm the change'' @ [CHR 0x27] @ ''s impact classes (auth/contract/migration/changelog; see CLAUDE.md Code'' @
        '' History & Impact Guardrail)'']
      else [])"

section \<open>Structure\<close>

definition MIN_TASKS_PER_WORK_ORDER :: nat where
  "MIN_TASKS_PER_WORK_ORDER = 2"

definition MIN_WORK_ORDERS_PER_MILESTONE :: nat where
  "MIN_WORK_ORDERS_PER_MILESTONE = 2"

datatype violation = TooFewTasks nat | TooFewWorkOrders string nat

text \<open>Only a work order whose creation is in the event log is judged.\<close>

definition authority_created :: "authority \<Rightarrow> string \<Rightarrow> bool" where
  "authority_created au w =
     list_ex (\<lambda>(i, e). ev_type e = WORK_ORDER_CREATED \<and> map_of (ev_trace e) ''work_order_id'' = Some w)
       (sp_business (au_spool au))"

definition check_structure :: "authority \<Rightarrow> string \<Rightarrow> violation list" where
  "check_structure au w =
     (if \<not> authority_created au w then []
      else (case wo_of w au of
         None \<Rightarrow> []
       | Some r \<Rightarrow>
           (let n = length (filter (\<lambda>(k, t). t_work_order_id t = w) (tasks (au_db au))) in
            if n < MIN_TASKS_PER_WORK_ORDER then [TooFewTasks n] else []) @
           (case wo_milestone_id r of
              None \<Rightarrow> []
            | Some m \<Rightarrow>
                if m = [] then []
                else (let n = length (filter (\<lambda>(k, r'). wo_milestone_id r' = Some m) (work_orders (au_db au))) in
                  if n < MIN_WORK_ORDERS_PER_MILESTONE then [TooFewWorkOrders m n] else []))))"

definition exception_key :: "string \<Rightarrow> artifact_key" where
  "exception_key w = (w, ''operator_decision'', ''structure_exception'')"

definition recorded_exception :: "artifact_table \<Rightarrow> string \<Rightarrow> string option" where
  "recorded_exception arts w = get_wo_artifact (exception_key w) arts"

datatype exception_error = ReasonTooShort | NotRecorded

text \<open>A reason of at least twelve characters; anything but a write that landed is an error.\<close>

definition record_exception ::
    "store_env \<Rightarrow> string \<Rightarrow> string \<Rightarrow> artifact_table \<Rightarrow> (exception_error + bool) \<times> artifact_table" where
  "record_exception env w reason t =
     (let text = py_strip reason in
      if length text < 12 then (Inl ReasonTooShort, t)
      else (case set_wo_artifact env (exception_key w) text None t of
         (Inr True, t') \<Rightarrow> (Inr True, t')
       | (_, t') \<Rightarrow> (Inl NotRecorded, t')))"

text \<open>The refusal names how many invariants fail; what it says of each, and how to record an exception, is left
  out.\<close>

definition render_structure :: "violation list \<Rightarrow> string" where
  "render_structure vs = ''structural_invariants: '' @ py_num (length vs) @ '' invariant(s) not met:''"

text \<open>The gate as the close and its preview ask it.\<close>

definition structure_failures :: "authority \<Rightarrow> artifact_table \<Rightarrow> string \<Rightarrow> string list" where
  "structure_failures au arts w =
     (let vs = check_structure au w in
      if vs \<noteq> [] \<and> \<not> truthy (recorded_exception arts w) then [render_structure vs] else [])"

section \<open>Facts\<close>

text \<open>A recorded exception opens the gate: a reason is at least twelve characters, hence not empty, and it is
  what the gate reads back, unless it is itself an envelope.\<close>

lemma exception_opens_gate:
  assumes "record_exception env w reason t = (Inr True, t')" "bare_text (py_strip reason)"
  shows "recorded_exception t' w = Some (py_strip reason) \<and> structure_failures au t' w = []"
proof -
  have len: "12 \<le> length (py_strip reason)"
    and set: "set_wo_artifact env (exception_key w) (py_strip reason) None t = (Inr True, t')"
    using assms(1) by (auto simp: record_exception_def Let_def split: if_splits prod.splits sum.splits bool.splits)
  have "get_wo_artifact_envelope (exception_key w) t' = (Some (py_strip reason), None)"
    using set_wo_artifact_cases [of env "exception_key w" "py_strip reason" None t] set assms(2)
    by (auto simp: get_upsert stored_text_def bare_text_def)
  with len show ?thesis
    by (auto simp: recorded_exception_def structure_failures_def get_wo_artifact_def Let_def)
qed

end
