(* ===== verification/Review_Verdict.thy ===== *)
theory Review_Verdict
  imports Gate_Rules Acceptance_Checks
begin

text \<open>
  A stored review verdict as the close reads it (\<^verbatim>\<open>core/work_orders/close_shared.py\<close> and the
  \<open>independent_review\<close> branch of \<^verbatim>\<open>core/work_orders/close_gates.py\<close>): who certified it, what evidence it
  carries, whether its checks were executed, and the answer of the gate.

  The verdict is the JSON object the verification wrote. Ranking the roles by their scores and printing the
  scores, which are floats, are parameters (\<open>score_ops\<close>), as is the text of a JSON error.
\<close>

type_synonym verdict_dict = "(string \<times> json) list"

record score_ops =
  so_ranked :: "verdict_dict \<Rightarrow> string list"
  so_line :: "verdict_dict \<Rightarrow> string"
  so_json_error :: "string \<Rightarrow> string"

definition VERDICT_ROLES :: "string list" where
  "VERDICT_ROLES = [''completion'', ''correctness'', ''quality'', ''falsification'']"

definition verdict_is_operator_attested :: "verdict_dict \<Rightarrow> bool" where
  "verdict_is_operator_attested v =
     (js_truthy (js_get v ''passed'') \<and> js_get v ''certification_basis'' = JsStr ''operator_attested'')"

definition js_int :: "json \<Rightarrow> int option" where
  "js_int v = (case v of JsInt i \<Rightarrow> Some i | JsBool b \<Rightarrow> Some (if b then 1 else 0) | _ \<Rightarrow> None)"

definition verdict_execution_note :: "verdict_dict \<Rightarrow> string" where
  "verdict_execution_note v =
     (case js_get v ''test_execution'' of
        JsObj e \<Rightarrow>
          (case js_int (js_get e ''registered'') of
             None \<Rightarrow> []
           | Some registered \<Rightarrow>
               if registered \<le> 0 \<or> js_get e ''basis'' = JsStr ''executed'' then []
               else
                 let reason = (case sub_list e ''unexecuted'' of
                        JsObj u # _ \<Rightarrow> py_strip (text_or u ''reason'' [])
                      | _ \<Rightarrow> [])
                 in '' CHECKS NOT EXECUTED: '' @ json_str (js_get e ''registered'') @ '' TEST-CHECK(s) are registered and '' @
                   (if map_of e ''executed'' = None then ''0'' else json_str (js_get e ''executed'')) @
                   '' ran, so this verdict rests on reading rather than execution and its pass/fail for those'' @
                   '' criteria is unverified.'' @ (if reason \<noteq> [] then '' First: '' @ take 160 reason else []))
      | _ \<Rightarrow> [])"

definition verdict_summary :: "score_ops \<Rightarrow> verdict_dict \<Rightarrow> string" where
  "verdict_summary so v =
     (let summary = py_strip (text_or v ''summary'' []) in
      if summary \<noteq> [] then summary
      else (case List.map_filter (\<lambda>section. case js_get v section of
                JsObj part \<Rightarrow> (let s = py_strip (text_or part ''summary'' []) in if s \<noteq> [] then Some s else None)
              | _ \<Rightarrow> None) (so_ranked so v) of
          [] \<Rightarrow> []
        | s # _ \<Rightarrow> s))"

definition verdict_findings :: "verdict_dict \<Rightarrow> json list" where
  "verdict_findings v =
     concat (map (sub_list v) [''failure_reasons'', ''gaps'', ''spawned_work_orders'']) @
     concat (map (\<lambda>role. sub_list (sub_object v role) ''violations'') VERDICT_ROLES)"

definition verdict_evidence :: "score_ops \<Rightarrow> verdict_dict \<Rightarrow> string \<times> json list" where
  "verdict_evidence so v = (verdict_summary so v, verdict_findings v)"

section \<open>The failing verdict\<close>

text \<open>The first finding that says something, with its place.\<close>

definition first_objection :: "json list \<Rightarrow> string" where
  "first_objection findings =
     (case List.map_filter (\<lambda>f. case f of
             JsObj d \<Rightarrow> if js_truthy (js_get d ''detail'') \<or> js_truthy (js_get d ''rule'') then Some d else None
           | _ \<Rightarrow> None) findings of
        [] \<Rightarrow> []
      | d # _ \<Rightarrow>
          let place = py_join '':'' (map (\<lambda>k. json_str (js_get d k))
                (filter (\<lambda>k. js_truthy (js_get d k)) [''file'', ''line'']));
              detail = py_strip (if js_truthy (js_get d ''detail'') then json_str (js_get d ''detail'')
                else json_str (js_get d ''rule''))
          in if detail = [] then []
             else '' First objection'' @ (if place \<noteq> [] then '' ('' @ place @ '')'' else []) @ '': '' @ take 300 detail)"

definition spawned_ids :: "verdict_dict \<Rightarrow> string list" where
  "spawned_ids v =
     map (\<lambda>s. case s of JsObj d \<Rightarrow> (if map_of d ''work_order_id'' = None then [] else json_str (js_get d ''work_order_id''))
        | _ \<Rightarrow> []) (sub_list v ''spawned_work_orders'')"

definition rerun_verify :: "string \<Rightarrow> string" where
  "rerun_verify w = ''ds work-order verify '' @ w"

definition failed_review :: "score_ops \<Rightarrow> string \<Rightarrow> verdict_dict \<Rightarrow> string" where
  "failed_review so w v =
     (if js_truthy (js_get v ''unreviewable'') then
        ''independent_review: unreviewable -- '' @ text_or v ''unreviewable_reason''
          (''no commit evidence found; review manually or ensure commits carry the WO id / Work-Order: trailer'')
      else
        let (summary, reasons) = verdict_evidence so v; ids = spawned_ids v; scores = so_line so v in
        if summary = [] \<and> reasons = [] then
          ''independent_review: UNREVIEWABLE -- the stored verdict says passed=False but carries no summary and'' @
          '' no failure reasons, which is an incomplete record rather than a review that failed (a verify killed'' @
          '' mid-write leaves exactly this). Re-run: '' @ rerun_verify w
        else
          ''independent_review: review failed'' @ (if scores \<noteq> [] then '' ['' @ scores @ '']'' else []) @ '' -- '' @
          (if summary \<noteq> [] then summary else ''no summary'') @ ''.'' @ first_objection reasons @
          (if ids \<noteq> [] then '' Gap WOs: '' @ py_join '', '' ids else []) @ verdict_execution_note v)"

text \<open>The gate on a verdict that is present, enveloped and not stale. A JSON text that is not an object, on which
  the code raises, fails the gate here.\<close>

definition judge_verdict :: "score_ops \<Rightarrow> string \<Rightarrow> string \<Rightarrow> string option" where
  "judge_verdict so w raw =
     (case json_loads raw of
        None \<Rightarrow> Some (''independent_review: review-verdict.json is not valid JSON: '' @ so_json_error so raw)
      | Some (JsObj v) \<Rightarrow>
          if \<not> verdict_is_operator_attested v \<and> \<not> js_truthy (js_get (sub_object v ''round_table'') ''seats'')
          then Some (''independent_review: the review convened no lane -- '' @
            text_or (sub_object v ''round_table'') ''unavailable''
              (''the verdict carries no round-table section at all, so it predates the table or was produced by'' @
               '' something that does not convene it'') @
            ''. A verdict with no lens is a score with no provenance. Re-run: '' @ rerun_verify w)
          else if js_truthy (js_get v ''passed'') then None
          else Some (failed_review so w v)
      | Some _ \<Rightarrow> Some ''independent_review: the verdict is not an object'')"

section \<open>Facts\<close>

text \<open>What a verdict must say to pass.\<close>

definition passing_verdict :: "string \<Rightarrow> bool" where
  "passing_verdict raw \<longleftrightarrow>
     (\<exists>v. json_loads raw = Some (JsObj v) \<and> js_truthy (js_get v ''passed'') \<and>
        (js_get v ''certification_basis'' = JsStr ''operator_attested'' \<or>
         js_truthy (js_get (sub_object v ''round_table'') ''seats'')))"

lemma judge_verdict_None: "judge_verdict so w raw = None \<longleftrightarrow> passing_verdict raw"
  by (cases "json_loads raw")
    (auto simp: judge_verdict_def passing_verdict_def verdict_is_operator_attested_def split: json.split)

lemma judge_verdict_prefix: "judge_verdict so w raw = Some f \<Longrightarrow> py_startswith f ''independent_review''"
  by (auto simp: judge_verdict_def failed_review_def py_startswith_def Let_def case_prod_beta
      split: option.splits json.splits if_splits)

end
