(* ===== verification/Close_Gates.thy ===== *)
theory Close_Gates
  imports Review_Verdict
begin

text \<open>
  The close gates of a work order (\<^verbatim>\<open>core/work_orders/close_gates.py\<close>), in both modes: run, where checks are
  executed and git is asked, and preview, where whatever would have to be executed is reported as not run. A gate
  answers with its failure, if any, and with what it did not evaluate; only in a preview can that be anything.

  The environment holds what the gates read outside the authority: git, the executor of the project's checks
  and the one of the process's own directory, the files under \<open>.planning\<close>, the design briefs, the recorded
  delivery point and the text of a failed check. The artifact table is passed beside the authority.
\<close>

record close_env =
  ce_git :: git
  ce_exec :: executor
  ce_here :: executor
  ce_file :: "string \<Rightarrow> string option"
  ce_briefs :: "brief_row list"
  ce_reviewed :: "string option"
  ce_types :: type_registry
  ce_boundary :: "string option option"
  ce_detail :: "check \<Rightarrow> string"
  ce_scores :: score_ops

record gate_mode =
  gm_run :: bool
  gm_disk :: bool

definition executing :: gate_mode where
  "executing = \<lparr>gm_run = True, gm_disk = True\<rparr>"

type_synonym gate_answer = "string option \<times> string list"

text \<open>What the gates of one work order read.\<close>

record gate_view =
  gv_au :: authority
  gv_arts :: artifact_table
  gv_wo :: string
  gv_project :: string

section \<open>Provenance\<close>

definition PROVENANCE_CUTOVER :: string where
  "PROVENANCE_CUTOVER = ''2026-08-19''"

definition envelope_absence_is_legacy :: "string option \<Rightarrow> bool" where
  "envelope_absence_is_legacy created = is_grandfathered created PROVENANCE_CUTOVER"

definition envelope_required :: "gate_view \<Rightarrow> envelope_dict option \<Rightarrow> string \<Rightarrow> string \<Rightarrow> string option" where
  "envelope_required gv e artifact remedy =
     (if e \<noteq> None \<and> e \<noteq> Some [] then None
      else if envelope_absence_is_legacy (wo_created_on (gv_au gv) (gv_wo gv)) then None
      else Some (artifact @ '' lacks a provenance envelope. This work order postdates the provenance cutover ('' @
        PROVENANCE_CUTOVER @ ''), so its artifact should carry one -- an envelope-less artifact is hand-written or'' @
        '' half-written. '' @ remedy))"

text \<open>The recorded commit is a string or null, as \<open>wrap\<close> writes it.\<close>

definition recorded_commit :: "envelope_dict option \<Rightarrow> string option" where
  "recorded_commit e =
     (case e of None \<Rightarrow> None
      | Some d \<Rightarrow> (case js_get d ''head_commit_sha'' of JsStr s \<Rightarrow> if s = [] then None else Some s | _ \<Rightarrow> None))"

definition provenance_staleness :: "close_env \<Rightarrow> gate_mode \<Rightarrow> gate_view \<Rightarrow> envelope_dict option \<Rightarrow> gate_answer" where
  "provenance_staleness env m gv e =
     (case recorded_commit e of
        None \<Rightarrow> (None, [])
      | Some sha \<Rightarrow>
          if \<not> gm_run m then
            (None, [''provenance staleness not checked: comparing the artifact'' @ [CHR 0x27] @ ''s recorded commit ('' @
              take 12 sha @ '') with the repository needs `git log`, which a non-executing preview does not start''])
          else (case wo_commits_after (ce_git env) sha (ex_root (ce_exec env)) (gv_wo gv)
                  (case wo_of (gv_wo gv) (gv_au gv) of None \<Rightarrow> None | Some r \<Rightarrow> wo_title r) of
             Some (h # hs) \<Rightarrow>
               (Some (py_num (Suc (length hs)) @ '' work-order commit(s) landed after it was produced (at '' @ take 12 sha @
                 ''; newest '' @ take 12 h @ '')''), [])
           | _ \<Rightarrow> (None, [])))"

section \<open>Artifacts\<close>

definition artifact_with_envelope :: "close_env \<Rightarrow> gate_view \<Rightarrow> string \<Rightarrow> string option \<times> envelope_dict option" where
  "artifact_with_envelope env gv kind =
     (case get_wo_artifact_envelope (gv_wo gv, kind, []) (gv_arts gv) of
        (Some c, e) \<Rightarrow> (Some c, e)
      | (None, e) \<Rightarrow>
          (case map_of KIND_TO_FILENAME kind of
             None \<Rightarrow> (None, None)
           | Some f \<Rightarrow> unwrap (ce_file env f)))"

definition absent_and_unreadable :: "gate_mode \<Rightarrow> gate_view \<Rightarrow> string \<Rightarrow> string \<Rightarrow> string list" where
  "absent_and_unreadable m gv kind gate =
     (if gm_disk m \<or> get_wo_artifact (gv_wo gv, kind, []) (gv_arts gv) \<noteq> None then []
      else [gate @ '': not evaluated -- no '' @ kind @ '' artifact in the authority, and its on-disk copy under .planning'' @
        '' cannot be located: this process has no project directory to read it from''])"

definition disk_not_run :: "string \<Rightarrow> string \<Rightarrow> gate_answer" where
  "disk_not_run gate what =
     (None, [gate @ '': not evaluated -- it reads '' @ what @ '' from the project'' @ [CHR 0x27] @ ''s .planning directory,'' @
        '' and this process has no project directory to read it from''])"

text \<open>A failure ends a gate; otherwise the next step decides, and the notes add up.\<close>

definition then_gate :: "gate_answer \<Rightarrow> gate_answer \<Rightarrow> gate_answer" where
  "then_gate a b = (case a of (Some f, ns) \<Rightarrow> (Some f, ns) | (None, ns) \<Rightarrow> (fst b, ns @ snd b))"

definition checked :: "string \<Rightarrow> string option \<Rightarrow> gate_answer" where
  "checked gate failure = (map_option (\<lambda>f. gate @ '': '' @ f) failure, [])"

section \<open>The gates\<close>

definition gate_design_brief_locked :: "close_env \<Rightarrow> gate_view \<Rightarrow> gate_answer" where
  "gate_design_brief_locked env gv =
     (if locked_briefs (ce_briefs env) (gv_project gv) = []
      then (Some ''design_brief_locked: no locked design brief found for this project'', [])
      else checked ''design_brief_locked''
        (currency_failure (ce_types env) (ce_briefs env) (ce_reviewed env) (work_orders (au_db (gv_au gv))) (gv_project gv)))"

definition stale_gate :: "string \<Rightarrow> string \<Rightarrow> string \<Rightarrow> gate_answer \<Rightarrow> gate_answer" where
  "stale_gate gate what remedy a =
     (case a of (failure, ns) \<Rightarrow> (map_option (\<lambda>st. gate @ '': '' @ what @ '' is stale -- '' @ st @ ''. '' @ remedy) failure, ns))"

definition gate_api_contract_exists :: "close_env \<Rightarrow> gate_mode \<Rightarrow> gate_view \<Rightarrow> gate_answer" where
  "gate_api_contract_exists env m gv =
     (let gate = ''api_contract_exists''; absent = absent_and_unreadable m gv ''api_contract'' gate in
      if absent \<noteq> [] then (None, absent)
      else
        let (contract, e) = artifact_with_envelope env gv ''api_contract'' in
        then_gate
          (checked gate (if contract = None then None else envelope_required gv e ''api-contract.md''
             ''Regenerate the contract and store it via set_wo_artifact.''))
          (then_gate
             (stale_gate gate ''api-contract.md'' ''Regenerate the contract and re-store the artifact.''
                (provenance_staleness env m gv e))
             (checked gate (evaluate_api_contract contract (wo_created_on (gv_au gv) (gv_wo gv))))))"

definition gate_api_contract_and_security_review :: "close_env \<Rightarrow> gate_mode \<Rightarrow> gate_view \<Rightarrow> gate_answer" where
  "gate_api_contract_and_security_review env m gv =
     (let gate = ''api_contract_and_security_review''; absent = absent_and_unreadable m gv ''api_contract'' gate in
      if absent \<noteq> [] then (None, absent)
      else then_gate
        (checked gate (evaluate_api_contract (fst (artifact_with_envelope env gv ''api_contract''))
           (wo_created_on (gv_au gv) (gv_wo gv))))
        (let absent2 = absent_and_unreadable m gv ''security_scan'' gate in
         if absent2 \<noteq> [] then (None, absent2)
         else checked gate (if fst (artifact_with_envelope env gv ''security_scan'') = None
           then Some ''security-scan.md not found'' else None)))"

definition gate_file_exists :: "close_env \<Rightarrow> gate_mode \<Rightarrow> string \<Rightarrow> string \<Rightarrow> gate_answer" where
  "gate_file_exists env m gate fname =
     (if \<not> gm_disk m then disk_not_run gate fname
      else checked gate (if ce_file env fname = None then Some (fname @ '' not found'') else None))"

text \<open>The tasks of a work order in the order of their creation, as the checks read them.\<close>

definition read_wo_tasks :: "gate_view \<Rightarrow> wo_task list" where
  "read_wo_tasks gv =
     map (\<lambda>(k, t). \<lparr>wt_id = k, wt_title = t_title t, wt_status = t_status t, wt_criteria = text_or_empty (t_acceptance_criteria t)\<rparr>)
       (sort_key (\<lambda>(k, t). t_created_at t) (filter (\<lambda>(k, t). t_work_order_id t = gv_wo gv) (tasks (au_db (gv_au gv)))))"

definition delivered_state_hint :: "close_env \<Rightarrow> string" where
  "delivered_state_hint env =
     (case ce_boundary env of
        None \<Rightarrow> '' No delivery boundary was recorded for this work order, so the gate cannot tell which commit its'' @
          '' checks were meant to run against.''
      | Some None \<Rightarrow> []
      | Some (Some start) \<Rightarrow>
          if start = [] then []
          else (case ce_git env [''git'', ''rev-parse'', ''HEAD''] of
             None \<Rightarrow> []
           | Some (code, out) \<Rightarrow>
               let head = py_strip out in
               if head = [] \<or> head = start then []
               else '' This work order began at '' @ take 8 start @ ''; this checkout is at '' @ take 8 head @
                 ''. The gate does not switch commits for you (that could discard uncommitted work) -- run the checks'' @
                 '' where the work landed.''))"

abbreviation passed_check :: "check \<Rightarrow> bool" where
  "passed_check c \<equiv> ck_passed c = Some True"

definition test_checks :: "check_results \<Rightarrow> check list" where
  "test_checks res = filter (\<lambda>c. ck_kind c = ''TEST-CHECK'') (checks_of res)"

definition gate_all_tests_pass :: "close_env \<Rightarrow> gate_mode \<Rightarrow> gate_view \<Rightarrow> gate_answer" where
  "gate_all_tests_pass env m gv =
     (let ts = read_wo_tasks gv;
          tests = test_checks (if gm_run m then run_executable_checks (ce_exec env) ts else preview_executable_checks ts);
          failed = filter (\<lambda>c. \<not> passed_check c) tests;
          unaddressed = filter ck_unaddressed failed
      in
      if tests = [] then
        (Some (''all_tests_pass: UNVERIFIED -- no TEST-CHECK acceptance criteria are registered across this WO'' @ [CHR 0x27] @
          ''s tasks (or no db context to execute them). Register a TEST-CHECK AC (bare pytest node-id or '' @ [CHR 0x27] @
          ''cmd: ...'' @ [CHR 0x27] @ '') on a task, or attest a design-only WO via: ds work-order attest. The'' @
          '' test-results.md string fallback is retired.''), [])
      else if \<not> gm_run m then
        (None, [''all_tests_pass: '' @ py_num (length tests) @ '' TEST-CHECK(s) registered and not run -- running them starts a'' @
          '' subprocess, which a non-executing preview does not do, so this gate has no verdict''])
      else if unaddressed \<noteq> [] \<and> length unaddressed = length failed then
        (Some (''all_tests_pass: UNVERIFIED -- '' @ py_num (length unaddressed) @ '' TEST-CHECK(s) could not be RUN (target not'' @
          '' found), none actually failed. This is not a verdict about the work: verify from the branch/commit where it'' @
          '' landed, or repoint the criterion -- '' @
          py_join ''; '' (map (\<lambda>c. py_repr (ck_expr c) @ '': '' @ ce_detail env c) (take 3 unaddressed)) @
          delivered_state_hint env), [])
      else if failed \<noteq> [] then
        (Some (''all_tests_pass: '' @ py_num (length failed) @ '' TEST-CHECK(s) failed'' @
          (if unaddressed \<noteq> [] then '' ('' @ py_num (length unaddressed) @ '' of these could not be run at all --'' @
             '' misaddressed rather than failing)'' else []) @ '' -- '' @
          py_join ''; '' (map (ce_detail env) (take 3 failed))), [])
      else (None, []))"

text \<open>\<open>Score:\\s*(\\d+)/(\\d+)\<close>\<close>

definition SCORE_RE :: regex where
  "SCORE_RE = SeqOf [Lit ''Score:'', Star (Cls py_isspace), Grp 1 (Plus (Cls ascii_digit)), Lit ''/'',
     Grp 2 (Plus (Cls ascii_digit))]"

definition critique_failure :: "string option \<Rightarrow> string option" where
  "critique_failure content =
     (case content of
        None \<Rightarrow> Some ''design-critique.md is empty''
      | Some t \<Rightarrow>
          (case Option.bind (re_search SCORE_RE t) (\<lambda>r. group_of r 1) of
             None \<Rightarrow> Some (''no '' @ [CHR 0x27] @ ''Score: N/M'' @ [CHR 0x27] @ '' found in design-critique.md'')
           | Some ds \<Rightarrow>
               if digits_value ds < 3 then Some (''score '' @ int_text (digits_value ds) @ '' is below minimum 3'') else None))"

definition gate_design_critique :: "close_env \<Rightarrow> gate_mode \<Rightarrow> gate_view \<Rightarrow> gate_answer" where
  "gate_design_critique env m gv =
     (let gate = ''design_critique'' in
      if \<not> gm_disk m then disk_not_run gate ''design-critique.md''
      else (case ce_file env ''design-critique.md'' of
         None \<Rightarrow> checked gate (Some ''design-critique.md not found'')
       | Some stored \<Rightarrow>
           let (content, e) = unwrap (Some stored) in
           then_gate
             (checked gate (envelope_required gv e ''design-critique.md''
                ''Re-run website:critique and store the result via set_wo_artifact.''))
             (then_gate
                (stale_gate gate ''design-critique.md'' ''Re-run website:critique and re-store the artifact.''
                   (provenance_staleness env m gv e))
                (checked gate (critique_failure content)))))"

definition gate_security_scan :: "close_env \<Rightarrow> gate_mode \<Rightarrow> gate_view \<Rightarrow> gate_answer" where
  "gate_security_scan env m gv =
     (let gate = ''security_scan''; absent = absent_and_unreadable m gv ''security_scan'' gate in
      if absent \<noteq> [] then (None, absent)
      else
        let (content, e) = artifact_with_envelope env gv ''security_scan'' in
        if content = None then checked gate (Some ''security-scan.md not found'')
        else then_gate
          (checked gate (envelope_required gv e ''security-scan.md''
             ''Re-run the security audit and store the result via set_wo_artifact.''))
          (then_gate
             (stale_gate gate ''security-scan.md'' ''Re-run the security audit and re-store the artifact.''
                (provenance_staleness env m gv e))
             (checked gate (if is_security_blocked content then Some ''security-scan.md reports a BLOCKED finding'' else None))))"

definition gate_anti_slop_passed :: "close_env \<Rightarrow> gate_mode \<Rightarrow> gate_view \<Rightarrow> gate_answer" where
  "gate_anti_slop_passed env m gv =
     (let gate = ''anti_slop_passed'' in
      if \<not> gm_disk m then disk_not_run gate ''lint-results.md''
      else checked gate (case ce_file env ''lint-results.md'' of
         None \<Rightarrow> Some (''lint-results.md not found. Run: python canonical/skills/website/scripts/lint-artifact.py'' @
           '' <artifact_path> > .planning/work-orders/'' @ gv_wo gv @ ''/lint-results.md'')
       | Some t \<Rightarrow>
           if py_in ''BLOCKED'' (py_upper t) then Some ''lint-results.md contains BLOCKED''
           else if \<not> py_in ''PASSED'' (py_upper t) then Some ''lint-results.md does not contain PASSED''
           else None))"

text \<open>\<open>VERDICT\\s*:\\s*PASS\<close>, ignoring case.\<close>

definition PASS_RE :: regex where
  "PASS_RE = SeqOf [LitNocase ''VERDICT'', Star (Cls py_isspace), Lit '':'', Star (Cls py_isspace), LitNocase ''PASS'']"

definition without_chars :: "string \<Rightarrow> string \<Rightarrow> string" where
  "without_chars cs s = filter (\<lambda>c. c \<notin> set cs) s"

definition gate_independent_review_passed :: "close_env \<Rightarrow> gate_mode \<Rightarrow> gate_view \<Rightarrow> gate_answer" where
  "gate_independent_review_passed env m gv =
     (let gate = ''independent_review_passed'' in
      if \<not> gm_disk m then disk_not_run gate ''independent-review.md''
      else checked gate (case ce_file env ''independent-review.md'' of
         None \<Rightarrow> Some (''independent-review.md not found. The execute-work-orders workflow writes this via the'' @
           '' independent-review node.'')
       | Some t \<Rightarrow>
           if \<not> py_in ''VERDICT: PASS'' (without_chars [CHR 0x0A] (without_chars '' '' (py_upper t))) \<and> re_search PASS_RE t = None
           then Some (''independent-review.md does not contain '' @ [CHR 0x27] @ ''VERDICT: PASS'' @ [CHR 0x27])
           else None))"

definition gate_independent_review :: "close_env \<Rightarrow> gate_mode \<Rightarrow> gate_view \<Rightarrow> gate_answer" where
  "gate_independent_review env m gv =
     (let gate = ''independent_review''; w = gv_wo gv; absent = absent_and_unreadable m gv ''review_verdict'' gate in
      if absent \<noteq> [] then (None, absent)
      else (case artifact_with_envelope env gv ''review_verdict'' of
         (None, e) \<Rightarrow> checked gate (Some (''review-verdict.json not found. Run: '' @ rerun_verify w))
       | (Some raw, e) \<Rightarrow>
           if e = None \<or> \<not> js_truthy (js_get (the e) ''generator'')
           then checked gate (Some (''verdict lacks a provenance envelope (hand-written or pre-provenance) -- re-run: '' @
             rerun_verify w))
           else then_gate
             (stale_gate gate ''verdict'' (''Re-run: '' @ rerun_verify w) (provenance_staleness env m gv e))
             (judge_verdict (ce_scores env) w raw, [])))"

definition KNOWN_GATES :: "string list" where
  "KNOWN_GATES = [''all_tests_pass'', ''anti_slop_passed'', ''api_contract_and_security_review'', ''api_contract_exists'',
     ''design_brief_locked'', ''design_critique'', ''game_validate'', ''independent_review'', ''independent_review_passed'',
     ''security_scan'', ''spec_approved'']"

definition run_gate_check :: "close_env \<Rightarrow> gate_mode \<Rightarrow> gate_view \<Rightarrow> string \<Rightarrow> gate_answer" where
  "run_gate_check env m gv gate =
     (if gate = [] then (None, [])
      else if gate = ''design_brief_locked'' then gate_design_brief_locked env gv
      else if gate = ''api_contract_exists'' then gate_api_contract_exists env m gv
      else if gate = ''api_contract_and_security_review'' then gate_api_contract_and_security_review env m gv
      else if gate = ''spec_approved'' then gate_file_exists env m gate ''spec.md''
      else if gate = ''all_tests_pass'' then gate_all_tests_pass env m gv
      else if gate = ''design_critique'' then gate_design_critique env m gv
      else if gate = ''security_scan'' then gate_security_scan env m gv
      else if gate = ''game_validate'' then gate_file_exists env m gate ''game-validate.md''
      else if gate = ''anti_slop_passed'' then gate_anti_slop_passed env m gv
      else if gate = ''independent_review_passed'' then gate_independent_review_passed env m gv
      else if gate = ''independent_review'' then gate_independent_review env m gv
      else (Some (gate @ '': unrecognised gate -- close_gates.run_gate_check has no check by that name, so it cannot be'' @
        '' evaluated. Known gates: '' @ py_join '', '' KNOWN_GATES @ ''. Correct the name on the work order type, implement'' @
        '' the gate, or close with --force (which is recorded as a bypass).''), []))"

end
