(* ===== verification/Close_Checks.thy ===== *)
theory Close_Checks
  imports Close_Gates
begin

text \<open>
  The close gates that do not depend on the type of a work order (\<^verbatim>\<open>core/work_orders/close_gates.py\<close>): the executable
  acceptance criteria, the originating symptom of a defect and the completeness of the tasks, with the tasks
  carried to another work order (\<^verbatim>\<open>carry_over.py\<close>); the evaluation of all gates, and its preview
  (\<^verbatim>\<open>core/work_orders/close_main.py\<close>).
\<close>

section \<open>Carried tasks\<close>

definition carry_key :: "string \<Rightarrow> artifact_key" where
  "carry_key w = (w, ''report'', ''carry_over'')"

definition carried_task_ids :: "artifact_table \<Rightarrow> string \<Rightarrow> string list" where
  "carried_task_ids arts w =
     (case get_wo_artifact (carry_key w) arts of
        None \<Rightarrow> []
      | Some raw \<Rightarrow>
          (case json_loads raw of
             Some (JsObj payload) \<Rightarrow>
               List.map_filter (\<lambda>entry. case entry of
                   JsObj e \<Rightarrow> (case js_get e ''from_task_id'' of JsStr k \<Rightarrow> if k = [] then None else Some k | _ \<Rightarrow> None)
                 | _ \<Rightarrow> None) (sub_list payload ''moved'')
           | _ \<Rightarrow> []))"

section \<open>Acceptance criteria\<close>

definition operator_attested :: "gate_view \<Rightarrow> bool" where
  "operator_attested gv =
     (case get_wo_artifact (gv_wo gv, ''review_verdict'', []) (gv_arts gv) of
        None \<Rightarrow> False
      | Some raw \<Rightarrow> (case json_loads raw of Some (JsObj v) \<Rightarrow> verdict_is_operator_attested v | _ \<Rightarrow> False))"

definition uncarried_tasks :: "gate_view \<Rightarrow> wo_task list" where
  "uncarried_tasks gv =
     filter (\<lambda>t. wt_id t \<notin> set (carried_task_ids (gv_arts gv) (gv_wo gv))) (read_wo_tasks gv)"

definition ac_checks :: "close_env \<Rightarrow> gate_mode \<Rightarrow> gate_view \<Rightarrow> check list" where
  "ac_checks env m gv =
     checks_of (if gm_run m then run_executable_checks (ce_exec env) (uncarried_tasks gv)
                else preview_executable_checks (uncarried_tasks gv))"

definition ac_not_run :: "check list \<Rightarrow> string" where
  "ac_not_run unrun =
     (let kinds = sort (remdups (map ck_kind unrun));
          counts = py_join '', '' (map (\<lambda>k. py_num (length (filter (\<lambda>c. ck_kind c = k) unrun)) @ '' '' @ k) kinds)
      in ''executable_ac: '' @ counts @ '' not run -- a non-executing preview starts no subprocess, sends no request and'' @
         '' evaluates no authored query ('' @ py_join ''; '' (map (\<lambda>c. py_repr (ck_expr c)) (take 3 unrun)) @
         (if 3 < length unrun then ''; ...and '' @ py_num (length unrun - 3) @ '' more'' else []) @ '')'')"

definition NO_CHECKS :: string where
  "NO_CHECKS = ''executable_ac: no executable checks (SQL-CHECK / TEST-CHECK / API-CHECK) found across all tasks --'' @
     '' at least one is required to close without force=True (or attest the WO if its deliverable is operator-local'' @
     '' and has no code to check)''"

definition run_ac_gate :: "close_env \<Rightarrow> gate_mode \<Rightarrow> gate_view \<Rightarrow> string list \<times> string list" where
  "run_ac_gate env m gv =
     (let checks = ac_checks env m gv;
          unrun = filter ck_not_run checks;
          failed = filter (\<lambda>c. \<not> passed_check c \<and> \<not> ck_not_run c) checks
      in
      if checks = [] then ((if operator_attested gv then [] else [NO_CHECKS]), [])
      else
        (map (\<lambda>c. ''executable_ac: '' @ ck_kind c @ '' '' @ py_repr (ck_expr c) @ '' FAILED -- '' @ ce_detail env c) (take 5 failed) @
         (if 5 < length failed then [''executable_ac: ...and '' @ py_num (length failed - 5) @ '' more failed check(s)''] else []),
         (if unrun \<noteq> [] \<and> \<not> gm_run m then [ac_not_run unrun] else [])))"

section \<open>The originating symptom\<close>

text \<open>\<open>^([A-Z][A-Z0-9_]*)-CHECK:\\s*(.*)$\<close> on a stripped line: the kind and the expression.\<close>

definition symptom_kind_char :: "char \<Rightarrow> bool" where
  "symptom_kind_char c = (let n = (of_char c :: nat) in (65 \<le> n \<and> n \<le> 90) \<or> ascii_digit c \<or> c = CHR ''_'')"

definition symptom_line :: "string \<Rightarrow> (string \<times> string) option" where
  "symptom_line raw_line =
     (let l = py_strip raw_line; kind = takeWhile symptom_kind_char l; r = dropWhile symptom_kind_char l in
      if kind = [] \<or> \<not> (65 \<le> (of_char (hd kind) :: nat) \<and> (of_char (hd kind) :: nat) \<le> 90) \<or>
         \<not> py_startswith r ''-CHECK:'' then None
      else Some (kind, py_strip (drop 7 r)))"

definition SYMPTOM_KINDS :: "string list" where
  "SYMPTOM_KINDS = [''SQL'', ''TEST'']"

definition symptom_failure :: "close_env \<Rightarrow> executor \<Rightarrow> string \<times> string \<Rightarrow> string option" where
  "symptom_failure env ex line =
     (let (kind, expr) = line in
      if kind \<notin> set SYMPTOM_KINDS then
        Some (''originating_symptom: unrecognised check kind '' @ py_repr (kind @ ''-CHECK'') @ '' -- this path evaluates'' @
          '' SQL-CHECK, TEST-CHECK. Refused rather than skipped: a token nobody evaluates is a symptom that cannot'' @
          '' reproduce anything.'')
      else if kind = ''TEST'' then
        (let c = run_one_test_check ex expr in
         if passed_check c then None
         else Some (''originating_symptom: TEST-CHECK still failing -- '' @ py_repr expr @ '': '' @ take 200 (ce_detail env c)))
      else
        (case ex_sql ex expr of
           SqlValue True \<Rightarrow> None
         | SqlValue False \<Rightarrow> Some (''originating_symptom: SQL-CHECK still failing -- '' @ py_repr expr)
         | NoRows \<Rightarrow> Some (''originating_symptom: SQL-CHECK still failing -- '' @ py_repr expr @ '' returned None'')
         | SqlRaised e \<Rightarrow> Some (''originating_symptom: SQL-CHECK error -- '' @ e)))"

definition symptom_lines :: "string \<Rightarrow> (string \<times> string) list" where
  "symptom_lines symptom = List.map_filter symptom_line (py_splitlines symptom)"

fun first_failure :: "('a \<Rightarrow> string option) \<Rightarrow> 'a list \<Rightarrow> string option" where
  "first_failure f [] = None"
| "first_failure f (x # xs) = (case f x of Some e \<Rightarrow> Some e | None \<Rightarrow> first_failure f xs)"

text \<open>The close passes no project root, so a TEST-CHECK of a symptom runs in the directory of the process.\<close>

definition check_originating_symptom :: "close_env \<Rightarrow> executor \<Rightarrow> string \<Rightarrow> string option" where
  "check_originating_symptom env ex symptom = first_failure (symptom_failure env ex) (symptom_lines symptom)"

definition symptom_has_executable_check :: "string \<Rightarrow> bool" where
  "symptom_has_executable_check symptom = list_ex (\<lambda>(kind, e). kind \<in> set SYMPTOM_KINDS) (symptom_lines symptom)"

section \<open>Nothing left hanging\<close>

definition settled_task_statuses :: "string list" where
  "settled_task_statuses = [''complete'', ''cancelled'']"

definition hanging_tasks :: "gate_view \<Rightarrow> (string \<times> task_row) list" where
  "hanging_tasks gv =
     filter (\<lambda>(k, t). k \<notin> set (carried_task_ids (gv_arts gv) (gv_wo gv)))
       (sort_key (\<lambda>(k, t). t_created_at t)
         (filter (\<lambda>(k, t). t_work_order_id t = gv_wo gv \<and> t_status t \<notin> set settled_task_statuses)
           (tasks (au_db (gv_au gv)))))"

definition check_tasks_done :: "gate_view \<Rightarrow> string list" where
  "check_tasks_done gv =
     (let ts = hanging_tasks gv in
      if ts = [] then []
      else [''tasks_done: '' @ py_num (length ts) @ '' task(s) not marked done -- '' @
        py_join ''; '' (map (\<lambda>(k, t). py_repr (t_title t) @ '' ['' @ t_status t @ '']'') (take 3 ts)) @
        (if 3 < length ts then ''; ...and '' @ py_num (length ts - 3) @ '' more'' else [])])"

section \<open>All gates of a type\<close>

definition named_gates :: "string option \<Rightarrow> string list" where
  "named_gates raw = (if truthy raw then split_char (CHR ''|'') (the raw) else [])"

definition evaluate_gates :: "close_env \<Rightarrow> gate_view \<Rightarrow> string option \<Rightarrow> string option \<Rightarrow> string list" where
  "evaluate_gates env gv pre_gate post_gate =
     List.map_filter (\<lambda>g. fst (run_gate_check env executing gv g)) (named_gates pre_gate @ named_gates post_gate)"

datatype gate_status = GatePass | GateFail | GateNotRun

record outcome_record =
  oc_gate :: string
  oc_status :: gate_status
  oc_failures :: "string list"
  oc_not_run :: "string list"

definition gate_outcome :: "string \<Rightarrow> string list \<Rightarrow> string list \<Rightarrow> outcome_record" where
  "gate_outcome gate failures not_run =
     \<lparr>oc_gate = gate, oc_status = (if failures \<noteq> [] then GateFail else if not_run \<noteq> [] then GateNotRun else GatePass),
      oc_failures = failures, oc_not_run = not_run\<rparr>"

definition preview_mode :: "bool \<Rightarrow> gate_mode" where
  "preview_mode disk = \<lparr>gm_run = False, gm_disk = disk\<rparr>"

definition preview_gates :: "close_env \<Rightarrow> bool \<Rightarrow> gate_view \<Rightarrow> string option \<Rightarrow> string option \<Rightarrow> outcome_record list" where
  "preview_gates env disk gv pre_gate post_gate =
     map (\<lambda>g. case run_gate_check env (preview_mode disk) gv g of
             (failure, notes) \<Rightarrow> gate_outcome g (opt_list failure) notes)
       (filter (\<lambda>g. g \<noteq> []) (named_gates pre_gate @ named_gates post_gate))"

definition preview_ac_gate :: "close_env \<Rightarrow> gate_view \<Rightarrow> outcome_record" where
  "preview_ac_gate env gv =
     (case run_ac_gate env (preview_mode True) gv of (failures, notes) \<Rightarrow> gate_outcome ''executable_ac'' failures notes)"

text \<open>The phase refusal of closing, as a list.\<close>

definition phase_failures :: "gate_view \<Rightarrow> string list" where
  "phase_failures gv =
     opt_list (transition_refusal (gv_wo gv) (map_option wo_status (wo_of (gv_wo gv) (gv_au gv))) ''closed'')"

text \<open>\<open>check_close_gates\<close> with and without running the checks, on a work order that exists.\<close>

definition check_close_gates :: "close_env \<Rightarrow> gate_view \<Rightarrow> string option \<Rightarrow> string option \<Rightarrow> string list" where
  "check_close_gates env gv pre_gate post_gate =
     evaluate_gates env gv pre_gate post_gate @ fst (run_ac_gate env executing gv) @
     check_change_impact_affirmed (gv_au gv) (gv_arts gv) (gv_wo gv) @
     structure_failures (gv_au gv) (gv_arts gv) (gv_wo gv) @ phase_failures gv"

definition preview_outcomes ::
    "close_env \<Rightarrow> bool \<Rightarrow> gate_view \<Rightarrow> string option \<Rightarrow> string option \<Rightarrow> outcome_record list" where
  "preview_outcomes env disk gv pre_gate post_gate =
     preview_gates env disk gv pre_gate post_gate @
     [preview_ac_gate env gv,
      gate_outcome ''change_impact_affirmed'' (check_change_impact_affirmed (gv_au gv) (gv_arts gv) (gv_wo gv)) [],
      gate_outcome ''structural_invariants'' (structure_failures (gv_au gv) (gv_arts gv) (gv_wo gv)) [],
      gate_outcome ''phase'' (phase_failures gv) []]"

definition overall_status :: "outcome_record list \<Rightarrow> gate_status" where
  "overall_status os =
     (if concat (map oc_failures (filter (\<lambda>r. oc_status r = GateFail) os)) \<noteq> [] then GateFail
      else if list_ex (\<lambda>r. oc_status r = GateNotRun \<or> oc_not_run r \<noteq> []) os then GateNotRun
      else GatePass)"

definition preview_without_running_checks ::
    "close_env \<Rightarrow> bool \<Rightarrow> gate_view \<Rightarrow> string option \<Rightarrow> string option \<Rightarrow> gate_status" where
  "preview_without_running_checks env disk gv pre_gate post_gate =
     overall_status (preview_outcomes env disk gv pre_gate post_gate)"

end
