(* ===== verification/Close_Preview.thy ===== *)
theory Close_Preview
  imports Close_Checks
begin

text \<open>
  The non-executing preview of a close (\<^verbatim>\<open>core/work_orders/close_main.py\<close>) against the executing evaluation: the contract
  of a gate that has both modes, shown for every gate, and what a preview verdict therefore means.
\<close>

section \<open>The contract of a gate with two modes\<close>

text \<open>A preview failure is a failure of the run; a preview without failure and without anything left out is a pass of
  the run.\<close>

locale previewable =
  fixes g :: "gate_mode \<Rightarrow> 'f list \<times> string list"
  assumes fails: "fst (g (preview_mode d)) \<noteq> [] \<Longrightarrow> fst (g executing) \<noteq> []"
    and passes: "g (preview_mode d) = ([], []) \<Longrightarrow> fst (g executing) = []"
begin

lemma run_passes: "fst (g executing) = [] \<Longrightarrow> fst (g (preview_mode d)) = []"
  using fails by blast

end

text \<open>The same for answers with at most one failure.\<close>

definition listed :: "(gate_mode \<Rightarrow> gate_answer) \<Rightarrow> gate_mode \<Rightarrow> string list \<times> string list" where
  "listed g m = (opt_list (fst (g m)), snd (g m))"

abbreviation previews :: "(gate_mode \<Rightarrow> gate_answer) \<Rightarrow> bool" where
  "previews g \<equiv> previewable (listed g)"

lemma opt_list_eq_Nil [simp]: "opt_list x = [] \<longleftrightarrow> x = None"
  by (simp add: opt_list_def split: option.split)

lemma previews_iff:
  "previews g \<longleftrightarrow>
     (\<forall>d. (fst (g (preview_mode d)) \<noteq> None \<longrightarrow> fst (g executing) \<noteq> None) \<and>
          (g (preview_mode d) = (None, []) \<longrightarrow> fst (g executing) = None))"
  by (auto simp: previewable_def listed_def prod_eq_iff)

lemma modes [simp]: "gm_run executing" "gm_disk executing" "\<not> gm_run (preview_mode d)" "gm_disk (preview_mode d) = d"
  by (simp_all add: executing_def preview_mode_def)

section \<open>Building gates\<close>

lemma previews_const: "previews (\<lambda>m. a)"
  by (simp add: previews_iff)

lemma previews_then:
  assumes "previews a" "previews b"
  shows "previews (\<lambda>m. then_gate (a m) (b m))"
proof -
  have "fst (then_gate (a executing) (b executing)) \<noteq> None" if "fst (then_gate (a (preview_mode d)) (b (preview_mode d))) \<noteq> None" for d
  proof -
    from that have "fst (a (preview_mode d)) \<noteq> None \<or> fst (b (preview_mode d)) \<noteq> None"
      by (auto simp: then_gate_def split: prod.splits option.splits)
    then have "fst (a executing) \<noteq> None \<or> fst (b executing) \<noteq> None"
      using assms by (auto simp: previews_iff)
    then show ?thesis
      by (cases "a executing"; cases "fst (a executing)") (auto simp: then_gate_def)
  qed
  moreover have "fst (then_gate (a executing) (b executing)) = None" if "then_gate (a (preview_mode d)) (b (preview_mode d)) = (None, [])" for d
  proof -
    from that have "a (preview_mode d) = (None, [])" "b (preview_mode d) = (None, [])"
      by (auto simp: then_gate_def prod_eq_iff split: prod.splits option.splits)
    then have "fst (a executing) = None" "fst (b executing) = None"
      using assms by (auto simp: previews_iff)
    then show ?thesis
      by (cases "a executing") (auto simp: then_gate_def)
  qed
  ultimately show ?thesis
    by (simp add: previews_iff)
qed

lemma previews_stale: "previews a \<Longrightarrow> previews (\<lambda>m. stale_gate k w r (a m))"
  by (simp add: previews_iff stale_gate_def case_prod_beta prod_eq_iff)

lemma previews_absent:
  assumes "previews g"
  shows "previews (\<lambda>m. if absent_and_unreadable m gv kind k \<noteq> [] then (None, absent_and_unreadable m gv kind k) else g m)"
  using assms by (simp add: previews_iff absent_and_unreadable_def)

lemma previews_disk:
  "previews g \<Longrightarrow> previews (\<lambda>m. if \<not> gm_disk m then disk_not_run k w else g m)"
  by (simp add: previews_iff disk_not_run_def)

lemma previews_staleness: "previews (\<lambda>m. provenance_staleness env m gv e)"
  by (simp add: previews_iff provenance_staleness_def split: option.split)

lemma previews_if: "(b \<Longrightarrow> previews f) \<Longrightarrow> (\<not> b \<Longrightarrow> previews g) \<Longrightarrow> previews (\<lambda>m. if b then f m else g m)"
  by (cases b) simp_all

lemma previews_option:
  "(x = None \<Longrightarrow> previews f) \<Longrightarrow> (\<And>y. x = Some y \<Longrightarrow> previews (g y)) \<Longrightarrow> previews (\<lambda>m. case x of None \<Rightarrow> f m | Some y \<Rightarrow> g y m)"
  by (cases x) simp_all

lemma previews_pair: "(\<And>a b. p = (a, b) \<Longrightarrow> previews (g a b)) \<Longrightarrow> previews (\<lambda>m. case p of (a, b) \<Rightarrow> g a b m)"
  by (cases p) simp_all

lemmas previews_intros = previews_const previews_then previews_stale previews_absent previews_disk previews_staleness
  previews_if previews_option previews_pair

section \<open>Every gate\<close>

text \<open>Run and preview look at the same lines.\<close>

lemma checks_modes:
  "\<exists>ls. checks_of (run_executable_checks ex ts) = map (run_check ex) ls \<and> checks_of (preview_executable_checks ts) = map preview_check ls"
proof -
  let ?key = "\<lambda>c. (ck_kind c, ck_expr c)"
  have "map (\<lambda>(k, cs). (k, map ?key cs)) (collect_checks (run_check ex) ts) =
      map (\<lambda>(k, cs). (k, map ?key cs)) (collect_checks preview_check ts)"
    by (rule collect_checks_shape) simp
  then have "concat (map snd (map (\<lambda>(k, cs). (k, map ?key cs)) (collect_checks (run_check ex) ts))) =
      concat (map snd (map (\<lambda>(k, cs). (k, map ?key cs)) (collect_checks preview_check ts)))"
    by simp
  then have keys: "map ?key (checks_of (run_executable_checks ex ts)) = map ?key (checks_of (preview_executable_checks ts))"
    by (simp add: run_executable_checks_def preview_executable_checks_def map_concat case_prod_beta comp_def)
  have run: "map (run_check ex) (map ?key (checks_of (run_executable_checks ex ts))) = checks_of (run_executable_checks ex ts)"
    unfolding map_map comp_def by (rule map_idI) (rule recorded_check [symmetric])
  have "preview_check (?key c) = c" if "c \<in> set (checks_of (preview_executable_checks ts))" for c
    using collect_checks_sub [OF that [unfolded preview_executable_checks_def]] by auto
  then have "map preview_check (map ?key (checks_of (preview_executable_checks ts))) = checks_of (preview_executable_checks ts)"
    unfolding map_map comp_def by (rule map_idI)
  with run keys show ?thesis by metis
qed

lemma preview_check_verdict:
  "ck_not_run (preview_check l) \<or> (ck_passed (preview_check l) \<noteq> Some True \<and> ck_passed (run_check ex l) \<noteq> Some True)"
  by (auto simp: preview_check_def run_check_def NOT_RUN_KINDS_def split: prod.split)

lemma previews_all_tests_pass: "previews (\<lambda>m. gate_all_tests_pass env m gv)"
proof -
  obtain ls where ls: "checks_of (run_executable_checks (ce_exec env) (read_wo_tasks gv)) = map (run_check (ce_exec env)) ls"
      "checks_of (preview_executable_checks (read_wo_tasks gv)) = map preview_check ls"
    using checks_modes by blast
  have "test_checks (run_executable_checks (ce_exec env) (read_wo_tasks gv)) = [] \<longleftrightarrow>
      test_checks (preview_executable_checks (read_wo_tasks gv)) = []"
    unfolding test_checks_def ls by (simp add: filter_empty_conv)
  then show ?thesis
    by (simp add: previews_iff gate_all_tests_pass_def Let_def)
qed

text \<open>When the gate on acceptance criteria has no failure, and when it left nothing out.\<close>

lemma ac_gate_failures:
  "fst (run_ac_gate env m gv) = [] \<longleftrightarrow>
     (if ac_checks env m gv = [] then operator_attested gv
      else \<forall>c\<in>set (ac_checks env m gv). passed_check c \<or> ck_not_run c)"
  by (cases "filter (\<lambda>c. \<not> passed_check c \<and> \<not> ck_not_run c) (ac_checks env m gv) = []")
    (auto simp: run_ac_gate_def Let_def filter_empty_conv)

lemma ac_gate_notes:
  "snd (run_ac_gate env m gv) = [] \<longleftrightarrow> gm_run m \<or> (\<forall>c\<in>set (ac_checks env m gv). \<not> ck_not_run c)"
  by (auto simp: run_ac_gate_def Let_def filter_empty_conv ac_not_run_def)

interpretation ac: previewable "\<lambda>m. run_ac_gate env m gv"
proof -
  obtain ls where ls: "checks_of (run_executable_checks (ce_exec env) (uncarried_tasks gv)) = map (run_check (ce_exec env)) ls"
      "checks_of (preview_executable_checks (uncarried_tasks gv)) = map preview_check ls"
    using checks_modes by blast
  have acs: "ac_checks env executing gv = map (run_check (ce_exec env)) ls" "ac_checks env (preview_mode d) gv = map preview_check ls" for d
    by (simp_all add: ac_checks_def ls)
  show "previewable (\<lambda>m. run_ac_gate env m gv)"
  proof
    fix d
    { assume f: "fst (run_ac_gate env (preview_mode d) gv) \<noteq> []"
      then show "fst (run_ac_gate env executing gv) \<noteq> []"
        using preview_check_verdict [of _ "ce_exec env"] by (auto simp: ac_gate_failures acs split: if_splits) }
    { assume "run_ac_gate env (preview_mode d) gv = ([], [])"
      then have p: "fst (run_ac_gate env (preview_mode d) gv) = []" "snd (run_ac_gate env (preview_mode d) gv) = []"
        by simp_all
      have "ls = []"
        using p preview_check_verdict by (cases ls) (auto simp: ac_gate_failures ac_gate_notes acs)
      with p(1) show "fst (run_ac_gate env executing gv) = []"
        by (simp add: ac_gate_failures acs) }
  qed
qed

lemma previews_api_contract: "previews (\<lambda>m. gate_api_contract_exists env m gv)"
  unfolding gate_api_contract_exists_def Let_def by (intro previews_intros)

lemma previews_api_and_security: "previews (\<lambda>m. gate_api_contract_and_security_review env m gv)"
  unfolding gate_api_contract_and_security_review_def Let_def by (intro previews_intros)

lemma previews_security_scan: "previews (\<lambda>m. gate_security_scan env m gv)"
  unfolding gate_security_scan_def Let_def by (intro previews_intros)

lemma previews_independent_review: "previews (\<lambda>m. gate_independent_review env m gv)"
  unfolding gate_independent_review_def Let_def by (intro previews_intros)

lemma previews_design_critique: "previews (\<lambda>m. gate_design_critique env m gv)"
  unfolding gate_design_critique_def Let_def by (intro previews_intros)

interpretation gate: previewable "listed (\<lambda>m. run_gate_check env m gv k)"
  unfolding run_gate_check_def gate_file_exists_def gate_anti_slop_passed_def gate_independent_review_passed_def Let_def
  by (intro previews_intros previews_all_tests_pass previews_api_contract previews_api_and_security previews_security_scan
      previews_independent_review previews_design_critique)

section \<open>The preview of a close\<close>

lemma map_filter_Nil: "List.map_filter f xs = [] \<longleftrightarrow> (\<forall>x\<in>set xs. f x = None)"
  by (induction xs) (auto simp: List.map_filter_simps split: option.split)

text \<open>The gates of the type, with the empty names the preview skips and the run passes.\<close>

lemma evaluate_gates_Nil:
  "evaluate_gates env gv pre post = [] \<longleftrightarrow>
     (\<forall>k\<in>set (named_gates pre @ named_gates post). k \<noteq> [] \<longrightarrow> fst (run_gate_check env executing gv k) = None)"
  by (auto simp: evaluate_gates_def map_filter_Nil run_gate_check_def)

lemma outcome_status:
  "oc_status (gate_outcome k fs ns) = GateFail \<longleftrightarrow> fs \<noteq> []"
  "oc_status (gate_outcome k fs ns) = GateNotRun \<longleftrightarrow> fs = [] \<and> ns \<noteq> []"
  "oc_failures (gate_outcome k fs ns) = fs" "oc_not_run (gate_outcome k fs ns) = ns"
  by (simp_all add: gate_outcome_def)

lemma overall_fail:
  "overall_status os = GateFail \<longleftrightarrow> (\<exists>r\<in>set os. oc_status r = GateFail \<and> oc_failures r \<noteq> [])"
  by (auto simp: overall_status_def)

lemma overall_pass:
  "overall_status os = GatePass \<longleftrightarrow>
     (\<forall>r\<in>set os. \<not> (oc_status r = GateFail \<and> oc_failures r \<noteq> []) \<and> oc_status r \<noteq> GateNotRun \<and> oc_not_run r = [])"
  by (auto simp: overall_status_def list_ex_iff)

lemma preview_gates_set:
  "set (preview_gates env d gv pre post) =
     (\<lambda>k. gate_outcome k (opt_list (fst (run_gate_check env (preview_mode d) gv k))) (snd (run_gate_check env (preview_mode d) gv k))) `
       {k \<in> set (named_gates pre @ named_gates post). k \<noteq> []}"
  by (simp only: preview_gates_def set_map set_filter case_prod_beta)

definition standing_failures :: "gate_view \<Rightarrow> string list" where
  "standing_failures gv = check_change_impact_affirmed (gv_au gv) (gv_arts gv) (gv_wo gv) @
     structure_failures (gv_au gv) (gv_arts gv) (gv_wo gv) @ phase_failures gv"

lemma preview_outcomes_set:
  "set (preview_outcomes env d gv pre post) = set (preview_gates env d gv pre post) \<union>
     {gate_outcome ''executable_ac'' (fst (run_ac_gate env (preview_mode True) gv)) (snd (run_ac_gate env (preview_mode True) gv)),
      gate_outcome ''change_impact_affirmed'' (check_change_impact_affirmed (gv_au gv) (gv_arts gv) (gv_wo gv)) [],
      gate_outcome ''structural_invariants'' (structure_failures (gv_au gv) (gv_arts gv) (gv_wo gv)) [],
      gate_outcome ''phase'' (phase_failures gv) []}"
  by (simp only: preview_outcomes_def preview_ac_gate_def set_append list.set case_prod_beta)

lemma preview_fail:
  "preview_without_running_checks env d gv pre post = GateFail \<longleftrightarrow>
     (\<exists>k\<in>set (named_gates pre @ named_gates post). k \<noteq> [] \<and> fst (run_gate_check env (preview_mode d) gv k) \<noteq> None) \<or>
     fst (run_ac_gate env (preview_mode True) gv) \<noteq> [] \<or> standing_failures gv \<noteq> []"
  unfolding preview_without_running_checks_def overall_fail preview_outcomes_set preview_gates_set
  by (auto simp: outcome_status standing_failures_def bex_Un)

lemma preview_pass:
  "preview_without_running_checks env d gv pre post = GatePass \<longleftrightarrow>
     (\<forall>k\<in>set (named_gates pre @ named_gates post). k \<noteq> [] \<longrightarrow>
        fst (run_gate_check env (preview_mode d) gv k) = None \<and> snd (run_gate_check env (preview_mode d) gv k) = []) \<and>
     fst (run_ac_gate env (preview_mode True) gv) = [] \<and> snd (run_ac_gate env (preview_mode True) gv) = [] \<and>
     standing_failures gv = []"
  unfolding preview_without_running_checks_def overall_pass preview_outcomes_set preview_gates_set
  by (auto simp: outcome_status standing_failures_def ball_Un)

lemma check_close_gates_Nil:
  "check_close_gates env gv pre post = [] \<longleftrightarrow>
     (\<forall>k\<in>set (named_gates pre @ named_gates post). k \<noteq> [] \<longrightarrow> fst (run_gate_check env executing gv k) = None) \<and>
     fst (run_ac_gate env executing gv) = [] \<and> standing_failures gv = []"
  by (simp add: check_close_gates_def evaluate_gates_Nil standing_failures_def)

text \<open>C12: the preview of a close that runs nothing can be believed. When it says pass, the evaluation that runs everything
  finds no failure; when it says fail, that evaluation finds one; and what it could not read is neither. So a verdict of
  the preview is never contradicted by the run, and only a not-run verdict leaves the answer open.\<close>

theorem preview_is_sound:
  "(preview_without_running_checks env d gv pre post = GatePass \<longrightarrow> check_close_gates env gv pre post = []) \<and>
   (preview_without_running_checks env d gv pre post = GateFail \<longrightarrow> check_close_gates env gv pre post \<noteq> [])"
proof (intro conjI impI)
  assume p: "preview_without_running_checks env d gv pre post = GatePass"
  have "fst (run_gate_check env executing gv k) = None"
    if "k \<in> set (named_gates pre @ named_gates post)" "k \<noteq> []" for k
    using p that gate.passes [of env gv k d] by (simp add: preview_pass listed_def)
  moreover have "fst (run_ac_gate env executing gv) = []"
    using p ac.passes [of env True gv] by (simp add: preview_pass prod_eq_iff)
  ultimately show "check_close_gates env gv pre post = []"
    using p by (simp add: preview_pass check_close_gates_Nil)
next
  assume "preview_without_running_checks env d gv pre post = GateFail"
  then show "check_close_gates env gv pre post \<noteq> []"
    unfolding preview_fail check_close_gates_Nil
    using gate.fails [of env gv _ d] ac.fails [of env True gv] by (auto simp: listed_def)
qed

text \<open>A work order with an operator-attested verdict and no tasks: pushed it passes, merely created it fails.\<close>

definition blank_executor :: executor where
  "blank_executor = \<lparr>ex_run = \<lambda>argv. CommandNotFound, ex_sql = \<lambda>q. SqlValue False, ex_api = \<lambda>m p. NoApp,
     ex_target = \<lambda>t. NoTarget, ex_python = ''python'', ex_root = None\<rparr>"

definition blank_env :: close_env where
  "blank_env = \<lparr>ce_git = \<lambda>a. None, ce_exec = blank_executor, ce_here = blank_executor, ce_file = \<lambda>f. None,
     ce_briefs = [], ce_reviewed = None, ce_types = [], ce_boundary = None, ce_detail = \<lambda>c. [],
     ce_scores = \<lparr>so_ranked = \<lambda>v. [], so_line = \<lambda>v. [], so_json_error = \<lambda>s. []\<rparr>\<rparr>"

definition attested_view :: "string \<Rightarrow> gate_view" where
  "attested_view status = \<lparr>gv_au = \<lparr>au_db = (empty_db [])\<lparr>work_orders := [(''w1'', wo_default\<lparr>wo_status := status\<rparr>)]\<rparr>,
       au_deps = [], au_spool = empty_spool\<rparr>,
     gv_arts = [((''w1'', ''review_verdict'', []), \<lparr>ar_content = json_dumps None
       (JsObj [(''passed'', JsBool True), (''certification_basis'', JsStr ''operator_attested'')]),
       ar_created_at = ''t'', ar_updated_at = ''t''\<rparr>)],
     gv_wo = ''w1'', gv_project = []\<rparr>"

lemma preview_is_sound_witness:
  "check_close_gates blank_env (attested_view ''pushed'') None None = [] \<and>
   check_close_gates blank_env (attested_view ''created'') None None \<noteq> []"
proof -
  have "preview_without_running_checks blank_env True (attested_view ''pushed'') None None = GatePass"
    "preview_without_running_checks blank_env True (attested_view ''created'') None None = GateFail"
    by code_simp+
  with preview_is_sound [of blank_env True "attested_view ''pushed''" None None]
    preview_is_sound [of blank_env True "attested_view ''created''" None None] show ?thesis
    by blast
qed

end
