(* ===== verification/Closing.thy ===== *)
theory Closing
  imports Close_Preview Lane_Safety Work_Order_Lifecycle
begin

text \<open>
  Closing a work order (\<^verbatim>\<open>core/work_orders/close_main.py\<close>): which review is convened, the gates in the order they are
  evaluated, the waivers of the independent review, what an escalated work order cannot skip, and the write.

  What the close meets is a record: the outcome of the inline verification, the authority and artifacts the gates
  read after it and after a refresh of a stale verdict, the lane review, the dashboard invariants, the escalation
  level, the default branch and the gates declared per type. The write acts on \<open>window au0\<close>, the authority as other
  processes leave it.
\<close>

section \<open>Waivers\<close>

definition is_review_failure :: "string \<Rightarrow> bool" where
  "is_review_failure f \<longleftrightarrow> py_startswith f ''independent_review''"

definition waive_unreviewable_review :: "string list \<Rightarrow> bool \<Rightarrow> string list \<times> string list" where
  "waive_unreviewable_review failures skip_verify =
     (if \<not> skip_verify \<or> failures = [] then (failures, [])
      else (let waived = filter (\<lambda>f. is_review_failure f \<and> py_in ''unreviewable'' (py_lower f)) failures in
        if waived = [] then (failures, []) else (filter (\<lambda>f. f \<notin> set waived) failures, waived)))"

section \<open>What a close reads\<close>

datatype verify_outcome = VerifyRaised string | VerifyNotOk | Verified bool "string list" bool

type_synonym type_gates = "(string \<times> string option \<times> string option) list"

record close_reads =
  cr_verify :: verify_outcome
  cr_verdict_file :: bool
  cr_authority :: authority
  cr_artifacts :: artifact_table
  cr_refreshed :: "(authority \<times> artifact_table) option"
  cr_review :: lane_store
  cr_dashboard :: "(string \<times> string option) list"
  cr_escalation :: "int option"
  cr_checkout :: bool
  cr_ci_status :: "string option"
  cr_types :: type_gates

record close_flags =
  cf_force :: bool
  cf_skip_verify :: bool

definition work_order_gates :: "type_gates \<Rightarrow> wo_row \<Rightarrow> string option \<times> string option" where
  "work_order_gates types r =
     (if truthy (wo_type r) then (case map_of types (the (wo_type r)) of None \<Rightarrow> (None, None) | Some p \<Rightarrow> p) else (None, None))"

definition ir_in_post :: "string option \<Rightarrow> bool" where
  "ir_in_post post \<longleftrightarrow> ''independent_review'' \<in> set (map py_strip (split_char (CHR ''|'') (text_or_empty post)))"

definition main_ci_blocks_close :: "close_reads \<Rightarrow> bool" where
  "main_ci_blocks_close cr \<longleftrightarrow> cr_checkout cr \<and> cr_ci_status cr = Some ''failure''"

definition view_of :: "string \<Rightarrow> authority \<Rightarrow> artifact_table \<Rightarrow> gate_view" where
  "view_of w au arts =
     \<lparr>gv_au = au, gv_arts = arts, gv_wo = w,
      gv_project = (case wo_of w au of None \<Rightarrow> [] | Some r \<Rightarrow> text_or_empty (wo_project_id r))\<rparr>"

section \<open>Convening the review\<close>

text \<open>The independent review is on for every type that is not exempt from verification, and for types that name it.\<close>

definition review_default_on :: "close_env \<Rightarrow> wo_row \<Rightarrow> bool" where
  "review_default_on env r \<longleftrightarrow> \<not> is_verification_exempt (wo_type r) (ce_types env)"

definition convenes_review :: "close_env \<Rightarrow> close_reads \<Rightarrow> close_flags \<Rightarrow> string \<Rightarrow> wo_row \<Rightarrow> artifact_table \<Rightarrow> bool" where
  "convenes_review env cr fl w r arts0 \<longleftrightarrow>
     (ir_in_post (snd (work_order_gates (cr_types cr) r)) \<or> review_default_on env r) \<and>
     \<not> (has_wo_artifact (w, ''review_verdict'', []) arts0 \<or> cr_verdict_file cr) \<and>
     \<not> (cf_skip_verify fl \<or> cf_force fl)"

definition review_with_gaps :: "bool \<Rightarrow> verify_outcome \<Rightarrow> bool" where
  "review_with_gaps convened v =
     (convened \<and> (case v of Verified passed spawned unreviewable \<Rightarrow> \<not> passed \<and> spawned \<noteq> [] | _ \<Rightarrow> False))"

definition review_unreviewable :: "bool \<Rightarrow> verify_outcome \<Rightarrow> bool" where
  "review_unreviewable convened v =
     (convened \<and> (case v of Verified passed spawned unreviewable \<Rightarrow> unreviewable | _ \<Rightarrow> False))"

section \<open>The gates of a close\<close>

text \<open>The default-on review, with the refresh of a stale verdict; the view after it.\<close>

definition default_review ::
    "close_env \<Rightarrow> close_reads \<Rightarrow> close_flags \<Rightarrow> gate_view \<Rightarrow> string option \<times> gate_view" where
  "default_review env cr fl gv =
     (case fst (run_gate_check env executing gv ''independent_review'') of
        None \<Rightarrow> (None, gv)
      | Some reason \<Rightarrow>
          if py_in ''verdict is stale'' reason \<and> \<not> cf_force fl then
            (case cr_refreshed cr of
               None \<Rightarrow> (Some reason, gv)
             | Some (au, arts) \<Rightarrow>
                 let gv' = view_of (gv_wo gv) au arts in (fst (run_gate_check env executing gv' ''independent_review''), gv'))
          else (Some reason, gv))"

definition DASHBOARD_TRUTH_GATED_TYPES :: "string list" where
  "DASHBOARD_TRUTH_GATED_TYPES = [''dashboard'', ''telemetry'', ''data_pipeline'', ''saas_feature'']"

definition dashboard_failures :: "close_reads \<Rightarrow> wo_row \<Rightarrow> string list" where
  "dashboard_failures cr r =
     (if text_or_empty (wo_type r) \<notin> set DASHBOARD_TRUTH_GATED_TYPES \<or> cr_dashboard cr = [] then []
      else [''dashboard_truth: live-authority invariants failed -- '' @
        py_join ''; '' (map (\<lambda>(name, e). name @ (if truthy e then '': '' @ the e else [])) (cr_dashboard cr))])"

definition symptom_failures :: "close_env \<Rightarrow> wo_row \<Rightarrow> string list" where
  "symptom_failures env r =
     (if truthy (wo_originating_symptom r)
      then opt_list (check_originating_symptom env (ce_here env) (the (wo_originating_symptom r))) else [])"

definition asks_default_review :: "close_env \<Rightarrow> close_reads \<Rightarrow> close_flags \<Rightarrow> wo_row \<Rightarrow> bool" where
  "asks_default_review env cr fl r0 \<longleftrightarrow>
     review_default_on env r0 \<and> \<not> ir_in_post (snd (work_order_gates (cr_types cr) r0)) \<and> \<not> cf_skip_verify fl"

text \<open>The row \<open>r0\<close> is read at the start, \<open>r\<close> after the verification. The last component is the failures on the acceptance
  criteria, which the unreviewable waiver looks at.\<close>

record gate_report =
  gp_failures :: "string list"
  gp_ac_failures :: "string list"
  gp_waived :: "string list"
  gp_view :: gate_view

definition collect_gate_failures ::
    "close_env \<Rightarrow> close_reads \<Rightarrow> close_flags \<Rightarrow> wo_row \<Rightarrow> wo_row \<Rightarrow> gate_view \<Rightarrow> gate_report" where
  "collect_gate_failures env cr fl r0 r gv =
     (let (pre, post) = work_order_gates (cr_types cr) r;
          (remaining, waived) = waive_unreviewable_review (evaluate_gates env gv pre post) (cf_skip_verify fl);
          (review, gv2) = (if asks_default_review env cr fl r0 then default_review env cr fl gv else (None, gv));
          ac = (if cf_force fl then [] else fst (run_ac_gate env executing gv2))
      in \<lparr>gp_failures = remaining @ opt_list review @ ac @ symptom_failures env r @ dashboard_failures cr r @
            check_tasks_done gv2 @ structure_failures (gv_au gv2) (gv_arts gv2) (gv_wo gv2) @
            check_change_impact_affirmed (gv_au gv2) (gv_arts gv2) (gv_wo gv2) @
            opt_list (lane_review_failure (gv_wo gv2) (cr_review cr)),
          gp_ac_failures = ac, gp_waived = waived, gp_view = gv2\<rparr>)"

definition is_escalated :: "close_reads \<Rightarrow> bool" where
  "is_escalated cr \<longleftrightarrow> (case cr_escalation cr of None \<Rightarrow> False | Some n \<Rightarrow> 1 \<le> n)"

definition after_waivers :: "close_reads \<Rightarrow> bool \<Rightarrow> gate_report \<Rightarrow> string list" where
  "after_waivers cr convened g =
     (let gaps = (if review_with_gaps convened (cr_verify cr) \<and> \<not> is_escalated cr
            then filter (\<lambda>f. \<not> is_review_failure f) (gp_failures g) else gp_failures g)
      in if review_unreviewable convened (cr_verify cr) \<and> gp_ac_failures g = [] \<and> \<not> is_escalated cr
         then filter (\<lambda>f. \<not> is_review_failure f) gaps else gaps)"

section \<open>The close\<close>

datatype closing = AutoVerifyRaised string | Closing outcome

definition verified_state :: "close_reads \<Rightarrow> string \<Rightarrow> gate_view" where
  "verified_state cr w = view_of w (cr_authority cr) (cr_artifacts cr)"

definition run_close ::
    "call \<Rightarrow> close_env \<Rightarrow> close_reads \<Rightarrow> close_flags \<Rightarrow> (authority \<Rightarrow> authority) \<Rightarrow> (nat \<Rightarrow> string) \<Rightarrow> string option
      \<Rightarrow> string \<Rightarrow> artifact_table \<Rightarrow> authority \<Rightarrow> closing \<times> authority" where
  "run_close c env cr fl window uuids actor w arts0 au0 =
     (case close_phase_refusal w au0 of
        Some text \<Rightarrow> (Closing (Refused (PhaseRefused text)), au0)
      | None \<Rightarrow>
          (case wo_of w au0 of
             None \<Rightarrow> (Closing (Refused NotFound), au0)
           | Some r0 \<Rightarrow>
               let convened = convenes_review env cr fl w r0 arts0 in
               (case (convened, cr_verify cr) of
                  (True, VerifyRaised e) \<Rightarrow> (AutoVerifyRaised e, au0)
                | _ \<Rightarrow>
                    (case wo_of w (cr_authority cr) of
                       None \<Rightarrow> (Closing (Refused NotFound), au0)
                     | Some r \<Rightarrow>
                         let g = collect_gate_failures env cr fl r0 r (verified_state cr w);
                             failures = after_waivers cr convened g;
                             review_missing = (is_escalated cr \<and> list_ex is_review_failure failures);
                             (out, au') = close_work_order c window failures review_missing (main_ci_blocks_close cr)
                               (cf_force fl) uuids actor w au0
                         in (Closing out, au')))))"

text \<open>The supported read: whether a work order would close, and why not.\<close>

definition closability :: "close_env \<Rightarrow> type_gates \<Rightarrow> string \<Rightarrow> artifact_table \<Rightarrow> authority \<Rightarrow> bool \<times> string list" where
  "closability env types w arts au =
     (case wo_of w au of
        None \<Rightarrow> (False, [''Work order not found: '' @ w])
      | Some r \<Rightarrow>
          (let (pre, post) = work_order_gates types r; failures = check_close_gates env (view_of w au arts) pre post
           in (failures = [], failures)))"

section \<open>What no waiver reaches\<close>

text \<open>The failures that are not about the independent review never carry its name.\<close>

named_theorems other_gate \<open>failures the review waivers cannot match\<close>

lemma ac_other [other_gate]: "f \<in> set (fst (run_ac_gate env m gv)) \<Longrightarrow> \<not> is_review_failure f"
  by (auto simp: run_ac_gate_def NO_CHECKS_def is_review_failure_def py_startswith_def Let_def split: if_splits)

lemma first_failure_Some: "first_failure f xs = Some e \<Longrightarrow> \<exists>x\<in>set xs. f x = Some e"
  by (induction xs) (auto split: option.splits)

lemma symptom_other [other_gate]: "f \<in> set (symptom_failures env r) \<Longrightarrow> \<not> is_review_failure f"
proof -
  assume "f \<in> set (symptom_failures env r)"
  then have "first_failure (symptom_failure env (ce_here env)) (symptom_lines (the (wo_originating_symptom r))) = Some f"
    by (auto simp: symptom_failures_def opt_list_def check_originating_symptom_def split: if_splits option.splits)
  then obtain l where "symptom_failure env (ce_here env) l = Some f"
    using first_failure_Some by blast
  then show ?thesis
    by (auto simp: symptom_failure_def is_review_failure_def py_startswith_def Let_def
        split: prod.splits if_splits sql_result.splits bool.splits)
qed

lemma dashboard_other [other_gate]: "f \<in> set (dashboard_failures cr r) \<Longrightarrow> \<not> is_review_failure f"
  by (auto simp: dashboard_failures_def is_review_failure_def py_startswith_def split: if_splits)

lemma tasks_other [other_gate]: "f \<in> set (check_tasks_done gv) \<Longrightarrow> \<not> is_review_failure f"
  by (auto simp: check_tasks_done_def is_review_failure_def py_startswith_def Let_def split: if_splits)

lemma structure_other [other_gate]: "f \<in> set (structure_failures au arts w) \<Longrightarrow> \<not> is_review_failure f"
  by (auto simp: structure_failures_def render_structure_def is_review_failure_def py_startswith_def Let_def split: if_splits)

lemma impact_other [other_gate]: "f \<in> set (check_change_impact_affirmed au arts w) \<Longrightarrow> \<not> is_review_failure f"
  by (auto simp: check_change_impact_affirmed_def is_review_failure_def py_startswith_def Let_def
      split: if_splits option.splits)

lemma lane_other [other_gate]: "f \<in> set (opt_list (lane_review_failure w st)) \<Longrightarrow> \<not> is_review_failure f"
proof -
  assume "f \<in> set (opt_list (lane_review_failure w st))"
  then have "\<exists>t. f = CHR ''l'' # t"
    by (auto simp: lane_review_failure_def opt_list_def Let_def split: option.splits if_splits)
  then show ?thesis
    by (auto simp: is_review_failure_def py_startswith_def)
qed



lemma after_waivers_keeps:
  "f \<in> set (gp_failures g) \<Longrightarrow> \<not> is_review_failure f \<Longrightarrow> f \<in> set (after_waivers cr convened g)"
  by (simp add: after_waivers_def Let_def)

lemma after_waivers_escalated: "is_escalated cr \<Longrightarrow> after_waivers cr convened g = gp_failures g"
  by (simp add: after_waivers_def Let_def)

lemma run_close_Done:
  assumes "run_close c env cr fl window uuids actor w arts0 au0 = (Closing (Done failed), au')"
  obtains r0 r g where "wo_of w au0 = Some r0" "wo_of w (cr_authority cr) = Some r"
    "g = collect_gate_failures env cr fl r0 r (verified_state cr w)"
    "close_work_order c window (after_waivers cr (convenes_review env cr fl w r0 arts0) g)
       (is_escalated cr \<and> list_ex is_review_failure (after_waivers cr (convenes_review env cr fl w r0 arts0) g))
       (main_ci_blocks_close cr) (cf_force fl) uuids actor w au0 = (Done failed, au')"
proof -
  from assms have "close_phase_refusal w au0 = None"
    by (simp add: run_close_def split: option.splits)
  with assms obtain r0 where r0: "wo_of w au0 = Some r0"
    by (auto simp: run_close_def split: option.splits)
  note 1 = assms [unfolded run_close_def \<open>close_phase_refusal w au0 = None\<close> r0 option.case Let_def]
  then obtain r where r: "wo_of w (cr_authority cr) = Some r"
    by (auto split: option.splits bool.splits verify_outcome.splits)
  with 1 show ?thesis
    by (intro that [OF r0 r refl]) (auto split: bool.splits verify_outcome.splits prod.splits)
qed

text \<open>So when no failure is left, the gates other than the independent review found nothing.\<close>

lemma kept_gate_Nil:
  assumes "after_waivers cr convened g = []" "set fs \<subseteq> set (gp_failures g)" "\<And>f. f \<in> set fs \<Longrightarrow> \<not> is_review_failure f"
  shows "fs = []"
proof (cases fs)
  case (Cons f fs')
  with assms(2,3) have "f \<in> set (after_waivers cr convened g)"
    by (intro after_waivers_keeps) auto
  with assms(1) show ?thesis by simp
qed

lemma gate_sections:
  assumes "g = collect_gate_failures env cr fl r0 r gv"
  shows "set (if cf_force fl then [] else fst (run_ac_gate env executing (gp_view g))) \<subseteq> set (gp_failures g)"
    "set (symptom_failures env r) \<subseteq> set (gp_failures g)" "set (dashboard_failures cr r) \<subseteq> set (gp_failures g)"
    "set (check_tasks_done (gp_view g)) \<subseteq> set (gp_failures g)"
    "set (structure_failures (gv_au (gp_view g)) (gv_arts (gp_view g)) (gv_wo (gp_view g))) \<subseteq> set (gp_failures g)"
    "set (check_change_impact_affirmed (gv_au (gp_view g)) (gv_arts (gp_view g)) (gv_wo (gp_view g))) \<subseteq> set (gp_failures g)"
    "set (opt_list (lane_review_failure (gv_wo (gp_view g)) (cr_review cr))) \<subseteq> set (gp_failures g)"
  unfolding assms collect_gate_failures_def Let_def by (auto simp: case_prod_beta)

text \<open>The last view the gates read.\<close>

definition closing_view ::
    "close_env \<Rightarrow> close_reads \<Rightarrow> close_flags \<Rightarrow> string \<Rightarrow> authority \<Rightarrow> gate_view" where
  "closing_view env cr fl w au0 =
     (case (wo_of w au0, wo_of w (cr_authority cr)) of
        (Some r0, Some r) \<Rightarrow> gp_view (collect_gate_failures env cr fl r0 r (verified_state cr w))
      | _ \<Rightarrow> verified_state cr w)"

lemma ac_checks_run: "\<exists>ls. ac_checks env executing gv = map (run_check (ce_exec env)) ls"
  using checks_modes [of "ce_exec env" "uncarried_tasks gv"] by (auto simp: ac_checks_def)

lemma ac_gate_evidence:
  assumes "fst (run_ac_gate env executing gv) = []"
  shows "if ac_checks env executing gv = [] then operator_attested gv
    else \<forall>c\<in>set (ac_checks env executing gv). check_evidence (ce_exec env) (ck_kind c, ck_expr c)"
proof -
  obtain ls where ls: "ac_checks env executing gv = map (run_check (ce_exec env)) ls"
    using ac_checks_run by blast
  then have "check_evidence (ce_exec env) (ck_kind c, ck_expr c)"
    if "c \<in> set (ac_checks env executing gv)" "ac_checks env executing gv \<noteq> []" for c
    using that assms run_check_evidence by (auto simp: ac_gate_failures)
  with assms show ?thesis
    by (auto simp: ac_gate_failures split: if_splits)
qed

lemma tasks_done_Nil: "check_tasks_done gv = [] \<longleftrightarrow> hanging_tasks gv = []"
  by (simp add: check_tasks_done_def Let_def)

lemma hanging_tasks_Nil:
  "hanging_tasks gv = [] \<longleftrightarrow>
     (\<forall>(k, t)\<in>set (tasks (au_db (gv_au gv))). t_work_order_id t = gv_wo gv \<longrightarrow>
        t_status t \<in> set settled_task_statuses \<or> k \<in> set (carried_task_ids (gv_arts gv) (gv_wo gv)))"
  by (auto simp: hanging_tasks_def filter_empty_conv)

text \<open>C1: a close that was not forced succeeds only on evidence. The phase admits it; in the authority and the artifacts the
  gates last read, every task of the work order is settled or carried, each executable criterion that was recorded was
  run with a passing outcome (or there is none and an operator attested), the change impact is affirmed and the
  structural invariants hold or have a recorded exception; the originating symptom no longer reproduces, the lane review is
  clear, and the default branch of the project's checkout is not known to be red. No waiver of the independent review
  reaches any of these.\<close>

theorem unforced_close_is_earned:
  assumes "run_close c env cr fl window uuids actor w arts0 au0 = (Closing (Done failed), au')" "\<not> cf_force fl"
    and "gv = closing_view env cr fl w au0"
  shows "map_option wo_status (wo_of w (window au0)) \<in> {Some ''pushed'', Some ''ci_issues''} \<and>
    (\<forall>(k, t)\<in>set (tasks (au_db (gv_au gv))). t_work_order_id t = gv_wo gv \<longrightarrow>
       t_status t \<in> {''complete'', ''cancelled''} \<or> k \<in> set (carried_task_ids (gv_arts gv) (gv_wo gv))) \<and>
    (if ac_checks env executing gv = [] then operator_attested gv
     else \<forall>c\<in>set (ac_checks env executing gv). check_evidence (ce_exec env) (ck_kind c, ck_expr c)) \<and>
    check_change_impact_affirmed (gv_au gv) (gv_arts gv) (gv_wo gv) = [] \<and>
    structure_failures (gv_au gv) (gv_arts gv) (gv_wo gv) = [] \<and>
    (\<forall>r. wo_of w (cr_authority cr) = Some r \<longrightarrow> symptom_failures env r = [] \<and> dashboard_failures cr r = []) \<and>
    lane_review_failure (gv_wo gv) (cr_review cr) = None \<and> \<not> (cr_checkout cr \<and> cr_ci_status cr = Some ''failure'')"
proof -
  from run_close_Done [OF assms(1)] obtain r0 r g where r: "wo_of w au0 = Some r0" "wo_of w (cr_authority cr) = Some r"
    and g: "g = collect_gate_failures env cr fl r0 r (verified_state cr w)"
    and cl: "close_work_order c window (after_waivers cr (convenes_review env cr fl w r0 arts0) g)
       (is_escalated cr \<and> list_ex is_review_failure (after_waivers cr (convenes_review env cr fl w r0 arts0) g))
       (main_ci_blocks_close cr) (cf_force fl) uuids actor w au0 = (Done failed, au')"
    by metis
  from close_done [OF cl] assms(2) obtain x where x: "wo_of w (window au0) = Some x" "wo_status x \<in> set CLOSEABLE_WORK_ORDER_STATUSES"
    and none: "after_waivers cr (convenes_review env cr fl w r0 arts0) g = []" and red: "\<not> main_ci_blocks_close cr"
    by blast
  have gv: "gv = gp_view g"
    using assms(3) r g by (simp add: closing_view_def)
  note kept = kept_gate_Nil [OF none]
  note sections = gate_sections [OF g]
  have "fst (run_ac_gate env executing gv) = []"
    using kept [OF sections(1)] ac_other assms(2) by (simp add: gv)
  moreover have "symptom_failures env r = []" "dashboard_failures cr r = []" "check_tasks_done gv = []"
    "structure_failures (gv_au gv) (gv_arts gv) (gv_wo gv) = []"
    "check_change_impact_affirmed (gv_au gv) (gv_arts gv) (gv_wo gv) = []"
    "opt_list (lane_review_failure (gv_wo gv) (cr_review cr)) = []"
    unfolding gv by (rule kept, fact, erule other_gate)+
  ultimately show ?thesis
    using x red r(2) ac_gate_evidence [of env gv]
    by (simp add: tasks_done_Nil hanging_tasks_Nil settled_task_statuses_def closeable_eq main_ci_blocks_close_def)
qed

section \<open>The review of an escalated work order\<close>

lemma review_gate_prefix:
  assumes "fst (run_gate_check env executing gv ''independent_review'') = Some f"
  shows "is_review_failure f"
proof -
  from assms have "fst (gate_independent_review env executing gv) = Some f"
    by (simp add: run_gate_check_def)
  then show ?thesis
    unfolding is_review_failure_def
    by (auto simp: gate_independent_review_def absent_and_unreadable_def checked_def then_gate_def stale_gate_def Let_def
        py_startswith_def case_prod_beta dest: judge_verdict_prefix [unfolded py_startswith_def] split: option.splits if_splits)
qed

text \<open>The review gate passes only on an enveloped, fresh verdict that says it passed.\<close>

lemma review_gate_passes:
  assumes "fst (run_gate_check env executing gv ''independent_review'') = None"
  shows "\<exists>raw e. artifact_with_envelope env gv ''review_verdict'' = (Some raw, Some e) \<and> js_truthy (js_get e ''generator'') \<and>
    passing_verdict raw \<and> fst (provenance_staleness env executing gv (Some e)) = None"
proof -
  from assms have n: "fst (gate_independent_review env executing gv) = None"
    by (simp add: run_gate_check_def)
  note gate = gate_independent_review_def [of env executing gv] absent_and_unreadable_def checked_def Let_def
  obtain c e where a: "artifact_with_envelope env gv ''review_verdict'' = (c, e)" by fastforce
  with n obtain raw where c: "c = Some raw"
    by (cases c) (simp_all add: gate)
  with n a obtain d where e: "e = Some d" "js_truthy (js_get d ''generator'')"
    by (cases e) (simp_all add: gate split: if_splits)
  have "fst (then_gate (stale_gate ''independent_review'' ''verdict'' (''Re-run: '' @ rerun_verify (gv_wo gv))
      (provenance_staleness env executing gv (Some d))) (judge_verdict (ce_scores env) (gv_wo gv) raw, [])) = None"
    using n a c e by (simp add: gate)
  then have "fst (provenance_staleness env executing gv (Some d)) = None" "judge_verdict (ce_scores env) (gv_wo gv) raw = None"
    by (cases "provenance_staleness env executing gv (Some d)"; cases "fst (provenance_staleness env executing gv (Some d))";
        simp add: then_gate_def stale_gate_def)+
  then show ?thesis
    using a c e by (simp add: judge_verdict_None)
qed

lemma default_review_None: "default_review env cr fl gv = (None, gv') \<Longrightarrow> fst (run_gate_check env executing gv' ''independent_review'') = None"
  by (auto simp: default_review_def Let_def split: option.splits if_splits prod.splits)

lemma default_review_prefix: "default_review env cr fl gv = (Some f, gv') \<Longrightarrow> is_review_failure f"
  by (auto simp: default_review_def Let_def intro: review_gate_prefix split: option.splits if_splits prod.splits)

lemma evaluate_gates_mem:
  "k \<in> set (named_gates pre @ named_gates post) \<Longrightarrow> fst (run_gate_check env executing gv k) = Some f \<Longrightarrow>
     f \<in> set (evaluate_gates env gv pre post)"
  by (force simp: evaluate_gates_def set_map_filter_iff)


lemma forced_close_goes_through:
  assumes "close_phase_refusal w au0 = None" "wo_of w (window au0) = Some x" "wo_status x \<in> set CLOSEABLE_WORK_ORDER_STATUSES"
  shows "\<exists>failed au'. close_work_order c window fs False red True uuids actor w au0 = (Done failed, au')"
  using assms by (auto simp: close_work_order_def Let_def split: prod.split)

lemma closed_status:
  assumes "close_work_order c window fs rm red force uuids actor w au0 = (Done failed, au')"
  shows "map_option wo_status (wo_of w au') = Some ''closed''"
proof -
  from close_done [OF assms] obtain r where "wo_of w (window au0) = Some r"
    "wrote c w (\<lambda>x. x\<lparr>wo_status := ''closed'', wo_closed_at := Some (c_now c),
      wo_updated_at := Some (c_now c), wo_last_updated_at := c_now c\<rparr>) (closed_envelope c w r actor) (window au0) failed au'"
    by blast
  from wrote_rows [OF this(2), of w] this(1) show ?thesis by simp
qed

text \<open>C38: the refusal of an escalated close says the review cannot be bypassed with force, but \<open>skip_verify\<close> bypasses it: for a
  type that names no gates, a forced close that skips verification succeeds whatever the escalation level, the verdict,
  the tasks, the acceptance criteria and the lane review say. Only the phase holds it.\<close>

theorem skip_verify_closes_escalated:
  assumes "wo_of w au0 = Some r0" "wo_of w (window au0) = Some x" "wo_of w (cr_authority cr) = Some r"
    and "wo_status r0 \<in> {''pushed'', ''ci_issues''}" "wo_status x \<in> {''pushed'', ''ci_issues''}"
    and "work_order_gates (cr_types cr) r = (None, None)" "cf_force fl" "cf_skip_verify fl"
  shows "\<exists>failed au'. run_close c env cr fl window uuids actor w arts0 au0 = (Closing (Done failed), au') \<and>
    map_option wo_status (wo_of w au') = Some ''closed''"
proof -
  let ?g = "collect_gate_failures env cr fl r0 r (verified_state cr w)"
  have conv: "\<not> convenes_review env cr fl w r0 arts0"
    using assms(7) by (simp add: convenes_review_def)
  let ?fs = "gp_failures ?g"
  have "?fs = symptom_failures env r @ dashboard_failures cr r @
      check_tasks_done (gp_view ?g) @ structure_failures (gv_au (gp_view ?g)) (gv_arts (gp_view ?g)) (gv_wo (gp_view ?g)) @
      check_change_impact_affirmed (gv_au (gp_view ?g)) (gv_arts (gp_view ?g)) (gv_wo (gp_view ?g)) @
      opt_list (lane_review_failure (gv_wo (gp_view ?g)) (cr_review cr))"
    using assms(6-8) by (simp add: collect_gate_failures_def asks_default_review_def evaluate_gates_def named_gates_def
        waive_unreviewable_review_def opt_list_def [of None] List.map_filter_simps Let_def)
  then have "\<not> is_review_failure f" if "f \<in> set ?fs" for f
    using that by (simp only: set_append Un_iff) (elim disjE; erule other_gate)
  moreover have aw: "after_waivers cr (convenes_review env cr fl w r0 arts0) ?g = ?fs"
    using conv by (simp add: after_waivers_def review_with_gaps_def review_unreviewable_def Let_def)
  ultimately have rm: "\<not> list_ex is_review_failure ?fs"
    by (auto simp: list_ex_iff)
  have phase: "close_phase_refusal w au0 = None"
    using assms(1,4) by (auto simp: close_phase_refusal_def transition_allowed_iff)
  have "wo_status x \<in> set CLOSEABLE_WORK_ORDER_STATUSES"
    using assms(5) by (simp add: closeable_eq)
  from forced_close_goes_through [where window = window, OF phase assms(2) this] obtain failed au' where
    dn: "close_work_order c window ?fs False (main_ci_blocks_close cr) True uuids actor w au0 = (Done failed, au')"
    by blast
  have "run_close c env cr fl window uuids actor w arts0 au0 = (Closing (Done failed), au')"
    using conv rm aw dn assms(7) by (simp add: run_close_def phase assms(1,3) Let_def)
  with closed_status [OF dn] show ?thesis by blast
qed

section \<open>Waivers that say more than they check\<close>

lemma py_lower_append: "py_lower (s @ t) = py_lower s @ py_lower t"
  by (simp add: py_lower_def)

lemma failed_review_shape:
  assumes "\<not> js_truthy (js_get v ''unreviewable'')" "verdict_summary so v = sm" "sm \<noteq> []"
  shows "\<exists>a b. failed_review so w v = ''independent_review: review failed'' @ a @ sm @ b"
  using assms
  by (intro exI [of _ "(if so_line so v \<noteq> [] then '' ['' @ so_line so v @ '']'' else []) @ '' -- ''"]
        exI [of _ "''.'' @ first_objection (verdict_findings v) @
          (if spawned_ids v \<noteq> [] then '' Gap WOs: '' @ py_join '', '' (spawned_ids v) else []) @ verdict_execution_note v"])
    (simp add: failed_review_def verdict_evidence_def Let_def)

lemma waive_marked:
  assumes "f = ''independent_review'' @ a @ m @ b" "py_lower m = ''unreviewable''"
  shows "waive_unreviewable_review [f] True = ([], [f])"
proof -
  have "sublist (py_lower m) (py_lower f)"
    unfolding assms(1) py_lower_append sublist_def by (metis append.assoc)
  then show ?thesis
    using assms by (simp add: waive_unreviewable_review_def py_in_sublist is_review_failure_def py_startswith_def)
qed

text \<open>The waiver of \<open>skip_verify\<close> reads the text of a failure, not the verdict. A review that failed on substance is
  waived whenever its summary contains the word "unreviewable"; and the bypasses for the independent review match every
  gate whose name starts with it, so they drop failures of \<open>independent_review_passed\<close> as well.\<close>

theorem waiver_reads_the_text:
  "(\<not> js_truthy (js_get v ''unreviewable'') \<longrightarrow> verdict_summary so v = s @ ''unreviewable'' @ t \<longrightarrow>
      waive_unreviewable_review [failed_review so w v] True = ([], [failed_review so w v])) \<and>
   is_review_failure (''independent_review_passed: '' @ u)"
proof (intro conjI impI)
  assume v: "\<not> js_truthy (js_get v ''unreviewable'')" and sm: "verdict_summary so v = s @ ''unreviewable'' @ t"
  have m: "py_lower ''unreviewable'' = ''unreviewable''"
    by code_simp
  from failed_review_shape [OF v sm] obtain a b where
    f: "failed_review so w v = ''independent_review: review failed'' @ a @ (s @ ''unreviewable'' @ t) @ b"
    by fastforce
  show "waive_unreviewable_review [failed_review so w v] True = ([], [failed_review so w v])"
    by (rule waive_marked [of _ "'': review failed'' @ a @ s" "''unreviewable''" "t @ b", OF _ m]) (simp add: f)
qed (simp add: is_review_failure_def py_startswith_def)

section \<open>A concrete close\<close>

text \<open>A pushed work order with one completed task whose query holds, a verdict with a seated round table and an empty lane round.\<close>

definition sample_closing_row :: "string option \<Rightarrow> wo_row" where
  "sample_closing_row ty = wo_default\<lparr>wo_status := ''pushed'', wo_type := ty, wo_originating_symptom := Some ''SQL-CHECK: s''\<rparr>"

definition sample_closing_task :: task_row where
  "sample_closing_task = \<lparr>t_work_order_id = ''w1'', t_project_id = ''p1'', t_title = ''a'', t_description = None,
     t_status = ''complete'', t_created_at = ''1'', t_updated_at = ''1'', t_source_event_id = None, t_last_event_id = None,
     t_acceptance_criteria = Some ''SQL-CHECK: q''\<rparr>"

definition sample_closing_authority :: "string option \<Rightarrow> authority" where
  "sample_closing_authority ty = \<lparr>au_db = (empty_db [])\<lparr>work_orders := [(''w1'', sample_closing_row ty)],
     tasks := [(''k1'', sample_closing_task)]\<rparr>, au_deps = [], au_spool = empty_spool\<rparr>"

definition sample_verdict :: string where
  "sample_verdict = json_dumps None (JsObj [(''passed'', JsInt 1), (''round_table'', JsObj [(''seats'', JsInt 1)])])"

definition sample_artifacts :: artifact_table where
  "sample_artifacts = [((''w1'', ''review_verdict'', []), \<lparr>ar_content = json_dumps None
     (JsObj [(ENVELOPE_MARKER, JsInt 1), (''generator'', JsStr ''v''), (''content'', JsStr sample_verdict)]),
     ar_created_at = ''t'', ar_updated_at = ''t''\<rparr>)]"

definition query_executor :: executor where
  "query_executor = \<lparr>ex_run = \<lambda>argv. CommandNotFound, ex_sql = \<lambda>q. SqlValue True, ex_api = \<lambda>m p. NoApp,
     ex_target = \<lambda>t. NoTarget, ex_python = ''python'', ex_root = None\<rparr>"

definition sample_close_env :: close_env where
  "sample_close_env = \<lparr>ce_git = \<lambda>a. None, ce_exec = query_executor, ce_here = query_executor, ce_file = \<lambda>f. None,
     ce_briefs = [], ce_reviewed = None, ce_types = [], ce_boundary = None, ce_detail = \<lambda>c. [],
     ce_scores = \<lparr>so_ranked = \<lambda>v. [], so_line = \<lambda>v. [], so_json_error = \<lambda>s. []\<rparr>\<rparr>"

definition clear_round :: dispatch_doc where
  "clear_round = \<lparr>dd_round = 1, dd_sha = [], dd_image = [], dd_change_set = [], dd_assignments = [], dd_carried = [],
     dd_credential_hashes = [], dd_at = []\<rparr>"

definition sample_reads :: "artifact_table \<Rightarrow> lane_store \<Rightarrow> close_reads" where
  "sample_reads arts rv = \<lparr>cr_verify = VerifyNotOk, cr_verdict_file = False, cr_authority = sample_closing_authority None,
     cr_artifacts = arts, cr_refreshed = None, cr_review = rv, cr_dashboard = [], cr_escalation = Some 1, cr_checkout = True,
     cr_ci_status = None, cr_types = []\<rparr>"

definition sample_flags :: close_flags where
  "sample_flags = \<lparr>cf_force = False, cf_skip_verify = False\<rparr>"

definition sample_close :: "closing \<times> authority" where
  "sample_close = run_close sample_call sample_close_env
     (sample_reads sample_artifacts \<lparr>ls_dispatch = Some clear_round, ls_docs = []\<rparr>) sample_flags (\<lambda>a. a) (\<lambda>n. ''b'') None
     ''w1'' sample_artifacts (sample_closing_authority None)"

abbreviation sample_open_reads :: close_reads where
  "sample_open_reads \<equiv> sample_reads sample_artifacts \<lparr>ls_dispatch = Some clear_round, ls_docs = []\<rparr>"

abbreviation sample_verified :: gate_view where
  "sample_verified \<equiv> view_of ''w1'' (sample_closing_authority None) sample_artifacts"

text \<open>What the concrete close reads, evaluated at once.\<close>

definition sample_passes :: "close_env \<Rightarrow> close_reads \<Rightarrow> close_flags \<Rightarrow> wo_row \<Rightarrow> gate_view \<Rightarrow> bool" where
  "sample_passes env cr cf r gv \<longleftrightarrow>
     (fst (run_gate_check env executing gv ''independent_review'') = None \<and> fst (run_ac_gate env executing gv) = []) \<and>
     symptom_failures env r = [] \<and> check_tasks_done gv = [] \<and>
     structure_failures (gv_au gv) (gv_arts gv) (gv_wo gv) = [] \<and>
     check_change_impact_affirmed (gv_au gv) (gv_arts gv) (gv_wo gv) = [] \<and>
     asks_default_review env cr cf r \<and> work_order_gates (cr_types cr) r = (None, None) \<and> dashboard_failures cr r = [] \<and>
     lane_review_failure (gv_wo gv) (cr_review cr) = None \<and>
     fst (waive_unreviewable_review (evaluate_gates env gv None None) (cf_skip_verify cf)) = []"

lemma sample_all_pass: "sample_passes sample_close_env sample_open_reads sample_flags (sample_closing_row None) sample_verified"
  by code_simp

lemma sample_review_gate: "fst (run_gate_check sample_close_env executing sample_verified ''independent_review'') = None"
  using sample_all_pass unfolding sample_passes_def by blast

lemma sample_ac_gate: "fst (run_ac_gate sample_close_env executing sample_verified) = []"
  using sample_all_pass unfolding sample_passes_def by blast

lemma sample_symptom: "symptom_failures sample_close_env (sample_closing_row None) = []"
  using sample_all_pass unfolding sample_passes_def by blast

lemma sample_close_standing:
  "check_tasks_done sample_verified = []"
  "structure_failures (gv_au sample_verified) (gv_arts sample_verified) (gv_wo sample_verified) = []"
  "check_change_impact_affirmed (gv_au sample_verified) (gv_arts sample_verified) (gv_wo sample_verified) = []"
  using sample_all_pass unfolding sample_passes_def by blast+

lemma sample_reads_clear:
  "asks_default_review sample_close_env sample_open_reads sample_flags (sample_closing_row None)"
  "work_order_gates (cr_types sample_open_reads) (sample_closing_row None) = (None, None)"
  "dashboard_failures sample_open_reads (sample_closing_row None) = []"
  "lane_review_failure (gv_wo sample_verified) (cr_review sample_open_reads) = None"
  "fst (waive_unreviewable_review (evaluate_gates sample_close_env sample_verified None None) (cf_skip_verify sample_flags)) = []"
  using sample_all_pass unfolding sample_passes_def by blast+

lemma sample_gates:
  "gp_failures (collect_gate_failures sample_close_env sample_open_reads sample_flags (sample_closing_row None)
     (sample_closing_row None) sample_verified) = []"
  by (simp add: collect_gate_failures_def default_review_def sample_review_gate sample_ac_gate sample_symptom sample_close_standing
      sample_reads_clear case_prod_beta Let_def opt_list_def)

lemma sample_write:
  "fst (close_work_order sample_call (\<lambda>a. a) [] False False False (\<lambda>n. ''b'') None ''w1'' (sample_closing_authority None)) = Done True"
  by code_simp

lemma sample_close_facts [simp]:
  "wo_of ''w1'' (sample_closing_authority ty) = Some (sample_closing_row ty)" "wo_status (sample_closing_row ty) = ''pushed''"
  by (simp_all add: wo_of_def sample_closing_authority_def sample_closing_row_def)

lemma sample_close_done: "\<exists>au'. sample_close = (Closing (Done True), au')"
proof -
  have phase: "close_phase_refusal ''w1'' (sample_closing_authority None) = None"
    by (simp add: close_phase_refusal_def transition_allowed_iff)
  have esc: "is_escalated sample_open_reads"
    by (simp add: is_escalated_def sample_reads_def)
  have reads: "cr_authority sample_open_reads = sample_closing_authority None" "cr_verify sample_open_reads = VerifyNotOk"
    "verified_state sample_open_reads ''w1'' = view_of ''w1'' (sample_closing_authority None) sample_artifacts"
    "\<not> main_ci_blocks_close sample_open_reads" "\<not> cf_force sample_flags"
    by (simp_all add: sample_reads_def verified_state_def main_ci_blocks_close_def sample_flags_def)
  from sample_write obtain au' where
    "close_work_order sample_call (\<lambda>a. a) [] False False False (\<lambda>n. ''b'') None ''w1'' (sample_closing_authority None) = (Done True, au')"
    by (metis prod.collapse)
  then show ?thesis
    by (simp add: sample_close_def run_close_def phase reads after_waivers_escalated [OF esc] sample_gates Let_def
        split: bool.split)
qed

definition sample_view :: gate_view where
  "sample_view = closing_view sample_close_env sample_open_reads sample_flags ''w1'' (sample_closing_authority None)"

lemma sample_executor_of: "ce_exec sample_close_env = query_executor"
  by (simp add: sample_close_env_def)

lemma sample_flags_unforced: "\<not> cf_force sample_flags" "\<not> cf_skip_verify sample_flags"
  by (simp_all add: sample_flags_def)

lemma sample_authority_read: "cr_authority (sample_reads arts rv) = sample_closing_authority None"
  by (simp add: sample_reads_def)

lemma unforced_close_is_earned_witness:
  "symptom_failures sample_close_env (sample_closing_row None) = [] \<and>
   list_all (\<lambda>c. check_evidence query_executor (ck_kind c, ck_expr c)) (ac_checks sample_close_env executing sample_view)"
proof -
  obtain au' where "sample_close = (Closing (Done True), au')"
    using sample_close_done by blast
  from unforced_close_is_earned [OF this [unfolded sample_close_def] sample_flags_unforced(1) refl] show ?thesis
    unfolding sample_view_def [symmetric] by (simp add: sample_authority_read sample_executor_of list_all_iff split: if_splits)
qed


text \<open>Nothing but the phase: no verdict, no lane review, escalated.\<close>

lemma skip_verify_closes_escalated_witness:
  "\<exists>failed au'. run_close sample_call sample_close_env (sample_reads [] \<lparr>ls_dispatch = None, ls_docs = []\<rparr>)
     \<lparr>cf_force = True, cf_skip_verify = True\<rparr> (\<lambda>a. a) (\<lambda>n. ''b'') None ''w1'' [] (sample_closing_authority None) =
       (Closing (Done failed), au') \<and> is_escalated (sample_reads [] \<lparr>ls_dispatch = None, ls_docs = []\<rparr>)"
proof -
  have "work_order_gates [] (sample_closing_row None) = (None, None)"
    "is_escalated (sample_reads [] \<lparr>ls_dispatch = None, ls_docs = []\<rparr>)"
    by code_simp+
  moreover have "wo_of ''w1'' (sample_closing_authority None) = Some (sample_closing_row None)"
    "wo_of ''w1'' (cr_authority (sample_reads [] \<lparr>ls_dispatch = None, ls_docs = []\<rparr>)) = Some (sample_closing_row None)"
    "cr_types (sample_reads [] \<lparr>ls_dispatch = None, ls_docs = []\<rparr>) = []"
    by (simp_all add: sample_authority_read, simp add: sample_reads_def)
  ultimately show ?thesis
    using skip_verify_closes_escalated [where window = "\<lambda>a. a" and fl = "\<lparr>cf_force = True, cf_skip_verify = True\<rparr>"
        and cr = "sample_reads [] \<lparr>ls_dispatch = None, ls_docs = []\<rparr>" and w = "''w1''" and r = "sample_closing_row None",
        of "sample_closing_authority None" "sample_closing_row None" "sample_closing_row None"
        sample_call sample_close_env "\<lambda>n. ''b''" None "[]"]
    by auto
qed

definition vague_verdict :: "(string \<times> json) list" where
  "vague_verdict = [(''passed'', JsBool False), (''summary'', JsStr ''the unreviewable part leaks'')]"

lemma waiver_reads_the_text_witness:
  "snd (waive_unreviewable_review [failed_review (ce_scores sample_close_env) ''w1'' vague_verdict] True) \<noteq> []"
proof -
  have "\<not> js_truthy (js_get vague_verdict ''unreviewable'')"
    "verdict_summary (ce_scores sample_close_env) vague_verdict = ''the '' @ ''unreviewable'' @ '' part leaks''"
    by code_simp+
  with waiver_reads_the_text [of vague_verdict "ce_scores sample_close_env" "''the ''" "'' part leaks''" "''w1''"] show ?thesis
    by (simp only: simp_thms) simp
qed

text \<open>The supported read of whether a work order would close asks neither for its tasks nor for the lane review: it answers
  yes for an attested work order with an open task and no review, which the close itself refuses.\<close>

definition hanging_authority :: authority where
  "hanging_authority = \<lparr>au_db = (empty_db [])\<lparr>work_orders := [(''w1'', wo_default\<lparr>wo_status := ''pushed''\<rparr>)],
     tasks := [(''k1'', sample_closing_task\<lparr>t_status := ''in_progress'', t_acceptance_criteria := None\<rparr>)]\<rparr>, au_deps = [], au_spool = empty_spool\<rparr>"

abbreviation attested_artifacts :: artifact_table where
  "attested_artifacts \<equiv> gv_arts (attested_view ''pushed'')"

lemma hanging_gates: "check_close_gates blank_env (view_of ''w1'' hanging_authority attested_artifacts) None None = []"
  by code_simp

lemma closability_overpromises:
  "closability blank_env [] ''w1'' attested_artifacts hanging_authority = (True, []) \<and>
   check_tasks_done (view_of ''w1'' hanging_authority attested_artifacts) \<noteq> [] \<and>
   lane_review_failure ''w1'' \<lparr>ls_dispatch = None, ls_docs = []\<rparr> \<noteq> None"
proof -
  have "wo_of ''w1'' hanging_authority = Some (wo_default\<lparr>wo_status := ''pushed''\<rparr>)"
    "work_order_gates [] (wo_default\<lparr>wo_status := ''pushed''\<rparr>) = (None, None)"
    "hanging_tasks (view_of ''w1'' hanging_authority attested_artifacts) \<noteq> []"
    by code_simp+
  then show ?thesis
    by (simp add: closability_def hanging_gates check_tasks_done_def Let_def lane_review_failure_def)
qed

end
