(* ===== verification/Milestones.thy ===== *)
theory Milestones
  imports Close_Gates Work_Order_Lifecycle
begin

text \<open>
  Milestones: \<^verbatim>\<open>core/milestones/close.py\<close>, \<^verbatim>\<open>artifacts.py\<close>, \<^verbatim>\<open>mutations.py\<close>, \<^verbatim>\<open>queries.py\<close> and
  \<^verbatim>\<open>status.py\<close>. Closing a milestone checks that no work order of it is open, reads its audits, and emits an
  event; the row is the projection's (\<open>Milestone_Projection\<close>).

  The environment answers for the document store (by name; None is the KeyError of an unknown one), for the
  milestone's directory on disk and for git. Identifiers contain no path separator. The refresh of the
  derived PRD after a close, which is swallowed when it fails, is not modelled.
\<close>

section \<open>The status vocabulary\<close>

text \<open>The settled statuses are those of \<open>Task_Status\<close>.\<close>

definition MILESTONE_COMPLETE :: string where
  "MILESTONE_COMPLETE = ''complete''"

definition MILESTONE_STATUSES :: "string list" where
  "MILESTONE_STATUSES = MILESTONE_DONE_STATUSES @ MILESTONE_ABANDONED_STATUSES @ [''pending'']"

section \<open>The audits\<close>

record milestone_env =
  me_docs :: "string \<Rightarrow> string option"
  me_disk :: "string \<Rightarrow> string option"
  me_git :: git
  me_root :: "string option"

definition read_milestone_artifact_with_envelope ::
    "milestone_env \<Rightarrow> string \<Rightarrow> string \<Rightarrow> string option \<times> envelope_dict option" where
  "read_milestone_artifact_with_envelope env m filename =
     (case me_docs env (''milestones/'' @ m @ ''/'' @ filename) of
        Some content \<Rightarrow> unwrap (Some content)
      | None \<Rightarrow> (case me_disk env filename of Some t \<Rightarrow> unwrap (Some t) | None \<Rightarrow> (None, None)))"

definition read_milestone_artifact :: "milestone_env \<Rightarrow> string \<Rightarrow> string \<Rightarrow> string option" where
  "read_milestone_artifact env m filename = fst (read_milestone_artifact_with_envelope env m filename)"

text \<open>The inner \<open>_read\<close>: the content, and the failure it appends when commits landed since.\<close>

definition audit_staleness :: "milestone_env \<Rightarrow> string \<Rightarrow> string \<Rightarrow> string list" where
  "audit_staleness env m filename =
     (case read_milestone_artifact_with_envelope env m filename of
        (Some content, e) \<Rightarrow>
          (case recorded_commit e of
             None \<Rightarrow> []
           | Some sha \<Rightarrow>
               (case commits_after (me_git env) sha (me_root env) of
                  Some (h # hs) \<Rightarrow>
                    [filename @ '' is stale: '' @ py_num (Suc (length hs)) @ '' commit(s) landed after it was produced (at '' @
                      take 12 sha @ ''). Regenerate it and re-store via the docstore.'']
                | _ \<Rightarrow> []))
      | (None, e) \<Rightarrow> [])"

text \<open>\<open>re.finditer\<close>, for patterns that match no empty text.\<close>

function re_finditer :: "regex \<Rightarrow> string \<Rightarrow> rmatch list" where
  "re_finditer r [] = []"
| "re_finditer r (c # s) =
     (case re_match r (c # s) of
        Some (m, g, t) \<Rightarrow> if length t < length (c # s) then (m, g, t) # re_finditer r t else re_finditer r s
      | None \<Rightarrow> re_finditer r s)"
  by pat_completeness auto
termination
  by (relation "measure (\<lambda>(r, s). length s)") auto

definition score_of :: "rmatch \<Rightarrow> int" where
  "score_of mt = digits_value (text_or_empty (group_of mt 1))"

definition low_scores :: "string \<Rightarrow> rmatch list" where
  "low_scores content = filter (\<lambda>mt. score_of mt < 3) (re_finditer SCORE_RE content)"

definition design_failure :: "string \<Rightarrow> bool \<Rightarrow> string option \<Rightarrow> string list" where
  "design_failure m has_ui content =
     (case content of
        None \<Rightarrow>
          (if has_ui then [''Design audit required. Invoke website:critique across all UI surfaces and'' @
             '' write results to the docstore as milestones/'' @ m @ ''/design-audit.md''] else [])
      | Some t \<Rightarrow>
          (case low_scores t of
             [] \<Rightarrow> []
           | mt # _ \<Rightarrow> [''Design audit: score '' @ text_or_empty (group_of mt 1) @ ''/'' @
               text_or_empty (group_of mt 2) @ '' is below minimum 3'']))"

definition security_failure :: "string option \<Rightarrow> string list" where
  "security_failure content =
     (case content of
        None \<Rightarrow> [''Security audit required.'']
      | Some t \<Rightarrow>
          if is_security_blocked (Some t) then [''Security audit: security-audit.md reports a BLOCKED finding''] else [])"

definition hardening_failure :: "string option \<Rightarrow> string list" where
  "hardening_failure content =
     (case content of
        None \<Rightarrow> [''Hardening check required. Invoke quality:harden and write results.'']
      | Some t \<Rightarrow>
          if \<not> py_in ''PASSED'' (py_upper t) then [''Hardening check: harden-results.md does not contain PASSED''] else [])"

definition vitals_failure :: "string option \<Rightarrow> string list" where
  "vitals_failure content =
     (case content of
        None \<Rightarrow> [''Core Web Vitals check required.'']
      | Some t \<Rightarrow>
          if \<not> py_in ''PASSED'' (py_upper t) then [''Core Web Vitals: cwv-results.md does not contain PASSED''] else [])"

definition evaluate_milestone_artifacts :: "milestone_env \<Rightarrow> string \<Rightarrow> bool \<Rightarrow> string list" where
  "evaluate_milestone_artifacts env m has_ui =
     (let read = read_milestone_artifact env m; stale = audit_staleness env m in
      stale ''design-audit.md'' @ design_failure m has_ui (read ''design-audit.md'') @
      stale ''security-audit.md'' @ security_failure (read ''security-audit.md'') @
      stale ''harden-results.md'' @ hardening_failure (read ''harden-results.md'') @
      (if has_ui then stale ''cwv-results.md'' @ vitals_failure (read ''cwv-results.md'') else []))"

section \<open>Closing\<close>

text \<open>\<open>ORDER BY created_at ASC\<close>; NULL sorts first.\<close>

definition milestone_work_orders :: "string \<Rightarrow> authority \<Rightarrow> (string \<times> wo_row) list" where
  "milestone_work_orders m au =
     sort_key (\<lambda>(k, r). text_or_empty (wo_created_at r))
       (filter (\<lambda>(k, r). wo_milestone_id r = Some m) (work_orders (au_db au)))"

definition closed_in_canonical :: "string list \<Rightarrow> authority \<Rightarrow> string list" where
  "closed_in_canonical ids au =
     List.map_filter (\<lambda>(i, e). if ev_type e = WORK_ORDER_CLOSED \<and> ev_work_order_id e \<in> Some ` set ids
       then ev_work_order_id e else None) (sp_business (au_spool au))"

definition open_work_orders :: "string \<Rightarrow> authority \<Rightarrow> (string \<times> string option \<times> string) list" where
  "open_work_orders m au =
     (let open_wos = map (\<lambda>(k, r). (k, wo_title r, wo_status r))
            (filter (\<lambda>(k, r). wo_status r \<notin> set TERMINAL_WO_STATUSES) (milestone_work_orders m au))
      in filter (\<lambda>(k, t, s). k \<notin> set (closed_in_canonical (map fst open_wos) au)) open_wos)"

definition milestone_has_ui :: "type_registry \<Rightarrow> string \<Rightarrow> authority \<Rightarrow> bool" where
  "milestone_has_ui types m au = list_ex (\<lambda>(k, r). is_ui_bearing (wo_type r) types) (milestone_work_orders m au)"

record milestone_close =
  mc_title :: string
  mc_project_id :: string
  mc_status :: string
  mc_completed_at :: string
  mc_forced :: bool
  mc_bypassed_gates :: "string list"

datatype milestone_outcome =
    MilestoneMissing
  | OpenWorkRemains "(string \<times> string option \<times> string) list"
  | VerificationFailed "string list"
  | MilestoneClosed milestone_close

definition milestone_trace :: "string \<Rightarrow> string \<Rightarrow> (string \<times> string option) list" where
  "milestone_trace m project_id = [(''milestone_id'', Some m), (''project_id'', Some project_id)]"

definition emit_milestone_bypasses ::
    "call \<Rightarrow> (nat \<Rightarrow> string) \<Rightarrow> string \<Rightarrow> string \<Rightarrow> string list \<Rightarrow> authority \<Rightarrow> authority" where
  "emit_milestone_bypasses c uuids m project_id failures au =
     fold (\<lambda>(i, reason) a. let ci = c\<lparr>c_uuid := uuids i\<rparr> in
         fst (emit ci (make_envelope ci ''gate.bypassed'' [(''milestone_id'', Some m), (''reason'', Some reason)]
           (milestone_trace m project_id)) a)) (enumerate 0 failures) au"

definition completed_envelope :: "call \<Rightarrow> string \<Rightarrow> milestone_row \<Rightarrow> envelope" where
  "completed_envelope c m r =
     (make_envelope c MILESTONE_COMPLETED [(''milestone_id'', Some m), (''title'', Some (m_title r))]
        (milestone_trace m (m_project_id r)))\<lparr>env_payload_other := [''forced'']\<rparr>"

definition close_milestone ::
    "(authority \<Rightarrow> authority) \<Rightarrow> type_registry \<Rightarrow> milestone_env \<Rightarrow> call \<Rightarrow> (nat \<Rightarrow> string) \<Rightarrow> string \<Rightarrow> bool \<Rightarrow> authority
      \<Rightarrow> milestone_outcome \<times> authority" where
  "close_milestone sync_tick types env c uuids m force au =
     (case map_of (milestones (au_db au)) m of
        None \<Rightarrow> (MilestoneMissing, au)
      | Some r \<Rightarrow>
          if open_work_orders m au \<noteq> [] then (OpenWorkRemains (open_work_orders m au), au)
          else
            let failures = evaluate_milestone_artifacts env m (milestone_has_ui types m au) in
            if failures \<noteq> [] \<and> \<not> force then (VerificationFailed failures, au)
            else
              let au1 = (if force \<and> failures \<noteq> []
                         then emit_milestone_bypasses c uuids m (m_project_id r) failures au else au);
                  au2 = fst (emit c (completed_envelope c m r) au1)
              in (MilestoneClosed \<lparr>mc_title = m_title r, mc_project_id = m_project_id r,
                    mc_status = MILESTONE_COMPLETE, mc_completed_at = c_now c, mc_forced = force,
                    mc_bypassed_gates = (if force then failures else [])\<rparr>, sync_tick au2))"

section \<open>Creating\<close>

definition MIN_MILESTONE_DESCRIPTION_CHARS :: nat where
  "MIN_MILESTONE_DESCRIPTION_CHARS = 50"

definition created_envelope ::
    "call \<Rightarrow> string \<Rightarrow> string \<Rightarrow> string \<Rightarrow> string \<Rightarrow> int \<Rightarrow> string option \<Rightarrow> envelope" where
  "created_envelope c m project_id title description position actor =
     (make_envelope c MILESTONE_CREATED
        [(''title'', Some title), (''description'', Some description), (''status'', Some ''pending'')]
        ([(''domain'', Some ''sdlc''), (''project_id'', Some project_id), (''milestone_id'', Some m),
          (''attribution_status'', Some ''fully_attributed'')] @
         (if truthy actor then [(''mcp_client'', actor)] else [])))\<lparr>env_payload_ints := [(''order_index'', position)]\<rparr>"

definition create_milestone ::
    "(authority \<Rightarrow> authority) \<Rightarrow> call \<Rightarrow> string \<Rightarrow> string \<Rightarrow> string \<Rightarrow> string \<Rightarrow> int \<Rightarrow> string option \<Rightarrow> authority
      \<Rightarrow> outcome \<times> authority" where
  "create_milestone sync_tick c m project_id title description position actor au =
     (if length (py_strip description) < MIN_MILESTONE_DESCRIPTION_CHARS then (Refused DescriptionTooShort, au)
      else if map_of (projects (au_db au)) project_id = None then (Refused ProjectNotFound, au)
      else
        let (au1, failed) = emit c (created_envelope c m project_id title description position actor) au
        in (Done failed, sync_tick au1))"

section \<open>Queries\<close>

definition open_gate_checks :: "milestone_env \<Rightarrow> string \<Rightarrow> bool \<Rightarrow> string list" where
  "open_gate_checks env m has_ui =
     (let absent = (\<lambda>f. read_milestone_artifact env m f = None) in
      (if has_ui \<and> absent ''design-audit.md'' then [''design_audit''] else []) @
      List.map_filter (\<lambda>(filename, label). if absent filename then Some label else None)
        [(''security-audit.md'', ''security_audit''), (''harden-results.md'', ''harden_results'')] @
      (if has_ui \<and> absent ''cwv-results.md'' then [''cwv_results''] else []))"

record milestone_report =
  mr_project_id :: string
  mr_title :: string
  mr_status :: string
  mr_work_orders :: "(string \<times> string option \<times> string \<times> string option) list"
  mr_open_gate_checks :: "string list"

definition get_milestone_status ::
    "type_registry \<Rightarrow> milestone_env \<Rightarrow> string \<Rightarrow> authority \<Rightarrow> milestone_report option" where
  "get_milestone_status types env m au =
     (case map_of (milestones (au_db au)) m of
        None \<Rightarrow> None
      | Some r \<Rightarrow>
          Some \<lparr>mr_project_id = m_project_id r, mr_title = m_title r, mr_status = m_status r,
            mr_work_orders = map (\<lambda>(k, x). (k, wo_title x, wo_status x, wo_type x)) (milestone_work_orders m au),
            mr_open_gate_checks = open_gate_checks env m (milestone_has_ui types m au)\<rparr>)"

definition list_milestones :: "string \<Rightarrow> authority \<Rightarrow> (string \<times> string \<times> string \<times> string \<times> nat) list" where
  "list_milestones project_id au =
     map (\<lambda>(k, r). (take 8 k, k, m_title r, m_status r,
         length (filter (\<lambda>(w, x). wo_milestone_id x = Some k) (work_orders (au_db au)))))
       (sort_key (\<lambda>(k, r). m_created_at r)
         (filter (\<lambda>(k, r). m_project_id r = project_id) (milestones (au_db au))))"

section \<open>What a close has checked\<close>

lemma finditer_scores: "low_scores t = [] \<longleftrightarrow> (\<forall>mt\<in>set (re_finditer SCORE_RE t). 3 \<le> score_of mt)"
  by (auto simp: low_scores_def filter_empty_conv)

lemma audit_failure_Nil:
  "security_failure content = [] \<longleftrightarrow> (\<exists>t. content = Some t \<and> \<not> is_security_blocked (Some t))"
  "hardening_failure content = [] \<longleftrightarrow> (\<exists>t. content = Some t \<and> py_in ''PASSED'' (py_upper t))"
  "vitals_failure content = [] \<longleftrightarrow> (\<exists>t. content = Some t \<and> py_in ''PASSED'' (py_upper t))"
  "design_failure m has_ui content = [] \<longleftrightarrow> (has_ui \<longrightarrow> content \<noteq> None) \<and>
     (\<forall>t. content = Some t \<longrightarrow> low_scores t = [])"
  by (auto simp: security_failure_def hardening_failure_def vitals_failure_def design_failure_def
      split: option.splits list.splits)

lemma closed_in_canonical_iff:
  "k \<in> set (closed_in_canonical ids au) \<longleftrightarrow> k \<in> set ids \<and>
     (\<exists>(i, e)\<in>set (sp_business (au_spool au)). ev_type e = WORK_ORDER_CLOSED \<and> ev_work_order_id e = Some k)"
  by (auto simp: closed_in_canonical_def List.map_filter_def image_iff split: if_splits) force+

lemma set_milestone_work_orders:
  "set (milestone_work_orders m au) = {(k, r). (k, r) \<in> set (work_orders (au_db au)) \<and> wo_milestone_id r = Some m}"
  by (auto simp: milestone_work_orders_def)

lemma open_work_orders_iff:
  "(k, t, s) \<in> set (open_work_orders m au) \<longleftrightarrow>
     (\<exists>r. (k, r) \<in> set (work_orders (au_db au)) \<and> wo_milestone_id r = Some m \<and> wo_title r = t \<and> wo_status r = s) \<and>
     s \<notin> set TERMINAL_WO_STATUSES \<and>
     \<not> (\<exists>(i, e)\<in>set (sp_business (au_spool au)). ev_type e = WORK_ORDER_CLOSED \<and> ev_work_order_id e = Some k)"
  by (force simp: open_work_orders_def Let_def closed_in_canonical_iff set_milestone_work_orders)

lemma close_milestone_closed:
  assumes "close_milestone sync_tick types env c uuids m force au = (MilestoneClosed mc, au')"
  obtains r au1 where "map_of (milestones (au_db au)) m = Some r" "open_work_orders m au = []"
    "force \<or> evaluate_milestone_artifacts env m (milestone_has_ui types m au) = []"
    "au1 = (if force \<and> evaluate_milestone_artifacts env m (milestone_has_ui types m au) \<noteq> []
       then emit_milestone_bypasses c uuids m (m_project_id r)
         (evaluate_milestone_artifacts env m (milestone_has_ui types m au)) au else au)"
    "au' = sync_tick (fst (emit c (completed_envelope c m r) au1))"
    "mc_bypassed_gates mc = (if force then evaluate_milestone_artifacts env m (milestone_has_ui types m au) else [])"
  using assms by (auto simp: close_milestone_def Let_def split: option.splits if_splits)


section \<open>The preview of the checks\<close>

lemma open_check_is_failure:
  "open_gate_checks env m ui \<noteq> [] \<Longrightarrow> evaluate_milestone_artifacts env m ui \<noteq> []"
  by (auto simp: open_gate_checks_def evaluate_milestone_artifacts_def Let_def List.map_filter_simps audit_failure_Nil
      split: if_splits)

theorem open_checks_hold_the_close:
  assumes "get_milestone_status types env m au = Some rep" and "mr_open_gate_checks rep \<noteq> []"
  shows "\<exists>refusal. close_milestone sync_tick types env c uuids m False au = (refusal, au) \<and>
    (refusal = OpenWorkRemains (open_work_orders m au) \<or>
     refusal = VerificationFailed (evaluate_milestone_artifacts env m (milestone_has_ui types m au)))"
  using assms open_check_is_failure
  by (auto simp: get_milestone_status_def close_milestone_def Let_def split: option.splits if_splits)

section \<open>The event and its projection\<close>

lemma emit_milestone_bypasses_db [simp]: "au_db (emit_milestone_bypasses c uuids m p fs au) = au_db au"
proof -
  have "au_db (fold (\<lambda>(i, reason) a. let ci = c\<lparr>c_uuid := uuids i\<rparr> in
      fst (emit ci (make_envelope ci ''gate.bypassed'' [(''milestone_id'', Some m), (''reason'', Some reason)]
        (milestone_trace m p)) a)) xs a) = au_db a" for xs a
    by (induction xs arbitrary: a) (auto simp: Let_def)
  then show ?thesis
    by (simp add: emit_milestone_bypasses_def)
qed

lemma completed_envelope_simps:
  "env_event_id (completed_envelope c m r) = Some (c_uuid c)"
  "env_event_type (completed_envelope c m r) = Some MILESTONE_COMPLETED"
  "ev_milestone_id (canonical_row (completed_envelope c m r)) = Some m"
  by (simp_all add: completed_envelope_def make_envelope_def milestone_trace_def canonical_row_def Let_def
      List.map_filter_simps extract_correlation_ids_def py_or_def)

lemma milestone_entries:
  "get_entry MILESTONE_COMPLETED = Some (entry MILESTONE_COMPLETED [Business] ''meaningful-unit'' [])"
  "get_entry MILESTONE_CREATED = Some (entry MILESTONE_CREATED [Business] ''meaningful-unit'' [])"
  by (rule get_entryI, rule in_sdlc_entries, simp add: BUSINESS_ENTRIES_1_def event_type_defs, use sdlc_types_named in simp)+

lemma milestone_keys_free:
  "validate_payload_keys MILESTONE_COMPLETED ks = Inr ()" "validate_payload_keys MILESTONE_CREATED ks = Inr ()"
  by (simp_all add: payload_check milestone_entries)

lemma completed_envelope_written:
  "write_event (c_uuid c) (completed_envelope c m r) sp =
     Inr (sp\<lparr>sp_inbox := put (c_uuid c @ ''.json'') (Json (completed_envelope c m r)) (sp_inbox sp)\<rparr>)"
  by (simp add: completed_envelope_def make_envelope_def Let_def write_event_def milestone_keys_free)


section \<open>Reopened work\<close>

text \<open>The fallback to the event log takes any close as final, so a work order reopened since does not hold the
  milestone.\<close>

theorem reopened_work_order_ignored:
  assumes "reopen_work_order (\<lambda>a. a) c k reason au = (Done failed, au1)"
    and "(i, e) \<in> set (sp_business (au_spool au))" and "ev_type e = WORK_ORDER_CLOSED" and "ev_work_order_id e = Some k"
  shows "map_option wo_status (wo_of k au1) = Some ''in_progress'' \<and> k \<notin> fst ` set (open_work_orders m au1)"
proof -
  obtain x where au1: "au1 = fst (emit c x (update_wo k (\<lambda>r. r\<lparr>wo_status := ''in_progress'',
      wo_updated_at := Some (c_now c), wo_last_updated_at := c_now c\<rparr>) au))" and row: "wo_of k au \<noteq> None"
    using reopen_done [OF assms(1)] by (metis fst_conv option.distinct(1))
  moreover have "sp_business (au_spool (fst (emit c x au))) = sp_business (au_spool au)" for au
    by (auto simp: emit_def write_event_def and_then_Inr_iff split: sum.split)
  ultimately have "sp_business (au_spool au1) = sp_business (au_spool au)"
    by (simp add: update_wo_def)
  with assms(2-4) au1 row show ?thesis
    by (auto simp: open_work_orders_iff wo_of_update)
qed

section \<open>A milestone\<close>

text \<open>A milestone that was deleted, with one work order: closed once, its close in the event log.\<close>

definition sample_milestone_env :: milestone_env where
  "sample_milestone_env =
     \<lparr>me_docs = map_of [(''milestones/m1/security-audit.md'', ''No findings.''), (''milestones/m1/harden-results.md'', ''Passed'')],
      me_disk = (\<lambda>f. None), me_git = (\<lambda>argv. None), me_root = Some ''/p''\<rparr>"

definition sample_milestone_authority :: "string \<Rightarrow> authority" where
  "sample_milestone_authority s =
     \<lparr>au_db = (empty_db [])\<lparr>
        milestones := [(''m1'', \<lparr>m_project_id = ''p1'', m_title = ''M'', m_description = None, m_status = ''deleted'',
          m_order_index = 0, m_created_at = ''t0'', m_updated_at = ''t0'', m_source_event_id = None,
          m_last_event_id = None\<rparr>)],
        work_orders := [(''w1'', wo_default\<lparr>wo_status := s, wo_milestone_id := Some ''m1''\<rparr>)]\<rparr>,
      au_deps = [],
      au_spool = empty_spool\<lparr>sp_business := [(''e0'', wo_event ''e0'' WORK_ORDER_CLOSED ''t0'' ''w1'' [])]\<rparr>\<rparr>"

definition sample_milestone_call :: call where
  "sample_milestone_call = \<lparr>c_now = ''t'', c_uuid = ''e1'', c_spool_ok = True, c_remembers = True\<rparr>"

definition sample_milestone_close :: "milestone_outcome \<times> authority" where
  "sample_milestone_close = close_milestone (\<lambda>a. a) [] sample_milestone_env sample_milestone_call (\<lambda>i. ''b'') ''m1'' False
     (sample_milestone_authority ''in_progress'')"

lemma sample_milestone_closes:
  "fst sample_milestone_close = MilestoneClosed \<lparr>mc_title = ''M'', mc_project_id = ''p1'', mc_status = ''complete'',
     mc_completed_at = ''t'', mc_forced = False, mc_bypassed_gates = []\<rparr>"
  by code_simp


lemma open_checks_hold_the_close_witness:
  "\<exists>refusal. close_milestone (\<lambda>a. a) [] (sample_milestone_env\<lparr>me_docs := (\<lambda>n. None)\<rparr>) sample_milestone_call (\<lambda>i. ''b'') ''m1''
     False (sample_milestone_authority ''closed'') = (refusal, sample_milestone_authority ''closed'')"
proof -
  have "map_option mr_open_gate_checks
      (get_milestone_status [] (sample_milestone_env\<lparr>me_docs := (\<lambda>n. None)\<rparr>) ''m1'' (sample_milestone_authority ''closed'')) =
    Some [''security_audit'', ''harden_results'']"
    by code_simp
  then obtain rep where "get_milestone_status [] (sample_milestone_env\<lparr>me_docs := (\<lambda>n. None)\<rparr>) ''m1''
      (sample_milestone_authority ''closed'') = Some rep" "mr_open_gate_checks rep \<noteq> []"
    by auto
  from open_checks_hold_the_close [OF this] show ?thesis by blast
qed


lemma reopened_work_order_ignored_witness:
  "\<exists>au1. map_option wo_status (wo_of ''w1'' au1) = Some ''in_progress'' \<and> ''w1'' \<notin> fst ` set (open_work_orders ''m1'' au1)"
proof -
  have "fst (reopen_work_order (\<lambda>a. a) sample_milestone_call ''w1'' ''again'' (sample_milestone_authority ''closed'')) = Done False"
    by code_simp
  then obtain au1 where "reopen_work_order (\<lambda>a. a) sample_milestone_call ''w1'' ''again''
      (sample_milestone_authority ''closed'') = (Done False, au1)"
    by (metis prod.collapse)
  from reopened_work_order_ignored [OF this, of "''e0''" "wo_event ''e0'' WORK_ORDER_CLOSED ''t0'' ''w1'' []" "''m1''"]
  show ?thesis
    by (auto simp: sample_milestone_authority_def)
qed

end
