(* ===== verification/Carry_Over.thy ===== *)
theory Carry_Over
  imports Close_Checks
begin

text \<open>
  Carrying tasks to another work order: \<^verbatim>\<open>core/work_orders/carry_over.py\<close>. The tasks are filed again on a new work
  order, deleted from the old one by events, and the split is stored as an artifact on both sides. The gate on
  open tasks and the acceptance criteria read that artifact (\<open>carried_task_ids\<close>, in \<open>Close_Checks\<close>).

  A carry makes several calls: the \<open>n\<close>-th one has its own event id and its own fresh identifier, and between
  them runs the projection pass. The text of an exception is a parameter.
\<close>

section \<open>The operation\<close>

definition MIN_REASON :: nat where
  "MIN_REASON = 20"

record carry_env =
  cy_tick :: "authority \<Rightarrow> authority"
  cy_types :: type_registry
  cy_now :: string
  cy_calls :: "nat \<Rightarrow> call"
  cy_ids :: "nat \<Rightarrow> string"
  cy_store :: "string \<Rightarrow> store_env"
  cy_fault :: "store_error \<Rightarrow> string"

definition open_tasks :: "authority \<Rightarrow> string \<Rightarrow> (string \<times> task_row) list" where
  "open_tasks au w =
     filter (\<lambda>(k, t). t_work_order_id t = w \<and> t_status t \<notin> {''complete'', ''cancelled'', ''deleted''}) (tasks (au_db au))"

definition total_tasks :: "authority \<Rightarrow> string \<Rightarrow> nat" where
  "total_tasks au w = length (filter (\<lambda>(k, t). t_work_order_id t = w) (tasks (au_db au)))"

definition recovery_advice :: "string \<Rightarrow> string \<Rightarrow> bool \<Rightarrow> string \<Rightarrow> string" where
  "recovery_advice w new_wo stored_from detail =
     (let head = ''The tasks were moved to '' @ new_wo @ '' but '' @ detail @ ''. The close gate reads the '' @
            ''carry-over record to exempt them, so '' @ w @ '' would refuse to close with the work already gone.'' in
      if stored_from then
        head @ '' The record DID land on '' @ w @ '', so its close is not blocked -- what is missing is the back-link on '' @
        new_wo @ '', which leaves that work order without provenance. Record it with `ds work-order add-task '' @ new_wo @
        '' --title '' @ [CHR 0x22] @ ''...'' @ [CHR 0x22] @ ''` context, or re-run once the authority accepts writes and '' @
        ''pass the same task ids; the original side is an upsert and will not duplicate.''
      else
        head @ '' DO NOT re-run this command: the tasks are already deleted from '' @ w @ '', so a re-run either reports '' @
        ''them as not-open or creates a second work order and duplicates them. The tasks exist on '' @ new_wo @
        '' and that work order is usable now. To close '' @ w @ '', either finish the remaining tasks and let tasks_done '' @
        ''pass on its own, or record why with `ds work-order close '' @ w @ '' --accept-structure '' @ [CHR 0x22] @
        ''<reason>'' @ [CHR 0x22] @ ''` once the authority is writable.'')"

text \<open>A moved task: the task it was, the task it is now, its title.\<close>

type_synonym moved_task = "string \<times> string \<times> string"

record carry_result =
  cw_carried_to :: string
  cw_moved :: "moved_task list"
  cw_remaining :: int

datatype carry_outcome =
    ReasonTooShort
  | NoTasksNamed
  | CarryNotFound
  | NotOpenTasks "string list"
  | NothingRemains nat
  | CarryRefused refusal
  | TaskNotRecreated string string
  | SplitNotRecorded string string "moved_task list"
  | Carried carry_result

text \<open>The event that deletes a task from this work order; a failed write skips the projection pass.\<close>

definition emit_task_deleted ::
    "carry_env \<Rightarrow> call \<Rightarrow> string \<Rightarrow> string \<Rightarrow> string \<Rightarrow> string option \<Rightarrow> string \<Rightarrow> authority \<Rightarrow> authority" where
  "emit_task_deleted env c k w project_id milestone_id carried_to au =
     (let (au1, failed) = emit c (make_envelope c TASK_DELETED
            [(''deletion_context'', Some ''carried_to_another_work_order''), (''carried_to'', Some carried_to)]
            (task_trace k w (Some project_id) milestone_id None)) au
      in if failed then au1 else cy_tick env au1)"

definition carry_description :: "carry_env \<Rightarrow> string \<Rightarrow> wo_row \<Rightarrow> string \<Rightarrow> string" where
  "carry_description env w r reason =
     ''Carried out of work order '' @ w @ '' on '' @ take 10 (cy_now env) @ '' because the scope changed.'' @
     [CHR 0x0A, CHR 0x0A] @ ''Reason given: '' @ reason @ [CHR 0x0A, CHR 0x0A] @ ''These tasks were authored on '' @
     (case wo_title r of None \<Rightarrow> ''None'' | Some t \<Rightarrow> py_repr t) @
     '' and turned out to belong to different work. The original was closed at its true scope; this work order '' @
     ''holds the remainder.''"

text \<open>A project of None is the id of no row, and the lookup of the project is the first that reads it.\<close>

definition carried_work_order ::
    "carry_env \<Rightarrow> string \<Rightarrow> wo_row \<Rightarrow> string \<Rightarrow> string \<Rightarrow> authority \<Rightarrow> outcome \<times> authority" where
  "carried_work_order env w r reason title au =
     (let description = carry_description env w r reason;
          create = (\<lambda>p a. create_work_order (cy_tick env) (cy_types env) (cy_calls env 0) (cy_ids env 0) p
            (wo_milestone_id r) title description (wo_type r) DEFAULT_WORK_ORDER_PRIORITY None None None a)
      in case wo_project_id r of
           Some p \<Rightarrow> create p au
         | None \<Rightarrow> (fst (create [] (au\<lparr>au_db := (au_db au)\<lparr>projects := []\<rparr>\<rparr>)), au))"

fun carry_tasks ::
    "carry_env \<Rightarrow> string \<Rightarrow> string option \<Rightarrow> string \<Rightarrow> (string \<times> task_row) list \<Rightarrow> nat \<Rightarrow> string list \<Rightarrow> moved_task list
      \<Rightarrow> authority \<Rightarrow> (string + moved_task list) \<times> authority" where
  "carry_tasks env w milestone_id p opens n [] moved au = (Inr moved, au)"
| "carry_tasks env w milestone_id p opens n (k # ks) moved au =
     (let t = the (map_of opens k); new_wo = cy_ids env 0; new_task = cy_ids env (Suc n);
          (out, au1) = create_task (cy_tick env) (\<lambda>ac why d. False) (cy_calls env (2 * n + 1)) new_task new_wo p (t_title t)
            (text_or_empty (t_description t)) (t_acceptance_criteria t) None (Some k) None au
      in case out of
           Done failed \<Rightarrow>
             carry_tasks env w milestone_id p opens (Suc n) ks (moved @ [(k, new_task, t_title t)])
               (emit_task_deleted env ((cy_calls env (2 * n + 2))\<lparr>c_now := cy_now env\<rparr>) k w p milestone_id new_wo au1)
         | _ \<Rightarrow> (Inl k, au1))"

definition carry_record :: "carry_env \<Rightarrow> string \<Rightarrow> string \<Rightarrow> moved_task list \<Rightarrow> json" where
  "carry_record env w reason moved =
     JsObj [(''reason'', JsStr reason), (''carried_to'', JsStr (cy_ids env 0)), (''carried_from'', JsStr w),
       (''moved'', JsList (map (\<lambda>(k, k', title). JsObj [(''from_task_id'', JsStr k), (''to_task_id'', JsStr k'),
          (''title'', JsStr title)]) moved)),
       (''recorded_at'', JsStr (cy_now env))]"

definition record_split ::
    "carry_env \<Rightarrow> string \<Rightarrow> string \<Rightarrow> moved_task list \<Rightarrow> int \<Rightarrow> artifact_table \<Rightarrow> carry_outcome \<times> artifact_table" where
  "record_split env w reason moved remaining arts =
     (let new_wo = cy_ids env 0; record = json_dumps (Some 2) (carry_record env w reason moved);
          raised = (\<lambda>e. SplitNotRecorded (recovery_advice w new_wo False
            (''the split could not be recorded ('' @ cy_fault env e @ '')'')) new_wo moved)
      in case set_wo_artifact (cy_store env w) (carry_key w) record None arts of
           (Inl e, arts1) \<Rightarrow> (raised e, arts1)
         | (Inr stored_from, arts1) \<Rightarrow>
             (case set_wo_artifact (cy_store env new_wo) (carry_key new_wo) record None arts1 of
                (Inl e, arts2) \<Rightarrow> (raised e, arts2)
              | (Inr stored_to, arts2) \<Rightarrow>
                  if \<not> (stored_from \<and> stored_to) then
                    (SplitNotRecorded (recovery_advice w new_wo stored_from
                       (if stored_from then ''the record did not land on the new work order''
                        else ''this authority'' @ [CHR 0x27] @ ''s schema predates the artifact table'')) new_wo moved, arts2)
                  else (Carried \<lparr>cw_carried_to = new_wo, cw_moved = moved, cw_remaining = remaining\<rparr>, arts2)))"

definition carry_over ::
    "carry_env \<Rightarrow> string \<Rightarrow> string list \<Rightarrow> string option \<Rightarrow> string \<Rightarrow> authority \<Rightarrow> artifact_table
      \<Rightarrow> carry_outcome \<times> authority \<times> artifact_table" where
  "carry_over env w task_ids reason title au arts =
     (let text = py_strip (text_or_empty reason) in
      if length text < MIN_REASON then (ReasonTooShort, au, arts)
      else if task_ids = [] then (NoTasksNamed, au, arts)
      else (case wo_of w au of
         None \<Rightarrow> (CarryNotFound, au, arts)
       | Some r \<Rightarrow>
           let opens = open_tasks au w; total = total_tasks au w;
               unknown = filter (\<lambda>k. k \<notin> fst ` set opens) task_ids in
           if unknown \<noteq> [] then (NotOpenTasks unknown, au, arts)
           else if length task_ids \<ge> total then (NothingRemains total, au, arts)
           else (case carried_work_order env w r text title au of
              (Refused why, au1) \<Rightarrow> (CarryRefused why, au1, arts)
            | (_, au1) \<Rightarrow>
                (case carry_tasks env w (wo_milestone_id r) (the (wo_project_id r)) opens 0 task_ids [] au1 of
                   (Inl k, au2) \<Rightarrow> (TaskNotRecreated k (cy_ids env 0), au2, arts)
                 | (Inr moved, au2) \<Rightarrow>
                     let (out, arts1) = record_split env w text moved (int total - int (length task_ids)) arts
                     in (out, au2, arts1)))))"

section \<open>The record\<close>

lemma carry_record_plain: "json_plain (carry_record env w reason moved)"
  by (auto simp: carry_record_def)

lemma carry_record_bare: "bare_text (json_dumps (Some 2) (carry_record env w reason moved))"
  using carry_record_plain [of env w reason moved]
  by (simp add: bare_text_def unwrap_def json_loads_dumps carry_record_def ENVELOPE_MARKER_def)

lemma carried_of_record:
  assumes "get_wo_artifact (carry_key w) arts = Some (json_dumps (Some 2) (carry_record env w' reason moved))"
  shows "carried_task_ids arts w = filter (\<lambda>k. k \<noteq> []) (map fst moved)"
proof -
  have "List.map_filter (\<lambda>entry. case entry of
        JsObj e \<Rightarrow> (case js_get e ''from_task_id'' of JsStr k \<Rightarrow> if k = [] then None else Some k | _ \<Rightarrow> None)
      | _ \<Rightarrow> None) (map (\<lambda>(k, k', title). JsObj [(''from_task_id'', JsStr k), (''to_task_id'', JsStr k'),
        (''title'', JsStr title)]) moved) = filter (\<lambda>k. k \<noteq> []) (map fst moved)"
    by (induction moved) (auto simp: List.map_filter_simps js_get_def case_prod_unfold)
  moreover obtain payload where "carry_record env w' reason moved = JsObj payload"
    "sub_list payload ''moved'' = map (\<lambda>(k, k', title). JsObj [(''from_task_id'', JsStr k), (''to_task_id'', JsStr k'),
        (''title'', JsStr title)]) moved"
    by (simp add: carry_record_def sub_list_def js_get_def)
  ultimately show ?thesis
    using assms json_loads_dumps [OF carry_record_plain [of env w' reason moved]] by (simp add: carried_task_ids_def)
qed

lemma record_stored:
  assumes "set_wo_artifact senv k c None arts = (Inr True, arts')" and "bare_text c"
  shows "get_wo_artifact k' arts' = (if k' = k then Some c else get_wo_artifact k' arts)"
  using assms set_wo_artifact_cases [of senv k c None arts]
  by (auto simp: get_wo_artifact_def get_upsert stored_text_def bare_text_def)

lemma record_not_stored:
  assumes "set_wo_artifact senv k c None arts = (x, arts')" and "x \<noteq> Inr True"
  shows "arts' = arts"
  using assms set_wo_artifact_cases [of senv k c None arts] by auto

lemma record_split_Carried:
  assumes "record_split env w reason moved rest arts = (Carried c, arts')"
  shows "c = \<lparr>cw_carried_to = cy_ids env 0, cw_moved = moved, cw_remaining = rest\<rparr> \<and>
    (\<forall>v\<in>{w, cy_ids env 0}. carried_task_ids arts' v = filter (\<lambda>k. k \<noteq> []) (map fst moved)) \<and>
    (\<forall>key. key \<notin> {carry_key w, carry_key (cy_ids env 0)} \<longrightarrow> get_wo_artifact key arts' = get_wo_artifact key arts)"
proof -
  let ?rec = "json_dumps (Some 2) (carry_record env w reason moved)"
  obtain arts1 where a1: "set_wo_artifact (cy_store env w) (carry_key w) ?rec None arts = (Inr True, arts1)"
    and a2: "set_wo_artifact (cy_store env (cy_ids env 0)) (carry_key (cy_ids env 0)) ?rec None arts1 = (Inr True, arts')"
    and c: "c = \<lparr>cw_carried_to = cy_ids env 0, cw_moved = moved, cw_remaining = rest\<rparr>"
    using assms by (auto simp: record_split_def Let_def split: prod.splits sum.splits if_splits)
  note get = record_stored [OF a1 carry_record_bare] record_stored [OF a2 carry_record_bare]
  have "carried_task_ids arts' v = filter (\<lambda>k. k \<noteq> []) (map fst moved)" if "v \<in> {w, cy_ids env 0}" for v
    by (rule carried_of_record) (use that get in auto)
  then show ?thesis
    using c get by auto
qed

section \<open>The tasks\<close>

fun moved_list :: "carry_env \<Rightarrow> (string \<times> task_row) list \<Rightarrow> nat \<Rightarrow> string list \<Rightarrow> moved_task list" where
  "moved_list env opens n [] = []"
| "moved_list env opens n (k # ks) = (k, cy_ids env (Suc n), t_title (the (map_of opens k))) # moved_list env opens (Suc n) ks"

lemma moved_list_keys [simp]: "map fst (moved_list env opens n ks) = ks"
  by (induction ks arbitrary: n) simp_all

lemma carry_tasks_moves: "fst (carry_tasks env w m p opens n ks moved au) = Inr (moved @ moved_list env opens n ks)"
  by (induction ks arbitrary: n moved au) (simp_all add: create_task_def Let_def case_prod_unfold)

lemma create_work_order_cases:
  "(\<exists>why. create_work_order tick types c w p m title d ty pr sy b actor au = (Refused why, au)) \<or>
   (\<exists>e. create_work_order tick types c w p m title d ty pr sy b actor au =
      (Done (snd (emit c e au)), tick (fst (emit c e au))))"
proof (cases "\<exists>m'. m = Some m' \<and> pr \<in> set WORK_ORDER_PRIORITIES \<and>
    \<not> (truthy ty \<and> the ty \<notin> set (work_order_type_names types)) \<and> \<not> length (py_strip d) < MIN_DESCRIPTION_CHARS \<and>
    map_of (projects (au_db au)) p \<noteq> None \<and> map_of (milestones (au_db au)) m' \<noteq> None")
  case True
  then show ?thesis
    unfolding create_work_order_def Let_def case_prod_unfold by (elim exE conjE) (simp del: map_option_eq_Some, blast)
next
  case False
  then show ?thesis
    unfolding create_work_order_def by (cases m) auto
qed

lemma carried_work_order_cases:
  "(\<exists>why. carried_work_order env w r reason title au = (Refused why, au)) \<or>
   (\<exists>e. wo_project_id r \<noteq> None \<and> carried_work_order env w r reason title au =
      (Done (snd (emit (cy_calls env 0) e au)), cy_tick env (fst (emit (cy_calls env 0) e au))))"
proof (cases "wo_project_id r")
  case None
  have "\<exists>why. fst (create_work_order tick types c v [] m t d ty pr sy b actor (au\<lparr>au_db := (au_db au)\<lparr>projects := []\<rparr>\<rparr>)) = Refused why"
    for tick types c v m t d ty pr sy b actor
    by (auto simp: create_work_order_def Let_def split: option.split)
  then show ?thesis
    using None by (auto simp: carried_work_order_def Let_def)
next
  case (Some p)
  then show ?thesis
    using create_work_order_cases unfolding carried_work_order_def Let_def by simp
qed

text \<open>A carry is refused, and then nothing has changed, or it has filed every task again.\<close>

lemma carry_over_cases:
  assumes "carry_over env w ids reason title au arts = (out, au', arts')"
  obtains (refused) "au' = au" "arts' = arts"
      "out \<in> {ReasonTooShort, NoTasksNamed, CarryNotFound} \<union> range NotOpenTasks \<union> range NothingRemains \<union> range CarryRefused"
    | (moved) r e where "wo_of w au = Some r" "set ids \<subseteq> fst ` set (open_tasks au w)" "length ids < total_tasks au w"
      "MIN_REASON \<le> length (py_strip (text_or_empty reason))" "ids \<noteq> []"
      "au' = snd (carry_tasks env w (wo_milestone_id r) (the (wo_project_id r)) (open_tasks au w) 0 ids []
        (cy_tick env (fst (emit (cy_calls env 0) e au))))"
      "record_split env w (py_strip (text_or_empty reason)) (moved_list env (open_tasks au w) 0 ids)
        (int (total_tasks au w) - int (length ids)) arts = (out, arts')"
proof (cases "length (py_strip (text_or_empty reason)) < MIN_REASON \<or> ids = [] \<or> wo_of w au = None \<or>
    \<not> set ids \<subseteq> fst ` set (open_tasks au w) \<or> total_tasks au w \<le> length ids")
  case True
  then show ?thesis
    using assms refused by (auto simp: carry_over_def Let_def filter_empty_conv split: option.splits if_splits)
next
  case False
  then obtain r where r: "wo_of w au = Some r"
    by auto
  have some: "set ids \<subseteq> fst ` set (open_tasks au w)" and guards: "\<not> length (py_strip (text_or_empty reason)) < MIN_REASON"
    "ids \<noteq> []" "\<not> total_tasks au w \<le> length ids"
    using False by simp_all
  have none: "filter (\<lambda>k. k \<notin> fst ` set (open_tasks au w)) ids = []"
    using some by (auto simp: filter_empty_conv)
  from carried_work_order_cases [of env w r "py_strip (text_or_empty reason)" title au] show ?thesis
  proof (elim disjE exE conjE)
    fix why
    assume "carried_work_order env w r (py_strip (text_or_empty reason)) title au = (Refused why, au)"
    then show ?thesis
      using assms refused r guards none by (auto simp: carry_over_def Let_def)
  next
    fix e
    assume e: "carried_work_order env w r (py_strip (text_or_empty reason)) title au =
        (Done (snd (emit (cy_calls env 0) e au)), cy_tick env (fst (emit (cy_calls env 0) e au)))"
    let ?c = "carry_tasks env w (wo_milestone_id r) (the (wo_project_id r)) (open_tasks au w) 0 ids []
        (cy_tick env (fst (emit (cy_calls env 0) e au)))"
    obtain au2 where c: "?c = (Inr (moved_list env (open_tasks au w) 0 ids), au2)"
      using carry_tasks_moves [of env w "wo_milestone_id r" "the (wo_project_id r)" "open_tasks au w" 0 ids "[]"
          "cy_tick env (fst (emit (cy_calls env 0) e au))"] by (cases ?c) simp
    then have "carry_over env w ids reason title au arts =
        (let (out, arts1) = record_split env w (py_strip (text_or_empty reason)) (moved_list env (open_tasks au w) 0 ids)
           (int (total_tasks au w) - int (length ids)) arts in (out, au2, arts1))"
      using r guards none by (simp add: carry_over_def Let_def e)
    then show ?thesis
      using moved [OF r some _ _ guards(2), of e] assms guards c by (auto split: prod.splits)
  qed
qed

section \<open>When a carry goes through\<close>

lemma strip_kept:
  assumes "\<not> py_isspace c" and "\<not> py_isspace c'"
  shows "py_strip (c # s @ [c']) = c # s @ [c']"
  using assms by (simp add: py_strip_def py_lstrip_def py_rstrip_def)

lemma carry_description_long: "\<not> length (py_strip (carry_description env w r reason)) < MIN_DESCRIPTION_CHARS"
proof -
  have "\<exists>s. carry_description env w r reason = CHR ''C'' # s @ [CHR ''.''] \<and> 60 \<le> length s"
    unfolding carry_description_def
    by (rule exI [of _ "''arried out of work order '' @ w @ '' on '' @ take 10 (cy_now env) @ '' because the scope changed.'' @
        [CHR 0x0A, CHR 0x0A] @ ''Reason given: '' @ reason @ [CHR 0x0A, CHR 0x0A] @ ''These tasks were authored on '' @
        (case wo_title r of None \<Rightarrow> ''None'' | Some t \<Rightarrow> py_repr t) @
        '' and turned out to belong to different work. The original was closed at its true scope; this work order '' @
        ''holds the remainder''"]) simp
  then obtain s where s: "carry_description env w r reason = CHR ''C'' # s @ [CHR ''.'']" "60 \<le> length s"
    by blast
  have "py_strip (CHR ''C'' # s @ [CHR ''.'']) = CHR ''C'' # s @ [CHR ''.'']"
    by (rule strip_kept) (simp_all add: py_isspace_def)
  with s show ?thesis
    by (simp add: MIN_DESCRIPTION_CHARS_def)
qed

lemma carried_work_order_goes:
  assumes "wo_project_id r = Some p" and "map_of (projects (au_db au)) p \<noteq> None"
    and "wo_milestone_id r = Some m" and "map_of (milestones (au_db au)) m \<noteq> None"
    and "truthy (wo_type r) \<longrightarrow> the (wo_type r) \<in> set (work_order_type_names (cy_types env))"
  shows "\<exists>failed au1. carried_work_order env w r reason title au = (Done failed, au1)"
proof -
  have n: "DEFAULT_WORK_ORDER_PRIORITY \<in> set WORK_ORDER_PRIORITIES"
    by (simp add: DEFAULT_WORK_ORDER_PRIORITY_def WORK_ORDER_PRIORITIES_def)
  show ?thesis
    using assms carry_description_long [of env w r reason] n
    unfolding carried_work_order_def create_work_order_def Let_def case_prod_unfold by (simp del: map_option_eq_Some)
qed

lemma carry_over_goes:
  assumes "wo_of w au = Some r" and "set ids \<subseteq> fst ` set (open_tasks au w)" and "ids \<noteq> []" and "length ids < total_tasks au w"
    and "MIN_REASON \<le> length (py_strip (text_or_empty reason))"
    and "\<exists>failed au1. carried_work_order env w r (py_strip (text_or_empty reason)) title au = (Done failed, au1)"
  shows "\<exists>au'. carry_over env w ids reason title au arts =
    (let (out, arts') = record_split env w (py_strip (text_or_empty reason)) (moved_list env (open_tasks au w) 0 ids)
       (int (total_tasks au w) - int (length ids)) arts in (out, au', arts'))"
proof -
  obtain failed au1 where c: "carried_work_order env w r (py_strip (text_or_empty reason)) title au = (Done failed, au1)"
    using assms(6) by blast
  let ?c = "carry_tasks env w (wo_milestone_id r) (the (wo_project_id r)) (open_tasks au w) 0 ids [] au1"
  obtain au2 where "?c = (Inr (moved_list env (open_tasks au w) 0 ids), au2)"
    using carry_tasks_moves [of env w "wo_milestone_id r" "the (wo_project_id r)" "open_tasks au w" 0 ids "[]" au1] by (cases ?c) simp
  moreover have "filter (\<lambda>k. k \<notin> fst ` set (open_tasks au w)) ids = []"
    using assms(2) by (auto simp: filter_empty_conv)
  ultimately show ?thesis
    using assms(1,3-5) by (auto simp: carry_over_def Let_def c)
qed

lemma record_split_goes:
  assumes "write_attempts (se_answer (cy_store env w)) 0 LOCK_ATTEMPTS = Inr True"
    and "write_attempts (se_answer (cy_store env (cy_ids env 0))) 0 LOCK_ATTEMPTS = Inr True"
  shows "fst (record_split env w reason moved n arts) =
    Carried \<lparr>cw_carried_to = cy_ids env 0, cw_moved = moved, cw_remaining = n\<rparr>"
  using assms by (simp add: record_split_def Let_def set_wo_artifact_def carry_key_def VALID_KINDS_def)

lemma record_split_raises:
  assumes "write_attempts (se_answer (cy_store env w)) 0 LOCK_ATTEMPTS = Inr True"
    and "write_attempts (se_answer (cy_store env (cy_ids env 0))) 0 LOCK_ATTEMPTS = Inl e"
  shows "\<exists>advice. fst (record_split env w reason moved n arts) = SplitNotRecorded advice (cy_ids env 0) moved"
  using assms by (simp add: record_split_def Let_def set_wo_artifact_def carry_key_def VALID_KINDS_def)


section \<open>What a carry guarantees\<close>

lemma carried_split:
  assumes "carry_over env w ids reason title au arts = (Carried c, au', arts')"
  shows "carried_task_ids arts' w = filter (\<lambda>k. k \<noteq> []) ids \<and> set ids \<subseteq> fst ` set (open_tasks au w) \<and>
    length ids < total_tasks au w \<and> ids \<noteq> [] \<and> map fst (cw_moved c) = ids \<and>
    carried_task_ids arts' (cw_carried_to c) = filter (\<lambda>k. k \<noteq> []) ids \<and>
    (\<forall>key. key \<notin> {carry_key w, carry_key (cw_carried_to c)} \<longrightarrow> get_wo_artifact key arts' = get_wo_artifact key arts)"
proof (cases rule: carry_over_cases [OF assms, case_names refused moved])
  case (moved r e)
  from record_split_Carried [OF moved(7)] moved(2,3,5) show ?thesis
    by auto
qed auto

lemma hanging_iff:
  "(k, t) \<in> set (hanging_tasks gv) \<longleftrightarrow> (k, t) \<in> set (tasks (au_db (gv_au gv))) \<and> t_work_order_id t = gv_wo gv \<and>
     t_status t \<notin> {''complete'', ''cancelled''} \<and> k \<notin> set (carried_task_ids (gv_arts gv) (gv_wo gv))"
  by (auto simp: hanging_tasks_def settled_task_statuses_def)

text \<open>C14: After a carry the tasks the close gate still waits for are the unfinished tasks of the work order that
  were not named: the record exempts the named tasks and no other, on both work orders, and the tasks moved are
  the named ones, all of them open before.\<close>

theorem carry_exempts_exactly_the_named:
  assumes "carry_over env w ids reason title au arts = (Carried c, au', arts')" and "gv_arts gv = arts'" and "gv_wo gv = w"
    and "[] \<notin> set ids"
  shows "map fst (cw_moved c) = ids \<and> set ids \<subseteq> fst ` set (open_tasks au w) \<and>
    carried_task_ids arts' w = ids \<and> carried_task_ids arts' (cw_carried_to c) = ids \<and>
    set (hanging_tasks gv) = {(k, t). (k, t) \<in> set (tasks (au_db (gv_au gv))) \<and> t_work_order_id t = w \<and>
       t_status t \<notin> {''complete'', ''cancelled''} \<and> k \<notin> set ids}"
proof -
  have "filter (\<lambda>k. k \<noteq> []) ids = ids"
    using assms(4) by (auto simp: filter_id_conv)
  then show ?thesis
    using carried_split [OF assms(1)] assms(2,3) by (auto simp: hanging_iff)
qed

theorem refused_carry_changes_nothing:
  assumes "carry_over env w ids reason title au arts = (out, au', arts')"
  shows "(\<exists>c. out = Carried c) \<or> (\<exists>advice new moved. out = SplitNotRecorded advice new moved \<and> map fst moved = ids) \<or>
    (au' = au \<and> arts' = arts \<and> (\<forall>k new. out \<noteq> TaskNotRecreated k new))"
proof (cases rule: carry_over_cases [OF assms, case_names refused moved])
  case (moved r e)
  then show ?thesis
    by (auto simp: record_split_def Let_def split: prod.splits sum.splits if_splits)
qed auto

text \<open>C39: A second carry of a work order writes its record over the first, so the tasks carried first, deleted
  since, are no longer exempt and the close gate refuses the work order for them.\<close>

theorem second_carry_forgets_the_first:
  assumes "carry_over env1 w ids1 reason1 title1 au arts = (Carried c1, au1, arts1)"
    and "carry_over env2 w ids2 reason2 title2 au2 arts1 = (Carried c2, au3, arts3)"
    and "k \<in> set ids1" and "k \<noteq> []" and "distinct (keys (tasks (au_db au2)))"
    and "map_of (tasks (au_db au2)) k = Some t" and "t_status t = ''deleted''"
    and "map_of (tasks (au_db (gv_au gv))) k = Some t" and "t_work_order_id t = w" and "gv_arts gv = arts3" and "gv_wo gv = w"
  shows "k \<in> set (carried_task_ids arts1 w) \<and> k \<notin> set (carried_task_ids arts3 w) \<and> check_tasks_done gv \<noteq> []"
proof -
  have "k \<notin> fst ` set (open_tasks au2 w)"
    using assms(5-7) map_of_is_SomeI [OF assms(5)] by (fastforce simp: open_tasks_def)
  then have "k \<notin> set (carried_task_ids arts3 w)"
    using carried_split [OF assms(2)] by auto
  moreover have "(k, t) \<in> set (hanging_tasks gv)" if "k \<notin> set (carried_task_ids arts3 w)"
    using that map_of_SomeD [OF assms(8)] assms(7,9-11) by (simp add: hanging_iff)
  ultimately show ?thesis
    using carried_split [OF assms(1)] assms(3,4) by (auto simp: check_tasks_done_def Let_def)
qed

section \<open>A carry whose events are lost\<close>

lemma lost_emit [simp]: "\<not> c_spool_ok c \<Longrightarrow> emit c e au = (au, True)"
  by (simp add: emit_def)

lemma lost_carry_tasks:
  assumes "\<forall>n. \<not> c_spool_ok (cy_calls env n)" and "cy_tick env = (\<lambda>a. a)"
  shows "snd (carry_tasks env w m p opens n ks moved au) = au"
  using assms by (induction ks arbitrary: n moved) (simp_all add: create_task_def emit_task_deleted_def Let_def case_prod_unfold)

text \<open>The events are what creates the work order and the tasks; the carry does not look whether they were written.\<close>

theorem carry_without_events:
  assumes "carry_over env w ids reason title au arts = (Carried c, au', arts')"
    and "\<forall>n. \<not> c_spool_ok (cy_calls env n)" and "cy_tick env = (\<lambda>a. a)" and "[] \<notin> set ids"
    and "\<forall>(k, t)\<in>set (open_tasks au w). k \<in> set ids"
    and "\<forall>(k, t)\<in>set (tasks (au_db au)). t_work_order_id t = w \<longrightarrow> t_status t \<noteq> ''deleted''"
  shows "au' = au \<and> check_tasks_done \<lparr>gv_au = au', gv_arts = arts', gv_wo = w, gv_project = p\<rparr> = []"
proof -
  have "au' = au"
  proof (cases rule: carry_over_cases [OF assms(1), case_names refused moved])
    case (moved r e)
    then show ?thesis
      using lost_carry_tasks [OF assms(2,3)] assms(2,3) by simp
  qed auto
  moreover have "hanging_tasks \<lparr>gv_au = au, gv_arts = arts', gv_wo = w, gv_project = p\<rparr> = []"
  proof (rule ccontr)
    assume "\<not> ?thesis"
    then obtain k t where "(k, t) \<in> set (hanging_tasks \<lparr>gv_au = au, gv_arts = arts', gv_wo = w, gv_project = p\<rparr>)"
      by (metis list.set_intros(1) neq_Nil_conv surj_pair)
    then have "(k, t) \<in> set (open_tasks au w)" "k \<notin> set (carried_task_ids arts' w)"
      using assms(6) by (auto simp: hanging_iff open_tasks_def)
    then show False
      using carried_split [OF assms(1)] assms(4,5) by auto
  qed
  ultimately show ?thesis
    by (simp add: check_tasks_done_def)
qed

section \<open>The advice after a failed record\<close>

text \<open>When the second write raises, the first has landed; the advice denies it.\<close>

theorem recovery_advice_denies_the_record:
  assumes "carry_over env w ids reason title au arts = (SplitNotRecorded advice new moved, au', arts')"
    and "write_attempts (se_answer (cy_store env w)) 0 LOCK_ATTEMPTS = Inr True"
    and "write_attempts (se_answer (cy_store env new)) 0 LOCK_ATTEMPTS = Inl e" and "[] \<notin> set ids"
  shows "carried_task_ids arts' w = ids \<and> (\<exists>detail. advice = recovery_advice w new False detail)"
proof (cases rule: carry_over_cases [OF assms(1), case_names refused moved])
  case (moved r e')
  let ?rec = "json_dumps (Some 2) (carry_record env w (py_strip (text_or_empty reason)) (moved_list env (open_tasks au w) 0 ids))"
  have new: "new = cy_ids env 0"
    using moved(7) by (auto simp: record_split_def Let_def split: prod.splits sum.splits if_splits)
  have k: "fst (snd (carry_key v)) \<in> set VALID_KINDS" for v
    by (simp add: carry_key_def VALID_KINDS_def)
  obtain arts1 where a1: "set_wo_artifact (cy_store env w) (carry_key w) ?rec None arts = (Inr True, arts1)"
    using k [of w] assms(2) by (auto simp: set_wo_artifact_def)
  have a2: "set_wo_artifact (cy_store env new) (carry_key new) ?rec None arts1 = (Inl (StoreFault e), arts1)"
    using k [of new] assms(3) by (simp add: set_wo_artifact_def)
  have "arts' = arts1" "\<exists>detail. advice = recovery_advice w new False detail"
    using moved(7) a1 a2 by (auto simp: record_split_def Let_def new)
  moreover have "carried_task_ids arts1 w = filter (\<lambda>k. k \<noteq> []) (map fst (moved_list env (open_tasks au w) 0 ids))"
    by (rule carried_of_record) (simp add: record_stored [OF a1 carry_record_bare])
  moreover have "filter (\<lambda>k. k \<noteq> []) ids = ids"
    using assms(4) by (auto simp: filter_id_conv)
  ultimately show ?thesis
    by simp
qed auto

section \<open>Concrete carries\<close>

definition sample_carry_env :: "bool \<Rightarrow> sqlite_error option \<Rightarrow> carry_env" where
  "sample_carry_env ok fault =
     \<lparr>cy_tick = \<lambda>a. a, cy_types = [], cy_now = ''2026-09-01T10:00'',
      cy_calls = \<lambda>n. \<lparr>c_now = ''t'', c_uuid = ''e'', c_spool_ok = ok, c_remembers = True\<rparr>,
      cy_ids = \<lambda>n. if n = 0 then ''w2'' else ''k9'',
      cy_store = \<lambda>v. \<lparr>se_now = ''t'', se_answer = \<lambda>n. if v = ''w1'' then None else fault, se_git = \<lambda>argv. None, se_root = None\<rparr>,
      cy_fault = \<lambda>e. ''IntegrityError''\<rparr>"

definition sample_carry_task :: "string \<Rightarrow> task_row" where
  "sample_carry_task s =
     \<lparr>t_work_order_id = ''w1'', t_project_id = ''p1'', t_title = ''T'', t_description = None, t_status = s,
      t_created_at = ''t0'', t_updated_at = ''t0'', t_source_event_id = None, t_last_event_id = None,
      t_acceptance_criteria = None\<rparr>"

definition sample_carry_authority :: "(string \<times> string) list \<Rightarrow> authority" where
  "sample_carry_authority ts =
     \<lparr>au_db = (sample_db ''w1'' ''p1'')\<lparr>
        milestones := [(''m1'', \<lparr>m_project_id = ''p1'', m_title = ''M'', m_description = None, m_status = ''pending'',
          m_order_index = 0, m_created_at = ''t0'', m_updated_at = ''t0'', m_source_event_id = None,
          m_last_event_id = None\<rparr>)],
        work_orders := [(''w1'', wo_default\<lparr>wo_project_id := Some ''p1'', wo_milestone_id := Some ''m1''\<rparr>)],
        tasks := map (\<lambda>(k, s). (k, sample_carry_task s)) ts\<rparr>,
      au_deps = [], au_spool = empty_spool\<rparr>"

definition sample_carry :: "carry_env \<Rightarrow> (string \<times> string) list \<Rightarrow> string \<Rightarrow> artifact_table \<Rightarrow> carry_outcome \<times> authority \<times> artifact_table" where
  "sample_carry env ts k arts =
     carry_over env ''w1'' [k] (Some ''the scope of this changed'') ''The rest'' (sample_carry_authority ts) arts"

lemma sample_carried:
  assumes "fst (sample_carry env ts k arts) = Carried c"
  obtains au' where "carry_over env ''w1'' [k] (Some ''the scope of this changed'') ''The rest'' (sample_carry_authority ts) arts =
    (Carried c, au', snd (snd (sample_carry env ts k arts)))"
  using assms unfolding sample_carry_def by (metis prod.collapse)

definition sample_moved :: "string \<Rightarrow> int \<Rightarrow> carry_result" where
  "sample_moved k n = \<lparr>cw_carried_to = ''w2'', cw_moved = [(k, ''k9'', ''T'')], cw_remaining = n\<rparr>"

lemma sample_total: "total_tasks (sample_carry_authority ts) ''w1'' = length ts"
proof -
  have "filter (\<lambda>(k, t). t_work_order_id t = ''w1'') (map (\<lambda>(k, s). (k, sample_carry_task s)) ts) = map (\<lambda>(k, s). (k, sample_carry_task s)) ts"
    by (auto simp: filter_id_conv sample_carry_task_def)
  then show ?thesis
    by (simp add: total_tasks_def sample_carry_authority_def)
qed

lemma sample_open:
  assumes "(k, s) \<in> set ts" and "s \<notin> {''complete'', ''cancelled'', ''deleted''}"
  shows "k \<in> fst ` set (open_tasks (sample_carry_authority ts) ''w1'')"
    and "t_title (the (map_of (open_tasks (sample_carry_authority ts) ''w1'') k)) = ''T''"
proof -
  have k: "(k, sample_carry_task s) \<in> set (open_tasks (sample_carry_authority ts) ''w1'')"
    using assms by (force simp: open_tasks_def sample_carry_authority_def sample_carry_task_def)
  then show "k \<in> fst ` set (open_tasks (sample_carry_authority ts) ''w1'')"
    by force
  obtain t where "map_of (open_tasks (sample_carry_authority ts) ''w1'') k = Some t"
    using k weak_map_of_SomeI by fast
  moreover from map_of_SomeD [OF this] have "t_title t = ''T''"
    by (auto simp: open_tasks_def sample_carry_authority_def sample_carry_task_def)
  ultimately show "t_title (the (map_of (open_tasks (sample_carry_authority ts) ''w1'') k)) = ''T''"
    by simp
qed

lemma sample_row:
  "wo_of ''w1'' (sample_carry_authority ts) = Some (wo_default\<lparr>wo_project_id := Some ''p1'', wo_milestone_id := Some ''m1''\<rparr>)"
  "map_of (projects (au_db (sample_carry_authority ts))) ''p1'' \<noteq> None"
  "map_of (milestones (au_db (sample_carry_authority ts))) ''m1'' \<noteq> None"
  by (simp_all add: wo_of_def sample_carry_authority_def sample_db_def)

abbreviation sample_reason :: "string option" where
  "sample_reason \<equiv> Some ''the scope of this changed''"

lemma sample_reason_long: "MIN_REASON \<le> length (py_strip (text_or_empty sample_reason))"
  by code_simp

lemma sample_split:
  assumes "(k, s) \<in> set ts" and "s \<notin> {''complete'', ''cancelled'', ''deleted''}" and "1 < length ts"
  shows "fst (sample_carry (sample_carry_env ok fault) ts k arts) =
    fst (record_split (sample_carry_env ok fault) ''w1'' (py_strip (text_or_empty sample_reason)) [(k, ''k9'', ''T'')]
      (int (length ts) - 1) arts)"
proof -
  have m: "moved_list (sample_carry_env ok fault) (open_tasks (sample_carry_authority ts) ''w1'') 0 [k] = [(k, ''k9'', ''T'')]"
    by (simp add: sample_open [OF assms(1,2)], simp add: sample_carry_env_def)
  have "\<exists>au'. carry_over (sample_carry_env ok fault) ''w1'' [k] sample_reason ''The rest'' (sample_carry_authority ts) arts =
    (let (out, arts') = record_split (sample_carry_env ok fault) ''w1'' (py_strip (text_or_empty sample_reason))
       (moved_list (sample_carry_env ok fault) (open_tasks (sample_carry_authority ts) ''w1'') 0 [k])
       (int (total_tasks (sample_carry_authority ts) ''w1'') - int (length [k])) arts in (out, au', arts'))"
    by (rule carry_over_goes [OF sample_row(1) _ _ _ sample_reason_long])
      (use assms sample_open [OF assms(1,2)] sample_row in
        \<open>auto simp: sample_total wo_default_def intro!: carried_work_order_goes\<close>)
  then show ?thesis
    unfolding m sample_carry_def by (auto simp: sample_total case_prod_unfold Let_def)
qed

lemma sample_answers:
  "write_attempts (se_answer (cy_store (sample_carry_env ok fault) ''w1'')) 0 LOCK_ATTEMPTS = Inr True"
  "cy_ids (sample_carry_env ok fault) 0 = ''w2''"
  "write_attempts (se_answer (cy_store (sample_carry_env ok None) ''w2'')) 0 LOCK_ATTEMPTS = Inr True"
  by (simp_all add: sample_carry_env_def LOCK_ATTEMPTS_def numeral_eq_Suc)

lemma sample_goes:
  assumes "(k, s) \<in> set ts" and "s \<notin> {''complete'', ''cancelled'', ''deleted''}" and "1 < length ts"
  shows "fst (sample_carry (sample_carry_env ok None) ts k arts) = Carried (sample_moved k (int (length ts) - 1))"
  unfolding sample_split [OF assms]
  by (subst record_split_goes) (simp_all add: sample_answers sample_moved_def)


lemma sample_first_carry:
  "fst (sample_carry (sample_carry_env True None) [(''k1'', ''created''), (''k2'', ''created'')] ''k1'' []) = Carried (sample_moved ''k1'' 1)"
  using sample_goes [of "''k1''" "''created''"] by simp

definition sample_first_arts :: artifact_table where
  "sample_first_arts = snd (snd (sample_carry (sample_carry_env True None) [(''k1'', ''created''), (''k2'', ''created'')] ''k1'' []))"

lemma carry_exempts_exactly_the_named_witness: "carried_task_ids sample_first_arts ''w1'' = [''k1'']"
proof -
  obtain au' where "carry_over (sample_carry_env True None) ''w1'' [''k1''] (Some ''the scope of this changed'') ''The rest''
      (sample_carry_authority [(''k1'', ''created''), (''k2'', ''created'')]) [] = (Carried (sample_moved ''k1'' 1), au', sample_first_arts)"
    using sample_carried [OF sample_first_carry] unfolding sample_first_arts_def .
  from carry_exempts_exactly_the_named [OF this, of "\<lparr>gv_au = au', gv_arts = sample_first_arts, gv_wo = ''w1'', gv_project = []\<rparr>"]
  show ?thesis by simp
qed

lemma refused_carry_changes_nothing_witness:
  "sample_carry (sample_carry_env True None) [(''k1'', ''created'')] ''k1'' [] =
     (NothingRemains 1, sample_carry_authority [(''k1'', ''created'')], [])"
proof -
  have out: "fst (sample_carry (sample_carry_env True None) [(''k1'', ''created'')] ''k1'' []) = NothingRemains 1"
    by code_simp
  obtain au' arts' where r: "sample_carry (sample_carry_env True None) [(''k1'', ''created'')] ''k1'' [] = (NothingRemains 1, au', arts')"
    using out by (metis prod.collapse)
  from refused_carry_changes_nothing [OF this [unfolded sample_carry_def]] show ?thesis
    unfolding r by simp
qed

abbreviation second_tasks :: "(string \<times> string) list" where
  "second_tasks \<equiv> [(''k1'', ''deleted''), (''k2'', ''created''), (''k3'', ''complete'')]"

definition sample_second_view :: gate_view where
  "sample_second_view = \<lparr>gv_au = sample_carry_authority second_tasks,
     gv_arts = snd (snd (sample_carry (sample_carry_env True None) second_tasks ''k2'' sample_first_arts)),
     gv_wo = ''w1'', gv_project = []\<rparr>"

lemma sample_second_carry:
  "fst (sample_carry (sample_carry_env True None) second_tasks ''k2'' sample_first_arts) = Carried (sample_moved ''k2'' 2)"
  using sample_goes [of "''k2''" "''created''" second_tasks] by simp

lemma sample_deleted_task: "map_of (tasks (au_db (sample_carry_authority second_tasks))) ''k1'' = Some (sample_carry_task ''deleted'')"
  "distinct (keys (tasks (au_db (sample_carry_authority second_tasks))))"
  by (simp_all add: sample_carry_authority_def)

lemma second_carry_forgets_the_first_witness: "check_tasks_done sample_second_view \<noteq> []"
proof -
  obtain au1 where first: "carry_over (sample_carry_env True None) ''w1'' [''k1''] (Some ''the scope of this changed'') ''The rest''
      (sample_carry_authority [(''k1'', ''created''), (''k2'', ''created'')]) [] = (Carried (sample_moved ''k1'' 1), au1, sample_first_arts)"
    using sample_carried [OF sample_first_carry] unfolding sample_first_arts_def .
  obtain au3 where second: "carry_over (sample_carry_env True None) ''w1'' [''k2''] (Some ''the scope of this changed'') ''The rest''
      (sample_carry_authority second_tasks) sample_first_arts = (Carried (sample_moved ''k2'' 2), au3, gv_arts sample_second_view)"
    using sample_carried [OF sample_second_carry] unfolding sample_second_view_def gate_view.select_convs .
  from second_carry_forgets_the_first [OF first second, of "''k1''" "sample_carry_task ''deleted''" sample_second_view]
  show ?thesis
    by (simp add: sample_deleted_task sample_second_view_def sample_carry_task_def)
qed

lemma carry_without_events_witness:
  "\<exists>arts'. sample_carry (sample_carry_env False None) [(''k1'', ''created''), (''k2'', ''complete'')] ''k1'' [] =
     (Carried (sample_moved ''k1'' 1), sample_carry_authority [(''k1'', ''created''), (''k2'', ''complete'')], arts') \<and>
     check_tasks_done \<lparr>gv_au = sample_carry_authority [(''k1'', ''created''), (''k2'', ''complete'')], gv_arts = arts', gv_wo = ''w1'',
       gv_project = []\<rparr> = []"
proof -
  let ?au = "sample_carry_authority [(''k1'', ''created''), (''k2'', ''complete'')]"
  have "fst (sample_carry (sample_carry_env False None) [(''k1'', ''created''), (''k2'', ''complete'')] ''k1'' []) =
      Carried (sample_moved ''k1'' 1)"
    using sample_goes [of "''k1''" "''created''"] by simp
  then obtain au' arts' where r: "sample_carry (sample_carry_env False None) [(''k1'', ''created''), (''k2'', ''complete'')] ''k1'' [] =
      (Carried (sample_moved ''k1'' 1), au', arts')"
    by (metis prod.collapse)
  have "au' = ?au \<and> check_tasks_done \<lparr>gv_au = au', gv_arts = arts', gv_wo = ''w1'', gv_project = []\<rparr> = []"
    by (rule carry_without_events [OF r [unfolded sample_carry_def]])
      (auto simp: sample_carry_env_def open_tasks_def sample_carry_authority_def sample_carry_task_def)
  then show ?thesis
    using r by auto
qed

lemma recovery_advice_denies_the_record_witness:
  "\<exists>detail new moved au' arts'. sample_carry (sample_carry_env True (Some (sqlite_error.IntegrityError ''constraint'')))
       [(''k1'', ''created''), (''k2'', ''created'')] ''k1'' [] =
     (SplitNotRecorded (recovery_advice ''w1'' ''w2'' False detail) new moved, au', arts') \<and>
     carried_task_ids arts' ''w1'' = [''k1'']"
proof -
  let ?env = "sample_carry_env True (Some (sqlite_error.IntegrityError ''constraint''))"
  have w: "write_attempts (se_answer (cy_store ?env ''w1'')) 0 LOCK_ATTEMPTS = Inr True"
    "write_attempts (se_answer (cy_store ?env ''w2'')) 0 LOCK_ATTEMPTS = Inl (sqlite_error.IntegrityError ''constraint'')"
    by code_simp+
  have "\<exists>advice moved. fst (sample_carry ?env [(''k1'', ''created''), (''k2'', ''created'')] ''k1'' []) =
      SplitNotRecorded advice ''w2'' moved"
    using sample_split [of "''k1''" "''created''" "[(''k1'', ''created''), (''k2'', ''created'')]"]
      record_split_raises [of ?env "''w1''", unfolded sample_answers(2), OF w] by (simp, blast)
  then obtain advice moved au' arts' where r: "sample_carry ?env [(''k1'', ''created''), (''k2'', ''created'')] ''k1'' [] =
      (SplitNotRecorded advice ''w2'' moved, au', arts')"
    by (metis prod.collapse)
  from recovery_advice_denies_the_record [OF r [unfolded sample_carry_def] w] r show ?thesis
    by auto
qed

end
