(* ===== verification/Reconcile.thy ===== *)
theory Reconcile
  imports Milestones Carry_Over
begin

text \<open>
  The drift report (\<^verbatim>\<open>core/work_orders/reconcile.py\<close>): the records the authority holds open whose work looks
  finished. The report names a command for each of them; the properties compare it with what the close of a
  work order and of a milestone do. The cutoff of the stale records, thirty days before the clock reading, is
  an argument, and the layout of the printed report is left out.
\<close>

section \<open>The report\<close>

definition OPEN_WO :: "string list" where
  "OPEN_WO = [''created'', ''in_progress'']"

definition DONE_TASK :: "string list" where
  "DONE_TASK = [''complete'', ''cancelled'']"

record drift =
  completable_work_orders :: "(string \<times> string option \<times> string) list"
  completable_milestones :: "(string \<times> string \<times> string) list"
  stale_in_progress :: "(string \<times> string option \<times> string) list"

definition drift_total :: "drift \<Rightarrow> nat" where
  "drift_total d = length (completable_work_orders d) + length (completable_milestones d) + length (stale_in_progress d)"

definition drift_label :: "string option \<Rightarrow> nat \<Rightarrow> string \<Rightarrow> string" where
  "drift_label v width no_title = (case v of None \<Rightarrow> no_title | Some t \<Rightarrow> take width t)"

text \<open>An empty project id is no scope.\<close>

definition in_scope :: "string option \<Rightarrow> string option \<Rightarrow> bool" where
  "in_scope project_id p = (truthy project_id \<longrightarrow> p = project_id)"

definition work_order_tasks :: "string \<Rightarrow> authority \<Rightarrow> task_row list" where
  "work_order_tasks w au = map snd (filter (\<lambda>(k, t). t_work_order_id t = w) (tasks (au_db au)))"

definition find_completable_work_orders :: "string option \<Rightarrow> authority \<Rightarrow> (string \<times> string option \<times> string) list" where
  "find_completable_work_orders project_id au =
     map (\<lambda>(k, r). (k, wo_title r, wo_status r))
       (sort_key (\<lambda>(k, r). text_or_empty (wo_created_at r))
         (filter (\<lambda>(k, r). wo_status r \<in> set OPEN_WO \<and> in_scope project_id (wo_project_id r) \<and> work_order_tasks k au \<noteq> [] \<and>
            \<not> list_ex (\<lambda>t. t_status t \<notin> set DONE_TASK) (work_order_tasks k au)) (work_orders (au_db au))))"

definition find_completable_milestones :: "string option \<Rightarrow> authority \<Rightarrow> (string \<times> string \<times> string) list" where
  "find_completable_milestones project_id au =
     map (\<lambda>(k, r). (k, m_title r, m_status r))
       (sort_key (\<lambda>(k, r). m_order_index r) (sort_key (\<lambda>(k, r). m_created_at r)
         (filter (\<lambda>(k, r). m_status r \<notin> {''closed'', ''cancelled'', ''complete''} \<and> in_scope project_id (Some (m_project_id r)) \<and>
            \<not> list_ex (\<lambda>(w, x). wo_milestone_id x = Some k \<and> wo_status x \<in> set OPEN_WO) (work_orders (au_db au)))
           (milestones (au_db au)))))"

definition find_stale_in_progress :: "string \<Rightarrow> string option \<Rightarrow> authority \<Rightarrow> (string \<times> string option \<times> string) list" where
  "find_stale_in_progress cutoff project_id au =
     map (\<lambda>(k, r). (k, wo_title r, the (wo_started_at r)))
       (sort_key (\<lambda>(k, r). the (wo_started_at r))
         (filter (\<lambda>(k, r). wo_status r = ''in_progress'' \<and> in_scope project_id (wo_project_id r) \<and>
            (case wo_started_at r of None \<Rightarrow> False | Some s \<Rightarrow> s < cutoff)) (work_orders (au_db au))))"

definition find_drift :: "string \<Rightarrow> string option \<Rightarrow> authority \<Rightarrow> drift" where
  "find_drift cutoff project_id au =
     \<lparr>completable_work_orders = find_completable_work_orders project_id au,
      completable_milestones = find_completable_milestones project_id au,
      stale_in_progress = find_stale_in_progress cutoff project_id au\<rparr>"

section \<open>What it reports\<close>

lemma completable_work_order_iff:
  "(k, t, s) \<in> set (find_completable_work_orders p au) \<longleftrightarrow>
     (\<exists>r. (k, r) \<in> set (work_orders (au_db au)) \<and> wo_title r = t \<and> wo_status r = s \<and> s \<in> set OPEN_WO \<and>
        in_scope p (wo_project_id r) \<and> work_order_tasks k au \<noteq> [] \<and> (\<forall>x\<in>set (work_order_tasks k au). t_status x \<in> set DONE_TASK))"
  by (force simp: find_completable_work_orders_def list_ex_iff)

lemma completable_milestone_iff:
  "(k, t, s) \<in> set (find_completable_milestones p au) \<longleftrightarrow>
     (\<exists>r. (k, r) \<in> set (milestones (au_db au)) \<and> m_title r = t \<and> m_status r = s \<and> s \<notin> {''closed'', ''cancelled'', ''complete''} \<and>
        in_scope p (Some (m_project_id r)) \<and>
        (\<forall>(w, x)\<in>set (work_orders (au_db au)). wo_milestone_id x = Some k \<longrightarrow> wo_status x \<notin> set OPEN_WO))"
  by (force simp: find_completable_milestones_def list_ex_iff)

lemma work_order_tasks_iff: "t \<in> set (work_order_tasks w au) \<longleftrightarrow> (\<exists>k. (k, t) \<in> set (tasks (au_db au)) \<and> t_work_order_id t = w)"
  by (force simp: work_order_tasks_def)

text \<open>C40: The drift report names a work order as completable, with the command that closes it: its tasks do hold
  nothing back, but the close refuses it for its phase, always and with force, whatever else is true of it.\<close>

theorem reported_work_order_cannot_close:
  assumes "(w, title, s) \<in> set (completable_work_orders (find_drift cutoff p au))" and "distinct (keys (work_orders (au_db au)))"
    and "gv_au gv = au" and "gv_wo gv = w"
  shows "check_tasks_done gv = [] \<and>
    (\<exists>text. close_work_order c window failures review_missing main_red force uuids actor w au = (Refused (PhaseRefused text), au))"
proof -
  obtain r where r: "(w, r) \<in> set (work_orders (au_db au))" "wo_status r \<in> set OPEN_WO"
    and finished: "\<forall>x\<in>set (work_order_tasks w au). t_status x \<in> set DONE_TASK"
    using assms(1) by (auto simp: find_drift_def completable_work_order_iff)
  have "wo_of w au = Some r"
    using r(1) assms(2) by (simp add: wo_of_def map_of_is_SomeI)
  moreover have "transition_refusal w (Some (wo_status r)) ''closed'' \<noteq> None"
    using r(2) by (auto simp: OPEN_WO_def transition_allowed_iff)
  moreover have "(k, t) \<notin> set (hanging_tasks gv)" for k t
    using finished assms(3,4) by (auto simp: hanging_iff DONE_TASK_def work_order_tasks_iff)
  then have "hanging_tasks gv = []"
    by (metis list.set_intros(1) neq_Nil_conv surj_pair)
  ultimately show ?thesis
    by (auto simp: check_tasks_done_def Let_def close_work_order_def close_phase_refusal_def)
qed

theorem reported_milestone_cannot_close:
  assumes "(m, title, s) \<in> set (completable_milestones (find_drift cutoff p au))" and "distinct (keys (milestones (au_db au)))"
    and "(w, r) \<in> set (work_orders (au_db au))" and "wo_milestone_id r = Some m" and "wo_status r \<notin> set TERMINAL_WO_STATUSES"
    and "\<forall>(i, e)\<in>set (sp_business (au_spool au)). ev_work_order_id e = Some w \<longrightarrow> ev_type e \<noteq> WORK_ORDER_CLOSED"
  shows "wo_status r \<notin> {''created'', ''in_progress''} \<and>
    (\<exists>ws. close_milestone sync_tick types env c uuids m force au = (OpenWorkRemains ws, au) \<and> (w, wo_title r, wo_status r) \<in> set ws)"
proof -
  obtain mr where m: "(m, mr) \<in> set (milestones (au_db au))"
    and open_only: "\<forall>(w, x)\<in>set (work_orders (au_db au)). wo_milestone_id x = Some m \<longrightarrow> wo_status x \<notin> set OPEN_WO"
    using assms(1) by (auto simp: find_drift_def completable_milestone_iff)
  have mo: "map_of (milestones (au_db au)) m = Some mr"
    using m assms(2) by (simp add: map_of_is_SomeI)
  have "(w, wo_title r, wo_status r) \<in> set (open_work_orders m au)"
    using assms(3-6) by (auto simp: open_work_orders_iff)
  then show ?thesis
    using mo open_only assms(3,4) by (auto simp: close_milestone_def Let_def OPEN_WO_def)
qed

text \<open>A task carried away leaves a deleted row, which the report counts as open and the task gate does not.\<close>

lemma carried_work_order_not_reported:
  assumes "(k, t) \<in> set (tasks (au_db au))" and "t_work_order_id t = w" and "t_status t = ''deleted''"
  shows "(w, title, s) \<notin> set (completable_work_orders (find_drift cutoff p au))"
proof -
  have "t \<in> set (work_order_tasks w au)"
    using assms(1,2) by (auto simp: work_order_tasks_iff)
  then show ?thesis
    using assms(3) by (fastforce simp: find_drift_def completable_work_order_iff DONE_TASK_def)
qed

section \<open>Concrete reports\<close>

definition sample_drift_authority :: "string \<Rightarrow> authority" where
  "sample_drift_authority s =
     (sample_milestone_authority s)\<lparr>au_spool := empty_spool,
        au_db := (au_db (sample_milestone_authority s))\<lparr>tasks := [(''k1'', \<lparr>t_work_order_id = ''w1'', t_project_id = ''p1'',
          t_title = ''T'', t_description = None, t_status = ''complete'', t_created_at = ''t0'', t_updated_at = ''t0'',
          t_source_event_id = None, t_last_event_id = None, t_acceptance_criteria = None\<rparr>)]\<rparr>\<rparr>"

lemma reported_work_order_cannot_close_witness:
  "\<exists>text. close_work_order sample_milestone_call (\<lambda>a. a) [] False False True (\<lambda>i. ''b'') None ''w1'' (sample_drift_authority ''in_progress'') =
     (Refused (PhaseRefused text), sample_drift_authority ''in_progress'')"
proof -
  let ?au = "sample_drift_authority ''in_progress''"
  have "(''w1'', None, ''in_progress'') \<in> set (completable_work_orders (find_drift ''t'' None ?au))"
    "distinct (keys (work_orders (au_db ?au)))"
    by code_simp+
  from reported_work_order_cannot_close [OF this, of "\<lparr>gv_au = ?au, gv_arts = [], gv_wo = ''w1'', gv_project = ''p1''\<rparr>"]
  show ?thesis by simp
qed

lemma reported_milestone_cannot_close_witness:
  "\<exists>ws. close_milestone (\<lambda>a. a) [] sample_milestone_env sample_milestone_call (\<lambda>i. ''b'') ''m1'' True (sample_drift_authority ''pushed'') =
     (OpenWorkRemains ws, sample_drift_authority ''pushed'')"
proof -
  let ?au = "sample_drift_authority ''pushed''" and ?r = "wo_default\<lparr>wo_status := ''pushed'', wo_milestone_id := Some ''m1''\<rparr>"
  have m: "(''m1'', ''M'', ''deleted'') \<in> set (completable_milestones (find_drift ''t'' None ?au))"
    "distinct (keys (milestones (au_db ?au)))"
    by code_simp+
  have w: "(''w1'', ?r) \<in> set (work_orders (au_db ?au))" "wo_milestone_id ?r = Some ''m1''"
    "wo_status ?r \<notin> set TERMINAL_WO_STATUSES"
    "\<forall>(i, e)\<in>set (sp_business (au_spool ?au)). ev_work_order_id e = Some ''w1'' \<longrightarrow> ev_type e \<noteq> WORK_ORDER_CLOSED"
    by (simp_all add: sample_drift_authority_def sample_milestone_authority_def empty_spool_def TERMINAL_WO_STATUSES_def)
  from reported_milestone_cannot_close [OF m w] show ?thesis by blast
qed

end
