(* ===== verification/Task_Criteria.thy ===== *)
theory Task_Criteria
  imports Admission Close_Checks Lane_Review
begin

text \<open>
  The two doors to the acceptance criterion of a task: filing a task with the full admission (\<open>add_task\<close> of
  \<^verbatim>\<open>core/work_orders/mutations.py\<close>) and correcting a criterion (\<^verbatim>\<open>core/work_orders/repoint_ac.py\<close>).

  Which paths are files is a parameter, as in \<open>Admission\<close>. The texts of a check that was run, its error and its
  result, are a parameter of the repoint, which searches them for two phrases.
\<close>

section \<open>Filing\<close>

definition task_rows :: "string \<Rightarrow> authority \<Rightarrow> task_row list" where
  "task_rows w au = map snd (filter (\<lambda>(k, t). t_work_order_id t = w) (tasks (au_db au)))"

text \<open>The criteria of the open tasks, the last title of each.\<close>

definition open_criteria :: "task_row list \<Rightarrow> (string \<times> string) list" where
  "open_criteria rows =
     fold (\<lambda>t acc. let ac = py_strip (text_or_empty (t_acceptance_criteria t)) in
         if t_status t \<in> {''pending'', ''in_progress''} \<and> ac \<noteq> [] then AList.update ac (t_title t) acc else acc) rows []"

datatype filing =
    RoundTableRefused "admission_reason list" "admission_reason list"
  | NotProjected
  | Filing outcome "admission_reason list"

definition add_task ::
    "(authority \<Rightarrow> authority) \<Rightarrow> (string \<Rightarrow> bool) \<Rightarrow> call \<Rightarrow> string \<Rightarrow> string \<Rightarrow> string \<Rightarrow> string \<Rightarrow> string option
      \<Rightarrow> string option \<Rightarrow> string option \<Rightarrow> string option \<Rightarrow> authority \<Rightarrow> filing \<times> authority" where
  "add_task sync_tick is_file c k w title description acceptance_criteria why project_id actor au =
     (let wo_description = (case wo_of w au of None \<Rightarrow> [] | Some r \<Rightarrow> text_or_empty (wo_description r));
          rows = task_rows w au;
          v = admit_task is_file
                \<lparr>pr_title = title, pr_criteria = acceptance_criteria, pr_why = why, pr_description = description\<rparr>
                wo_description (map t_title rows) (open_criteria rows) (paths_named is_file (title @ '' '' @ description))
      in if \<not> vd_admitted v then (RoundTableRefused (vd_refusals v) (vd_unknowns v), au)
         else (case (if project_id = None then work_order_project au w else project_id) of
            None \<Rightarrow> (NotProjected, au)
          | Some p \<Rightarrow>
              let (out, au') = create_task sync_tick (\<lambda>ac why d. criterion_refusal is_file ac why (Some d) \<noteq> None)
                    c k w p title description acceptance_criteria why None actor au
              in (Filing out (case out of Done _ \<Rightarrow> vd_unknowns v | _ \<Rightarrow> []), au')))"

section \<open>Repointing\<close>

definition MIN_REPOINT_REASON :: nat where
  "MIN_REPOINT_REASON = 12"

definition names_misaddress :: "string \<times> string \<Rightarrow> bool" where
  "names_misaddress texts =
     (let (error, result) = texts in
      py_in ''USAGE ERROR'' error \<or> py_in ''USAGE ERROR'' result \<or> py_in ''misaddressed'' (py_lower error))"

definition probe_task :: "string \<Rightarrow> wo_task" where
  "probe_task ac = \<lparr>wt_id = [], wt_title = ''repoint-probe'', wt_status = [], wt_criteria = ac\<rparr>"

definition probe_checks :: "executor \<Rightarrow> string \<Rightarrow> check list" where
  "probe_checks ex ac = checks_of (run_executable_checks ex [probe_task ac])"

text \<open>None when the criterion resolves; otherwise the detail.\<close>

definition resolves :: "executor \<Rightarrow> (check \<Rightarrow> string \<times> string) \<Rightarrow> string \<Rightarrow> string option" where
  "resolves ex texts ac =
     (case probe_checks ex ac of
        [] \<Rightarrow> Some (''no executable check found in that text '' @
          ''-- a criterion must contain a TEST-CHECK, SQL-CHECK or API-CHECK line'')
      | checks \<Rightarrow>
          map_option (\<lambda>c. ''the new criterion is also misaddressed: '' @
              (let (error, result) = texts c in if error \<noteq> [] then error else result))
            (find (\<lambda>c. names_misaddress (texts c)) checks))"

record repointed =
  rp_work_order_id :: string
  rp_previous :: string
  rp_acceptance_criteria :: string
  rp_reason :: string

datatype repoint_outcome =
    RepointReasonTooShort
  | NoCriterionGiven
  | TaskNotFound
  | AlreadyTheCriterion
  | NotResolvable string
  | RepointNotRecorded
  | Repointed repointed

definition repoint_envelope :: "call \<Rightarrow> string \<Rightarrow> task_row \<Rightarrow> string \<Rightarrow> string \<Rightarrow> string \<Rightarrow> envelope" where
  "repoint_envelope c k t new_ac previous reason =
     make_envelope c TASK_AC_REPOINTED
       [(''acceptance_criteria'', Some new_ac), (''previous'', Some previous), (''reason'', Some reason)]
       [(''domain'', Some ''sdlc''), (''project_id'', Some (t_project_id t)), (''work_order_id'', Some (t_work_order_id t)),
        (''task_id'', Some k), (''attribution_status'', Some ''fully_attributed'')]"

definition repoint_acceptance_criteria ::
    "(authority \<Rightarrow> authority) \<Rightarrow> (string \<Rightarrow> executor) \<Rightarrow> (check \<Rightarrow> string \<times> string) \<Rightarrow> call \<Rightarrow> string \<Rightarrow> string option
      \<Rightarrow> string option \<Rightarrow> authority \<Rightarrow> repoint_outcome \<times> authority" where
  "repoint_acceptance_criteria sync_tick executor_of texts c k acceptance_criteria reason au =
     (let text = py_strip (text_or_empty reason); new_ac = py_strip (text_or_empty acceptance_criteria) in
      if length text < MIN_REPOINT_REASON then (RepointReasonTooShort, au)
      else if new_ac = [] then (NoCriterionGiven, au)
      else (case task_of k au of
         None \<Rightarrow> (TaskNotFound, au)
       | Some t \<Rightarrow>
           let previous = text_or_empty (t_acceptance_criteria t) in
           if py_strip previous = new_ac then (AlreadyTheCriterion, au)
           else (case resolves (executor_of (t_work_order_id t)) texts new_ac of
              Some detail \<Rightarrow> (NotResolvable detail, au)
            | None \<Rightarrow>
                let (au1, failed) = emit c (repoint_envelope c k t new_ac previous text) au in
                if failed then (RepointNotRecorded, au1)
                else (Repointed \<lparr>rp_work_order_id = t_work_order_id t, rp_previous = previous, rp_acceptance_criteria = new_ac,
                        rp_reason = text\<rparr>, sync_tick au1))))"

section \<open>What filing guarantees\<close>

text \<open>The floor of \<open>create_task\<close> holds of whatever the round table admits.\<close>

lemma admitted_meets_floor:
  assumes "warden is_file ac why = None"
  shows "criterion_refusal is_file ac why description = None"
proof (cases "truthy why")
  case False
  moreover have "collapse_space [] = []"
    by code_simp
  ultimately have "collapse_space (text_or_empty why) = []"
    by (cases why) (auto simp: text_or_empty_def)
  with assms have "has_executable_criterion ac" "unrunnable_target is_file ac = None"
    by (auto simp: warden_def MIN_WHY_def Let_def split: if_splits)
  then show ?thesis
    by (simp add: criterion_refusal_def warden_def)
qed (use assms in \<open>simp add: criterion_refusal_def\<close>)

theorem filed_task_is_checkable:
  assumes "add_task sync_tick is_file c k w title description ac why project_id actor au = (res, au')"
    and "p = \<lparr>pr_title = title, pr_criteria = ac, pr_why = why, pr_description = description\<rparr>"
  shows "(\<forall>out unknowns. res = Filing out unknowns \<longrightarrow> (\<exists>failed. out = Done failed) \<and> (checkable is_file p \<or> declared p) \<and>
      (\<forall>t\<in>set (task_rows w au). normalised (t_title t) \<noteq> normalised title)) \<and>
    ((\<forall>out unknowns. res \<noteq> Filing out unknowns) \<longrightarrow> au' = au)"
proof -
  let ?v = "admit_task is_file p (case wo_of w au of None \<Rightarrow> [] | Some r \<Rightarrow> text_or_empty (wo_description r))
      (map t_title (task_rows w au)) (open_criteria (task_rows w au)) (paths_named is_file (title @ '' '' @ description))"
  have adm: "vd_admitted ?v" if "res = Filing out unknowns" for out unknowns
    using assms that by (auto simp: add_task_def Let_def case_prod_unfold split: if_splits option.splits)
  have floor: "criterion_refusal is_file ac why (Some description) = None" if "vd_admitted ?v"
    using admitted_facts [OF that] warden_admits [of is_file p] admitted_meets_floor by (simp add: assms(2))
  have "(\<exists>failed. out = Done failed)" if "res = Filing out unknowns" for out unknowns
    using assms(1) adm [OF that] floor [OF adm [OF that]] that
    by (auto simp: add_task_def create_task_def Let_def case_prod_unfold assms(2) split: if_splits option.splits)
  moreover have "au' = au" if "\<forall>out unknowns. res \<noteq> Filing out unknowns"
    using assms(1) that by (auto simp: add_task_def Let_def case_prod_unfold split: if_splits option.splits)
  moreover have "(checkable is_file p \<or> declared p) \<and>
      (\<forall>t\<in>set (task_rows w au). normalised (t_title t) \<noteq> normalised title)" if "vd_admitted ?v"
    using admitted_facts [OF that] by (simp add: assms(2) image_iff) metis
  ultimately show ?thesis
    using adm by blast
qed

section \<open>What a repoint guarantees\<close>

lemma repoint_entry: "get_entry TASK_AC_REPOINTED =
    Some (entry TASK_AC_REPOINTED [Business] ''meaningful-unit'' [''acceptance_criteria'', ''previous'', ''reason''])"
  by (rule get_entryI, rule in_sdlc_entries(2), simp add: BUSINESS_ENTRIES_2_def event_type_defs, use sdlc_types_named in simp)

lemma repoint_envelope_simps:
  "ev_id (canonical_row (repoint_envelope c k t a b r)) = c_uuid c"
  "ev_type (canonical_row (repoint_envelope c k t a b r)) = TASK_AC_REPOINTED"
  "ev_payload (canonical_row (repoint_envelope c k t a b r)) =
     [(''acceptance_criteria'', a), (''previous'', b), (''reason'', r)]"
  "env_payload (repoint_envelope c k t a b r) = [(''acceptance_criteria'', a), (''previous'', b), (''reason'', r)]"
  "ev_task_id (canonical_row (repoint_envelope c k t a b r)) = Some k"
  by (simp_all add: repoint_envelope_def make_envelope_def List.map_filter_simps canonical_row_def Let_def)

lemma repoint_envelope_written:
  "write_event (c_uuid c) (repoint_envelope c k t a b r) sp =
     Inr (sp\<lparr>sp_inbox := put (c_uuid c @ ''.json'') (Json (repoint_envelope c k t a b r)) (sp_inbox sp)\<rparr>)"
proof -
  have "validate_payload_keys TASK_AC_REPOINTED [''acceptance_criteria'', ''previous'', ''reason''] = Inr ()"
    by (simp add: payload_check repoint_entry)
  then show ?thesis
    by (simp add: repoint_envelope_def make_envelope_def Let_def write_event_def List.map_filter_simps)
qed

lemma resolves_None:
  "resolves ex texts ac = None \<longleftrightarrow> probe_checks ex ac \<noteq> [] \<and>
     (\<forall>c\<in>set (probe_checks ex ac). \<not> names_misaddress (texts c))"
  by (auto simp: resolves_def find_None_iff split: list.splits)

text \<open>C23: A criterion that was repointed has a reason, contains a check, and left an event with the previous
  criterion and the reason; projected, this event gives the task its new criterion and changes no other.\<close>

theorem repoint_is_recorded:
  assumes "repoint_acceptance_criteria (\<lambda>a. a) executor_of texts c k ac reason au = (Repointed rp, au')"
    and "task_of k au = Some t" and "\<not> is_already_processed t_source_event_id t_last_event_id (c_uuid c) (tasks (au_db au))" and "k \<noteq> []"
  shows "MIN_REPOINT_REASON \<le> length (rp_reason rp) \<and> rp_previous rp = text_or_empty (t_acceptance_criteria t) \<and>
    probe_checks (executor_of (t_work_order_id t)) (rp_acceptance_criteria rp) \<noteq> [] \<and>
    (\<exists>e db'. au_db au' = au_db au \<and> map_of (sp_inbox (au_spool au')) (c_uuid c @ ''.json'') = Some (Json e) \<and>
       map_of (env_payload e) ''previous'' = Some (rp_previous rp) \<and> map_of (env_payload e) ''reason'' = Some (rp_reason rp) \<and>
       task_handle now (canonical_row e) (au_db au') = Inr (1, db') \<and>
       map_option t_acceptance_criteria (map_of (tasks db') k) = Some (Some (rp_acceptance_criteria rp)) \<and>
       (\<forall>j. j \<noteq> k \<longrightarrow> map_of (tasks db') j = map_of (tasks (au_db au)) j))"
proof -
  let ?e = "repoint_envelope c k t (rp_acceptance_criteria rp) (rp_previous rp) (rp_reason rp)"
  have rp: "rp_previous rp = text_or_empty (t_acceptance_criteria t)" "MIN_REPOINT_REASON \<le> length (rp_reason rp)"
      "rp_acceptance_criteria rp \<noteq> []" "resolves (executor_of (t_work_order_id t)) texts (rp_acceptance_criteria rp) = None"
    and em: "emit c ?e au = (au', False)"
    using assms(1,2) by (auto simp: repoint_acceptance_criteria_def Let_def split: if_splits option.splits prod.splits)
  have au': "au_db au' = au_db au" "map_of (sp_inbox (au_spool au')) (c_uuid c @ ''.json'') = Some (Json ?e)"
    using em by (auto simp: emit_def repoint_envelope_written split: if_splits)
  have "task_ensure_skeleton k w p now (au_db au) = Inr (au_db au)" for w p
    using assms(2) by (simp add: task_ensure_skeleton_def insert_task_def task_of_def split: option.split)
  then have "task_handle now (canonical_row ?e) (au_db au) =
      task_handle_ac_repointed k (env_payload ?e) (c_uuid c) now (au_db au)"
    using assms(3,4) by (simp add: task_handle_def task_dispatch_def repoint_envelope_simps col_or_trace_def py_or_def event_type_defs)
  then show ?thesis
    using rp au' assms(2) resolves_None
    by (auto simp: repoint_envelope_simps task_handle_ac_repointed_def map_of_tbl_update task_of_def)
qed

text \<open>A criterion that cannot be run is accepted unless its error happens to say that it is misaddressed.\<close>

theorem repoint_accepts_what_cannot_run:
  assumes "task_of k au = Some t" and "py_strip (text_or_empty (t_acceptance_criteria t)) \<noteq> py_strip ac" and "c_spool_ok c"
    and "MIN_REPOINT_REASON \<le> length (py_strip reason)" and "py_strip ac \<noteq> []"
    and "check_lines (probe_task (py_strip ac)) = [(''SQL-CHECK'', q)]" and "ex_sql (executor_of (t_work_order_id t)) q = SqlRaised e"
    and "\<not> names_misaddress (texts (failing (CheckRaised e) (new_check ''SQL-CHECK'' q)))"
  shows "\<exists>rp au'. repoint_acceptance_criteria sync_tick executor_of texts c k (Some ac) (Some reason) au = (Repointed rp, au') \<and>
    (\<forall>ck\<in>set (probe_checks (executor_of (t_work_order_id t)) (rp_acceptance_criteria rp)).
       ck_passed ck = Some False \<and> \<not> ck_executed ck)"
proof -
  have checks: "probe_checks (executor_of (t_work_order_id t)) (py_strip ac) =
      [failing (CheckRaised e) (new_check ''SQL-CHECK'' q)]"
    using assms(6,7) by (simp add: probe_checks_def run_executable_checks_def collect_checks_def run_check_def run_one_sql_check_def)
  then have "resolves (executor_of (t_work_order_id t)) texts (py_strip ac) = None"
    using assms(8) by (simp add: resolves_None)
  then show ?thesis
    using assms(1-5) checks
    by (auto simp: repoint_acceptance_criteria_def Let_def emit_def repoint_envelope_written text_or_empty_def failing_def new_check_def)
qed

section \<open>Concrete tasks\<close>

definition sample_criterion_task :: task_row where
  "sample_criterion_task =
     \<lparr>t_work_order_id = ''w1'', t_project_id = ''p1'', t_title = ''Add the index'', t_description = None, t_status = ''pending'',
      t_created_at = ''t0'', t_updated_at = ''t0'', t_source_event_id = None, t_last_event_id = None,
      t_acceptance_criteria = Some ''SQL-CHECK: SELECT old''\<rparr>"

definition sample_criterion_authority :: authority where
  "sample_criterion_authority =
     \<lparr>au_db = (empty_db [])\<lparr>work_orders := [(''w1'', wo_default\<lparr>wo_project_id := Some ''p1''\<rparr>)],
        tasks := [(''k1'', sample_criterion_task)]\<rparr>,
      au_deps = [], au_spool = empty_spool\<rparr>"

definition sample_criterion_call :: call where
  "sample_criterion_call = \<lparr>c_now = ''t'', c_uuid = ''e1'', c_spool_ok = True, c_remembers = True\<rparr>"

text \<open>Every query raises.\<close>

definition faulty_executor :: executor where
  "faulty_executor = \<lparr>ex_run = (\<lambda>argv. TimedOut), ex_sql = (\<lambda>q. SqlRaised ''no such table: nowhere''), ex_api = (\<lambda>m p. NoApp),
     ex_target = (\<lambda>e. NoTarget), ex_python = ''python'', ex_root = None\<rparr>"

definition check_texts :: "check \<Rightarrow> string \<times> string" where
  "check_texts c = (case ck_error c of Some (CheckRaised e) \<Rightarrow> (e, []) | _ \<Rightarrow> ([], []))"

lemma filed_task_is_checkable_witness:
  "declared \<lparr>pr_title = ''Drop the index'', pr_criteria = None, pr_why = Some ''only an operator can see it'', pr_description = []\<rparr> \<and>
   fst (add_task (\<lambda>a. a) (\<lambda>p. False) sample_criterion_call ''k2'' ''w1'' ''add  the INDEX'' [] None (Some ''only an operator can see it'')
     None None sample_criterion_authority) = RoundTableRefused [AlreadyFiled] []"
proof
  let ?add = "add_task (\<lambda>a. a) (\<lambda>p. False) sample_criterion_call ''k2'' ''w1'' ''Drop the index'' [] None
      (Some ''only an operator can see it'') None None sample_criterion_authority"
  have "fst ?add = Filing (Done False) []"
    by code_simp
  then have "?add = (Filing (Done False) [], snd ?add)"
    by (metis prod.collapse)
  from filed_task_is_checkable [OF this refl]
  show "declared \<lparr>pr_title = ''Drop the index'', pr_criteria = None, pr_why = Some ''only an operator can see it'', pr_description = []\<rparr>"
    by (simp add: checkable_def has_executable_criterion_def text_or_empty_def)
  show "fst (add_task (\<lambda>a. a) (\<lambda>p. False) sample_criterion_call ''k2'' ''w1'' ''add  the INDEX'' [] None
      (Some ''only an operator can see it'') None None sample_criterion_authority) = RoundTableRefused [AlreadyFiled] []"
    by code_simp
qed

definition sample_repoint :: "repoint_outcome \<times> authority" where
  "sample_repoint = repoint_acceptance_criteria (\<lambda>a. a) (\<lambda>w. faulty_executor) check_texts sample_criterion_call ''k1''
     (Some ''SQL-CHECK: SELECT new'') (Some ''the table was renamed'') sample_criterion_authority"

lemma sample_repointed: "fst sample_repoint = Repointed \<lparr>rp_work_order_id = ''w1'', rp_previous = ''SQL-CHECK: SELECT old'',
    rp_acceptance_criteria = ''SQL-CHECK: SELECT new'', rp_reason = ''the table was renamed''\<rparr>"
  by code_simp

lemma sample_criterion_task_of: "task_of ''k1'' sample_criterion_authority = Some sample_criterion_task"
  by (simp add: task_of_def sample_criterion_authority_def)

lemma repoint_is_recorded_witness:
  "\<exists>e db'. task_handle ''n'' (canonical_row e) (au_db sample_criterion_authority) = Inr (1, db') \<and>
     map_option t_acceptance_criteria (map_of (tasks db') ''k1'') = Some (Some ''SQL-CHECK: SELECT new'')"
proof -
  have "sample_repoint = (fst sample_repoint, snd sample_repoint)"
    by simp
  note run = this [unfolded sample_repointed, unfolded sample_repoint_def]
  have fresh: "\<not> is_already_processed t_source_event_id t_last_event_id (c_uuid sample_criterion_call)
      (tasks (au_db sample_criterion_authority))" "''k1'' \<noteq> []"
    by code_simp+
  show ?thesis
    using repoint_is_recorded [OF run sample_criterion_task_of fresh, of "''n''"] unfolding repointed.select_convs by metis
qed

lemma repoint_accepts_what_cannot_run_witness:
  "\<exists>rp au'. repoint_acceptance_criteria (\<lambda>a. a) (\<lambda>w. faulty_executor) check_texts sample_criterion_call ''k1''
     (Some ''SQL-CHECK: SELECT new'') (Some ''the table was renamed'') sample_criterion_authority = (Repointed rp, au')"
proof -
  have "py_strip (text_or_empty (t_acceptance_criteria sample_criterion_task)) \<noteq> py_strip ''SQL-CHECK: SELECT new''"
    "c_spool_ok sample_criterion_call" "MIN_REPOINT_REASON \<le> length (py_strip ''the table was renamed'')"
    "py_strip ''SQL-CHECK: SELECT new'' \<noteq> []"
    "check_lines (probe_task (py_strip ''SQL-CHECK: SELECT new'')) = [(''SQL-CHECK'', ''SELECT new'')]"
    "ex_sql ((\<lambda>w. faulty_executor) (t_work_order_id sample_criterion_task)) ''SELECT new'' = SqlRaised ''no such table: nowhere''"
    "\<not> names_misaddress (check_texts (failing (CheckRaised ''no such table: nowhere'') (new_check ''SQL-CHECK'' ''SELECT new'')))"
    by code_simp+
  from repoint_accepts_what_cannot_run [where executor_of = "\<lambda>w. faulty_executor" and texts = check_texts and sync_tick = "\<lambda>a. a",
      OF sample_criterion_task_of this] show ?thesis by blast
qed

end
