(* ===== verification/Escalation.thy ===== *)
theory Escalation
  imports Artifact_Store Acceptance_Checks Py_Regex Declared_Reason
begin

text \<open>
  The escalation ladder (\<^verbatim>\<open>core/work_orders/escalation.py\<close>): the signal that a work order is not fixed, the table that
  counts its escalations and retries, and the escalations the operator sees, which are artifacts.

  Whether a grader's confidence, a float, reaches the threshold is an argument, and so are the failures of the
  outcome evaluation. The table is present and readable.
\<close>

section \<open>The signal\<close>

definition compute_not_fixed_signal :: "bool \<Rightarrow> bool \<Rightarrow> bool \<Rightarrow> bool \<Rightarrow> bool \<times> string list" where
  "compute_not_fixed_signal ac_failed symptom_persists grader_not_fixed confident =
     (let reasons = (if ac_failed then [''ac_fail''] else []) @ (if symptom_persists then [''symptom_persists''] else []) @
            (if grader_not_fixed \<and> confident then [''grader_high_confidence_not_fixed''] else [])
      in (reasons \<noteq> [], reasons))"

definition not_fixed_for_work_order ::
    "string list \<Rightarrow> (string \<times> json) list option \<Rightarrow> ((string \<times> json) list \<Rightarrow> bool) \<Rightarrow> bool \<times> string list" where
  "not_fixed_for_work_order failures verdict confident =
     (let grader_not_fixed = (case verdict of None \<Rightarrow> False
            | Some v \<Rightarrow> \<not> js_truthy (js_get v ''unreviewable'') \<and> js_get v ''passed'' = JsBool False)
      in compute_not_fixed_signal
           (list_ex (\<lambda>f. py_startswith f ''executable_ac'') failures)
           (list_ex (\<lambda>f. py_in ''originating_symptom'' f) failures)
           grader_not_fixed (grader_not_fixed \<and> confident (the verdict)))"

section \<open>The ladder\<close>

definition ESCALATION_EXECUTOR :: string where
  "ESCALATION_EXECUTOR = ''opus''"

definition DEFAULT_EXECUTOR :: string where
  "DEFAULT_EXECUTOR = ''sonnet''"

definition DEFAULT_RETRY_CAP :: int where
  "DEFAULT_RETRY_CAP = 3"

record escalation_row =
  es_escalation_level :: int
  es_retry_count :: int
  es_designated_executor :: "string option"
  es_last_reason :: "string option"

type_synonym ladder = "(string \<times> escalation_row) list"

definition read_escalation :: "string \<Rightarrow> ladder \<Rightarrow> escalation_row option" where
  "read_escalation w t = map_of t w"

definition resolve_executor :: "string \<Rightarrow> string \<Rightarrow> ladder \<Rightarrow> string" where
  "resolve_executor w fallback t =
     (case read_escalation w t of
        Some r \<Rightarrow> if truthy (es_designated_executor r) then the (es_designated_executor r) else fallback
      | None \<Rightarrow> fallback)"

definition mark_escalated :: "string \<Rightarrow> string \<Rightarrow> string \<Rightarrow> ladder \<Rightarrow> ladder" where
  "mark_escalated w reason executor t =
     AList.update w (case map_of t w of
        None \<Rightarrow> \<lparr>es_escalation_level = 1, es_retry_count = 0, es_designated_executor = Some executor,
          es_last_reason = Some reason\<rparr>
      | Some r \<Rightarrow> r\<lparr>es_escalation_level := es_escalation_level r + 1, es_designated_executor := Some executor,
          es_last_reason := Some reason\<rparr>) t"

text \<open>The environment variable, then the configuration row, then the default; what is no integer is skipped.\<close>

definition get_retry_cap :: "string option \<Rightarrow> string option \<Rightarrow> int" where
  "get_retry_cap environment config =
     (case (if truthy environment then py_int (the environment) else None) of
        Some n \<Rightarrow> n
      | None \<Rightarrow> (case Option.bind config py_int of Some n \<Rightarrow> n | None \<Rightarrow> DEFAULT_RETRY_CAP))"

record retry_report =
  rr_retry_count :: int
  rr_retry_cap :: int
  rr_capped :: bool

definition register_retry :: "int \<Rightarrow> string \<Rightarrow> ladder \<Rightarrow> retry_report \<times> ladder" where
  "register_retry cap w t =
     (let r = (case map_of t w of
            None \<Rightarrow> \<lparr>es_escalation_level = 0, es_retry_count = 1, es_designated_executor = None, es_last_reason = None\<rparr>
          | Some r \<Rightarrow> r\<lparr>es_retry_count := es_retry_count r + 1\<rparr>)
      in (\<lparr>rr_retry_count = es_retry_count r, rr_retry_cap = cap, rr_capped = cap \<le> es_retry_count r\<rparr>, AList.update w r t))"

section \<open>The operator's escalations\<close>

definition escalation_json :: "string \<Rightarrow> string \<Rightarrow> string \<Rightarrow> string \<Rightarrow> json" where
  "escalation_json w instance_key reason now =
     JsObj [(''type'', JsStr instance_key), (''status'', JsStr ''unresolved''), (''reason'', JsStr reason),
       (''work_order_id'', JsStr w), (''created_at'', JsStr now)]"

text \<open>Best effort: whatever the store answers is dropped.\<close>

definition record_escalation_artifact ::
    "store_env \<Rightarrow> string \<Rightarrow> string \<Rightarrow> string \<Rightarrow> string \<Rightarrow> artifact_table \<Rightarrow> artifact_table" where
  "record_escalation_artifact env now w instance_key reason arts =
     snd (set_wo_artifact env (w, ''escalation'', instance_key)
       (json_dumps None (escalation_json w instance_key reason now)) None arts)"

definition escalate_to_operator :: "store_env \<Rightarrow> string \<Rightarrow> string \<Rightarrow> string \<Rightarrow> artifact_table \<Rightarrow> artifact_table" where
  "escalate_to_operator env now w reason arts =
     record_escalation_artifact env now w ''retrycap'' (if reason = [] then ''retry cap reached'' else reason) arts"

definition js_or :: "json \<Rightarrow> json \<Rightarrow> json" where
  "js_or a b = (if js_truthy a then a else b)"

definition js_default :: "(string \<times> json) list \<Rightarrow> string \<Rightarrow> json \<Rightarrow> json" where
  "js_default d k v = (case map_of d k of None \<Rightarrow> v | Some x \<Rightarrow> x)"

definition escalation_data :: "string \<Rightarrow> (string \<times> json) list" where
  "escalation_data content = (case json_loads content of Some (JsObj d) \<Rightarrow> d | _ \<Rightarrow> [])"

record escalation =
  ea_work_order_id :: json
  ea_type :: json
  ea_status :: json
  ea_reason :: json
  ea_created_at :: json
  ea_resolved_at :: json
  ea_updated_at :: string

definition parse_escalation_artifact :: "string \<Rightarrow> string \<Rightarrow> string \<Rightarrow> string \<Rightarrow> escalation" where
  "parse_escalation_artifact w instance_key content updated_at =
     (let d = escalation_data content in
      \<lparr>ea_work_order_id = js_or (js_get d ''work_order_id'') (JsStr w),
       ea_type = js_or (js_get d ''type'') (JsStr instance_key),
       ea_status = js_or (js_get d ''status'') (JsStr ''unknown''),
       ea_reason = js_default d ''reason'' (JsStr []), ea_created_at = js_default d ''created_at'' (JsStr []),
       ea_resolved_at = js_get d ''resolved_at'', ea_updated_at = updated_at\<rparr>)"

definition list_escalations :: "bool \<Rightarrow> artifact_table \<Rightarrow> escalation list" where
  "list_escalations include_resolved arts =
     filter (\<lambda>e. include_resolved \<or> ea_status e = JsStr ''unresolved'')
       (map (\<lambda>(w, i, content, updated_at). parse_escalation_artifact w i content updated_at)
         (list_artifacts_by_kind ''escalation'' arts))"

definition get_escalations :: "string \<Rightarrow> artifact_table \<Rightarrow> escalation list" where
  "get_escalations w arts =
     map (\<lambda>(i, content). parse_escalation_artifact w i content []) (list_wo_artifacts w ''escalation'' arts)"

record escalation_resolution =
  re_resolved :: "json list"
  re_already_resolved :: "json list"
  re_found :: bool

text \<open>The instances one after the other; a write that raises ends the call, one that is refused does not.\<close>

fun resolve_rows ::
    "(string \<Rightarrow> store_env) \<Rightarrow> string \<Rightarrow> string \<Rightarrow> string \<Rightarrow> (string \<times> string) list \<Rightarrow> escalation_resolution \<Rightarrow> artifact_table
      \<Rightarrow> (store_error + escalation_resolution) \<times> artifact_table" where
  "resolve_rows envs now w note [] res arts = (Inr res, arts)"
| "resolve_rows envs now w note ((i, content) # rows) res arts =
     (let d = escalation_data content; label = js_or (js_get d ''type'') (JsStr i) in
      if js_get d ''status'' = JsStr ''resolved''
      then resolve_rows envs now w note rows (res\<lparr>re_already_resolved := re_already_resolved res @ [label]\<rparr>) arts
      else
        let d1 = AList.update ''resolved_at'' (JsStr now) (AList.update ''status'' (JsStr ''resolved'') d);
            d2 = (if note = [] then d1 else AList.update ''resolution_note'' (JsStr note) d1)
        in (case set_wo_artifact (envs i) (w, ''escalation'', i) (json_dumps None (JsObj d2)) None arts of
              (Inl e, arts1) \<Rightarrow> (Inl e, arts1)
            | (Inr _, arts1) \<Rightarrow> resolve_rows envs now w note rows (res\<lparr>re_resolved := re_resolved res @ [label]\<rparr>) arts1))"

definition resolve_escalation ::
    "(string \<Rightarrow> store_env) \<Rightarrow> string \<Rightarrow> string \<Rightarrow> string option \<Rightarrow> string \<Rightarrow> artifact_table
      \<Rightarrow> (store_error + escalation_resolution) \<times> artifact_table" where
  "resolve_escalation envs now w instance_key note arts =
     (let rows = filter (\<lambda>(i, content). instance_key = None \<or> instance_key = Some i) (list_wo_artifacts w ''escalation'' arts)
      in resolve_rows envs now w note rows \<lparr>re_resolved = [], re_already_resolved = [], re_found = (rows \<noteq> [])\<rparr> arts)"

section \<open>The files the ladder used to write\<close>

definition is_hex :: "char \<Rightarrow> bool" where
  "is_hex c = (ascii_digit c \<or> lower_char c \<in> set ''abcdef'')"

definition ESC_FILENAME_RE :: regex where
  "ESC_FILENAME_RE = SeqOf [Lit ''ESC-'', Grp 1 (Plus (Cls ascii_letter)), Lit ''-'',
     Grp 2 (SeqOf (replicate 6 (Cls is_hex) @ [Star (Cls is_hex)])), End]"

definition ESC_REASON_RE :: regex where
  "ESC_REASON_RE = SeqOf [Lit ''Reason:'', Star (Cls py_isspace), Grp 1 (Plus (Cls (\<lambda>c. c \<noteq> CHR 0x0A)))]"

text \<open>With \<open>re.MULTILINE\<close>, a match starts at the start of a line.\<close>

fun multiline_search :: "regex \<Rightarrow> bool \<Rightarrow> string \<Rightarrow> rmatch option" where
  "multiline_search r at_start [] = (if at_start then re_match r [] else None)"
| "multiline_search r at_start (c # s) =
     (case (if at_start then re_match r (c # s) else None) of
        Some m \<Rightarrow> Some m
      | None \<Rightarrow> multiline_search r (c = CHR 0x0A) s)"

text \<open>A file of the directory: its stem and its text, None when it cannot be read. The list is sorted by name.\<close>

type_synonym esc_file = "string \<times> string option"

definition scan_open_escalation_files :: "esc_file list \<Rightarrow> (string \<times> string) list" where
  "scan_open_escalation_files files =
     List.map_filter (\<lambda>(stem, text). case text of None \<Rightarrow> None
       | Some t \<Rightarrow> if py_in ''ESC-'' t \<and> py_in ''unresolved'' (py_lower t) then Some (stem, t) else None) files"

text \<open>\<open>LIKE prefix%\<close> ignores the case of ASCII letters.\<close>

definition resolve_wo_by_prefix :: "string \<Rightarrow> string list \<Rightarrow> string option" where
  "resolve_wo_by_prefix wo_prefix ids =
     (case filter (\<lambda>w. py_startswith (py_lower w) (py_lower wo_prefix)) ids of [w] \<Rightarrow> Some w | _ \<Rightarrow> None)"

definition escalation_instance :: "string \<Rightarrow> string" where
  "escalation_instance raw_type =
     (if py_in ''retrycap'' raw_type then ''retrycap'' else if py_in ''outcome'' raw_type then ''outcome'' else raw_type)"

definition backfill_escalation ::
    "store_env \<Rightarrow> string \<Rightarrow> string list \<Rightarrow> string \<times> string \<Rightarrow> nat \<times> artifact_table \<Rightarrow> nat \<times> artifact_table" where
  "backfill_escalation env now ids file acc =
     (let (stem, text) = file; (written, arts) = acc in
      case re_match ESC_FILENAME_RE stem of
        None \<Rightarrow> acc
      | Some mt \<Rightarrow>
          let instance_key = escalation_instance (py_lower (text_or_empty (group_of mt 1))) in
          (case resolve_wo_by_prefix (py_lower (text_or_empty (group_of mt 2))) ids of
             None \<Rightarrow> acc
           | Some w \<Rightarrow>
               if w = [] then acc
               else if get_wo_artifact (w, ''escalation'', instance_key) arts \<noteq> None then acc
               else
                 let reason = (case multiline_search ESC_REASON_RE True text of
                        None \<Rightarrow> ''migrated from disk ESC file'' | Some r \<Rightarrow> py_strip (text_or_empty (group_of r 1)))
                 in (Suc written, record_escalation_artifact env now w instance_key reason arts)))"

definition backfill_open_escalations_from_disk ::
    "store_env \<Rightarrow> string \<Rightarrow> string list \<Rightarrow> esc_file list \<Rightarrow> artifact_table \<Rightarrow> nat \<times> artifact_table" where
  "backfill_open_escalations_from_disk env now ids files arts =
     fold (backfill_escalation env now ids) (scan_open_escalation_files files) (0, arts)"

section \<open>The ladder counts\<close>

text \<open>What happens to the table: escalations and retries of any work orders, in any order.\<close>

datatype ladder_op = Escalate string string string | Retry int string

fun ladder_step :: "ladder_op \<Rightarrow> ladder \<Rightarrow> ladder" where
  "ladder_step (Escalate w reason executor) t = mark_escalated w reason executor t"
| "ladder_step (Retry cap w) t = snd (register_retry cap w t)"

fun op_work_order :: "ladder_op \<Rightarrow> string" where
  "op_work_order (Escalate w reason executor) = w"
| "op_work_order (Retry cap w) = w"

fun last_executor :: "ladder_op list \<Rightarrow> string option" where
  "last_executor [] = None"
| "last_executor (Escalate w reason executor # ops) = (case last_executor ops of None \<Rightarrow> Some executor | e \<Rightarrow> e)"
| "last_executor (Retry cap w # ops) = last_executor ops"

definition own_ops :: "string \<Rightarrow> ladder_op list \<Rightarrow> ladder_op list" where
  "own_ops w ops = filter (\<lambda>op. op_work_order op = w) ops"

definition is_retry :: "ladder_op \<Rightarrow> bool" where
  "is_retry op = (case op of Retry cap w \<Rightarrow> True | _ \<Rightarrow> False)"

definition retries_of :: "string \<Rightarrow> ladder \<Rightarrow> int" where
  "retries_of w t = (case map_of t w of None \<Rightarrow> 0 | Some r \<Rightarrow> es_retry_count r)"

lemma read_update [simp]: "map_of (AList.update w r t) k = (if k = w then Some r else map_of t k)"
  by (simp add: update_conv)

lemma retries_of_ops [simp]:
  "retries_of w (mark_escalated w' reason executor t) = retries_of w t"
  "retries_of w (snd (register_retry cap w' t)) = retries_of w t + (if w' = w then 1 else 0)"
  by (auto simp: retries_of_def mark_escalated_def register_retry_def Let_def split: option.split)

lemma last_executor_snoc: "last_executor (ops @ [op]) =
    (case op of Escalate w reason executor \<Rightarrow> Some executor | Retry cap w \<Rightarrow> last_executor ops)"
  by (induction ops rule: last_executor.induct) (auto split: ladder_op.split option.split)

lemma ladder_facts:
  "read_escalation w (fold ladder_step ops []) = None \<longleftrightarrow> own_ops w ops = []"
  "read_escalation w (fold ladder_step ops []) = Some r \<Longrightarrow>
     es_retry_count r = int (length (filter is_retry (own_ops w ops))) \<and>
     es_escalation_level r = int (length (filter (\<lambda>op. \<not> is_retry op) (own_ops w ops))) \<and>
     es_designated_executor r = last_executor (own_ops w ops)"
proof (induction ops arbitrary: r rule: rev_induct)
  case Nil
  case 1 show ?case by (simp add: read_escalation_def own_ops_def)
  case 2 then show ?case by (simp add: read_escalation_def)
next
  case (snoc op ops)
  note defs = read_escalation_def own_ops_def mark_escalated_def register_retry_def is_retry_def last_executor_snoc Let_def
  case 1 show ?case
    using snoc.IH(1) by (cases op) (simp_all add: defs)
  case 2
  show ?case
    using 2 snoc.IH by (cases op; cases "map_of (fold ladder_step ops []) w") (auto simp: defs split: if_splits)
qed

text \<open>Whatever happened to the ladder, in whatever order and for whichever work orders, the row of a work order
  counts its own retries and escalations and names the executor of its last escalation; it has a row exactly when
  something happened to it.\<close>

theorem ladder_counts:
  "case read_escalation w (fold ladder_step ops []) of
     None \<Rightarrow> own_ops w ops = []
   | Some r \<Rightarrow> own_ops w ops \<noteq> [] \<and> es_retry_count r = int (length (filter is_retry (own_ops w ops))) \<and>
       es_escalation_level r = int (length (filter (\<lambda>op. \<not> is_retry op) (own_ops w ops))) \<and>
       es_designated_executor r = last_executor (own_ops w ops)"
proof (cases "read_escalation w (fold ladder_step ops [])")
  case None
  then show ?thesis
    using ladder_facts(1) [of w ops] by simp
next
  case (Some r)
  then have "own_ops w ops \<noteq> []"
    using ladder_facts(1) [of w ops] by auto
  then show ?thesis
    using Some ladder_facts(2) [OF Some] by simp
qed

section \<open>Resolving\<close>

definition escalation_key :: "string \<Rightarrow> string \<Rightarrow> artifact_key" where
  "escalation_key w i = (w, ''escalation'', i)"

definition well_kept :: "string \<Rightarrow> bool" where
  "well_kept content \<longleftrightarrow> json_plain (JsObj (escalation_data content)) \<and> ENVELOPE_MARKER \<notin> fst ` set (escalation_data content)"

definition resolved_content :: "string \<Rightarrow> bool" where
  "resolved_content content \<longleftrightarrow> js_get (escalation_data content) ''status'' = JsStr ''resolved''"

definition resolved_data :: "string \<Rightarrow> string \<Rightarrow> (string \<times> json) list \<Rightarrow> (string \<times> json) list" where
  "resolved_data now note d =
     (let d1 = AList.update ''resolved_at'' (JsStr now) (AList.update ''status'' (JsStr ''resolved'') d)
      in if note = [] then d1 else AList.update ''resolution_note'' (JsStr note) d1)"

lemma shown_is_got: "map_of arts k = Some r \<Longrightarrow> get_wo_artifact k arts = Some (shown_content r)"
  by (auto simp: get_wo_artifact_def get_wo_artifact_envelope_def shown_content_def unwrap_def Let_def
      split: option.split json.split)

lemma json_plain_update: "json_plain (JsObj d) \<Longrightarrow> json_plain (JsObj (AList.update k (JsStr v) d))"
  using set_update_subset [of k "JsStr v" d] by (fastforce simp: distinct_update)

lemma resolved_data_kept:
  assumes "json_plain (JsObj d)" and "ENVELOPE_MARKER \<notin> fst ` set d"
  shows "json_plain (JsObj (resolved_data now note d))" and "ENVELOPE_MARKER \<notin> fst ` set (resolved_data now note d)"
    and "js_get (resolved_data now note d) ''status'' = JsStr ''resolved''"
proof -
  show "json_plain (JsObj (resolved_data now note d))"
    unfolding resolved_data_def Let_def using assms(1) by (auto intro!: json_plain_update simp del: json_plain.simps)
  show "ENVELOPE_MARKER \<notin> fst ` set (resolved_data now note d)"
    unfolding resolved_data_def Let_def using assms(2) by (auto simp: dom_update ENVELOPE_MARKER_def)
  show "js_get (resolved_data now note d) ''status'' = JsStr ''resolved''"
    by (simp add: resolved_data_def js_get_def update_conv Let_def)
qed

lemma resolved_text:
  assumes "well_kept content"
  shows "bare_text (json_dumps None (JsObj (resolved_data now note (escalation_data content))))"
    and "resolved_content (json_dumps None (JsObj (resolved_data now note (escalation_data content))))"
proof -
  let ?d = "resolved_data now note (escalation_data content)"
  have k: "json_plain (JsObj (escalation_data content))" "ENVELOPE_MARKER \<notin> fst ` set (escalation_data content)"
    using assms unfolding well_kept_def by blast+
  note d = resolved_data_kept [OF k, of now "note"]
  show "bare_text (json_dumps None (JsObj ?d))"
    using d by (simp add: bare_text_def unwrap_def del: json_plain.simps)
  show "resolved_content (json_dumps None (JsObj ?d))"
    using d by (simp add: resolved_content_def escalation_data_def del: json_plain.simps)
qed

lemma resolve_rows_resolves:
  assumes "distinct (map fst rows)" and "\<forall>(i, content)\<in>set rows. well_kept content \<and> map_of arts (escalation_key w i) \<noteq> None \<and>
      get_wo_artifact (escalation_key w i) arts = Some content"
    and "\<forall>i. write_attempts (se_answer (envs i)) 0 LOCK_ATTEMPTS = Inr True"
    and "resolve_rows envs now w note rows res arts = (Inr res', arts')"
  shows "(\<forall>(i, content)\<in>set rows. \<exists>c. get_wo_artifact (escalation_key w i) arts' = Some c \<and> resolved_content c) \<and>
    (\<forall>k. k \<notin> escalation_key w ` fst ` set rows \<longrightarrow> get_wo_artifact k arts' = get_wo_artifact k arts) \<and>
    (\<forall>k. map_of arts' k = None \<longleftrightarrow> map_of arts k = None)"
  using assms
proof (induction rows arbitrary: res arts)
  case (Cons row rows)
  obtain i content where row: "row = (i, content)" by (cases row)
  have own: "well_kept content" "map_of arts (escalation_key w i) \<noteq> None" "get_wo_artifact (escalation_key w i) arts = Some content"
    and fresh: "i \<notin> fst ` set rows" and d: "distinct (map fst rows)"
    using Cons.prems(1,2) by (auto simp: row)
  have apart: "escalation_key w i \<notin> escalation_key w ` fst ` set rows"
    using fresh by (auto simp: escalation_key_def)
  show ?case
  proof (cases "resolved_content content")
    case True
    have rest: "\<forall>(i, content)\<in>set rows. well_kept content \<and> map_of arts (escalation_key w i) \<noteq> None \<and>
      get_wo_artifact (escalation_key w i) arts = Some content"
      using Cons.prems(2) by simp
    obtain res1 where "resolve_rows envs now w note rows res1 arts = (Inr res', arts')"
      using Cons.prems(4) True by (auto simp: row resolved_content_def Let_def)
    note ih = Cons.IH [OF d rest Cons.prems(3) this]
    then have "get_wo_artifact k arts' = get_wo_artifact k arts" if "k \<notin> escalation_key w ` fst ` set rows" for k
      using that by blast
    from this [OF apart] have "get_wo_artifact (escalation_key w i) arts' = Some content"
      using own(3) by simp
    with ih True show ?thesis
      by (simp add: row)
  next
    case False
    let ?c = "json_dumps None (JsObj (resolved_data now note (escalation_data content)))"
    let ?arts1 = "upsert_artifact (escalation_key w i) (stored_text (envs i) None ?c) (se_now (envs i)) arts"
    have st: "set_wo_artifact (envs i) (escalation_key w i) ?c None arts = (Inr True, ?arts1)"
      using Cons.prems(3) by (simp add: set_wo_artifact_def escalation_key_def VALID_KINDS_def)
    have get: "get_wo_artifact k ?arts1 = (if k = escalation_key w i then Some ?c else get_wo_artifact k arts)" for k
      using resolved_text(1) [OF own(1)] by (simp add: get_wo_artifact_def get_upsert stored_text_def bare_text_def)
    have keys: "map_of ?arts1 k = None \<longleftrightarrow> map_of arts k = None" for k
      using own(2) by (simp add: map_of_artifact_upsert)
    obtain res1 where run: "resolve_rows envs now w note rows res1 ?arts1 = (Inr res', arts')"
      using Cons.prems(4) False st by (auto simp: row resolved_content_def resolved_data_def Let_def escalation_key_def)
    have rest: "\<forall>(j, content)\<in>set rows. well_kept content \<and> map_of ?arts1 (escalation_key w j) \<noteq> None \<and>
      get_wo_artifact (escalation_key w j) ?arts1 = Some content"
    proof (rule ballI)
      fix jc assume jc: "jc \<in> set rows"
      obtain j c where j: "jc = (j, c)" by (cases jc)
      have "escalation_key w j \<noteq> escalation_key w i"
        using jc fresh by (auto simp: j escalation_key_def image_iff)
      moreover have "well_kept c" "map_of arts (escalation_key w j) \<noteq> None" "get_wo_artifact (escalation_key w j) arts = Some c"
        using Cons.prems(2) jc by (auto simp: j)
      ultimately show "case jc of (j, content) \<Rightarrow> well_kept content \<and> map_of ?arts1 (escalation_key w j) \<noteq> None \<and>
          get_wo_artifact (escalation_key w j) ?arts1 = Some content"
        unfolding j prod.case get keys by simp
    qed
    note ih = Cons.IH [OF d rest Cons.prems(3) run]
    then have same: "get_wo_artifact k arts' = get_wo_artifact k ?arts1" if "k \<notin> escalation_key w ` fst ` set rows" for k
      using that by blast
    from same [OF apart] have "get_wo_artifact (escalation_key w i) arts' = Some ?c"
      using get by simp
    then have "\<forall>(j, content)\<in>set (row # rows). \<exists>c. get_wo_artifact (escalation_key w j) arts' = Some c \<and> resolved_content c"
      using ih resolved_text(2) [OF own(1)] by (simp add: row)
    moreover have "get_wo_artifact k arts' = get_wo_artifact k arts" if "k \<notin> escalation_key w ` fst ` set (row # rows)" for k
      using that same [of k] get [of k] by (simp only: row list.simps image_insert fst_conv insert_iff) simp
    moreover have "map_of arts' k = None \<longleftrightarrow> map_of arts k = None" for k
      using ih keys by blast
    ultimately show ?thesis
      by blast
  qed
qed simp

lemma upsert_distinct: "distinct (map fst arts) \<Longrightarrow> distinct (map fst (upsert_artifact k c now arts))"
  by (auto simp: upsert_artifact_def distinct_update map_of_eq_None_iff split: option.split)

lemma resolve_rows_distinct:
  "resolve_rows envs now w note rows res arts = (out, arts') \<Longrightarrow> distinct (map fst arts) \<Longrightarrow> distinct (map fst arts')"
proof (induction envs now w "note" rows res arts arbitrary: out arts' rule: resolve_rows.induct)
  case (2 envs now w note' i content rows res arts)
  have kept: "distinct (map fst arts1)" if "set_wo_artifact (envs i) k c None arts = (x, arts1)" for k c x arts1
    using that "2.prems"(2) set_wo_artifact_cases [of "envs i" k c None arts]
      upsert_distinct [OF "2.prems"(2), of k "stored_text (envs i) None c" "se_now (envs i)"] by auto
  show ?case
    using "2.prems"(1) "2.IH"(1) [OF refl refl _ _ "2.prems"(2)] "2.IH"(2) [OF refl refl _ refl refl] kept
    by (auto simp: Let_def split: if_splits prod.splits sum.splits)
qed simp

lemma in_list_wo_artifacts:
  assumes "distinct (map fst arts)"
  shows "(i, c) \<in> set (list_wo_artifacts w kind arts) \<longleftrightarrow>
    (\<exists>r. map_of arts (w, kind, i) = Some r \<and> get_wo_artifact (w, kind, i) arts = Some c \<and> c = shown_content r)"
proof -
  have "(i, c) \<in> set (list_wo_artifacts w kind arts) \<longleftrightarrow> (\<exists>r. ((w, kind, i), r) \<in> set arts \<and> c = shown_content r)"
    by (force simp: list_wo_artifacts_def)
  then show ?thesis
    using assms shown_is_got by (auto simp: map_of_eq_Some_iff)
qed

lemma distinct_instances:
  assumes "distinct (map fst arts)"
  shows "distinct (map fst (list_wo_artifacts w kind arts))"
proof -
  let ?P = "\<lambda>((w', k', i), r). w' = w \<and> k' = kind" and ?i = "\<lambda>((w', k', i), r). i"
  have "inj_on fst (set arts)" "distinct arts"
    using assms by (simp_all add: distinct_map)
  then have "inj_on ?i (set (filter ?P arts))" "distinct (filter ?P arts)"
    by (auto simp: inj_on_def) (metis fst_conv snd_conv)
  then show ?thesis
    by (simp add: list_wo_artifacts_def distinct_map comp_def case_prod_unfold distinct_sort)
qed

text \<open>Resolving the escalations of a work order while the store accepts writes leaves every one of them resolved
  and changes no other artifact.\<close>

theorem resolve_settles:
  assumes "resolve_escalation envs now w None text arts = (Inr res, arts')" and "distinct (map fst arts)"
    and "\<forall>i. write_attempts (se_answer (envs i)) 0 LOCK_ATTEMPTS = Inr True"
    and "\<forall>(i, content)\<in>set (list_wo_artifacts w ''escalation'' arts). well_kept content"
  shows "(\<forall>e\<in>set (get_escalations w arts'). ea_status e = JsStr ''resolved'') \<and>
    (\<forall>k. fst k \<noteq> w \<or> fst (snd k) \<noteq> ''escalation'' \<longrightarrow> get_wo_artifact k arts' = get_wo_artifact k arts)"
proof -
  let ?rows = "list_wo_artifacts w ''escalation'' arts"
  have run: "resolve_rows envs now w text ?rows \<lparr>re_resolved = [], re_already_resolved = [], re_found = (?rows \<noteq> [])\<rparr> arts =
      (Inr res, arts')"
    using assms(1) by (simp add: resolve_escalation_def Let_def)
  have d: "distinct (map fst ?rows)"
    by (rule distinct_instances [OF assms(2)])
  have rows: "\<forall>(i, content)\<in>set ?rows. well_kept content \<and> map_of arts (escalation_key w i) \<noteq> None \<and>
      get_wo_artifact (escalation_key w i) arts = Some content"
    using assms(2,4) in_list_wo_artifacts [OF assms(2)] by (auto simp: escalation_key_def)
  note ends = resolve_rows_resolves [OF d rows assms(3) run]
  have d': "distinct (map fst arts')"
    by (rule resolve_rows_distinct [OF run assms(2)])
  have "resolved_content c" if "(i, c) \<in> set (list_wo_artifacts w ''escalation'' arts')" for i c
  proof -
    have got: "map_of arts' (escalation_key w i) \<noteq> None" "get_wo_artifact (escalation_key w i) arts' = Some c"
      using that in_list_wo_artifacts [OF d'] by (auto simp: escalation_key_def)
    moreover have "map_of arts' k = None \<longleftrightarrow> map_of arts k = None" for k
      using ends by blast
    ultimately have "map_of arts (escalation_key w i) \<noteq> None"
      by metis
    then obtain c0 where "(i, c0) \<in> set ?rows"
      using in_list_wo_artifacts [OF assms(2), of i _ w "''escalation''"] shown_is_got by (auto simp: escalation_key_def)
    then show ?thesis
      using ends got by fastforce
  qed
  then have "\<forall>e\<in>set (get_escalations w arts'). ea_status e = JsStr ''resolved''"
    by (auto simp: get_escalations_def parse_escalation_artifact_def resolved_content_def js_or_def Let_def)
  moreover have "get_wo_artifact k arts' = get_wo_artifact k arts" if "fst k \<noteq> w \<or> fst (snd k) \<noteq> ''escalation''" for k
  proof -
    have "k \<notin> escalation_key w ` fst ` set ?rows"
      using that by (auto simp: escalation_key_def)
    then show ?thesis
      using ends by blast
  qed
  ultimately show ?thesis by blast
qed

text \<open>A write the store refuses is reported like one that landed.\<close>

theorem refused_resolution_reported:
  assumes "\<forall>i. write_attempts (se_answer (envs i)) 0 LOCK_ATTEMPTS = Inr False"
  shows "\<exists>res. resolve_escalation envs now w None text arts = (Inr res, arts) \<and>
    re_resolved res = map (\<lambda>(i, content). js_or (js_get (escalation_data content) ''type'') (JsStr i))
      (filter (\<lambda>(i, content). \<not> resolved_content content) (list_wo_artifacts w ''escalation'' arts))"
proof -
  have st: "set_wo_artifact (envs i) (w, ''escalation'', i) c None arts = (Inr False, arts)" for i c
    using assms by (simp add: set_wo_artifact_def VALID_KINDS_def)
  have all: "\<exists>res'. resolve_rows envs now w text rows res arts = (Inr res', arts) \<and>
      re_resolved res' = re_resolved res @ map (\<lambda>(i, content). js_or (js_get (escalation_data content) ''type'') (JsStr i))
        (filter (\<lambda>(i, content). \<not> resolved_content content) rows)" for rows res
  proof (induction rows arbitrary: res)
    case (Cons row rows)
    obtain i content where row: "row = (i, content)" by (cases row)
    show ?case
    proof (cases "resolved_content content")
      case True
      then show ?thesis
        using Cons.IH [of "res\<lparr>re_already_resolved := re_already_resolved res @ [js_or (js_get (escalation_data content) ''type'') (JsStr i)]\<rparr>"]
        by (simp add: row resolved_content_def Let_def)
    next
      case False
      then show ?thesis
        using Cons.IH [of "res\<lparr>re_resolved := re_resolved res @ [js_or (js_get (escalation_data content) ''type'') (JsStr i)]\<rparr>"]
        by (simp add: row resolved_content_def Let_def st)
    qed
  qed simp
  show ?thesis
    using all [of "list_wo_artifacts w ''escalation'' arts" "\<lparr>re_resolved = [], re_already_resolved = [],
        re_found = (list_wo_artifacts w ''escalation'' arts \<noteq> [])\<rparr>"]
    by (simp add: resolve_escalation_def Let_def)
qed

section \<open>A concrete escalation\<close>

definition sample_ladder_env :: "sqlite_error option \<Rightarrow> store_env" where
  "sample_ladder_env fault = \<lparr>se_now = ''t'', se_answer = (\<lambda>n. fault), se_git = (\<lambda>argv. None), se_root = None\<rparr>"

definition sample_escalated :: artifact_table where
  "sample_escalated = escalate_to_operator (sample_ladder_env None) ''t'' ''w1'' ''stuck'' []"

definition schema_fault :: sqlite_error where
  "schema_fault = OperationalError ''no such table: business_work_order_artifacts''"

lemma sample_escalation:
  "sample_escalated = [((''w1'', ''escalation'', ''retrycap''), \<lparr>ar_content = json_dumps None (escalation_json ''w1'' ''retrycap'' ''stuck'' ''t''),
     ar_created_at = ''t'', ar_updated_at = ''t''\<rparr>)]"
  by (simp add: sample_escalated_def escalate_to_operator_def record_escalation_artifact_def set_wo_artifact_def VALID_KINDS_def
      sample_ladder_env_def LOCK_ATTEMPTS_def numeral_eq_Suc stored_text_def upsert_artifact_def)

lemma escalation_json_plain: "json_plain (escalation_json w i r t)"
  by (simp add: escalation_json_def)

lemma sample_escalation_rows:
  "list_wo_artifacts ''w1'' ''escalation'' sample_escalated = [(''retrycap'', json_dumps None (escalation_json ''w1'' ''retrycap'' ''stuck'' ''t''))]"
proof -
  have "unwrap (Some (json_dumps None (escalation_json ''w1'' ''retrycap'' ''stuck'' ''t''))) =
      (Some (json_dumps None (escalation_json ''w1'' ''retrycap'' ''stuck'' ''t'')), None)"
    using json_loads_dumps [OF escalation_json_plain [of "''w1''" "''retrycap''" "''stuck''" "''t''"], of None]
    by (simp add: unwrap_def escalation_json_def ENVELOPE_MARKER_def)
  then show ?thesis
    by (simp add: sample_escalation list_wo_artifacts_def shown_content_def)
qed

lemma sample_escalation_data:
  "JsObj (escalation_data (json_dumps None (escalation_json ''w1'' ''retrycap'' ''stuck'' ''t''))) = escalation_json ''w1'' ''retrycap'' ''stuck'' ''t''"
  using json_loads_dumps [OF escalation_json_plain [of "''w1''" "''retrycap''" "''stuck''" "''t''"], of None]
  by (simp add: escalation_data_def escalation_json_def)

lemma resolve_settles_witness:
  "\<exists>arts'. snd (resolve_escalation (\<lambda>i. sample_ladder_env None) ''t1'' ''w1'' None [] sample_escalated) = arts' \<and>
     list_all (\<lambda>e. ea_status e = JsStr ''resolved'') (get_escalations ''w1'' arts')"
proof -
  let ?r = "resolve_escalation (\<lambda>i. sample_ladder_env None) ''t1'' ''w1'' None [] sample_escalated"
  have answers: "\<forall>i. write_attempts (se_answer ((\<lambda>i. sample_ladder_env None) i)) 0 LOCK_ATTEMPTS = Inr True"
    by (simp add: sample_ladder_env_def LOCK_ATTEMPTS_def numeral_eq_Suc)
  have "\<exists>res. fst ?r = Inr res"
    using answers by (simp add: resolve_escalation_def sample_escalation_rows set_wo_artifact_def VALID_KINDS_def Let_def)
  then obtain res arts' where r: "?r = (Inr res, arts')"
    by (metis prod.collapse)
  have kept: "\<forall>(i, content)\<in>set (list_wo_artifacts ''w1'' ''escalation'' sample_escalated). well_kept content"
    using sample_escalation_data escalation_json_plain [of "''w1''" "''retrycap''" "''stuck''" "''t''"]
    by (simp add: sample_escalation_rows well_kept_def escalation_json_def ENVELOPE_MARKER_def)
  have "distinct (map fst sample_escalated)"
    by (simp add: sample_escalation)
  from resolve_settles [OF r this answers kept] r show ?thesis
    by (simp add: list_all_iff)
qed

lemma refused_resolution_reported_witness:
  "\<exists>res. resolve_escalation (\<lambda>i. sample_ladder_env (Some schema_fault)) ''t1'' ''w1'' None [] sample_escalated =
     (Inr res, sample_escalated) \<and> re_resolved res = [JsStr ''retrycap'']"
proof -
  have "write_attempts (se_answer (sample_ladder_env (Some schema_fault))) 0 LOCK_ATTEMPTS = Inr False"
    by code_simp
  then have "\<forall>i. write_attempts (se_answer ((\<lambda>i. sample_ladder_env (Some schema_fault)) i)) 0 LOCK_ATTEMPTS = Inr False"
    by simp
  from refused_resolution_reported [OF this, of "''t1''" "''w1''" "[]" sample_escalated] show ?thesis
    using sample_escalation_data
    by (simp add: sample_escalation_rows resolved_content_def escalation_json_def js_get_def js_or_def)
qed

end
