(* ===== verification/Outcome_Eval.thy ===== *)
theory Outcome_Eval
  imports Escalation Close_Preview Work_Order_Lifecycle
begin

text \<open>
  The outcome evaluation (\<^verbatim>\<open>core/eval/runner_outcome.py\<close>, with the event of \<^verbatim>\<open>core/eval/events.py\<close>): the symptoms
  and criteria of closed work orders are run again, and one that regressed is reopened and escalated until its
  retries are spent.

  The state is the authority, the ladder table and the artifact store. What a check answers may depend on the
  state at its turn; each work order is evaluated at most once in a pass, so its calls are functions of its
  id. The database faults the pass catches per work order are not modelled.
\<close>

section \<open>Evaluating one work order\<close>

record outcome_state =
  ot_au :: authority
  ot_ladder :: ladder
  ot_arts :: artifact_table

record outcome_env =
  oe_gates :: "outcome_state \<Rightarrow> close_env"
  oe_exec :: "string \<Rightarrow> outcome_state \<Rightarrow> executor"
  oe_error :: "check \<Rightarrow> string"
  oe_call :: "string \<Rightarrow> call"
  oe_run_id :: "string \<Rightarrow> string"
  oe_reopen :: "string \<Rightarrow> call"
  oe_store :: "string \<Rightarrow> store_env"
  oe_now :: "string \<Rightarrow> string"
  oe_cap :: int
  oe_tick :: "authority \<Rightarrow> authority"

record wo_outcome =
  ov_work_order :: string
  ov_title :: "string option"
  ov_failures :: "string list"
  ov_skipped :: bool
  ov_reopened :: bool

definition ov_passed :: "wo_outcome \<Rightarrow> bool" where
  "ov_passed o1 = (ov_failures o1 = [])"

definition read_wo_tasks_for_outcome :: "string \<Rightarrow> authority \<Rightarrow> wo_task list" where
  "read_wo_tasks_for_outcome w au =
     map (\<lambda>(k, t). \<lparr>wt_id = [], wt_title = t_title t, wt_status = t_status t,
         wt_criteria = text_or_empty (t_acceptance_criteria t)\<rparr>)
       (sort_key (\<lambda>(k, t). t_created_at t) (filter (\<lambda>(k, t). t_work_order_id t = w) (tasks (au_db au))))"

definition ac_failure :: "outcome_env \<Rightarrow> string \<Rightarrow> check \<Rightarrow> string" where
  "ac_failure env title c =
     ''executable_ac['' @ title @ '']: '' @ ck_kind c @ '' '' @ py_repr (ck_expr c) @ '' FAILED -- '' @
     (if oe_error env c = [] then ''check returned falsy'' else oe_error env c)"

definition ac_failures :: "outcome_env \<Rightarrow> check_results \<Rightarrow> string list" where
  "ac_failures env res =
     concat (map (\<lambda>(title, checks). map (ac_failure env title) (filter (\<lambda>c. ck_passed c \<noteq> Some True) checks)) res)"

definition evaluate_wo_outcome :: "outcome_env \<Rightarrow> bool \<Rightarrow> outcome_state \<Rightarrow> string \<Rightarrow> wo_outcome" where
  "evaluate_wo_outcome env symptom_only st w =
     (case wo_of w (ot_au st) of
        None \<Rightarrow> \<lparr>ov_work_order = w, ov_title = None, ov_failures = [], ov_skipped = True, ov_reopened = False\<rparr>
      | Some r \<Rightarrow>
          let gates = oe_gates env st;
              symptom = (if truthy (wo_originating_symptom r)
                then opt_list (check_originating_symptom gates (ce_here gates) (the (wo_originating_symptom r))) else []);
              ts = (if symptom_only then [] else read_wo_tasks_for_outcome w (ot_au st))
          in \<lparr>ov_work_order = w, ov_title = wo_title r,
               ov_failures = symptom @ ac_failures env (run_executable_checks (oe_exec env w st) ts),
               ov_skipped = False, ov_reopened = False\<rparr>)"

section \<open>Recording, reopening, escalating\<close>

definition eval_envelope :: "call \<Rightarrow> string \<Rightarrow> string \<Rightarrow> envelope" where
  "eval_envelope c run_id w =
     (make_envelope c ''eval.run.completed''
        [(''run_id'', Some run_id), (''eval_id'', Some (''outcome:'' @ take 8 w)), (''work_order_id'', Some w),
         (''run_mode'', Some ''outcome'')]
        ([(''domain'', Some ''telemetry''), (''attribution_status'', Some ''fully_attributed'')] @
         (if w = [] then [] else [(''work_order_id'', Some w)])))\<lparr>env_payload_other := [''passed'', ''failure_reasons'']\<rparr>"

definition record_outcome_run :: "outcome_env \<Rightarrow> string \<Rightarrow> authority \<Rightarrow> authority" where
  "record_outcome_run env w au = fst (emit (oe_call env w) (eval_envelope (oe_call env w) (oe_run_id env w) w) au)"

definition regression_reason :: "wo_outcome \<Rightarrow> string" where
  "regression_reason o1 =
     (let joined = py_join ''; '' (ov_failures o1) in if joined = [] then ''outcome regressed'' else joined)"

definition reopen_and_escalate :: "outcome_env \<Rightarrow> string \<Rightarrow> wo_outcome \<Rightarrow> outcome_state \<Rightarrow> outcome_state" where
  "reopen_and_escalate env w o1 st =
     (let reason = regression_reason o1; (rep, lad) = register_retry (oe_cap env) w (ot_ladder st) in
      if rr_capped rep then
        st\<lparr>ot_ladder := lad, ot_arts := escalate_to_operator (oe_store env w) (oe_now env w) w
             (''retry cap reached ('' @ int_text (rr_retry_count rep) @ ''/'' @ int_text (rr_retry_cap rep) @
              ''); last failure: '' @ reason) (ot_arts st)\<rparr>
      else
        \<lparr>ot_au = snd (reopen_work_order (oe_tick env) (oe_reopen env w) w
             ''outcome_eval: symptom regressed after close'' (ot_au st)),
         ot_ladder = mark_escalated w reason ESCALATION_EXECUTOR lad,
         ot_arts = record_escalation_artifact (oe_store env w) (oe_now env w) w ''outcome'' reason (ot_arts st)\<rparr>)"

section \<open>The pass\<close>

text \<open>\<open>TRIM\<close> removes blanks only.\<close>

definition outcome_candidates :: "string option \<Rightarrow> authority \<Rightarrow> string list" where
  "outcome_candidates cutoff au =
     map fst (filter (\<lambda>(k, r). wo_status r = ''closed'' \<and>
         (case wo_originating_symptom r of None \<Rightarrow> False | Some s \<Rightarrow> list_ex (\<lambda>c. c \<noteq> CHR '' '') s) \<and>
         (case cutoff of None \<Rightarrow> True
          | Some t \<Rightarrow> (case wo_closed_at r of None \<Rightarrow> False | Some finished \<Rightarrow> t \<le> finished))) (work_orders (au_db au)))"

definition eval_candidate :: "outcome_env \<Rightarrow> bool \<Rightarrow> bool \<Rightarrow> string \<Rightarrow> outcome_state \<Rightarrow> wo_outcome \<times> outcome_state" where
  "eval_candidate env symptom_only auto_reopen w st =
     (let o1 = evaluate_wo_outcome env symptom_only st w;
          st1 = st\<lparr>ot_au := record_outcome_run env w (ot_au st)\<rparr>
      in if \<not> ov_passed o1 \<and> auto_reopen then (o1\<lparr>ov_reopened := True\<rparr>, reopen_and_escalate env w o1 st1) else (o1, st1))"

fun eval_candidates ::
    "outcome_env \<Rightarrow> bool \<Rightarrow> bool \<Rightarrow> string list \<Rightarrow> outcome_state \<Rightarrow> wo_outcome list \<times> outcome_state" where
  "eval_candidates env symptom_only auto_reopen [] st = ([], st)"
| "eval_candidates env symptom_only auto_reopen (w # ws) st =
     (let (o1, st1) = eval_candidate env symptom_only auto_reopen w st;
          (results, st2) = eval_candidates env symptom_only auto_reopen ws st1
      in (o1 # results, st2))"

definition run_outcome_eval ::
    "outcome_env \<Rightarrow> bool \<Rightarrow> bool \<Rightarrow> string option \<Rightarrow> outcome_state \<Rightarrow> wo_outcome list \<times> outcome_state" where
  "run_outcome_eval env symptom_only auto_reopen cutoff st =
     eval_candidates env symptom_only auto_reopen (outcome_candidates cutoff (ot_au st)) st"

definition failed_outcomes :: "wo_outcome list \<Rightarrow> wo_outcome list" where
  "failed_outcomes results = filter (\<lambda>o1. \<not> ov_passed o1) results"

section \<open>One work order at its turn\<close>

lemma candidate_failures:
  "ov_failures (fst (eval_candidate env so auto w st)) = ov_failures (evaluate_wo_outcome env so st w)"
  by (simp add: eval_candidate_def Let_def)

lemma candidate_work_order [simp]: "ov_work_order (fst (eval_candidate env so auto w st)) = w"
  by (simp add: eval_candidate_def evaluate_wo_outcome_def Let_def split: option.split)

text \<open>What a candidate leaves of the others: their rows, when the projection pass changes nothing, their retries and
  their artifacts.\<close>

definition same_for :: "string \<Rightarrow> outcome_state \<Rightarrow> outcome_state \<Rightarrow> bool" where
  "same_for w a b \<longleftrightarrow> retries_of w (ot_ladder a) = retries_of w (ot_ladder b) \<and>
     (\<forall>kind i. map_of (ot_arts a) (w, kind, i) = map_of (ot_arts b) (w, kind, i))"

definition phase_of :: "string \<Rightarrow> outcome_state \<Rightarrow> string option" where
  "phase_of w st = map_option wo_status (wo_of w (ot_au st))"

lemma candidate_reopened:
  "\<not> ov_passed (fst (eval_candidate env so True w st)) \<Longrightarrow> ov_reopened (fst (eval_candidate env so True w st))"
  by (simp add: eval_candidate_def ov_passed_def Let_def split: if_splits)

lemma same_for_trans: "same_for w a b \<Longrightarrow> same_for w b c \<Longrightarrow> same_for w a c"
  by (simp add: same_for_def)

lemma same_for_refl [simp]: "same_for w a a"
  by (simp add: same_for_def)

lemma escalation_artifact_other:
  "w' \<noteq> w \<Longrightarrow> map_of (record_escalation_artifact env now w i reason arts) (w', kind, j) = map_of arts (w', kind, j)"
  using set_wo_artifact_cases [of env "(w, ''escalation'', i)" "json_dumps None (escalation_json w i reason now)" None arts]
  by (auto simp: record_escalation_artifact_def map_of_artifact_upsert)

lemma candidate_retries:
  "retries_of k (ot_ladder (snd (eval_candidate env so auto w st))) =
     retries_of k (ot_ladder st) + (if k = w \<and> auto \<and> \<not> ov_passed (fst (eval_candidate env so auto w st)) then 1 else 0)"
  by (auto simp: eval_candidate_def reopen_and_escalate_def ov_passed_def Let_def retries_of_ops(2) [of k "oe_cap env" w "ot_ladder st"]
      case_prod_unfold)

lemma candidate_frame: "k \<noteq> w \<Longrightarrow> same_for k st (snd (eval_candidate env so auto w st))"
  using candidate_retries [of k env so auto w st]
  by (auto simp: same_for_def eval_candidate_def reopen_and_escalate_def escalate_to_operator_def escalation_artifact_other
      case_prod_unfold Let_def)

lemma capped_iff: "rr_capped (fst (register_retry cap w t)) \<longleftrightarrow> cap \<le> retries_of w t + 1"
  by (auto simp: register_retry_def retries_of_def Let_def split: option.split)

lemma reopen_phase:
  "map_option wo_status (wo_of k (snd (reopen_work_order (\<lambda>a. a) c w reason au))) =
     (if k = w \<and> map_option wo_status (wo_of w au) = Some ''closed'' then Some ''in_progress'' else map_option wo_status (wo_of k au))"
  by (auto simp: reopen_work_order_def wo_of_update emit_update status_for_work_order Let_def case_prod_unfold split: option.split)

lemma candidate_phase:
  assumes "oe_tick env = (\<lambda>a. a)"
  shows "phase_of k (snd (eval_candidate env so auto w st)) =
    (if k = w \<and> phase_of w st = Some ''closed'' \<and> auto \<and> \<not> ov_passed (fst (eval_candidate env so auto w st)) \<and>
       retries_of w (ot_ladder st) + 1 < oe_cap env then Some ''in_progress'' else phase_of k st)"
  using assms by (auto simp: phase_of_def eval_candidate_def reopen_and_escalate_def ov_passed_def record_outcome_run_def Let_def
      case_prod_unfold capped_iff reopen_phase simp del: map_option_eq_Some)

section \<open>What a pass does\<close>

lemma pass_frame:
  assumes "k \<notin> set ws" and "eval_candidates env so auto ws st = (results, st')"
  shows "same_for k st st' \<and> (oe_tick env = (\<lambda>a. a) \<longrightarrow> phase_of k st' = phase_of k st)"
  using assms
proof (induction ws arbitrary: st results)
  case (Cons w ws)
  let ?st1 = "snd (eval_candidate env so auto w st)"
  obtain results1 where "eval_candidates env so auto ws ?st1 = (results1, st')"
    using Cons.prems(2) by (auto simp: Let_def split: prod.splits)
  from Cons.IH [OF _ this] Cons.prems(1) show ?case
    using candidate_frame [of k w st env so auto] candidate_phase [of env k so auto w st] by (auto intro: same_for_trans)
qed simp

text \<open>Each result was computed in a state that agrees with the first one on its work order, and what it did to its
  work order is what the last state holds.\<close>

definition at_turn :: "outcome_env \<Rightarrow> bool \<Rightarrow> bool \<Rightarrow> outcome_state \<Rightarrow> outcome_state \<Rightarrow> wo_outcome \<Rightarrow> bool" where
  "at_turn env so auto st st' o1 \<longleftrightarrow> (\<exists>s s'. let w = ov_work_order o1 in
     eval_candidate env so auto w s = (o1, s') \<and> same_for w st s \<and> same_for w s' st' \<and>
     (oe_tick env = (\<lambda>a. a) \<longrightarrow> phase_of w s = phase_of w st \<and> phase_of w st' = phase_of w s'))"

lemma pass_turn:
  assumes "distinct ws" and "eval_candidates env so auto ws st = (results, st')"
  shows "map ov_work_order results = ws \<and> (\<forall>o1\<in>set results. at_turn env so auto st st' o1)"
  using assms
proof (induction ws arbitrary: st results)
  case (Cons w ws)
  obtain o1 st1 where o1: "eval_candidate env so auto w st = (o1, st1)"
    by (cases "eval_candidate env so auto w st")
  obtain results1 where rest: "eval_candidates env so auto ws st1 = (results1, st')" and results: "results = o1 # results1"
    using Cons.prems(2) o1 by (auto simp: Let_def split: prod.splits)
  have own: "ov_work_order o1 = w"
    using candidate_work_order [of env so auto w st] by (simp add: o1)
  have new: "w \<notin> set ws" "distinct ws"
    using Cons.prems(1) by auto
  have "at_turn env so auto st st' o1"
    unfolding at_turn_def Let_def own using o1 pass_frame [OF new(1) rest] by (intro exI [of _ st] exI [of _ st1]) simp
  moreover have "at_turn env so auto st st' x" if "x \<in> set results1" for x
  proof -
    have "ov_work_order x \<noteq> w"
      using that Cons.IH [OF new(2) rest] new(1) by auto
    from candidate_frame [OF this, of st env so auto] this
    have "same_for (ov_work_order x) st st1" "oe_tick env = (\<lambda>a. a) \<Longrightarrow> phase_of (ov_work_order x) st1 = phase_of (ov_work_order x) st"
      using candidate_phase [of env "ov_work_order x" so auto w st] by (simp_all add: o1)
    moreover have "at_turn env so auto st1 st' x"
      using that Cons.IH [OF new(2) rest] by blast
    ultimately show ?thesis
      unfolding at_turn_def Let_def by (metis same_for_trans)
  qed
  ultimately show ?case
    using Cons.IH [OF new(2) rest] by (simp add: results own)
qed simp

lemma candidates_distinct: "distinct (keys (work_orders (au_db au))) \<Longrightarrow> distinct (outcome_candidates cutoff au)"
  by (simp add: outcome_candidates_def distinct_map_filter)

lemma candidates_closed:
  assumes "distinct (keys (work_orders (au_db (ot_au st))))" and "w \<in> set (outcome_candidates cutoff (ot_au st))"
  shows "phase_of w st = Some ''closed''"
  using assms by (auto simp: outcome_candidates_def phase_of_def wo_of_def)

text \<open>The work order regressed and has a retry left.\<close>

definition reopened_by :: "outcome_env \<Rightarrow> ladder \<Rightarrow> wo_outcome list \<Rightarrow> string \<Rightarrow> bool" where
  "reopened_by env lad results w \<longleftrightarrow>
     (\<exists>o1\<in>set results. ov_work_order o1 = w \<and> \<not> ov_passed o1) \<and> retries_of w lad + 1 < oe_cap env"

lemma outcome_effect:
  assumes "run_outcome_eval env so auto cutoff st = (results, st')"
    and "distinct (keys (work_orders (au_db (ot_au st))))" and "oe_tick env = (\<lambda>a. a)"
  shows "phase_of w st' = (if auto \<and> reopened_by env (ot_ladder st) results w then Some ''in_progress'' else phase_of w st) \<and>
    retries_of w (ot_ladder st') = retries_of w (ot_ladder st) +
      (if auto \<and> (\<exists>o1\<in>set results. ov_work_order o1 = w \<and> \<not> ov_passed o1) then 1 else 0)"
proof -
  let ?ws = "outcome_candidates cutoff (ot_au st)"
  have run: "eval_candidates env so auto ?ws st = (results, st')"
    using assms(1) by (simp add: run_outcome_eval_def)
  note turn = pass_turn [OF candidates_distinct [OF assms(2)] run]
  have all: "set ?ws = ov_work_order ` set results"
    using turn by (metis list.set_map)
  show ?thesis
  proof (cases "w \<in> set ?ws")
    case False
    then have "\<not> (\<exists>o1\<in>set results. ov_work_order o1 = w)"
      using all by blast
    then show ?thesis
      using pass_frame [OF False run] assms(3) by (auto simp: same_for_def reopened_by_def)
  next
    case True
    then have "w \<in> ov_work_order ` set results" and d: "distinct (map ov_work_order results)"
      using turn candidates_distinct [OF assms(2)] all by (blast, simp)
    then obtain o1 where o1: "o1 \<in> set results" "ov_work_order o1 = w"
      by blast
    then have only: "(\<exists>o2\<in>set results. ov_work_order o2 = w \<and> \<not> ov_passed o2) \<longleftrightarrow> \<not> ov_passed o1"
      using d by (metis distinct_map inj_on_def)
    obtain s s' where t: "eval_candidate env so auto w s = (o1, s')" "same_for w st s" "same_for w s' st'"
      "phase_of w s = phase_of w st" "phase_of w st' = phase_of w s'"
      using turn o1 assms(3) by (auto simp: at_turn_def Let_def)
    then show ?thesis
      using candidate_phase [OF assms(3), of w so auto w s] candidate_retries [of w env so auto w s]
        candidates_closed [OF assms(2) True] only by (simp add: same_for_def reopened_by_def)
  qed
qed


section \<open>How often a work order is reopened\<close>

text \<open>Passes, and whatever else happens to the store between them as long as it takes no retries back; the number
  counts the passes that reopened the work order.\<close>

inductive eval_history :: "int \<Rightarrow> string \<Rightarrow> nat \<Rightarrow> outcome_state \<Rightarrow> outcome_state \<Rightarrow> bool" for cap w where
  start: "eval_history cap w 0 st st"
| pass: "eval_history cap w n st0 st \<Longrightarrow> run_outcome_eval env so auto cutoff st = (results, st') \<Longrightarrow> oe_cap env = cap \<Longrightarrow>
    oe_tick env = (\<lambda>a. a) \<Longrightarrow> distinct (keys (work_orders (au_db (ot_au st)))) \<Longrightarrow>
    eval_history cap w (if phase_of w st' \<noteq> phase_of w st then Suc n else n) st0 st'"
| between: "eval_history cap w n st0 st \<Longrightarrow> retries_of w (ot_ladder st) \<le> retries_of w (ot_ladder st') \<Longrightarrow>
    eval_history cap w n st0 st'"

lemma pass_reopens_with_retry:
  assumes "run_outcome_eval env so auto cutoff st = (results, st')" and "distinct (keys (work_orders (au_db (ot_au st))))"
    and "oe_tick env = (\<lambda>a. a)" and "phase_of w st' \<noteq> phase_of w st"
  shows "retries_of w (ot_ladder st) + 1 < oe_cap env \<and> retries_of w (ot_ladder st') = retries_of w (ot_ladder st) + 1"
  using outcome_effect [OF assms(1-3), of w] assms(4) by (auto simp: reopened_by_def split: if_splits)


section \<open>The operator hears of it\<close>

lemma escalation_recorded:
  assumes "write_attempts (se_answer env) 0 LOCK_ATTEMPTS = Inr True"
  shows "map_option shown_content (map_of (record_escalation_artifact env now w i reason arts) (w, ''escalation'', i)) =
    Some (json_dumps None (escalation_json w i reason now))"
proof -
  let ?c = "json_dumps None (escalation_json w i reason now)"
  have "bare_text ?c"
    using json_loads_dumps [OF escalation_json_plain [of w i reason now], of None]
    by (simp add: bare_text_def unwrap_def escalation_json_def ENVELOPE_MARKER_def)
  moreover have "record_escalation_artifact env now w i reason arts = upsert_artifact (w, ''escalation'', i) ?c (se_now env) arts"
    using assms by (simp add: record_escalation_artifact_def set_wo_artifact_def VALID_KINDS_def stored_text_def)
  ultimately show ?thesis
    by (auto simp: map_of_artifact_upsert shown_content_def bare_text_def split: option.split)
qed

lemma shown_escalation:
  assumes "map_of arts (w, ''escalation'', i) = Some r" and "shown_content r = json_dumps None (escalation_json w i reason now)"
  shows "\<exists>e\<in>set (get_escalations w arts). ea_type e = js_or (JsStr i) (JsStr i) \<and> ea_status e = JsStr ''unresolved'' \<and>
    ea_reason e = JsStr reason"
proof -
  let ?e = "parse_escalation_artifact w i (shown_content r) []"
  have "(i, shown_content r) \<in> set (list_wo_artifacts w ''escalation'' arts)"
    using map_of_SomeD [OF assms(1)] by (force simp: list_wo_artifacts_def)
  then have "?e \<in> set (get_escalations w arts)"
    by (force simp: get_escalations_def)
  moreover have "ea_type ?e = js_or (JsStr i) (JsStr i)" "ea_status ?e = JsStr ''unresolved''" "ea_reason ?e = JsStr reason"
    using json_loads_dumps [OF escalation_json_plain [of w i reason now], of None]
    by (simp_all add: parse_escalation_artifact_def escalation_data_def assms(2) escalation_json_def js_get_def js_default_def js_or_def
        Let_def)
  ultimately show ?thesis
    by blast
qed

lemma reopen_arts:
  "\<exists>reason. ot_arts (reopen_and_escalate env w o1 st) = record_escalation_artifact (oe_store env w) (oe_now env w) w
     (if retries_of w (ot_ladder st) + 1 < oe_cap env then ''outcome'' else ''retrycap'') reason (ot_arts st)"
proof (cases "oe_cap env \<le> retries_of w (ot_ladder st) + 1")
  case True
  then show ?thesis
    unfolding reopen_and_escalate_def Let_def case_prod_unfold capped_iff escalate_to_operator_def by (auto intro: exI)
next
  case False
  then show ?thesis
    unfolding reopen_and_escalate_def Let_def case_prod_unfold capped_iff by (auto intro: exI)
qed

lemma candidate_escalates:
  assumes "eval_candidate env so True w st = (o1, st')" and "\<not> ov_passed o1"
    and "write_attempts (se_answer (oe_store env w)) 0 LOCK_ATTEMPTS = Inr True"
    and "i = (if retries_of w (ot_ladder st) + 1 < oe_cap env then ''outcome'' else ''retrycap'')"
  shows "\<exists>r reason now. map_of (ot_arts st') (w, ''escalation'', i) = Some r \<and>
    shown_content r = json_dumps None (escalation_json w i reason now)"
proof -
  have st': "st' = reopen_and_escalate env w (evaluate_wo_outcome env so st w) (st\<lparr>ot_au := record_outcome_run env w (ot_au st)\<rparr>)"
    using assms(1,2) by (auto simp: eval_candidate_def ov_passed_def Let_def split: if_splits)
  have "\<exists>reason. ot_arts st' = record_escalation_artifact (oe_store env w) (oe_now env w) w i reason (ot_arts st)"
    unfolding st' assms(4) using reopen_arts [of env w "evaluate_wo_outcome env so st w" "st\<lparr>ot_au := record_outcome_run env w (ot_au st)\<rparr>"]
    by simp
  then obtain reason where "ot_arts st' = record_escalation_artifact (oe_store env w) (oe_now env w) w i reason (ot_arts st)" ..
  with escalation_recorded [OF assms(3), of "oe_now env w" w i reason "ot_arts st"]
  have "map_option shown_content (map_of (ot_arts st') (w, ''escalation'', i)) =
      Some (json_dumps None (escalation_json w i reason (oe_now env w)))"
    by simp
  then show ?thesis
    by blast
qed


text \<open>A pass says reopened of every work order that failed, also of one it left closed because its retries are
  spent.\<close>

theorem capped_work_order_reported_reopened:
  assumes "run_outcome_eval env so True cutoff st = (results, st')" and "distinct (keys (work_orders (au_db (ot_au st))))"
    and "oe_tick env = (\<lambda>a. a)" and "o1 \<in> set results" and "\<not> ov_passed o1"
    and "oe_cap env \<le> retries_of (ov_work_order o1) (ot_ladder st) + 1"
  shows "ov_reopened o1 \<and> phase_of (ov_work_order o1) st' = Some ''closed''"
proof -
  have run: "eval_candidates env so True (outcome_candidates cutoff (ot_au st)) st = (results, st')"
    using assms(1) by (simp add: run_outcome_eval_def)
  note turn = pass_turn [OF candidates_distinct [OF assms(2)] run]
  then have "ov_work_order o1 \<in> set (outcome_candidates cutoff (ot_au st))"
    using assms(4) by (metis imageI list.set_map)
  then have "phase_of (ov_work_order o1) st' = Some ''closed''"
    using outcome_effect [OF assms(1-3), of "ov_work_order o1"] candidates_closed [OF assms(2)] assms(6) by (auto simp: reopened_by_def)
  moreover have "ov_reopened o1"
    using turn assms(4,5) candidate_reopened [of env so] by (auto simp: at_turn_def Let_def) (metis fst_conv)
  ultimately show ?thesis
    by blast
qed

section \<open>Carried tasks\<close>

lemma collect_checks_own:
  assumes "t \<in> set ts" and "\<forall>u\<in>set ts. wt_title u = wt_title t \<longrightarrow> u = t" and "check_lines t \<noteq> []"
  shows "map_of (collect_checks f ts) (wt_title t) = Some (map f (check_lines t))"
proof -
  let ?g = "\<lambda>t res. let checks = map f (check_lines t) in if checks = [] then res else AList.update (wt_title t) checks res"
  have "map_of (fold ?g us acc) (wt_title t) = (if t \<in> set us then Some (map f (check_lines t)) else map_of acc (wt_title t))"
    if "\<forall>u\<in>set us. wt_title u = wt_title t \<longrightarrow> u = t" for us acc
    using that assms(3) by (induction us arbitrary: acc) (auto simp: update_conv Let_def)
  from this [OF assms(2)] assms(1) show ?thesis
    by (simp add: collect_checks_def)
qed

lemma ac_failures_own:
  "(title, checks) \<in> set res \<Longrightarrow> c \<in> set checks \<Longrightarrow> ck_passed c \<noteq> Some True \<Longrightarrow> ac_failure env title c \<in> set (ac_failures env res)"
  by (force simp: ac_failures_def)

text \<open>The gate leaves out the criteria of tasks that were carried away; the evaluation runs them again, on the
  work order the task has left.\<close>

theorem carried_task_fails_the_outcome:
  assumes "gv_au gv = ot_au st" and "gv_wo gv = w" and "wo_of w (ot_au st) \<noteq> None"
    and "(k, t) \<in> set (tasks (au_db (ot_au st)))" and "t_work_order_id t = w" and "k \<in> set (carried_task_ids (gv_arts gv) w)"
    and "\<forall>(j, u)\<in>set (tasks (au_db (ot_au st))). t_work_order_id u = w \<and> t_title u = t_title t \<longrightarrow> u = t"
    and "line \<in> set (check_lines \<lparr>wt_id = [], wt_title = t_title t, wt_status = t_status t, wt_criteria = text_or_empty (t_acceptance_criteria t)\<rparr>)"
    and "ck_passed (run_check (oe_exec env w st) line) \<noteq> Some True"
  shows "k \<notin> wt_id ` set (uncarried_tasks gv) \<and> \<not> ov_passed (evaluate_wo_outcome env False st w)"
proof -
  let ?t = "\<lparr>wt_id = [], wt_title = t_title t, wt_status = t_status t, wt_criteria = text_or_empty (t_acceptance_criteria t)\<rparr>"
  let ?ts = "read_wo_tasks_for_outcome w (ot_au st)"
  have "?t \<in> set ?ts" "\<forall>u\<in>set ?ts. wt_title u = wt_title ?t \<longrightarrow> u = ?t" "check_lines ?t \<noteq> []"
    using assms(4,5,7,8) by (force simp: read_wo_tasks_for_outcome_def)+
  from collect_checks_own [OF this, of "run_check (oe_exec env w st)"]
  have "(t_title t, map (run_check (oe_exec env w st)) (check_lines ?t)) \<in> set (run_executable_checks (oe_exec env w st) ?ts)"
    by (auto simp: run_executable_checks_def dest: map_of_SomeD)
  from ac_failures_own [OF this, of "run_check (oe_exec env w st) line" env]
  have "ac_failures env (run_executable_checks (oe_exec env w st) ?ts) \<noteq> []"
    using assms(8,9) by auto
  moreover have "k \<notin> wt_id ` set (uncarried_tasks gv)"
    using assms(2,6) by (auto simp: uncarried_tasks_def)
  ultimately show ?thesis
    using assms(3) by (auto simp: evaluate_wo_outcome_def ov_passed_def Let_def)
qed

section \<open>A concrete regression\<close>

definition sample_outcome_env :: "int \<Rightarrow> outcome_env" where
  "sample_outcome_env cap = \<lparr>oe_gates = (\<lambda>st. blank_env), oe_exec = (\<lambda>w st. blank_executor), oe_error = (\<lambda>c. []),
     oe_call = (\<lambda>w. sample_call), oe_run_id = (\<lambda>w. ''r''), oe_reopen = (\<lambda>w. sample_call),
     oe_store = (\<lambda>w. sample_ladder_env None), oe_now = (\<lambda>w. ''t''), oe_cap = cap, oe_tick = (\<lambda>a. a)\<rparr>"

definition sample_outcome_task :: task_row where
  "sample_outcome_task = \<lparr>t_work_order_id = ''w1'', t_project_id = ''p1'', t_title = ''T'', t_description = None,
     t_status = ''deleted'', t_created_at = ''t0'', t_updated_at = ''t0'', t_source_event_id = None, t_last_event_id = None,
     t_acceptance_criteria = Some ''SQL-CHECK: b''\<rparr>"

definition sample_outcome_state :: outcome_state where
  "sample_outcome_state =
     \<lparr>ot_au = \<lparr>au_db = (empty_db [])\<lparr>work_orders := [(''w1'', wo_default\<lparr>wo_status := ''closed'',
          wo_originating_symptom := Some ''SQL-CHECK: a''\<rparr>)], tasks := [(''k1'', sample_outcome_task)]\<rparr>,
        au_deps = [], au_spool = empty_spool\<rparr>, ot_ladder = [], ot_arts = []\<rparr>"

abbreviation sample_pass :: "int \<Rightarrow> wo_outcome list \<times> outcome_state" where
  "sample_pass cap \<equiv> run_outcome_eval (sample_outcome_env cap) True True None sample_outcome_state"

lemma sample_pass_run: "sample_pass cap = (fst (sample_pass cap), snd (sample_pass cap))"
  by simp

lemma sample_results:
  "map ov_work_order (fst (sample_pass cap)) = [''w1'']" "\<forall>o1\<in>set (fst (sample_pass cap)). \<not> ov_passed o1"
proof -
  have "outcome_candidates None (ot_au sample_outcome_state) = [''w1'']"
    by code_simp
  moreover have "ov_failures (evaluate_wo_outcome (sample_outcome_env cap) True sample_outcome_state ''w1'') =
      ov_failures (evaluate_wo_outcome (sample_outcome_env 0) True sample_outcome_state ''w1'')"
    by (simp add: evaluate_wo_outcome_def sample_outcome_env_def Let_def ac_failures_def run_executable_checks_def collect_checks_def
        split: option.split)
  moreover have "ov_failures (evaluate_wo_outcome (sample_outcome_env 0) True sample_outcome_state ''w1'') \<noteq> []"
    by code_simp
  ultimately show "map ov_work_order (fst (sample_pass cap)) = [''w1'']" "\<forall>o1\<in>set (fst (sample_pass cap)). \<not> ov_passed o1"
    using candidate_work_order [of "sample_outcome_env cap" True True "''w1''" sample_outcome_state]
      candidate_failures [of "sample_outcome_env cap" True True "''w1''" sample_outcome_state]
    by (auto simp: run_outcome_eval_def ov_passed_def Let_def case_prod_unfold)
qed

lemma sample_outcome_facts [simp]:
  "distinct (keys (work_orders (au_db (ot_au sample_outcome_state))))" "oe_tick (sample_outcome_env cap) = (\<lambda>a. a)"
  "retries_of ''w1'' (ot_ladder sample_outcome_state) = 0" "oe_cap (sample_outcome_env cap) = cap"
  "write_attempts (se_answer (oe_store (sample_outcome_env cap) w)) 0 LOCK_ATTEMPTS = Inr True"
  "phase_of ''w1'' sample_outcome_state = Some ''closed''"
  by (simp_all add: sample_outcome_state_def sample_outcome_env_def retries_of_def sample_ladder_env_def LOCK_ATTEMPTS_def
      numeral_eq_Suc phase_of_def wo_of_def)




lemma capped_work_order_reported_reopened_witness:
  "list_ex ov_reopened (fst (sample_pass 1)) \<and> phase_of ''w1'' (snd (sample_pass 1)) = Some ''closed''"
proof -
  obtain a where "a \<in> set (fst (sample_pass 1))" "ov_work_order a = ''w1''"
    using sample_results(1) [of 1] by auto
  then show ?thesis
    using capped_work_order_reported_reopened [OF sample_pass_run [of 1], of a] sample_results(2) [of 1] by (auto simp: list_ex_iff)
qed

definition sample_outcome_view :: gate_view where
  "sample_outcome_view = \<lparr>gv_au = ot_au sample_outcome_state, gv_arts = [(carry_key ''w1'', \<lparr>ar_content = json_dumps (Some 2)
     (JsObj [(''moved'', JsList [JsObj [(''from_task_id'', JsStr ''k1'')]])]), ar_created_at = ''t'', ar_updated_at = ''t''\<rparr>)],
     gv_wo = ''w1'', gv_project = ''p1''\<rparr>"

lemma carried_task_fails_the_outcome_witness:
  "uncarried_tasks sample_outcome_view = [] \<and>
   \<not> ov_passed (evaluate_wo_outcome (sample_outcome_env 3) False sample_outcome_state ''w1'')"
proof -
  have facts: "gv_au sample_outcome_view = ot_au sample_outcome_state" "gv_wo sample_outcome_view = ''w1''"
    "wo_of ''w1'' (ot_au sample_outcome_state) \<noteq> None"
    "(''k1'', sample_outcome_task) \<in> set (tasks (au_db (ot_au sample_outcome_state)))" "t_work_order_id sample_outcome_task = ''w1''"
    by (simp_all add: sample_outcome_view_def sample_outcome_state_def sample_outcome_task_def wo_of_def)
  have carried: "''k1'' \<in> set (carried_task_ids (gv_arts sample_outcome_view) ''w1'')"
    by code_simp
  have alone: "\<forall>(j, u)\<in>set (tasks (au_db (ot_au sample_outcome_state))).
      t_work_order_id u = ''w1'' \<and> t_title u = t_title sample_outcome_task \<longrightarrow> u = sample_outcome_task"
    by (simp add: sample_outcome_state_def)
  have check: "(''SQL-CHECK'', ''b'') \<in> set (check_lines \<lparr>wt_id = [], wt_title = t_title sample_outcome_task,
      wt_status = t_status sample_outcome_task, wt_criteria = text_or_empty (t_acceptance_criteria sample_outcome_task)\<rparr>)"
    "ck_passed (run_check (oe_exec (sample_outcome_env 3) ''w1'' sample_outcome_state) (''SQL-CHECK'', ''b'')) \<noteq> Some True"
    by code_simp+
  have "uncarried_tasks sample_outcome_view = []"
    by code_simp
  with carried_task_fails_the_outcome [OF facts carried alone check] show ?thesis
    by blast
qed

end
