(* ===== verification/Spec2Isabelle.thy ===== *)
theory Spec2Isabelle
  imports Authority_Replay Workflow_Runner File_Lock Gap_Safety Lane_Rounds Closing Reconcile Task_Criteria Outcome_Eval
begin

text \<open>
  Verification library of dream-studio, a local orchestrator of software work: an authority
  database of projects, milestones, work orders and tasks, an event log from which that database
  can be rebuilt, and a workflow engine that drives prompts and commands over it.

  \<^bold>\<open>The program and its parts.\<close> Two stores matter. The first is the business database. Operations
  (\<open>core/work\_orders/mutations.py\<close>, \<open>start\_main.py\<close>, \<open>close\_main.py\<close>, \<open>ordering.py\<close>) write its rows
  directly and emit a canonical event; the event goes through the spool (\<open>spool/\<close>) into the canonical
  tables, and projections (\<open>core/projections/\<close>), driven by an engine with cursors, retries and dead
  letters, write the same rows from the events. So every row has two writers, and much of the
  development is about their agreement. The second store is \<open>workflows.json\<close>, in which the workflow
  commands and the runner (\<open>control/execution/workflow/\<close>) keep the nodes of every active run under a
  file lock. Over the first store stands the discipline of closing work: tasks are admitted only with a
  check that can be run or a declared reason, reviews file their gaps as tasks or work orders, reviewers
  answer lanes with reproductions that are run again, and a close evaluates every gate on what the
  authority and the artifact store hold (\<open>core/work\_orders/\<close>, \<open>core/gates/\<close>).

  \<^bold>\<open>Theories.\<close> Every definition keeps the name of the code it translates where HOL allows; prefixes
  tell apart what classes tell apart there.

  \<^item> Prelude: Python strings and optional values, SQLite row operations on tables kept as association
    lists, results as sums, invariants along folds.
  \<^item> Event\_Types, Canonical\_Events, Event\_Registry: the event types (\<open>canonical/events/\<close>), stored events
    and envelopes, and every entry of the event type registry (\<open>config/event\_type\_registry\_*.py\<close>).
  \<^item> Task\_Status: the status vocabulary and the transition tables (\<open>core/work\_orders/task\_status.py\<close>).
  \<^item> Work\_Order\_Projection, Task\_Projection, Milestone\_Projection over Business\_DB and Attribution: the
    projections' handlers, one definition per event handler; invariants of the tables, idempotence,
    and a refinement of the table-free lifecycle by replay.
  \<^item> Projection\_Engine, Engine\_Properties, Business\_Engine: the incremental engine, its retry queue and
    dead letters, rebuild; what a cycle keeps and when incremental dispatch and rebuild agree.
  \<^item> Correlation, Module\_Boundary, Work\_Order\_Types: correlation ids, the module-boundary clause of a work
    order, the registry of work-order types, each with its round trips and bounds.
  \<^item> Spool: writing and ingesting event files; exactly-once insertion and where each file ends up.
  \<^item> Work\_Order\_Mutations, Work\_Order\_Lifecycle, Authority\_Replay: the operations on work orders and
    tasks with the events they emit; locales state what one lifecycle operation promises, with one
    interpretation per operation; runs of operations are the inductive relations \<open>op_step\<close> and
    \<open>op_run\<close>; the last theory closes the circle through the event log.
  \<^item> Workflow\_Parser, Workflow\_Cycles, Workflow\_Validate (\<open>validate.py\<close>): the line parser, Kahn's
    algorithm, the checks; the validator decides a declarative \<open>well_formed\<close>.
  \<^item> Workflow\_Templates, Workflow\_Engine (\<open>engine.py\<close>): references, substitution, conditions, ready
    nodes; safety and progress.
  \<^item> Workflow\_State, Workflow\_Runs (\<open>state\_commands.py\<close>, \<open>state\_io.py\<close>, \<open>state\_telemetry.py\<close>): the
    commands on \<open>workflows.json\<close>; the locale \<open>run_operation\<close> says what a change to a run promises and is
    interpreted for each of them; the invariant of the file, laws of the commands, completion.
  \<^item> Completion\_Check, Workflow\_Runner (\<open>runner.py\<close>): how a check becomes an argument vector, what counts
    as evidence, the dispatch loop; termination and honest reports.
  \<^item> File\_Lock (\<open>_file_lock\<close> of \<open>engine.py\<close>): the lock as a step relation over processes.
  \<^item> Py\_Text, Py\_Regex, Py\_Json, Declared\_Reason: Python texts, a matcher for its regular expressions,
    \<open>json.dumps\<close> and \<open>json.loads\<close> with their round trip, and the reason a task may declare.
  \<^item> Acceptance\_Checks (\<open>verify\_executor.py\<close>), Admission (\<open>admission.py\<close>), Gap\_Work and Gap\_Safety
    (\<open>verify\_gaps.py\<close>): the checks in acceptance criteria, run and previewed; the lanes of admission; filing,
    merging, spawning and draining the gaps of a review.
  \<^item> Artifact\_Store (\<open>artifacts.py\<close>, \<open>artifact\_envelope.py\<close>): artifacts and their provenance.
  \<^item> Gate\_Rules, Review\_Verdict, Close\_Gates, Close\_Checks, Close\_Preview (\<open>close\_gates.py\<close>,
    \<open>close\_shared.py\<close>, \<open>carry\_over.py\<close>, \<open>structural\_invariants.py\<close> and four files of \<open>core/gates/\<close>): the rules, a
    stored verdict, every gate in both modes, what always stands; the locale \<open>previewable\<close> says what a preview
    promises about the run and is interpreted for the type's gates and for the acceptance criteria.
  \<^item> Lane\_Answers, Lane\_Review, Lane\_Safety, Lane\_Rounds (\<open>review\_answers.py\<close>, \<open>lane\_sandbox.py\<close>):
    answers and the container that re-runs them, dispatching and recording rounds, what holds a review, and
    \<open>review_step\<close>, the relation of all runs of dispatches and submissions.
  \<^item> Closing (\<open>close\_main.py\<close>): the close itself, from the convened review to the write.
  \<^item> Milestones (\<open>core/milestones/\<close>): creating, closing and reading milestones over the audits of the
    document store.
  \<^item> Carry\_Over (\<open>carry\_over.py\<close>), Task\_Criteria (\<open>repoint\_ac.py\<close>, \<open>add\_task\<close>), Reconcile
    (\<open>reconcile.py\<close>): moving tasks to a new work order, filing a task and correcting its criterion, and the report
    of what looks finished, set against what the closes do.
  \<^item> Escalation (\<open>escalation.py\<close>), Outcome\_Eval (\<open>core/eval/runner\_outcome.py\<close>): the ladder of retries and the
    operator's escalations, and the evaluation that runs the checks of closed work orders again and reopens what
    regressed; \<open>eval\_history\<close> is the relation of all runs of it.

  \<^bold>\<open>What the theorems show.\<close> Work orders: a work order is closed only after it was started, reviewed
  and pushed, the guarded operations cannot be passed by concurrent changes, the row an operation
  writes is the row its event projects to, and replaying the emitted events computes the rows the
  operations wrote. Events: ingestion inserts each event once, handlers keep the tables well formed,
  a failing event is dead-lettered after a bounded number of attempts, incremental dispatch over an
  ordered log is the rebuild. Workflows: accepted files are exactly the well-formed acyclic ones, an
  accepted workflow can always go on and is completed in as many turns as it has nodes, the state file
  stays well formed under every sequence of commands, the runner always terminates and reports
  completed only when every node is completed or skipped, a node's output can neither become the
  program of a check nor change the number of its arguments. Closing: an unforced close succeeds only
  with settled tasks, evidence for each check, a clear lane review and the standing gates met, an
  escalated one only on a passing review, a preview is never contradicted by the run. Review: a
  finding holds the work order until a recorded pass whose resolving run exited 0, every new round asks
  it again, only the holder of a reviewer's credential answers for it. Gaps: no task is filed without a
  check or a reason, the fan-out of a category is bounded, a drain keeps the earliest of each finding.
  Milestones: an unforced close is earned by closed work and fresh, passing audits, and its event projects
  to the completed row. Carrying: the close gate keeps waiting for exactly the unfinished tasks that were not
  named. Criteria: a repoint leaves the old criterion and the reason in the log. Ladder: its rows count, a
  resolution settles every escalation, a pass over closed work orders reopens exactly the regressed ones with a
  retry left, at most one time less than the cap over any history, and no regression is silent. Round trips: correlation ids, module boundaries, workflow nodes, artifacts, JSON, declared reasons.
  The remaining theorems record where the code does not do what it means
  to: a file stranded by a failed canonical write, an event skipped by the cursor, a reverting
  redelivery, an order lost by a rebuild, conditions with an unknown operator that always hold, an
  update lost between the two writes of a start, a lock that a timeout breaks, a finished run that
  blocks its restart, a finding that its own confirmation resolves, waivers that read texts, a supported
  read that calls a work order closable when its close is refused, a drift report whose suggested closes are
  always refused, a second carry that forgets the first.

  \<^bold>\<open>Parameters.\<close> What the code reads from outside is an argument: clock readings and fresh ids (records
  \<open>clock\<close>, \<open>call\<close>), write faults of the spool (\<open>faults\<close>) and of the artifact store (\<open>store_env\<close>), the moment a
  projection tick or another process runs relative to an operation (\<open>window\<close>), the file system, floating
  point (\<open>float_ops\<close>, \<open>score_ops\<close>), the iteration order of a Python set (\<open>set_order\<close>), a node's full YAML, the
  skill loader and the subprocess of a check (\<open>runner_env\<close>), the queries, commands and requests of acceptance
  checks (\<open>executor\<close>), git, docker and the hash of credentials (\<open>git\<close>, \<open>docker\<close>), and for a close the
  outcome of the inline verification, main CI, dashboard invariants and the escalation level (\<open>close_reads\<close>). The document store and the disk behind a milestone's
  audits are in \<open>milestone_env\<close>, the calls a carry makes one after the other in \<open>carry_env\<close>, what an outcome pass asks in \<open>outcome_env\<close>.

  \<^bold>\<open>Bounds and fuel.\<close> Two functions have fuel. \<open>run_loop\<close> is the runner's loop, and \<open>runner_terminates\<close> proves
  that one more than the number of pending nodes is enough for every environment. \<open>json_loads\<close> parses with
  twice the length of its text plus two, and \<open>json_loads_dumps\<close> proves that this is enough for every text
  \<open>json_dumps\<close> prints. Kahn's loop, template substitution, the operator search and the regular-expression
  matcher are total functions with termination proofs. Characters are code points below 256; dashes and
  ellipses beyond them in messages are written in ASCII. Python integers are \<open>int\<close>, SQLite counters are
  \<open>nat\<close>, a retried artifact write makes \<open>LOCK_ATTEMPTS\<close> attempts.

  \<^bold>\<open>Not modelled.\<close> The verification that writes a verdict (prompts, model calls and git evidence; its result
  is a parameter of the close) and the gates that scan a repository; handoff and evaluation packets,
  telemetry read models, dashboards and command-line rendering; the remaining decisions of the
  enforcement hooks; design-brief and client projections and the DuckDB mirror; prompt files and node
  events of the runner; skills, workflows and templates as prose; installation and release, which are
  file-system and process I/O. Of the modelled operations: the refresh of the derived PRD after a milestone
  close, the due date of a milestone and the printed layout of the drift report. Fallbacks for database schemas older than the current one are left out.
\<close>

end
